(* ===== verification/Prelude.thy ===== *)
theory Prelude
  imports Main "HOL-Library.Word"
begin

text \<open>
  What every component shares: the result type of a request, loops that stop at the first
  error, the SQL idioms the services use (a guarded row update, a count, a first match), the
  rounding of JavaScript's \<open>Math.round\<close> on an exact quotient, and the locale of status
  machines that orders and stores both instantiate.

  A TypeScript number that holds a whole number is an \<open>int\<close>; every amount in the program is
  in cents and far below \<open>2 ^ 53\<close>, the bound up to which doubles are exact.  A PostgreSQL
  \<open>INTEGER\<close> column refuses what does not fit in 32 bits, which \<open>fits_int4\<close> writes out.
\<close>

named_theorems res_simps \<open>unfolding of the result combinators\<close>
named_theorems sql_simps \<open>row updates, counts and look-ups\<close>
named_theorems frame_simps \<open>fields an operation leaves alone\<close>

section \<open>Errors as values\<close>

text \<open>
  \<open>AppError\<close> of \<open>apps/api/src/common/errors/app-error.ts\<close>, one constructor per factory, with
  the message it carries, and the three ways PostgreSQL refuses a statement that the services
  rely on: a unique index, a \<open>CHECK\<close> constraint (or an integer out of range) and an exception
  raised by a trigger.  \<open>ProviderError\<close> is a call to the payment provider that threw.
\<close>

datatype app_error =
    Unauthenticated string
  | Forbidden string
  | NotFound string
  | Validation string
  | AccountLocked string
  | RateLimited string
  | Internal string
  | UniqueViolation string
  | CheckViolation string
  | TriggerRaised string
  | ProviderError string

fun error_status :: "app_error \<Rightarrow> nat" where
  "error_status (Unauthenticated _) = 401"
| "error_status (Forbidden _) = 403"
| "error_status (NotFound _) = 404"
| "error_status (Validation _) = 400"
| "error_status (AccountLocked _) = 423"
| "error_status (RateLimited _) = 429"
| "error_status (Internal _) = 500"
| "error_status (UniqueViolation _) = 500"
| "error_status (CheckViolation _) = 500"
| "error_status (TriggerRaised _) = 500"
| "error_status (ProviderError _) = 500"

text \<open>The stable code of an \<open>AppError\<close>; what the database or a provider throws has none.\<close>

fun error_code :: "app_error \<Rightarrow> string option" where
  "error_code (Unauthenticated _) = Some ''UNAUTHENTICATED''"
| "error_code (Forbidden _) = Some ''FORBIDDEN''"
| "error_code (NotFound _) = Some ''NOT_FOUND''"
| "error_code (Validation _) = Some ''VALIDATION_FAILED''"
| "error_code (AccountLocked _) = Some ''ACCOUNT_LOCKED''"
| "error_code (RateLimited _) = Some ''RATE_LIMITED''"
| "error_code (Internal _) = Some ''INTERNAL_ERROR''"
| "error_code _ = None"

text \<open>\<open>isUniqueViolation\<close> of \<open>infra/prisma/prisma-errors.ts\<close>: the database's 23505.\<close>

fun isUniqueViolation :: "app_error \<Rightarrow> bool" where
  "isUniqueViolation (UniqueViolation _) = True"
| "isUniqueViolation _ = False"

type_synonym 'a res = "app_error + 'a"

definition notFound :: "'a res" where
  "notFound = Inl (NotFound ''Not found.'')"

definition bindE :: "'e + 'a \<Rightarrow> ('a \<Rightarrow> 'e + 'b) \<Rightarrow> 'e + 'b" where
  "bindE m f = (case m of Inl e \<Rightarrow> Inl e | Inr x \<Rightarrow> f x)"

definition mapE :: "('a \<Rightarrow> 'b) \<Rightarrow> 'e + 'a \<Rightarrow> 'e + 'b" where
  "mapE f m = (case m of Inl e \<Rightarrow> Inl e | Inr x \<Rightarrow> Inr (f x))"

definition okE :: "'e + 'a \<Rightarrow> bool" where
  "okE m = (case m of Inl _ \<Rightarrow> False | Inr _ \<Rightarrow> True)"

text \<open>\<open>if (!ok) throw e;\<close>\<close>

definition guardE :: "bool \<Rightarrow> 'e \<Rightarrow> 'e + unit" where
  "guardE ok e = (if ok then Inr () else Inl e)"

lemma guardE_simps [simp, res_simps]: "guardE True e = Inr ()" "guardE False e = Inl e"
  by (simp_all add: guardE_def)

lemma guardE_eq_Inr [simp]: "guardE ok e = Inr u \<longleftrightarrow> ok"
  by (simp add: guardE_def)

lemma guardE_eq_Inl [simp]: "guardE ok e = Inl x \<longleftrightarrow> \<not> ok \<and> x = e"
  by (auto simp: guardE_def)

lemma bindE_Inl [simp, res_simps]: "bindE (Inl e) f = Inl e"
  by (simp add: bindE_def)

lemma bindE_Inr [simp, res_simps]: "bindE (Inr x) f = f x"
  by (simp add: bindE_def)

lemma bindE_eq_Inr [simp]: "bindE m f = Inr y \<longleftrightarrow> (\<exists>x. m = Inr x \<and> f x = Inr y)"
  by (cases m) auto

lemma bindE_eq_Inl: "bindE m f = Inl e \<longleftrightarrow> m = Inl e \<or> (\<exists>x. m = Inr x \<and> f x = Inl e)"
  by (cases m) auto

lemma mapE_Inl [simp, res_simps]: "mapE f (Inl e) = Inl e"
  by (simp add: mapE_def)

lemma mapE_Inr [simp, res_simps]: "mapE f (Inr x) = Inr (f x)"
  by (simp add: mapE_def)

lemma mapE_eq_Inr [simp]: "mapE f m = Inr y \<longleftrightarrow> (\<exists>x. m = Inr x \<and> y = f x)"
  by (cases m) auto

lemma okE_Inl [simp, res_simps]: "\<not> okE (Inl e)"
  by (simp add: okE_def)

lemma okE_Inr [simp, res_simps]: "okE (Inr x)"
  by (simp add: okE_def)

lemma okE_iff: "okE m \<longleftrightarrow> (\<exists>x. m = Inr x)"
  by (cases m) auto

lemma okE_fstE:
  assumes "okE (fst p)"
  obtains x y where "p = (Inr x, y)"
  using assms by (cases p) (auto simp: okE_iff)

section \<open>Loops that stop at the first error\<close>

text \<open>
  A \<open>for ... of\<close> loop whose body may throw: the state is threaded through and the first
  error ends the loop.
\<close>

fun foldE :: "('a \<Rightarrow> 's \<Rightarrow> 'e + 's) \<Rightarrow> 'a list \<Rightarrow> 's \<Rightarrow> 'e + 's" where
  "foldE f [] s = Inr s"
| "foldE f (x # xs) s = bindE (f x s) (foldE f xs)"

text \<open>A \<open>map\<close> whose body may throw.\<close>

fun mapsE :: "('a \<Rightarrow> 'e + 'b) \<Rightarrow> 'a list \<Rightarrow> 'e + 'b list" where
  "mapsE f [] = Inr []"
| "mapsE f (x # xs) = bindE (f x) (\<lambda>y. bindE (mapsE f xs) (\<lambda>ys. Inr (y # ys)))"

lemma foldE_append: "foldE f (xs @ ys) s = bindE (foldE f xs s) (foldE f ys)"
  by (induction xs arbitrary: s) (auto simp: bindE_def split: sum.splits)

lemma foldE_inv:
  assumes "\<And>x s s'. x \<in> set xs \<Longrightarrow> f x s = Inr s' \<Longrightarrow> P s \<Longrightarrow> P s'"
    and "foldE f xs s = Inr s'" and "P s"
  shows "P s'"
  using assms
proof (induction xs arbitrary: s)
  case Nil
  then show ?case by simp
next
  case (Cons x xs)
  from Cons.prems(2) obtain s1 where s1: "f x s = Inr s1" "foldE f xs s1 = Inr s'"
    by auto
  have Ps1: "P s1" using Cons.prems(1) [OF _ s1(1)] Cons.prems(3) by simp
  show ?case by (rule Cons.IH [OF _ s1(2) Ps1]) (rule Cons.prems(1), auto)
qed

lemma foldE_field:
  assumes "\<And>x s s'. x \<in> set xs \<Longrightarrow> f x s = Inr s' \<Longrightarrow> g s' = g s"
    and "foldE f xs s = Inr s'"
  shows "g s' = g s"
  by (rule foldE_inv [where P = "\<lambda>t. g t = g s", OF _ assms(2)]) (auto dest: assms(1))

lemma foldE_cong:
  assumes "\<And>x s. x \<in> set xs \<Longrightarrow> f x s = g x s"
  shows "foldE f xs s = foldE g xs s"
  using assms by (induction xs arbitrary: s) (auto simp: bindE_def split: sum.splits)

lemma mapsE_Inr_iff:
  "mapsE f xs = Inr ys \<longleftrightarrow> list_all2 (\<lambda>x y. f x = Inr y) xs ys"
proof (induction xs arbitrary: ys)
  case Nil
  then show ?case by (cases ys) auto
next
  case (Cons x xs)
  then show ?case by (cases ys) auto
qed

lemma mapsE_length: "mapsE f xs = Inr ys \<Longrightarrow> length ys = length xs"
  by (auto simp: mapsE_Inr_iff dest: list_all2_lengthD)

lemma mapsE_ok: "mapsE f xs = Inr ys \<Longrightarrow> x \<in> set xs \<Longrightarrow> okE (f x)"
  by (induction xs arbitrary: ys) auto

section \<open>SQL idioms\<close>

text \<open>\<open>UPDATE t SET ... WHERE ...\<close> on a table kept as a list of rows.\<close>

definition update_where :: "('r \<Rightarrow> bool) \<Rightarrow> ('r \<Rightarrow> 'r) \<Rightarrow> 'r list \<Rightarrow> 'r list" where
  "update_where p f rows = map (\<lambda>r. if p r then f r else r) rows"

definition count_where :: "('r \<Rightarrow> bool) \<Rightarrow> 'r list \<Rightarrow> nat" where
  "count_where p rows = length (filter p rows)"

definition sum_where :: "('r \<Rightarrow> bool) \<Rightarrow> ('r \<Rightarrow> int) \<Rightarrow> 'r list \<Rightarrow> int" where
  "sum_where p f rows = sum_list (map f (filter p rows))"

lemma update_where_length [simp, sql_simps]: "length (update_where p f rows) = length rows"
  by (simp add: update_where_def)

lemma update_where_Nil [simp, sql_simps]: "update_where p f [] = []"
  by (simp add: update_where_def)

lemma update_where_Cons [simp, sql_simps]:
  "update_where p f (r # rows) = (if p r then f r else r) # update_where p f rows"
  by (simp add: update_where_def)

lemma update_where_id: "(\<And>r. r \<in> set rows \<Longrightarrow> \<not> p r) \<Longrightarrow> update_where p f rows = rows"
  by (induction rows) auto

lemma set_update_where: "set (update_where p f rows) = (\<lambda>r. if p r then f r else r) ` set rows"
  by (simp add: update_where_def)

lemma map_update_where: "(\<And>r. g (f r) = g r) \<Longrightarrow> map g (update_where p f rows) = map g rows"
  by (induction rows) auto

lemma count_where_Nil [simp, sql_simps]: "count_where p [] = 0"
  by (simp add: count_where_def)

lemma count_where_Cons [simp, sql_simps]:
  "count_where p (r # rows) = (if p r then 1 else 0) + count_where p rows"
  by (simp add: count_where_def)

lemma count_where_append [simp, sql_simps]:
  "count_where p (xs @ ys) = count_where p xs + count_where p ys"
  by (simp add: count_where_def)

lemma count_where_0_iff: "count_where p rows = 0 \<longleftrightarrow> (\<forall>r \<in> set rows. \<not> p r)"
  by (induction rows) auto

lemma sum_where_Nil [simp, sql_simps]: "sum_where p f [] = 0"
  by (simp add: sum_where_def)

lemma sum_where_Cons [simp, sql_simps]:
  "sum_where p f (r # rows) = (if p r then f r else 0) + sum_where p f rows"
  by (simp add: sum_where_def)

lemma sum_where_append [simp, sql_simps]:
  "sum_where p f (xs @ ys) = sum_where p f xs + sum_where p f ys"
  by (simp add: sum_where_def)

lemma sum_where_nonneg: "(\<And>r. r \<in> set rows \<Longrightarrow> 0 \<le> f r) \<Longrightarrow> 0 \<le> sum_where p f rows"
  by (induction rows) auto

lemma sum_where_none: "(\<And>r. r \<in> set rows \<Longrightarrow> \<not> p r) \<Longrightarrow> sum_where p f rows = 0"
  by (induction rows) auto

lemma findD: "find p xs = Some x \<Longrightarrow> x \<in> set xs \<and> p x"
  by (auto simp: find_Some_iff)

lemma find_app [sql_simps]:
  "find p (xs @ ys) = (case find p xs of None \<Rightarrow> find p ys | Some x \<Rightarrow> Some x)"
  by (induction xs) auto

lemma distinct_map_eq: "distinct (map f xs) \<Longrightarrow> x \<in> set xs \<Longrightarrow> y \<in> set xs \<Longrightarrow> f x = f y \<Longrightarrow> x = y"
  by (auto simp: distinct_map inj_on_def)

lemma update_where_twice:
  "(\<And>r. p (f r) = p r) \<Longrightarrow> update_where p g (update_where p f rows) = update_where p (\<lambda>r. g (f r)) rows"
  by (induction rows) auto

lemma update_where_cong:
  "(\<And>r. r \<in> set rows \<Longrightarrow> p r = q r) \<Longrightarrow> (\<And>r. r \<in> set rows \<Longrightarrow> q r \<Longrightarrow> f r = g r) \<Longrightarrow>
   update_where p f rows = update_where q g rows"
  by (induction rows) auto

lemma in_update_where: "x \<in> set rows \<Longrightarrow> p x \<Longrightarrow> y = f x \<Longrightarrow> y \<in> set (update_where p f rows)"
  by (auto simp: set_update_where intro!: image_eqI [of _ _ x])

lemma in_update_where_other: "x \<in> set rows \<Longrightarrow> \<not> p x \<Longrightarrow> x \<in> set (update_where p f rows)"
  by (auto simp: set_update_where intro!: image_eqI [of _ _ x])

lemma find_unique:
  assumes "distinct (map f xs)" and "x \<in> set xs" and "f x = i"
  shows "find (\<lambda>y. f y = i) xs = Some x"
proof (cases "find (\<lambda>y. f y = i) xs")
  case None
  then show ?thesis using assms by (auto simp: find_None_iff)
next
  case (Some y)
  then show ?thesis using findD [OF Some] assms distinct_map_eq [of f xs x y] by simp
qed

lemma sum_where_mono:
  assumes "\<And>r. r \<in> set rows \<Longrightarrow> P r \<Longrightarrow> Q r" and "\<And>r. r \<in> set rows \<Longrightarrow> 0 \<le> f r"
  shows "sum_where P f rows \<le> sum_where Q f rows"
  using assms by (induction rows) force+

lemma sum_where_cong:
  "(\<And>r. r \<in> set rows \<Longrightarrow> P r = Q r) \<Longrightarrow> sum_where P f rows = sum_where Q f rows"
  by (induction rows) auto

lemma sum_where_replace:
  assumes "distinct (map key rows)" and "key r = i"
  shows "sum_where P f (update_where (\<lambda>x. key x = i) (\<lambda>_. r) rows) =
    sum_where (\<lambda>x. P x \<and> key x \<noteq> i) f rows + (if i \<in> key ` set rows \<and> P r then f r else 0)"
  using assms
proof (induction rows)
  case (Cons x rows)
  show ?case
  proof (cases "key x = i")
    case True
    then have none: "\<forall>y \<in> set rows. key y \<noteq> i" using Cons.prems(1) by (auto simp: image_iff)
    then have "update_where (\<lambda>x. key x = i) (\<lambda>_. r) rows = rows" by (intro update_where_id) auto
    moreover have "sum_where (\<lambda>x. P x \<and> key x \<noteq> i) f rows = sum_where P f rows"
      by (rule sum_where_cong) (use none in auto)
    ultimately show ?thesis using True by simp
  next
    case False
    then show ?thesis using Cons by auto
  qed
qed simp

text \<open>A 32-bit column.\<close>

definition fits_int4 :: "int \<Rightarrow> bool" where
  "fits_int4 n = (-2147483648 \<le> n \<and> n \<le> 2147483647)"

section \<open>Rounding\<close>

text \<open>
  \<open>Math.round (n / d)\<close> for a positive \<open>d\<close>: the nearest whole number, a half going up.
\<close>

definition js_round_div :: "int \<Rightarrow> int \<Rightarrow> int" where
  "js_round_div n d = (2 * n + d) div (2 * d)"

lemma js_round_div_bounds:
  assumes "0 < d"
  shows "2 * n - d < 2 * d * js_round_div n d" and "2 * d * js_round_div n d \<le> 2 * n + d"
proof -
  have eq: "2 * n + d = 2 * d * ((2 * n + d) div (2 * d)) + (2 * n + d) mod (2 * d)"
    by (metis mult_div_mod_eq)
  have "(2 * n + d) mod (2 * d) < 2 * d" and "0 \<le> (2 * n + d) mod (2 * d)"
    using assms by simp_all
  then show "2 * n - d < 2 * d * js_round_div n d" and "2 * d * js_round_div n d \<le> 2 * n + d"
    using eq unfolding js_round_div_def by linarith+
qed

lemma js_round_div_nonneg: "0 \<le> n \<Longrightarrow> 0 < d \<Longrightarrow> 0 \<le> js_round_div n d"
  by (simp add: js_round_div_def pos_imp_zdiv_nonneg_iff)

lemma js_round_div_le:
  assumes "n \<le> d * k" and "0 < d"
  shows "js_round_div n d \<le> k"
proof -
  have "2 * d * js_round_div n d \<le> 2 * n + d" by (rule js_round_div_bounds [OF assms(2)])
  also have "\<dots> \<le> 2 * (d * k) + d" using assms(1) by simp
  also have "\<dots> < 2 * d * (k + 1)" using assms(2) by (simp add: algebra_simps)
  finally show ?thesis using assms(2) by (simp add: mult_less_cancel_left_pos)
qed

lemma js_round_div_mono:
  assumes "n \<le> m" and "0 < d"
  shows "js_round_div n d \<le> js_round_div m d"
  unfolding js_round_div_def using assms by (intro zdiv_mono1) auto

lemma js_round_div_0 [simp]: "0 < d \<Longrightarrow> js_round_div 0 d = 0"
  by (simp add: js_round_div_def)

section \<open>Numbers as they arrive\<close>

text \<open>
  A number in a request is whole or it is not; of one that is not, only whether it is positive
  matters to the code (\<open>NaN\<close> is not).
\<close>

datatype js_number = Whole int | NotWhole bool

section \<open>Options\<close>

text \<open>\<open>a ?? b\<close>\<close>

definition or_else :: "'a option \<Rightarrow> 'a \<Rightarrow> 'a" where
  "or_else a b = (case a of None \<Rightarrow> b | Some x \<Rightarrow> x)"

text \<open>\<open>COALESCE(a, b)\<close> on two nullable values\<close>

definition coalesce :: "'a option \<Rightarrow> 'a option \<Rightarrow> 'a option" where
  "coalesce a b = (case a of None \<Rightarrow> b | Some x \<Rightarrow> Some x)"

lemma or_else_simps [simp]: "or_else None b = b" "or_else (Some x) b = x"
  by (simp_all add: or_else_def)

lemma coalesce_simps [simp]: "coalesce None b = b" "coalesce (Some x) b = Some x"
  by (simp_all add: coalesce_def)

section \<open>Text\<close>

text \<open>ASCII case conversion, the white space \<open>trim\<close> removes, and decimal numerals.\<close>

definition upper_char :: "char \<Rightarrow> char" where
  "upper_char c =
     (if 97 \<le> (of_char c :: nat) \<and> (of_char c :: nat) \<le> 122
      then char_of ((of_char c :: nat) - 32) else c)"

definition lower_char :: "char \<Rightarrow> char" where
  "lower_char c =
     (if 65 \<le> (of_char c :: nat) \<and> (of_char c :: nat) \<le> 90
      then char_of ((of_char c :: nat) + 32) else c)"

definition is_space :: "char \<Rightarrow> bool" where
  "is_space c = ((of_char c :: nat) \<in> {9, 10, 11, 12, 13, 32})"

definition js_trim :: "string \<Rightarrow> string" where
  "js_trim s = rev (dropWhile is_space (rev (dropWhile is_space s)))"

definition is_digit :: "char \<Rightarrow> bool" where
  "is_digit c = (48 \<le> (of_char c :: nat) \<and> (of_char c :: nat) \<le> 57)"

definition digit_char :: "nat \<Rightarrow> char" where
  "digit_char d = char_of (48 + d)"

fun show_nat :: "nat \<Rightarrow> string" where
  "show_nat n = (if n < 10 then [digit_char n] else show_nat (n div 10) @ [digit_char (n mod 10)])"

declare show_nat.simps [simp del]

definition show_int :: "int \<Rightarrow> string" where
  "show_int i = (if i < 0 then ''-'' @ show_nat (nat (- i)) else show_nat (nat i))"

text \<open>\<open>(cents / 100).toFixed(2)\<close>\<close>

definition pad2 :: "nat \<Rightarrow> string" where
  "pad2 n = [digit_char (n div 10 mod 10), digit_char (n mod 10)]"

definition money_fixed :: "int \<Rightarrow> string" where
  "money_fixed cents =
     (let n = nat \<bar>cents\<bar>
      in (if cents < 0 then ''-'' else []) @ show_nat (n div 100) @ ''.'' @ pad2 (n mod 100))"

section \<open>Status machines\<close>

text \<open>
  Orders and stores each have a table of allowed edges.  The locale states what both tables
  promise (no status lists itself) and proves once what follows for whole histories.
\<close>

inductive status_path :: "('s \<Rightarrow> 's list) \<Rightarrow> 's \<Rightarrow> 's \<Rightarrow> bool" for edges where
  path_refl: "status_path edges s s"
| path_step: "status_path edges s t \<Longrightarrow> u \<in> set (edges t) \<Longrightarrow> status_path edges s u"

locale status_machine =
  fixes edges :: "'s \<Rightarrow> 's list"
    and can :: "'s \<Rightarrow> 's \<Rightarrow> bool"
  assumes can_iff: "can s t \<longleftrightarrow> t \<in> set (edges s)"
    and irrefl: "\<not> can s s"
begin

lemma can_neq: "can s t \<Longrightarrow> s \<noteq> t"
  using irrefl by auto

lemma path_trans: "status_path edges t u \<Longrightarrow> status_path edges s t \<Longrightarrow> status_path edges s u"
  by (induction rule: status_path.induct) (auto intro: status_path.intros)

lemma path_can: "can s t \<Longrightarrow> status_path edges s t"
  using can_iff by (blast intro: status_path.intros)

text \<open>A set no edge leaves keeps a history for good.\<close>

lemma closed_set:
  assumes "status_path edges s t" and "s \<in> C" and "\<And>x y. x \<in> C \<Longrightarrow> can x y \<Longrightarrow> y \<in> C"
  shows "t \<in> C"
  using assms by (induction rule: status_path.induct) (auto simp: can_iff)

lemma terminal_path:
  assumes "status_path edges s t" and "edges s = []"
  shows "t = s"
  using closed_set [OF assms(1), of "{s}"] assms(2) can_iff by auto

text \<open>A measure that never drops along an edge orders every history.\<close>

lemma path_rank:
  fixes rank :: "'s \<Rightarrow> nat"
  assumes "status_path edges s t" and "\<And>x y. can x y \<Longrightarrow> rank x \<le> rank y"
  shows "rank s \<le> rank t"
  using assms
proof (induction rule: status_path.induct)
  case (path_refl s)
  show ?case by simp
next
  case (path_step s t u)
  then have "rank s \<le> rank t" and "rank t \<le> rank u" by (auto simp: can_iff)
  then show ?case by (rule order_trans)
qed

end

end
