(* ===== verification/OrderMachine.thy ===== *)
theory OrderMachine
  imports Prelude
begin

text \<open>
  The order lifecycle of \<open>packages/shared/src/order-state-machine.ts\<close> and its backstop, the
  trigger \<open>check_order_transition\<close> of the orders migration: the statuses, the table of edges,
  the roles that may take each edge.
\<close>

datatype order_status =
    PENDING | CONFIRMED | PREPARING | READY | PICKED_UP | OUT_FOR_DELIVERY
  | DELIVERED | CANCELLED | RETURNED | REFUNDED

datatype membership_role = STORE_ADMIN | INVENTORY_MANAGER | CLERK | DELIVERY

datatype transition_actor = Member membership_role | SYSTEM | CUSTOMER

definition ORDER_STATUSES :: "order_status list" where
  "ORDER_STATUSES = [PENDING, CONFIRMED, PREPARING, READY, PICKED_UP, OUT_FOR_DELIVERY,
     DELIVERED, CANCELLED, RETURNED, REFUNDED]"

fun ORDER_TRANSITIONS :: "order_status \<Rightarrow> order_status list" where
  "ORDER_TRANSITIONS PENDING = [CONFIRMED, CANCELLED]"
| "ORDER_TRANSITIONS CONFIRMED = [PREPARING, CANCELLED]"
| "ORDER_TRANSITIONS PREPARING = [READY, CANCELLED]"
| "ORDER_TRANSITIONS READY = [PICKED_UP, OUT_FOR_DELIVERY, CANCELLED]"
| "ORDER_TRANSITIONS OUT_FOR_DELIVERY = [DELIVERED, READY]"
| "ORDER_TRANSITIONS PICKED_UP = [RETURNED]"
| "ORDER_TRANSITIONS DELIVERED = [RETURNED]"
| "ORDER_TRANSITIONS CANCELLED = [REFUNDED]"
| "ORDER_TRANSITIONS RETURNED = [REFUNDED]"
| "ORDER_TRANSITIONS REFUNDED = []"

text \<open>
  \<open>TRANSITION_ACTORS\<close> is keyed by the string \<open>from->to\<close>; a key that is absent reads as
  \<open>undefined\<close>, here \<open>None\<close>.
\<close>

definition TRANSITION_ACTORS :: "order_status \<times> order_status \<Rightarrow> transition_actor list option" where
  "TRANSITION_ACTORS = map_of
     [((PENDING, CONFIRMED), [SYSTEM, Member CLERK, Member STORE_ADMIN]),
      ((PENDING, CANCELLED), [CUSTOMER, Member CLERK, Member STORE_ADMIN, SYSTEM]),
      ((CONFIRMED, PREPARING), [Member CLERK, Member STORE_ADMIN]),
      ((CONFIRMED, CANCELLED), [CUSTOMER, Member CLERK, Member STORE_ADMIN]),
      ((PREPARING, READY), [Member CLERK, Member STORE_ADMIN]),
      ((PREPARING, CANCELLED), [Member CLERK, Member STORE_ADMIN]),
      ((READY, PICKED_UP), [Member CLERK, Member STORE_ADMIN]),
      ((READY, OUT_FOR_DELIVERY), [Member DELIVERY, SYSTEM]),
      ((READY, CANCELLED), [Member CLERK, Member STORE_ADMIN]),
      ((OUT_FOR_DELIVERY, DELIVERED), [Member DELIVERY]),
      ((OUT_FOR_DELIVERY, READY), [Member DELIVERY, SYSTEM]),
      ((PICKED_UP, RETURNED), [Member CLERK, Member STORE_ADMIN]),
      ((DELIVERED, RETURNED), [Member CLERK, Member STORE_ADMIN]),
      ((CANCELLED, REFUNDED), [SYSTEM, Member STORE_ADMIN, Member CLERK]),
      ((RETURNED, REFUNDED), [SYSTEM, Member STORE_ADMIN, Member CLERK])]"

definition canTransition :: "order_status \<Rightarrow> order_status \<Rightarrow> bool" where
  "canTransition frm to = (to \<in> set (ORDER_TRANSITIONS frm))"

definition isActorAllowed :: "order_status \<Rightarrow> order_status \<Rightarrow> transition_actor \<Rightarrow> bool" where
  "isActorAllowed frm to actor =
     (case TRANSITION_ACTORS (frm, to) of None \<Rightarrow> False | Some allowed \<Rightarrow> actor \<in> set allowed)"

datatype invalid_transition = InvalidTransitionError order_status order_status

definition assertTransition ::
    "order_status \<Rightarrow> order_status \<Rightarrow> invalid_transition + unit" where
  "assertTransition frm to =
     (if canTransition frm to then Inr () else Inl (InvalidTransitionError frm to))"

text \<open>\<open>humanize\<close> of \<open>orders.service.ts\<close>: lower case, underscores as blanks.\<close>

fun humanize :: "order_status \<Rightarrow> string" where
  "humanize PENDING = ''pending''"
| "humanize CONFIRMED = ''confirmed''"
| "humanize PREPARING = ''preparing''"
| "humanize READY = ''ready''"
| "humanize PICKED_UP = ''picked up''"
| "humanize OUT_FOR_DELIVERY = ''out for delivery''"
| "humanize DELIVERED = ''delivered''"
| "humanize CANCELLED = ''cancelled''"
| "humanize RETURNED = ''returned''"
| "humanize REFUNDED = ''refunded''"

text \<open>The trigger: an update that keeps the status passes, any other must be one of its edges.\<close>

definition check_order_transition :: "order_status \<Rightarrow> order_status \<Rightarrow> bool" where
  "check_order_transition old new =
     (if new = old then True
      else (old = PENDING \<and> new \<in> {CONFIRMED, CANCELLED}) \<or>
           (old = CONFIRMED \<and> new \<in> {PREPARING, CANCELLED}) \<or>
           (old = PREPARING \<and> new \<in> {READY, CANCELLED}) \<or>
           (old = READY \<and> new \<in> {PICKED_UP, OUT_FOR_DELIVERY, CANCELLED}) \<or>
           (old = OUT_FOR_DELIVERY \<and> new \<in> {DELIVERED, READY}) \<or>
           (old = PICKED_UP \<and> new = RETURNED) \<or>
           (old = DELIVERED \<and> new = RETURNED) \<or>
           (old = CANCELLED \<and> new = REFUNDED) \<or>
           (old = RETURNED \<and> new = REFUNDED))"

section \<open>Basic facts\<close>

lemma in_ORDER_STATUSES [simp]: "s \<in> set ORDER_STATUSES"
  by (cases s) (simp_all add: ORDER_STATUSES_def)

lemma canTransition_irrefl: "\<not> canTransition s s"
  by (cases s) (simp_all add: canTransition_def)

lemma assertTransition_ok [simp]: "assertTransition s t = Inr u \<longleftrightarrow> canTransition s t"
  by (simp add: assertTransition_def)

interpretation om: status_machine ORDER_TRANSITIONS canTransition
  by unfold_locales (simp_all add: canTransition_def canTransition_irrefl [unfolded canTransition_def])

lemma canTransition_simps [simp]:
  "canTransition PENDING t \<longleftrightarrow> t = CONFIRMED \<or> t = CANCELLED"
  "canTransition CONFIRMED t \<longleftrightarrow> t = PREPARING \<or> t = CANCELLED"
  "canTransition PREPARING t \<longleftrightarrow> t = READY \<or> t = CANCELLED"
  "canTransition READY t \<longleftrightarrow> t = PICKED_UP \<or> t = OUT_FOR_DELIVERY \<or> t = CANCELLED"
  "canTransition OUT_FOR_DELIVERY t \<longleftrightarrow> t = DELIVERED \<or> t = READY"
  "canTransition PICKED_UP t \<longleftrightarrow> t = RETURNED"
  "canTransition DELIVERED t \<longleftrightarrow> t = RETURNED"
  "canTransition CANCELLED t \<longleftrightarrow> t = REFUNDED"
  "canTransition RETURNED t \<longleftrightarrow> t = REFUNDED"
  "\<not> canTransition REFUNDED t"
  by (auto simp: canTransition_def)

lemma trigger_agrees: "check_order_transition s t \<longleftrightarrow> s = t \<or> canTransition s t"
  by (cases s; cases t) (simp_all add: check_order_transition_def canTransition_def)

lemma actors_key: "TRANSITION_ACTORS (s, t) \<noteq> None \<longleftrightarrow> canTransition s t"
  by (cases s; cases t) (simp_all add: canTransition_def TRANSITION_ACTORS_def)

lemma isActorAllowed_can: "isActorAllowed s t a \<Longrightarrow> canTransition s t"
  using actors_key [of s t] by (auto simp: isActorAllowed_def split: option.splits)

text \<open>
  The edges go forward through the life of an order, except that a failed delivery comes back
  to the shelf; \<open>READY\<close> and \<open>OUT_FOR_DELIVERY\<close> share a rank.
\<close>

fun order_rank :: "order_status \<Rightarrow> nat" where
  "order_rank PENDING = 0"
| "order_rank CONFIRMED = 1"
| "order_rank PREPARING = 2"
| "order_rank READY = 3"
| "order_rank OUT_FOR_DELIVERY = 3"
| "order_rank PICKED_UP = 4"
| "order_rank DELIVERED = 4"
| "order_rank CANCELLED = 5"
| "order_rank RETURNED = 5"
| "order_rank REFUNDED = 6"

lemma order_rank_mono: "canTransition s t \<Longrightarrow> order_rank s \<le> order_rank t"
  by (cases s; cases t) simp_all

lemma order_rank_mono_path: "status_path ORDER_TRANSITIONS s t \<Longrightarrow> order_rank s \<le> order_rank t"
  by (rule om.path_rank) (auto intro: order_rank_mono)

lemma closed_over_refund:
  assumes "status_path ORDER_TRANSITIONS s t" and "s \<in> {CANCELLED, RETURNED, REFUNDED}"
  shows "t \<in> {CANCELLED, RETURNED, REFUNDED}"
  by (rule om.closed_set [OF assms]) auto

section \<open>Properties\<close>

text \<open>
  The database trigger and the shared table agree on every pair of statuses: the backstop
  refuses exactly the changes of status the table forbids, and the changes some actor is listed
  for are exactly the legal ones, so no edge is dead and no actor is listed for a missing edge.
\<close>

theorem trigger_is_table:
  "check_order_transition s t = (s = t \<or> canTransition s t) \<and>
   canTransition s t = (\<exists>a. isActorAllowed s t a)"
proof -
  have "\<exists>a. isActorAllowed s t a" if "canTransition s t"
    using that by (cases s; cases t) (auto simp: isActorAllowed_def TRANSITION_ACTORS_def)
  then show ?thesis
    using trigger_agrees [of s t] isActorAllowed_can [of s t] by blast
qed

text \<open>
  No history of an order goes back to a stage it has left: whatever sequence of legal
  changes is made, the order never returns to being unconfirmed, unprepared or open once past
  it, the one exception being a delivery that fails and comes back to the shelf; once it is
  cancelled, returned or refunded it stays so, and a refunded order never changes again.
\<close>

theorem order_history_forward:
  assumes "status_path ORDER_TRANSITIONS s t"
  shows "order_rank s \<le> order_rank t \<and>
    (s \<in> {CANCELLED, RETURNED, REFUNDED} \<longrightarrow> t \<in> {CANCELLED, RETURNED, REFUNDED}) \<and>
    (s = REFUNDED \<longrightarrow> t = REFUNDED)"
  using order_rank_mono_path [OF assms] closed_over_refund [OF assms]
    om.terminal_path [OF assms] by auto

theorem order_history_forward_witness:
  "status_path ORDER_TRANSITIONS CANCELLED REFUNDED \<and>
   order_rank CANCELLED \<le> order_rank REFUNDED"
proof -
  have p: "status_path ORDER_TRANSITIONS CANCELLED REFUNDED"
    by (rule path_step [OF path_refl]) simp
  show ?thesis using p order_history_forward [OF p] by blast
qed

end
