(* ===== verification/StoreLifecycle.thy ===== *)
theory StoreLifecycle
  imports Prelude
begin

text \<open>
  The store lifecycle of \<open>packages/shared/src/store-lifecycle.ts\<close>: which status may follow
  which, who sees the storefront and who may sign in.
\<close>

datatype store_status = APPROVED | ACTIVE | SUSPENDED | CLOSED

fun STORE_TRANSITIONS :: "store_status \<Rightarrow> store_status list" where
  "STORE_TRANSITIONS APPROVED = [ACTIVE, CLOSED]"
| "STORE_TRANSITIONS ACTIVE = [SUSPENDED, CLOSED]"
| "STORE_TRANSITIONS SUSPENDED = [ACTIVE, CLOSED]"
| "STORE_TRANSITIONS CLOSED = []"

definition PUBLICLY_VISIBLE_STATUSES :: "store_status list" where
  "PUBLICLY_VISIBLE_STATUSES = [ACTIVE]"

definition STAFF_ACCESSIBLE_STATUSES :: "store_status list" where
  "STAFF_ACCESSIBLE_STATUSES = [APPROVED, ACTIVE]"

definition canTransitionStore :: "store_status \<Rightarrow> store_status \<Rightarrow> bool" where
  "canTransitionStore frm to = (to \<in> set (STORE_TRANSITIONS frm))"

definition isPubliclyVisible :: "store_status \<Rightarrow> bool" where
  "isPubliclyVisible s = (s \<in> set PUBLICLY_VISIBLE_STATUSES)"

definition isStaffAccessible :: "store_status \<Rightarrow> bool" where
  "isStaffAccessible s = (s \<in> set STAFF_ACCESSIBLE_STATUSES)"

datatype invalid_store_transition = InvalidStoreTransitionError store_status store_status

definition assertStoreTransition ::
    "store_status \<Rightarrow> store_status \<Rightarrow> invalid_store_transition + unit" where
  "assertStoreTransition frm to =
     (if canTransitionStore frm to then Inr () else Inl (InvalidStoreTransitionError frm to))"

interpretation sm: status_machine STORE_TRANSITIONS canTransitionStore
proof unfold_locales
  show "\<not> canTransitionStore s s" for s
    by (cases s) (simp_all add: canTransitionStore_def)
qed (simp add: canTransitionStore_def)

lemma canTransitionStore_simps [simp]:
  "canTransitionStore APPROVED t \<longleftrightarrow> t = ACTIVE \<or> t = CLOSED"
  "canTransitionStore ACTIVE t \<longleftrightarrow> t = SUSPENDED \<or> t = CLOSED"
  "canTransitionStore SUSPENDED t \<longleftrightarrow> t = ACTIVE \<or> t = CLOSED"
  "\<not> canTransitionStore CLOSED t"
  by (auto simp: canTransitionStore_def)

lemma leaves_approved_for_good:
  assumes "status_path STORE_TRANSITIONS s t" and "s \<noteq> APPROVED"
  shows "t \<noteq> APPROVED"
proof -
  have "t \<in> {ACTIVE, SUSPENDED, CLOSED}"
    by (rule sm.closed_set [OF assms(1)]) (use assms(2) in \<open>cases s; auto\<close>)+
  then show ?thesis by auto
qed

text \<open>
  A closed shop stays closed, a shop that has left the set-up stage never re-enters it, and
  a shop the public can reach is one its staff can reach: these hold along every sequence of
  legal changes of a store's status.
\<close>

theorem store_history:
  assumes "status_path STORE_TRANSITIONS s t"
  shows "(s = CLOSED \<longrightarrow> t = CLOSED) \<and> (s \<noteq> APPROVED \<longrightarrow> t \<noteq> APPROVED) \<and>
    (isPubliclyVisible t \<longrightarrow> isStaffAccessible t \<and> s \<noteq> CLOSED)"
proof -
  have closed: "s = CLOSED \<longrightarrow> t = CLOSED"
    using sm.terminal_path [OF assms] by auto
  then show ?thesis
    using leaves_approved_for_good [OF assms]
    by (auto simp: isPubliclyVisible_def isStaffAccessible_def PUBLICLY_VISIBLE_STATUSES_def
        STAFF_ACCESSIBLE_STATUSES_def)
qed

theorem store_history_witness:
  "status_path STORE_TRANSITIONS SUSPENDED ACTIVE \<and> isStaffAccessible ACTIVE"
proof -
  have p: "status_path STORE_TRANSITIONS SUSPENDED ACTIVE"
    by (rule path_step [OF path_refl]) simp
  have "isPubliclyVisible ACTIVE"
    by (simp add: isPubliclyVisible_def PUBLICLY_VISIBLE_STATUSES_def)
  then show ?thesis using p store_history [OF p] by blast
qed

end
