(* ===== verification/Permissions.thy ===== *)
theory Permissions
  imports OrderMachine
begin

text \<open>
  The permission catalog of \<open>packages/shared/src/permissions.ts\<close>: the store-scoped and the
  platform permissions, the bundle each role starts with, the guardrail on what a store admin
  may grant, and the resolution of a membership's effective set.  A \<open>ReadonlySet\<close> is a set.
\<close>

datatype permission =
     StoreRead | StoreSettings | StoreBranding | StorePaymentsConfig | StaffRead | StaffManage |
     CatalogRead | CatalogWrite | CatalogPublish | InventoryRead | InventoryReceive |
     InventoryAdjust | InventoryCount | OrdersRead | OrdersManage | OrdersCreatePos |
     OrdersCancel | OrdersRefund | PaymentsCollectCash | PaymentsRead | DeliveryReadOwn |
     DeliveryReadAll | DeliveryUpdateOwn | DeliveryAssign | CustomersRead | CustomersMessage |
     CouponsRead | CouponsManage | ReportsSales | ReportsInventory | ReportsStaff | ReviewsRead |
     ReviewsReply | ReviewsReport | PlatformStores | PlatformUsers | PlatformBilling |
     PlatformAudit | PlatformAnnounce | PlatformConfig | PlatformImpersonate

fun perm_name :: "permission \<Rightarrow> string" where
  "perm_name StoreRead = ''store:read''"
| "perm_name StoreSettings = ''store:settings''"
| "perm_name StoreBranding = ''store:branding''"
| "perm_name StorePaymentsConfig = ''store:payments-config''"
| "perm_name StaffRead = ''staff:read''"
| "perm_name StaffManage = ''staff:manage''"
| "perm_name CatalogRead = ''catalog:read''"
| "perm_name CatalogWrite = ''catalog:write''"
| "perm_name CatalogPublish = ''catalog:publish''"
| "perm_name InventoryRead = ''inventory:read''"
| "perm_name InventoryReceive = ''inventory:receive''"
| "perm_name InventoryAdjust = ''inventory:adjust''"
| "perm_name InventoryCount = ''inventory:count''"
| "perm_name OrdersRead = ''orders:read''"
| "perm_name OrdersManage = ''orders:manage''"
| "perm_name OrdersCreatePos = ''orders:create-pos''"
| "perm_name OrdersCancel = ''orders:cancel''"
| "perm_name OrdersRefund = ''orders:refund''"
| "perm_name PaymentsCollectCash = ''payments:collect-cash''"
| "perm_name PaymentsRead = ''payments:read''"
| "perm_name DeliveryReadOwn = ''delivery:read-own''"
| "perm_name DeliveryReadAll = ''delivery:read-all''"
| "perm_name DeliveryUpdateOwn = ''delivery:update-own''"
| "perm_name DeliveryAssign = ''delivery:assign''"
| "perm_name CustomersRead = ''customers:read''"
| "perm_name CustomersMessage = ''customers:message''"
| "perm_name CouponsRead = ''coupons:read''"
| "perm_name CouponsManage = ''coupons:manage''"
| "perm_name ReportsSales = ''reports:sales''"
| "perm_name ReportsInventory = ''reports:inventory''"
| "perm_name ReportsStaff = ''reports:staff''"
| "perm_name ReviewsRead = ''reviews:read''"
| "perm_name ReviewsReply = ''reviews:reply''"
| "perm_name ReviewsReport = ''reviews:report''"
| "perm_name PlatformStores = ''platform:stores''"
| "perm_name PlatformUsers = ''platform:users''"
| "perm_name PlatformBilling = ''platform:billing''"
| "perm_name PlatformAudit = ''platform:audit''"
| "perm_name PlatformAnnounce = ''platform:announce''"
| "perm_name PlatformConfig = ''platform:config''"
| "perm_name PlatformImpersonate = ''platform:impersonate''"

definition PERMISSIONS :: "permission list" where
  "PERMISSIONS =
    [StoreRead, StoreSettings, StoreBranding, StorePaymentsConfig, StaffRead, StaffManage,
     CatalogRead, CatalogWrite, CatalogPublish, InventoryRead, InventoryReceive,
     InventoryAdjust, InventoryCount, OrdersRead, OrdersManage, OrdersCreatePos,
     OrdersCancel, OrdersRefund, PaymentsCollectCash, PaymentsRead, DeliveryReadOwn,
     DeliveryReadAll, DeliveryUpdateOwn, DeliveryAssign, CustomersRead, CustomersMessage,
     CouponsRead, CouponsManage, ReportsSales, ReportsInventory, ReportsStaff, ReviewsRead,
     ReviewsReply, ReviewsReport, PlatformStores, PlatformUsers, PlatformBilling,
     PlatformAudit, PlatformAnnounce, PlatformConfig, PlatformImpersonate]"

definition isPlatformPermission :: "permission \<Rightarrow> bool" where
  "isPlatformPermission p = (take 9 (perm_name p) = ''platform:'')"

definition STORE_PERMISSIONS :: "permission list" where
  "STORE_PERMISSIONS = filter (\<lambda>p. \<not> isPlatformPermission p) PERMISSIONS"

fun ROLE_DEFAULT_PERMISSIONS :: "membership_role \<Rightarrow> permission list" where
  "ROLE_DEFAULT_PERMISSIONS STORE_ADMIN = STORE_PERMISSIONS"
| "ROLE_DEFAULT_PERMISSIONS INVENTORY_MANAGER =
    [StoreRead, CatalogRead, CatalogWrite, InventoryRead, InventoryReceive,
     InventoryAdjust, InventoryCount, ReportsInventory]"
| "ROLE_DEFAULT_PERMISSIONS CLERK =
    [StoreRead, CatalogRead, InventoryRead, OrdersRead, OrdersManage, OrdersCreatePos,
     OrdersCancel, PaymentsCollectCash, PaymentsRead, CustomersRead, CustomersMessage,
     DeliveryAssign]"
| "ROLE_DEFAULT_PERMISSIONS DELIVERY =
    [StoreRead, OrdersRead, DeliveryReadOwn, DeliveryUpdateOwn]"

fun ROLE_OPTIONAL_GRANT_SUPERSET :: "membership_role \<Rightarrow> permission list" where
  "ROLE_OPTIONAL_GRANT_SUPERSET STORE_ADMIN = []"
| "ROLE_OPTIONAL_GRANT_SUPERSET INVENTORY_MANAGER = [CatalogPublish, OrdersRead]"
| "ROLE_OPTIONAL_GRANT_SUPERSET CLERK = [OrdersRefund, CouponsManage, ReportsSales]"
| "ROLE_OPTIONAL_GRANT_SUPERSET DELIVERY = [PaymentsCollectCash]"

datatype effect = GRANT | DENY

record permission_override =
  ov_permission :: permission
  ov_effect :: effect

datatype grant_error = OutsideSuperset permission membership_role

text \<open>
  Two passes over the overrides: the first adds every grant, or throws on the first one outside
  the superset; the second takes every denied permission away.
\<close>

definition grant_step ::
    "membership_role \<Rightarrow> permission_override \<Rightarrow> permission set \<Rightarrow> grant_error + permission set"
  where
  "grant_step role ov eff =
     (if ov_effect ov = GRANT
      then if ov_permission ov \<in> set (ROLE_OPTIONAL_GRANT_SUPERSET role)
           then Inr (insert (ov_permission ov) eff)
           else Inl (OutsideSuperset (ov_permission ov) role)
      else Inr eff)"

definition deny_step :: "permission_override \<Rightarrow> permission set \<Rightarrow> permission set" where
  "deny_step ov eff = (if ov_effect ov = DENY then eff - {ov_permission ov} else eff)"

definition resolveEffectivePermissions ::
    "membership_role \<Rightarrow> permission_override list \<Rightarrow> grant_error + permission set" where
  "resolveEffectivePermissions role overrides =
     bindE (foldE (grant_step role) overrides (set (ROLE_DEFAULT_PERMISSIONS role)))
       (\<lambda>eff. Inr (fold deny_step overrides eff))"

definition hasPermission :: "permission set \<Rightarrow> permission \<Rightarrow> bool" where
  "hasPermission effective required = (required \<in> effective)"

section \<open>The resolved set\<close>

definition granted :: "permission_override list \<Rightarrow> permission set" where
  "granted ovs = ov_permission ` {ov \<in> set ovs. ov_effect ov = GRANT}"

definition denied :: "permission_override list \<Rightarrow> permission set" where
  "denied ovs = ov_permission ` {ov \<in> set ovs. ov_effect ov = DENY}"

lemma granted_simps [simp]:
  "granted [] = {}"
  "granted (ov # ovs) = (if ov_effect ov = GRANT then {ov_permission ov} else {}) \<union> granted ovs"
  by (auto simp: granted_def)

lemma denied_simps [simp]:
  "denied [] = {}"
  "denied (ov # ovs) = (if ov_effect ov = DENY then {ov_permission ov} else {}) \<union> denied ovs"
  by (auto simp: denied_def)

lemma fold_deny: "fold deny_step ovs eff = eff - denied ovs"
  by (induction ovs arbitrary: eff) (auto simp: deny_step_def)

lemma foldE_grant:
  "foldE (grant_step role) ovs eff = Inr eff' \<longleftrightarrow>
     granted ovs \<subseteq> set (ROLE_OPTIONAL_GRANT_SUPERSET role) \<and> eff' = eff \<union> granted ovs"
  by (induction ovs arbitrary: eff) (auto simp: grant_step_def)

lemma resolve_iff:
  "resolveEffectivePermissions role ovs = Inr eff \<longleftrightarrow>
     granted ovs \<subseteq> set (ROLE_OPTIONAL_GRANT_SUPERSET role) \<and>
     eff = (set (ROLE_DEFAULT_PERMISSIONS role) \<union> granted ovs) - denied ovs"
  by (auto simp: resolveEffectivePermissions_def foldE_grant fold_deny)

lemma isPlatformPermission_simps [simp]:
  "\<not> isPlatformPermission StoreRead"
  "\<not> isPlatformPermission StoreSettings"
  "\<not> isPlatformPermission StoreBranding"
  "\<not> isPlatformPermission StorePaymentsConfig"
  "\<not> isPlatformPermission StaffRead"
  "\<not> isPlatformPermission StaffManage"
  "\<not> isPlatformPermission CatalogRead"
  "\<not> isPlatformPermission CatalogWrite"
  "\<not> isPlatformPermission CatalogPublish"
  "\<not> isPlatformPermission InventoryRead"
  "\<not> isPlatformPermission InventoryReceive"
  "\<not> isPlatformPermission InventoryAdjust"
  "\<not> isPlatformPermission InventoryCount"
  "\<not> isPlatformPermission OrdersRead"
  "\<not> isPlatformPermission OrdersManage"
  "\<not> isPlatformPermission OrdersCreatePos"
  "\<not> isPlatformPermission OrdersCancel"
  "\<not> isPlatformPermission OrdersRefund"
  "\<not> isPlatformPermission PaymentsCollectCash"
  "\<not> isPlatformPermission PaymentsRead"
  "\<not> isPlatformPermission DeliveryReadOwn"
  "\<not> isPlatformPermission DeliveryReadAll"
  "\<not> isPlatformPermission DeliveryUpdateOwn"
  "\<not> isPlatformPermission DeliveryAssign"
  "\<not> isPlatformPermission CustomersRead"
  "\<not> isPlatformPermission CustomersMessage"
  "\<not> isPlatformPermission CouponsRead"
  "\<not> isPlatformPermission CouponsManage"
  "\<not> isPlatformPermission ReportsSales"
  "\<not> isPlatformPermission ReportsInventory"
  "\<not> isPlatformPermission ReportsStaff"
  "\<not> isPlatformPermission ReviewsRead"
  "\<not> isPlatformPermission ReviewsReply"
  "\<not> isPlatformPermission ReviewsReport"
  "isPlatformPermission PlatformStores"
  "isPlatformPermission PlatformUsers"
  "isPlatformPermission PlatformBilling"
  "isPlatformPermission PlatformAudit"
  "isPlatformPermission PlatformAnnounce"
  "isPlatformPermission PlatformConfig"
  "isPlatformPermission PlatformImpersonate"
  by (simp_all add: isPlatformPermission_def)

lemma defaults_not_platform: "p \<in> set (ROLE_DEFAULT_PERMISSIONS role) \<Longrightarrow> \<not> isPlatformPermission p"
  by (cases role) (auto simp: STORE_PERMISSIONS_def)

lemma superset_not_platform: "p \<in> set (ROLE_OPTIONAL_GRANT_SUPERSET role) \<Longrightarrow> \<not> isPlatformPermission p"
  by (cases role) auto

lemma PERMISSIONS_complete: "p \<in> set PERMISSIONS"
  by (cases p) (simp_all add: PERMISSIONS_def)

lemma store_admin_defaults: "set (ROLE_DEFAULT_PERMISSIONS STORE_ADMIN) = {p. \<not> isPlatformPermission p}"
  using PERMISSIONS_complete by (auto simp: STORE_PERMISSIONS_def)

section \<open>Properties\<close>

text \<open>
  Resolving a membership's permissions fails exactly when some grant lies outside the role's
  superset, and otherwise yields the role's defaults plus the grants, minus every denied
  permission whatever the order of the overrides; a denied permission is never held, and no
  membership of any role ever resolves to a platform permission.
\<close>

theorem resolve_correct:
  "(okE (resolveEffectivePermissions role ovs) =
      (granted ovs \<subseteq> set (ROLE_OPTIONAL_GRANT_SUPERSET role))) \<and>
   (case resolveEffectivePermissions role ovs of
      Inl (OutsideSuperset p r) \<Rightarrow> r = role \<and> p \<in> granted ovs - set (ROLE_OPTIONAL_GRANT_SUPERSET role)
    | Inr eff \<Rightarrow>
        (\<forall>p. hasPermission eff p =
           ((p \<in> set (ROLE_DEFAULT_PERMISSIONS role) \<or> p \<in> granted ovs) \<and> p \<notin> denied ovs)) \<and>
        \<not> (\<exists>p. hasPermission eff p \<and> isPlatformPermission p))"
proof (cases "resolveEffectivePermissions role ovs")
  case (Inl e)
  have err: "foldE (grant_step role) xs eff = Inl (OutsideSuperset p r) \<Longrightarrow>
      r = role \<and> p \<in> granted xs - set (ROLE_OPTIONAL_GRANT_SUPERSET role)" for xs eff p r
    by (induction xs arbitrary: eff) (auto simp: grant_step_def split: if_splits)
  obtain p r where e: "e = OutsideSuperset p r" by (cases e)
  have "foldE (grant_step role) ovs (set (ROLE_DEFAULT_PERMISSIONS role)) = Inl (OutsideSuperset p r)"
    using Inl e by (simp add: resolveEffectivePermissions_def bindE_eq_Inl)
  from err [OF this] show ?thesis using Inl e by auto
next
  case (Inr eff)
  then have g: "granted ovs \<subseteq> set (ROLE_OPTIONAL_GRANT_SUPERSET role)"
    and eff: "eff = (set (ROLE_DEFAULT_PERMISSIONS role) \<union> granted ovs) - denied ovs"
    by (simp_all add: resolve_iff)
  have "\<not> (\<exists>p. hasPermission eff p \<and> isPlatformPermission p)"
    using defaults_not_platform superset_not_platform g
    unfolding eff hasPermission_def by blast
  moreover have "hasPermission eff p =
      ((p \<in> set (ROLE_DEFAULT_PERMISSIONS role) \<or> p \<in> granted ovs) \<and> p \<notin> denied ovs)" for p
    by (simp add: eff hasPermission_def)
  ultimately show ?thesis
    unfolding Inr using g by simp
qed

end
