(* ===== verification/Csv.thy ===== *)
theory Csv
  imports Prelude
begin

text \<open>
  The CSV writer of \<open>packages/shared/src/csv.ts\<close>, the writer and the parser of
  \<open>modules/catalog/catalog-csv.service.ts\<close>, and the two directions of money in a cell.  A cell
  is a \<open>string\<close>; the parser is the source's loop over characters, with its one-character
  look-ahead, as a recursive function over what is left of the text.
\<close>

definition CR :: char where "CR = CHR 0x0D"
definition LF :: char where "LF = CHR 0x0A"
definition QUOTE :: char where "QUOTE = CHR 0x22"
definition COMMA :: char where "COMMA = CHR 0x2C"

lemma char_distinct [simp]:
  "CR \<noteq> LF" "LF \<noteq> CR" "CR \<noteq> QUOTE" "QUOTE \<noteq> CR" "CR \<noteq> COMMA" "COMMA \<noteq> CR"
  "LF \<noteq> QUOTE" "QUOTE \<noteq> LF" "LF \<noteq> COMMA" "COMMA \<noteq> LF" "QUOTE \<noteq> COMMA" "COMMA \<noteq> QUOTE"
  by (simp_all add: CR_def LF_def QUOTE_def COMMA_def)

section \<open>Writing\<close>

text \<open>\<open>value.replace(/"/g, '""')\<close>\<close>

fun double_quotes :: "string \<Rightarrow> string" where
  "double_quotes [] = []"
| "double_quotes (c # cs) = (if c = QUOTE then [QUOTE, QUOTE] else [c]) @ double_quotes cs"

definition escapeCsvCell :: "string \<Rightarrow> string" where
  "escapeCsvCell v =
     (if \<exists>c \<in> set v. c = QUOTE \<or> c = COMMA \<or> c = LF \<or> c = CR
      then QUOTE # double_quotes v @ [QUOTE] else v)"

text \<open>What a row may hold; a \<open>Date\<close> carries its ISO text.\<close>

datatype csv_value = CNull | CUndefined | CDate string | CText string | CNumber int

fun csvCell :: "csv_value \<Rightarrow> string" where
  "csvCell CNull = []"
| "csvCell CUndefined = []"
| "csvCell (CDate txt) = txt"
| "csvCell (CText s) = escapeCsvCell s"
| "csvCell (CNumber n) = escapeCsvCell (show_int n)"

definition csvMoney :: "int \<Rightarrow> string" where
  "csvMoney cents = money_fixed cents"

fun join :: "string \<Rightarrow> string list \<Rightarrow> string" where
  "join sep [] = []"
| "join sep [x] = x"
| "join sep (x # y # xs) = x @ sep @ join sep (y # xs)"

definition toCsv :: "string list \<Rightarrow> string list list \<Rightarrow> string" where
  "toCsv header rows =
     join [CR, LF] (join [COMMA] (map escapeCsvCell header) # map (join [COMMA]) rows) @ [CR, LF]"

text \<open>The catalog's own copy, which does not look for a carriage return.\<close>

definition escapeCell :: "string \<Rightarrow> string" where
  "escapeCell v =
     (if \<exists>c \<in> set v. c = QUOTE \<or> c = COMMA \<or> c = LF
      then QUOTE # double_quotes v @ [QUOTE] else v)"

section \<open>Parsing\<close>

text \<open>\<open>input.replace(/\r\n/g, "\n").replace(/\r/g, "\n")\<close>\<close>

fun replace_crlf :: "string \<Rightarrow> string" where
  "replace_crlf [] = []"
| "replace_crlf [c] = [c]"
| "replace_crlf (c # d # cs) =
     (if c = CR \<and> d = LF then LF # replace_crlf cs else c # replace_crlf (d # cs))"

definition replace_cr :: "string \<Rightarrow> string" where
  "replace_cr = map (\<lambda>c. if c = CR then LF else c)"

fun parse_loop ::
    "string \<Rightarrow> bool \<Rightarrow> string \<Rightarrow> string list \<Rightarrow> string list list \<Rightarrow> string list list" where
  "parse_loop [] inQuotes cell row rows =
     filter (\<lambda>r. length r > 0)
       (if cell \<noteq> [] \<or> length row > 0 then rows @ [row @ [cell]] else rows)"
| "parse_loop (c # cs) True cell row rows =
     (if c = QUOTE
      then (case cs of
              d # ds \<Rightarrow> if d = QUOTE then parse_loop ds True (cell @ [QUOTE]) row rows
                        else parse_loop cs False cell row rows
            | [] \<Rightarrow> parse_loop cs False cell row rows)
      else parse_loop cs True (cell @ [c]) row rows)"
| "parse_loop (c # cs) False cell row rows =
     (if c = QUOTE then parse_loop cs True cell row rows
      else if c = COMMA then parse_loop cs False [] (row @ [cell]) rows
      else if c = LF then parse_loop cs False [] [] (rows @ [row @ [cell]])
      else parse_loop cs False (cell @ [c]) row rows)"

definition parseCsv :: "string \<Rightarrow> string list list" where
  "parseCsv input = parse_loop (replace_cr (replace_crlf input)) False [] [] []"

section \<open>Money in a cell\<close>

text \<open>
  \<open>parseMoney\<close>: drops currency signs, commas and blanks, then wants digits with at most two
  decimals.  Of the signs the source drops, the dollar is the one in the ASCII range.
\<close>

definition digit_val :: "char \<Rightarrow> nat" where
  "digit_val c = (of_char c :: nat) - 48"

definition number_of_digits :: "string \<Rightarrow> nat" where
  "number_of_digits ds = foldl (\<lambda>n d. n * 10 + digit_val d) 0 ds"

definition parseMoney :: "string \<Rightarrow> int option" where
  "parseMoney input =
     (let cleaned = filter (\<lambda>c. \<not> (c = CHR ''$'' \<or> c = COMMA \<or> is_space c)) input;
          whole = takeWhile is_digit cleaned;
          rest = dropWhile is_digit cleaned
      in if whole = [] then None
         else (case rest of
             [] \<Rightarrow> Some (int (number_of_digits whole) * 100)
           | p # frac \<Rightarrow>
               if p = CHR ''.'' \<and> (length frac = 1 \<or> length frac = 2) \<and> list_all is_digit frac
               then Some (int (number_of_digits whole) * 100 +
                    int (number_of_digits frac) * (if length frac = 1 then 10 else 1))
               else None))"

section \<open>The catalog as a file\<close>

record catalog_row =
  cr_sku :: "string option"
  cr_name :: string
  cr_attrs :: "(string \<times> string) list"
  cr_brand :: "string option"
  cr_description :: "string option"
  cr_category :: "string option"
  cr_price_cents :: int
  cr_compare_at_cents :: "int option"
  cr_barcode :: "string option"
  cr_status :: string

definition COLUMNS :: "string list" where
  "COLUMNS = [''sku'', ''name'', ''brand'', ''description'', ''category'', ''price'',
     ''compare_at_price'', ''barcode'', ''status'']"

definition describeVariant :: "string \<Rightarrow> (string \<times> string) list \<Rightarrow> string" where
  "describeVariant name attrs =
     (let parts = filter (\<lambda>v. v \<noteq> []) (map snd attrs)
      in if length parts > 0 then name @ '' ('' @ join '', '' parts @ '')'' else name)"

definition export_row :: "catalog_row \<Rightarrow> string list" where
  "export_row v =
     [or_else (cr_sku v) [],
      describeVariant (cr_name v) (cr_attrs v),
      or_else (cr_brand v) [],
      or_else (cr_description v) [],
      or_else (cr_category v) [],
      money_fixed (cr_price_cents v),
      (case cr_compare_at_cents v of None \<Rightarrow> [] | Some c \<Rightarrow> money_fixed c),
      or_else (cr_barcode v) [],
      cr_status v]"

definition exportCsv :: "catalog_row list \<Rightarrow> string" where
  "exportCsv variants =
     join [LF] (join [COMMA] COLUMNS #
       map (\<lambda>r. join [COMMA] (map escapeCell r)) (map export_row variants))"

section \<open>Reading back one cell\<close>

lemma parse_plain:
  assumes "\<And>c. c \<in> set v \<Longrightarrow> c \<noteq> QUOTE \<and> c \<noteq> COMMA \<and> c \<noteq> LF"
  shows "parse_loop (v @ rest) False cell row rows = parse_loop rest False (cell @ v) row rows"
  using assms by (induction v arbitrary: cell) auto

lemma parse_doubled:
  assumes "\<And>ds. rest \<noteq> QUOTE # ds"
  shows "parse_loop (double_quotes v @ QUOTE # rest) True cell row rows =
         parse_loop rest False (cell @ v) row rows"
  using assms by (induction v arbitrary: cell) (auto split: list.splits)

lemma parse_escaped:
  assumes "\<And>ds. rest \<noteq> QUOTE # ds"
  shows "parse_loop (escapeCell v @ rest) False [] row rows = parse_loop rest False v row rows"
proof (cases "\<exists>c \<in> set v. c = QUOTE \<or> c = COMMA \<or> c = LF")
  case True
  then show ?thesis using parse_doubled [OF assms, of v "[]" row rows] by (simp add: escapeCell_def)
next
  case False
  then show ?thesis using parse_plain [of v rest "[]" row rows] by (auto simp: escapeCell_def)
qed

section \<open>Reading back a row and a file\<close>

text \<open>A row and then the line feed that ends it.\<close>

lemma join_Cons: "join sep (x # xs) = x @ (if xs = [] then [] else sep @ join sep xs)"
  by (cases xs) auto

lemma parse_row:
  assumes "r \<noteq> []"
  shows "parse_loop (join [COMMA] (map escapeCell r) @ LF # rest) False [] row rows =
         parse_loop rest False [] [] (rows @ [row @ r])"
  using assms
proof (induction r arbitrary: row)
  case Nil
  then show ?case by simp
next
  case (Cons v r)
  show ?case
  proof (cases "r = []")
    case True
    then show ?thesis by (simp add: join_Cons parse_escaped)
  next
    case False
    then show ?thesis
      using Cons.IH [of "row @ [v]"] by (simp add: join_Cons parse_escaped)
  qed
qed

lemma parse_row_end:
  assumes "2 \<le> length r"
  shows "parse_loop (join [COMMA] (map escapeCell r)) False [] row rows =
         filter (\<lambda>r. length r > 0) (rows @ [row @ r])"
proof -
  have last: "parse_loop (escapeCell v) False [] row rows =
      filter (\<lambda>r. length r > 0) (rows @ [row @ [v]])" if "row \<noteq> []" for v row
    using parse_escaped [of "[]" v row rows] that by simp
  show ?thesis
    using assms
  proof (induction r arbitrary: row)
    case (Cons v r)
    then obtain w ws where r: "r = w # ws" by (cases r) auto
    show ?case
    proof (cases "ws = []")
      case True
      then show ?thesis using r last by (simp add: join_Cons parse_escaped)
    next
      case False
      then have "2 \<le> length r" using r by (cases ws) auto
      then show ?thesis using Cons.IH [of "row @ [v]"] r by (simp add: join_Cons parse_escaped)
    qed
  qed simp
qed

definition lines_of :: "string list list \<Rightarrow> string" where
  "lines_of rs = concat (map (\<lambda>r. join [COMMA] (map escapeCell r) @ [LF]) rs)"

lemma parse_lines:
  assumes "[] \<notin> set rs"
  shows "parse_loop (lines_of rs @ rest) False [] [] rows = parse_loop rest False [] [] (rows @ rs)"
  using assms
proof (induction rs arbitrary: rows)
  case Nil
  then show ?case by (simp add: lines_of_def)
next
  case (Cons r rs)
  have "lines_of (r # rs) @ rest =
      join [COMMA] (map escapeCell r) @ LF # (lines_of rs @ rest)"
    by (simp add: lines_of_def)
  then show ?case
    using parse_row [of r "lines_of rs @ rest" "[]" rows] Cons by auto
qed

lemma join_LF: "join [LF] (map f (rs @ [r])) = concat (map (\<lambda>r. f r @ [LF]) rs) @ f r"
  by (induction rs) (simp_all add: join_Cons)

text \<open>Carriage returns.\<close>

lemma replace_crlf_append:
  "CR \<notin> set a \<Longrightarrow> replace_crlf (a @ b) = a @ replace_crlf b"
proof (induction a)
  case (Cons c a)
  then have "replace_crlf (c # (a @ b)) = c # replace_crlf (a @ b)"
    by (cases "a @ b") auto
  with Cons show ?case by simp
qed simp

lemma replace_cr_id: "CR \<notin> set a \<Longrightarrow> replace_cr a = a"
  by (induction a) (auto simp: replace_cr_def)

lemma replace_crlf_join:
  "(\<And>l. l \<in> set ls \<Longrightarrow> CR \<notin> set l) \<Longrightarrow>
   replace_crlf (join [CR, LF] ls @ [CR, LF]) = join [LF] ls @ [LF]"
proof (induction ls)
  case (Cons l ls)
  then show ?case
    using replace_crlf_append [of l] by (cases ls) (simp_all add: join_Cons)
qed simp

lemma CR_double_quotes: "CR \<in> set (double_quotes v) \<longleftrightarrow> CR \<in> set v"
  by (induction v) auto

lemma CR_escapeCell: "CR \<in> set (escapeCell v) \<longleftrightarrow> CR \<in> set v"
  by (simp add: escapeCell_def CR_double_quotes)

lemma CR_join: "CR \<notin> set sep \<Longrightarrow> CR \<in> set (join sep xs) \<longleftrightarrow> (\<exists>x \<in> set xs. CR \<in> set x)"
  by (induction xs) (auto simp: join_Cons)

lemma escape_agree: "CR \<notin> set v \<Longrightarrow> escapeCsvCell v = escapeCell v"
proof -
  assume "CR \<notin> set v"
  then have "(\<exists>c \<in> set v. c = QUOTE \<or> c = COMMA \<or> c = LF \<or> c = CR) \<longleftrightarrow>
      (\<exists>c \<in> set v. c = QUOTE \<or> c = COMMA \<or> c = LF)" by blast
  then show "escapeCsvCell v = escapeCell v" by (simp add: escapeCsvCell_def escapeCell_def)
qed

lemma filter_nonempty: "[] \<notin> set rs \<Longrightarrow> filter (\<lambda>r. r \<noteq> []) rs = rs"
  by (induction rs) auto

lemma map_cong_escape:
  "(\<And>v. v \<in> set r \<Longrightarrow> CR \<notin> set v) \<Longrightarrow> map escapeCsvCell r = map escapeCell r"
  by (simp add: escape_agree)

lemma parse_whole:
  assumes "[] \<notin> set rs"
  shows "parse_loop (lines_of rs) False [] [] [] = rs"
  using parse_lines [OF assms, of "[]" "[]"] by (simp add: filter_nonempty assms)

lemma escapeCell_COLUMNS: "map escapeCell COLUMNS = COLUMNS"
  by (simp add: COLUMNS_def escapeCell_def QUOTE_def COMMA_def LF_def)

lemma COLUMNS_no_CR: "c \<in> set COLUMNS \<Longrightarrow> CR \<notin> set c"
  by (auto simp: COLUMNS_def CR_def)

section \<open>Numerals\<close>

lemma of_char_digit: "d < 10 \<Longrightarrow> (of_char (digit_char d) :: nat) = 48 + d"
  by (simp add: digit_char_def)

lemma digit_val_char [simp]: "d < 10 \<Longrightarrow> digit_val (digit_char d) = d"
  by (simp add: digit_val_def of_char_digit)

lemma is_digit_char [simp]: "d < 10 \<Longrightarrow> is_digit (digit_char d)"
  by (simp add: is_digit_def of_char_digit)

lemma number_of_digits_snoc [simp]:
  "number_of_digits (ds @ [d]) = number_of_digits ds * 10 + digit_val d"
  by (simp add: number_of_digits_def)

lemma number_of_digits_Nil [simp]: "number_of_digits [] = 0"
  by (simp add: number_of_digits_def)

lemma number_show_nat: "number_of_digits (show_nat n) = n"
proof (induction n rule: show_nat.induct)
  case (1 n)
  then show ?case
    using number_of_digits_snoc [of "[]"] by (subst show_nat.simps) auto
qed

lemma show_nat_digits: "list_all is_digit (show_nat n) \<and> show_nat n \<noteq> []"
proof (induction n rule: show_nat.induct)
  case (1 n)
  then show ?case by (subst (1 2) show_nat.simps) auto
qed

lemma digit_kept: "is_digit c \<Longrightarrow> c \<noteq> CHR ''$'' \<and> c \<noteq> COMMA \<and> \<not> is_space c \<and> c \<noteq> CHR ''.''"
  by (auto simp: is_digit_def COMMA_def is_space_def)

lemma takeWhile_digits:
  assumes "list_all is_digit ds" and "\<not> is_digit c"
  shows "takeWhile is_digit (ds @ c # cs) = ds" and "dropWhile is_digit (ds @ c # cs) = c # cs"
  using assms by (induction ds) auto

lemma list_all_filter_id: "list_all p xs \<Longrightarrow> (\<And>x. p x \<Longrightarrow> q x) \<Longrightarrow> filter q xs = xs"
  by (induction xs) auto

lemma pad2_digits: "list_all is_digit (pad2 n) \<and> length (pad2 n) = 2"
  by (simp add: pad2_def)

lemma number_pad2: "n < 100 \<Longrightarrow> number_of_digits (pad2 n) = n"
  using number_of_digits_snoc [of "[digit_char (n div 10 mod 10)]" "digit_char (n mod 10)"]
    number_of_digits_snoc [of "[]" "digit_char (n div 10 mod 10)"]
  by (simp add: pad2_def)

section \<open>Properties\<close>

text \<open>
  A report file read back is the report: whatever rows \<open>toCsv\<close> writes from cells escaped
  with \<open>escapeCsvCell\<close>, commas, quotes and line feeds included, \<open>parseCsv\<close> returns the header
  and those rows, provided no cell holds a carriage return.
\<close>

theorem toCsv_roundtrip:
  assumes "[] \<notin> set (header # rows)" and "\<And>r v. r \<in> set (header # rows) \<Longrightarrow> v \<in> set r \<Longrightarrow> CR \<notin> set v"
  shows "parseCsv (toCsv header (map (map escapeCsvCell) rows)) = header # rows"
proof -
  let ?ls = "map (\<lambda>r. join [COMMA] (map escapeCell r)) (header # rows)"
  have nocr: "\<forall>r \<in> set (header # rows). \<forall>v \<in> set r. CR \<notin> set v"
    using assms(2) by blast
  have esc: "map escapeCsvCell r = map escapeCell r" if "r \<in> set (header # rows)" for r
    by (rule map_cong_escape) (use nocr that in blast)
  have ls: "map (\<lambda>r. join [COMMA] (map escapeCsvCell r)) (header # rows) = ?ls"
    by (rule map_cong) (simp_all only: esc)
  have "toCsv header (map (map escapeCsvCell) rows) = join [CR, LF]
      (map (\<lambda>r. join [COMMA] (map escapeCsvCell r)) (header # rows)) @ [CR, LF]"
    by (simp add: toCsv_def o_def)
  then have "toCsv header (map (map escapeCsvCell) rows) = join [CR, LF] ?ls @ [CR, LF]"
    by (simp only: ls)
  moreover have "replace_crlf (join [CR, LF] ?ls @ [CR, LF]) = join [LF] ?ls @ [LF]"
    using nocr by (intro replace_crlf_join) (auto simp: CR_join CR_escapeCell)
  moreover have "join [LF] ?ls @ [LF] = lines_of (header # rows)"
    by (induction rows arbitrary: header) (simp_all add: lines_of_def join_Cons)
  moreover have "CR \<notin> set (lines_of (header # rows))"
    using nocr by (auto simp: lines_of_def CR_join CR_escapeCell)
  ultimately show ?thesis
    by (simp add: parseCsv_def replace_cr_id parse_whole [OF assms(1)])
qed

theorem toCsv_roundtrip_witness:
  "parseCsv (toCsv [''a'', ''b''] (map (map escapeCsvCell) [[''1,5'', [QUOTE, LF]]])) =
   [[''a'', ''b''], [''1,5'', [QUOTE, LF]]]"
  by (rule toCsv_roundtrip) (auto simp: CR_def QUOTE_def LF_def)

text \<open>
  C40. The catalog file reads back as the cells that were written: the header and then, for
  every variant, its nine cells, provided no cell holds a carriage return.
\<close>

theorem exportCsv_roundtrip:
  assumes "\<And>v c. v \<in> set variants \<Longrightarrow> c \<in> set (export_row v) \<Longrightarrow> CR \<notin> set c"
  shows "parseCsv (exportCsv variants) = COLUMNS # map export_row variants"
proof -
  have cols: "map escapeCell COLUMNS = COLUMNS" by (rule escapeCell_COLUMNS)
  have colCR: "c \<in> set COLUMNS \<Longrightarrow> CR \<notin> set c" for c by (rule COLUMNS_no_CR)
  define rs where "rs = COLUMNS # map export_row variants"
  have long: "2 \<le> length r" if "r \<in> set rs" for r
    using that by (auto simp: rs_def export_row_def COLUMNS_def)
  then have ne: "[] \<notin> set rs" by fastforce
  have fileE: "exportCsv variants = join [LF] (map (\<lambda>r. join [COMMA] (map escapeCell r)) rs)"
    by (simp add: exportCsv_def rs_def cols o_def)
  obtain init lst where rs: "rs = init @ [lst]"
    by (metis rs_def list.distinct(1) rev_exhaust)
  have txtE: "exportCsv variants = lines_of init @ join [COMMA] (map escapeCell lst)"
    unfolding fileE rs join_LF lines_of_def by simp
  have "CR \<notin> set (exportCsv variants)"
    unfolding fileE using assms colCR by (auto simp: CR_join CR_escapeCell rs_def)
  then have "parseCsv (exportCsv variants) = parse_loop (exportCsv variants) False [] [] []"
    using replace_crlf_append [of "exportCsv variants" "[]"]
    by (simp add: parseCsv_def replace_cr_id)
  also have "\<dots> = filter (\<lambda>r. r \<noteq> []) (init @ [lst])"
    unfolding txtE using ne long rs by (simp add: parse_lines parse_row_end)
  also have "\<dots> = rs" using ne filter_nonempty [of rs] by (simp add: rs)
  finally show ?thesis by (simp add: rs_def)
qed

definition sample_row :: catalog_row where
  "sample_row = \<lparr>cr_sku = Some ''S-1'', cr_name = ''Rye, sliced'', cr_attrs = [(''size'', ''Large'')],
     cr_brand = None, cr_description = None, cr_category = Some ''Bread'', cr_price_cents = 450,
     cr_compare_at_cents = None, cr_barcode = None, cr_status = ''DRAFT''\<rparr>"

theorem exportCsv_roundtrip_witness:
  "parseCsv (exportCsv [sample_row]) = [COLUMNS, export_row sample_row]"
proof -
  have "list_all (\<lambda>c. CR \<notin> set c) (export_row sample_row)"
    by code_simp
  then show ?thesis using exportCsv_roundtrip [of "[sample_row]"] by (simp add: list_all_iff)
qed

text \<open>
  A price written to a file is the price read back: \<open>parseMoney\<close> of the two-decimal text of
  an amount is that amount, with or without a currency sign in front.
\<close>

theorem parseMoney_roundtrip:
  assumes "0 \<le> cents"
  shows "parseMoney (csvMoney cents) = Some cents \<and>
         parseMoney (CHR ''$'' # csvMoney cents) = Some cents"
proof -
  let ?n = "nat cents"
  let ?whole = "show_nat (?n div 100)"
  have keep: "filter (\<lambda>c. c \<noteq> CHR ''$'' \<and> c \<noteq> COMMA \<and> \<not> is_space c) ds = ds"
    if "list_all is_digit ds" for ds
    using that by (rule list_all_filter_id) (use digit_kept in blast)
  have dot: "\<not> is_digit (CHR ''.'')" "\<not> is_space (CHR ''.'')" "CHR ''.'' \<noteq> COMMA"
    by (simp_all add: is_digit_def is_space_def COMMA_def)
  have txtM: "csvMoney cents = ?whole @ CHR ''.'' # pad2 (?n mod 100)"
    using assms by (simp add: csvMoney_def money_fixed_def Let_def)
  have clean: "filter (\<lambda>c. \<not> (c = CHR ''$'' \<or> c = COMMA \<or> is_space c)) (csvMoney cents) =
      ?whole @ CHR ''.'' # pad2 (?n mod 100)"
    unfolding txtM using show_nat_digits [of "?n div 100"] pad2_digits [of "?n mod 100"] dot
    by (simp add: keep)
  have whole: "takeWhile is_digit (?whole @ CHR ''.'' # pad2 (?n mod 100)) = ?whole"
    and rest: "dropWhile is_digit (?whole @ CHR ''.'' # pad2 (?n mod 100)) =
      CHR ''.'' # pad2 (?n mod 100)"
    using takeWhile_digits show_nat_digits dot(1) by blast+
  have "int (?n div 100) * 100 + int (?n mod 100) = cents"
    using assms by (simp add: zdiv_int zmod_int)
  then have "parseMoney (csvMoney cents) = Some cents"
    using show_nat_digits [of "?n div 100"] pad2_digits [of "?n mod 100"]
    unfolding parseMoney_def clean Let_def whole rest by (simp add: number_show_nat number_pad2)
  moreover have "parseMoney (CHR ''$'' # csvMoney cents) = parseMoney (csvMoney cents)"
    by (simp add: parseMoney_def)
  ultimately show ?thesis by simp
qed

theorem parseMoney_roundtrip_witness: "parseMoney (CHR ''$'' # csvMoney 1250) = Some 1250"
  using parseMoney_roundtrip [of 1250] by simp

end
