(* ===== verification/Schema.thy ===== *)
theory Schema
  imports OrderMachine StoreLifecycle Complex_Main
begin

text \<open>
  The database the services share, one record per table with the columns they read or write
  (\<open>apps/api/prisma/schema.prisma\<close> and the migrations beside it), and the world: every table,
  the counters of the metrics registry and the mail handed to the mailer.  A table is the list
  of its rows, oldest first, so that a query can be evaluated; the two tables that are only ever
  reached through their key, \<open>stock_levels\<close> and \<open>store_counters\<close>, are maps.  Identifiers are
  text, times are milliseconds.
\<close>

datatype movement_type = RECEIVE | SALE | RETURN | ADJUSTMENT | DAMAGE | COUNT
datatype fulfillment = FUL_PICKUP | FUL_DELIVERY
datatype order_channel = ONLINE | POS
datatype product_status = P_DRAFT | P_ACTIVE | P_ARCHIVED
datatype cart_status = C_ACTIVE | C_CONVERTED | C_ABANDONED
datatype payment_provider = STRIPE | CASH
datatype payment_status = PAY_REQUIRES_ACTION | PAY_PROCESSING | PAY_SUCCEEDED | PAY_FAILED | PAY_CANCELED
datatype refund_status = RF_PENDING | RF_SUCCEEDED | RF_FAILED
datatype coupon_kind = PERCENT | FIXED
datatype count_status = CS_OPEN | CS_POSTED | CS_ABANDONED
datatype membership_status = MS_INVITED | MS_ACTIVE | MS_SUSPENDED
datatype media_kind = MK_PRODUCT | MK_BRANDING | MK_PROOF | MK_SIGNATURE | MK_EXPORT
datatype media_status = MA_PENDING | MA_READY | MA_REJECTED
datatype failure_reason =
  NOBODY_HOME | ADDRESS_NOT_FOUND | REFUSED | UNSAFE_TO_LEAVE | VEHICLE_PROBLEM | OTHER_FAILURE
datatype subscription_status = SUB_TRIALING | SUB_ACTIVE | SUB_PAST_DUE | SUB_CANCELED
datatype dunning_stage = PAYMENT_FAILED | GRACE_REMINDER | FINAL_WARNING | STAGE_SUSPENDED
datatype audit_severity = LOW | MEDIUM | HIGH

record stock_level =
  sl_store :: string
  sl_on_hand :: int
  sl_reserved :: int
  sl_tracked :: bool
  sl_reorder_point :: "int option"
  sl_reorder_qty :: "int option"

record movement =
  mv_store :: string
  mv_variant :: string
  mv_type :: movement_type
  mv_qty :: int
  mv_reason :: "string option"
  mv_note :: "string option"
  mv_order :: "string option"
  mv_actor :: "string option"

text \<open>A row of \<open>product_variants\<close> joined to its product, the way every query reads it.\<close>

record variant =
  va_id :: string
  va_store :: string
  va_product :: string
  va_name :: string
  va_status :: product_status
  va_product_deleted :: bool
  va_price :: int
  va_attrs :: "(string \<times> string) list"
  va_sku :: "string option"
  va_barcode :: "string option"
  va_default :: bool
  va_active :: bool
  va_deleted :: bool

text \<open>Of the branding, the four colours of the theme.\<close>

record theme =
  th_primary :: string
  th_background :: string
  th_text :: string
  th_accent :: string

record store =
  s_id :: string
  s_name :: string
  s_status :: store_status
  s_deleted :: bool
  s_currency :: string
  s_owner :: string
  s_account :: "string option"
  s_charges :: bool
  s_payouts :: bool
  s_details :: bool
  s_requirements :: "string list"
  s_disabled_reason :: "string option"
  s_synced_at :: "int option"
  s_approved_at :: "int option"
  s_legal :: string
  s_line1 :: "string option"
  s_city :: "string option"
  s_state :: "string option"
  s_postal :: "string option"
  s_theme :: "theme option"
  s_slug :: string
  s_timezone :: string

record cart =
  ca_id :: string
  ca_store :: string
  ca_user :: "string option"
  ca_session :: "string option"
  ca_status :: cart_status
  ca_expires :: int

record cart_item =
  ci_id :: string
  ci_cart :: string
  ci_store :: string
  ci_variant :: string
  ci_qty :: int
  ci_price :: int

record address =
  ad_line1 :: string
  ad_city :: string
  ad_state :: string
  ad_postal :: string
  ad_lat :: "real option"
  ad_lng :: "real option"

record zone =
  z_id :: string
  z_name :: string
  z_store :: string
  z_active :: bool
  z_fee :: int
  z_min_order :: int
  z_eta :: int
  z_lat :: real
  z_lng :: real
  z_radius :: int

record tax_rate =
  tr_store :: string
  tr_active :: bool
  tr_default :: bool
  tr_bps :: int
  tr_name :: string

record order =
  o_id :: string
  o_store :: string
  o_number :: string
  o_customer :: "string option"
  o_channel :: order_channel
  o_fulfillment :: fulfillment
  o_status :: order_status
  o_subtotal :: int
  o_discount :: int
  o_tax :: int
  o_delivery_fee :: int
  o_tip :: int
  o_total :: int
  o_currency :: string
  o_address :: "address option"
  o_note :: "string option"
  o_email :: "string option"
  o_phone :: "string option"
  o_guest_token :: "string option"
  o_idem :: "string option"
  o_coupon :: "string option"
  o_coupon_code :: "string option"
  o_placed_at :: int
  o_expires_at :: "int option"

record order_item =
  oi_order :: string
  oi_store :: string
  oi_variant :: "string option"
  oi_name :: string
  oi_attrs :: "(string \<times> string) list"
  oi_sku :: "string option"
  oi_unit :: int
  oi_qty :: int
  oi_total :: int
  oi_tax :: int

record status_change =
  h_order :: string
  h_store :: string
  h_from :: "order_status option"
  h_to :: order_status
  h_actor :: "string option"
  h_note :: "string option"

record payment =
  p_id :: string
  p_store :: string
  p_order :: string
  p_provider :: payment_provider
  p_intent :: "string option"
  p_amount :: int
  p_fee :: int
  p_status :: payment_status
  p_cash_by :: "string option"
  p_cash_at :: "int option"
  p_failure :: "string option"

record refund =
  r_id :: string
  r_store :: string
  r_payment :: string
  r_amount :: int
  r_reason :: "string option"
  r_note :: "string option"
  r_status :: refund_status
  r_stripe :: "string option"
  r_actor :: "string option"
  r_created :: int

record coupon =
  co_id :: string
  co_store :: string
  co_code :: string
  co_kind :: coupon_kind
  co_value :: int
  co_min_order :: int
  co_starts :: "int option"
  co_ends :: "int option"
  co_max :: "int option"
  co_per_customer :: "int option"
  co_active :: bool
  co_deleted :: bool

record redemption =
  rd_coupon :: string
  rd_store :: string
  rd_order :: string
  rd_user :: "string option"
  rd_amount :: int

record count_session =
  cs_id :: string
  cs_store :: string
  cs_name :: string
  cs_status :: count_status
  cs_opened_by :: string
  cs_posted_by :: "string option"
  cs_posted_at :: "int option"

record count_line =
  cl_session :: string
  cl_store :: string
  cl_variant :: string
  cl_expected :: int
  cl_counted :: int
  cl_note :: "string option"
  cl_by :: string

record membership =
  m_id :: string
  m_store :: string
  m_user :: string
  m_role :: membership_role
  m_status :: membership_status
  m_invited_by :: "string option"
  m_accepted :: "int option"

record media_asset =
  ma_id :: string
  ma_store :: "string option"
  ma_kind :: media_kind
  ma_status :: media_status
  ma_key :: string

record delivery =
  d_order :: string
  d_store :: string
  d_driver :: "string option"
  d_assigned_at :: "int option"
  d_assigned_by :: "string option"
  d_picked_up_at :: "int option"
  d_delivered_at :: "int option"
  d_proof :: "string option"
  d_signature :: "string option"
  d_failure :: "failure_reason option"
  d_failure_note :: "string option"
  d_failed_at :: "int option"
  d_attempts :: int
  d_notes :: "string option"

record subscription =
  sb_store :: string
  sb_plan :: string
  sb_customer :: "string option"
  sb_subscription :: "string option"
  sb_status :: subscription_status
  sb_trial_ends :: "int option"
  sb_period_end :: "int option"
  sb_past_due_since :: "int option"
  sb_suspended_at :: "int option"

record billing_notice =
  bn_store :: string
  bn_since :: int
  bn_stage :: dunning_stage
  bn_to :: string

record stripe_event =
  se_event :: string
  se_type :: string
  se_store :: "string option"
  se_processed :: bool
  se_error :: "app_error option"

record outbox_event =
  ev_type :: string
  ev_store :: "string option"
  ev_aggregate :: "string option"
  ev_payload :: "(string \<times> string) list"

record audit_entry =
  au_action :: string
  au_severity :: audit_severity
  au_store :: "string option"
  au_actor :: "string option"
  au_entity_type :: string
  au_entity :: "string option"

record inbox_item =
  nb_id :: string
  nb_user :: string
  nb_store :: "string option"
  nb_event :: string
  nb_title :: string
  nb_body :: string
  nb_link :: "string option"
  nb_read :: "int option"

record preference =
  np_user :: string
  np_store :: "string option"
  np_event :: string
  np_channel :: string
  np_enabled :: bool

record job_run =
  jr_job :: string
  jr_at :: int
  jr_owner :: string

text \<open>One increment of a counter of the metrics registry: its name and its labels.\<close>

record metric =
  me_name :: string
  me_labels :: "string list"

record world =
  w_levels :: "string \<Rightarrow> stock_level option"
  w_movements :: "movement list"
  w_variants :: "variant list"
  w_stores :: "store list"
  w_counters :: "string \<Rightarrow> int option"
  w_carts :: "cart list"
  w_cart_items :: "cart_item list"
  w_zones :: "zone list"
  w_rates :: "tax_rate list"
  w_orders :: "order list"
  w_items :: "order_item list"
  w_history :: "status_change list"
  w_payments :: "payment list"
  w_refunds :: "refund list"
  w_coupons :: "coupon list"
  w_redemptions :: "redemption list"
  w_sessions :: "count_session list"
  w_lines :: "count_line list"
  w_members :: "membership list"
  w_assets :: "media_asset list"
  w_deliveries :: "delivery list"
  w_subs :: "subscription list"
  w_notices :: "billing_notice list"
  w_events :: "stripe_event list"
  w_outbox :: "outbox_event list"
  w_audit :: "audit_entry list"
  w_inbox :: "inbox_item list"
  w_prefs :: "preference list"
  w_runs :: "job_run list"
  w_metrics :: "metric list"
  w_mail :: "(string \<times> string) list"

definition empty_world :: world where
  "empty_world = \<lparr>w_levels = Map.empty, w_movements = [], w_variants = [], w_stores = [],
     w_counters = Map.empty, w_carts = [], w_cart_items = [], w_zones = [], w_rates = [],
     w_orders = [], w_items = [], w_history = [], w_payments = [], w_refunds = [],
     w_coupons = [], w_redemptions = [], w_sessions = [], w_lines = [], w_members = [],
     w_assets = [], w_deliveries = [], w_subs = [], w_notices = [], w_events = [],
     w_outbox = [], w_audit = [], w_inbox = [], w_prefs = [], w_runs = [], w_metrics = [], w_mail = []\<rparr>"

section \<open>What every service writes\<close>

text \<open>
  \<open>OutboxService.emitIn\<close>, \<open>AuditService.record\<close> and a counter's \<open>inc\<close>: each appends one row.  An
  audit entry keeps who did what to which entity; the before and after payloads are not kept.
\<close>

definition emitIn :: "outbox_event \<Rightarrow> world \<Rightarrow> world" where
  "emitIn ev w = w\<lparr>w_outbox := w_outbox w @ [ev]\<rparr>"

definition audit_record :: "audit_entry \<Rightarrow> world \<Rightarrow> world" where
  "audit_record entry w = w\<lparr>w_audit := w_audit w @ [entry]\<rparr>"

definition inc :: "string \<Rightarrow> string list \<Rightarrow> world \<Rightarrow> world" where
  "inc name labels w = w\<lparr>w_metrics := w_metrics w @ [\<lparr>me_name = name, me_labels = labels\<rparr>]\<rparr>"

abbreviation event :: "string \<Rightarrow> string \<Rightarrow> string \<Rightarrow> (string \<times> string) list \<Rightarrow> outbox_event" where
  "event typ storeId aggregate payload \<equiv>
     \<lparr>ev_type = typ, ev_store = Some storeId, ev_aggregate = Some aggregate, ev_payload = payload\<rparr>"

abbreviation audit_entry_of ::
    "string \<Rightarrow> audit_severity \<Rightarrow> string \<Rightarrow> string option \<Rightarrow> string \<Rightarrow> string \<Rightarrow> audit_entry" where
  "audit_entry_of action sev storeId actor typ entity \<equiv>
     \<lparr>au_action = action, au_severity = sev, au_store = Some storeId, au_actor = actor,
      au_entity_type = typ, au_entity = Some entity\<rparr>"

lemmas effect_defs = emitIn_def audit_record_def inc_def

text \<open>The fields they leave alone.\<close>

lemma emitIn_frame [simp, frame_simps]:
  "w_levels (emitIn ev w) = w_levels w"
  "w_movements (emitIn ev w) = w_movements w"
  "w_variants (emitIn ev w) = w_variants w"
  "w_stores (emitIn ev w) = w_stores w"
  "w_counters (emitIn ev w) = w_counters w"
  "w_carts (emitIn ev w) = w_carts w"
  "w_cart_items (emitIn ev w) = w_cart_items w"
  "w_zones (emitIn ev w) = w_zones w"
  "w_rates (emitIn ev w) = w_rates w"
  "w_orders (emitIn ev w) = w_orders w"
  "w_items (emitIn ev w) = w_items w"
  "w_history (emitIn ev w) = w_history w"
  "w_payments (emitIn ev w) = w_payments w"
  "w_refunds (emitIn ev w) = w_refunds w"
  "w_coupons (emitIn ev w) = w_coupons w"
  "w_redemptions (emitIn ev w) = w_redemptions w"
  "w_sessions (emitIn ev w) = w_sessions w"
  "w_lines (emitIn ev w) = w_lines w"
  "w_members (emitIn ev w) = w_members w"
  "w_assets (emitIn ev w) = w_assets w"
  "w_deliveries (emitIn ev w) = w_deliveries w"
  "w_subs (emitIn ev w) = w_subs w"
  "w_notices (emitIn ev w) = w_notices w"
  "w_events (emitIn ev w) = w_events w"
  "w_audit (emitIn ev w) = w_audit w"
  "w_inbox (emitIn ev w) = w_inbox w"
  "w_prefs (emitIn ev w) = w_prefs w"
  "w_runs (emitIn ev w) = w_runs w"
  "w_metrics (emitIn ev w) = w_metrics w"
  "w_mail (emitIn ev w) = w_mail w"
  by (simp_all add: effect_defs)

lemma audit_frame [simp, frame_simps]:
  "w_levels (audit_record en w) = w_levels w"
  "w_movements (audit_record en w) = w_movements w"
  "w_variants (audit_record en w) = w_variants w"
  "w_stores (audit_record en w) = w_stores w"
  "w_counters (audit_record en w) = w_counters w"
  "w_carts (audit_record en w) = w_carts w"
  "w_cart_items (audit_record en w) = w_cart_items w"
  "w_zones (audit_record en w) = w_zones w"
  "w_rates (audit_record en w) = w_rates w"
  "w_orders (audit_record en w) = w_orders w"
  "w_items (audit_record en w) = w_items w"
  "w_history (audit_record en w) = w_history w"
  "w_payments (audit_record en w) = w_payments w"
  "w_refunds (audit_record en w) = w_refunds w"
  "w_coupons (audit_record en w) = w_coupons w"
  "w_redemptions (audit_record en w) = w_redemptions w"
  "w_sessions (audit_record en w) = w_sessions w"
  "w_lines (audit_record en w) = w_lines w"
  "w_members (audit_record en w) = w_members w"
  "w_assets (audit_record en w) = w_assets w"
  "w_deliveries (audit_record en w) = w_deliveries w"
  "w_subs (audit_record en w) = w_subs w"
  "w_notices (audit_record en w) = w_notices w"
  "w_events (audit_record en w) = w_events w"
  "w_outbox (audit_record en w) = w_outbox w"
  "w_inbox (audit_record en w) = w_inbox w"
  "w_prefs (audit_record en w) = w_prefs w"
  "w_runs (audit_record en w) = w_runs w"
  "w_metrics (audit_record en w) = w_metrics w"
  "w_mail (audit_record en w) = w_mail w"
  by (simp_all add: effect_defs)

lemma inc_frame [simp, frame_simps]:
  "w_levels (inc n ls w) = w_levels w"
  "w_movements (inc n ls w) = w_movements w"
  "w_variants (inc n ls w) = w_variants w"
  "w_stores (inc n ls w) = w_stores w"
  "w_counters (inc n ls w) = w_counters w"
  "w_carts (inc n ls w) = w_carts w"
  "w_cart_items (inc n ls w) = w_cart_items w"
  "w_zones (inc n ls w) = w_zones w"
  "w_rates (inc n ls w) = w_rates w"
  "w_orders (inc n ls w) = w_orders w"
  "w_items (inc n ls w) = w_items w"
  "w_history (inc n ls w) = w_history w"
  "w_payments (inc n ls w) = w_payments w"
  "w_refunds (inc n ls w) = w_refunds w"
  "w_coupons (inc n ls w) = w_coupons w"
  "w_redemptions (inc n ls w) = w_redemptions w"
  "w_sessions (inc n ls w) = w_sessions w"
  "w_lines (inc n ls w) = w_lines w"
  "w_members (inc n ls w) = w_members w"
  "w_assets (inc n ls w) = w_assets w"
  "w_deliveries (inc n ls w) = w_deliveries w"
  "w_subs (inc n ls w) = w_subs w"
  "w_notices (inc n ls w) = w_notices w"
  "w_events (inc n ls w) = w_events w"
  "w_outbox (inc n ls w) = w_outbox w"
  "w_audit (inc n ls w) = w_audit w"
  "w_inbox (inc n ls w) = w_inbox w"
  "w_prefs (inc n ls w) = w_prefs w"
  "w_runs (inc n ls w) = w_runs w"
  "w_mail (inc n ls w) = w_mail w"
  by (simp_all add: effect_defs)

text \<open>
  A request that opens one transaction either commits its new state or leaves the state as it
  was; one that opens several keeps what the earlier ones committed.
\<close>

type_synonym 'a outcome = "'a res \<times> world"

definition run_tx :: "(world \<Rightarrow> ('a \<times> world) res) \<Rightarrow> world \<Rightarrow> 'a outcome" where
  "run_tx work w = (case work w of Inl e \<Rightarrow> (Inl e, w) | Inr (r, w') \<Rightarrow> (Inr r, w'))"

lemma run_tx_Inl: "run_tx work w = (Inl e, w') \<longleftrightarrow> work w = Inl e \<and> w' = w"
  by (auto simp: run_tx_def split: sum.splits prod.splits)

lemma run_tx_Inr: "run_tx work w = (Inr r, w') \<longleftrightarrow> work w = Inr (r, w')"
  by (auto simp: run_tx_def split: sum.splits prod.splits)

end
