(* ===== verification/Stock.thy ===== *)
theory Stock
  imports Schema
begin

text \<open>
  The stock ledger of migration 10: \<open>stock_levels\<close> with its two \<open>CHECK\<close> constraints, the
  append-only \<open>stock_movements\<close> and the trigger that derives \<open>on_hand\<close> from it.  The locale
  \<open>ledger_store\<close> is what the services rely on, interpreted here on the model's tables.
\<close>

section \<open>Rows and constraints\<close>

definition level_ok :: "stock_level \<Rightarrow> bool" where
  "level_ok l =
     (0 \<le> sl_on_hand l \<and> 0 \<le> sl_reserved l \<and> sl_reserved l \<le> sl_on_hand l \<and>
      fits_int4 (sl_on_hand l) \<and> fits_int4 (sl_reserved l))"

text \<open>Storing a row: PostgreSQL checks the type's range and then the two constraints.\<close>

definition put_level :: "string \<Rightarrow> stock_level \<Rightarrow> world \<Rightarrow> world res" where
  "put_level v l w =
     (if \<not> fits_int4 (sl_on_hand l) \<or> \<not> fits_int4 (sl_reserved l)
      then Inl (CheckViolation ''integer out of range'')
      else if \<not> (0 \<le> sl_on_hand l \<and> 0 \<le> sl_reserved l)
      then Inl (CheckViolation ''stock_levels_nonneg'')
      else if \<not> sl_reserved l \<le> sl_on_hand l
      then Inl (CheckViolation ''stock_levels_reserved_lte_on_hand'')
      else Inr (w\<lparr>w_levels := (w_levels w)(v \<mapsto> l)\<rparr>))"

text \<open>\<open>UPDATE stock_levels SET ... WHERE variant_id = v\<close>; no row, nothing to do.\<close>

definition update_level ::
    "string \<Rightarrow> (stock_level \<Rightarrow> stock_level) \<Rightarrow> world \<Rightarrow> world res" where
  "update_level v f w =
     (case w_levels w v of None \<Rightarrow> Inr w | Some l \<Rightarrow> put_level v (f l) w)"

text \<open>The trigger: update first, insert only if there was nothing to update.\<close>

definition apply_stock_movement :: "movement \<Rightarrow> world \<Rightarrow> world res" where
  "apply_stock_movement m w =
     (case w_levels w (mv_variant m) of
        Some l \<Rightarrow> put_level (mv_variant m) (l\<lparr>sl_on_hand := sl_on_hand l + mv_qty m\<rparr>) w
      | None \<Rightarrow> put_level (mv_variant m)
          \<lparr>sl_store = mv_store m, sl_on_hand = mv_qty m, sl_reserved = 0, sl_tracked = False,
           sl_reorder_point = None, sl_reorder_qty = None\<rparr> w)"

definition insert_movement :: "movement \<Rightarrow> world \<Rightarrow> world res" where
  "insert_movement m w =
     (if mv_qty m = 0 then Inl (CheckViolation ''stock_movements_nonzero'')
      else apply_stock_movement m (w\<lparr>w_movements := w_movements w @ [m]\<rparr>))"

section \<open>What the tables say\<close>

definition on_hand :: "world \<Rightarrow> string \<Rightarrow> int" where
  "on_hand w v = (case w_levels w v of None \<Rightarrow> 0 | Some l \<Rightarrow> sl_on_hand l)"

definition reserved :: "world \<Rightarrow> string \<Rightarrow> int" where
  "reserved w v = (case w_levels w v of None \<Rightarrow> 0 | Some l \<Rightarrow> sl_reserved l)"

definition tracked :: "world \<Rightarrow> string \<Rightarrow> bool" where
  "tracked w v = (case w_levels w v of None \<Rightarrow> False | Some l \<Rightarrow> sl_tracked l)"

definition ledger_sum :: "world \<Rightarrow> string \<Rightarrow> int" where
  "ledger_sum w v = sum_where (\<lambda>m. mv_variant m = v) mv_qty (w_movements w)"

text \<open>The level is the sum of the movements, and every row meets its constraints.\<close>

definition stock_inv :: "world \<Rightarrow> bool" where
  "stock_inv w =
     ((\<forall>v. on_hand w v = ledger_sum w v) \<and>
      (\<forall>v l. w_levels w v = Some l \<longrightarrow> level_ok l))"

section \<open>The interface the services use\<close>

locale ledger_store =
  fixes level :: "'w \<Rightarrow> 'v \<Rightarrow> int"
    and total :: "'w \<Rightarrow> 'v \<Rightarrow> int"
    and post :: "'m \<Rightarrow> 'w \<Rightarrow> 'e + 'w"
    and var :: "'m \<Rightarrow> 'v"
    and delta :: "'m \<Rightarrow> int"
  assumes post_level:
      "post m w = Inr w' \<Longrightarrow> level w' v = level w v + (if var m = v then delta m else 0)"
    and post_total:
      "post m w = Inr w' \<Longrightarrow> total w' v = total w v + (if var m = v then delta m else 0)"
    and post_nonneg: "post m w = Inr w' \<Longrightarrow> 0 \<le> level w' (var m)"
begin

lemma post_agree: "post m w = Inr w' \<Longrightarrow> level w v = total w v \<Longrightarrow> level w' v = total w' v"
  by (simp add: post_level post_total)

lemma foldE_level:
  "foldE post ms w = Inr w' \<Longrightarrow> level w' v = level w v + sum_where (\<lambda>m. var m = v) delta ms"
  by (induction ms arbitrary: w) (auto simp: post_level)

lemma foldE_total:
  "foldE post ms w = Inr w' \<Longrightarrow> total w' v = total w v + sum_where (\<lambda>m. var m = v) delta ms"
  by (induction ms arbitrary: w) (auto simp: post_total)

lemma foldE_nonneg:
  assumes "foldE post ms w = Inr w'" and "0 \<le> level w v"
  shows "0 \<le> level w' v"
  using assms
proof (induction ms arbitrary: w)
  case Nil
  then show ?case by simp
next
  case (Cons m ms)
  then obtain w1 where w1: "post m w = Inr w1" "foldE post ms w1 = Inr w'" by auto
  have "0 \<le> level w1 v"
    using post_level [OF w1(1), of v] post_nonneg [OF w1(1)] Cons.prems(2) by auto
  then show ?case by (rule Cons.IH [OF w1(2)])
qed

end

section \<open>The tables keep the interface\<close>

lemma put_level_Inr:
  "put_level v l w = Inr w' \<longleftrightarrow> level_ok l \<and> w' = w\<lparr>w_levels := (w_levels w)(v \<mapsto> l)\<rparr>"
  by (auto simp: put_level_def level_ok_def)

lemma put_level_ok: "okE (put_level v l w) \<longleftrightarrow> level_ok l"
  by (auto simp: put_level_def level_ok_def)

lemma on_hand_upd [simp]: "on_hand (w\<lparr>w_levels := (w_levels w)(v \<mapsto> l)\<rparr>) u =
    (if u = v then sl_on_hand l else on_hand w u)"
  by (simp add: on_hand_def)

lemma ledger_sum_movement: "ledger_sum (w\<lparr>w_movements := w_movements w @ [m]\<rparr>) v =
    ledger_sum w v + (if mv_variant m = v then mv_qty m else 0)"
  by (simp add: ledger_sum_def)

lemma insert_movement_Inr:
  assumes "insert_movement m w = Inr w'"
  obtains l where "level_ok l" and "mv_qty m \<noteq> 0"
    and "sl_on_hand l = on_hand w (mv_variant m) + mv_qty m"
    and "sl_reserved l = reserved w (mv_variant m)"
    and "sl_tracked l = tracked w (mv_variant m)"
    and "w' = w\<lparr>w_movements := w_movements w @ [m], w_levels := (w_levels w)(mv_variant m \<mapsto> l)\<rparr>"
proof (cases "w_levels w (mv_variant m)")
  case None
  with assms show thesis
    by (intro that)
      (auto simp: insert_movement_def apply_stock_movement_def put_level_Inr on_hand_def
        reserved_def tracked_def split: if_splits)
next
  case (Some l)
  with assms show thesis
    by (intro that [of "l\<lparr>sl_on_hand := sl_on_hand l + mv_qty m\<rparr>"])
      (auto simp: insert_movement_def apply_stock_movement_def put_level_Inr on_hand_def
        reserved_def tracked_def split: if_splits)
qed

text \<open>
  Everything but the ledger: \<open>off_stock w' = off_stock w\<close> says that only stock moved.
\<close>

definition off_stock :: "world \<Rightarrow> world" where
  "off_stock w = w\<lparr>w_levels := Map.empty, w_movements := []\<rparr>"

lemma off_stock_keeps:
  assumes "off_stock w' = off_stock w"
  shows "w_variants w' = w_variants w"
    and "w_stores w' = w_stores w"
    and "w_counters w' = w_counters w"
    and "w_carts w' = w_carts w"
    and "w_cart_items w' = w_cart_items w"
    and "w_zones w' = w_zones w"
    and "w_rates w' = w_rates w"
    and "w_orders w' = w_orders w"
    and "w_items w' = w_items w"
    and "w_history w' = w_history w"
    and "w_payments w' = w_payments w"
    and "w_refunds w' = w_refunds w"
    and "w_coupons w' = w_coupons w"
    and "w_redemptions w' = w_redemptions w"
    and "w_sessions w' = w_sessions w"
    and "w_lines w' = w_lines w"
    and "w_members w' = w_members w"
    and "w_assets w' = w_assets w"
    and "w_deliveries w' = w_deliveries w"
    and "w_subs w' = w_subs w"
    and "w_notices w' = w_notices w"
    and "w_events w' = w_events w"
    and "w_outbox w' = w_outbox w"
    and "w_audit w' = w_audit w"
    and "w_inbox w' = w_inbox w"
    and "w_prefs w' = w_prefs w"
    and "w_runs w' = w_runs w"
    and "w_metrics w' = w_metrics w"
    and "w_mail w' = w_mail w"
  using arg_cong [OF assms, of w_variants]
    arg_cong [OF assms, of w_stores]
    arg_cong [OF assms, of w_counters]
    arg_cong [OF assms, of w_carts]
    arg_cong [OF assms, of w_cart_items]
    arg_cong [OF assms, of w_zones]
    arg_cong [OF assms, of w_rates]
    arg_cong [OF assms, of w_orders]
    arg_cong [OF assms, of w_items]
    arg_cong [OF assms, of w_history]
    arg_cong [OF assms, of w_payments]
    arg_cong [OF assms, of w_refunds]
    arg_cong [OF assms, of w_coupons]
    arg_cong [OF assms, of w_redemptions]
    arg_cong [OF assms, of w_sessions]
    arg_cong [OF assms, of w_lines]
    arg_cong [OF assms, of w_members]
    arg_cong [OF assms, of w_assets]
    arg_cong [OF assms, of w_deliveries]
    arg_cong [OF assms, of w_subs]
    arg_cong [OF assms, of w_notices]
    arg_cong [OF assms, of w_events]
    arg_cong [OF assms, of w_outbox]
    arg_cong [OF assms, of w_audit]
    arg_cong [OF assms, of w_inbox]
    arg_cong [OF assms, of w_prefs]
    arg_cong [OF assms, of w_runs]
    arg_cong [OF assms, of w_metrics]
    arg_cong [OF assms, of w_mail]
  by (simp_all add: off_stock_def)

lemma on_hand_cong: "w_levels w = w_levels w' \<Longrightarrow> on_hand w = on_hand w'"
  by (simp add: on_hand_def fun_eq_iff)

lemma reserved_cong: "w_levels w = w_levels w' \<Longrightarrow> reserved w = reserved w'"
  by (simp add: reserved_def fun_eq_iff)

lemma tracked_cong: "w_levels w = w_levels w' \<Longrightarrow> tracked w = tracked w'"
  by (simp add: tracked_def fun_eq_iff)

lemma ledger_sum_cong: "w_movements w = w_movements w' \<Longrightarrow> ledger_sum w = ledger_sum w'"
  by (simp add: ledger_sum_def fun_eq_iff)

lemma stock_inv_cong:
  "w_levels w = w_levels w' \<Longrightarrow> w_movements w = w_movements w' \<Longrightarrow> stock_inv w = stock_inv w'"
  using on_hand_cong [of w w'] ledger_sum_cong [of w w'] by (simp add: stock_inv_def)

lemma insert_movement_on_hand:
  "insert_movement m w = Inr w' \<Longrightarrow>
     on_hand w' v = on_hand w v + (if mv_variant m = v then mv_qty m else 0)"
  by (erule insert_movement_Inr) (auto simp: on_hand_def)

lemma insert_movement_ledger:
  "insert_movement m w = Inr w' \<Longrightarrow>
     ledger_sum w' v = ledger_sum w v + (if mv_variant m = v then mv_qty m else 0)"
  by (erule insert_movement_Inr) (auto simp: ledger_sum_def)

lemma insert_movement_reserved: "insert_movement m w = Inr w' \<Longrightarrow> reserved w' v = reserved w v"
  by (erule insert_movement_Inr) (auto simp: reserved_def)

lemma insert_movement_tracked: "insert_movement m w = Inr w' \<Longrightarrow> tracked w' v = tracked w v"
  by (erule insert_movement_Inr) (auto simp: tracked_def)

lemma insert_movement_off: "insert_movement m w = Inr w' \<Longrightarrow> off_stock w' = off_stock w"
  by (erule insert_movement_Inr) (simp add: off_stock_def)

lemma foldE_insert_off: "foldE insert_movement ms w = Inr w' \<Longrightarrow> off_stock w' = off_stock w"
  by (rule foldE_field [where g = off_stock]) (rule insert_movement_off)

lemma insert_movement_movements:
  "insert_movement m w = Inr w' \<Longrightarrow> w_movements w' = w_movements w @ [m]"
  by (erule insert_movement_Inr) simp

lemma foldE_insert_movements:
  "foldE insert_movement ms w = Inr w' \<Longrightarrow> w_movements w' = w_movements w @ ms"
  by (induction ms arbitrary: w) (auto simp: insert_movement_movements)

lemmas insert_movement_keeps = off_stock_keeps [OF insert_movement_off]

lemmas foldE_insert_keeps = off_stock_keeps [OF foldE_insert_off]

interpretation stock: ledger_store on_hand ledger_sum insert_movement mv_variant mv_qty
proof unfold_locales
  fix m w w' assume w': "insert_movement m w = Inr w'"
  show "0 \<le> on_hand w' (mv_variant m)"
    using w' by (rule insert_movement_Inr) (auto simp: on_hand_def level_ok_def)
qed (rule insert_movement_on_hand insert_movement_ledger; assumption)+

section \<open>The invariant\<close>

lemma stock_inv_insert: "insert_movement m w = Inr w' \<Longrightarrow> stock_inv w \<Longrightarrow> stock_inv w'"
proof -
  assume w': "insert_movement m w = Inr w'" and inv: "stock_inv w"
  have "on_hand w' v = ledger_sum w' v" for v
    using stock.post_agree [OF w'] inv by (simp add: stock_inv_def)
  moreover have "level_ok l" if "w_levels w' v = Some l" for v l
    using w' that inv by (auto elim!: insert_movement_Inr simp: stock_inv_def split: if_splits)
  ultimately show "stock_inv w'" by (simp add: stock_inv_def)
qed

lemma stock_inv_foldE_insert:
  "foldE insert_movement ms w = Inr w' \<Longrightarrow> stock_inv w \<Longrightarrow> stock_inv w'"
  by (rule foldE_inv [where P = stock_inv]) (auto intro: stock_inv_insert)

lemma update_level_Inr:
  "update_level v f w = Inr w' \<longleftrightarrow>
     (case w_levels w v of None \<Rightarrow> w' = w
      | Some l \<Rightarrow> level_ok (f l) \<and> w' = w\<lparr>w_levels := (w_levels w)(v \<mapsto> f l)\<rparr>)"
  by (auto simp: update_level_def put_level_Inr split: option.splits)

lemma update_level_off: "update_level v f w = Inr w' \<Longrightarrow> off_stock w' = off_stock w"
  by (auto simp: update_level_Inr off_stock_def split: option.splits)

lemma update_level_movements: "update_level v f w = Inr w' \<Longrightarrow> w_movements w' = w_movements w"
  by (auto simp: update_level_Inr split: option.splits)

lemmas update_level_keeps = off_stock_keeps [OF update_level_off]

lemma update_level_on_hand:
  "update_level v f w = Inr w' \<Longrightarrow> (\<And>l. sl_on_hand (f l) = sl_on_hand l) \<Longrightarrow> on_hand w' = on_hand w"
  by (auto simp: update_level_Inr on_hand_def fun_eq_iff split: option.splits)

lemma update_level_tracked:
  "update_level v f w = Inr w' \<Longrightarrow> (\<And>l. sl_tracked (f l) = sl_tracked l) \<Longrightarrow> tracked w' = tracked w"
  by (auto simp: update_level_Inr tracked_def fun_eq_iff split: option.splits)

lemma update_level_reserved:
  "update_level v f w = Inr w' \<Longrightarrow>
   reserved w' u = (case w_levels w v of None \<Rightarrow> reserved w u
     | Some l \<Rightarrow> if u = v then sl_reserved (f l) else reserved w u)"
  by (auto simp: update_level_Inr reserved_def split: option.splits)

lemma stock_inv_put_level:
  assumes "put_level v l w = Inr w'" and "sl_on_hand l = on_hand w v" and "stock_inv w"
  shows "stock_inv w'"
proof -
  have w': "level_ok l" "w' = w\<lparr>w_levels := (w_levels w)(v \<mapsto> l)\<rparr>"
    using assms(1) by (auto simp: put_level_Inr)
  have "on_hand w' u = ledger_sum w' u" for u
  proof -
    have "ledger_sum w' u = ledger_sum w u" by (simp add: w'(2) ledger_sum_def)
    moreover have "on_hand w' u = on_hand w u" using assms(2) by (simp add: w'(2))
    ultimately show ?thesis using assms(3) by (simp add: stock_inv_def)
  qed
  moreover have "level_ok l'" if "w_levels w' u = Some l'" for u l'
    using that w' assms(3) by (auto simp: stock_inv_def split: if_splits)
  ultimately show ?thesis by (simp add: stock_inv_def)
qed

lemma stock_inv_update_level:
  assumes "update_level v f w = Inr w'" and "\<And>l. sl_on_hand (f l) = sl_on_hand l" and "stock_inv w"
  shows "stock_inv w'"
proof (cases "w_levels w v")
  case None
  with assms show ?thesis by (simp add: update_level_def)
next
  case (Some l)
  show ?thesis
    by (rule stock_inv_put_level [of v "f l" w])
      (use assms Some in \<open>simp_all add: update_level_def on_hand_def\<close>)
qed

lemma stock_inv_available:
  assumes "stock_inv w"
  shows "0 \<le> reserved w v \<and> reserved w v \<le> on_hand w v"
proof (cases "w_levels w v")
  case None
  then show ?thesis by (simp add: reserved_def on_hand_def)
next
  case (Some l)
  with assms have "level_ok l" by (simp add: stock_inv_def)
  with Some show ?thesis by (simp add: reserved_def on_hand_def level_ok_def)
qed

text \<open>Exactly when the tables take a movement, and what they answer when reserved units stop it.\<close>

lemma insert_movement_ok:
  assumes "stock_inv w"
  shows "okE (insert_movement m w) \<longleftrightarrow>
    mv_qty m \<noteq> 0 \<and> reserved w (mv_variant m) \<le> on_hand w (mv_variant m) + mv_qty m \<and>
    fits_int4 (on_hand w (mv_variant m) + mv_qty m)"
proof (cases "w_levels w (mv_variant m)")
  case None
  then show ?thesis
    by (auto simp: insert_movement_def apply_stock_movement_def put_level_ok level_ok_def
        on_hand_def reserved_def fits_int4_def)
next
  case (Some l)
  with assms have "level_ok l" by (simp add: stock_inv_def)
  with Some show ?thesis
    by (auto simp: insert_movement_def apply_stock_movement_def put_level_ok level_ok_def
        on_hand_def reserved_def)
qed

lemma insert_movement_reserved_stops:
  assumes "stock_inv w" and "mv_qty m \<noteq> 0" and "0 \<le> on_hand w (mv_variant m) + mv_qty m"
    and "on_hand w (mv_variant m) + mv_qty m < reserved w (mv_variant m)"
  shows "insert_movement m w = Inl (CheckViolation ''stock_levels_reserved_lte_on_hand'')"
proof (cases "w_levels w (mv_variant m)")
  case None
  with assms show ?thesis by (simp add: on_hand_def reserved_def)
next
  case (Some l)
  with assms have "level_ok l" by (simp add: stock_inv_def)
  with Some assms show ?thesis
    by (auto simp: insert_movement_def apply_stock_movement_def put_level_def level_ok_def
        on_hand_def reserved_def fits_int4_def)
qed

lemma stock_view_effects [simp]:
  "on_hand (emitIn ev w) = on_hand w" "on_hand (audit_record en w) = on_hand w"
  "on_hand (inc n ls w) = on_hand w"
  "reserved (emitIn ev w) = reserved w" "reserved (audit_record en w) = reserved w"
  "reserved (inc n ls w) = reserved w"
  "tracked (emitIn ev w) = tracked w" "tracked (audit_record en w) = tracked w"
  "tracked (inc n ls w) = tracked w"
  by (rule on_hand_cong reserved_cong tracked_cong; simp)+

lemma stock_inv_effects [simp]:
  "stock_inv (emitIn ev w) = stock_inv w"
  "stock_inv (audit_record en w) = stock_inv w"
  "stock_inv (inc n ls w) = stock_inv w"
  by (rule stock_inv_cong; simp)+

lemma stock_inv_empty: "stock_inv empty_world"
  by (simp add: stock_inv_def empty_world_def on_hand_def ledger_sum_def)

end
