(* ===== verification/Inventory.thy ===== *)
theory Inventory
  imports Stock
begin

text \<open>
  \<open>InventoryService\<close> (\<open>modules/inventory/inventory.service.ts\<close>): the stock screen, receiving,
  adjusting, the tracking switch and the movement history.  Each \<open>withTenant\<close> call is a
  transaction of its own; what the database refuses comes out as an error value.  The order of
  the collation is a parameter of \<open>list\<close>.
\<close>

section \<open>Rows and queries\<close>

definition ADJUSTMENT_REASONS :: "string list" where
  "ADJUSTMENT_REASONS =
     [''MISCOUNT'', ''DAMAGE'', ''THEFT'', ''EXPIRED'', ''SUPPLIER_SHORTAGE'',
      ''RETURN_TO_SUPPLIER'', ''OTHER'']"

record stock_row =
  sr_variant :: string
  sr_product :: string
  sr_name :: string
  sr_attrs :: "(string \<times> string) list"
  sr_sku :: "string option"
  sr_on_hand :: int
  sr_reserved :: int
  sr_available :: int
  sr_reorder_point :: "int option"
  sr_reorder_qty :: "int option"
  sr_tracked :: bool

text \<open>The \<open>SELECT\<close> list with its \<open>LEFT JOIN\<close>: no stock row reads as zero, untracked.\<close>

definition stock_row_of :: "world \<Rightarrow> variant \<Rightarrow> stock_row" where
  "stock_row_of w v =
     \<lparr>sr_variant = va_id v, sr_product = va_product v, sr_name = va_name v,
      sr_attrs = va_attrs v, sr_sku = va_sku v,
      sr_on_hand = on_hand w (va_id v), sr_reserved = reserved w (va_id v),
      sr_available = on_hand w (va_id v) - reserved w (va_id v),
      sr_reorder_point = (case w_levels w (va_id v) of None \<Rightarrow> None | Some l \<Rightarrow> sl_reorder_point l),
      sr_reorder_qty = (case w_levels w (va_id v) of None \<Rightarrow> None | Some l \<Rightarrow> sl_reorder_qty l),
      sr_tracked = tracked w (va_id v)\<rparr>"

text \<open>PostgreSQL's \<open>LIKE\<close>: \<open>%\<close> any run, \<open>_\<close> any character, a backslash quotes the next one.\<close>

fun like :: "string \<Rightarrow> string \<Rightarrow> bool" where
  "like [] s = (s = [])"
| "like (p # ps) [] = (p = CHR ''%'' \<and> like ps [])"
| "like (p # ps) (c # cs) =
     (if p = CHR ''%'' then like ps (c # cs) \<or> like (p # ps) cs
      else if p = CHR ''_'' then like ps cs
      else if p = CHR 0x5C then (case ps of [] \<Rightarrow> False | q # qs \<Rightarrow> q = c \<and> like qs cs)
      else p = c \<and> like ps cs)"

definition ilike_contains :: "string \<Rightarrow> string \<Rightarrow> bool" where
  "ilike_contains q s = like (''%'' @ map lower_char q @ ''%'') (map lower_char s)"

definition is_low :: "stock_row \<Rightarrow> bool" where
  "is_low r =
     (sr_tracked r \<and> (case sr_reorder_point r of None \<Rightarrow> False | Some p \<Rightarrow> sr_available r \<le> p))"

definition list_stock ::
    "(stock_row \<Rightarrow> nat) \<Rightarrow> string \<Rightarrow> bool \<Rightarrow> string option \<Rightarrow> world \<Rightarrow> stock_row list" where
  "list_stock collation storeId lowStockOnly q w =
     take 500 (sort_key collation
       (map (stock_row_of w)
         (filter (\<lambda>v. va_store v = storeId \<and> \<not> va_deleted v \<and> \<not> va_product_deleted v \<and>
             (case q of None \<Rightarrow> True
              | Some t \<Rightarrow> ilike_contains t (va_name v) \<or>
                  (case va_sku v of None \<Rightarrow> False | Some k \<Rightarrow> ilike_contains t k)) \<and>
             (lowStockOnly \<longrightarrow> is_low (stock_row_of w v)))
           (w_variants w))))"

definition lowStock :: "(stock_row \<Rightarrow> nat) \<Rightarrow> string \<Rightarrow> world \<Rightarrow> stock_row list" where
  "lowStock collation storeId w = list_stock collation storeId True None w"

definition assertVariant :: "string \<Rightarrow> string \<Rightarrow> world \<Rightarrow> unit res" where
  "assertVariant storeId variantId w =
     (if \<exists>v \<in> set (w_variants w). va_id v = variantId \<and> va_store v = storeId \<and> \<not> va_deleted v
      then Inr () else notFound)"

definition readOne :: "string \<Rightarrow> string \<Rightarrow> world \<Rightarrow> stock_row res" where
  "readOne storeId variantId w =
     (case find (\<lambda>v. va_id v = variantId \<and> va_store v = storeId) (w_variants w) of
        None \<Rightarrow> notFound
      | Some v \<Rightarrow> Inr (stock_row_of w v))"

definition writeMovement ::
    "string \<Rightarrow> string \<Rightarrow> movement_type \<Rightarrow> int \<Rightarrow> string option \<Rightarrow> string option \<Rightarrow> string \<Rightarrow>
     world \<Rightarrow> unit outcome" where
  "writeMovement storeId variantId typ qtyDelta reasonCode note actorUserId =
     run_tx (\<lambda>tx. mapE (Pair ())
       (insert_movement
          \<lparr>mv_store = storeId, mv_variant = variantId, mv_type = typ, mv_qty = qtyDelta,
           mv_reason = reasonCode, mv_note = note, mv_order = None,
           mv_actor = Some actorUserId\<rparr> tx))"

section \<open>Operations\<close>

definition receive ::
    "string \<Rightarrow> string \<Rightarrow> string \<Rightarrow> js_number \<Rightarrow> string option \<Rightarrow> world \<Rightarrow> stock_row outcome" where
  "receive storeId actorUserId variantId qty note w =
     (case qty of
        NotWhole _ \<Rightarrow> (Inl (Validation ''Receive a whole number greater than zero.''), w)
      | Whole n \<Rightarrow>
          if n \<le> 0 then (Inl (Validation ''Receive a whole number greater than zero.''), w)
          else case assertVariant storeId variantId w of
            Inl e \<Rightarrow> (Inl e, w)
          | Inr _ \<Rightarrow>
              (case writeMovement storeId variantId RECEIVE n None note actorUserId w of
                 (Inl e, w1) \<Rightarrow> (Inl e, w1)
               | (Inr _, w1) \<Rightarrow>
                   let w2 = audit_record
                     (audit_entry_of ''inventory.received'' MEDIUM storeId (Some actorUserId)
                       ''product_variant'' variantId) w1
                   in (readOne storeId variantId w2, w2)))"

definition below_zero_message :: "int \<Rightarrow> string" where
  "below_zero_message n =
     ''That would take stock below zero - there '' @ (if n = 1 then ''is'' else ''are'') @ '' '' @
     show_int n @ '' on hand.''"

definition adjust ::
    "string \<Rightarrow> string \<Rightarrow> string \<Rightarrow> js_number \<Rightarrow> string \<Rightarrow> string option \<Rightarrow> world \<Rightarrow>
     stock_row outcome" where
  "adjust storeId actorUserId variantId qtyDelta reason note w =
     (case qtyDelta of
        NotWhole _ \<Rightarrow> (Inl (Validation ''An adjustment has to be a whole number, up or down.''), w)
      | Whole n \<Rightarrow>
          if n = 0
          then (Inl (Validation ''An adjustment has to be a whole number, up or down.''), w)
          else if reason \<notin> set ADJUSTMENT_REASONS
          then (Inl (Validation ''Choose a reason for the adjustment.''), w)
          else case assertVariant storeId variantId w of
            Inl e \<Rightarrow> (Inl e, w)
          | Inr _ \<Rightarrow>
              (case readOne storeId variantId w of
                 Inl e \<Rightarrow> (Inl e, w)
               | Inr current \<Rightarrow>
                   if sr_on_hand current + n < 0
                   then (Inl (Validation (below_zero_message (sr_on_hand current))), w)
                   else case writeMovement storeId variantId
                       (if reason = ''DAMAGE'' then DAMAGE else ADJUSTMENT) n (Some reason) note
                       actorUserId w of
                     (Inl e, w1) \<Rightarrow> (Inl e, w1)
                   | (Inr _, w1) \<Rightarrow>
                       let w2 = audit_record
                         (audit_entry_of ''inventory.adjusted'' MEDIUM storeId (Some actorUserId)
                           ''product_variant'' variantId) w1
                       in (readOne storeId variantId w2, w2)))"

text \<open>The upsert of \<open>setTracking\<close>: a conflict keeps the quantities and replaces the rest.\<close>

definition upsert_tracking ::
    "string \<Rightarrow> string \<Rightarrow> bool \<Rightarrow> int option \<Rightarrow> int option \<Rightarrow> world \<Rightarrow> world res" where
  "upsert_tracking storeId variantId trackedNow reorderPoint reorderQty w =
     (if \<not> fits_int4 (or_else reorderPoint 0) \<or> \<not> fits_int4 (or_else reorderQty 0)
      then Inl (CheckViolation ''integer out of range'')
      else put_level variantId
        (case w_levels w variantId of
           None \<Rightarrow> \<lparr>sl_store = storeId, sl_on_hand = 0, sl_reserved = 0, sl_tracked = trackedNow,
                    sl_reorder_point = reorderPoint, sl_reorder_qty = reorderQty\<rparr>
         | Some l \<Rightarrow> l\<lparr>sl_tracked := trackedNow, sl_reorder_point := reorderPoint,
                       sl_reorder_qty := reorderQty\<rparr>) w)"

definition setTracking ::
    "string \<Rightarrow> string \<Rightarrow> string \<Rightarrow> bool \<Rightarrow> int option \<Rightarrow> int option \<Rightarrow> world \<Rightarrow>
     stock_row outcome" where
  "setTracking storeId actorUserId variantId trackedNow reorderPoint reorderQty w =
     (if or_else reorderPoint 0 < 0 \<or> or_else reorderQty 0 < 0
      then (Inl (Validation ''Reorder numbers cannot be negative.''), w)
      else case assertVariant storeId variantId w of
        Inl e \<Rightarrow> (Inl e, w)
      | Inr _ \<Rightarrow>
          (case run_tx (\<lambda>tx. mapE (Pair ())
               (upsert_tracking storeId variantId trackedNow reorderPoint reorderQty tx)) w of
             (Inl e, w1) \<Rightarrow> (Inl e, w1)
           | (Inr _, w1) \<Rightarrow>
               let w2 = audit_record
                 (audit_entry_of ''inventory.tracking_changed'' MEDIUM storeId (Some actorUserId)
                   ''product_variant'' variantId) w1
               in (readOne storeId variantId w2, w2)))"

text \<open>
  The history of one line, newest first, with the actor's name looked up in \<open>users\<close>, which is
  a parameter here.
\<close>

definition movements ::
    "(string \<Rightarrow> string option) \<Rightarrow> string \<Rightarrow> string \<Rightarrow> nat \<Rightarrow> world \<Rightarrow>
     (movement \<times> string option) list" where
  "movements names storeId variantId limit w =
     map (\<lambda>m. (m, case mv_actor m of None \<Rightarrow> None | Some a \<Rightarrow> names a))
       (take limit (rev (filter (\<lambda>m. mv_store m = storeId \<and> mv_variant m = variantId)
         (w_movements w))))"

section \<open>What the operations do\<close>

lemma stock_row_of_frame [simp]: "stock_row_of (audit_record en w) = stock_row_of w"
  by (simp add: stock_row_of_def effect_defs on_hand_def reserved_def tracked_def fun_eq_iff)

lemma readOne_frame [simp]: "readOne s v (audit_record en w) = readOne s v w"
  by (simp add: readOne_def split: option.split)

lemma assertVariant_find:
  "assertVariant s v w = Inr u \<Longrightarrow>
     \<exists>x. find (\<lambda>x. va_id x = v \<and> va_store x = s) (w_variants w) = Some x \<and> va_id x = v"
  by (cases "find (\<lambda>x. va_id x = v \<and> va_store x = s) (w_variants w)")
    (auto simp: assertVariant_def notFound_def find_None_iff find_Some_iff split: if_splits)

lemma readOne_Inr:
  "assertVariant s v w = Inr u \<Longrightarrow>
     \<exists>x. readOne s v w' = Inr (stock_row_of w' x) \<and> va_id x = v" if "w_variants w' = w_variants w"
  using that assertVariant_find [of s v w u] by (auto simp: readOne_def)

lemma writeMovement_Inr:
  "writeMovement s v t n r note a w = (Inr u, w') \<longleftrightarrow>
     insert_movement \<lparr>mv_store = s, mv_variant = v, mv_type = t, mv_qty = n, mv_reason = r,
       mv_note = note, mv_order = None, mv_actor = Some a\<rparr> w = Inr w'"
  by (auto simp: writeMovement_def run_tx_Inr)

lemma writeMovement_Inl:
  "writeMovement s v t n r note a w = (Inl e, w') \<longleftrightarrow>
     w' = w \<and> insert_movement \<lparr>mv_store = s, mv_variant = v, mv_type = t, mv_qty = n, mv_reason = r,
       mv_note = note, mv_order = None, mv_actor = Some a\<rparr> w = Inl e"
  by (auto simp: writeMovement_def run_tx_Inl mapE_def split: sum.splits)

lemma upsert_tracking_inv:
  "upsert_tracking s v t p q w = Inr w' \<Longrightarrow> stock_inv w \<Longrightarrow> stock_inv w'"
  by (auto simp: upsert_tracking_def on_hand_def elim!: stock_inv_put_level
      split: if_splits option.splits)

lemmas inventory_splits = js_number.splits sum.splits prod.splits if_splits

lemma receive_inv: "receive s a v q note w = (r, w') \<Longrightarrow> stock_inv w \<Longrightarrow> stock_inv w'"
  by (auto simp: receive_def Let_def writeMovement_Inr writeMovement_Inl
      intro: stock_inv_insert split: inventory_splits)

lemma adjust_inv: "adjust s a v q reason note w = (r, w') \<Longrightarrow> stock_inv w \<Longrightarrow> stock_inv w'"
  by (auto simp: adjust_def Let_def writeMovement_Inr writeMovement_Inl
      intro: stock_inv_insert split: inventory_splits)

lemma setTracking_inv: "setTracking s a v t p q w = (r, w') \<Longrightarrow> stock_inv w \<Longrightarrow> stock_inv w'"
  by (auto simp: setTracking_def Let_def run_tx_Inl run_tx_Inr
      intro: upsert_tracking_inv split: inventory_splits)

section \<open>What an adjustment guarantees\<close>

text \<open>The one movement an adjustment by \<open>n\<close> writes.\<close>

definition adjustment ::
    "string \<Rightarrow> string \<Rightarrow> string \<Rightarrow> int \<Rightarrow> string \<Rightarrow> string option \<Rightarrow> movement" where
  "adjustment s a v n reason note =
     \<lparr>mv_store = s, mv_variant = v,
      mv_type = (if reason = ''DAMAGE'' then DAMAGE else ADJUSTMENT), mv_qty = n,
      mv_reason = Some reason, mv_note = note, mv_order = None, mv_actor = Some a\<rparr>"

lemma adjust_movement:
  assumes "adjust s a v q reason note w = (Inr row, w')"
  obtains n w1 where "q = Whole n" and "n \<noteq> 0" and "reason \<in> set ADJUSTMENT_REASONS"
    and "insert_movement (adjustment s a v n reason note) w = Inr w1"
    and "w' = audit_record (audit_entry_of ''inventory.adjusted'' MEDIUM s (Some a)
           ''product_variant'' v) w1"
    and "sr_on_hand row = on_hand w' v" and "sr_available row = on_hand w' v - reserved w' v"
proof -
  from assms obtain n w1 where *: "q = Whole n" "n \<noteq> 0" "reason \<in> set ADJUSTMENT_REASONS"
    "insert_movement (adjustment s a v n reason note) w = Inr w1"
    "w' = audit_record (audit_entry_of ''inventory.adjusted'' MEDIUM s (Some a)
       ''product_variant'' v) w1" "readOne s v w' = Inr row"
    by (auto simp: adjust_def adjustment_def Let_def writeMovement_Inr writeMovement_Inl
        split: inventory_splits)
  from *(6) have "sr_on_hand row = on_hand w' v \<and> sr_available row = on_hand w' v - reserved w' v"
    by (auto simp: readOne_def find_Some_iff stock_row_of_def notFound_def split: option.splits)
  with * show thesis by (intro that [of n w1]) simp_all
qed

lemma readOne_after_insert:
  "assertVariant s v w = Inr u \<Longrightarrow> insert_movement m w = Inr w1 \<Longrightarrow> readOne s v w1 \<noteq> Inl e"
  using readOne_Inr [of w1 w s v u] insert_movement_keeps(1) [of m w w1] by auto

lemma adjust_refused: "adjust s a v q reason note w = (Inl e, w') \<Longrightarrow> w' = w"
  by (auto simp: adjust_def Let_def writeMovement_Inr writeMovement_Inl
      dest: readOne_after_insert split: inventory_splits)

lemma adjust_effect:
  assumes "adjust s a v q reason note w = (Inr row, w')"
  shows "\<exists>n. q = Whole n \<and> w_movements w' = w_movements w @ [adjustment s a v n reason note] \<and>
    (\<forall>u. on_hand w' u = on_hand w u + (if u = v then n else 0) \<and> reserved w' u = reserved w u) \<and>
    sr_on_hand row = on_hand w' v \<and> sr_available row = on_hand w' v - reserved w v"
  using assms
proof (rule adjust_movement)
  fix n w1
  assume n: "q = Whole n" "sr_on_hand row = on_hand w' v"
      "sr_available row = on_hand w' v - reserved w' v"
    and ins: "insert_movement (adjustment s a v n reason note) w = Inr w1"
    and w': "w' = audit_record (audit_entry_of ''inventory.adjusted'' MEDIUM s (Some a)
           ''product_variant'' v) w1"
  have "w_movements w' = w_movements w @ [adjustment s a v n reason note]"
    using insert_movement_movements [OF ins] w' by simp
  moreover have "\<forall>u. on_hand w' u = on_hand w u + (if u = v then n else 0) \<and>
      reserved w' u = reserved w u"
    using insert_movement_on_hand [OF ins] insert_movement_reserved [OF ins]
    by (simp add: w' adjustment_def)
  ultimately show ?thesis using n by auto
qed

lemma adjust_succeeds:
  assumes "stock_inv w"
  shows "okE (fst (adjust s a v q reason note w)) \<longleftrightarrow>
    (\<exists>n. q = Whole n \<and> n \<noteq> 0 \<and> reason \<in> set ADJUSTMENT_REASONS \<and>
       okE (assertVariant s v w) \<and> reserved w v \<le> on_hand w v + n \<and>
       fits_int4 (on_hand w v + n))" (is "?lhs \<longleftrightarrow> ?rhs")
proof
  assume ?lhs
  then obtain row w' where ok: "adjust s a v q reason note w = (Inr row, w')"
    by (cases "adjust s a v q reason note w") (auto simp: okE_iff)
  have "okE (assertVariant s v w)"
    using ok by (auto simp: adjust_def split: inventory_splits)
  moreover obtain n where n: "q = Whole n" "n \<noteq> 0" "reason \<in> set ADJUSTMENT_REASONS"
    and ins: "okE (insert_movement (adjustment s a v n reason note) w)"
    using ok by (rule adjust_movement) (auto simp: okE_iff)
  ultimately show ?rhs using insert_movement_ok [OF assms, THEN iffD1, OF ins] by (auto simp: adjustment_def)
next
  assume ?rhs
  then obtain n where n: "q = Whole n" "n \<noteq> 0" "reason \<in> set ADJUSTMENT_REASONS"
    "assertVariant s v w = Inr ()" "reserved w v \<le> on_hand w v + n"
    "fits_int4 (on_hand w v + n)"
    by (auto simp: okE_iff)
  have "okE (insert_movement (adjustment s a v n reason note) w)" using n assms by (simp add: insert_movement_ok adjustment_def)
  then obtain w1 where w1: "insert_movement (adjustment s a v n reason note) w = Inr w1" by (auto simp: okE_iff)
  obtain x where x: "readOne s v w = Inr (stock_row_of w x)" "va_id x = v"
    using readOne_Inr [OF refl n(4)] by auto
  obtain y where y: "readOne s v w1 = Inr (stock_row_of w1 y)"
    using readOne_Inr [OF _ n(4), of w1] insert_movement_keeps(1) [OF w1] by auto
  have "sr_on_hand (stock_row_of w x) = on_hand w v" using x(2) by (simp add: stock_row_of_def)
  moreover have "0 \<le> on_hand w v + n"
    using n(5) stock_inv_available [OF assms, of v] by linarith
  moreover have "writeMovement s v (if reason = ''DAMAGE'' then DAMAGE else ADJUSTMENT) n
      (Some reason) note a w = (Inr (), w1)"
    using w1 by (simp add: writeMovement_Inr adjustment_def)
  ultimately show ?lhs using n x y by (simp add: adjust_def)
qed

text \<open>
  An adjustment goes through exactly when it is a whole non-zero number with a listed
  reason, on a live variant, and leaves at least the reserved units on the shelf.  It then adds
  that number to the level of this variant and to no other, appends one movement, typed as
  damage when the reason is damage and as an adjustment otherwise, and answers with the new
  level; in every other case nothing changes.
\<close>

theorem adjust_correct:
  assumes "stock_inv w"
  shows "(okE (fst (adjust s a v q reason note w)) \<longleftrightarrow>
      (\<exists>n. q = Whole n \<and> n \<noteq> 0 \<and> reason \<in> set ADJUSTMENT_REASONS \<and>
         okE (assertVariant s v w) \<and> reserved w v \<le> on_hand w v + n \<and>
         fits_int4 (on_hand w v + n))) \<and>
    (case adjust s a v q reason note w of
       (Inl e, w') \<Rightarrow> w' = w
     | (Inr row, w') \<Rightarrow> stock_inv w' \<and>
         (\<exists>n. q = Whole n \<and> w_movements w' = w_movements w @ [adjustment s a v n reason note] \<and>
           (\<forall>u. on_hand w' u = on_hand w u + (if u = v then n else 0) \<and>
                reserved w' u = reserved w u) \<and>
           sr_on_hand row = on_hand w' v \<and> sr_available row = on_hand w' v - reserved w v))"
proof (intro conjI adjust_succeeds [OF assms], cases "adjust s a v q reason note w")
  case (Pair r w')
  then show "case adjust s a v q reason note w of
       (Inl e, w') \<Rightarrow> w' = w
     | (Inr row, w') \<Rightarrow> stock_inv w' \<and>
         (\<exists>n. q = Whole n \<and> w_movements w' = w_movements w @ [adjustment s a v n reason note] \<and>
           (\<forall>u. on_hand w' u = on_hand w u + (if u = v then n else 0) \<and>
                reserved w' u = reserved w u) \<and>
           sr_on_hand row = on_hand w' v \<and> sr_available row = on_hand w' v - reserved w v)"
    using adjust_refused adjust_effect adjust_inv assms by (cases r) simp_all
qed

text \<open>A shop with two live variants, twelve units received of the first and five reserved.\<close>

definition sample_variant :: "string \<Rightarrow> int \<Rightarrow> variant" where
  "sample_variant v price =
     \<lparr>va_id = v, va_store = ''s1'', va_product = ''p1'', va_name = ''Tea'', va_status = P_ACTIVE,
      va_product_deleted = False, va_price = price, va_attrs = [], va_sku = None, va_barcode = None, va_default = True,
      va_active = True, va_deleted = False\<rparr>"

definition sample_stock :: world where
  "sample_stock =
     empty_world\<lparr>w_variants := [sample_variant ''v1'' 500, sample_variant ''v2'' 250],
       w_movements := [\<lparr>mv_store = ''s1'', mv_variant = ''v1'', mv_type = RECEIVE, mv_qty = 12,
         mv_reason = None, mv_note = None, mv_order = None, mv_actor = Some ''u1''\<rparr>],
       w_levels := [''v1'' \<mapsto> \<lparr>sl_store = ''s1'', sl_on_hand = 12, sl_reserved = 5,
         sl_tracked = True, sl_reorder_point = Some 8, sl_reorder_qty = None\<rparr>]\<rparr>"

lemma sample_stock_inv: "stock_inv sample_stock"
  by (simp add: stock_inv_def sample_stock_def on_hand_def ledger_sum_def empty_world_def
      level_ok_def fits_int4_def)

theorem adjust_correct_witness:
  "stock_inv sample_stock \<and>
   okE (fst (adjust ''s1'' ''u1'' ''v1'' (Whole (- 7)) ''THEFT'' None sample_stock)) \<and>
   \<not> okE (fst (adjust ''s1'' ''u1'' ''v1'' (Whole (- 8)) ''THEFT'' None sample_stock))"
proof (intro conjI sample_stock_inv)
  have *: "okE (assertVariant ''s1'' ''v1'' sample_stock)"
    "on_hand sample_stock ''v1'' = 12" "reserved sample_stock ''v1'' = 5"
    by (simp_all add: assertVariant_def sample_stock_def sample_variant_def on_hand_def
        reserved_def)
  show "okE (fst (adjust ''s1'' ''u1'' ''v1'' (Whole (- 7)) ''THEFT'' None sample_stock))"
    using adjust_correct [OF sample_stock_inv, THEN conjunct1,
        of "''s1''" "''u1''" "''v1''" "Whole (- 7)" "''THEFT''" None] *
    by (simp add: ADJUSTMENT_REASONS_def fits_int4_def)
  show "\<not> okE (fst (adjust ''s1'' ''u1'' ''v1'' (Whole (- 8)) ''THEFT'' None sample_stock))"
    using adjust_correct [OF sample_stock_inv, THEN conjunct1,
        of "''s1''" "''u1''" "''v1''" "Whole (- 8)" "''THEFT''" None] *
    by (simp add: ADJUSTMENT_REASONS_def fits_int4_def)
qed

text \<open>
  Between zero and the reserved units an adjustment passes the service's own check and is
  stopped by the table's constraint: the person is answered with the database's refusal (an
  internal error) and not with what is on hand.
\<close>

theorem adjust_below_reserved:
  assumes "stock_inv w" and "okE (assertVariant s v w)" and "reason \<in> set ADJUSTMENT_REASONS"
    and "n \<noteq> 0" and "0 \<le> on_hand w v + n" and "on_hand w v + n < reserved w v"
  shows "adjust s a v (Whole n) reason note w =
      (Inl (CheckViolation ''stock_levels_reserved_lte_on_hand''), w) \<and>
    error_status (CheckViolation ''stock_levels_reserved_lte_on_hand'') = 500"
proof -
  obtain x where x: "readOne s v w = Inr (stock_row_of w x)" "va_id x = v"
    using readOne_Inr [OF refl, of s v w "()"] assms(2) by (auto simp: okE_iff)
  have "writeMovement s v (if reason = ''DAMAGE'' then DAMAGE else ADJUSTMENT) n (Some reason)
      note a w = (Inl (CheckViolation ''stock_levels_reserved_lte_on_hand''), w)"
    using insert_movement_reserved_stops [of w "adjustment s a v n reason note"] assms
    by (simp add: writeMovement_Inl adjustment_def)
  with assms x show ?thesis
    by (auto simp: adjust_def okE_iff stock_row_of_def)
qed

theorem adjust_below_reserved_witness:
  "adjust ''s1'' ''u1'' ''v1'' (Whole (- 8)) ''THEFT'' None sample_stock =
     (Inl (CheckViolation ''stock_levels_reserved_lte_on_hand''), sample_stock)"
proof -
  have *: "okE (assertVariant ''s1'' ''v1'' sample_stock)"
    "on_hand sample_stock ''v1'' = 12" "reserved sample_stock ''v1'' = 5"
    by (simp_all add: assertVariant_def sample_stock_def sample_variant_def on_hand_def
        reserved_def)
  show ?thesis
    using adjust_below_reserved [OF sample_stock_inv *(1), of "''THEFT''" "- 8" "''u1''" None] *
    by (simp add: ADJUSTMENT_REASONS_def)
qed

end
