(* ===== verification/CountSessions.thy ===== *)
theory CountSessions
  imports Inventory "HOL-Library.Product_Lexorder" "HOL-Library.Multiset"
begin

text \<open>
  \<open>CountSessions\<close> (\<open>modules/inventory/count-sessions.service.ts\<close>): opening a stock count,
  entering and removing lines, reviewing, posting the variances as movements and abandoning.
  Migration 17 gives one open session per store, one line per variant and session, and a
  non-negative count.  \<open>post\<close> reads before its transaction and does not look again inside it, so
  it is modelled in two halves that other requests may come between.
\<close>

section \<open>Sessions\<close>

definition open_in :: "world \<Rightarrow> string \<Rightarrow> count_session list" where
  "open_in w storeId = filter (\<lambda>c. cs_store c = storeId \<and> cs_status c = CS_OPEN) (w_sessions w)"

text \<open>The insert, under the partial unique index on open sessions.\<close>

definition insert_session :: "count_session \<Rightarrow> world \<Rightarrow> world res" where
  "insert_session c w =
     (if cs_status c = CS_OPEN \<and> open_in w (cs_store c) \<noteq> []
      then Inl (UniqueViolation ''count_sessions_one_open_per_store'')
      else Inr (w\<lparr>w_sessions := w_sessions w @ [c]\<rparr>))"

definition get_session :: "string \<Rightarrow> string \<Rightarrow> world \<Rightarrow> count_session res" where
  "get_session storeId sessionId w =
     (case find (\<lambda>c. cs_id c = sessionId \<and> cs_store c = storeId) (w_sessions w) of
        None \<Rightarrow> notFound
      | Some c \<Rightarrow> Inr c)"

definition current_count :: "string \<Rightarrow> world \<Rightarrow> count_session option" where
  "current_count storeId w =
     find (\<lambda>c. cs_store c = storeId \<and> cs_status c = CS_OPEN) (w_sessions w)"

definition list_sessions :: "string \<Rightarrow> nat \<Rightarrow> world \<Rightarrow> count_session list" where
  "list_sessions storeId limit w =
     take limit (rev (filter (\<lambda>c. cs_store c = storeId) (w_sessions w)))"

definition open_count ::
    "string \<Rightarrow> string \<Rightarrow> string \<Rightarrow> string \<Rightarrow> world \<Rightarrow> count_session outcome" where
  "open_count newId storeId actorUserId name w =
     (case insert_session
        \<lparr>cs_id = newId, cs_store = storeId,
         cs_name = (if js_trim name = [] then ''Stock count'' else js_trim name),
         cs_status = CS_OPEN, cs_opened_by = actorUserId, cs_posted_by = None,
         cs_posted_at = None\<rparr> w of
        Inl e \<Rightarrow>
          (if isUniqueViolation e
           then (Inl (Validation ''A count is already open. Finish or abandon it first.''), w)
           else (Inl e, w))
      | Inr w1 \<Rightarrow>
          let w2 = audit_record
            (audit_entry_of ''inventory.count_opened'' MEDIUM storeId (Some actorUserId)
              ''count_session'' newId) w1
          in (get_session storeId newId w2, w2))"

definition require_open :: "string \<Rightarrow> string \<Rightarrow> world \<Rightarrow> count_session res" where
  "require_open storeId sessionId w =
     bindE (get_session storeId sessionId w) (\<lambda>session.
       if cs_status session \<noteq> CS_OPEN
       then Inl (Validation ''That count has already been finished.'') else Inr session)"

section \<open>Lines\<close>

record count_view =
  vw_variant :: string
  vw_name :: string
  vw_sku :: "string option"
  vw_expected :: int
  vw_counted :: int
  vw_variance :: int
  vw_note :: "string option"

definition count_view_of :: "world \<Rightarrow> count_line \<Rightarrow> count_view list" where
  "count_view_of w l =
     (case find (\<lambda>v. va_id v = cl_variant l) (w_variants w) of
        None \<Rightarrow> []
      | Some v \<Rightarrow>
          [\<lparr>vw_variant = cl_variant l, vw_name = va_name v, vw_sku = va_sku v,
            vw_expected = cl_expected l, vw_counted = cl_counted l,
            vw_variance = cl_counted l - cl_expected l, vw_note = cl_note l\<rparr>])"

text \<open>The review query: biggest disagreements first, then by name in the database's collation.\<close>

definition count_lines ::
    "(string \<Rightarrow> nat) \<Rightarrow> string \<Rightarrow> string \<Rightarrow> string option \<Rightarrow> world \<Rightarrow> count_view list" where
  "count_lines collation storeId sessionId variantId w =
     sort_key (\<lambda>l. (- \<bar>vw_variance l\<bar>, collation (vw_name l)))
       (concat (map (count_view_of w)
         (filter (\<lambda>l. cl_session l = sessionId \<and> cl_store l = storeId \<and>
             (variantId = None \<or> variantId = Some (cl_variant l))) (w_lines w))))"

text \<open>\<open>INSERT ... ON CONFLICT (session_id, variant_id) DO UPDATE\<close>\<close>

definition upsert_line :: "count_line \<Rightarrow> world \<Rightarrow> world res" where
  "upsert_line l w =
     (let same = (\<lambda>x. cl_session x = cl_session l \<and> cl_variant x = cl_variant l) in
      if cl_counted l < 0 then Inl (CheckViolation ''count_lines_counted_nonneg'')
      else if \<not> fits_int4 (cl_counted l) then Inl (CheckViolation ''integer out of range'')
      else if \<exists>x \<in> set (w_lines w). same x
      then Inr (w\<lparr>w_lines := update_where same (\<lambda>x. x\<lparr>cl_expected := cl_expected l,
        cl_counted := cl_counted l, cl_note := cl_note l, cl_by := cl_by l\<rparr>) (w_lines w)\<rparr>)
      else Inr (w\<lparr>w_lines := w_lines w @ [l]\<rparr>))"

definition enter ::
    "(string \<Rightarrow> nat) \<Rightarrow> string \<Rightarrow> string \<Rightarrow> string \<Rightarrow> string \<Rightarrow> js_number \<Rightarrow> string option \<Rightarrow>
     world \<Rightarrow> count_view option outcome" where
  "enter collation storeId sessionId actorUserId variantId countedQty note w =
     (case countedQty of
        NotWhole _ \<Rightarrow> (Inl (Validation ''A count has to be a whole number, zero or more.''), w)
      | Whole n \<Rightarrow>
          if n < 0 then (Inl (Validation ''A count has to be a whole number, zero or more.''), w)
          else case require_open storeId sessionId w of
            Inl e \<Rightarrow> (Inl e, w)
          | Inr _ \<Rightarrow>
              (case assertVariant storeId variantId w of
                 Inl e \<Rightarrow> (Inl e, w)
               | Inr _ \<Rightarrow>
                   (case upsert_line
                      \<lparr>cl_session = sessionId, cl_store = storeId, cl_variant = variantId,
                       cl_expected = on_hand w variantId, cl_counted = n, cl_note = note,
                       cl_by = actorUserId\<rparr> w of
                      Inl e \<Rightarrow> (Inl e, w)
                    | Inr w1 \<Rightarrow>
                        (Inr (case count_lines collation storeId sessionId (Some variantId) w1 of
                                [] \<Rightarrow> None | l # _ \<Rightarrow> Some l), w1))))"

definition removeLine :: "string \<Rightarrow> string \<Rightarrow> string \<Rightarrow> world \<Rightarrow> unit outcome" where
  "removeLine storeId sessionId variantId w =
     (case require_open storeId sessionId w of
        Inl e \<Rightarrow> (Inl e, w)
      | Inr _ \<Rightarrow>
          (Inr (), w\<lparr>w_lines := filter (\<lambda>l. \<not> (cl_session l = sessionId \<and> cl_variant l = variantId))
             (w_lines w)\<rparr>))"

section \<open>Posting\<close>

record post_result =
  ps_applied :: nat
  ps_unchanged :: nat
  ps_net :: int

definition count_movement :: "string \<Rightarrow> string \<Rightarrow> string \<Rightarrow> count_view \<Rightarrow> movement" where
  "count_movement storeId name actorUserId l =
     \<lparr>mv_store = storeId, mv_variant = vw_variant l, mv_type = COUNT, mv_qty = vw_variance l,
      mv_reason = Some ''COUNT'', mv_note = Some (''Count: '' @ name), mv_order = None,
      mv_actor = Some actorUserId\<rparr>"

definition changed_lines :: "count_view list \<Rightarrow> count_view list" where
  "changed_lines ls = filter (\<lambda>l. vw_variance l \<noteq> 0) ls"

definition set_session ::
    "string \<Rightarrow> string \<Rightarrow> count_status \<Rightarrow> string \<Rightarrow> int \<Rightarrow> world \<Rightarrow> world" where
  "set_session storeId sessionId st actorUserId now w =
     w\<lparr>w_sessions := update_where (\<lambda>c. cs_id c = sessionId \<and> cs_store c = storeId)
        (\<lambda>c. c\<lparr>cs_status := st, cs_posted_by := Some actorUserId, cs_posted_at := Some now\<rparr>)
        (w_sessions w)\<rparr>"

text \<open>What \<open>post\<close> reads, and the transaction it then runs on what it read.\<close>

definition post_read ::
    "(string \<Rightarrow> nat) \<Rightarrow> string \<Rightarrow> string \<Rightarrow> world \<Rightarrow> (count_session \<times> count_view list) res" where
  "post_read collation storeId sessionId w =
     bindE (require_open storeId sessionId w) (\<lambda>session.
       Inr (session, count_lines collation storeId sessionId None w))"

definition post_commit ::
    "string \<Rightarrow> string \<Rightarrow> string \<Rightarrow> int \<Rightarrow> count_session \<times> count_view list \<Rightarrow> world \<Rightarrow>
     post_result outcome" where
  "post_commit storeId sessionId actorUserId now readings w =
     (case readings of (session, ls) \<Rightarrow>
        let changed = changed_lines ls in
        case run_tx (\<lambda>tx. mapE (\<lambda>tx1. ((), set_session storeId sessionId CS_POSTED actorUserId now tx1))
            (foldE insert_movement (map (count_movement storeId (cs_name session) actorUserId) changed) tx)) w of
          (Inl e, w1) \<Rightarrow> (Inl e, w1)
        | (Inr _, w1) \<Rightarrow>
            (Inr \<lparr>ps_applied = length changed, ps_unchanged = length ls - length changed,
                  ps_net = sum_list (map vw_variance changed)\<rparr>,
             audit_record (audit_entry_of ''inventory.count_posted'' MEDIUM storeId
               (Some actorUserId) ''count_session'' sessionId) w1))"

definition post_count ::
    "(string \<Rightarrow> nat) \<Rightarrow> string \<Rightarrow> string \<Rightarrow> string \<Rightarrow> int \<Rightarrow> world \<Rightarrow> post_result outcome" where
  "post_count collation storeId sessionId actorUserId now w =
     (case post_read collation storeId sessionId w of
        Inl e \<Rightarrow> (Inl e, w)
      | Inr readings \<Rightarrow> post_commit storeId sessionId actorUserId now readings w)"

definition abandon :: "string \<Rightarrow> string \<Rightarrow> string \<Rightarrow> int \<Rightarrow> world \<Rightarrow> unit outcome" where
  "abandon storeId sessionId actorUserId now w =
     (case require_open storeId sessionId w of
        Inl e \<Rightarrow> (Inl e, w)
      | Inr _ \<Rightarrow>
          (Inr (), audit_record (audit_entry_of ''inventory.count_abandoned'' MEDIUM storeId
             (Some actorUserId) ''count_session'' sessionId)
             (set_session storeId sessionId CS_ABANDONED actorUserId now w)))"

section \<open>Invariant\<close>

text \<open>One open session per store, one line per variant and session, no negative count.\<close>

definition count_inv :: "world \<Rightarrow> bool" where
  "count_inv w =
     ((\<forall>s. length (open_in w s) \<le> 1) \<and>
      distinct (map (\<lambda>l. (cl_session l, cl_variant l)) (w_lines w)) \<and>
      (\<forall>l \<in> set (w_lines w). 0 \<le> cl_counted l))"

lemma count_inv_cong:
  "w_sessions w = w_sessions w' \<Longrightarrow> w_lines w = w_lines w' \<Longrightarrow> count_inv w = count_inv w'"
  by (simp add: count_inv_def open_in_def)

lemma count_inv_effects [simp]:
  "count_inv (emitIn ev w) = count_inv w"
  "count_inv (audit_record en w) = count_inv w"
  "count_inv (inc n ls w) = count_inv w"
  by (rule count_inv_cong; simp)+

lemma insert_session_inv: "insert_session c w = Inr w' \<Longrightarrow> count_inv w \<Longrightarrow> count_inv w'"
  by (auto simp: insert_session_def count_inv_def open_in_def split: if_splits)

lemma upsert_line_inv: "upsert_line l w = Inr w' \<Longrightarrow> count_inv w \<Longrightarrow> count_inv w'"
  by (auto simp: upsert_line_def count_inv_def open_in_def Let_def map_update_where
      set_update_where image_iff split: if_splits) metis

lemma open_in_set_session:
  assumes "st \<noteq> CS_OPEN"
  shows "open_in (set_session s i st a now w) t =
    filter (\<lambda>c. \<not> (cs_id c = i \<and> cs_store c = s)) (open_in w t)"
proof -
  have "filter (\<lambda>c. cs_store c = t \<and> cs_status c = CS_OPEN)
      (update_where (\<lambda>c. cs_id c = i \<and> cs_store c = s)
        (\<lambda>c. c\<lparr>cs_status := st, cs_posted_by := Some a, cs_posted_at := Some now\<rparr>) rows) =
    filter (\<lambda>c. \<not> (cs_id c = i \<and> cs_store c = s))
      (filter (\<lambda>c. cs_store c = t \<and> cs_status c = CS_OPEN) rows)" for rows
    using assms by (induction rows) auto
  then show ?thesis by (simp add: open_in_def set_session_def)
qed

lemma set_session_inv:
  assumes "st \<noteq> CS_OPEN" and "count_inv w"
  shows "count_inv (set_session s i st a now w)"
proof -
  have "length (open_in (set_session s i st a now w) t) \<le> 1" for t
    unfolding open_in_set_session [OF assms(1)]
    using assms(2) by (intro le_trans [OF length_filter_le]) (simp add: count_inv_def)
  then show ?thesis using assms(2) by (simp add: count_inv_def set_session_def)
qed

lemma open_count_inv: "open_count i s a n w = (r, w') \<Longrightarrow> count_inv w \<Longrightarrow> count_inv w'"
  by (auto simp: open_count_def Let_def intro: insert_session_inv split: sum.splits if_splits)

lemma enter_inv: "enter coll s i a v q note w = (r, w') \<Longrightarrow> count_inv w \<Longrightarrow> count_inv w'"
  by (auto simp: enter_def intro: upsert_line_inv split: sum.splits js_number.splits if_splits)

lemma removeLine_inv: "removeLine s i v w = (r, w') \<Longrightarrow> count_inv w \<Longrightarrow> count_inv w'"
  by (auto simp: removeLine_def count_inv_def open_in_def distinct_map inj_on_def
      split: sum.splits)

lemma abandon_inv: "abandon s i a now w = (r, w') \<Longrightarrow> count_inv w \<Longrightarrow> count_inv w'"
  by (auto simp: abandon_def set_session_inv split: sum.splits)

section \<open>What posting does\<close>

lemma post_commit_Inr:
  assumes "post_commit s i a now (session, ls) w = (Inr r, w')"
  obtains w1 where
    "foldE insert_movement (map (count_movement s (cs_name session) a) (changed_lines ls)) w = Inr w1"
    and "w' = audit_record (audit_entry_of ''inventory.count_posted'' MEDIUM s (Some a)
           ''count_session'' i) (set_session s i CS_POSTED a now w1)"
    and "r = \<lparr>ps_applied = length (changed_lines ls),
           ps_unchanged = length ls - length (changed_lines ls),
           ps_net = sum_list (map vw_variance (changed_lines ls))\<rparr>"
  using assms by (auto simp: post_commit_def run_tx_Inr Let_def split: sum.splits prod.splits)

lemma post_commit_Inl:
  "post_commit s i a now readings w = (Inl e, w') \<Longrightarrow> w' = w"
  by (auto simp: post_commit_def run_tx_Inl Let_def split: sum.splits prod.splits)

lemma set_session_stock [simp]:
  "on_hand (set_session s i st a now w) = on_hand w"
  "reserved (set_session s i st a now w) = reserved w"
  "stock_inv (set_session s i st a now w) = stock_inv w"
  "w_movements (set_session s i st a now w) = w_movements w"
  "w_variants (set_session s i st a now w) = w_variants w"
  "w_lines (set_session s i st a now w) = w_lines w"
  by (auto simp: set_session_def intro!: on_hand_cong reserved_cong stock_inv_cong)

lemma post_count_cases:
  assumes "post_count coll s i a now w = (r, w')"
  obtains (refused) e where "r = Inl e" and "w' = w"
  | (posted) session where "require_open s i w = Inr session"
      and "post_commit s i a now (session, count_lines coll s i None w) w = (r, w')"
  using assms by (auto simp: post_count_def post_read_def bindE_def split: sum.splits)

lemma post_count_stock_inv:
  assumes "post_count coll s i a now w = (r, w')" and "stock_inv w"
  shows "stock_inv w'"
  using assms(1)
proof (cases rule: post_count_cases)
  case (posted session)
  then show ?thesis
  proof (cases r)
    case (Inr x)
    with posted show ?thesis
      using assms(2) by (auto elim!: post_commit_Inr intro: stock_inv_foldE_insert)
  qed (use posted assms(2) in \<open>auto dest: post_commit_Inl\<close>)
qed (use assms(2) in simp)

lemma post_count_inv:
  assumes "post_count coll s i a now w = (r, w')" and "count_inv w"
  shows "count_inv w'"
  using assms(1)
proof (cases rule: post_count_cases)
  case (posted session)
  then show ?thesis
  proof (cases r)
    case (Inr x)
    from posted(2) [unfolded Inr] show ?thesis
    proof (rule post_commit_Inr)
      fix w1
      assume "foldE insert_movement (map (count_movement s (cs_name session) a)
          (changed_lines (count_lines coll s i None w))) w = Inr w1"
        and w': "w' = audit_record (audit_entry_of ''inventory.count_posted'' MEDIUM s (Some a)
           ''count_session'' i) (set_session s i CS_POSTED a now w1)"
      then have "count_inv w1"
        using assms(2) by (simp add: foldE_insert_keeps cong: count_inv_cong)
      then show ?thesis by (simp add: w' set_session_inv)
    qed
  qed (use posted assms(2) in \<open>auto dest: post_commit_Inl\<close>)
qed (use assms(2) in simp)

lemma sum_changed:
  "sum_where (\<lambda>m. mv_variant m = v) mv_qty (map (count_movement s n a) (changed_lines ls)) =
   sum_where (\<lambda>l. vw_variant l = v) vw_variance ls"
  by (induction ls) (auto simp: changed_lines_def count_movement_def)

lemma post_commit_on_hand:
  assumes "post_commit s i a now (session, ls) w = (Inr r, w')"
  shows "on_hand w' v = on_hand w v + sum_where (\<lambda>l. vw_variant l = v) vw_variance ls"
  using assms
proof (rule post_commit_Inr)
  fix w1
  assume "foldE insert_movement (map (count_movement s (cs_name session) a) (changed_lines ls)) w =
      Inr w1"
    and "w' = audit_record (audit_entry_of ''inventory.count_posted'' MEDIUM s (Some a)
           ''count_session'' i) (set_session s i CS_POSTED a now w1)"
  then show ?thesis using stock.foldE_level sum_changed by simp
qed

lemma sum_where_sort: "sum_where p f (sort_key k xs) = sum_where p f xs"
proof -
  have "mset (map f (filter p (sort_key k xs))) = mset (map f (filter p xs))"
    by (simp add: mset_filter [symmetric] del: mset_filter) (simp add: mset_filter)
  then show ?thesis unfolding sum_where_def by (metis sum_mset_sum_list)
qed

lemma sum_views_other:
  "(\<And>x. x \<in> set rows \<Longrightarrow> cl_variant x \<noteq> v) \<Longrightarrow>
     sum_where (\<lambda>x. vw_variant x = v) vw_variance (concat (map (count_view_of w) rows)) = 0"
  by (induction rows) (auto simp: count_view_of_def split: option.splits)

text \<open>The lines of one session name each variant once, so the sum for a variant is its line.\<close>

lemma sum_views_line:
  assumes "distinct (map cl_variant rows)" and "l \<in> set rows" and "count_view_of w l \<noteq> []"
  shows "sum_where (\<lambda>x. vw_variant x = cl_variant l) vw_variance
    (concat (map (count_view_of w) rows)) = cl_counted l - cl_expected l"
  using assms
proof (induction rows)
  case Nil
  then show ?case by simp
next
  case (Cons x xs)
  show ?case
  proof (cases "x = l")
    case True
    have "sum_where (\<lambda>y. vw_variant y = cl_variant l) vw_variance
        (concat (map (count_view_of w) xs)) = 0"
      using Cons.prems(1) True by (intro sum_views_other) (auto simp: rev_image_eqI)
    moreover have "sum_where (\<lambda>y. vw_variant y = cl_variant l) vw_variance (count_view_of w l) =
        cl_counted l - cl_expected l"
      using Cons.prems(3) by (auto simp: count_view_of_def split: option.splits)
    ultimately show ?thesis using True by simp
  next
    case False
    with Cons have "cl_variant x \<noteq> cl_variant l" by auto
    then have "sum_where (\<lambda>y. vw_variant y = cl_variant l) vw_variance (count_view_of w x) = 0"
      by (auto simp: count_view_of_def split: option.splits)
    with False Cons show ?thesis by simp
  qed
qed

lemma session_variants_distinct:
  assumes "distinct (map (\<lambda>l. (cl_session l, cl_variant l)) rows)"
  shows "distinct (map cl_variant (filter (\<lambda>l. cl_session l = i \<and> cl_store l = s) rows))"
  using assms by (induction rows) (auto simp: image_iff)

lemma variance_of_line:
  assumes "count_inv w" and "l \<in> set (w_lines w)" and "\<exists>v \<in> set (w_variants w). va_id v = cl_variant l"
  shows "sum_where (\<lambda>x. vw_variant x = cl_variant l) vw_variance
      (count_lines coll (cl_store l) (cl_session l) None w) = cl_counted l - cl_expected l"
proof -
  have "count_view_of w l \<noteq> []"
    using assms(3) by (auto simp: count_view_of_def find_None_iff split: option.splits)
  moreover have "distinct (map cl_variant
      (filter (\<lambda>x. cl_session x = cl_session l \<and> cl_store x = cl_store l) (w_lines w)))"
    using assms(1) by (intro session_variants_distinct) (simp add: count_inv_def)
  ultimately show ?thesis
    unfolding count_lines_def sum_where_sort using assms(2)
    by (simp add: sum_views_line)
qed

text \<open>
  C36. Posting an open count takes the session out of the open ones, writes one movement for
  each line that disagreed and none for the others, and leaves each counted variant at what was
  counted plus whatever moved since its line was entered: with no sale in between, the count
  becomes the level.  The ledger stays the sum of its movements, and a finished count cannot be
  posted again.
\<close>

theorem count_posts_variance:
  assumes "stock_inv w" and "count_inv w"
    and posted: "post_count coll s i a now w = (Inr r, w')"
  shows "stock_inv w' \<and> count_inv w' \<and>
    length (w_movements w') = length (w_movements w) + ps_applied r \<and>
    ps_applied r = length (filter (\<lambda>l. vw_variance l \<noteq> 0) (count_lines coll s i None w)) \<and>
    (\<forall>l \<in> set (w_lines w). cl_session l = i \<longrightarrow> cl_store l = s \<longrightarrow>
       (\<exists>v \<in> set (w_variants w). va_id v = cl_variant l) \<longrightarrow>
       on_hand w' (cl_variant l) =
         cl_counted l + (on_hand w (cl_variant l) - cl_expected l)) \<and>
    \<not> okE (require_open s i w')"
proof -
  obtain session where commit:
    "post_commit s i a now (session, count_lines coll s i None w) w = (Inr r, w')"
    using posted by (cases rule: post_count_cases) auto
  have "\<not> okE (require_open s i w') \<and> length (w_movements w') = length (w_movements w) + ps_applied r \<and>
      ps_applied r = length (changed_lines (count_lines coll s i None w))"
    using commit
  proof (rule post_commit_Inr)
    fix w1
    assume ins: "foldE insert_movement (map (count_movement s (cs_name session) a)
        (changed_lines (count_lines coll s i None w))) w = Inr w1"
      and w': "w' = audit_record (audit_entry_of ''inventory.count_posted'' MEDIUM s (Some a)
           ''count_session'' i) (set_session s i CS_POSTED a now w1)"
      and r: "r = \<lparr>ps_applied = length (changed_lines (count_lines coll s i None w)),
           ps_unchanged = length (count_lines coll s i None w) -
             length (changed_lines (count_lines coll s i None w)),
           ps_net = sum_list (map vw_variance (changed_lines (count_lines coll s i None w)))\<rparr>"
    have "\<not> okE (require_open s i w')"
      by (auto simp: require_open_def get_session_def notFound_def w' set_session_def okE_iff
          find_Some_iff update_where_def split: option.splits if_splits)
    then show ?thesis using foldE_insert_movements [OF ins] by (simp add: w' r)
  qed
  moreover have "on_hand w' (cl_variant l) = cl_counted l + (on_hand w (cl_variant l) - cl_expected l)"
    if "l \<in> set (w_lines w)" "cl_session l = i" "cl_store l = s"
      "\<exists>v \<in> set (w_variants w). va_id v = cl_variant l" for l
    using post_commit_on_hand [OF commit, of "cl_variant l"]
      variance_of_line [OF assms(2) that(1,4), of coll] that(2,3) by simp
  ultimately show ?thesis
    using post_count_stock_inv [OF posted assms(1)] post_count_inv [OF posted assms(2)]
    by (auto simp: changed_lines_def)
qed

text \<open>A shop with one open count: ten of the twelve units were found.\<close>

definition sample_count :: world where
  "sample_count =
     sample_stock\<lparr>
       w_sessions := [\<lparr>cs_id = ''k1'', cs_store = ''s1'', cs_name = ''Monday'', cs_status = CS_OPEN,
         cs_opened_by = ''u1'', cs_posted_by = None, cs_posted_at = None\<rparr>],
       w_lines := [\<lparr>cl_session = ''k1'', cl_store = ''s1'', cl_variant = ''v1'', cl_expected = 12,
         cl_counted = 10, cl_note = None, cl_by = ''u1''\<rparr>]\<rparr>"

lemma sample_count_inv: "stock_inv sample_count" "count_inv sample_count"
proof -
  show "stock_inv sample_count"
    using sample_stock_inv stock_inv_cong [of sample_count sample_stock]
    by (simp add: sample_count_def)
  show "count_inv sample_count"
    by (simp add: count_inv_def sample_count_def open_in_def)
qed

lemma sample_count_posts: "okE (fst (post_count length ''s1'' ''k1'' ''u1'' 7 sample_count))"
  by code_simp

theorem count_posts_variance_witness:
  "\<exists>r w'. post_count length ''s1'' ''k1'' ''u1'' 7 sample_count = (Inr r, w') \<and>
     on_hand w' ''v1'' = 10 \<and> \<not> okE (require_open ''s1'' ''k1'' w')"
proof -
  obtain r w' where posted: "post_count length ''s1'' ''k1'' ''u1'' 7 sample_count = (Inr r, w')"
    using sample_count_posts
    by (cases "post_count length ''s1'' ''k1'' ''u1'' 7 sample_count") (auto simp: okE_iff)
  have "on_hand sample_count ''v1'' = 12"
    by (simp add: sample_count_def sample_stock_def on_hand_def)
  with posted count_posts_variance [OF sample_count_inv posted] show ?thesis
    by (auto simp: sample_count_def sample_stock_def sample_variant_def)
qed

text \<open>
  \<open>post\<close> looks at the session before its transaction and not inside it: when two requests
  have both read the open session, both commit, and every variance is applied twice.
\<close>

theorem count_posted_twice:
  assumes "post_read coll s i w = Inr (session, ls)"
    and "post_commit s i a now (session, ls) w = (Inr r1, w1)"
    and "post_commit s i b later (session, ls) w1 = (Inr r2, w2)"
  shows "ls = count_lines coll s i None w \<and>
    on_hand w2 v = on_hand w v + 2 * sum_where (\<lambda>l. vw_variant l = v) vw_variance ls"
  using assms(1) post_commit_on_hand [OF assms(2)] post_commit_on_hand [OF assms(3)]
  by (auto simp: post_read_def)

lemma sample_posted_again:
  "case post_read length ''s1'' ''k1'' sample_count of
     Inl e \<Rightarrow> False
   | Inr (session, ls) \<Rightarrow>
       sum_where (\<lambda>l. vw_variant l = ''v1'') vw_variance ls = - 2 \<and>
       okE (fst (post_commit ''s1'' ''k1'' ''u1'' 7 (session, ls) sample_count)) \<and>
       okE (fst (post_commit ''s1'' ''k1'' ''u2'' 8 (session, ls)
         (snd (post_commit ''s1'' ''k1'' ''u1'' 7 (session, ls) sample_count))))"
  by code_simp

theorem count_posted_twice_witness:
  "\<exists>session ls w1 r2 w2. post_read length ''s1'' ''k1'' sample_count = Inr (session, ls) \<and>
     post_commit ''s1'' ''k1'' ''u2'' 8 (session, ls) w1 = (Inr r2, w2) \<and>
     on_hand w2 ''v1'' = 8"
proof -
  obtain session ls where read: "post_read length ''s1'' ''k1'' sample_count = Inr (session, ls)"
    and sum: "sum_where (\<lambda>l. vw_variant l = ''v1'') vw_variance ls = - 2"
    and ok1: "okE (fst (post_commit ''s1'' ''k1'' ''u1'' 7 (session, ls) sample_count))"
    and ok2: "okE (fst (post_commit ''s1'' ''k1'' ''u2'' 8 (session, ls)
         (snd (post_commit ''s1'' ''k1'' ''u1'' 7 (session, ls) sample_count))))"
    using sample_posted_again by (auto split: sum.splits)
  obtain r1 w1 where r1: "post_commit ''s1'' ''k1'' ''u1'' 7 (session, ls) sample_count = (Inr r1, w1)"
    using ok1 by (cases "post_commit ''s1'' ''k1'' ''u1'' 7 (session, ls) sample_count")
      (auto simp: okE_iff)
  obtain r2 w2 where r2: "post_commit ''s1'' ''k1'' ''u2'' 8 (session, ls) w1 = (Inr r2, w2)"
    using ok2 r1 by (cases "post_commit ''s1'' ''k1'' ''u2'' 8 (session, ls) w1")
      (auto simp: okE_iff)
  have "on_hand sample_count ''v1'' = 12"
    by (simp add: sample_count_def sample_stock_def on_hand_def)
  then have "on_hand w2 ''v1'' = 8" using count_posted_twice [OF read r1 r2] sum by simp
  with read r2 show ?thesis by blast
qed

end
