(* ===== verification/Tax.thy ===== *)
theory Tax
  imports Schema
begin

text \<open>
  The tax seam of checkout (\<open>modules/checkout/tax.provider.ts\<close>, wired up in
  \<open>checkout.module.ts\<close>): the request and result every provider speaks, the contract checkout
  relies on as a locale, and \<open>ConfiguredRateTaxProvider\<close>, which interprets it.
\<close>

record taxable_line =
  tl_variant :: string
  tl_price :: int
  tl_qty :: int

record tax_request =
  tq_store :: string
  tq_lines :: "taxable_line list"
  tq_state :: "string option"
  tq_postal :: "string option"
  tq_delivery :: int

record tax_result =
  tx_lines :: "int list"
  tx_total :: int
  tx_description :: string

section \<open>The contract\<close>

definition sane_request :: "tax_request \<Rightarrow> bool" where
  "sane_request r =
     ((\<forall>l \<in> set (tq_lines r). 0 \<le> tl_price l \<and> 0 \<le> tl_qty l) \<and> 0 \<le> tq_delivery r)"

text \<open>
  In a good database: one tax amount per line, none negative, and a total that covers them.
\<close>

locale tax_provider =
  fixes quote :: "'w \<Rightarrow> tax_request \<Rightarrow> tax_result"
    and good :: "'w \<Rightarrow> bool"
  assumes quote_lines: "length (tx_lines (quote w r)) = length (tq_lines r)"
    and quote_nonneg:
      "good w \<Longrightarrow> sane_request r \<Longrightarrow> t \<in> set (tx_lines (quote w r)) \<Longrightarrow> 0 \<le> t"
    and quote_total:
      "good w \<Longrightarrow> sane_request r \<Longrightarrow> sum_list (tx_lines (quote w r)) \<le> tx_total (quote w r)"
begin

lemma quote_total_nonneg: "good w \<Longrightarrow> sane_request r \<Longrightarrow> 0 \<le> tx_total (quote w r)"
  using quote_total [of w r] quote_nonneg [of w r] sum_list_nonneg [of "tx_lines (quote w r)"]
  by fastforce

lemma quote_line_le:
  assumes "good w" and "sane_request r" and "t \<in> set (tx_lines (quote w r))"
  shows "t \<le> tx_total (quote w r)"
proof -
  have "t \<le> sum_list (tx_lines (quote w r))"
    using assms quote_nonneg by (intro member_le_sum_list) auto
  then show ?thesis using quote_total [OF assms(1,2)] by linarith
qed

end

section \<open>The configured rate\<close>

text \<open>\<open>Math.round((unitPriceCents * qty * rateBps) / 10_000)\<close>\<close>

definition tax_of :: "int \<Rightarrow> int \<Rightarrow> int" where
  "tax_of bps amount = js_round_div (amount * bps) 10000"

text \<open>The lookup of \<open>checkout.module.ts\<close>: the store's active default rate.\<close>

definition lookupRateBps :: "string \<Rightarrow> world \<Rightarrow> tax_rate option" where
  "lookupRateBps storeId w =
     find (\<lambda>r. tr_store r = storeId \<and> tr_active r \<and> tr_default r) (w_rates w)"

definition percent_fixed :: "int \<Rightarrow> string" where
  "percent_fixed bps = money_fixed bps @ ''%''"

definition configured_quote :: "tax_rate option \<Rightarrow> tax_request \<Rightarrow> tax_result" where
  "configured_quote rate request =
     (case rate of
        None \<Rightarrow> \<lparr>tx_lines = map (\<lambda>_. 0) (tq_lines request), tx_total = 0,
                 tx_description = ''No tax''\<rparr>
      | Some r \<Rightarrow>
          if tr_bps r = 0
          then \<lparr>tx_lines = map (\<lambda>_. 0) (tq_lines request), tx_total = 0,
                tx_description = ''No tax''\<rparr>
          else
            let lineTaxCents = map (\<lambda>l. tax_of (tr_bps r) (tl_price l * tl_qty l)) (tq_lines request);
                deliveryTax = tax_of (tr_bps r) (tq_delivery request)
            in \<lparr>tx_lines = lineTaxCents, tx_total = sum_list lineTaxCents + deliveryTax,
                tx_description = tr_name r @ '' ('' @ percent_fixed (tr_bps r) @ '')''\<rparr>)"

definition tax_quote :: "world \<Rightarrow> tax_request \<Rightarrow> tax_result" where
  "tax_quote w request = configured_quote (lookupRateBps (tq_store request) w) request"

section \<open>Configuring a rate\<close>

text \<open>
  \<open>createTaxRate\<close> of \<open>modules/stores/store.service.ts\<close>: at most one default at a time.
\<close>

definition createTaxRate :: "string \<Rightarrow> string \<Rightarrow> int \<Rightarrow> bool \<Rightarrow> string \<Rightarrow> world \<Rightarrow> tax_rate outcome" where
  "createTaxRate storeId name rateBps isDefault newId w =
     (if rateBps < 0 \<or> rateBps > 10000
      then (Inl (Validation ''A tax rate must be between 0% and 100%.''), w)
      else
        let rates = (if isDefault
                     then update_where (\<lambda>r. tr_store r = storeId \<and> tr_default r)
                            (\<lambda>r. r\<lparr>tr_default := False\<rparr>) (w_rates w)
                     else w_rates w);
            created = \<lparr>tr_store = storeId, tr_active = True, tr_default = isDefault,
                       tr_bps = rateBps, tr_name = js_trim name\<rparr>
        in (Inr created,
            audit_record (audit_entry_of ''store.tax_rate_created'' MEDIUM storeId None
              ''tax_rate'' newId) (w\<lparr>w_rates := rates @ [created]\<rparr>)))"

definition defaults_of :: "world \<Rightarrow> string \<Rightarrow> tax_rate list" where
  "defaults_of w storeId = filter (\<lambda>r. tr_store r = storeId \<and> tr_default r) (w_rates w)"

definition rates_inv :: "world \<Rightarrow> bool" where
  "rates_inv w =
     ((\<forall>r \<in> set (w_rates w). 0 \<le> tr_bps r \<and> tr_bps r \<le> 10000) \<and>
      (\<forall>s. length (defaults_of w s) \<le> 1))"

lemma filter_cleared:
  "filter (\<lambda>r. tr_store r = s \<and> tr_default r)
     (update_where (\<lambda>r. tr_store r = t \<and> tr_default r) (\<lambda>r. r\<lparr>tr_default := False\<rparr>) rows) =
   (if s = t then [] else filter (\<lambda>r. tr_store r = s \<and> tr_default r) rows)"
  by (induction rows) auto

lemma createTaxRate_inv:
  assumes "createTaxRate s n b d i w = (r, w')" and "rates_inv w"
  shows "rates_inv w'"
  using assms
  by (auto simp: createTaxRate_def rates_inv_def defaults_of_def Let_def set_update_where
      filter_cleared split: if_splits)

lemma rates_inv_cong: "w_rates w = w_rates w' \<Longrightarrow> rates_inv w = rates_inv w'"
  by (simp add: rates_inv_def defaults_of_def)

section \<open>The configured rate keeps the contract\<close>

lemma tax_of_nonneg: "0 \<le> bps \<Longrightarrow> 0 \<le> amount \<Longrightarrow> 0 \<le> tax_of bps amount"
  by (simp add: tax_of_def js_round_div_nonneg)

lemma tax_of_le: "bps \<le> 10000 \<Longrightarrow> 0 \<le> amount \<Longrightarrow> tax_of bps amount \<le> amount"
  unfolding tax_of_def by (rule js_round_div_le) (simp_all add: mult_left_mono mult.commute)

lemma lookupRateBps_ok:
  "rates_inv w \<Longrightarrow> lookupRateBps s w = Some r \<Longrightarrow> 0 \<le> tr_bps r \<and> tr_bps r \<le> 10000"
  by (auto simp: rates_inv_def lookupRateBps_def find_Some_iff)

lemma configured_lines: "length (tx_lines (configured_quote rate r)) = length (tq_lines r)"
  by (simp add: configured_quote_def Let_def split: option.split)

lemma configured_nonneg:
  assumes "\<And>x. rate = Some x \<Longrightarrow> 0 \<le> tr_bps x" and "sane_request r"
    and "t \<in> set (tx_lines (configured_quote rate r))"
  shows "0 \<le> t"
  using assms
  by (auto simp: configured_quote_def Let_def sane_request_def intro!: tax_of_nonneg
      split: option.splits if_splits)

lemma sum_list_zeros [simp]: "sum_list (map (\<lambda>_. 0 :: int) xs) = 0"
  by (induction xs) auto

lemma configured_sum:
  "tx_total (configured_quote rate r) = sum_list (tx_lines (configured_quote rate r)) +
     (case rate of None \<Rightarrow> 0 | Some x \<Rightarrow> tax_of (tr_bps x) (tq_delivery r))"
  by (auto simp: configured_quote_def Let_def tax_of_def split: option.split simp del: map_replicate_const)

interpretation configured: tax_provider tax_quote rates_inv
proof
  fix w r t
  show "length (tx_lines (tax_quote w r)) = length (tq_lines r)"
    by (simp add: tax_quote_def configured_lines)
  assume "rates_inv w" and sane: "sane_request r"
  then have ok: "0 \<le> tr_bps x" if "lookupRateBps s w = Some x" for s x
    using lookupRateBps_ok that by blast
  show "0 \<le> t" if "t \<in> set (tx_lines (tax_quote w r))"
    using that sane ok configured_nonneg unfolding tax_quote_def by blast
  have "0 \<le> tq_delivery r" using sane by (simp add: sane_request_def)
  then show "sum_list (tx_lines (tax_quote w r)) \<le> tx_total (tax_quote w r)"
    using ok by (auto simp: tax_quote_def configured_sum tax_of_nonneg split: option.split)
qed

text \<open>
  C39. With rates as a store may configure them, the tax on a receipt is one amount per line,
  each the line's amount times the rate rounded to the nearest cent, never negative and never
  more than the line itself; the total is exactly the sum of the lines and the tax on the
  delivery fee.
\<close>

theorem tax_adds_up:
  assumes "rates_inv w" and "sane_request r" and "lookupRateBps (tq_store r) w = Some rate"
  shows "tx_total (tax_quote w r) =
      sum_list (tx_lines (tax_quote w r)) + tax_of (tr_bps rate) (tq_delivery r) \<and>
    list_all2 (\<lambda>l t. 0 \<le> t \<and> t \<le> tl_price l * tl_qty l \<and>
        \<bar>10000 * t - tl_price l * tl_qty l * tr_bps rate\<bar> \<le> 5000)
      (tq_lines r) (tx_lines (tax_quote w r))"
proof
  let ?amount = "\<lambda>l. tl_price l * tl_qty l"
  have rate: "0 \<le> tr_bps rate" "tr_bps rate \<le> 10000"
    using lookupRateBps_ok [OF assms(1,3)] by simp_all
  show "tx_total (tax_quote w r) =
      sum_list (tx_lines (tax_quote w r)) + tax_of (tr_bps rate) (tq_delivery r)"
    using assms(3) by (simp add: tax_quote_def configured_sum)
  have lines: "tx_lines (tax_quote w r) = map (\<lambda>l. tax_of (tr_bps rate) (?amount l)) (tq_lines r)"
    using assms(3) by (simp add: tax_quote_def configured_quote_def Let_def tax_of_def)
  have "0 \<le> tax_of (tr_bps rate) (?amount l) \<and> tax_of (tr_bps rate) (?amount l) \<le> ?amount l \<and>
      \<bar>10000 * tax_of (tr_bps rate) (?amount l) - ?amount l * tr_bps rate\<bar> \<le> 5000"
    if "l \<in> set (tq_lines r)" for l
  proof -
    have "0 \<le> ?amount l" using assms(2) that by (simp add: sane_request_def)
    then show ?thesis
      using rate tax_of_nonneg tax_of_le
        js_round_div_bounds [of 10000 "?amount l * tr_bps rate"] by (auto simp: tax_of_def)
  qed
  then show "list_all2 (\<lambda>l t. 0 \<le> t \<and> t \<le> ?amount l \<and>
        \<bar>10000 * t - ?amount l * tr_bps rate\<bar> \<le> 5000)
      (tq_lines r) (tx_lines (tax_quote w r))"
    by (simp add: lines list_all2_conv_all_nth)
qed

lemma rates_inv_empty: "rates_inv empty_world"
  by (simp add: rates_inv_def defaults_of_def empty_world_def)

definition sample_rates :: world where
  "sample_rates = snd (createTaxRate ''s1'' ''IL sales tax'' 1025 True ''t1'' empty_world)"

definition sample_request :: tax_request where
  "sample_request =
     \<lparr>tq_store = ''s1'', tq_lines = [\<lparr>tl_variant = ''v1'', tl_price = 500, tl_qty = 3\<rparr>],
      tq_state = Some ''IL'', tq_postal = None, tq_delivery = 399\<rparr>"

theorem tax_adds_up_witness:
  "rates_inv sample_rates \<and> tx_lines (tax_quote sample_rates sample_request) = [154] \<and>
   tx_total (tax_quote sample_rates sample_request) = 154 + 41"
proof -
  have inv: "rates_inv sample_rates"
    unfolding sample_rates_def
    by (rule createTaxRate_inv [OF surjective_pairing rates_inv_empty])
  have sane: "sane_request sample_request"
    by (simp add: sane_request_def sample_request_def)
  have rate: "lookupRateBps (tq_store sample_request) sample_rates =
      Some \<lparr>tr_store = ''s1'', tr_active = True, tr_default = True, tr_bps = 1025,
        tr_name = ''IL sales tax''\<rparr>"
    by code_simp
  have "tx_lines (tax_quote sample_rates sample_request) = [154]"
    by code_simp
  with inv tax_adds_up [OF inv sane rate] show ?thesis
    by (simp add: sample_request_def tax_of_def js_round_div_def)
qed

end
