(* ===== verification/Coupons.thy ===== *)
theory Coupons
  imports Schema
begin

text \<open>
  \<open>CouponsService\<close> (\<open>modules/coupons/coupons.service.ts\<close>) with the constraints of migration
  14: creating, changing and retiring a code, pricing a code against a basket and recording its
  use.  Codes compare without case (the column is \<open>citext\<close>); the text functions are those of
  ASCII.  The service's \<open>new Date()\<close> is the parameter \<open>now\<close>.
\<close>

section \<open>Types\<close>

record coupon_input =
  cn_code :: string
  cn_kind :: coupon_kind
  cn_value :: js_number
  cn_min_order :: "int option"
  cn_starts :: "int option"
  cn_ends :: "int option"
  cn_max :: "int option"
  cn_per_customer :: "int option"
  cn_active :: "bool option"

text \<open>\<open>Partial<CouponInput>\<close>: \<open>None\<close> is an absent key, \<open>Some None\<close> an explicit \<open>null\<close>.\<close>

record coupon_patch =
  pt_code :: "string option"
  pt_kind :: "coupon_kind option"
  pt_value :: "js_number option"
  pt_min_order :: "int option"
  pt_starts :: "int option option"
  pt_ends :: "int option option"
  pt_max :: "int option option"
  pt_per_customer :: "int option option"
  pt_active :: "bool option"

datatype coupon_problem =
    CP_UNKNOWN string
  | CP_EXPIRED string
  | CP_NOT_STARTED string
  | CP_MIN_ORDER string int
  | CP_EXHAUSTED string
  | CP_ALREADY_USED string

fun problem_message :: "coupon_problem \<Rightarrow> string" where
  "problem_message (CP_UNKNOWN m) = m"
| "problem_message (CP_EXPIRED m) = m"
| "problem_message (CP_NOT_STARTED m) = m"
| "problem_message (CP_MIN_ORDER m _) = m"
| "problem_message (CP_EXHAUSTED m) = m"
| "problem_message (CP_ALREADY_USED m) = m"

record coupon_quote =
  cq_coupon :: string
  cq_code :: string
  cq_discount :: int

section \<open>Helpers\<close>

definition normalizeCode :: "string \<Rightarrow> string" where
  "normalizeCode code = map upper_char (js_trim code)"

definition discountFor :: "coupon_kind \<Rightarrow> int \<Rightarrow> int \<Rightarrow> int" where
  "discountFor kind val subtotalCents =
     (let raw = (if kind = PERCENT then js_round_div (subtotalCents * val) 10000 else val)
      in min raw subtotalCents)"

text \<open>\<open>Intl.NumberFormat("en-US", currency USD)\<close>: a dollar sign and commas every three digits.\<close>

fun group3 :: "string \<Rightarrow> string" where
  "group3 (a # b # c # d # ds) = a # b # c # CHR '','' # group3 (d # ds)"
| "group3 ds = ds"

definition formatMoney :: "int \<Rightarrow> string" where
  "formatMoney cents =
     (let n = nat \<bar>cents\<bar>
      in (if cents < 0 then ''-'' else []) @ ''$'' @ rev (group3 (rev (show_nat (n div 100)))) @
         ''.'' @ pad2 (n mod 100))"

definition assertValueSane :: "coupon_kind \<Rightarrow> js_number \<Rightarrow> string \<Rightarrow> int res" where
  "assertValueSane kind val code =
     (case val of
        NotWhole _ \<Rightarrow> Inl (Validation ''A discount must be greater than zero.'')
      | Whole n \<Rightarrow>
          if n \<le> 0 then Inl (Validation ''A discount must be greater than zero.'')
          else if kind = PERCENT \<and> n > 10000
          then Inl (Validation ''A percentage discount can't be more than 100%.'')
          else if js_trim code = [] then Inl (Validation ''A coupon needs a code.'')
          else Inr n)"

datatype coupon_state = ST_ACTIVE | ST_SCHEDULED | ST_EXPIRED | ST_OFF

definition describeStatus :: "int \<Rightarrow> coupon \<Rightarrow> coupon_state" where
  "describeStatus now c =
     (if \<not> co_active c then ST_OFF
      else if (case co_starts c of None \<Rightarrow> False | Some t \<Rightarrow> now < t) then ST_SCHEDULED
      else if (case co_ends c of None \<Rightarrow> False | Some t \<Rightarrow> now > t) then ST_EXPIRED
      else ST_ACTIVE)"

definition same_code :: "string \<Rightarrow> string \<Rightarrow> bool" where
  "same_code a b = (map lower_char a = map lower_char b)"

definition redemptions_of :: "world \<Rightarrow> string \<Rightarrow> nat" where
  "redemptions_of w couponId = count_where (\<lambda>r. rd_coupon r = couponId) (w_redemptions w)"

definition list_coupons :: "int \<Rightarrow> string \<Rightarrow> world \<Rightarrow> (coupon \<times> nat \<times> coupon_state) list" where
  "list_coupons now storeId w =
     map (\<lambda>c. (c, redemptions_of w (co_id c), describeStatus now c))
       (rev (filter (\<lambda>c. co_store c = storeId \<and> \<not> co_deleted c) (w_coupons w)))"

section \<open>The table\<close>

text \<open>The constraints of migration 14, in the order they are declared.\<close>

definition check_coupon :: "coupon \<Rightarrow> unit res" where
  "check_coupon c =
     (if \<not> co_value c > 0 then Inl (CheckViolation ''coupons_value_positive'')
      else if \<not> (co_kind c \<noteq> PERCENT \<or> co_value c \<le> 10000)
      then Inl (CheckViolation ''coupons_percent_sane'')
      else if \<not> co_min_order c \<ge> 0 then Inl (CheckViolation ''coupons_min_order_nonneg'')
      else if \<not> (case (co_starts c, co_ends c) of (Some a, Some b) \<Rightarrow> a < b | _ \<Rightarrow> True)
      then Inl (CheckViolation ''coupons_window_ordered'')
      else if \<not> ((case co_max c of None \<Rightarrow> True | Some n \<Rightarrow> n > 0) \<and>
                  (case co_per_customer c of None \<Rightarrow> True | Some n \<Rightarrow> n > 0))
      then Inl (CheckViolation ''coupons_limits_positive'')
      else Inr ())"

definition live_code_taken :: "coupon list \<Rightarrow> coupon \<Rightarrow> bool" where
  "live_code_taken rows c =
     (\<not> co_deleted c \<and>
      (\<exists>x \<in> set rows. co_id x \<noteq> co_id c \<and> \<not> co_deleted x \<and> co_store x = co_store c \<and>
         same_code (co_code x) (co_code c)))"

definition insert_coupon :: "coupon \<Rightarrow> world \<Rightarrow> world res" where
  "insert_coupon c w =
     bindE (check_coupon c) (\<lambda>_.
       if live_code_taken (w_coupons w) c then Inl (UniqueViolation ''coupons_store_code'')
       else Inr (w\<lparr>w_coupons := w_coupons w @ [c]\<rparr>))"

text \<open>
  \<open>updateMany({ where: { id, storeId, deletedAt: null } })\<close>: the number of rows it changed.
\<close>

definition update_coupon ::
    "string \<Rightarrow> string \<Rightarrow> (coupon \<Rightarrow> coupon) \<Rightarrow> world \<Rightarrow> (nat \<times> world) res" where
  "update_coupon storeId couponId f w =
     (let hit = (\<lambda>c. co_id c = couponId \<and> co_store c = storeId \<and> \<not> co_deleted c);
          rows = update_where hit f (w_coupons w)
      in bindE (mapsE (\<lambda>c. check_coupon (f c)) (filter hit (w_coupons w))) (\<lambda>_.
           if \<exists>c \<in> set (filter hit (w_coupons w)). live_code_taken rows (f c)
           then Inl (UniqueViolation ''coupons_store_code'')
           else Inr (count_where hit (w_coupons w), w\<lparr>w_coupons := rows\<rparr>)))"

section \<open>Management\<close>

definition create_coupon ::
    "string \<Rightarrow> string \<Rightarrow> string \<Rightarrow> coupon_input \<Rightarrow> world \<Rightarrow> coupon outcome" where
  "create_coupon newId storeId actorUserId input w =
     (case assertValueSane (cn_kind input) (cn_value input) (cn_code input) of
        Inl e \<Rightarrow> (Inl e, w)
      | Inr n \<Rightarrow>
          let code = normalizeCode (cn_code input) in
          if \<exists>x \<in> set (w_coupons w). co_store x = storeId \<and> same_code (co_code x) code \<and> \<not> co_deleted x
          then (Inl (Validation (''The code \"'' @ code @ ''\" is already in use.'')), w)
          else
            let c = \<lparr>co_id = newId, co_store = storeId, co_code = code, co_kind = cn_kind input,
                     co_value = n, co_min_order = or_else (cn_min_order input) 0,
                     co_starts = cn_starts input, co_ends = cn_ends input, co_max = cn_max input,
                     co_per_customer = cn_per_customer input,
                     co_active = or_else (cn_active input) True, co_deleted = False\<rparr>
            in (case insert_coupon c w of
                  Inl e \<Rightarrow> (Inl e, w)
                | Inr w1 \<Rightarrow>
                    (Inr c, audit_record (audit_entry_of ''coupon.created'' MEDIUM storeId
                       (Some actorUserId) ''coupon'' newId) w1)))"

definition apply_patch :: "coupon_patch \<Rightarrow> coupon \<Rightarrow> coupon" where
  "apply_patch p c =
     c\<lparr>co_code := (case pt_code p of None \<Rightarrow> co_code c | Some x \<Rightarrow> normalizeCode x),
       co_kind := or_else (pt_kind p) (co_kind c),
       co_value := (case pt_value p of Some (Whole n) \<Rightarrow> n | _ \<Rightarrow> co_value c),
       co_min_order := or_else (pt_min_order p) (co_min_order c),
       co_starts := or_else (pt_starts p) (co_starts c),
       co_ends := or_else (pt_ends p) (co_ends c),
       co_max := or_else (pt_max p) (co_max c),
       co_per_customer := or_else (pt_per_customer p) (co_per_customer c),
       co_active := or_else (pt_active p) (co_active c)\<rparr>"

definition update_coupon_by ::
    "string \<Rightarrow> string \<Rightarrow> string \<Rightarrow> coupon_patch \<Rightarrow> world \<Rightarrow> unit outcome" where
  "update_coupon_by storeId couponId actorUserId patch w =
     (case (if pt_value patch \<noteq> None \<or> pt_kind patch \<noteq> None
            then assertValueSane (or_else (pt_kind patch) FIXED)
                   (or_else (pt_value patch) (Whole 1)) (or_else (pt_code patch) ''x'')
            else Inr 1) of
        Inl e \<Rightarrow> (Inl e, w)
      | Inr _ \<Rightarrow>
          (case update_coupon storeId couponId (apply_patch patch) w of
             Inl e \<Rightarrow> (Inl e, w)
           | Inr (n, w1) \<Rightarrow>
               if n = 0 then (notFound, w1)
               else (Inr (), audit_record (audit_entry_of ''coupon.updated'' MEDIUM storeId
                       (Some actorUserId) ''coupon'' couponId) w1)))"

definition remove_coupon :: "string \<Rightarrow> string \<Rightarrow> string \<Rightarrow> world \<Rightarrow> unit outcome" where
  "remove_coupon storeId couponId actorUserId w =
     (case update_coupon storeId couponId (\<lambda>c. c\<lparr>co_deleted := True, co_active := False\<rparr>) w of
        Inl e \<Rightarrow> (Inl e, w)
      | Inr (n, w1) \<Rightarrow>
          if n = 0 then (notFound, w1)
          else (Inr (), audit_record (audit_entry_of ''coupon.deleted'' MEDIUM storeId
                  (Some actorUserId) ''coupon'' couponId) w1))"

section \<open>Checkout\<close>

definition coupon_quote ::
    "int \<Rightarrow> string \<Rightarrow> string \<Rightarrow> int \<Rightarrow> string option \<Rightarrow> world \<Rightarrow> coupon_problem + coupon_quote" where
  "coupon_quote now storeId code subtotalCents userId w =
     (case find (\<lambda>c. co_store c = storeId \<and> same_code (co_code c) (normalizeCode code) \<and>
                     \<not> co_deleted c) (w_coupons w) of
        None \<Rightarrow> Inl (CP_UNKNOWN ''That code isn't valid.'')
      | Some c \<Rightarrow>
          if \<not> co_active c then Inl (CP_UNKNOWN ''That code isn't valid.'')
          else if (case co_starts c of None \<Rightarrow> False | Some t \<Rightarrow> now < t)
          then Inl (CP_NOT_STARTED ''That code isn't active yet.'')
          else if (case co_ends c of None \<Rightarrow> False | Some t \<Rightarrow> now > t)
          then Inl (CP_EXPIRED ''That code has expired.'')
          else if subtotalCents < co_min_order c
          then (let shortfallCents = co_min_order c - subtotalCents
                in Inl (CP_MIN_ORDER
                     (''Spend '' @ formatMoney shortfallCents @ '' more to use this code.'')
                     shortfallCents))
          else if (case co_max c of None \<Rightarrow> False
                   | Some m \<Rightarrow> int (redemptions_of w (co_id c)) \<ge> m)
          then Inl (CP_EXHAUSTED ''That code has been fully claimed.'')
          else if (case (co_per_customer c, userId) of
                     (Some m, Some u) \<Rightarrow> u \<noteq> [] \<and>
                       int (count_where (\<lambda>r. rd_coupon r = co_id c \<and> rd_user r = Some u)
                         (w_redemptions w)) \<ge> m
                   | _ \<Rightarrow> False)
          then Inl (CP_ALREADY_USED ''You've already used that code.'')
          else Inr \<lparr>cq_coupon = co_id c, cq_code = co_code c,
                    cq_discount = discountFor (co_kind c) (co_value c) subtotalCents\<rparr>)"

text \<open>The insert of \<open>redeemIn\<close>, under the constraint and the unique index of its table.\<close>

definition redeemIn :: "redemption \<Rightarrow> world \<Rightarrow> world res" where
  "redeemIn r w =
     (if \<not> rd_amount r > 0 then Inl (CheckViolation ''coupon_redemptions_amount_positive'')
      else if \<exists>x \<in> set (w_redemptions w). rd_coupon x = rd_coupon r \<and> rd_order x = rd_order r
      then Inl (UniqueViolation ''coupon_redemptions_order'')
      else Inr (w\<lparr>w_redemptions := w_redemptions w @ [r]\<rparr>))"

section \<open>Invariant\<close>

text \<open>
  Every row meets its constraints, a live code is unique in its store, an order uses a coupon
  once and for a positive amount.
\<close>

definition coupons_inv :: "world \<Rightarrow> bool" where
  "coupons_inv w =
     ((\<forall>c \<in> set (w_coupons w). okE (check_coupon c) \<and> \<not> live_code_taken (w_coupons w) c) \<and>
      distinct (map (\<lambda>r. (rd_coupon r, rd_order r)) (w_redemptions w)) \<and>
      (\<forall>r \<in> set (w_redemptions w). 0 < rd_amount r))"

lemma coupons_inv_cong:
  "w_coupons w = w_coupons w' \<Longrightarrow> w_redemptions w = w_redemptions w' \<Longrightarrow> coupons_inv w = coupons_inv w'"
  by (simp add: coupons_inv_def)

lemma coupons_inv_effects [simp]:
  "coupons_inv (emitIn ev w) = coupons_inv w"
  "coupons_inv (audit_record en w) = coupons_inv w"
  "coupons_inv (inc n ls w) = coupons_inv w"
  by (rule coupons_inv_cong; simp)+

lemma insert_coupon_inv:
  assumes "insert_coupon c w = Inr w'" and "coupons_inv w"
  shows "coupons_inv w'"
proof -
  have w': "w' = w\<lparr>w_coupons := w_coupons w @ [c]\<rparr>" "okE (check_coupon c)"
    "\<not> live_code_taken (w_coupons w) c"
    using assms(1) by (auto simp: insert_coupon_def split: if_splits)
  have "\<not> live_code_taken (w_coupons w @ [c]) x" if "x \<in> set (w_coupons w)" for x
    using that w'(3) assms(2) by (auto simp: coupons_inv_def live_code_taken_def same_code_def)
  moreover have "\<not> live_code_taken (w_coupons w @ [c]) c"
    using w'(3) by (auto simp: live_code_taken_def)
  ultimately show ?thesis using assms(2) w' by (auto simp: coupons_inv_def)
qed

lemma update_coupon_inv:
  assumes "update_coupon s i f w = Inr (n, w')" and "coupons_inv w"
    and "\<And>c. co_id (f c) = co_id c" and "\<And>c. co_store (f c) = co_store c"
  shows "coupons_inv w'"
proof -
  let ?hit = "\<lambda>c. co_id c = i \<and> co_store c = s \<and> \<not> co_deleted c"
  let ?rows = "update_where ?hit f (w_coupons w)"
  from assms(1) obtain us where us: "mapsE (\<lambda>c. check_coupon (f c)) (filter ?hit (w_coupons w)) = Inr us"
    and free: "\<And>c. c \<in> set (w_coupons w) \<Longrightarrow> ?hit c \<Longrightarrow> \<not> live_code_taken ?rows (f c)"
    and w': "w' = w\<lparr>w_coupons := ?rows\<rparr>"
    by (auto simp: update_coupon_def Let_def split: if_splits)
  have ok: "okE (check_coupon (f c))" if "c \<in> set (w_coupons w)" "?hit c" for c
  proof -
    have "c \<in> set (filter ?hit (w_coupons w))" using that by simp
    then show ?thesis
      using mapsE_ok [OF us] by simp
  qed
  have "okE (check_coupon x) \<and> \<not> live_code_taken ?rows x" if x: "x \<in> set ?rows" for x
  proof -
    from x obtain c where c: "c \<in> set (w_coupons w)" "x = (if ?hit c then f c else c)"
      by (auto simp: set_update_where)
    show ?thesis
    proof (cases "?hit c")
      case True
      then show ?thesis using c ok free by auto
    next
      case False
      have "\<not> live_code_taken ?rows c"
      proof
        assume "live_code_taken ?rows c"
        then obtain y where y: "y \<in> set ?rows" "co_id y \<noteq> co_id c" "\<not> co_deleted y"
            "co_store y = co_store c" "same_code (co_code y) (co_code c)" "\<not> co_deleted c"
          by (auto simp: live_code_taken_def)
        then obtain d where d: "d \<in> set (w_coupons w)" "y = (if ?hit d then f d else d)"
          by (auto simp: set_update_where)
        show False
        proof (cases "?hit d")
          case True
          have "c \<in> set ?rows" using c(1) False by (force simp: set_update_where)
          then have "live_code_taken ?rows (f d)"
            using y d True by (auto simp: live_code_taken_def same_code_def intro!: bexI [of _ c])
          then show False using free [OF d(1) True] by simp
        next
          case False
          then have "live_code_taken (w_coupons w) c"
            using y d by (auto simp: live_code_taken_def)
          then show False using assms(2) c(1) by (simp add: coupons_inv_def)
        qed
      qed
      then show ?thesis using False c assms(2) by (auto simp: coupons_inv_def)
    qed
  qed
  then show ?thesis using assms(2) by (simp add: coupons_inv_def w')
qed

lemma redeemIn_inv: "redeemIn r w = Inr w' \<Longrightarrow> coupons_inv w \<Longrightarrow> coupons_inv w'"
  by (auto simp: redeemIn_def coupons_inv_def split: if_splits) metis

lemma create_coupon_inv: "create_coupon i s a input w = (r, w') \<Longrightarrow> coupons_inv w \<Longrightarrow> coupons_inv w'"
  by (auto simp: create_coupon_def Let_def intro: insert_coupon_inv split: sum.splits if_splits)

lemma update_coupon_by_inv:
  "update_coupon_by s i a p w = (r, w') \<Longrightarrow> coupons_inv w \<Longrightarrow> coupons_inv w'"
  by (auto simp: update_coupon_by_def apply_patch_def elim!: update_coupon_inv
      split: sum.splits if_splits prod.splits)

lemma remove_coupon_inv: "remove_coupon s i a w = (r, w') \<Longrightarrow> coupons_inv w \<Longrightarrow> coupons_inv w'"
  by (auto simp: remove_coupon_def elim!: update_coupon_inv split: sum.splits if_splits prod.splits)

section \<open>What a quote promises\<close>

lemma discountFor_bounds:
  assumes "0 \<le> s" and "0 \<le> v"
  shows "0 \<le> discountFor k v s" and "discountFor k v s \<le> s"
  using assms by (simp_all add: discountFor_def Let_def js_round_div_nonneg)

lemma discountFor_mono:
  assumes "s \<le> t" and "0 \<le> v"
  shows "discountFor k v s \<le> discountFor k v t"
proof -
  have "js_round_div (s * v) 10000 \<le> js_round_div (t * v) 10000"
    using assms by (intro js_round_div_mono mult_right_mono) simp_all
  then show ?thesis using assms by (auto simp: discountFor_def Let_def)
qed

lemma coupon_quote_Inr:
  assumes "coupon_quote now s code subtotal user w = Inr q"
  obtains c where "c \<in> set (w_coupons w)" and "co_store c = s" and "\<not> co_deleted c"
    and "same_code (co_code c) (normalizeCode code)"
    and "q = \<lparr>cq_coupon = co_id c, cq_code = co_code c,
          cq_discount = discountFor (co_kind c) (co_value c) subtotal\<rparr>"
    and "describeStatus now c = ST_ACTIVE" and "co_min_order c \<le> subtotal"
    and "\<forall>m. co_max c = Some m \<longrightarrow> int (redemptions_of w (co_id c)) < m"
    and "\<forall>m u. co_per_customer c = Some m \<longrightarrow> user = Some u \<longrightarrow> u \<noteq> [] \<longrightarrow>
         int (count_where (\<lambda>r. rd_coupon r = co_id c \<and> rd_user r = Some u) (w_redemptions w)) < m"
proof -
  obtain c where found: "find (\<lambda>c. co_store c = s \<and> same_code (co_code c) (normalizeCode code) \<and>
      \<not> co_deleted c) (w_coupons w) = Some c"
    using assms by (auto simp: coupon_quote_def split: option.splits)
  then have c: "c \<in> set (w_coupons w)" "co_store c = s" "\<not> co_deleted c"
      "same_code (co_code c) (normalizeCode code)"
    by (auto simp: find_Some_iff)
  have "q = \<lparr>cq_coupon = co_id c, cq_code = co_code c,
        cq_discount = discountFor (co_kind c) (co_value c) subtotal\<rparr>"
    and "describeStatus now c = ST_ACTIVE" "co_min_order c \<le> subtotal"
    and "\<forall>m. co_max c = Some m \<longrightarrow> int (redemptions_of w (co_id c)) < m"
    and "\<forall>m u. co_per_customer c = Some m \<longrightarrow> user = Some u \<longrightarrow> u \<noteq> [] \<longrightarrow>
         int (count_where (\<lambda>r. rd_coupon r = co_id c \<and> rd_user r = Some u) (w_redemptions w)) < m"
    using assms unfolding coupon_quote_def found
    by (auto simp: describeStatus_def Let_def split: option.splits if_splits)
  with c show thesis by (rule that)
qed

lemma live_value_pos: "coupons_inv w \<Longrightarrow> c \<in> set (w_coupons w) \<Longrightarrow> 0 < co_value c"
  by (auto simp: coupons_inv_def check_coupon_def split: if_splits)

lemma coupon_quote_bound:
  assumes "coupons_inv w" and "0 \<le> subtotal"
    and "coupon_quote now s code subtotal user w = Inr q"
  shows "0 \<le> cq_discount q \<and> cq_discount q \<le> subtotal"
  using assms(3)
proof (rule coupon_quote_Inr)
  fix c
  assume c: "c \<in> set (w_coupons w)"
    and "q = \<lparr>cq_coupon = co_id c, cq_code = co_code c,
          cq_discount = discountFor (co_kind c) (co_value c) subtotal\<rparr>"
  then show ?thesis
    using discountFor_bounds [OF assms(2), of "co_value c"] live_value_pos [OF assms(1) c] by simp
qed

text \<open>
  C38. A priced code is worth between nothing and the whole basket, and never less on a larger
  basket; it belongs to a live coupon of this store, inside its window, on a basket that meets
  its minimum, with uses left in total and for this shopper.
\<close>

theorem coupon_quote_sound:
  assumes "coupons_inv w" and "0 \<le> subtotal"
    and "coupon_quote now s code subtotal user w = Inr q"
  shows "0 \<le> cq_discount q \<and> cq_discount q \<le> subtotal \<and>
    (\<exists>c \<in> set (w_coupons w). co_id c = cq_coupon q \<and> co_store c = s \<and> describeStatus now c = ST_ACTIVE \<and>
       \<not> co_deleted c \<and> same_code (co_code c) (normalizeCode code) \<and> co_min_order c \<le> subtotal \<and>
       (\<forall>m. co_max c = Some m \<longrightarrow> int (redemptions_of w (co_id c)) < m) \<and>
       (\<forall>m u. co_per_customer c = Some m \<longrightarrow> user = Some u \<longrightarrow> u \<noteq> [] \<longrightarrow>
          int (count_where (\<lambda>r. rd_coupon r = co_id c \<and> rd_user r = Some u) (w_redemptions w)) < m) \<and>
       (\<forall>more \<ge> subtotal. cq_discount q \<le> discountFor (co_kind c) (co_value c) more))"
proof -
  obtain c where c: "c \<in> set (w_coupons w)" "co_store c = s" "\<not> co_deleted c"
      "same_code (co_code c) (normalizeCode code)"
    and q: "q = \<lparr>cq_coupon = co_id c, cq_code = co_code c,
        cq_discount = discountFor (co_kind c) (co_value c) subtotal\<rparr>"
    and room: "describeStatus now c = ST_ACTIVE" "co_min_order c \<le> subtotal"
      "\<forall>m. co_max c = Some m \<longrightarrow> int (redemptions_of w (co_id c)) < m"
      "\<forall>m u. co_per_customer c = Some m \<longrightarrow> user = Some u \<longrightarrow> u \<noteq> [] \<longrightarrow>
         int (count_where (\<lambda>r. rd_coupon r = co_id c \<and> rd_user r = Some u) (w_redemptions w)) < m"
    using assms(3) by (rule coupon_quote_Inr)
  have "\<forall>more \<ge> subtotal. cq_discount q \<le> discountFor (co_kind c) (co_value c) more"
    using discountFor_mono live_value_pos [OF assms(1) c(1)] by (simp add: q)
  moreover have "co_id c = cq_coupon q" by (simp add: q)
  ultimately show ?thesis using coupon_quote_bound [OF assms] c room
    by (intro conjI bexI [of _ c]) auto
qed

definition sample_coupons :: world where
  "sample_coupons = snd (create_coupon ''c1'' ''s1'' ''u1''
     \<lparr>cn_code = '' spring '', cn_kind = PERCENT, cn_value = Whole 1500, cn_min_order = Some 1000,
      cn_starts = None, cn_ends = Some 900, cn_max = Some 1, cn_per_customer = None,
      cn_active = None\<rparr> empty_world)"

lemma coupons_inv_empty: "coupons_inv empty_world"
  by (simp add: coupons_inv_def empty_world_def)

lemma sample_coupons_inv: "coupons_inv sample_coupons"
  unfolding sample_coupons_def by (rule create_coupon_inv [OF surjective_pairing coupons_inv_empty])

theorem coupon_quote_sound_witness:
  "\<exists>q. coupon_quote 500 ''s1'' ''Spring'' 2050 None sample_coupons = Inr q \<and>
     0 \<le> cq_discount q \<and> cq_discount q \<le> 2050 \<and> cq_discount q = 308"
proof -
  have "case coupon_quote 500 ''s1'' ''Spring'' 2050 None sample_coupons of
      Inl _ \<Rightarrow> False | Inr q \<Rightarrow> cq_discount q = 308"
    by code_simp
  then obtain q where "coupon_quote 500 ''s1'' ''Spring'' 2050 None sample_coupons = Inr q"
    "cq_discount q = 308"
    by (auto split: sum.splits)
  with coupon_quote_sound [OF sample_coupons_inv _ this(1)] show ?thesis by auto
qed

end
