(* ===== verification/Cart.thy ===== *)
theory Cart
  imports Stock
begin

text \<open>
  \<open>CartService\<close> (\<open>modules/cart/cart.service.ts\<close>).  A cart belongs to a signed-in user or to a
  guest's session key; its lines are re-priced against the public catalogue on every read.  The
  row policies decide what a read without a store identity sees: the public variants of
  migration 8, and no stock level at all (\<open>stock_levels_tenant\<close> of migration 10).  The slug and
  the image of a product, which the code only passes on, are left out.
\<close>

section \<open>Who asks\<close>

text \<open>\<open>TenantContext\<close> of \<open>infra/prisma/tenant-context.ts\<close>, as far as the policies used here read it.\<close>

record tenant =
  t_store :: "string option"
  t_super :: bool

definition anonymous :: tenant where
  "anonymous = \<lparr>t_store = None, t_super = False\<rparr>"

definition level_visible :: "tenant \<Rightarrow> stock_level \<Rightarrow> bool" where
  "level_visible ctx l = (t_super ctx \<or> t_store ctx = Some (sl_store l))"

definition visible_level :: "tenant \<Rightarrow> world \<Rightarrow> string \<Rightarrow> stock_level option" where
  "visible_level ctx w v =
     (case w_levels w v of None \<Rightarrow> None | Some l \<Rightarrow> if level_visible ctx l then Some l else None)"

definition store_active :: "world \<Rightarrow> string \<Rightarrow> bool" where
  "store_active w storeId = (\<exists>s \<in> set (w_stores w). s_id s = storeId \<and> s_status s = ACTIVE)"

text \<open>\<open>product_variants_read\<close>\<close>

definition variant_visible :: "tenant \<Rightarrow> world \<Rightarrow> variant \<Rightarrow> bool" where
  "variant_visible ctx w v =
     (t_super ctx \<or> t_store ctx = Some (va_store v) \<or>
      (\<not> va_deleted v \<and> va_active v \<and> va_status v = P_ACTIVE \<and> \<not> va_product_deleted v \<and>
       store_active w (va_store v)))"

datatype shopper = User string | Guest string

fun owns :: "shopper \<Rightarrow> cart \<Rightarrow> bool" where
  "owns (User u) c = (ca_user c = Some u)"
| "owns (Guest k) c = (ca_session c = Some k)"

definition CART_TTL_DAYS :: int where "CART_TTL_DAYS = 30"

definition MAX_QTY_PER_LINE :: int where "MAX_QTY_PER_LINE = 99"

section \<open>The tables\<close>

definition active_carts :: "world \<Rightarrow> string \<Rightarrow> shopper \<Rightarrow> cart list" where
  "active_carts w storeId shopper =
     filter (\<lambda>c. ca_store c = storeId \<and> ca_status c = C_ACTIVE \<and> owns shopper c) (w_carts w)"

definition cart_clash :: "cart \<Rightarrow> cart \<Rightarrow> bool" where
  "cart_clash a b =
     (ca_status a = C_ACTIVE \<and> ca_status b = C_ACTIVE \<and> ca_store a = ca_store b \<and>
      ((ca_user a \<noteq> None \<and> ca_user a = ca_user b) \<or>
       (ca_session a \<noteq> None \<and> ca_session a = ca_session b)))"

definition insert_cart :: "cart \<Rightarrow> world \<Rightarrow> world res" where
  "insert_cart c w =
     (if (ca_user c = None) = (ca_session c = None) then Inl (CheckViolation ''carts_owner'')
      else if \<exists>x \<in> set (w_carts w). ca_id x = ca_id c then Inl (UniqueViolation ''carts_pkey'')
      else if \<exists>x \<in> set (w_carts w). cart_clash c x then Inl (UniqueViolation ''carts_active'')
      else Inr (w\<lparr>w_carts := w_carts w @ [c]\<rparr>))"

definition insert_item :: "cart_item \<Rightarrow> world \<Rightarrow> world res" where
  "insert_item i w =
     (if \<not> ci_qty i > 0 then Inl (CheckViolation ''cart_items_qty_positive'')
      else if \<not> ci_price i \<ge> 0 then Inl (CheckViolation ''cart_items_price_nonneg'')
      else if \<exists>x \<in> set (w_cart_items w). ci_id x = ci_id i
      then Inl (UniqueViolation ''cart_items_pkey'')
      else if \<exists>x \<in> set (w_cart_items w). ci_cart x = ci_cart i \<and> ci_variant x = ci_variant i
      then Inl (UniqueViolation ''cart_items_unique_variant'')
      else Inr (w\<lparr>w_cart_items := w_cart_items w @ [i]\<rparr>))"

text \<open>\<open>UPDATE cart_items SET qty = n WHERE ...\<close>\<close>

definition set_qty :: "(cart_item \<Rightarrow> bool) \<Rightarrow> int \<Rightarrow> world \<Rightarrow> world res" where
  "set_qty hit n w =
     (if (\<exists>x \<in> set (w_cart_items w). hit x) \<and> \<not> n > 0
      then Inl (CheckViolation ''cart_items_qty_positive'')
      else Inr (w\<lparr>w_cart_items := update_where hit (\<lambda>x. x\<lparr>ci_qty := n\<rparr>) (w_cart_items w)\<rparr>))"

definition items_of :: "world \<Rightarrow> string \<Rightarrow> cart_item list" where
  "items_of w cartId = filter (\<lambda>i. ci_cart i = cartId) (w_cart_items w)"

definition find_item :: "world \<Rightarrow> string \<Rightarrow> string \<Rightarrow> cart_item option" where
  "find_item w cartId variantId =
     find (\<lambda>i. ci_cart i = cartId \<and> ci_variant i = variantId) (w_cart_items w)"

section \<open>Finding and creating the cart\<close>

definition findActiveCart :: "string \<Rightarrow> shopper \<Rightarrow> world \<Rightarrow> string option" where
  "findActiveCart storeId shopper w =
     (case active_carts w storeId shopper of [] \<Rightarrow> None | c # _ \<Rightarrow> Some (ca_id c))"

definition getOrCreateCart :: "string \<Rightarrow> int \<Rightarrow> string \<Rightarrow> shopper \<Rightarrow> world \<Rightarrow> string outcome" where
  "getOrCreateCart newId now storeId shopper w =
     (case findActiveCart storeId shopper w of
        Some c \<Rightarrow> (Inr c, w)
      | None \<Rightarrow>
          (case insert_cart
             \<lparr>ca_id = newId, ca_store = storeId,
              ca_user = (case shopper of User u \<Rightarrow> Some u | Guest _ \<Rightarrow> None),
              ca_session = (case shopper of User _ \<Rightarrow> None | Guest k \<Rightarrow> Some k),
              ca_status = C_ACTIVE, ca_expires = now + CART_TTL_DAYS * 86400000\<rparr> w of
             Inr w1 \<Rightarrow> (Inr newId, w1)
           | Inl e \<Rightarrow>
               (if isUniqueViolation e
                then (case findActiveCart storeId shopper w of
                        Some c \<Rightarrow> (Inr c, w) | None \<Rightarrow> (Inl e, w))
                else (Inl e, w))))"

section \<open>Reading the cart\<close>

record priced_variant =
  pv_price :: int
  pv_attrs :: "(string \<times> string) list"
  pv_store :: string
  pv_name :: string
  pv_stock :: "stock_level option"

text \<open>Read with no identity, so that the policies of the public apply.\<close>

definition loadPublicVariants :: "world \<Rightarrow> string \<Rightarrow> priced_variant option" where
  "loadPublicVariants w variantId =
     (case find (\<lambda>v. va_id v = variantId \<and> va_active v \<and> \<not> va_deleted v \<and>
                     variant_visible anonymous w v) (w_variants w) of
        None \<Rightarrow> None
      | Some v \<Rightarrow> Some \<lparr>pv_price = va_price v, pv_attrs = va_attrs v, pv_store = va_store v,
                       pv_name = va_name v, pv_stock = visible_level anonymous w variantId\<rparr>)"

datatype line_problem = Unavailable string | PriceChanged int int | InsufficientStock int

definition describeProblem :: "cart_item \<Rightarrow> priced_variant \<Rightarrow> line_problem option" where
  "describeProblem item v =
     (let price_problem = (if pv_price v \<noteq> ci_price item
                           then Some (PriceChanged (ci_price item) (pv_price v)) else None)
      in case pv_stock v of
           None \<Rightarrow> price_problem
         | Some l \<Rightarrow>
             if sl_tracked l \<and> sl_on_hand l - sl_reserved l < ci_qty item
             then Some (InsufficientStock (max (sl_on_hand l - sl_reserved l) 0))
             else price_problem)"

record cart_line =
  ln_id :: string
  ln_variant :: string
  ln_qty :: int
  ln_name :: string
  ln_attrs :: "(string \<times> string) list"
  ln_unit :: int
  ln_total :: int
  ln_problem :: "line_problem option"

definition cart_line_of :: "world \<Rightarrow> cart_item \<Rightarrow> cart_line" where
  "cart_line_of w item =
     (case loadPublicVariants w (ci_variant item) of
        None \<Rightarrow>
          \<lparr>ln_id = ci_id item, ln_variant = ci_variant item, ln_qty = ci_qty item,
           ln_name = ''This item is no longer available'', ln_attrs = [], ln_unit = 0,
           ln_total = 0, ln_problem = Some (Unavailable ''This item is no longer for sale.'')\<rparr>
      | Some v \<Rightarrow>
          \<lparr>ln_id = ci_id item, ln_variant = ci_variant item, ln_qty = ci_qty item,
           ln_name = pv_name v, ln_attrs = pv_attrs v, ln_unit = pv_price v,
           ln_total = pv_price v * ci_qty item, ln_problem = describeProblem item v\<rparr>)"

record cart_view =
  cv_id :: "string option"
  cv_lines :: "cart_line list"
  cv_subtotal :: int
  cv_count :: int

definition getCart :: "string \<Rightarrow> shopper \<Rightarrow> world \<Rightarrow> cart_view" where
  "getCart storeId shopper w =
     (case findActiveCart storeId shopper w of
        None \<Rightarrow> \<lparr>cv_id = None, cv_lines = [], cv_subtotal = 0, cv_count = 0\<rparr>
      | Some cartId \<Rightarrow>
          let ls = map (cart_line_of w) (items_of w cartId)
          in \<lparr>cv_id = Some cartId, cv_lines = ls, cv_subtotal = sum_list (map ln_total ls),
              cv_count = sum_list (map ln_qty ls)\<rparr>)"

section \<open>Changing the cart\<close>

definition assertQty :: "js_number \<Rightarrow> int res" where
  "assertQty qty =
     (case qty of
        NotWhole _ \<Rightarrow> Inl (Validation ''Quantity must be a whole number of at least 1.'')
      | Whole n \<Rightarrow>
          if n < 1 then Inl (Validation ''Quantity must be a whole number of at least 1.'')
          else if n > MAX_QTY_PER_LINE
          then Inl (Validation ''You can order at most 99 of one item.'')
          else Inr n)"

definition requireBuyableVariant :: "string \<Rightarrow> string \<Rightarrow> world \<Rightarrow> priced_variant res" where
  "requireBuyableVariant storeId variantId w =
     (case loadPublicVariants w variantId of
        None \<Rightarrow> Inl (NotFound ''That item isn't for sale.'')
      | Some v \<Rightarrow> if pv_store v \<noteq> storeId then Inl (NotFound ''That item isn't for sale.'')
                  else Inr v)"

text \<open>Raise the line that is there, capped, or add a line.\<close>

definition put_item ::
    "string \<Rightarrow> string \<Rightarrow> string \<Rightarrow> string \<Rightarrow> int \<Rightarrow> int \<Rightarrow> world \<Rightarrow> world res" where
  "put_item newId cartId storeId variantId qty price w =
     (case find_item w cartId variantId of
        Some x \<Rightarrow> set_qty (\<lambda>i. ci_id i = ci_id x) (min (ci_qty x + qty) MAX_QTY_PER_LINE) w
      | None \<Rightarrow> insert_item
          \<lparr>ci_id = newId, ci_cart = cartId, ci_store = storeId, ci_variant = variantId,
           ci_qty = qty, ci_price = price\<rparr> w)"

definition addItem ::
    "string \<Rightarrow> string \<Rightarrow> int \<Rightarrow> string \<Rightarrow> shopper \<Rightarrow> string \<Rightarrow> js_number \<Rightarrow> world \<Rightarrow>
     cart_view outcome" where
  "addItem newCart newItem now storeId shopper variantId qty w =
     (case assertQty qty of
        Inl e \<Rightarrow> (Inl e, w)
      | Inr n \<Rightarrow>
          (case requireBuyableVariant storeId variantId w of
             Inl e \<Rightarrow> (Inl e, w)
           | Inr v \<Rightarrow>
               (case getOrCreateCart newCart now storeId shopper w of
                  (Inl e, w1) \<Rightarrow> (Inl e, w1)
                | (Inr cartId, w1) \<Rightarrow>
                    (case put_item newItem cartId storeId variantId n (pv_price v) w1 of
                       Inl e \<Rightarrow> (Inl e, w1)
                     | Inr w2 \<Rightarrow> (Inr (getCart storeId shopper w2), w2)))))"

definition delete_items :: "(cart_item \<Rightarrow> bool) \<Rightarrow> world \<Rightarrow> world" where
  "delete_items hit w = w\<lparr>w_cart_items := filter (\<lambda>i. \<not> hit i) (w_cart_items w)\<rparr>"

definition removeItem :: "string \<Rightarrow> shopper \<Rightarrow> string \<Rightarrow> world \<Rightarrow> cart_view outcome" where
  "removeItem storeId shopper itemId w =
     (case findActiveCart storeId shopper w of
        None \<Rightarrow> (Inl (NotFound ''Your cart is empty.''), w)
      | Some cartId \<Rightarrow>
          let w1 = delete_items (\<lambda>i. ci_id i = itemId \<and> ci_cart i = cartId) w
          in (Inr (getCart storeId shopper w1), w1))"

definition updateItem ::
    "string \<Rightarrow> shopper \<Rightarrow> string \<Rightarrow> js_number \<Rightarrow> world \<Rightarrow> cart_view outcome" where
  "updateItem storeId shopper itemId qty w =
     (if qty = Whole 0 then removeItem storeId shopper itemId w
      else case assertQty qty of
        Inl e \<Rightarrow> (Inl e, w)
      | Inr n \<Rightarrow>
          (case findActiveCart storeId shopper w of
             None \<Rightarrow> (Inl (NotFound ''Your cart is empty.''), w)
           | Some cartId \<Rightarrow>
               let hit = (\<lambda>i. ci_id i = itemId \<and> ci_cart i = cartId) in
               (case set_qty hit n w of
                  Inl e \<Rightarrow> (Inl e, w)
                | Inr w1 \<Rightarrow>
                    if count_where hit (w_cart_items w) = 0
                    then (Inl (NotFound ''That item isn't in your cart.''), w1)
                    else (Inr (getCart storeId shopper w1), w1))))"

definition clear_cart :: "string \<Rightarrow> shopper \<Rightarrow> world \<Rightarrow> cart_view outcome" where
  "clear_cart storeId shopper w =
     (let w1 = (case findActiveCart storeId shopper w of
                  None \<Rightarrow> w | Some cartId \<Rightarrow> delete_items (\<lambda>i. ci_cart i = cartId) w)
      in (Inr (getCart storeId shopper w1), w1))"

section \<open>Signing in\<close>

text \<open>
  \<open>mergeGuestCart\<close>: each guest cart with lines goes into the user's cart of its store, line by
  line, every line its own transaction; then the guest carts are retired.  \<open>cartIds\<close> and
  \<open>itemIds\<close> supply the fresh identifiers.
\<close>

fun merge_items ::
    "(string \<Rightarrow> string \<Rightarrow> string) \<Rightarrow> string \<Rightarrow> string \<Rightarrow> cart_item list \<Rightarrow> nat \<Rightarrow> world \<Rightarrow>
     nat outcome" where
  "merge_items itemIds targetId storeId [] n w = (Inr n, w)"
| "merge_items itemIds targetId storeId (i # is) n w =
     (case put_item (itemIds targetId (ci_variant i)) targetId storeId (ci_variant i) (ci_qty i)
         (ci_price i) w of
        Inl e \<Rightarrow> (Inl e, w)
      | Inr w1 \<Rightarrow> merge_items itemIds targetId storeId is (n + 1) w1)"

fun merge_carts ::
    "(string \<Rightarrow> string) \<Rightarrow> (string \<Rightarrow> string \<Rightarrow> string) \<Rightarrow> int \<Rightarrow> string \<Rightarrow>
     (cart \<times> cart_item list) list \<Rightarrow> nat \<Rightarrow> world \<Rightarrow> nat outcome" where
  "merge_carts cartIds itemIds now userId [] n w = (Inr n, w)"
| "merge_carts cartIds itemIds now userId ((g, items) # gs) n w =
     (if items = [] then merge_carts cartIds itemIds now userId gs n w
      else case getOrCreateCart (cartIds (ca_store g)) now (ca_store g) (User userId) w of
        (Inl e, w1) \<Rightarrow> (Inl e, w1)
      | (Inr targetId, w1) \<Rightarrow>
          (case merge_items itemIds targetId (ca_store g) items n w1 of
             (Inl e, w2) \<Rightarrow> (Inl e, w2)
           | (Inr n2, w2) \<Rightarrow> merge_carts cartIds itemIds now userId gs n2 w2))"

definition guest_carts :: "string \<Rightarrow> world \<Rightarrow> (cart \<times> cart_item list) list" where
  "guest_carts sessionKey w =
     map (\<lambda>c. (c, items_of w (ca_id c)))
       (filter (\<lambda>c. ca_session c = Some sessionKey \<and> ca_status c = C_ACTIVE) (w_carts w))"

definition mergeGuestCart ::
    "(string \<Rightarrow> string) \<Rightarrow> (string \<Rightarrow> string \<Rightarrow> string) \<Rightarrow> int \<Rightarrow> string \<Rightarrow> string \<Rightarrow> world \<Rightarrow>
     nat outcome" where
  "mergeGuestCart cartIds itemIds now sessionKey userId w =
     (case merge_carts cartIds itemIds now userId (guest_carts sessionKey w) 0 w of
        (Inl e, w1) \<Rightarrow> (Inl e, w1)
      | (Inr n, w1) \<Rightarrow>
          (Inr n, w1\<lparr>w_carts := update_where
             (\<lambda>c. ca_session c = Some sessionKey \<and> ca_status c = C_ACTIVE)
             (\<lambda>c. c\<lparr>ca_status := C_CONVERTED\<rparr>) (w_carts w1)\<rparr>))"

section \<open>Invariant\<close>

text \<open>
  Keys are unique, a cart holds a variant once, a line holds between one and ninety-nine, a cart
  has one kind of owner, and no two active carts of one store have the same one.
\<close>

definition items_inv :: "cart_item list \<Rightarrow> bool" where
  "items_inv rows =
     (distinct (map ci_id rows) \<and> distinct (map (\<lambda>i. (ci_cart i, ci_variant i)) rows) \<and>
      (\<forall>i \<in> set rows. 1 \<le> ci_qty i \<and> ci_qty i \<le> MAX_QTY_PER_LINE))"

definition carts_inv :: "cart list \<Rightarrow> bool" where
  "carts_inv rows =
     (distinct (map ca_id rows) \<and>
      (\<forall>a \<in> set rows. (ca_user a = None) \<noteq> (ca_session a = None)) \<and>
      (\<forall>a \<in> set rows. \<forall>b \<in> set rows. ca_id a \<noteq> ca_id b \<longrightarrow> \<not> cart_clash a b))"

definition cart_inv :: "world \<Rightarrow> bool" where
  "cart_inv w = (items_inv (w_cart_items w) \<and> carts_inv (w_carts w))"

lemma cart_inv_cong:
  "w_carts w = w_carts w' \<Longrightarrow> w_cart_items w = w_cart_items w' \<Longrightarrow> cart_inv w = cart_inv w'"
  by (simp add: cart_inv_def)

definition qty_in :: "world \<Rightarrow> string \<Rightarrow> string \<Rightarrow> int" where
  "qty_in w c v = sum_where (\<lambda>i. ci_cart i = c \<and> ci_variant i = v) ci_qty (w_cart_items w)"

lemma sum_keyed:
  assumes "distinct (map (\<lambda>i. (ci_cart i, ci_variant i)) rows)" and "x \<in> set rows"
  shows "sum_where (\<lambda>i. ci_cart i = ci_cart x \<and> ci_variant i = ci_variant x) ci_qty rows = ci_qty x"
  using assms
proof (induction rows)
  case Nil
  then show ?case by simp
next
  case (Cons r rows)
  show ?case
  proof (cases "r = x")
    case True
    have "sum_where (\<lambda>i. ci_cart i = ci_cart x \<and> ci_variant i = ci_variant x) ci_qty rows = 0"
      using Cons.prems(1) True by (intro sum_where_none) (auto simp: image_iff)
    then show ?thesis using True by simp
  next
    case False
    then have "x \<in> set rows" using Cons.prems(2) by simp
    moreover from this have "\<not> (ci_cart r = ci_cart x \<and> ci_variant r = ci_variant x)"
      using Cons.prems(1) by (auto simp: image_iff)
    ultimately show ?thesis using Cons by auto
  qed
qed

lemma find_item_qty:
  assumes "items_inv (w_cart_items w)"
  shows "qty_in w c v = (case find_item w c v of None \<Rightarrow> 0 | Some x \<Rightarrow> ci_qty x)"
proof (cases "find_item w c v")
  case None
  then have "filter (\<lambda>i. ci_cart i = c \<and> ci_variant i = v) (w_cart_items w) = []"
    by (auto simp: find_item_def find_None_iff filter_empty_conv)
  then show ?thesis using None by (simp add: qty_in_def sum_where_def)
next
  case (Some x)
  then have "x \<in> set (w_cart_items w)" "ci_cart x = c" "ci_variant x = v"
    by (auto simp: find_item_def find_Some_iff)
  then show ?thesis
    using Some assms sum_keyed [of "w_cart_items w" x] by (auto simp: qty_in_def items_inv_def)
qed

text \<open>A row found by its key is the only one with its identifier.\<close>

lemma update_one:
  assumes "distinct (map ci_id rows)" and "x \<in> set rows"
    and keyed: "\<And>i. p (i\<lparr>ci_qty := n\<rparr>) = p i"
  shows "sum_where p ci_qty (update_where (\<lambda>i. ci_id i = ci_id x) (\<lambda>i. i\<lparr>ci_qty := n\<rparr>) rows) =
    sum_where p ci_qty rows + (if p x then n - ci_qty x else 0)"
  using assms(1,2)
proof (induction rows)
  case Nil
  then show ?case by simp
next
  case (Cons r rows)
  show ?case
  proof (cases "r = x")
    case True
    have "update_where (\<lambda>i. ci_id i = ci_id x) (\<lambda>i. i\<lparr>ci_qty := n\<rparr>) rows = rows"
      using Cons.prems(1) True by (intro update_where_id) (auto simp: image_iff)
    then show ?thesis using True keyed by simp
  next
    case False
    then have "x \<in> set rows" using Cons.prems(2) by simp
    moreover from this have "ci_id r \<noteq> ci_id x"
      using Cons.prems(1) by (auto simp: image_iff)
    ultimately show ?thesis using Cons keyed by simp
  qed
qed

lemma put_item_Inr:
  assumes "put_item i c s v n p w = Inr w'" and "items_inv (w_cart_items w)"
    and "1 \<le> n" and "n \<le> MAX_QTY_PER_LINE"
  shows "items_inv (w_cart_items w') \<and> w_carts w' = w_carts w \<and>
    (\<forall>c' v'. qty_in w' c' v' =
       (if c' = c \<and> v' = v then min MAX_QTY_PER_LINE (qty_in w c v + n) else qty_in w c' v'))"
proof (cases "find_item w c v")
  case None
  let ?new = "\<lparr>ci_id = i, ci_cart = c, ci_store = s, ci_variant = v, ci_qty = n, ci_price = p\<rparr>"
  have w': "w' = w\<lparr>w_cart_items := w_cart_items w @ [?new]\<rparr>"
    and fresh: "i \<notin> ci_id ` set (w_cart_items w)"
      "(c, v) \<notin> (\<lambda>i. (ci_cart i, ci_variant i)) ` set (w_cart_items w)"
    using assms(1) None by (auto simp: put_item_def insert_item_def split: if_splits)
  have "qty_in w c v = 0" using find_item_qty [OF assms(2), of c v] None by simp
  then have "qty_in w' c' v' = (if c' = c \<and> v' = v then min MAX_QTY_PER_LINE (qty_in w c v + n)
      else qty_in w c' v')" for c' v'
    using assms(4) by (auto simp: w' qty_in_def)
  then show ?thesis using w' fresh assms by (auto simp: items_inv_def)
next
  case (Some x)
  let ?m = "min (ci_qty x + n) MAX_QTY_PER_LINE"
  have x: "x \<in> set (w_cart_items w)" "ci_cart x = c" "ci_variant x = v"
    using Some by (auto simp: find_item_def find_Some_iff)
  have m: "1 \<le> ?m" "?m \<le> MAX_QTY_PER_LINE"
    using x(1) assms(2,3) by (auto simp: items_inv_def MAX_QTY_PER_LINE_def)
  have w': "w' = w\<lparr>w_cart_items := update_where (\<lambda>i. ci_id i = ci_id x)
      (\<lambda>i. i\<lparr>ci_qty := ?m\<rparr>) (w_cart_items w)\<rparr>"
    using assms(1) Some by (auto simp: put_item_def set_qty_def split: if_splits)
  have q: "qty_in w c v = ci_qty x" using find_item_qty [OF assms(2), of c v] Some by simp
  have "qty_in w' c' v' = (if c' = c \<and> v' = v then min MAX_QTY_PER_LINE (qty_in w c v + n)
      else qty_in w c' v')" for c' v'
    using update_one [of "w_cart_items w" x "\<lambda>i. ci_cart i = c' \<and> ci_variant i = v'" ?m] x q assms(2)
    by (auto simp: w' qty_in_def items_inv_def)
  moreover have "items_inv (w_cart_items w')"
    using assms(2) m by (auto simp: w' items_inv_def map_update_where set_update_where)
  ultimately show ?thesis by (simp add: w')
qed

lemma cart_clash_sym: "cart_clash a b \<Longrightarrow> cart_clash b a"
  unfolding cart_clash_def by metis

lemma insert_cart_inv: "insert_cart c w = Inr w' \<Longrightarrow> cart_inv w \<Longrightarrow> cart_inv w'"
  by (auto simp: insert_cart_def cart_inv_def carts_inv_def split: if_splits)
    (metis cart_clash_sym)+

lemma getOrCreateCart_inv:
  "getOrCreateCart i now s sh w = (r, w') \<Longrightarrow> cart_inv w \<Longrightarrow> cart_inv w'"
  by (auto simp: getOrCreateCart_def intro: insert_cart_inv
      split: option.splits sum.splits if_splits shopper.splits)

lemma getOrCreateCart_items:
  "getOrCreateCart i now s sh w = (r, w') \<Longrightarrow> w_cart_items w' = w_cart_items w"
  by (auto simp: getOrCreateCart_def insert_cart_def split: option.splits sum.splits if_splits shopper.splits)

lemma put_item_inv:
  "put_item i c s v n p w = Inr w' \<Longrightarrow> cart_inv w \<Longrightarrow> 1 \<le> n \<Longrightarrow> n \<le> MAX_QTY_PER_LINE \<Longrightarrow> cart_inv w'"
  using put_item_Inr by (auto simp: cart_inv_def)

lemma assertQty_Inr: "assertQty q = Inr n \<longleftrightarrow> q = Whole n \<and> 1 \<le> n \<and> n \<le> MAX_QTY_PER_LINE"
  by (auto simp: assertQty_def split: js_number.splits)

lemma items_inv_filter: "items_inv rows \<Longrightarrow> items_inv (filter p rows)"
  by (auto simp: items_inv_def distinct_map_filter)

lemma delete_items_inv: "cart_inv w \<Longrightarrow> cart_inv (delete_items p w)"
  by (simp add: cart_inv_def delete_items_def items_inv_filter)

lemma set_qty_inv:
  "set_qty p n w = Inr w' \<Longrightarrow> cart_inv w \<Longrightarrow> 1 \<le> n \<Longrightarrow> n \<le> MAX_QTY_PER_LINE \<Longrightarrow> cart_inv w'"
  by (auto simp: set_qty_def cart_inv_def items_inv_def map_update_where set_update_where
      split: if_splits)

lemma addItem_inv: "addItem i j now s sh v q w = (r, w') \<Longrightarrow> cart_inv w \<Longrightarrow> cart_inv w'"
  by (auto simp: addItem_def assertQty_Inr intro: put_item_inv getOrCreateCart_inv
      split: sum.splits prod.splits)

lemma removeItem_inv: "removeItem s sh i w = (r, w') \<Longrightarrow> cart_inv w \<Longrightarrow> cart_inv w'"
  by (auto simp: removeItem_def Let_def delete_items_inv split: option.splits)

lemma updateItem_inv: "updateItem s sh i q w = (r, w') \<Longrightarrow> cart_inv w \<Longrightarrow> cart_inv w'"
  by (auto simp: updateItem_def Let_def assertQty_Inr intro: removeItem_inv set_qty_inv
      split: option.splits sum.splits if_splits)

lemma clear_cart_inv: "clear_cart s sh w = (r, w') \<Longrightarrow> cart_inv w \<Longrightarrow> cart_inv w'"
  by (auto simp: clear_cart_def Let_def delete_items_inv split: option.splits)

lemma qty_in_le: "items_inv (w_cart_items w) \<Longrightarrow> 0 \<le> qty_in w c v \<and> qty_in w c v \<le> MAX_QTY_PER_LINE"
  unfolding find_item_qty
  by (auto simp: find_item_def find_Some_iff items_inv_def MAX_QTY_PER_LINE_def split: option.split)
    (metis nth_mem order_trans zero_le_one)+

lemma min_cap: "0 \<le> b \<Longrightarrow> min k (min k a + b) = min k (a + b)" for a :: int
  by (simp add: min_def)

lemma merge_items_effect:
  assumes "merge_items ids t s is n w = (r, w')" and "items_inv (w_cart_items w)"
    and "\<And>i. i \<in> set is \<Longrightarrow> 1 \<le> ci_qty i \<and> ci_qty i \<le> MAX_QTY_PER_LINE"
  shows "items_inv (w_cart_items w') \<and> w_carts w' = w_carts w \<and>
    (\<forall>m. r = Inr m \<longrightarrow> m = n + length is \<and>
      (\<forall>c v. qty_in w' c v = (if c = t
         then min MAX_QTY_PER_LINE (qty_in w t v + sum_where (\<lambda>i. ci_variant i = v) ci_qty is)
         else qty_in w c v)))"
  using assms
proof (induction "is" arbitrary: n w)
  case Nil
  then show ?case using qty_in_le [of w t] by (auto simp: min_def intro: antisym)
next
  case (Cons i "is")
  show ?case
  proof (cases "put_item (ids t (ci_variant i)) t s (ci_variant i) (ci_qty i) (ci_price i) w")
    case (Inl e)
    then show ?thesis using Cons.prems by auto
  next
    case (Inr w1)
    note one = put_item_Inr [OF Inr Cons.prems(2)]
    have i: "1 \<le> ci_qty i" "ci_qty i \<le> MAX_QTY_PER_LINE" using Cons.prems(3) [of i] by simp_all
    have rest: "merge_items ids t s is (n + 1) w1 = (r, w')" using Cons.prems(1) Inr by simp
    have sum: "0 \<le> sum_where (\<lambda>i. ci_variant i = v) ci_qty is" for v
      using Cons.prems(3) by (intro sum_where_nonneg) fastforce
    show ?thesis
      using Cons.IH [OF rest] one [OF i] Cons.prems(3)
      by (auto simp: min_cap [OF sum] add.assoc)
  qed
qed

lemma merge_carts_inv:
  assumes "merge_carts ci ii now u gs n w = (r, w')" and "cart_inv w"
    and "\<And>g is i. (g, is) \<in> set gs \<Longrightarrow> i \<in> set is \<Longrightarrow> 1 \<le> ci_qty i \<and> ci_qty i \<le> MAX_QTY_PER_LINE"
  shows "cart_inv w'"
  using assms
proof (induction ci ii now u gs n w rule: merge_carts.induct)
  case (1 ci ii now u n w)
  then show ?case by simp
next
  case (2 ci ii now u g items gs n w)
  show ?case
  proof (cases "items = []")
    case True
    with 2 show ?thesis by auto
  next
    case False
    obtain r1 w1 where w1: "getOrCreateCart (ci (ca_store g)) now (ca_store g) (User u) w = (r1, w1)"
      by (cases "getOrCreateCart (ci (ca_store g)) now (ca_store g) (User u) w")
    have inv1: "cart_inv w1" using getOrCreateCart_inv [OF w1 "2.prems"(2)] .
    show ?thesis
    proof (cases r1)
      case (Inl e)
      with False w1 "2.prems"(1) inv1 show ?thesis by simp
    next
      case (Inr t)
      obtain r2 w2 where w2: "merge_items ii t (ca_store g) items n w1 = (r2, w2)"
        by (cases "merge_items ii t (ca_store g) items n w1")
      have inv2: "cart_inv w2"
        using merge_items_effect [OF w2] inv1 "2.prems"(3) [of g items] by (auto simp: cart_inv_def)
      show ?thesis
      proof (cases r2)
        case (Inl e)
        with False w1 Inr w2 "2.prems"(1) inv2 show ?thesis by simp
      next
        case (Inr n2)
        with False w1 \<open>r1 = Inr t\<close> w2 "2.prems" inv2 show ?thesis
          using "2.IH"(2) [OF False w1 [symmetric, unfolded \<open>r1 = Inr t\<close>] refl w2 [symmetric, unfolded Inr]]
          by auto
      qed
    qed
  qed
qed

lemma guest_items_ok:
  "cart_inv w \<Longrightarrow> (g, is) \<in> set (guest_carts k w) \<Longrightarrow> i \<in> set is \<Longrightarrow>
     1 \<le> ci_qty i \<and> ci_qty i \<le> MAX_QTY_PER_LINE"
  by (auto simp: guest_carts_def items_of_def cart_inv_def items_inv_def)

lemma cart_clash_retired [simp]:
  "\<not> cart_clash (c\<lparr>ca_status := C_CONVERTED\<rparr>) d" "\<not> cart_clash d (c\<lparr>ca_status := C_CONVERTED\<rparr>)"
  by (simp_all add: cart_clash_def)

lemma retire_inv:
  "carts_inv rows \<Longrightarrow> carts_inv (update_where p (\<lambda>c. c\<lparr>ca_status := C_CONVERTED\<rparr>) rows)"
  by (auto simp: carts_inv_def map_update_where set_update_where)

lemma mergeGuestCart_inv:
  assumes "mergeGuestCart ci ii now k u w = (r, w')" and "cart_inv w"
  shows "cart_inv w'"
proof -
  obtain r1 w1 where w1: "merge_carts ci ii now u (guest_carts k w) 0 w = (r1, w1)"
    by (cases "merge_carts ci ii now u (guest_carts k w) 0 w")
  have "cart_inv w1" using merge_carts_inv [OF w1 assms(2)] guest_items_ok [OF assms(2)] by blast
  with assms(1) w1 show ?thesis
    by (auto simp: mergeGuestCart_def cart_inv_def retire_inv split: sum.splits)
qed

section \<open>What the cart promises\<close>

lemma getOrCreateCart_found:
  assumes "getOrCreateCart i now s sh w = (Inr t, w')"
  shows "findActiveCart s sh w' = Some t"
  using assms
  by (auto simp: getOrCreateCart_def findActiveCart_def insert_cart_def active_carts_def
      split: option.splits list.splits sum.splits if_splits shopper.splits)

lemma findActiveCart_cong: "w_carts w = w_carts w' \<Longrightarrow> findActiveCart s sh w = findActiveCart s sh w'"
  by (simp add: findActiveCart_def active_carts_def)

lemma qty_in_cong: "w_cart_items w = w_cart_items w' \<Longrightarrow> qty_in w = qty_in w'"
  by (simp add: qty_in_def fun_eq_iff)

text \<open>
  C37. Adding to the cart needs a quantity between one and ninety-nine of a variant the public
  can buy in this store; it raises that variant's quantity in the shopper's cart by that much,
  never past ninety-nine, leaves every other quantity of every cart alone and keeps one line per
  variant, and the cart it answers with is the stored one.
\<close>

theorem addItem_correct:
  assumes "cart_inv w" and "addItem i j now s sh v q w = (Inr view, w')"
  shows "\<exists>n pv t. q = Whole n \<and> 1 \<le> n \<and> n \<le> 99 \<and>
    loadPublicVariants w v = Some pv \<and> pv_store pv = s \<and> findActiveCart s sh w' = Some t \<and>
    (\<forall>c u. qty_in w' c u =
       (if c = t \<and> u = v then min 99 (qty_in w t v + n) else qty_in w c u)) \<and>
    view = getCart s sh w' \<and> cart_inv w'"
proof -
  obtain n pv t w1 where q: "q = Whole n" "1 \<le> n" "n \<le> MAX_QTY_PER_LINE"
    and pv: "loadPublicVariants w v = Some pv" "pv_store pv = s"
    and w1: "getOrCreateCart i now s sh w = (Inr t, w1)"
    and w': "put_item j t s v n (pv_price pv) w1 = Inr w'" and view: "view = getCart s sh w'"
    using assms(2)
    by (auto simp: addItem_def assertQty_Inr requireBuyableVariant_def
        split: sum.splits prod.splits option.splits if_splits)
  have "cart_inv w1" using getOrCreateCart_inv [OF w1 assms(1)] .
  then have "\<forall>c u. qty_in w' c u =
      (if c = t \<and> u = v then min MAX_QTY_PER_LINE (qty_in w1 t v + n) else qty_in w1 c u)"
    and "w_carts w' = w_carts w1"
    using put_item_Inr [OF w' _ q(2,3)] by (simp_all add: cart_inv_def)
  moreover have "qty_in w1 = qty_in w" using getOrCreateCart_items [OF w1] by (rule qty_in_cong)
  moreover have "findActiveCart s sh w' = Some t"
    using getOrCreateCart_found [OF w1] findActiveCart_cong [OF \<open>w_carts w' = w_carts w1\<close>] by simp
  ultimately show ?thesis
    using q pv view addItem_inv [OF assms(2,1)] by (auto simp: MAX_QTY_PER_LINE_def)
qed

lemma find_retired:
  assumes "\<And>c. c \<in> set rows \<Longrightarrow> (ca_user c = None) \<noteq> (ca_session c = None)"
  shows "filter (\<lambda>c. ca_store c = s \<and> ca_status c = C_ACTIVE \<and> ca_user c = Some u)
      (update_where (\<lambda>c. ca_session c = Some k \<and> ca_status c = C_ACTIVE)
        (\<lambda>c. c\<lparr>ca_status := C_CONVERTED\<rparr>) rows) =
    filter (\<lambda>c. ca_store c = s \<and> ca_status c = C_ACTIVE \<and> ca_user c = Some u) rows"
  using assms by (induction rows) fastforce+

text \<open>
  Signing in with one guest cart folds it into the user's cart of that store: the user's
  active cart then holds, of every variant, what it held plus what the guest held, capped at
  ninety-nine; no other cart changes, every line is counted, and no guest cart of the session
  stays active.
\<close>

theorem mergeGuestCart_adds:
  assumes "cart_inv w" and "guest_carts k w = [(g, items)]" and "items \<noteq> []"
    and "mergeGuestCart ci ii now k u w = (Inr n, w')"
  shows "n = length items \<and> guest_carts k w' = [] \<and>
    (\<exists>t. findActiveCart (ca_store g) (User u) w' = Some t \<and>
      (\<forall>c v. qty_in w' c v = (if c = t then min 99 (qty_in w t v + qty_in w (ca_id g) v)
                             else qty_in w c v)))"
proof -
  let ?s = "ca_store g"
  obtain t w1 w2 where w1: "getOrCreateCart (ci ?s) now ?s (User u) w = (Inr t, w1)"
    and w2: "merge_items ii t ?s items 0 w1 = (Inr n, w2)"
    and w': "w' = w2\<lparr>w_carts := update_where (\<lambda>c. ca_session c = Some k \<and> ca_status c = C_ACTIVE)
             (\<lambda>c. c\<lparr>ca_status := C_CONVERTED\<rparr>) (w_carts w2)\<rparr>"
    using assms(2-4) by (auto simp: mergeGuestCart_def split: sum.splits prod.splits)
  have inv1: "cart_inv w1" using getOrCreateCart_inv [OF w1 assms(1)] .
  have items: "items = items_of w (ca_id g)"
    using assms(2) by (auto simp: guest_carts_def map_eq_Cons_conv)
  have sum: "sum_where (\<lambda>i. ci_variant i = v) ci_qty items = qty_in w (ca_id g) v" for v
    by (simp add: items items_of_def sum_where_def qty_in_def conj_commute)
  have ok: "1 \<le> ci_qty i \<and> ci_qty i \<le> MAX_QTY_PER_LINE" if "i \<in> set items" for i
    using guest_items_ok [OF assms(1), of g items k i] assms(2) that by simp
  have eff: "w_carts w2 = w_carts w1 \<and> n = length items \<and>
      (\<forall>c v. qty_in w2 c v = (if c = t then min MAX_QTY_PER_LINE (qty_in w1 t v + qty_in w (ca_id g) v)
         else qty_in w1 c v))"
    using merge_items_effect [OF w2 _ ok] inv1 by (simp add: cart_inv_def sum)
  have q: "qty_in w' = qty_in w2" "qty_in w1 = qty_in w"
    using getOrCreateCart_items [OF w1] by (auto intro!: qty_in_cong simp: w')
  have "active_carts w' ?s (User u) = active_carts w2 ?s (User u)"
    using find_retired [of "w_carts w2" ?s u k] eff inv1
    by (simp add: active_carts_def w' cart_inv_def carts_inv_def)
  then have "findActiveCart ?s (User u) w' = Some t"
    using getOrCreateCart_found [OF w1] eff findActiveCart_cong [of w2 w1]
    by (simp add: findActiveCart_def)
  moreover have "guest_carts k w' = []"
    by (auto simp: guest_carts_def w' filter_empty_conv set_update_where)
  ultimately show ?thesis using eff q by (auto simp: MAX_QTY_PER_LINE_def)
qed

text \<open>
  The lines a shopper reads carry the live price of what the public can buy and nothing of
  what it cannot, but never say that too little is in stock: the catalogue is read with no
  store identity, and the row policy on stock levels then hides every level.
\<close>

theorem cart_never_warns_of_stock:
  assumes "line \<in> set (cv_lines (getCart s sh w))"
  shows "(\<forall>n. ln_problem line \<noteq> Some (InsufficientStock n)) \<and>
    ln_total line = (case loadPublicVariants w (ln_variant line) of
                     None \<Rightarrow> 0 | Some pv \<Rightarrow> pv_price pv * ln_qty line) \<and>
    (loadPublicVariants w (ln_variant line) = None \<longleftrightarrow>
       ln_problem line = Some (Unavailable ''This item is no longer for sale.''))"
  using assms
  by (auto simp: getCart_def Let_def cart_line_of_def loadPublicVariants_def describeProblem_def
      visible_level_def level_visible_def anonymous_def split: option.splits if_splits)

section \<open>A shop with carts\<close>

definition sample_store :: "store_status \<Rightarrow> store" where
  "sample_store st =
     \<lparr>s_id = ''s1'', s_name = ''Moreno Tea'', s_status = st, s_deleted = False,
      s_currency = ''USD'', s_owner = ''u1'', s_account = None, s_charges = False, s_payouts = False,
      s_details = False, s_requirements = [], s_disabled_reason = None, s_synced_at = None,
      s_approved_at = Some 0, s_legal = ''Moreno Tea LLC'', s_line1 = None, s_city = None,
      s_state = Some ''IL'', s_postal = None, s_theme = None, s_slug = ''tea'',
      s_timezone = ''America/Chicago''\<rparr>"

definition sample_shop :: world where
  "sample_shop =
     empty_world\<lparr>w_stores := [sample_store ACTIVE],
       w_variants := [\<lparr>va_id = ''v1'', va_store = ''s1'', va_product = ''p1'', va_name = ''Tea'',
         va_status = P_ACTIVE, va_product_deleted = False, va_price = 500, va_attrs = [],
         va_sku = None, va_barcode = None, va_default = True, va_active = True, va_deleted = False\<rparr>],
       w_movements := [\<lparr>mv_store = ''s1'', mv_variant = ''v1'', mv_type = RECEIVE, mv_qty = 2,
         mv_reason = None, mv_note = None, mv_order = None, mv_actor = Some ''u1''\<rparr>],
       w_levels := [''v1'' \<mapsto> \<lparr>sl_store = ''s1'', sl_on_hand = 2, sl_reserved = 0,
         sl_tracked = True, sl_reorder_point = None, sl_reorder_qty = None\<rparr>]\<rparr>"

lemma cart_inv_no_rows: "w_carts w = [] \<Longrightarrow> w_cart_items w = [] \<Longrightarrow> cart_inv w"
  by (simp add: cart_inv_def carts_inv_def items_inv_def)

lemma sample_shop_cart_inv: "cart_inv sample_shop"
  by (rule cart_inv_no_rows) (simp_all add: sample_shop_def empty_world_def)

lemma sample_shop_stock_inv: "stock_inv sample_shop"
  by (simp add: stock_inv_def sample_shop_def empty_world_def on_hand_def ledger_sum_def
      level_ok_def fits_int4_def)

definition sample_guest :: world where
  "sample_guest = snd (addItem ''g1'' ''i1'' 0 ''s1'' (Guest ''k'') ''v1'' (Whole 60) sample_shop)"

definition sample_both :: world where
  "sample_both = snd (addItem ''c1'' ''i2'' 0 ''s1'' (User ''u9'') ''v1'' (Whole 50) sample_guest)"

lemma sample_both_inv: "cart_inv sample_guest" "cart_inv sample_both"
proof -
  show guest: "cart_inv sample_guest"
    unfolding sample_guest_def by (rule addItem_inv [OF surjective_pairing sample_shop_cart_inv])
  show "cart_inv sample_both"
    unfolding sample_both_def by (rule addItem_inv [OF surjective_pairing guest])
qed

theorem addItem_correct_witness:
  "\<exists>view w' t. addItem ''g1'' ''i1'' 0 ''s1'' (Guest ''k'') ''v1'' (Whole 60) sample_shop =
      (Inr view, w') \<and> findActiveCart ''s1'' (Guest ''k'') w' = Some t \<and> qty_in w' t ''v1'' = 60"
proof -
  have "okE (fst (addItem ''g1'' ''i1'' 0 ''s1'' (Guest ''k'') ''v1'' (Whole 60) sample_shop))"
    by code_simp
  then obtain view w' where w': "addItem ''g1'' ''i1'' 0 ''s1'' (Guest ''k'') ''v1'' (Whole 60)
      sample_shop = (Inr view, w')"
    by (rule okE_fstE)
  moreover have "qty_in sample_shop t ''v1'' = 0" for t
    by (simp add: qty_in_def sample_shop_def empty_world_def)
  ultimately show ?thesis using addItem_correct [OF sample_shop_cart_inv w'] by auto
qed

theorem mergeGuestCart_adds_witness:
  "\<exists>n w' t. mergeGuestCart id (\<lambda>c v. c @ v) 0 ''k'' ''u9'' sample_both = (Inr n, w') \<and>
     findActiveCart ''s1'' (User ''u9'') w' = Some t \<and> qty_in w' t ''v1'' \<le> 99 \<and>
     guest_carts ''k'' w' = []"
proof -
  have ok: "okE (fst (mergeGuestCart id (\<lambda>c v. c @ v) 0 ''k'' ''u9'' sample_both))"
    and one: "length (guest_carts ''k'' sample_both) = 1"
      "\<forall>(g, items) \<in> set (guest_carts ''k'' sample_both). items \<noteq> [] \<and> ca_store g = ''s1''"
    by code_simp+
  obtain n w' where w': "mergeGuestCart id (\<lambda>c v. c @ v) 0 ''k'' ''u9'' sample_both = (Inr n, w')"
    using ok by (rule okE_fstE)
  obtain g items where g: "guest_carts ''k'' sample_both = [(g, items)]" "items \<noteq> []"
      "ca_store g = ''s1''"
    using one by (auto simp: length_Suc_conv)
  from mergeGuestCart_adds [OF sample_both_inv(2) g(1,2) w'] g(3) w' show ?thesis by auto
qed

theorem cart_never_warns_of_stock_witness:
  "\<exists>line \<in> set (cv_lines (getCart ''s1'' (Guest ''k'') sample_guest)).
     ln_qty line = 60 \<and> on_hand sample_guest ''v1'' = 2 \<and> tracked sample_guest ''v1'' \<and>
     ln_problem line \<noteq> Some (InsufficientStock 2)"
proof -
  have "case cv_lines (getCart ''s1'' (Guest ''k'') sample_guest) of
      line # _ \<Rightarrow> ln_qty line = 60 | _ \<Rightarrow> False"
    and stock: "on_hand sample_guest ''v1'' = 2" "tracked sample_guest ''v1''"
    by code_simp+
  then obtain line rest where line: "cv_lines (getCart ''s1'' (Guest ''k'') sample_guest) = line # rest"
      "ln_qty line = 60"
    by (auto split: list.splits)
  then show ?thesis
    using cart_never_warns_of_stock [of line "''s1''" "Guest ''k''" sample_guest] stock by auto
qed

end
