(* ===== verification/OrderTables.thy ===== *)
theory OrderTables
  imports Stock
begin

text \<open>
  The order tables of migration 10: the row constraints on orders, items and payments, the
  unique indexes, the transition trigger, and the invariant they keep.  Checkout, the till, the
  order screens and the payment code all write through these.
\<close>

section \<open>Orders\<close>

definition order_amounts :: "order \<Rightarrow> int list" where
  "order_amounts o1 =
     [o_subtotal o1, o_discount o1, o_tax o1, o_delivery_fee o1, o_tip o1, o_total o1]"

definition check_order :: "order \<Rightarrow> unit res" where
  "check_order o1 =
     (if \<not> list_all fits_int4 (order_amounts o1) then Inl (CheckViolation ''integer out of range'')
      else if o_total o1 \<noteq>
        o_subtotal o1 - o_discount o1 + o_tax o1 + o_delivery_fee o1 + o_tip o1
      then Inl (CheckViolation ''orders_total_consistent'')
      else if \<not> list_all (\<lambda>a. 0 \<le> a) (order_amounts o1)
      then Inl (CheckViolation ''orders_amounts_nonneg'')
      else if o_fulfillment o1 = FUL_DELIVERY \<and> o_address o1 = None
      then Inl (CheckViolation ''orders_delivery_has_address'')
      else Inr ())"

definition order_clash :: "order \<Rightarrow> order \<Rightarrow> bool" where
  "order_clash a b =
     (o_id a = o_id b \<or>
      (o_store a = o_store b \<and> o_number a = o_number b) \<or>
      (o_store a = o_store b \<and> o_idem a \<noteq> None \<and> o_idem a = o_idem b) \<or>
      (o_guest_token a \<noteq> None \<and> o_guest_token a = o_guest_token b))"

definition insert_order :: "order \<Rightarrow> world \<Rightarrow> world res" where
  "insert_order o1 w =
     bindE (check_order o1) (\<lambda>_.
       if \<exists>x \<in> set (w_orders w). order_clash o1 x then Inl (UniqueViolation ''orders'')
       else Inr (w\<lparr>w_orders := w_orders w @ [o1]\<rparr>))"

definition insert_order_item :: "order_item \<Rightarrow> world \<Rightarrow> world res" where
  "insert_order_item i w =
     (if \<not> oi_qty i > 0 then Inl (CheckViolation ''order_items_qty_positive'')
      else if oi_total i \<noteq> oi_unit i * oi_qty i then Inl (CheckViolation ''order_items_line_total'')
      else Inr (w\<lparr>w_items := w_items w @ [i]\<rparr>))"

definition insert_history :: "status_change \<Rightarrow> world \<Rightarrow> world" where
  "insert_history h w = w\<lparr>w_history := w_history w @ [h]\<rparr>"

text \<open>
  \<open>UPDATE orders SET status = ... WHERE id = ... AND store_id = ...\<close>: the trigger looks at every
  row it changes.
\<close>

definition set_status :: "order_status \<Rightarrow> order \<Rightarrow> order" where
  "set_status st o1 =
     o1\<lparr>o_status := st, o_expires_at := (if st = PENDING then o_expires_at o1 else None)\<rparr>"

definition update_status :: "string \<Rightarrow> string \<Rightarrow> order_status \<Rightarrow> world \<Rightarrow> world res" where
  "update_status storeId orderId st w =
     (let hit = (\<lambda>o1. o_id o1 = orderId \<and> o_store o1 = storeId) in
      if \<exists>o1 \<in> set (w_orders w). hit o1 \<and> \<not> check_order_transition (o_status o1) st
      then Inl (TriggerRaised ''invalid order transition'')
      else Inr (w\<lparr>w_orders := update_where hit (set_status st) (w_orders w)\<rparr>))"

definition find_order :: "string \<Rightarrow> string \<Rightarrow> world \<Rightarrow> order option" where
  "find_order storeId orderId w =
     find (\<lambda>o1. o_id o1 = orderId \<and> o_store o1 = storeId) (w_orders w)"

definition items_of_order :: "world \<Rightarrow> string \<Rightarrow> order_item list" where
  "items_of_order w orderId = filter (\<lambda>i. oi_order i = orderId) (w_items w)"

section \<open>Payments\<close>

definition insert_payment :: "payment \<Rightarrow> world \<Rightarrow> world res" where
  "insert_payment p w =
     (if \<not> fits_int4 (p_amount p) then Inl (CheckViolation ''integer out of range'')
      else if \<not> p_amount p \<ge> 0 then Inl (CheckViolation ''payments_amount_nonneg'')
      else if p_fee p \<noteq> 0 then Inl (CheckViolation ''payments_fee_zero'')
      else if \<exists>x \<in> set (w_payments w). p_id x = p_id p \<or> (p_intent p \<noteq> None \<and> p_intent x = p_intent p)
      then Inl (UniqueViolation ''payments'')
      else Inr (w\<lparr>w_payments := w_payments w @ [p]\<rparr>))"

definition payments_of :: "world \<Rightarrow> string \<Rightarrow> payment list" where
  "payments_of w orderId = filter (\<lambda>p. p_order p = orderId) (w_payments w)"

section \<open>Invariant\<close>

definition orders_ok :: "order list \<Rightarrow> bool" where
  "orders_ok rows =
     (distinct (map o_id rows) \<and> list_all (\<lambda>o1. okE (check_order o1)) rows \<and>
      (\<forall>a \<in> set rows. \<forall>b \<in> set rows. o_id a \<noteq> o_id b \<longrightarrow> \<not> order_clash a b))"

definition payments_ok :: "payment list \<Rightarrow> bool" where
  "payments_ok rows =
     (distinct (map p_id rows) \<and>
      (\<forall>p \<in> set rows. 0 \<le> p_amount p \<and> p_fee p = 0 \<and> fits_int4 (p_amount p)) \<and>
      (\<forall>p \<in> set rows. \<forall>q \<in> set rows.
         p_id p \<noteq> p_id q \<longrightarrow> p_intent p \<noteq> None \<longrightarrow> p_intent p \<noteq> p_intent q))"

definition items_ok :: "order_item list \<Rightarrow> bool" where
  "items_ok rows = (\<forall>i \<in> set rows. 0 < oi_qty i \<and> oi_total i = oi_unit i * oi_qty i)"

definition orders_inv :: "world \<Rightarrow> bool" where
  "orders_inv w = (orders_ok (w_orders w) \<and> payments_ok (w_payments w) \<and> items_ok (w_items w))"

lemma orders_inv_cong:
  "w_orders w = w_orders w' \<Longrightarrow> w_payments w = w_payments w' \<Longrightarrow> w_items w = w_items w' \<Longrightarrow>
   orders_inv w = orders_inv w'"
  by (simp add: orders_inv_def)

lemma orders_inv_effects [simp]:
  "orders_inv (emitIn ev w) = orders_inv w"
  "orders_inv (audit_record en w) = orders_inv w"
  "orders_inv (inc n ls w) = orders_inv w"
  "orders_inv (insert_history h w) = orders_inv w"
  by (rule orders_inv_cong; simp add: insert_history_def)+

lemma orders_inv_empty: "orders_inv empty_world"
  by (simp add: orders_inv_def orders_ok_def payments_ok_def items_ok_def empty_world_def)

lemma order_clash_sym: "order_clash a b \<Longrightarrow> order_clash b a"
  unfolding order_clash_def by metis

lemma order_clash_refl [simp]: "order_clash a a"
  by (simp add: order_clash_def)

lemma insert_order_Inr:
  "insert_order o1 w = Inr w' \<longleftrightarrow>
     okE (check_order o1) \<and> (\<forall>x \<in> set (w_orders w). \<not> order_clash o1 x) \<and>
     w' = w\<lparr>w_orders := w_orders w @ [o1]\<rparr>"
  by (auto simp: insert_order_def okE_iff split: if_splits)

lemma insert_order_inv:
  assumes "insert_order o1 w = Inr w'" and "orders_inv w"
  shows "orders_inv w'"
proof -
  have fresh: "\<forall>x \<in> set (w_orders w). \<not> order_clash o1 x" "okE (check_order o1)"
    and w': "w' = w\<lparr>w_orders := w_orders w @ [o1]\<rparr>"
    using assms(1) by (auto simp: insert_order_Inr)
  have "o_id o1 \<notin> o_id ` set (w_orders w)"
    using fresh(1) by (auto simp: order_clash_def)
  moreover have "\<not> order_clash x o1" if "x \<in> set (w_orders w)" for x
    using fresh(1) that order_clash_sym by blast
  ultimately show ?thesis
    using assms(2) fresh by (auto simp: w' orders_inv_def orders_ok_def)
qed

lemma insert_order_item_Inr:
  "insert_order_item i w = Inr w' \<longleftrightarrow>
     0 < oi_qty i \<and> oi_total i = oi_unit i * oi_qty i \<and> w' = w\<lparr>w_items := w_items w @ [i]\<rparr>"
  by (auto simp: insert_order_item_def)

lemma insert_order_item_inv: "insert_order_item i w = Inr w' \<Longrightarrow> orders_inv w \<Longrightarrow> orders_inv w'"
  by (auto simp: insert_order_item_def orders_inv_def items_ok_def split: if_splits)

lemma foldE_items_inv: "foldE insert_order_item is w = Inr w' \<Longrightarrow> orders_inv w \<Longrightarrow> orders_inv w'"
  by (rule foldE_inv [where P = orders_inv]) (auto intro: insert_order_item_inv)

lemma foldE_items_Inr:
  "foldE insert_order_item is w = Inr w' \<Longrightarrow> w' = w\<lparr>w_items := w_items w @ is\<rparr>"
proof (induction "is" arbitrary: w)
  case Nil
  then show ?case by simp
next
  case (Cons i "is")
  then obtain w1 where w1: "w1 = w\<lparr>w_items := w_items w @ [i]\<rparr>" "foldE insert_order_item is w1 = Inr w'"
    by (auto simp: insert_order_item_Inr)
  show ?case using Cons.IH [OF w1(2)] by (simp add: w1(1))
qed

lemma insert_payment_Inr:
  "insert_payment p w = Inr w' \<Longrightarrow> w' = w\<lparr>w_payments := w_payments w @ [p]\<rparr>"
  by (auto simp: insert_payment_def split: if_splits)

lemma insert_payment_inv: "insert_payment p w = Inr w' \<Longrightarrow> orders_inv w \<Longrightarrow> orders_inv w'"
  by (auto simp: insert_payment_def orders_inv_def payments_ok_def split: if_splits) metis+

lemma check_order_cong:
  "order_amounts a = order_amounts b \<Longrightarrow> o_fulfillment a = o_fulfillment b \<Longrightarrow>
   o_address a = o_address b \<Longrightarrow> check_order a = check_order b"
  by (simp add: check_order_def order_amounts_def)

text \<open>A change of status keeps every constraint of the row.\<close>

lemma orders_ok_update:
  assumes "orders_ok rows"
    and same: "\<And>o1. o_id (f o1) = o_id o1 \<and> o_store (f o1) = o_store o1 \<and> o_number (f o1) = o_number o1 \<and>
      o_idem (f o1) = o_idem o1 \<and> o_guest_token (f o1) = o_guest_token o1 \<and>
      check_order (f o1) = check_order o1"
  shows "orders_ok (update_where p f rows)"
proof -
  define g where "g o1 = (if p o1 then f o1 else o1)" for o1
  have g: "o_id (g a) = o_id a" "check_order (g a) = check_order a"
    "order_clash (g a) (g b) = order_clash a b" for a b
    by (simp_all add: order_clash_def same g_def)
  have "update_where p f rows = map g rows" by (simp add: update_where_def g_def)
  then show ?thesis
    using assms(1) by (auto simp: orders_ok_def list_all_iff g o_def)
qed

lemma update_status_Inr:
  "update_status s i st w = Inr w' \<Longrightarrow>
     w' = w\<lparr>w_orders := update_where (\<lambda>o1. o_id o1 = i \<and> o_store o1 = s)
       (set_status st) (w_orders w)\<rparr>"
  by (auto simp: update_status_def Let_def split: if_splits)

lemma update_status_inv: "update_status s i st w = Inr w' \<Longrightarrow> orders_inv w \<Longrightarrow> orders_inv w'"
  by (drule update_status_Inr)
    (simp add: orders_inv_def orders_ok_update check_order_def order_amounts_def set_status_def)

end
