(* ===== verification/Checkout.thy ===== *)
theory Checkout
  imports OrderTables Cart Tax Coupons
begin

text \<open>
  \<open>CheckoutService\<close> (\<open>modules/checkout/checkout.service.ts\<close>): pricing a cart, and turning it
  into an order in one transaction, safe to retry under a client key.  \<open>placeOrder\<close> looks the key
  up, reads the cart and runs its transaction one after the other, so those three steps are
  definitions of their own that other requests may come between.  The distance function, the
  clock and the random identifiers are parameters; \<open>haversineMeters\<close> is the code's distance over
  the reals.
\<close>

section \<open>Requests and answers\<close>

record quote_request =
  qr_fulfillment :: fulfillment
  qr_address :: "address option"
  qr_tip :: "js_number option"
  qr_coupon :: "string option"

record place_request = quote_request +
  qr_email :: "string option"
  qr_phone :: "string option"
  qr_note :: "string option"
  qr_key :: string

record order_line =
  ol_variant :: string
  ol_name :: string
  ol_attrs :: "(string \<times> string) list"
  ol_sku :: "string option"
  ol_unit :: int
  ol_qty :: int
  ol_total :: int

record quoted =
  qt_lines :: "(order_line \<times> int) list"
  qt_subtotal :: int
  qt_discount :: int
  qt_tax :: int
  qt_tax_description :: string
  qt_delivery :: int
  qt_tip :: int
  qt_total :: int
  qt_currency :: string
  qt_delivery_problem :: "string option"
  qt_eta :: "int option"
  qt_coupon_problem :: "coupon_problem option"
  qt_coupon_code :: "string option"

record order_summary =
  os_id :: string
  os_number :: string
  os_status :: order_status
  os_total :: int
  os_currency :: string
  os_token :: "string option"

text \<open>What the code draws at random for one order: its id, its claim token, the payment's id.\<close>

record fresh =
  fr_order :: string
  fr_token :: string
  fr_payment :: string

definition PENDING_TTL_MINUTES :: int where "PENDING_TTL_MINUTES = 30"

section \<open>Small helpers\<close>

definition normalizeTip :: "js_number option \<Rightarrow> int \<Rightarrow> int res" where
  "normalizeTip tipCents subtotalCents =
     (case tipCents of
        None \<Rightarrow> Inr 0
      | Some (NotWhole positive) \<Rightarrow>
          if \<not> positive then Inr 0
          else Inl (Validation ''Tip must be a whole number of cents.'')
      | Some (Whole n) \<Rightarrow>
          if n \<le> 0 then Inr 0
          else if n > max (subtotalCents * 2) 10000
          then Inl (Validation ''That tip looks like a mistake - please check it.'')
          else Inr n)"

definition is_letter :: "char \<Rightarrow> bool" where
  "is_letter c =
     ((65 \<le> (of_char c :: nat) \<and> (of_char c :: nat) \<le> 90) \<or>
      (97 \<le> (of_char c :: nat) \<and> (of_char c :: nat) \<le> 122))"

definition storePrefix :: "string \<Rightarrow> string" where
  "storePrefix name =
     (let three = take 3 (map upper_char (filter is_letter name));
          base = (if three = [] then ''ORD'' else three)
      in base @ replicate (3 - length base) (CHR ''X''))"

text \<open>The upsert on \<open>store_counters\<close>: a fresh counter starts at 1000.\<close>

definition nextOrderNumber :: "string \<Rightarrow> string \<Rightarrow> world \<Rightarrow> string \<times> world" where
  "nextOrderNumber storeId storeName w =
     (let n = (case w_counters w storeId of None \<Rightarrow> 1000 | Some k \<Rightarrow> k + 1)
      in (storePrefix storeName @ ''-'' @ show_int n,
          w\<lparr>w_counters := (w_counters w)(storeId \<mapsto> n)\<rparr>))"

definition haversineMeters :: "real \<Rightarrow> real \<Rightarrow> real \<Rightarrow> real \<Rightarrow> real" where
  "haversineMeters lat1 lng1 lat2 lng2 =
     (let toRad = (\<lambda>d. d * pi / 180);
          dLat = toRad (lat2 - lat1);
          dLng = toRad (lng2 - lng1);
          a = sin (dLat / 2) ^ 2 + cos (toRad lat1) * cos (toRad lat2) * sin (dLng / 2) ^ 2
      in 2 * 6371000 * arcsin (sqrt a))"

record delivery_quote =
  dq_fee :: int
  dq_eta :: "int option"
  dq_problem :: "string option"

definition no_delivery :: "string \<Rightarrow> delivery_quote" where
  "no_delivery msg = \<lparr>dq_fee = 0, dq_eta = None, dq_problem = Some msg\<rparr>"

type_synonym distance = "real \<Rightarrow> real \<Rightarrow> real \<Rightarrow> real \<Rightarrow> real"

text \<open>Among the zones that cover the address the cheapest whose minimum is met.\<close>

definition quoteDelivery ::
    "distance \<Rightarrow> string \<Rightarrow> 'a quote_request_scheme \<Rightarrow> order_line list \<Rightarrow> world \<Rightarrow>
     delivery_quote" where
  "quoteDelivery metres storeId request lines w =
     (if qr_fulfillment request \<noteq> FUL_DELIVERY
      then \<lparr>dq_fee = 0, dq_eta = None, dq_problem = None\<rparr>
      else case qr_address request of
        None \<Rightarrow> no_delivery ''A delivery address is required.''
      | Some address \<Rightarrow>
          (case (ad_lat address, ad_lng address) of
             (Some lat, Some lng) \<Rightarrow>
               (let zones = filter (\<lambda>z. z_store z = storeId \<and> z_active z) (w_zones w);
                    subtotal = sum_list (map ol_total lines);
                    covering = sort_key z_fee
                      (filter (\<lambda>z. metres lat lng (z_lat z) (z_lng z) \<le> of_int (z_radius z)) zones)
                in if zones = [] then no_delivery ''This store doesn't offer delivery.''
                   else case covering of
                     [] \<Rightarrow> no_delivery ''That address is outside this store's delivery area.''
                   | cheapest # _ \<Rightarrow>
                       (case find (\<lambda>z. subtotal \<ge> z_min_order z) covering of
                          Some z \<Rightarrow> \<lparr>dq_fee = z_fee z, dq_eta = Some (z_eta z), dq_problem = None\<rparr>
                        | None \<Rightarrow> no_delivery
                            (''Delivery to that address needs a minimum order of $'' @
                             money_fixed (z_min_order cheapest) @ '' - you're $'' @
                             money_fixed (z_min_order cheapest - subtotal) @ '' short.'')))
           | _ \<Rightarrow> no_delivery
               ''We couldn't locate that address. Choose pickup, or contact the store.''))"

definition requireLiveStore :: "string \<Rightarrow> world \<Rightarrow> store res" where
  "requireLiveStore storeId w =
     (case find (\<lambda>s. s_id s = storeId \<and> s_status s = ACTIVE \<and> \<not> s_deleted s) (w_stores w) of
        None \<Rightarrow> notFound
      | Some s \<Rightarrow> Inr s)"

definition requireCartId :: "string \<Rightarrow> shopper \<Rightarrow> world \<Rightarrow> string res" where
  "requireCartId storeId shopper w =
     (case findActiveCart storeId shopper w of
        None \<Rightarrow> Inl (Validation ''Your cart is empty.'')
      | Some c \<Rightarrow> Inr c)"

fun shopper_user :: "shopper \<Rightarrow> string option" where
  "shopper_user (User u) = Some u"
| "shopper_user (Guest _) = None"

definition summary_of :: "order \<Rightarrow> order_summary" where
  "summary_of o1 =
     \<lparr>os_id = o_id o1, os_number = o_number o1, os_status = o_status o1, os_total = o_total o1,
      os_currency = o_currency o1, os_token = o_guest_token o1\<rparr>"

text \<open>The lookup is by store and key, whoever asks.\<close>

definition findByIdempotencyKey :: "string \<Rightarrow> string \<Rightarrow> world \<Rightarrow> order_summary option" where
  "findByIdempotencyKey storeId key w =
     map_option summary_of
       (find (\<lambda>o1. o_store o1 = storeId \<and> o_idem o1 = Some key) (w_orders w))"

definition tax_request_of ::
    "store \<Rightarrow> 'a quote_request_scheme \<Rightarrow> order_line list \<Rightarrow> int \<Rightarrow> tax_request" where
  "tax_request_of store request lines deliveryFee =
     \<lparr>tq_store = s_id store,
      tq_lines = map (\<lambda>l. \<lparr>tl_variant = ol_variant l, tl_price = ol_unit l, tl_qty = ol_qty l\<rparr>) lines,
      tq_state = (case (qr_fulfillment request, qr_address request) of
                    (FUL_DELIVERY, Some a) \<Rightarrow> Some (ad_state a) | _ \<Rightarrow> s_state store),
      tq_postal = (case (qr_fulfillment request, qr_address request) of
                    (FUL_DELIVERY, Some a) \<Rightarrow> Some (ad_postal a) | _ \<Rightarrow> s_postal store),
      tq_delivery = deliveryFee\<rparr>"

section \<open>Quoting\<close>

definition order_line_of :: "variant \<Rightarrow> int \<Rightarrow> order_line" where
  "order_line_of v qty =
     \<lparr>ol_variant = va_id v, ol_name = va_name v, ol_attrs = va_attrs v, ol_sku = va_sku v,
      ol_unit = va_price v, ol_qty = qty, ol_total = va_price v * qty\<rparr>"

definition priceLines :: "string \<Rightarrow> shopper \<Rightarrow> world \<Rightarrow> order_line list" where
  "priceLines storeId shopper w =
     (case findActiveCart storeId shopper w of
        None \<Rightarrow> []
      | Some cartId \<Rightarrow>
          concat (map (\<lambda>i.
            case find (\<lambda>v. va_id v = ci_variant i \<and> va_active v \<and> \<not> va_deleted v \<and>
                           variant_visible anonymous w v) (w_variants w) of
              None \<Rightarrow> [] | Some v \<Rightarrow> [order_line_of v (ci_qty i)]) (items_of w cartId)))"

definition quote_checkout ::
    "distance \<Rightarrow> int \<Rightarrow> string \<Rightarrow> shopper \<Rightarrow> 'a quote_request_scheme \<Rightarrow> world \<Rightarrow> quoted res" where
  "quote_checkout metres now storeId shopper request w =
     bindE (requireLiveStore storeId w) (\<lambda>store.
       let lines = priceLines storeId shopper w in
       if lines = [] then Inl (Validation ''Your cart is empty.'')
       else
         let delivery = quoteDelivery metres storeId request lines w;
             subtotalCents = sum_list (map ol_total lines)
         in bindE (normalizeTip (qr_tip request) subtotalCents) (\<lambda>tipCents.
              let coupon = (case qr_coupon request of
                              None \<Rightarrow> None
                            | Some code \<Rightarrow>
                                if code = [] then None
                                else Some (coupon_quote now storeId code subtotalCents
                                             (shopper_user shopper) w));
                  discountCents = (case coupon of Some (Inr q) \<Rightarrow> cq_discount q | _ \<Rightarrow> 0);
                  tax = tax_quote w (tax_request_of store request lines (dq_fee delivery))
              in Inr \<lparr>qt_lines = zip lines (tx_lines tax), qt_subtotal = subtotalCents,
                      qt_discount = discountCents, qt_tax = tx_total tax,
                      qt_tax_description = tx_description tax, qt_delivery = dq_fee delivery,
                      qt_tip = tipCents,
                      qt_total = subtotalCents - discountCents + tx_total tax +
                                 dq_fee delivery + tipCents,
                      qt_currency = s_currency store, qt_delivery_problem = dq_problem delivery,
                      qt_eta = dq_eta delivery,
                      qt_coupon_problem = (case coupon of Some (Inl p) \<Rightarrow> Some p | _ \<Rightarrow> None),
                      qt_coupon_code =
                        (case coupon of Some (Inr q) \<Rightarrow> Some (cq_code q) | _ \<Rightarrow> None)\<rparr>))"

section \<open>The order transaction\<close>

text \<open>Inside the transaction the store's own rows are visible.\<close>

definition in_store :: "string \<Rightarrow> tenant" where
  "in_store storeId = \<lparr>t_store = Some storeId, t_super = False\<rparr>"

text \<open>Step 1, the cart joined to the live catalogue.\<close>

definition cart_join :: "string \<Rightarrow> string \<Rightarrow> world \<Rightarrow> (cart_item \<times> variant) list" where
  "cart_join storeId cartId w =
     concat (map (\<lambda>i. case find (\<lambda>v. va_id v = ci_variant i \<and>
                                      variant_visible (in_store storeId) w v) (w_variants w) of
                        None \<Rightarrow> [] | Some v \<Rightarrow> [(i, v)]) (items_of w cartId))"

definition for_sale :: "variant \<Rightarrow> bool" where
  "for_sale v = (va_status v = P_ACTIVE \<and> va_active v \<and> \<not> va_deleted v)"

definition check_for_sale :: "(cart_item \<times> variant) list \<Rightarrow> unit res" where
  "check_for_sale items =
     (case find (\<lambda>(i, v). \<not> for_sale v) items of
        None \<Rightarrow> Inr ()
      | Some (i, v) \<Rightarrow> Inl (Validation
          (''\"'' @ va_name v @ ''\" is no longer for sale. Remove it to continue.'')))"

text \<open>Step 2, one row lock, check and reservation per line.\<close>

definition reserve_line :: "string \<Rightarrow> cart_item \<times> variant \<Rightarrow> world \<Rightarrow> world res" where
  "reserve_line storeId item w =
     (case item of (i, v) \<Rightarrow>
        (case visible_level (in_store storeId) w (va_id v) of
           None \<Rightarrow> Inr w
         | Some level \<Rightarrow>
             if \<not> sl_tracked level then Inr w
             else
               let available = sl_on_hand level - sl_reserved level in
               if available < ci_qty i
               then Inl (Validation
                 (if available \<le> 0 then ''\"'' @ va_name v @ ''\" just sold out.''
                  else ''Only '' @ show_int available @ '' of \"'' @ va_name v @ ''\" left.''))
               else update_level (va_id v)
                      (\<lambda>l. l\<lparr>sl_reserved := sl_reserved l + ci_qty i\<rparr>) w))"

text \<open>Steps 5 and 6, the rows of the order.\<close>

definition new_items :: "string \<Rightarrow> string \<Rightarrow> order_line list \<Rightarrow> int list \<Rightarrow> order_item list" where
  "new_items orderId storeId lines taxes =
     map (\<lambda>(l, t). \<lparr>oi_order = orderId, oi_store = storeId, oi_variant = Some (ol_variant l),
            oi_name = ol_name l, oi_attrs = ol_attrs l, oi_sku = ol_sku l, oi_unit = ol_unit l,
            oi_qty = ol_qty l, oi_total = ol_total l, oi_tax = t\<rparr>)
       (zip lines (taxes @ replicate (length lines - length taxes) 0))"

definition price_coupon ::
    "int \<Rightarrow> string \<Rightarrow> string option \<Rightarrow> int \<Rightarrow> string option \<Rightarrow> world \<Rightarrow> coupon_quote option res" where
  "price_coupon now storeId code subtotalCents userId w =
     (case code of
        None \<Rightarrow> Inr None
      | Some c \<Rightarrow>
          if c = [] then Inr None
          else case coupon_quote now storeId c subtotalCents userId w of
            Inl p \<Rightarrow> Inl (Validation (problem_message p))
          | Inr q \<Rightarrow> Inr (Some q))"

definition convert_cart :: "string \<Rightarrow> world \<Rightarrow> world" where
  "convert_cart cartId w =
     w\<lparr>w_carts := update_where (\<lambda>c. ca_id c = cartId) (\<lambda>c. c\<lparr>ca_status := C_CONVERTED\<rparr>) (w_carts w)\<rparr>"

text \<open>The order row, from what the steps before computed.\<close>

definition new_order ::
    "int \<Rightarrow> fresh \<Rightarrow> shopper \<Rightarrow> place_request \<Rightarrow> store \<Rightarrow> string \<Rightarrow> int \<Rightarrow> int \<Rightarrow> coupon_quote option \<Rightarrow>
     int \<Rightarrow> int \<Rightarrow> order" where
  "new_order now fresh shopper request store number subtotalCents tipCents coupon taxCents feeCents =
     (let discountCents = (case coupon of None \<Rightarrow> 0 | Some q \<Rightarrow> cq_discount q)
      in \<lparr>o_id = fr_order fresh, o_store = s_id store, o_number = number,
          o_customer = shopper_user shopper, o_channel = ONLINE,
          o_fulfillment = qr_fulfillment request, o_status = PENDING, o_subtotal = subtotalCents,
          o_discount = discountCents, o_tax = taxCents, o_delivery_fee = feeCents,
          o_tip = tipCents,
          o_total = subtotalCents - discountCents + taxCents + feeCents + tipCents,
          o_currency = s_currency store, o_address = qr_address request,
          o_note = qr_note request, o_email = qr_email request, o_phone = qr_phone request,
          o_guest_token = (case shopper of Guest _ \<Rightarrow> Some (fr_token fresh) | User _ \<Rightarrow> None),
          o_idem = Some (qr_key request), o_coupon = map_option cq_coupon coupon,
          o_coupon_code = map_option cq_code coupon, o_placed_at = now,
          o_expires_at = Some (now + PENDING_TTL_MINUTES * 60000)\<rparr>)"

text \<open>Writing the order: rows, history, payment, cart, coupon and event, in the code's order.\<close>

definition placed_entry :: "order \<Rightarrow> status_change" where
  "placed_entry o1 =
     \<lparr>h_order = o_id o1, h_store = o_store o1, h_from = None, h_to = PENDING,
      h_actor = o_customer o1, h_note = Some ''Order placed''\<rparr>"

definition first_payment :: "fresh \<Rightarrow> order \<Rightarrow> payment" where
  "first_payment fresh o1 =
     \<lparr>p_id = fr_payment fresh, p_store = o_store o1, p_order = o_id o1, p_provider = CASH,
      p_intent = None, p_amount = o_total o1, p_fee = 0, p_status = PAY_PROCESSING,
      p_cash_by = None, p_cash_at = None, p_failure = None\<rparr>"

definition redemption_of :: "order \<Rightarrow> coupon_quote \<Rightarrow> redemption" where
  "redemption_of o1 q =
     \<lparr>rd_coupon = cq_coupon q, rd_store = o_store o1, rd_order = o_id o1,
      rd_user = o_customer o1, rd_amount = cq_discount q\<rparr>"

definition created_event :: "order \<Rightarrow> outbox_event" where
  "created_event o1 = event ''order.created'' (o_store o1) (o_id o1)
     [(''orderId'', o_id o1), (''orderNumber'', o_number o1), (''status'', ''PENDING'')]"

definition write_order ::
    "fresh \<Rightarrow> order \<Rightarrow> order_line list \<Rightarrow> int list \<Rightarrow> string \<Rightarrow> coupon_quote option \<Rightarrow> world \<Rightarrow>
     world res" where
  "write_order fresh o1 lines taxes cartId coupon w =
     bindE (insert_order o1 w) (\<lambda>w1.
     bindE (foldE insert_order_item (new_items (o_id o1) (o_store o1) lines taxes) w1) (\<lambda>w2.
     bindE (insert_payment (first_payment fresh o1) (insert_history (placed_entry o1) w2)) (\<lambda>w3.
     let w4 = convert_cart cartId w3 in
     bindE (case coupon of None \<Rightarrow> Inr w4 | Some q \<Rightarrow> redeemIn (redemption_of o1 q) w4) (\<lambda>w5.
     Inr (emitIn (created_event o1) w5)))))"

definition createOrder ::
    "distance \<Rightarrow> int \<Rightarrow> fresh \<Rightarrow> shopper \<Rightarrow> place_request \<Rightarrow> string \<Rightarrow> store \<Rightarrow> world \<Rightarrow>
     (order_summary \<times> world) res" where
  "createOrder metres now fresh shopper request cartId store w =
     (let storeId = s_id store; items = cart_join storeId cartId w in
      bindE (guardE (items \<noteq> []) (Validation ''Your cart is empty.'')) (\<lambda>_.
      bindE (check_for_sale items) (\<lambda>_.
      bindE (foldE (reserve_line storeId) items w) (\<lambda>w1.
      let lines = map (\<lambda>(i, v). order_line_of v (ci_qty i)) items;
          delivery = quoteDelivery metres storeId request lines w1 in
      bindE (guardE (\<not> (qr_fulfillment request = FUL_DELIVERY \<and> dq_problem delivery \<noteq> None))
               (Validation (the (dq_problem delivery)))) (\<lambda>_.
      let subtotalCents = sum_list (map ol_total lines) in
      bindE (normalizeTip (qr_tip request) subtotalCents) (\<lambda>tipCents.
      bindE (price_coupon now storeId (qr_coupon request) subtotalCents (shopper_user shopper) w1)
        (\<lambda>coupon.
      let tax = tax_quote w1 (tax_request_of store request lines (dq_fee delivery)) in
      (case nextOrderNumber storeId (s_name store) w1 of (number, w2) \<Rightarrow>
        let o1 = new_order now fresh shopper request store number subtotalCents tipCents coupon
                   (tx_total tax) (dq_fee delivery)
        in bindE (write_order fresh o1 lines (tx_lines tax) cartId coupon w2) (\<lambda>w3.
             Inr (summary_of o1, w3))))))))))"

section \<open>Placing an order\<close>

text \<open>\<open>classifyCheckoutFailure\<close> of \<open>infra/observability/checkout-metrics.ts\<close>\<close>

definition classifyCheckoutFailure :: "app_error \<Rightarrow> string \<times> string" where
  "classifyCheckoutFailure e =
     (case error_code e of
        Some code \<Rightarrow> (if error_status e \<ge> 500 then ''error'' else ''rejected'', code)
      | None \<Rightarrow> (''error'', ''UNEXPECTED''))"

fun fulfillment_label :: "fulfillment \<Rightarrow> string" where
  "fulfillment_label FUL_PICKUP = ''PICKUP''"
| "fulfillment_label FUL_DELIVERY = ''DELIVERY''"

definition attempts :: "fulfillment \<Rightarrow> world \<Rightarrow> world" where
  "attempts f = inc ''checkout_attempts_total'' [fulfillment_label f]"

definition completions :: "fulfillment \<Rightarrow> world \<Rightarrow> world" where
  "completions f = inc ''checkout_completions_total'' [fulfillment_label f]"

definition failures :: "fulfillment \<Rightarrow> app_error \<Rightarrow> world \<Rightarrow> world" where
  "failures f e = (case classifyCheckoutFailure e of (kind, reason) \<Rightarrow>
     inc ''checkout_failures_total'' [fulfillment_label f, kind, reason])"

definition replays :: "fulfillment \<Rightarrow> world \<Rightarrow> world" where
  "replays f = inc ''checkout_replays_total'' [fulfillment_label f]"

text \<open>The cart is read in a transaction of its own, before the order's.\<close>

definition place_cart :: "string \<Rightarrow> shopper \<Rightarrow> place_request \<Rightarrow> world \<Rightarrow> string res" where
  "place_cart storeId shopper request w =
     (if qr_fulfillment request = FUL_DELIVERY \<and> qr_address request = None
      then Inl (Validation ''A delivery address is required.'')
      else requireCartId storeId shopper w)"

text \<open>The order transaction and the \<open>catch\<close> around it.\<close>

definition place_finish ::
    "distance \<Rightarrow> int \<Rightarrow> fresh \<Rightarrow> shopper \<Rightarrow> place_request \<Rightarrow> store \<Rightarrow> string res \<Rightarrow> world \<Rightarrow>
     order_summary outcome" where
  "place_finish metres now fresh shopper request store cartId w =
     (let f = qr_fulfillment request in
      case bindE cartId (\<lambda>c. createOrder metres now fresh shopper request c store w) of
        Inr (summary, w1) \<Rightarrow> (Inr summary, completions f w1)
      | Inl e \<Rightarrow>
          (case (if isUniqueViolation e
                 then findByIdempotencyKey (s_id store) (qr_key request) w else None) of
             Some created \<Rightarrow> (Inr created, completions f w)
           | None \<Rightarrow> (Inl e, failures f e w)))"

definition placeOrder ::
    "distance \<Rightarrow> int \<Rightarrow> fresh \<Rightarrow> string \<Rightarrow> shopper \<Rightarrow> place_request \<Rightarrow> world \<Rightarrow>
     order_summary outcome" where
  "placeOrder metres now fresh storeId shopper request w =
     (case requireLiveStore storeId w of
        Inl e \<Rightarrow> (Inl e, w)
      | Inr store \<Rightarrow>
          (case findByIdempotencyKey storeId (qr_key request) w of
             Some existing \<Rightarrow> (Inr existing, replays (qr_fulfillment request) w)
           | None \<Rightarrow>
               let w1 = attempts (qr_fulfillment request) w
               in place_finish metres now fresh shopper request store
                    (place_cart storeId shopper request w1) w1))"

end
