(* ===== verification/CheckoutFacts.thy ===== *)
theory CheckoutFacts
  imports Checkout CountSessions
begin

text \<open>
  What \<open>Checkout\<close> guarantees: what a reservation changes, what an order that went through
  consists of, that one that did not leaves nothing behind, and what a retry under the same key
  gets.
\<close>

section \<open>Reservations\<close>

text \<open>Whether this store counts the variant: a level row it can see, with tracking on.\<close>

definition counted :: "string \<Rightarrow> world \<Rightarrow> string \<Rightarrow> bool" where
  "counted s w v = (case visible_level (in_store s) w v of None \<Rightarrow> False | Some l \<Rightarrow> sl_tracked l)"

definition wanted :: "(cart_item \<times> variant) list \<Rightarrow> string \<Rightarrow> int" where
  "wanted items u = sum_where (\<lambda>(i, v). va_id v = u) (\<lambda>(i, v). ci_qty i) items"

lemma wanted_simps [simp]:
  "wanted [] u = 0"
  "wanted ((i, v) # items) u = (if va_id v = u then ci_qty i else 0) + wanted items u"
  by (simp_all add: wanted_def)

lemma visible_in_store: "visible_level (in_store s) w v = Some l \<longleftrightarrow> w_levels w v = Some l \<and> sl_store l = s"
  by (auto simp: visible_level_def level_visible_def in_store_def split: option.splits if_splits)

lemma reserve_line_cases:
  assumes "reserve_line s (i, v) w = Inr w'"
  obtains (skip) "\<not> counted s w (va_id v)" and "w' = w"
  | (hold) l where "w_levels w (va_id v) = Some l" and "counted s w (va_id v)"
      and "ci_qty i \<le> sl_on_hand l - sl_reserved l"
      and "level_ok (l\<lparr>sl_reserved := sl_reserved l + ci_qty i\<rparr>)"
      and "w' = w\<lparr>w_levels := (w_levels w)(va_id v \<mapsto> l\<lparr>sl_reserved := sl_reserved l + ci_qty i\<rparr>)\<rparr>"
proof (cases "visible_level (in_store s) w (va_id v)")
  case None
  then show ?thesis using assms by (intro skip) (auto simp: reserve_line_def counted_def)
next
  case (Some l)
  then have l: "w_levels w (va_id v) = Some l" by (simp add: visible_in_store)
  show ?thesis
  proof (cases "sl_tracked l")
    case False
    then show ?thesis using assms Some by (intro skip) (auto simp: reserve_line_def counted_def)
  next
    case True
    then show ?thesis
      using assms Some l by (intro hold [of l])
        (auto simp: reserve_line_def counted_def Let_def update_level_Inr split: if_splits)
  qed
qed

lemma counted_upd:
  "w_levels w v = Some l \<Longrightarrow>
     counted s (w\<lparr>w_levels := (w_levels w)(v \<mapsto> l\<lparr>sl_reserved := k\<rparr>)\<rparr>) = counted s w"
  by (auto simp: counted_def visible_level_def level_visible_def fun_eq_iff)

lemma reserve_line_effect:
  assumes "reserve_line s (i, v) w = Inr w'"
  shows "off_stock w' = off_stock w \<and> w_movements w' = w_movements w \<and> counted s w' = counted s w \<and>
    on_hand w' = on_hand w \<and>
    (\<forall>u. reserved w' u = reserved w u + (if u = va_id v \<and> counted s w u then ci_qty i else 0))"
  using assms
proof (cases rule: reserve_line_cases)
  case (hold l)
  then show ?thesis
    by (simp add: counted_upd) (auto simp: off_stock_def on_hand_def reserved_def fun_eq_iff)
qed auto

lemma reserve_line_inv: "reserve_line s item w = Inr w' \<Longrightarrow> stock_inv w \<Longrightarrow> stock_inv w'"
proof (cases item)
  case (Pair i v)
  assume "reserve_line s item w = Inr w'" and inv: "stock_inv w"
  then have "reserve_line s (i, v) w = Inr w'" by (simp add: Pair)
  then show ?thesis
  proof (cases rule: reserve_line_cases)
    case (hold l)
    have "put_level (va_id v) (l\<lparr>sl_reserved := sl_reserved l + ci_qty i\<rparr>) w = Inr w'"
      using hold(4,5) by (simp add: put_level_Inr)
    then show ?thesis
      by (rule stock_inv_put_level) (use hold inv in \<open>simp_all add: on_hand_def\<close>)
  qed (use inv in simp)
qed

text \<open>
  Checkout, confirmation, returns and the till all walk over lines, and each line of a variant
  the store counts moves its level by a fixed amount.  The locale sums such steps up.
\<close>

locale stock_lines =
  fixes s :: string
    and step :: "'l \<Rightarrow> world \<Rightarrow> world res"
    and dh :: "'l \<Rightarrow> string \<Rightarrow> int"
    and dr :: "'l \<Rightarrow> string \<Rightarrow> int"
  assumes step_effect: "step x w = Inr w' \<Longrightarrow>
      off_stock w' = off_stock w \<and> counted s w' = counted s w \<and>
      (\<forall>u. on_hand w' u = on_hand w u + (if counted s w u then dh x u else 0) \<and>
           reserved w' u = reserved w u + (if counted s w u then dr x u else 0))"
    and step_inv: "step x w = Inr w' \<Longrightarrow> stock_inv w \<Longrightarrow> stock_inv w'"
begin

lemma fold_effect:
  assumes "foldE step xs w = Inr w'"
  shows "off_stock w' = off_stock w \<and> counted s w' = counted s w \<and>
    (\<forall>u. on_hand w' u = on_hand w u + (if counted s w u then sum_list (map (\<lambda>x. dh x u) xs) else 0) \<and>
         reserved w' u = reserved w u + (if counted s w u then sum_list (map (\<lambda>x. dr x u) xs) else 0))"
  using assms
proof (induction xs arbitrary: w)
  case Nil
  then show ?case by simp
next
  case (Cons x xs)
  then obtain w1 where w1: "step x w = Inr w1" "foldE step xs w1 = Inr w'" by auto
  show ?case using step_effect [OF w1(1)] Cons.IH [OF w1(2)] by simp
qed

lemma fold_inv: "foldE step xs w = Inr w' \<Longrightarrow> stock_inv w \<Longrightarrow> stock_inv w'"
  by (rule foldE_inv [where P = stock_inv]) (auto intro: step_inv)

lemma fold_keeps: "foldE step xs w = Inr w' \<Longrightarrow> off_stock w' = off_stock w"
  using fold_effect by blast

end

interpretation reserving: stock_lines s "reserve_line s" "\<lambda>_ _. 0"
  "\<lambda>(i, v) u. if va_id v = u then ci_qty i else 0" for s
proof
  fix x w w' assume step: "reserve_line s x w = Inr w'"
  obtain i v where x: "x = (i, v)" by (cases x)
  show "off_stock w' = off_stock w \<and> counted s w' = counted s w \<and>
      (\<forall>u. on_hand w' u = on_hand w u + (if counted s w u then 0 else 0) \<and>
        reserved w' u = reserved w u +
          (if counted s w u then (case x of (i, v) \<Rightarrow> \<lambda>u. if va_id v = u then ci_qty i else 0) u else 0))"
    using reserve_line_effect [of s i v w w'] step by (auto simp: x)
qed (rule reserve_line_inv)

lemma wanted_sum:
  "sum_list (map (\<lambda>x. (case x of (i, v) \<Rightarrow> \<lambda>u. if va_id v = u then ci_qty i else 0) u) items) =
   wanted items u"
  by (induction items) auto

lemma foldE_reserve_movements:
  "foldE (reserve_line s) items w = Inr w' \<Longrightarrow> w_movements w' = w_movements w"
proof (rule foldE_field [where f = "reserve_line s"])
  fix x :: "cart_item \<times> variant" and v v'
  assume "reserve_line s x v = Inr v'"
  then show "w_movements v' = w_movements v"
    using reserve_line_effect [of s "fst x" "snd x" v v'] by simp
qed

lemma foldE_reserve_effect:
  assumes "foldE (reserve_line s) items w = Inr w'"
  shows "off_stock w' = off_stock w \<and> w_movements w' = w_movements w \<and> counted s w' = counted s w \<and>
    on_hand w' = on_hand w \<and>
    (\<forall>u. reserved w' u = reserved w u + (if counted s w u then wanted items u else 0))"
  using reserving.fold_effect [OF assms] foldE_reserve_movements [OF assms]
  by (auto simp: wanted_sum fun_eq_iff)

lemmas foldE_reserve_inv = reserving.fold_inv

section \<open>The rows of an order\<close>

lemma write_order_steps:
  assumes "write_order fresh o1 lines taxes cartId coupon w = Inr w'"
  obtains w1 w2 w3 w5 where "insert_order o1 w = Inr w1"
    and "foldE insert_order_item (new_items (o_id o1) (o_store o1) lines taxes) w1 = Inr w2"
    and "insert_payment (first_payment fresh o1) (insert_history (placed_entry o1) w2) = Inr w3"
    and "(case coupon of None \<Rightarrow> Inr (convert_cart cartId w3)
          | Some q \<Rightarrow> redeemIn (redemption_of o1 q) (convert_cart cartId w3)) = Inr w5"
    and "w' = emitIn (created_event o1) w5"
  using assms by (auto simp: write_order_def Let_def)

lemma write_order_Inr:
  assumes "write_order fresh o1 lines taxes cartId coupon w = Inr w'"
  shows "okE (check_order o1) \<and> (\<forall>x \<in> set (w_orders w). \<not> order_clash o1 x) \<and>
    w_orders w' = w_orders w @ [o1] \<and>
    w_items w' = w_items w @ new_items (o_id o1) (o_store o1) lines taxes \<and>
    w_payments w' = w_payments w @ [first_payment fresh o1] \<and>
    w_redemptions w' = w_redemptions w @
      (case coupon of None \<Rightarrow> [] | Some q \<Rightarrow> [redemption_of o1 q]) \<and>
    w_carts w' = w_carts (convert_cart cartId w) \<and> w_cart_items w' = w_cart_items w \<and>
    w_levels w' = w_levels w \<and> w_movements w' = w_movements w \<and> w_coupons w' = w_coupons w \<and>
    w_counters w' = w_counters w \<and> w_metrics w' = w_metrics w \<and> w_sessions w' = w_sessions w \<and>
    w_lines w' = w_lines w \<and> w_rates w' = w_rates w \<and>
    (\<forall>q. coupon = Some q \<longrightarrow> 0 < cq_discount q)"
  using assms
proof (rule write_order_steps)
  fix w1 w2 w3 w5
  assume w1: "insert_order o1 w = Inr w1"
    and w2: "foldE insert_order_item (new_items (o_id o1) (o_store o1) lines taxes) w1 = Inr w2"
    and w3: "insert_payment (first_payment fresh o1) (insert_history (placed_entry o1) w2) = Inr w3"
    and w5: "(case coupon of None \<Rightarrow> Inr (convert_cart cartId w3)
          | Some q \<Rightarrow> redeemIn (redemption_of o1 q) (convert_cart cartId w3)) = Inr w5"
    and w': "w' = emitIn (created_event o1) w5"
  have "w3 = w\<lparr>w_orders := w_orders w @ [o1],
      w_items := w_items w @ new_items (o_id o1) (o_store o1) lines taxes,
      w_history := w_history w @ [placed_entry o1],
      w_payments := w_payments w @ [first_payment fresh o1]\<rparr>"
    using w1 foldE_items_Inr [OF w2] insert_payment_Inr [OF w3]
    by (simp add: insert_order_Inr insert_history_def)
  then show ?thesis
    using w1 w5 w'
    by (cases coupon)
      (auto simp: insert_order_Inr redeemIn_def redemption_of_def convert_cart_def split: if_splits)
qed

lemma convert_cart_inv: "cart_inv w \<Longrightarrow> cart_inv (convert_cart c w)"
  by (simp add: cart_inv_def convert_cart_def retire_inv)

lemma convert_cart_keeps [simp]:
  "orders_inv (convert_cart c w) = orders_inv w"
  "coupons_inv (convert_cart c w) = coupons_inv w"
  by (rule orders_inv_cong coupons_inv_cong; simp add: convert_cart_def)+

lemma write_order_orders_inv:
  assumes "write_order fresh o1 lines taxes cartId coupon w = Inr w'" and "orders_inv w"
  shows "orders_inv w'"
  using assms(1)
proof (rule write_order_steps)
  fix w1 w2 w3 w5
  assume w1: "insert_order o1 w = Inr w1"
    and w2: "foldE insert_order_item (new_items (o_id o1) (o_store o1) lines taxes) w1 = Inr w2"
    and w3: "insert_payment (first_payment fresh o1) (insert_history (placed_entry o1) w2) = Inr w3"
    and w5: "(case coupon of None \<Rightarrow> Inr (convert_cart cartId w3)
          | Some q \<Rightarrow> redeemIn (redemption_of o1 q) (convert_cart cartId w3)) = Inr w5"
    and w': "w' = emitIn (created_event o1) w5"
  have "orders_inv (convert_cart cartId w3)"
    using insert_payment_inv [OF w3] foldE_items_inv [OF w2] insert_order_inv [OF w1 assms(2)]
    by simp
  moreover have "orders_inv w5 = orders_inv (convert_cart cartId w3)"
    using w5 by (intro orders_inv_cong) (auto simp: redeemIn_def split: option.splits if_splits)
  ultimately show ?thesis using w' by simp
qed

lemma write_order_coupons_inv:
  assumes "write_order fresh o1 lines taxes cartId coupon w = Inr w'" and "coupons_inv w"
  shows "coupons_inv w'"
  using assms(1)
proof (rule write_order_steps)
  fix w1 w2 w3 w5
  assume w1: "insert_order o1 w = Inr w1"
    and w2: "foldE insert_order_item (new_items (o_id o1) (o_store o1) lines taxes) w1 = Inr w2"
    and w3: "insert_payment (first_payment fresh o1) (insert_history (placed_entry o1) w2) = Inr w3"
    and w5: "(case coupon of None \<Rightarrow> Inr (convert_cart cartId w3)
          | Some q \<Rightarrow> redeemIn (redemption_of o1 q) (convert_cart cartId w3)) = Inr w5"
    and w': "w' = emitIn (created_event o1) w5"
  have "coupons_inv w3 = coupons_inv w"
    using w1 foldE_items_Inr [OF w2] insert_payment_Inr [OF w3]
    by (intro coupons_inv_cong) (simp_all add: insert_order_Inr insert_history_def)
  then have "coupons_inv w5"
    using w5 assms(2) by (auto intro: redeemIn_inv split: option.splits)
  then show ?thesis using w' by simp
qed

section \<open>What an order that went through consists of\<close>

abbreviation cart_lines :: "(cart_item \<times> variant) list \<Rightarrow> order_line list" where
  "cart_lines items \<equiv> map (\<lambda>(i, v). order_line_of v (ci_qty i)) items"

abbreviation goods_total :: "(cart_item \<times> variant) list \<Rightarrow> int" where
  "goods_total items \<equiv> sum_list (map (\<lambda>(i, v). va_price v * ci_qty i) items)"

lemma sum_cart_lines: "sum_list (map ol_total (cart_lines items)) = goods_total items"
  by (induction items) (auto simp: order_line_of_def)

lemma createOrder_Inr:
  assumes "createOrder metres now fresh shopper request cartId store w = Inr (summary, w')"
    and items: "items = cart_join (s_id store) cartId w"
  obtains w1 tip coupon number w2 fee tr o1 where
    "items \<noteq> []" and "check_for_sale items = Inr ()"
    and "foldE (reserve_line (s_id store)) items w = Inr w1"
    and "normalizeTip (qr_tip request) (goods_total items) = Inr tip"
    and "price_coupon now (s_id store) (qr_coupon request) (goods_total items)
           (shopper_user shopper) w1 = Inr coupon"
    and "w2 = w1\<lparr>w_counters := w_counters w2\<rparr>"
    and "tr = tax_quote w1 (tax_request_of store request (cart_lines items) fee)"
    and "o1 = new_order now fresh shopper request store number (goods_total items) tip coupon
           (tx_total tr) fee"
    and "write_order fresh o1 (cart_lines items) (tx_lines tr) cartId coupon w2 = Inr w'"
    and "summary = summary_of o1"
proof -
  define fee where "fee w1 = dq_fee (quoteDelivery metres (s_id store) request (cart_lines items) w1)"
    for w1
  define tr where "tr w1 = tax_quote w1 (tax_request_of store request (cart_lines items) (fee w1))"
    for w1
  define number where "number w1 = fst (nextOrderNumber (s_id store) (s_name store) w1)" for w1
  define w2 where "w2 w1 = snd (nextOrderNumber (s_id store) (s_name store) w1)" for w1
  have next1: "nextOrderNumber (s_id store) (s_name store) w1 = (number w1, w2 w1)" for w1
    by (simp add: number_def w2_def)
  have w2: "w2 w1 = w1\<lparr>w_counters := w_counters (w2 w1)\<rparr>" for w1
    by (simp add: w2_def nextOrderNumber_def Let_def)
  have nonempty: "items \<noteq> []"
    using assms(1) by (auto simp: createOrder_def Let_def items)
  then obtain w1 tip coupon where sale: "check_for_sale items = Inr ()"
    and w1: "foldE (reserve_line (s_id store)) items w = Inr w1"
    and tip: "normalizeTip (qr_tip request) (goods_total items) = Inr tip"
    and coupon: "price_coupon now (s_id store) (qr_coupon request) (goods_total items)
           (shopper_user shopper) w1 = Inr coupon"
    and last: "bindE (write_order fresh (new_order now fresh shopper request store (number w1)
           (goods_total items) tip coupon (tx_total (tr w1)) (fee w1)) (cart_lines items)
           (tx_lines (tr w1)) cartId coupon (w2 w1)) (\<lambda>w3. Inr (summary_of
           (new_order now fresh shopper request store (number w1) (goods_total items) tip coupon
             (tx_total (tr w1)) (fee w1)), w3)) = Inr (summary, w')"
    using assms(1)
    unfolding createOrder_def Let_def items [symmetric] sum_cart_lines next1 prod.case
      fee_def [symmetric] tr_def [symmetric]
    by auto
  show thesis
    by (rule that [OF nonempty sale w1 tip coupon w2 tr_def refl]) (use last in auto)
qed

text \<open>Step by step, the transaction changes the stock levels by what the cart holds.\<close>

lemma createOrder_stock:
  assumes "createOrder metres now fresh shopper request cartId store w = Inr (summary, w')"
  shows "on_hand w' = on_hand w \<and> w_movements w' = w_movements w \<and>
    (\<forall>u. reserved w' u = reserved w u +
       (if counted (s_id store) w u then wanted (cart_join (s_id store) cartId w) u else 0))"
  using assms refl
proof (rule createOrder_Inr)
  fix w1 w2 :: world and o1 tr coupon
  assume w1: "foldE (reserve_line (s_id store)) (cart_join (s_id store) cartId w) w = Inr w1"
    and w2: "w2 = w1\<lparr>w_counters := w_counters w2\<rparr>"
    and w': "write_order fresh o1 (cart_lines (cart_join (s_id store) cartId w)) (tx_lines tr)
      cartId coupon w2 = Inr w'"
  have "w_levels w2 = w_levels w1" "w_movements w2 = w_movements w1"
    by (subst w2; simp)+
  then have "on_hand w' = on_hand w1" "reserved w' = reserved w1" "w_movements w' = w_movements w1"
    using write_order_Inr [OF w'] by (auto intro!: on_hand_cong reserved_cong)
  then show ?thesis using foldE_reserve_effect [OF w1] by simp
qed

lemma createOrder_invs:
  assumes "createOrder metres now fresh shopper request cartId store w = Inr (summary, w')"
  shows "(stock_inv w \<longrightarrow> stock_inv w') \<and> (orders_inv w \<longrightarrow> orders_inv w') \<and>
    (coupons_inv w \<longrightarrow> coupons_inv w') \<and> (cart_inv w \<longrightarrow> cart_inv w') \<and>
    (count_inv w \<longrightarrow> count_inv w') \<and> (rates_inv w \<longrightarrow> rates_inv w')"
  using assms refl
proof (rule createOrder_Inr)
  fix w1 w2 :: world and o1 tr coupon
  assume w1: "foldE (reserve_line (s_id store)) (cart_join (s_id store) cartId w) w = Inr w1"
    and w2: "w2 = w1\<lparr>w_counters := w_counters w2\<rparr>"
    and w': "write_order fresh o1 (cart_lines (cart_join (s_id store) cartId w)) (tx_lines tr)
      cartId coupon w2 = Inr w'"
  have w1_keeps: "off_stock w1 = off_stock w" using foldE_reserve_effect [OF w1] by simp
  have two: "w_levels w2 = w_levels w1" "w_movements w2 = w_movements w1"
    "w_orders w2 = w_orders w" "w_payments w2 = w_payments w" "w_items w2 = w_items w"
    "w_coupons w2 = w_coupons w" "w_redemptions w2 = w_redemptions w" "w_carts w2 = w_carts w"
    "w_cart_items w2 = w_cart_items w" "w_sessions w2 = w_sessions w" "w_lines w2 = w_lines w"
    "w_rates w2 = w_rates w"
    by (subst w2; simp add: off_stock_keeps [OF w1_keeps])+
  note rows = write_order_Inr [OF w']
  have "stock_inv w \<longrightarrow> stock_inv w'"
    using foldE_reserve_inv [OF w1] stock_inv_cong [of w' w1] rows two by simp
  moreover have "orders_inv w \<longrightarrow> orders_inv w'"
    using write_order_orders_inv [OF w'] orders_inv_cong [of w2 w] two by simp
  moreover have "coupons_inv w \<longrightarrow> coupons_inv w'"
    using write_order_coupons_inv [OF w'] coupons_inv_cong [of w2 w] two by simp
  moreover have "cart_inv w \<longrightarrow> cart_inv w'"
    using convert_cart_inv [of w cartId] rows two cart_inv_cong [of w' "convert_cart cartId w"]
    by (simp add: convert_cart_def)
  moreover have "count_inv w \<longrightarrow> count_inv w'" "rates_inv w \<longrightarrow> rates_inv w'"
    using rows two count_inv_cong [of w' w] rates_inv_cong [of w' w] by simp_all
  ultimately show ?thesis by blast
qed

end
