(* ===== verification/CheckoutCauses.thy ===== *)
theory CheckoutCauses
  imports CheckoutFacts
begin

text \<open>
  When a checkout can go through, stated without the order of its steps: \<open>checkout_open\<close> for the
  transaction and \<open>checkout_possible\<close> for the whole request.  The lemmas show that the
  transaction of \<open>Checkout\<close> goes through in exactly these cases, so that a refusal always has
  one of the named causes and never is the tables disagreeing with the order's own amounts.
\<close>

section \<open>The conditions\<close>

definition enough_stock :: "string \<Rightarrow> (cart_item \<times> variant) list \<Rightarrow> world \<Rightarrow> bool" where
  "enough_stock s items w = list_all (\<lambda>(i, v). counted s w (va_id v) \<longrightarrow>
     wanted items (va_id v) \<le> on_hand w (va_id v) - reserved w (va_id v)) items"

definition coupon_discount :: "coupon_quote option \<Rightarrow> int" where
  "coupon_discount coupon = (case coupon of None \<Rightarrow> 0 | Some q \<Rightarrow> cq_discount q)"

text \<open>No row carries an identifier this order is about to use.\<close>

definition drawn_afresh ::
    "fresh \<Rightarrow> shopper \<Rightarrow> string \<Rightarrow> string \<Rightarrow> string \<Rightarrow> coupon_quote option \<Rightarrow> world \<Rightarrow> bool" where
  "drawn_afresh fresh shopper s number key coupon w =
     (list_all (\<lambda>x. o_id x \<noteq> fr_order fresh \<and> \<not> (o_store x = s \<and> o_number x = number) \<and>
         \<not> (o_store x = s \<and> o_idem x = Some key) \<and>
         (shopper_user shopper = None \<longrightarrow> o_guest_token x \<noteq> Some (fr_token fresh))) (w_orders w) \<and>
      list_all (\<lambda>p. p_id p \<noteq> fr_payment fresh) (w_payments w) \<and>
      (case coupon of None \<Rightarrow> True | Some q \<Rightarrow>
         list_all (\<lambda>r. \<not> (rd_coupon r = cq_coupon q \<and> rd_order r = fr_order fresh))
           (w_redemptions w)))"

definition checkout_open ::
    "distance \<Rightarrow> int \<Rightarrow> fresh \<Rightarrow> shopper \<Rightarrow> place_request \<Rightarrow> string \<Rightarrow> store \<Rightarrow> world \<Rightarrow> bool" where
  "checkout_open metres now fresh shopper request c store w =
     (let s = s_id store; items = cart_join s c w; goods = goods_total items;
          delivery = quoteDelivery metres s request (cart_lines items) w; fee = dq_fee delivery;
          tax = tx_total (tax_quote w (tax_request_of store request (cart_lines items) fee))
      in items \<noteq> [] \<and> list_all (\<lambda>(i, v). for_sale v) items \<and> enough_stock s items w \<and>
         (qr_fulfillment request = FUL_DELIVERY \<longrightarrow> dq_problem delivery = None) \<and>
         (case normalizeTip (qr_tip request) goods of Inl _ \<Rightarrow> False | Inr tip \<Rightarrow>
           (case price_coupon now s (qr_coupon request) goods (shopper_user shopper) w of
              Inl _ \<Rightarrow> False
            | Inr coupon \<Rightarrow>
                list_all fits_int4 [goods, coupon_discount coupon, tax, fee, tip,
                  goods - coupon_discount coupon + tax + fee + tip] \<and>
                drawn_afresh fresh shopper s (fst (nextOrderNumber s (s_name store) w))
                  (qr_key request) coupon w)))"

definition checkout_possible ::
    "distance \<Rightarrow> int \<Rightarrow> fresh \<Rightarrow> string \<Rightarrow> shopper \<Rightarrow> place_request \<Rightarrow> world \<Rightarrow> bool" where
  "checkout_possible metres now fresh s shopper request w =
     (case requireLiveStore s w of Inl _ \<Rightarrow> False | Inr store \<Rightarrow>
        (qr_fulfillment request = FUL_DELIVERY \<longrightarrow> qr_address request \<noteq> None) \<and>
        (case findActiveCart s shopper w of None \<Rightarrow> False | Some c \<Rightarrow>
           checkout_open metres now fresh shopper request c store w))"

text \<open>
  A coupon that is accepted takes something off.  One that rounds to nothing passes the service's
  own checks and is refused by the table of redemptions, so it is set apart here.
\<close>

definition coupon_worth_it ::
    "int \<Rightarrow> shopper \<Rightarrow> place_request \<Rightarrow> string \<Rightarrow> string \<Rightarrow> world \<Rightarrow> bool" where
  "coupon_worth_it now shopper request c s w =
     (case price_coupon now s (qr_coupon request) (goods_total (cart_join s c w))
         (shopper_user shopper) w of
        Inr (Some q) \<Rightarrow> 0 < cq_discount q | _ \<Rightarrow> True)"

text \<open>What the transaction relies on of the database: the invariants kept elsewhere.\<close>

definition checkout_good :: "world \<Rightarrow> bool" where
  "checkout_good w =
     (stock_inv w \<and> cart_inv w \<and> coupons_inv w \<and> rates_inv w \<and>
      list_all (\<lambda>v. 0 \<le> va_price v) (w_variants w) \<and> list_all (\<lambda>z. 0 \<le> z_fee z) (w_zones w))"

section \<open>Reservations\<close>

lemma cart_join_variants:
  "(i, v) \<in> set (cart_join s c w) \<Longrightarrow> v \<in> set (w_variants w) \<and> va_id v = ci_variant i \<and>
     i \<in> set (w_cart_items w) \<and> ci_cart i = c"
  by (auto simp: cart_join_def items_of_def split: option.splits dest!: findD [OF sym])

lemma cart_join_sane:
  assumes "checkout_good w" and "(i, v) \<in> set (cart_join s c w)"
  shows "0 \<le> va_price v" and "1 \<le> ci_qty i"
  using cart_join_variants [OF assms(2)] assms(1)
  by (auto simp: checkout_good_def list_all_iff cart_inv_def items_inv_def)

lemma counted_row:
  assumes "stock_inv w" and "counted s w u"
  obtains l where "w_levels w u = Some l" and "sl_store l = s" and "sl_tracked l" and "level_ok l"
  using assms by (auto simp: counted_def visible_in_store stock_inv_def split: option.splits)

lemma wanted_nonneg: "\<forall>(i, v) \<in> set items. 1 \<le> ci_qty i \<Longrightarrow> 0 \<le> wanted items u"
  by (induction items) auto

lemma wanted_other: "\<forall>(i, v) \<in> set items. va_id v \<noteq> u \<Longrightarrow> wanted items u = 0"
  by (induction items) auto

lemma enough_everywhere:
  assumes "stock_inv w"
  shows "enough_stock s items w \<longleftrightarrow>
    (\<forall>u. counted s w u \<longrightarrow> wanted items u \<le> on_hand w u - reserved w u)"
proof
  assume "enough_stock s items w"
  show "\<forall>u. counted s w u \<longrightarrow> wanted items u \<le> on_hand w u - reserved w u"
  proof (intro allI impI)
    fix u assume u: "counted s w u"
    show "wanted items u \<le> on_hand w u - reserved w u"
    proof (cases "\<exists>(i, v) \<in> set items. va_id v = u")
      case True
      then show ?thesis using \<open>enough_stock s items w\<close> u by (auto simp: enough_stock_def list_all_iff)
    next
      case False
      then have "wanted items u = 0" by (intro wanted_other) auto
      moreover obtain l where "w_levels w u = Some l" "level_ok l"
        using counted_row [OF assms u] by blast
      ultimately show ?thesis by (simp add: on_hand_def reserved_def level_ok_def)
    qed
  qed
qed (auto simp: enough_stock_def list_all_iff)

lemma reserve_line_ok:
  assumes "stock_inv w" and "0 \<le> ci_qty i"
  shows "okE (reserve_line s (i, v) w) \<longleftrightarrow>
    (counted s w (va_id v) \<longrightarrow> ci_qty i \<le> on_hand w (va_id v) - reserved w (va_id v))"
proof (cases "counted s w (va_id v)")
  case True
  obtain l where l: "w_levels w (va_id v) = Some l" "sl_store l = s" "sl_tracked l" "level_ok l"
    using counted_row [OF assms(1) True] by blast
  have "level_ok (l\<lparr>sl_reserved := sl_reserved l + ci_qty i\<rparr>)"
    if "ci_qty i \<le> sl_on_hand l - sl_reserved l"
    using that l(4) assms(2) by (simp add: level_ok_def fits_int4_def)
  then show ?thesis using True l
    by (auto simp: reserve_line_def visible_in_store Let_def update_level_def put_level_ok on_hand_def
        reserved_def split: option.splits)
next
  case False
  then show ?thesis by (auto simp: reserve_line_def counted_def split: option.splits)
qed

lemma reserve_line_Inl:
  assumes "stock_inv w" and "0 \<le> ci_qty i" and "reserve_line s (i, v) w = Inl e"
  shows "\<exists>m. e = Validation m"
proof -
  have "counted s w (va_id v)"
    using assms(3) by (auto simp: reserve_line_def counted_def split: option.splits if_splits)
  then obtain l where l: "w_levels w (va_id v) = Some l" "sl_store l = s" "sl_tracked l" "level_ok l"
    using counted_row [OF assms(1)] by blast
  have "okE (put_level (va_id v) (l\<lparr>sl_reserved := sl_reserved l + ci_qty i\<rparr>) w)"
    if "ci_qty i \<le> sl_on_hand l - sl_reserved l"
    using that l(4) assms(2) by (simp add: put_level_ok level_ok_def fits_int4_def)
  then show ?thesis using assms(3) l
    by (auto simp: reserve_line_def visible_in_store Let_def update_level_def okE_iff
        split: option.splits if_splits)
qed

lemma fold_reserve_ok:
  assumes "stock_inv w" and "\<forall>(i, v) \<in> set items. 1 \<le> ci_qty i"
  shows "okE (foldE (reserve_line s) items w) \<longleftrightarrow>
    (\<forall>u. counted s w u \<longrightarrow> wanted items u \<le> on_hand w u - reserved w u)"
    and "foldE (reserve_line s) items w = Inl e \<Longrightarrow> \<exists>m. e = Validation m"
proof -
  have "(okE (foldE (reserve_line s) items w) \<longleftrightarrow>
      (\<forall>u. counted s w u \<longrightarrow> wanted items u \<le> on_hand w u - reserved w u)) \<and>
    (\<forall>e. foldE (reserve_line s) items w = Inl e \<longrightarrow> (\<exists>m. e = Validation m))"
    using assms
  proof (induction items arbitrary: w)
    case Nil
    have "reserved w u \<le> on_hand w u" for u
      using Nil(1) stock_inv_available by blast
    then show ?case by simp
  next
    case (Cons x items)
    obtain i v where x: "x = (i, v)" by (cases x)
    have qty: "1 \<le> ci_qty i" "\<forall>(i, v) \<in> set items. 1 \<le> ci_qty i" using Cons.prems(2) x by auto
    show ?case
    proof (cases "reserve_line s (i, v) w")
      case (Inl e)
      then have "\<not> okE (reserve_line s (i, v) w)" by simp
      then have short: "counted s w (va_id v)" "\<not> ci_qty i \<le> on_hand w (va_id v) - reserved w (va_id v)"
        using reserve_line_ok [OF Cons.prems(1), of i s v] qty(1) by auto
      have "\<not> wanted (x # items) (va_id v) \<le> on_hand w (va_id v) - reserved w (va_id v)"
        using short(2) wanted_nonneg [OF qty(2), of "va_id v"] by (simp add: x)
      then show ?thesis using Inl short(1) reserve_line_Inl [OF Cons.prems(1) _ Inl] qty(1) x by auto
    next
      case (Inr w1)
      note eff = reserve_line_effect [OF Inr]
      have ok: "counted s w (va_id v) \<Longrightarrow> ci_qty i \<le> on_hand w (va_id v) - reserved w (va_id v)"
        using reserve_line_ok [OF Cons.prems(1), of i s v] qty(1) Inr by simp
      have inv1: "stock_inv w1" using reserve_line_inv [OF Inr Cons.prems(1)] .
      note IH = Cons.IH [OF inv1 qty(2)]
      have "(counted s w1 u \<longrightarrow> wanted items u \<le> on_hand w1 u - reserved w1 u) =
          (counted s w u \<longrightarrow> wanted (x # items) u \<le> on_hand w u - reserved w u)" for u
        using eff by (auto simp: x)
      then show ?thesis using IH Inr x by simp
    qed
  qed
  then show "okE (foldE (reserve_line s) items w) \<longleftrightarrow>
      (\<forall>u. counted s w u \<longrightarrow> wanted items u \<le> on_hand w u - reserved w u)"
    and "foldE (reserve_line s) items w = Inl e \<Longrightarrow> \<exists>m. e = Validation m"
    by blast+
qed

section \<open>Writing the rows\<close>

lemma foldE_items_ok:
  "\<forall>i \<in> set its. 0 < oi_qty i \<and> oi_total i = oi_unit i * oi_qty i \<Longrightarrow>
     foldE insert_order_item its w = Inr (w\<lparr>w_items := w_items w @ its\<rparr>)"
  by (induction its arbitrary: w) (simp_all add: insert_order_item_def)

lemma insert_payment_fresh:
  assumes "fits_int4 (o_total o1)" and "0 \<le> o_total o1"
  shows "insert_payment (first_payment fresh o1) w =
    (if \<exists>x \<in> set (w_payments w). p_id x = fr_payment fresh then Inl (UniqueViolation ''payments'')
     else Inr (w\<lparr>w_payments := w_payments w @ [first_payment fresh o1]\<rparr>))"
  using assms by (simp add: insert_payment_def first_payment_def)

text \<open>
  An order whose amounts agree, are not negative and carry an address where one is needed is
  only stopped by a number too large, an identifier in use or a coupon worth nothing.
\<close>

definition table_causes :: "app_error \<Rightarrow> bool" where
  "table_causes e = ((\<exists>t. e = UniqueViolation t) \<or> e = CheckViolation ''integer out of range'' \<or>
     e = CheckViolation ''coupon_redemptions_amount_positive'')"

lemma check_order_range:
  assumes "o_total o1 = o_subtotal o1 - o_discount o1 + o_tax o1 + o_delivery_fee o1 + o_tip o1"
    and "list_all (\<lambda>a. 0 \<le> a) (order_amounts o1)"
    and "o_fulfillment o1 = FUL_DELIVERY \<longrightarrow> o_address o1 \<noteq> None"
  shows "check_order o1 = (if list_all fits_int4 (order_amounts o1) then Inr ()
    else Inl (CheckViolation ''integer out of range''))"
  using assms by (auto simp: check_order_def)

lemma write_order_ok:
  assumes sane: "o_total o1 = o_subtotal o1 - o_discount o1 + o_tax o1 + o_delivery_fee o1 + o_tip o1"
      "list_all (\<lambda>a. 0 \<le> a) (order_amounts o1)"
      "o_fulfillment o1 = FUL_DELIVERY \<longrightarrow> o_address o1 \<noteq> None"
    and its: "\<forall>i \<in> set (new_items (o_id o1) (o_store o1) lines taxes).
      0 < oi_qty i \<and> oi_total i = oi_unit i * oi_qty i"
  shows "okE (write_order fresh o1 lines taxes c coupon w) \<longleftrightarrow>
      list_all fits_int4 (order_amounts o1) \<and> (\<forall>x \<in> set (w_orders w). \<not> order_clash o1 x) \<and>
      (\<forall>x \<in> set (w_payments w). p_id x \<noteq> fr_payment fresh) \<and>
      (\<forall>q. coupon = Some q \<longrightarrow> 0 < cq_discount q \<and>
        (\<forall>x \<in> set (w_redemptions w). \<not> (rd_coupon x = cq_coupon q \<and> rd_order x = o_id o1)))"
    and "write_order fresh o1 lines taxes c coupon w = Inl e \<Longrightarrow> table_causes e"
proof -
  let ?its = "new_items (o_id o1) (o_store o1) lines taxes"
  have "(okE (write_order fresh o1 lines taxes c coupon w) \<longleftrightarrow>
      list_all fits_int4 (order_amounts o1) \<and> (\<forall>x \<in> set (w_orders w). \<not> order_clash o1 x) \<and>
      (\<forall>x \<in> set (w_payments w). p_id x \<noteq> fr_payment fresh) \<and>
      (\<forall>q. coupon = Some q \<longrightarrow> 0 < cq_discount q \<and>
        (\<forall>x \<in> set (w_redemptions w). \<not> (rd_coupon x = cq_coupon q \<and> rd_order x = o_id o1)))) \<and>
    (\<forall>e. write_order fresh o1 lines taxes c coupon w = Inl e \<longrightarrow> table_causes e)"
  proof (cases "list_all fits_int4 (order_amounts o1) \<and> (\<forall>x \<in> set (w_orders w). \<not> order_clash o1 x)")
    case False
    then show ?thesis
      by (auto simp: write_order_def insert_order_def check_order_range [OF sane] table_causes_def)
  next
    case True
    then have row: "insert_order o1 w = Inr (w\<lparr>w_orders := w_orders w @ [o1]\<rparr>)"
      by (simp add: insert_order_def check_order_range [OF sane])
    have total: "fits_int4 (o_total o1)" "0 \<le> o_total o1"
      using True sane(2) by (simp_all add: order_amounts_def)
    show ?thesis
    proof (cases coupon)
      case None
      then show ?thesis using True
        by (auto simp: write_order_def row foldE_items_ok [OF its] insert_payment_fresh [OF total]
            insert_history_def table_causes_def Let_def)
    next
      case (Some q)
      then show ?thesis using True
        by (auto simp: write_order_def row foldE_items_ok [OF its] insert_payment_fresh [OF total]
            insert_history_def table_causes_def Let_def redeemIn_def redemption_of_def convert_cart_def)
    qed
  qed
  then show "okE (write_order fresh o1 lines taxes c coupon w) \<longleftrightarrow>
      list_all fits_int4 (order_amounts o1) \<and> (\<forall>x \<in> set (w_orders w). \<not> order_clash o1 x) \<and>
      (\<forall>x \<in> set (w_payments w). p_id x \<noteq> fr_payment fresh) \<and>
      (\<forall>q. coupon = Some q \<longrightarrow> 0 < cq_discount q \<and>
        (\<forall>x \<in> set (w_redemptions w). \<not> (rd_coupon x = cq_coupon q \<and> rd_order x = o_id o1)))"
    and "write_order fresh o1 lines taxes c coupon w = Inl e \<Longrightarrow> table_causes e"
    by blast+
qed

section \<open>The amounts\<close>

lemma quoteDelivery_cong:
  "w_zones w = w_zones w' \<Longrightarrow> quoteDelivery m s r ls w = quoteDelivery m s r ls w'"
  unfolding quoteDelivery_def by (erule ssubst) (rule refl)

lemma tax_quote_cong: "w_rates w = w_rates w' \<Longrightarrow> tax_quote w r = tax_quote w' r"
  by (simp add: tax_quote_def lookupRateBps_def)

lemma price_coupon_cong:
  assumes "w_coupons w = w_coupons w'" and "w_redemptions w = w_redemptions w'"
  shows "price_coupon now s code goods user w = price_coupon now s code goods user w'"
proof -
  have "redemptions_of w = redemptions_of w'" using assms by (simp add: redemptions_of_def fun_eq_iff)
  then have same: "coupon_quote now s c goods user w = coupon_quote now s c goods user w'" for c
    unfolding coupon_quote_def assms by (rule ssubst) (rule refl)
  show ?thesis unfolding price_coupon_def same by (rule refl)
qed

lemma quoteDelivery_cases:
  obtains (free) "dq_fee (quoteDelivery metres s request lines w) = 0"
  | (zone) z where "z \<in> set (w_zones w)" and "dq_fee (quoteDelivery metres s request lines w) = z_fee z"
proof (cases "qr_fulfillment request \<noteq> FUL_DELIVERY \<or> qr_address request = None \<or>
    ad_lat (the (qr_address request)) = None \<or> ad_lng (the (qr_address request)) = None")
  case True
  then show thesis
    by (intro free) (auto simp: quoteDelivery_def no_delivery_def split: option.splits)
next
  case False
  then obtain a lat lng where a: "qr_fulfillment request = FUL_DELIVERY" "qr_address request = Some a"
    "ad_lat a = Some lat" "ad_lng a = Some lng" by auto
  define zones where "zones = filter (\<lambda>z. z_store z = s \<and> z_active z) (w_zones w)"
  define cov where "cov = sort_key z_fee
    (filter (\<lambda>z. metres lat lng (z_lat z) (z_lng z) \<le> of_int (z_radius z)) zones)"
  show thesis
  proof (cases "if zones = [] then None else find (\<lambda>z. sum_list (map ol_total lines) \<ge> z_min_order z) cov")
    case None
    then show ?thesis using a
      by (intro free) (auto simp: quoteDelivery_def no_delivery_def Let_def zones_def [symmetric]
          cov_def [symmetric] split: list.splits if_splits)
  next
    case (Some z)
    then have "z \<in> set cov" "zones \<noteq> []" by (auto dest: findD split: if_splits)
    moreover have "dq_fee (quoteDelivery metres s request lines w) = z_fee z"
      using a Some \<open>z \<in> set cov\<close> by (cases cov)
        (auto simp: quoteDelivery_def Let_def zones_def [symmetric] cov_def [symmetric] split: if_splits)
    ultimately show ?thesis by (intro zone [of z]) (auto simp: cov_def zones_def)
  qed
qed

lemma quoteDelivery_fee:
  assumes "list_all (\<lambda>z. 0 \<le> z_fee z) (w_zones w)"
  shows "0 \<le> dq_fee (quoteDelivery metres s request lines w)"
proof (cases rule: quoteDelivery_cases [of metres s request lines w])
  case (zone z)
  then show ?thesis using assms by (simp add: list_all_iff)
qed simp

lemma normalizeTip_nonneg: "normalizeTip t goods = Inr tip \<Longrightarrow> 0 \<le> tip"
  by (auto simp: normalizeTip_def split: option.splits js_number.splits if_splits)

lemma normalizeTip_Inl: "normalizeTip t goods = Inl e \<Longrightarrow> \<exists>m. e = Validation m"
  by (auto simp: normalizeTip_def split: option.splits js_number.splits if_splits)

lemma price_coupon_Inl: "price_coupon now s code goods user w = Inl e \<Longrightarrow> \<exists>m. e = Validation m"
  by (auto simp: price_coupon_def split: option.splits sum.splits if_splits)

lemma price_coupon_discount:
  assumes "price_coupon now s code goods user w = Inr coupon" and "coupons_inv w" and "0 \<le> goods"
  shows "0 \<le> coupon_discount coupon" and "coupon_discount coupon \<le> goods"
  using assms coupon_quote_bound [OF assms(2,3)]
  by (auto simp: price_coupon_def coupon_discount_def split: option.splits sum.splits if_splits)

lemma check_for_sale_ok:
  "okE (check_for_sale items) \<longleftrightarrow> list_all (\<lambda>(i, v). for_sale v) items"
  "check_for_sale items = Inl e \<Longrightarrow> \<exists>m. e = Validation m"
  by (auto simp: check_for_sale_def list_all_iff find_None_iff split: option.splits)
    (fastforce dest: findD)+

text \<open>The tax asked for a cart is on a sane request.\<close>

lemma order_tax_sane:
  assumes "\<forall>(i, v) \<in> set items. 0 \<le> va_price v \<and> 1 \<le> ci_qty i" and "0 \<le> fee"
  shows "sane_request (tax_request_of store request (cart_lines items) fee)"
  using assms by (fastforce simp: sane_request_def tax_request_of_def order_line_of_def)

lemma goods_nonneg:
  "\<forall>(i, v) \<in> set items. 0 \<le> va_price v \<and> 1 \<le> ci_qty i \<Longrightarrow> 0 \<le> goods_total items"
  by (induction items) auto

lemma new_items_sane:
  assumes "\<forall>(i, v) \<in> set items. 0 \<le> va_price v \<and> (1 :: int) \<le> ci_qty i"
  shows "\<forall>i \<in> set (new_items oid s (cart_lines items) taxes).
    0 < oi_qty i \<and> oi_total i = oi_unit i * oi_qty i"
  using assms by (fastforce simp: new_items_def order_line_of_def dest!: set_zip_leftD)

section \<open>The transaction\<close>

lemma createOrder_start:
  obtains rest where "createOrder metres now fresh shopper request c store w =
    bindE (guardE (cart_join (s_id store) c w \<noteq> []) (Validation ''Your cart is empty.'')) (\<lambda>_.
    bindE (check_for_sale (cart_join (s_id store) c w)) (\<lambda>_.
    bindE (foldE (reserve_line (s_id store)) (cart_join (s_id store) c w) w) rest))"
  unfolding createOrder_def Let_def by blast

text \<open>From the reservations on, the steps read what the reservations leave alone.\<close>

lemma createOrder_rest:
  assumes items: "items = cart_join (s_id store) c w" and "items \<noteq> []"
    and "check_for_sale items = Inr ()" and w1: "foldE (reserve_line (s_id store)) items w = Inr w1"
    and dq: "dq = quoteDelivery metres (s_id store) request (cart_lines items) w"
    and tr: "tr = tax_quote w (tax_request_of store request (cart_lines items) (dq_fee dq))"
    and o1: "o1 = (\<lambda>tip coupon. new_order now fresh shopper request store
      (fst (nextOrderNumber (s_id store) (s_name store) w)) (goods_total items) tip coupon
      (tx_total tr) (dq_fee dq))"
  obtains w2 where "w2 = w1\<lparr>w_counters := w_counters w2\<rparr>"
    and "createOrder metres now fresh shopper request c store w =
    bindE (guardE (\<not> (qr_fulfillment request = FUL_DELIVERY \<and> dq_problem dq \<noteq> None))
      (Validation (the (dq_problem dq)))) (\<lambda>_.
    bindE (normalizeTip (qr_tip request) (goods_total items)) (\<lambda>tip.
    bindE (price_coupon now (s_id store) (qr_coupon request) (goods_total items)
      (shopper_user shopper) w) (\<lambda>coupon.
    bindE (write_order fresh (o1 tip coupon) (cart_lines items) (tx_lines tr) c coupon w2) (\<lambda>w3.
      Inr (summary_of (o1 tip coupon), w3)))))"
proof -
  let ?n = "nextOrderNumber (s_id store) (s_name store)"
  have off: "off_stock w1 = off_stock w" using foldE_reserve_effect [OF w1] by simp
  have same: "quoteDelivery metres (s_id store) request (cart_lines items) w1 = dq"
    "tax_quote w1 r = tax_quote w r"
    "price_coupon now (s_id store) code g user w1 = price_coupon now (s_id store) code g user w"
    "fst (?n w1) = fst (?n w)" for r code g user
    using off_stock_keeps [OF off]
    by (auto simp: dq nextOrderNumber_def Let_def intro: quoteDelivery_cong tax_quote_cong price_coupon_cong)
  have n: "?n w1 = (fst (?n w), snd (?n w1))" using same(4) by (metis prod.collapse)
  show thesis
  proof (rule that)
    show "snd (?n w1) = w1\<lparr>w_counters := w_counters (snd (?n w1))\<rparr>"
      by (simp add: nextOrderNumber_def Let_def)
    show "createOrder metres now fresh shopper request c store w =
      bindE (guardE (\<not> (qr_fulfillment request = FUL_DELIVERY \<and> dq_problem dq \<noteq> None))
        (Validation (the (dq_problem dq)))) (\<lambda>_.
      bindE (normalizeTip (qr_tip request) (goods_total items)) (\<lambda>tip.
      bindE (price_coupon now (s_id store) (qr_coupon request) (goods_total items)
        (shopper_user shopper) w) (\<lambda>coupon.
      bindE (write_order fresh (o1 tip coupon) (cart_lines items) (tx_lines tr) c coupon (snd (?n w1)))
        (\<lambda>w3. Inr (summary_of (o1 tip coupon), w3)))))"
      unfolding createOrder_def Let_def items [symmetric] sum_cart_lines w1 assms(3)
      by (simp only: assms(2) not_False_eq_True guardE_simps bindE_Inr same tr [symmetric] o1,
          subst n, simp only: prod.case)
  qed
qed

text \<open>
  With the database in order, the transaction goes through exactly when the conditions hold, and
  what stops it is a message for the shopper or one of the tables' causes.
\<close>

lemma new_order_fields:
  assumes "o1 = new_order now fresh shopper request store number goods tip coupon tax fee"
  shows "o_id o1 = fr_order fresh" "o_store o1 = s_id store" "o_number o1 = number"
    "o_idem o1 = Some (qr_key request)"
    "o_guest_token o1 = (if shopper_user shopper = None then Some (fr_token fresh) else None)"
    "order_amounts o1 = [goods, coupon_discount coupon, tax, fee, tip,
      goods - coupon_discount coupon + tax + fee + tip]"
    "o_total o1 = o_subtotal o1 - o_discount o1 + o_tax o1 + o_delivery_fee o1 + o_tip o1"
    "o_fulfillment o1 = qr_fulfillment request" "o_address o1 = qr_address request"
  using assms by (cases shopper; simp add: new_order_def Let_def order_amounts_def coupon_discount_def)+

lemma drawn_afresh_iff:
  assumes "o1 = new_order now fresh shopper request store number goods tip coupon tax fee"
  shows "drawn_afresh fresh shopper (s_id store) number (qr_key request) coupon w \<longleftrightarrow>
    (\<forall>x \<in> set (w_orders w). \<not> order_clash o1 x) \<and>
    (\<forall>x \<in> set (w_payments w). p_id x \<noteq> fr_payment fresh) \<and>
    (\<forall>q. coupon = Some q \<longrightarrow>
      (\<forall>x \<in> set (w_redemptions w). \<not> (rd_coupon x = cq_coupon q \<and> rd_order x = o_id o1)))"
proof -
  have "order_clash o1 x \<longleftrightarrow> \<not> (o_id x \<noteq> fr_order fresh \<and>
      \<not> (o_store x = s_id store \<and> o_number x = number) \<and>
      \<not> (o_store x = s_id store \<and> o_idem x = Some (qr_key request)) \<and>
      (shopper_user shopper = None \<longrightarrow> o_guest_token x \<noteq> Some (fr_token fresh)))" for x
    unfolding order_clash_def new_order_fields(1-5) [OF assms] by auto
  then show ?thesis
    unfolding drawn_afresh_def list_all_iff new_order_fields(1) [OF assms]
    by (cases coupon) auto
qed

lemma createOrder_body:
  assumes good: "checkout_good w"
    and address: "qr_fulfillment request = FUL_DELIVERY \<longrightarrow> qr_address request \<noteq> None"
    and items: "items = cart_join (s_id store) c w" "items \<noteq> []"
    and sale: "check_for_sale items = Inr ()"
    and w1: "foldE (reserve_line (s_id store)) items w = Inr w1"
    and dq: "dq = quoteDelivery metres (s_id store) request (cart_lines items) w"
    and tr: "tr = tax_quote w (tax_request_of store request (cart_lines items) (dq_fee dq))"
    and o1: "o1 = (\<lambda>tip coupon. new_order now fresh shopper request store
      (fst (nextOrderNumber (s_id store) (s_name store) w)) (goods_total items) tip coupon
      (tx_total tr) (dq_fee dq))"
    and w2: "w2 = w1\<lparr>w_counters := w_counters w2\<rparr>"
    and made: "made =
    bindE (guardE (\<not> (qr_fulfillment request = FUL_DELIVERY \<and> dq_problem dq \<noteq> None))
      (Validation (the (dq_problem dq)))) (\<lambda>_.
    bindE (normalizeTip (qr_tip request) (goods_total items)) (\<lambda>tip.
    bindE (price_coupon now (s_id store) (qr_coupon request) (goods_total items)
      (shopper_user shopper) w) (\<lambda>coupon.
    bindE (write_order fresh (o1 tip coupon) (cart_lines items) (tx_lines tr) c coupon w2) (\<lambda>w3.
      Inr (summary_of (o1 tip coupon), w3)))))"
  shows "(okE made \<longleftrightarrow> checkout_open metres now fresh shopper request c store w \<and>
      coupon_worth_it now shopper request c (s_id store) w) \<and>
    (\<forall>e. made = Inl e \<longrightarrow> (\<exists>m. e = Validation m) \<or> table_causes e)"
proof -
  let ?tip = "normalizeTip (qr_tip request) (goods_total items)"
  let ?coupon = "price_coupon now (s_id store) (qr_coupon request) (goods_total items)
    (shopper_user shopper) w"
  have stock: "stock_inv w" and coupons: "coupons_inv w" and rates: "rates_inv w"
    using good by (simp_all add: checkout_good_def)
  have sane: "\<forall>(i, v) \<in> set items. 0 \<le> va_price v \<and> 1 \<le> ci_qty i"
    using cart_join_sane [OF good] items(1) by blast
  then have qty: "\<forall>(i, v) \<in> set items. 1 \<le> ci_qty i" by blast
  have enough: "enough_stock (s_id store) items w"
    using fold_reserve_ok(1) [OF stock qty, of "s_id store"] w1 enough_everywhere [OF stock] by simp
  have fee: "0 \<le> dq_fee dq" unfolding dq
    by (rule quoteDelivery_fee) (use good in \<open>simp add: checkout_good_def\<close>)
  have tax: "0 \<le> tx_total tr" unfolding tr
    by (rule configured.quote_total_nonneg [OF rates order_tax_sane [OF sane fee]])
  have keeps: "w_orders w2 = w_orders w" "w_payments w2 = w_payments w"
    "w_redemptions w2 = w_redemptions w"
    by (subst w2; simp add: off_stock_keeps [OF foldE_reserve_effect [OF w1, THEN conjunct1]])+
  note opened = checkout_open_def Let_def items(1) [symmetric] dq [symmetric] tr [symmetric]
  consider (problem) "qr_fulfillment request = FUL_DELIVERY" "dq_problem dq \<noteq> None"
    | (tip) m where "\<not> (qr_fulfillment request = FUL_DELIVERY \<and> dq_problem dq \<noteq> None)"
        "?tip = Inl (Validation m)"
    | (coupon) tip m where "\<not> (qr_fulfillment request = FUL_DELIVERY \<and> dq_problem dq \<noteq> None)"
        "?tip = Inr tip" "?coupon = Inl (Validation m)"
    | (rows) tip coupon where "\<not> (qr_fulfillment request = FUL_DELIVERY \<and> dq_problem dq \<noteq> None)"
        "?tip = Inr tip" "?coupon = Inr coupon"
    using normalizeTip_Inl price_coupon_Inl by (cases ?tip; cases ?coupon) metis+
  then show ?thesis
  proof cases
    case (rows tip coupon)
    let ?o = "o1 tip coupon"
    note fields = new_order_fields [OF o1 [THEN fun_cong, THEN fun_cong, of tip coupon]]
    have nonneg: "list_all (\<lambda>a. 0 \<le> a) (order_amounts ?o)"
      unfolding fields(6)
      using price_coupon_discount [OF rows(3) coupons goods_nonneg [OF sane]] fee tax
        normalizeTip_nonneg [OF rows(2)] goods_nonneg [OF sane] by simp
    have its: "\<forall>i \<in> set (new_items (o_id ?o) (o_store ?o) (cart_lines items) (tx_lines tr)).
        0 < oi_qty i \<and> oi_total i = oi_unit i * oi_qty i"
      by (rule new_items_sane [OF sane])
    have "o_fulfillment ?o = FUL_DELIVERY \<longrightarrow> o_address ?o \<noteq> None"
      unfolding fields(8,9) by (rule address)
    note wrote = write_order_ok [OF fields(7) nonneg this its, of fresh c coupon w2]
    have made_rows: "made = bindE (write_order fresh ?o (cart_lines items) (tx_lines tr) c coupon w2)
        (\<lambda>w3. Inr (summary_of ?o, w3))"
      using rows by (auto simp: made)
    have "okE made \<longleftrightarrow> okE (write_order fresh ?o (cart_lines items) (tx_lines tr) c coupon w2)"
      unfolding made_rows by (cases "write_order fresh ?o (cart_lines items) (tx_lines tr) c coupon w2")
        auto
    also have "\<dots> \<longleftrightarrow> checkout_open metres now fresh shopper request c store w \<and>
        coupon_worth_it now shopper request c (s_id store) w"
      using rows sale enough items(2) check_for_sale_ok(1) [of items]
        drawn_afresh_iff [OF o1 [THEN fun_cong, THEN fun_cong, of tip coupon], of w]
      unfolding wrote(1) keeps fields(6) opened coupon_worth_it_def
      by (cases coupon) (auto simp: coupon_discount_def)
    finally show ?thesis using wrote(2) by (auto simp: made_rows bindE_eq_Inl)
  qed (auto simp: made opened)
qed

lemma createOrder_open:
  assumes good: "checkout_good w"
    and address: "qr_fulfillment request = FUL_DELIVERY \<longrightarrow> qr_address request \<noteq> None"
  shows "okE (createOrder metres now fresh shopper request c store w) \<longleftrightarrow>
      checkout_open metres now fresh shopper request c store w \<and>
      coupon_worth_it now shopper request c (s_id store) w"
    and "createOrder metres now fresh shopper request c store w = Inl e \<Longrightarrow>
      (\<exists>m. e = Validation m) \<or> table_causes e"
proof -
  let ?items = "cart_join (s_id store) c w"
  let ?open = "checkout_open metres now fresh shopper request c store w"
  let ?made = "createOrder metres now fresh shopper request c store w"
  let ?worth = "coupon_worth_it now shopper request c (s_id store) w"
  have stock: "stock_inv w" and coupons: "coupons_inv w" and rates: "rates_inv w"
    using good by (simp_all add: checkout_good_def)
  have sane: "\<forall>(i, v) \<in> set ?items. 0 \<le> va_price v \<and> 1 \<le> ci_qty i"
    using cart_join_sane [OF good] by blast
  then have qty: "\<forall>(i, v) \<in> set ?items. 1 \<le> ci_qty i" by blast
  note enough = enough_everywhere [OF stock, of "s_id store" ?items]
  have "(okE ?made \<longleftrightarrow> ?open \<and> ?worth) \<and> (\<forall>e. ?made = Inl e \<longrightarrow> (\<exists>m. e = Validation m) \<or> table_causes e)"
  proof (cases "?items \<noteq> [] \<and> okE (check_for_sale ?items) \<and>
      okE (foldE (reserve_line (s_id store)) ?items w)")
    case False
    then have "\<not> ?open"
      using fold_reserve_ok(1) [OF stock qty, of "s_id store"]
      by (auto simp: checkout_open_def Let_def enough check_for_sale_ok(1))
    moreover have "\<exists>m. ?made = Inl (Validation m)"
    proof (rule createOrder_start [of metres now fresh shopper request c store w])
      fix rest
      assume "?made = bindE (guardE (?items \<noteq> []) (Validation ''Your cart is empty.'')) (\<lambda>_.
        bindE (check_for_sale ?items) (\<lambda>_.
        bindE (foldE (reserve_line (s_id store)) ?items w) rest))"
      then show ?thesis
        using False check_for_sale_ok(2) [of ?items] fold_reserve_ok(2) [OF stock qty, of "s_id store"]
        by (cases "?items = []"; cases "check_for_sale ?items";
            cases "foldE (reserve_line (s_id store)) ?items w") auto
    qed
    ultimately show ?thesis by auto
  next
    case True
    then obtain w1 where w1: "foldE (reserve_line (s_id store)) ?items w = Inr w1"
      and sale: "check_for_sale ?items = Inr ()" by (auto simp: okE_iff)
    note steps = True [THEN conjunct1] sale w1
    show ?thesis
      by (rule createOrder_rest [where metres = metres and request = request and now = now and
            fresh = fresh and shopper = shopper, OF refl steps refl refl refl])
        (rule createOrder_body [OF good address refl steps refl refl refl])
  qed
  then show "okE ?made \<longleftrightarrow> ?open \<and> ?worth" and "?made = Inl e \<Longrightarrow> (\<exists>m. e = Validation m) \<or> table_causes e"
    by blast+
qed

text \<open>The counters are no part of the conditions.\<close>

lemma conditions_inc [simp]:
  "counted s (inc n ls w) = counted s w"
  "cart_join s c (inc n ls w) = cart_join s c w"
  "enough_stock s items (inc n ls w) = enough_stock s items w"
  "quoteDelivery metres s request lines (inc n ls w) = quoteDelivery metres s request lines w"
  "tax_quote (inc n ls w) r = tax_quote w r"
  "price_coupon now s code goods user (inc n ls w) = price_coupon now s code goods user w"
  "fst (nextOrderNumber s name (inc n ls w)) = fst (nextOrderNumber s name w)"
  "drawn_afresh fresh shopper s number key coupon (inc n ls w) =
     drawn_afresh fresh shopper s number key coupon w"
  "findActiveCart s shopper (inc n ls w) = findActiveCart s shopper w"
  "requireLiveStore s (inc n ls w) = requireLiveStore s w"
  "stock_inv (inc n ls w) = stock_inv w" "cart_inv (inc n ls w) = cart_inv w"
  "rates_inv (inc n ls w) = rates_inv w"
proof -
  have levels: "on_hand (inc n ls w) = on_hand w" "reserved (inc n ls w) = reserved w"
    by (rule on_hand_cong reserved_cong; simp)+
  show counted: "counted s (inc n ls w) = counted s w"
    by (simp add: counted_def visible_level_def fun_eq_iff)
  show "enough_stock s items (inc n ls w) = enough_stock s items w"
    by (simp add: enough_stock_def counted levels)
  show "cart_join s c (inc n ls w) = cart_join s c w"
    by (simp add: cart_join_def items_of_def variant_visible_def store_active_def)
  show "quoteDelivery metres s request lines (inc n ls w) = quoteDelivery metres s request lines w"
    "tax_quote (inc n ls w) r = tax_quote w r"
    "price_coupon now s code goods user (inc n ls w) = price_coupon now s code goods user w"
    by (rule quoteDelivery_cong tax_quote_cong price_coupon_cong; simp)+
  show "fst (nextOrderNumber s name (inc n ls w)) = fst (nextOrderNumber s name w)"
    by (simp add: nextOrderNumber_def Let_def)
  show "drawn_afresh fresh shopper s number key coupon (inc n ls w) =
      drawn_afresh fresh shopper s number key coupon w"
    by (simp add: drawn_afresh_def cong: option.case_cong)
  show "findActiveCart s shopper (inc n ls w) = findActiveCart s shopper w"
    by (simp add: findActiveCart_def active_carts_def)
  show "requireLiveStore s (inc n ls w) = requireLiveStore s w" by (simp add: requireLiveStore_def)
  show "stock_inv (inc n ls w) = stock_inv w" "cart_inv (inc n ls w) = cart_inv w"
    "rates_inv (inc n ls w) = rates_inv w"
    by (rule stock_inv_cong cart_inv_cong rates_inv_cong; simp)+
qed

lemma checkout_inc [simp]:
  "checkout_open metres now fresh shopper request c store (inc n ls w) =
     checkout_open metres now fresh shopper request c store w"
  "coupon_worth_it now shopper request c s (inc n ls w) = coupon_worth_it now shopper request c s w"
  "checkout_good (inc n ls w) = checkout_good w"
  by (simp_all add: checkout_open_def coupon_worth_it_def checkout_good_def Let_def
      cong: sum.case_cong)

end
