(* ===== verification/CheckoutProps.thy ===== *)
theory CheckoutProps
  imports CheckoutCauses
begin

text \<open>
  The properties of checkout: what an order charges and reserves, what a refused one leaves
  behind, what a retry gets, and what the metrics count.
\<close>

section \<open>What an order charges\<close>

lemma new_items_facts:
  assumes "length taxes = length items"
  shows "map oi_total (new_items oid s (cart_lines items) taxes) = map ol_total (cart_lines items)"
    and "map oi_tax (new_items oid s (cart_lines items) taxes) = taxes"
    and "length (new_items oid s (cart_lines items) taxes) = length items"
    and "\<forall>i \<in> set (new_items oid s (cart_lines items) taxes). oi_order i = oid \<and> oi_store i = s"
proof -
  let ?z = "zip (cart_lines items) taxes"
  have new: "new_items oid s (cart_lines items) taxes =
      map (\<lambda>(l, t). \<lparr>oi_order = oid, oi_store = s, oi_variant = Some (ol_variant l),
        oi_name = ol_name l, oi_attrs = ol_attrs l, oi_sku = ol_sku l, oi_unit = ol_unit l,
        oi_qty = ol_qty l, oi_total = ol_total l, oi_tax = t\<rparr>) ?z"
    using assms by (simp add: new_items_def)
  have len: "length taxes = length (cart_lines items)" using assms by simp
  have "map oi_total (new_items oid s (cart_lines items) taxes) = map ol_total (map fst ?z)"
    unfolding new by (simp add: comp_def case_prod_beta)
  then show "map oi_total (new_items oid s (cart_lines items) taxes) = map ol_total (cart_lines items)"
    using len by (simp del: map_map)
  have "map oi_tax (new_items oid s (cart_lines items) taxes) = map snd ?z"
    unfolding new by (simp add: comp_def case_prod_beta)
  then show "map oi_tax (new_items oid s (cart_lines items) taxes) = taxes"
    using len by simp
  show "length (new_items oid s (cart_lines items) taxes) = length items"
    using assms by (simp add: new)
  show "\<forall>i \<in> set (new_items oid s (cart_lines items) taxes). oi_order i = oid \<and> oi_store i = s"
    by (auto simp: new)
qed

lemma check_order_ok:
  "okE (check_order o1) \<longleftrightarrow> list_all fits_int4 (order_amounts o1) \<and>
     o_total o1 = o_subtotal o1 - o_discount o1 + o_tax o1 + o_delivery_fee o1 + o_tip o1 \<and>
     list_all (\<lambda>a. 0 \<le> a) (order_amounts o1) \<and>
     (o_fulfillment o1 = FUL_DELIVERY \<longrightarrow> o_address o1 \<noteq> None)"
  by (auto simp: check_order_def)

lemma convert_cart_done:
  assumes "x \<in> set (w_carts (convert_cart c w))" and "ca_id x = c"
  shows "ca_status x = C_CONVERTED"
proof -
  obtain r where "x = (if ca_id r = c then r\<lparr>ca_status := C_CONVERTED\<rparr> else r)"
    using assms(1) by (fastforce simp: convert_cart_def update_where_def simp del: if_split)
  then show ?thesis using assms(2) by (cases "ca_id r = c") simp_all
qed

lemma new_items_lines:
  assumes "length taxes = length items"
  shows "map (\<lambda>i. (oi_variant i, oi_name i, oi_unit i, oi_qty i, oi_total i))
      (new_items oid s (cart_lines items) taxes) =
    map (\<lambda>(i, v). (Some (va_id v), va_name v, va_price v, ci_qty i, va_price v * ci_qty i)) items"
  using assms
proof (induction items arbitrary: taxes)
  case (Cons x items)
  then obtain t ts where "taxes = t # ts" by (cases taxes) auto
  with Cons show ?case by (cases x) (auto simp: new_items_def order_line_of_def)
qed (simp add: new_items_def)

text \<open>What the rows are, from the steps that computed them.\<close>

lemma order_written:
  assumes w2: "w2 = w1\<lparr>w_counters := w_counters w2\<rparr>" and off: "off_stock w1 = off_stock w"
    and written: "write_order fresh (new_order now fresh shopper request store number
      (goods_total items) tip coupon (tx_total tr) fee) (cart_lines items) (tx_lines tr) c coupon w2 =
      Inr w'"
    and summary: "summary = summary_of (new_order now fresh shopper request store number
      (goods_total items) tip coupon (tx_total tr) fee)"
    and coupon: "price_coupon now (s_id store) (qr_coupon request) (goods_total items)
      (shopper_user shopper) w = Inr coupon"
    and tip: "normalizeTip (qr_tip request) (goods_total items) = Inr tip"
    and good: "checkout_good w" and sane: "\<forall>(i, v) \<in> set items. 0 \<le> va_price v \<and> 1 \<le> ci_qty i"
    and lines: "length (tx_lines tr) = length items"
    and tax: "sum_list (tx_lines tr) \<le> tx_total tr" and sale: "check_for_sale items = Inr ()"
  shows "\<exists>o1 its p coupon.
        w_orders w' = w_orders w @ [o1] \<and> w_items w' = w_items w @ its \<and>
        w_payments w' = w_payments w @ [p] \<and> summary = summary_of o1 \<and> o_status o1 = PENDING \<and>
        list_all (\<lambda>(i, v). for_sale v) items \<and>
        map (\<lambda>i. (oi_variant i, oi_name i, oi_unit i, oi_qty i, oi_total i)) its =
          map (\<lambda>(i, v). (Some (va_id v), va_name v, va_price v, ci_qty i, va_price v * ci_qty i)) items \<and>
        list_all (\<lambda>i. oi_order i = o_id o1) its \<and> map oi_tax its = tx_lines tr \<and>
        o_subtotal o1 = goods_total items \<and>
        price_coupon now (s_id store) (qr_coupon request) (goods_total items) (shopper_user shopper) w =
          Inr coupon \<and>
        o_discount o1 = coupon_discount coupon \<and> o_discount o1 \<le> goods_total items \<and>
        o_tax o1 = tx_total tr \<and> sum_list (tx_lines tr) \<le> o_tax o1 \<and>
        o_delivery_fee o1 = fee \<and>
        normalizeTip (qr_tip request) (goods_total items) = Inr (o_tip o1) \<and>
        o_total o1 = goods_total items - o_discount o1 + o_tax o1 + o_delivery_fee o1 + o_tip o1 \<and>
        list_all (\<lambda>a. 0 \<le> a) (order_amounts o1) \<and>
        p_order p = o_id o1 \<and> p_amount p = o_total o1 \<and> p_status p = PAY_PROCESSING \<and>
        list_all (\<lambda>x. ca_id x = c \<longrightarrow> ca_status x = C_CONVERTED) (w_carts w')"
proof -
  define o1 where "o1 = new_order now fresh shopper request store number (goods_total items) tip
    coupon (tx_total tr) fee"
  let ?its = "new_items (o_id o1) (o_store o1) (cart_lines items) (tx_lines tr)"
  note rows = write_order_Inr [OF written [folded o1_def]]
  have keeps: "w_orders w2 = w_orders w" "w_items w2 = w_items w" "w_payments w2 = w_payments w"
    by (subst w2; simp add: off_stock_keeps [OF off])+
  have fields: "o_subtotal o1 = goods_total items" "o_tax o1 = tx_total tr" "o_status o1 = PENDING"
    "o_delivery_fee o1 = fee" "o_discount o1 = coupon_discount coupon" "o_tip o1 = tip"
    "o_total o1 = goods_total items - o_discount o1 + o_tax o1 + o_delivery_fee o1 + o_tip o1"
    by (simp_all add: o1_def new_order_def Let_def coupon_discount_def)
  have nonneg: "list_all (\<lambda>a. 0 \<le> a) (order_amounts o1)" using rows by (simp add: check_order_ok)
  have disc: "o_discount o1 \<le> goods_total items"
    unfolding fields by (rule price_coupon_discount(2) [OF coupon _ goods_nonneg [OF sane]])
      (use good in \<open>simp add: checkout_good_def\<close>)
  have live: "list_all (\<lambda>(i, v). for_sale v) items" using check_for_sale_ok(1) [of items] sale by simp
  note new = new_items_facts [OF lines, of "o_id o1" "o_store o1"]
  have its: "list_all (\<lambda>i. oi_order i = o_id o1) ?its" "map oi_tax ?its = tx_lines tr"
    using new by (simp_all add: list_all_iff)
  have pay: "p_order (first_payment fresh o1) = o_id o1"
    "p_amount (first_payment fresh o1) = o_total o1"
    "p_status (first_payment fresh o1) = PAY_PROCESSING"
    by (simp_all add: first_payment_def)
  have carts: "list_all (\<lambda>x. ca_id x = c \<longrightarrow> ca_status x = C_CONVERTED) (w_carts w')"
    using rows convert_cart_done by (simp add: list_all_iff)
  have out: "w_orders w' = w_orders w @ [o1]" "w_items w' = w_items w @ ?its"
    "w_payments w' = w_payments w @ [first_payment fresh o1]" "summary = summary_of o1"
    using rows keeps summary by (simp_all add: o1_def)
  have tax1: "sum_list (tx_lines tr) \<le> o_tax o1" using tax fields(2) by simp
  have tip1: "normalizeTip (qr_tip request) (goods_total items) = Inr (o_tip o1)"
    using tip fields(6) by simp
  show ?thesis
    by (rule exI [of _ o1], rule exI [of _ ?its], rule exI [of _ "first_payment fresh o1"],
        rule exI [of _ coupon], intro conjI)
      (fact out its pay carts live disc nonneg fields coupon tax1 tip1
        new_items_lines [OF lines])+
qed

text \<open>
  C3. Checkout prices an order from the live catalogue.  The row it writes, pending, has one item
  per cart line, in order, each of a variant for sale, with that variant's name and present price,
  the quantity in the cart and their product; the subtotal is the sum of the products, the
  discount what the coupon is worth on it (at most the goods), the tax and the delivery fee what
  their providers quote, and the total is the subtotal less the discount plus tax, delivery and
  tip, nothing negative.  One payment of exactly that total awaits collection and the cart is no
  longer active.  And the amounts it computes always agree: while stock, carts, coupons and tax
  rates are as their services keep them and no price or delivery fee is negative, what stops the
  transaction is a message to the shopper, an amount beyond the column's range, an identifier in
  use or the redemption table's check of the coupon, never the checks that an order's total, its
  lines and their signs are consistent.
\<close>

theorem order_adds_up:
  assumes good: "checkout_good w"
    and address: "qr_fulfillment request = FUL_DELIVERY \<longrightarrow> qr_address request \<noteq> None"
  shows "let s = s_id store; items = cart_join s c w; goods = goods_total items;
      delivery = quoteDelivery metres s request (cart_lines items) w;
      tax = tax_quote w (tax_request_of store request (cart_lines items) (dq_fee delivery))
    in case createOrder metres now fresh shopper request c store w of
      Inr (summary, w') \<Rightarrow> \<exists>o1 its p coupon.
        w_orders w' = w_orders w @ [o1] \<and> w_items w' = w_items w @ its \<and>
        w_payments w' = w_payments w @ [p] \<and> summary = summary_of o1 \<and> o_status o1 = PENDING \<and>
        list_all (\<lambda>(i, v). for_sale v) items \<and>
        map (\<lambda>i. (oi_variant i, oi_name i, oi_unit i, oi_qty i, oi_total i)) its =
          map (\<lambda>(i, v). (Some (va_id v), va_name v, va_price v, ci_qty i, va_price v * ci_qty i)) items \<and>
        list_all (\<lambda>i. oi_order i = o_id o1) its \<and> map oi_tax its = tx_lines tax \<and>
        o_subtotal o1 = goods \<and>
        price_coupon now s (qr_coupon request) goods (shopper_user shopper) w = Inr coupon \<and>
        o_discount o1 = coupon_discount coupon \<and> o_discount o1 \<le> goods \<and>
        o_tax o1 = tx_total tax \<and> sum_list (tx_lines tax) \<le> o_tax o1 \<and>
        o_delivery_fee o1 = dq_fee delivery \<and>
        normalizeTip (qr_tip request) goods = Inr (o_tip o1) \<and>
        o_total o1 = goods - o_discount o1 + o_tax o1 + o_delivery_fee o1 + o_tip o1 \<and>
        list_all (\<lambda>a. 0 \<le> a) (order_amounts o1) \<and>
        p_order p = o_id o1 \<and> p_amount p = o_total o1 \<and> p_status p = PAY_PROCESSING \<and>
        list_all (\<lambda>x. ca_id x = c \<longrightarrow> ca_status x = C_CONVERTED) (w_carts w')
    | Inl e \<Rightarrow> (\<exists>m. e = Validation m) \<or> table_causes e"
proof (cases "createOrder metres now fresh shopper request c store w")
  case (Inl e)
  then show ?thesis using createOrder_open(2) [OF good address Inl] by (simp add: Let_def)
next
  case (Inr r)
  obtain summary w' where r: "r = (summary, w')" by (cases r)
  let ?items = "cart_join (s_id store) c w"
  have ok: "createOrder metres now fresh shopper request c store w = Inr (summary, w')"
    using Inr r by simp
  obtain w1 where start: "?items \<noteq> []" "check_for_sale ?items = Inr ()"
      "foldE (reserve_line (s_id store)) ?items w = Inr w1"
    using ok refl by (rule createOrder_Inr)
  note rates = good [unfolded checkout_good_def, THEN conjunct2, THEN conjunct2, THEN conjunct2,
      THEN conjunct1]
  define dq where "dq = quoteDelivery metres (s_id store) request (cart_lines ?items) w"
  define tr where "tr = tax_quote w (tax_request_of store request (cart_lines ?items) (dq_fee dq))"
  have off: "off_stock w1 = off_stock w" using foldE_reserve_effect [OF start(3)] by simp
  have sane: "\<forall>(i, v) \<in> set ?items. 0 \<le> va_price v \<and> 1 \<le> ci_qty i"
    using cart_join_sane [OF good] by blast
  have fee: "0 \<le> dq_fee dq" unfolding dq_def
    by (rule quoteDelivery_fee) (use good in \<open>simp add: checkout_good_def\<close>)
  have lines: "length (tx_lines tr) = length ?items"
    by (simp add: tr_def configured.quote_lines tax_request_of_def)
  have tax: "sum_list (tx_lines tr) \<le> tx_total tr"
    unfolding tr_def by (rule configured.quote_total [OF rates order_tax_sane [OF sane fee]])
  show ?thesis
  proof (rule createOrder_rest [where metres = metres and request = request and now = now and
        fresh = fresh and shopper = shopper, OF refl start dq_def tr_def refl])
    fix w2
    let ?o1 = "\<lambda>tip coupon. new_order now fresh shopper request store
      (fst (nextOrderNumber (s_id store) (s_name store) w)) (goods_total ?items) tip coupon
      (tx_total tr) (dq_fee dq)"
    assume w2: "w2 = w1\<lparr>w_counters := w_counters w2\<rparr>"
      and "createOrder metres now fresh shopper request c store w =
        bindE (guardE (\<not> (qr_fulfillment request = FUL_DELIVERY \<and> dq_problem dq \<noteq> None))
          (Validation (the (dq_problem dq)))) (\<lambda>_.
        bindE (normalizeTip (qr_tip request) (goods_total ?items)) (\<lambda>tip.
        bindE (price_coupon now (s_id store) (qr_coupon request) (goods_total ?items)
          (shopper_user shopper) w) (\<lambda>coupon.
        bindE (write_order fresh (?o1 tip coupon) (cart_lines ?items) (tx_lines tr) c coupon w2)
          (\<lambda>w3. Inr (summary_of (?o1 tip coupon), w3)))))"
    with ok obtain tip coupon where tip: "normalizeTip (qr_tip request) (goods_total ?items) = Inr tip"
      and coupon: "price_coupon now (s_id store) (qr_coupon request) (goods_total ?items)
        (shopper_user shopper) w = Inr coupon"
      and written: "write_order fresh (?o1 tip coupon) (cart_lines ?items) (tx_lines tr) c coupon w2 =
        Inr w'"
      and summary: "summary = summary_of (?o1 tip coupon)"
      by auto
    show ?thesis
      unfolding ok sum.case prod.case Let_def dq_def [symmetric] tr_def [symmetric]
      by (rule order_written [OF w2 off written summary coupon tip good sane lines tax start(2)])
  qed
qed

section \<open>A shop ready for checkout\<close>

definition sample_basket :: world where
  "sample_basket = sample_shop\<lparr>
     w_carts := [\<lparr>ca_id = ''g1'', ca_store = ''s1'', ca_user = None, ca_session = Some ''k'',
       ca_status = C_ACTIVE, ca_expires = 0\<rparr>],
     w_cart_items := [\<lparr>ci_id = ''i1'', ci_cart = ''g1'', ci_store = ''s1'', ci_variant = ''v1'',
       ci_qty = 2, ci_price = 500\<rparr>]\<rparr>"

definition sample_place :: place_request where
  "sample_place =
     \<lparr>qr_fulfillment = FUL_PICKUP, qr_address = None, qr_tip = Some (Whole 100), qr_coupon = None,
      qr_email = None, qr_phone = None, qr_note = None, qr_key = ''key1''\<rparr>"

definition sample_fresh :: fresh where
  "sample_fresh = \<lparr>fr_order = ''o1'', fr_token = ''tok1'', fr_payment = ''pay1''\<rparr>"

abbreviation nowhere :: distance where
  "nowhere \<equiv> \<lambda>_ _ _ _. 0"

lemma sample_basket_levels:
  "w_levels sample_basket = w_levels sample_shop \<and> w_movements sample_basket = w_movements sample_shop \<and>
   w_rates sample_basket = [] \<and> w_coupons sample_basket = [] \<and> w_redemptions sample_basket = [] \<and>
   w_variants sample_basket = w_variants sample_shop \<and> w_orders sample_basket = [] \<and>
   w_payments sample_basket = [] \<and> w_items sample_basket = []"
  by (simp add: sample_basket_def sample_shop_def empty_world_def)

lemma sample_basket_inv:
  "stock_inv sample_basket" "cart_inv sample_basket" "orders_inv sample_basket"
  "coupons_inv sample_basket" "rates_inv sample_basket"
  "\<forall>v \<in> set (w_variants sample_basket). 0 \<le> va_price v"
proof -
  show "stock_inv sample_basket"
    using stock_inv_cong [of sample_basket sample_shop] sample_basket_levels sample_shop_stock_inv
    by simp
  show "cart_inv sample_basket"
    by (simp add: cart_inv_def carts_inv_def items_inv_def sample_basket_def MAX_QTY_PER_LINE_def)
  show "orders_inv sample_basket" "coupons_inv sample_basket" "rates_inv sample_basket"
    "\<forall>v \<in> set (w_variants sample_basket). 0 \<le> va_price v"
    using sample_basket_levels
    by (simp_all add: orders_inv_def orders_ok_def payments_ok_def items_ok_def coupons_inv_def
        rates_inv_def defaults_of_def sample_shop_def)
qed

lemma sample_create_ok:
  "okE (createOrder nowhere 5 sample_fresh (Guest ''k'') sample_place ''g1'' (sample_store ACTIVE)
     sample_basket)"
  by code_simp

lemma sample_basket_good: "checkout_good sample_basket"
proof -
  have "list_all (\<lambda>v. 0 \<le> va_price v) (w_variants sample_basket)"
    "list_all (\<lambda>z. 0 \<le> z_fee z) (w_zones sample_basket)"
    by code_simp+
  then show ?thesis using sample_basket_inv by (simp add: checkout_good_def)
qed

theorem order_adds_up_witness:
  "\<exists>summary w' o1 its. createOrder nowhere 5 sample_fresh (Guest ''k'') sample_place ''g1''
       (sample_store ACTIVE) sample_basket = Inr (summary, w') \<and>
     w_orders w' = [o1] \<and> w_items w' = its \<and> o_subtotal o1 = 1000 \<and>
     map (\<lambda>i. (oi_variant i, oi_unit i, oi_qty i)) its = [(Some ''v1'', 500, 2)] \<and>
     o_total o1 = 1000 - o_discount o1 + o_tax o1 + o_delivery_fee o1 + o_tip o1"
proof -
  obtain summary w' where ok: "createOrder nowhere 5 sample_fresh (Guest ''k'') sample_place ''g1''
      (sample_store ACTIVE) sample_basket = Inr (summary, w')"
    using sample_create_ok by (auto simp: okE_iff)
  have items: "map (\<lambda>(i, v). (Some (va_id v), va_name v, va_price v, ci_qty i, va_price v * ci_qty i))
      (cart_join (s_id (sample_store ACTIVE)) ''g1'' sample_basket) =
        [(Some ''v1'', ''Tea'', 500, 2, 1000)]"
    and goods: "goods_total (cart_join (s_id (sample_store ACTIVE)) ''g1'' sample_basket) = 1000"
    by code_simp+
  have "qr_fulfillment sample_place = FUL_DELIVERY \<longrightarrow> qr_address sample_place \<noteq> None"
    by (simp add: sample_place_def)
  from order_adds_up [OF sample_basket_good this, where metres = nowhere and now = 5 and
      fresh = sample_fresh and shopper = "Guest ''k''" and c = "''g1''" and
      store = "sample_store ACTIVE", unfolded ok sum.case prod.case Let_def goods items]
  show ?thesis using ok sample_basket_levels by fastforce
qed

section \<open>What an order reserves\<close>

text \<open>
  C1. An order that went through holds, of every variant its store counts, exactly the quantity
  in the cart, on top of what was held, and nothing else; what is on the shelf and the ledger do
  not move, and no variant is ever promised beyond what is on its shelf.
\<close>

theorem order_reserves:
  assumes "stock_inv w"
    and "createOrder metres now fresh shopper request c store w = Inr (summary, w')"
  shows "\<forall>u. on_hand w' u = on_hand w u \<and> ledger_sum w' u = ledger_sum w u \<and>
    reserved w' u = reserved w u + (if counted (s_id store) w u
      then sum_where (\<lambda>(i, v). va_id v = u) (\<lambda>(i, v). ci_qty i) (cart_join (s_id store) c w) else 0) \<and>
    reserved w' u \<le> on_hand w' u"
proof -
  have "stock_inv w'" using createOrder_invs [OF assms(2)] assms(1) by blast
  moreover have "ledger_sum w' = ledger_sum w"
    using createOrder_stock [OF assms(2)] ledger_sum_cong by blast
  ultimately show ?thesis
    using createOrder_stock [OF assms(2)] stock_inv_available [of w'] by (simp add: wanted_def)
qed

theorem order_reserves_witness:
  "\<exists>summary w'. createOrder nowhere 5 sample_fresh (Guest ''k'') sample_place ''g1''
       (sample_store ACTIVE) sample_basket = Inr (summary, w') \<and>
     reserved w' ''v1'' = 2 \<and> on_hand w' ''v1'' = 2"
proof -
  obtain summary w' where ok: "createOrder nowhere 5 sample_fresh (Guest ''k'') sample_place ''g1''
      (sample_store ACTIVE) sample_basket = Inr (summary, w')"
    using sample_create_ok by (auto simp: okE_iff)
  have "on_hand sample_basket ''v1'' = 2" "reserved sample_basket ''v1'' = 0"
    "counted (s_id (sample_store ACTIVE)) sample_basket ''v1''"
    "sum_where (\<lambda>(i, v). va_id v = ''v1'') (\<lambda>(i, v). ci_qty i)
      (cart_join (s_id (sample_store ACTIVE)) ''g1'' sample_basket) = 2"
    by code_simp+
  with order_reserves [OF sample_basket_inv(1) ok] ok show ?thesis by auto
qed

end
