(* ===== verification/CheckoutRetry.thy ===== *)
theory CheckoutRetry
  imports CheckoutProps
begin

text \<open>
  Refused, repeated and racing checkouts: what they leave behind, what they answer and what the
  checkout counters of \<open>infra/observability/checkout-metrics.ts\<close> make of them.
\<close>

section \<open>The shape of an answer\<close>

lemma place_finish_cases:
  assumes "place_finish metres now fresh shopper request store cart w = (r, w')"
  obtains (ordered) c summary w1 where "cart = Inr c"
      and "createOrder metres now fresh shopper request c store w = Inr (summary, w1)"
      and "r = Inr summary" and "w' = completions (qr_fulfillment request) w1"
  | (winner) created where "findByIdempotencyKey (s_id store) (qr_key request) w = Some created"
      and "r = Inr created" and "w' = completions (qr_fulfillment request) w"
  | (refused) e where "bindE cart (\<lambda>c. createOrder metres now fresh shopper request c store w) = Inl e"
      and "\<not> isUniqueViolation e \<or> findByIdempotencyKey (s_id store) (qr_key request) w = None"
      and "r = Inl e" and "w' = failures (qr_fulfillment request) e w"
proof (cases "bindE cart (\<lambda>c. createOrder metres now fresh shopper request c store w)")
  case (Inr p)
  then obtain c summary w1 where "cart = Inr c"
    "createOrder metres now fresh shopper request c store w = Inr (summary, w1)" "p = (summary, w1)"
    by (cases p) auto
  with assms Inr show ?thesis by (intro ordered) (auto simp: place_finish_def)
next
  case (Inl e)
  show ?thesis
  proof (cases "if isUniqueViolation e
      then findByIdempotencyKey (s_id store) (qr_key request) w else None")
    case None
    with assms Inl show ?thesis
      by (intro refused [of e]) (auto simp: place_finish_def Let_def split: if_splits)
  next
    case (Some created)
    with assms Inl show ?thesis
      by (intro winner [of created]) (auto simp: place_finish_def Let_def split: if_splits)
  qed
qed

lemma place_cases:
  assumes "placeOrder metres now fresh s shopper request w = (r, w')"
  obtains (closed) e where "requireLiveStore s w = Inl e" and "r = Inl e" and "w' = w"
  | (replayed) store existing where "requireLiveStore s w = Inr store"
      and "findByIdempotencyKey s (qr_key request) w = Some existing"
      and "r = Inr existing" and "w' = replays (qr_fulfillment request) w"
  | (attempted) store where "requireLiveStore s w = Inr store"
      and "findByIdempotencyKey s (qr_key request) w = None"
      and "place_finish metres now fresh shopper request store
             (place_cart s shopper request (attempts (qr_fulfillment request) w))
             (attempts (qr_fulfillment request) w) = (r, w')"
  using assms by (auto simp: placeOrder_def Let_def split: sum.splits option.splits)

lemma requireLiveStore_id: "requireLiveStore s w = Inr store \<Longrightarrow> s_id store = s"
  by (auto simp: requireLiveStore_def notFound_def split: option.splits dest: findD)

lemma find_key_metrics [simp]:
  "findByIdempotencyKey s k (inc n ls w) = findByIdempotencyKey s k w"
  by (simp add: findByIdempotencyKey_def)

lemmas counter_defs = attempts_def completions_def failures_def replays_def

lemma createOrder_row:
  assumes "createOrder metres now fresh shopper request c store w = Inr (summary, w')"
  shows "\<exists>o1. w_orders w' = w_orders w @ [o1] \<and> summary = summary_of o1 \<and>
    o_store o1 = s_id store \<and> o_idem o1 = Some (qr_key request) \<and>
    (\<forall>x \<in> set (w_orders w). \<not> order_clash o1 x) \<and> w_metrics w' = w_metrics w"
  using assms refl
proof (rule createOrder_Inr)
  fix w1 w2 :: world and tip coupon number fee tr o1
  assume w1: "foldE (reserve_line (s_id store)) (cart_join (s_id store) c w) w = Inr w1"
    and w2: "w2 = w1\<lparr>w_counters := w_counters w2\<rparr>"
    and o1: "o1 = new_order now fresh shopper request store number
           (goods_total (cart_join (s_id store) c w)) tip coupon (tx_total tr) fee"
    and w': "write_order fresh o1 (cart_lines (cart_join (s_id store) c w)) (tx_lines tr)
      c coupon w2 = Inr w'"
    and summary: "summary = summary_of o1"
  have off: "off_stock w1 = off_stock w" using foldE_reserve_effect [OF w1] by simp
  have "w_orders w2 = w_orders w" "w_metrics w2 = w_metrics w"
    by (subst w2; simp add: off_stock_keeps [OF off])+
  moreover have "o_store o1 = s_id store" "o_idem o1 = Some (qr_key request)"
    by (simp_all add: o1 new_order_def Let_def)
  ultimately show ?thesis using write_order_Inr [OF w'] summary
    by (intro exI [of _ o1]) simp
qed

section \<open>A refused checkout\<close>

definition off_metrics :: "world \<Rightarrow> world" where
  "off_metrics w = w\<lparr>w_metrics := []\<rparr>"

lemma off_metrics_inc [simp]: "off_metrics (inc n ls w) = off_metrics w"
  by (simp add: off_metrics_def inc_def)

text \<open>The cart a request is about, where its coupon is accepted for something.\<close>

definition coupon_counts :: "int \<Rightarrow> string \<Rightarrow> shopper \<Rightarrow> place_request \<Rightarrow> world \<Rightarrow> bool" where
  "coupon_counts now s shopper request w =
     (case findActiveCart s shopper w of None \<Rightarrow> True
      | Some c \<Rightarrow> coupon_worth_it now shopper request c s w)"

lemma place_cart_inc [simp]:
  "place_cart s shopper request (inc n ls w) = place_cart s shopper request w"
  by (simp add: place_cart_def requireCartId_def)

lemma place_cart_Inr:
  "place_cart s shopper request w = Inr c \<longleftrightarrow>
     (qr_fulfillment request = FUL_DELIVERY \<longrightarrow> qr_address request \<noteq> None) \<and>
     findActiveCart s shopper w = Some c"
  by (auto simp: place_cart_def requireCartId_def split: option.splits)

lemma place_cart_Inl: "place_cart s shopper request w = Inl e \<Longrightarrow> \<exists>m. e = Validation m"
  by (auto simp: place_cart_def requireCartId_def split: option.splits if_splits)

text \<open>
  C6. While stock, carts, coupons and tax rates are as their services keep them and no price or
  delivery fee is negative, a checkout under a new key goes through exactly when it can, and a
  refused one leaves nothing behind.  It goes through when the shop is live, a delivery names an
  address, the shopper's cart holds something, every line is for sale, every variant the shop
  counts is available in the quantity asked (down to the last unit), a zone delivers to the
  address for the basket, the tip is sane, the coupon if any is accepted, the amounts fit their
  columns and the order's identifiers are new.  Then one order is written under the key and
  returned.  When one of these fails the request is refused and the database is as it was: no
  order, no reservation, no payment, no coupon use, a cart still active; only the counters move.
  (A coupon that rounds to nothing is left out by hypothesis: it is a fault of its own.)
\<close>

theorem checkout_refused_for_cause:
  assumes "checkout_good w" and "findByIdempotencyKey s (qr_key request) w = None"
    and "coupon_counts now s shopper request w"
    and "placeOrder metres now fresh s shopper request w = (r, w')"
  shows "(okE r \<longleftrightarrow> checkout_possible metres now fresh s shopper request w) \<and>
    (case r of
       Inr summary \<Rightarrow> \<exists>o1. w_orders w' = w_orders w @ [o1] \<and> summary = summary_of o1 \<and>
         o_store o1 = s \<and> o_idem o1 = Some (qr_key request)
     | Inl e \<Rightarrow> off_metrics w' = off_metrics w)"
  using assms(4)
proof (cases rule: place_cases)
  case (closed e)
  then show ?thesis by (simp add: checkout_possible_def)
next
  case (replayed store existing)
  then show ?thesis using assms(2) by simp
next
  case (attempted store)
  let ?w = "attempts (qr_fulfillment request) w"
  have s: "s_id store = s" using requireLiveStore_id [OF attempted(1)] .
  have none: "findByIdempotencyKey (s_id store) (qr_key request) ?w = None"
    using attempted(2) s by (simp add: attempts_def)
  have good: "checkout_good ?w" using assms(1) by (simp add: attempts_def)
  have cart: "place_cart s shopper request ?w = place_cart s shopper request w"
    by (simp add: attempts_def)
  have open1: "okE (createOrder metres now fresh shopper request c store ?w) \<longleftrightarrow>
      checkout_open metres now fresh shopper request c store w"
    if "place_cart s shopper request w = Inr c" for c
    using that createOrder_open(1) [OF good, of request metres now fresh shopper c store] assms(3)
    by (simp add: place_cart_Inr attempts_def s coupon_counts_def)
  from attempted(3) show ?thesis
  proof (cases rule: place_finish_cases)
    case (ordered c summary w1)
    then have "checkout_possible metres now fresh s shopper request w"
      using open1 [of c] attempted(1) by (simp add: checkout_possible_def cart place_cart_Inr)
    then show ?thesis using createOrder_row [OF ordered(2)] ordered(3,4) s
      by (auto simp: counter_defs)
  next
    case (winner created)
    then show ?thesis using none by simp
  next
    case (refused e)
    have "\<not> checkout_possible metres now fresh s shopper request w"
    proof
      assume p: "checkout_possible metres now fresh s shopper request w"
      then obtain c where c: "place_cart s shopper request w = Inr c"
        "checkout_open metres now fresh shopper request c store w"
        using attempted(1) by (auto simp: checkout_possible_def place_cart_Inr split: option.splits)
      then have "okE (createOrder metres now fresh shopper request c store ?w)" using open1 by simp
      then show False using refused(1) c(1) by (auto simp: cart okE_iff)
    qed
    then show ?thesis using refused(3,4) by (simp add: counter_defs split: prod.splits)
  qed
qed

theorem checkout_refused_for_cause_witness:
  "\<exists>r w'. placeOrder nowhere 5 sample_fresh ''s1'' (Guest ''k'') sample_place sample_basket = (r, w') \<and>
     okE r \<and> (\<exists>o1. w_orders w' = w_orders sample_basket @ [o1] \<and> o_idem o1 = Some ''key1'')"
proof -
  have new: "findByIdempotencyKey ''s1'' (qr_key sample_place) sample_basket = None"
    using sample_basket_levels by (simp add: findByIdempotencyKey_def)
  have possible: "checkout_possible nowhere 5 sample_fresh ''s1'' (Guest ''k'') sample_place sample_basket"
    and counts: "coupon_counts 5 ''s1'' (Guest ''k'') sample_place sample_basket"
    by code_simp+
  obtain r w' where placed: "placeOrder nowhere 5 sample_fresh ''s1'' (Guest ''k'') sample_place
      sample_basket = (r, w')" by fastforce
  have "qr_key sample_place = ''key1''" by (simp add: sample_place_def)
  with checkout_refused_for_cause [OF sample_basket_good new counts placed] possible placed
  show ?thesis by (auto simp: okE_iff)
qed

section \<open>A retry\<close>

lemma find_key_after:
  assumes "createOrder metres now fresh shopper request c store w = Inr (summary, w')"
    and "findByIdempotencyKey (s_id store) (qr_key request) w = None"
  shows "findByIdempotencyKey (s_id store) (qr_key request) w' = Some summary"
  using createOrder_row [OF assms(1)] assms(2)
  by (auto simp: findByIdempotencyKey_def find_app)

text \<open>A key that is taken stops the transaction: no second order is ever written for it.\<close>

lemma key_taken_no_order:
  assumes "findByIdempotencyKey (s_id store) (qr_key request) w = Some winner"
  shows "createOrder metres now fresh shopper request c store w \<noteq> Inr (summary, w')"
proof
  assume "createOrder metres now fresh shopper request c store w = Inr (summary, w')"
  from createOrder_row [OF this] obtain o1 where o1: "o_store o1 = s_id store"
    "o_idem o1 = Some (qr_key request)" "\<forall>x \<in> set (w_orders w). \<not> order_clash o1 x"
    by blast
  obtain x where "x \<in> set (w_orders w)" "o_store x = s_id store" "o_idem x = Some (qr_key request)"
    using assms by (auto simp: findByIdempotencyKey_def dest: findD)
  with o1 show False by (auto simp: order_clash_def)
qed

lemma requireLiveStore_cong: "w_stores w = w_stores w' \<Longrightarrow> requireLiveStore s w = requireLiveStore s w'"
  by (simp add: requireLiveStore_def)

lemma key_answered:
  assumes "placeOrder metres now fresh s shopper request w = (Inr summary, w1)"
  shows "findByIdempotencyKey s (qr_key request) w1 = Some summary"
  using assms
proof (cases rule: place_cases)
  case (attempted store)
  have s: "s_id store = s" using requireLiveStore_id [OF attempted(1)] .
  have none: "findByIdempotencyKey (s_id store) (qr_key request)
      (attempts (qr_fulfillment request) w) = None"
    using attempted(2) s by (simp add: attempts_def)
  from attempted(3) show ?thesis
  proof (cases rule: place_finish_cases)
    case (ordered c summary' w2)
    then show ?thesis using find_key_after [OF ordered(2) none] s by (simp add: completions_def)
  next
    case (winner created)
    then show ?thesis using none by simp
  qed simp
qed (simp_all add: replays_def)

text \<open>
  The key is the shop's and not the shopper's: whoever uses it next gets the order, its number
  and its claim token.
\<close>

lemma key_answers_anyone:
  assumes "placeOrder metres now fresh s shopper request w = (Inr summary, w1)"
    and "okE (requireLiveStore s w1)" and "qr_key again = qr_key request"
  shows "placeOrder metres later fresh2 s anyone again w1 =
    (Inr summary, replays (qr_fulfillment again) w1)"
  using key_answered [OF assms(1)] assms(2,3) by (auto simp: placeOrder_def okE_iff)

definition sample_ordered :: world where
  "sample_ordered = snd (placeOrder nowhere 5 sample_fresh ''s1'' (Guest ''k'') sample_place sample_basket)"

lemma sample_placed:
  obtains summary where "placeOrder nowhere 5 sample_fresh ''s1'' (Guest ''k'') sample_place
    sample_basket = (Inr summary, sample_ordered)"
proof -
  have "okE (fst (placeOrder nowhere 5 sample_fresh ''s1'' (Guest ''k'') sample_place sample_basket))"
    by code_simp
  then obtain summary w1 where "placeOrder nowhere 5 sample_fresh ''s1'' (Guest ''k'') sample_place
      sample_basket = (Inr summary, w1)"
    by (rule okE_fstE)
  then show thesis by (intro that [of summary]) (simp add: sample_ordered_def)
qed

section \<open>Two at once\<close>

text \<open>
  C32. When two checkouts under one key have both found no order and one has committed, the other
  cannot write a second one, whatever it read of the cart: it either answers with the winner's
  order or refuses, and the database keeps exactly the winner's rows.
\<close>

theorem race_writes_one_order:
  assumes "findByIdempotencyKey (s_id store) (qr_key request) w = Some winner"
    and "place_finish metres now fresh shopper request store cart w = (r, w')"
  shows "off_metrics w' = off_metrics w \<and> (r = Inr winner \<or> (\<exists>e. r = Inl e \<and> \<not> isUniqueViolation e))"
  using assms(2)
proof (cases rule: place_finish_cases)
  case (ordered c summary w1)
  then show ?thesis using key_taken_no_order [OF assms(1)] by blast
qed (use assms(1) in \<open>auto simp: counter_defs split: prod.splits\<close>)

text \<open>The moment after a first checkout took the two units under its key.\<close>

definition sample_raced :: world where
  "sample_raced = sample_basket\<lparr>
     w_orders := [\<lparr>o_id = ''o9'', o_store = ''s1'', o_number = ''MOR-1000'', o_customer = None,
       o_channel = ONLINE, o_fulfillment = FUL_PICKUP, o_status = PENDING, o_subtotal = 1000,
       o_discount = 0, o_tax = 0, o_delivery_fee = 0, o_tip = 100, o_total = 1100,
       o_currency = ''USD'', o_address = None, o_note = None, o_email = None, o_phone = None,
       o_guest_token = Some ''tok9'', o_idem = Some ''key1'', o_coupon = None,
       o_coupon_code = None, o_placed_at = 4, o_expires_at = Some 9\<rparr>],
     w_levels := [''v1'' \<mapsto> \<lparr>sl_store = ''s1'', sl_on_hand = 2, sl_reserved = 2,
         sl_tracked = True, sl_reorder_point = None, sl_reorder_qty = None\<rparr>]\<rparr>"

lemma sample_winner:
  obtains winner where "findByIdempotencyKey ''s1'' ''key1'' sample_raced = Some winner"
    and "findByIdempotencyKey (s_id (sample_store ACTIVE)) (qr_key sample_place) sample_raced =
      Some winner"
  by (simp add: findByIdempotencyKey_def sample_raced_def sample_store_def sample_place_def)

theorem race_writes_one_order_witness:
  "\<exists>winner r w'. findByIdempotencyKey ''s1'' ''key1'' sample_raced = Some winner \<and>
     place_finish nowhere 6 sample_fresh (Guest ''k'') sample_place (sample_store ACTIVE)
       (place_cart ''s1'' (Guest ''k'') sample_place sample_basket) sample_raced = (r, w') \<and>
     off_metrics w' = off_metrics sample_raced"
proof -
  obtain winner where win: "findByIdempotencyKey ''s1'' ''key1'' sample_raced = Some winner"
    "findByIdempotencyKey (s_id (sample_store ACTIVE)) (qr_key sample_place) sample_raced =
      Some winner"
    by (rule sample_winner)
  obtain r w' where fin: "place_finish nowhere 6 sample_fresh (Guest ''k'') sample_place
      (sample_store ACTIVE) (place_cart ''s1'' (Guest ''k'') sample_place sample_basket)
      sample_raced = (r, w')"
    by fastforce
  from race_writes_one_order [OF win(2) fin] win(1) fin show ?thesis by blast
qed

end
