(* ===== verification/CheckoutFailures.thy ===== *)
theory CheckoutFailures
  imports CheckoutRetry
begin

text \<open>
  The checkout counters, and two ways a checkout goes wrong that its comments say it does not: a
  retry that loses the race for the last unit, and a coupon that rounds to nothing.
\<close>

section \<open>The counters\<close>

definition count_metric :: "string \<Rightarrow> fulfillment \<Rightarrow> world \<Rightarrow> nat" where
  "count_metric name f w =
     count_where (\<lambda>m. me_name m = name \<and> take 1 (me_labels m) = [fulfillment_label f]) (w_metrics w)"

definition balanced :: "fulfillment \<Rightarrow> world \<Rightarrow> bool" where
  "balanced f w =
     (count_metric ''checkout_attempts_total'' f w =
      count_metric ''checkout_completions_total'' f w + count_metric ''checkout_failures_total'' f w)"

lemma label_inject: "fulfillment_label f = fulfillment_label g \<longleftrightarrow> f = g"
  by (cases f; cases g) simp_all

lemma count_metric_inc:
  "count_metric name f (inc n (l # ls) w) =
     count_metric name f w + (if n = name \<and> l = fulfillment_label f then 1 else 0)"
  by (auto simp: count_metric_def inc_def)

lemma count_metric_cong: "w_metrics w = w_metrics w' \<Longrightarrow> count_metric n f w = count_metric n f w'"
  by (simp add: count_metric_def)

lemma place_finish_counts:
  assumes "place_finish metres now fresh shopper request store cart w = (r, w')"
  shows "count_metric ''checkout_attempts_total'' f w' = count_metric ''checkout_attempts_total'' f w \<and>
    count_metric ''checkout_completions_total'' f w' =
      count_metric ''checkout_completions_total'' f w +
        (if f = qr_fulfillment request \<and> okE r then 1 else 0) \<and>
    count_metric ''checkout_failures_total'' f w' =
      count_metric ''checkout_failures_total'' f w +
        (if f = qr_fulfillment request \<and> \<not> okE r then 1 else 0)"
  using assms
proof (cases rule: place_finish_cases)
  case (ordered c summary w1)
  have "count_metric n f w1 = count_metric n f w" for n
    using createOrder_row [OF ordered(2)] by (intro count_metric_cong) auto
  then show ?thesis using ordered
    by (auto simp: counter_defs count_metric_inc label_inject)
next
  case (winner created)
  then show ?thesis by (auto simp: counter_defs count_metric_inc label_inject)
next
  case (refused e)
  then show ?thesis by (auto simp: counter_defs count_metric_inc label_inject split: prod.split)
qed

text \<open>
  Attempts are completions plus failures, per kind of fulfilment, whatever checkouts are
  placed: an order is a completion, a refusal or an error a failure, and a replay is neither
  (nor an attempt).
\<close>

theorem checkout_counters_balance:
  assumes "balanced f w" and "placeOrder metres now fresh s shopper request w = (r, w')"
  shows "balanced f w' \<and>
    (count_metric ''checkout_completions_total'' f w' = count_metric ''checkout_completions_total'' f w
       \<or> okE r) \<and>
    (count_metric ''checkout_failures_total'' f w' = count_metric ''checkout_failures_total'' f w
       \<or> \<not> okE r)"
  using assms(2)
proof (cases rule: place_cases)
  case (closed e)
  then show ?thesis using assms(1) by simp
next
  case (replayed store existing)
  then show ?thesis
    using assms(1) by (simp add: balanced_def counter_defs count_metric_inc)
next
  case (attempted store)
  show ?thesis
    using place_finish_counts [OF attempted(3), of f] assms(1)
    by (auto simp: balanced_def counter_defs count_metric_inc label_inject)
qed

theorem checkout_counters_balance_witness:
  "balanced FUL_PICKUP sample_basket \<and> balanced FUL_PICKUP sample_ordered"
proof -
  have "balanced FUL_PICKUP sample_basket" by code_simp
  then show ?thesis using checkout_counters_balance sample_placed by metis
qed

section \<open>A retry that loses the last unit\<close>

text \<open>
  Two retries of one checkout can both find no order; when the first takes the last units,
  the second is refused as sold out before it reaches the unique index that would have sent it
  to the winner's order: the shopper is told the order failed although it exists.
\<close>

theorem retry_told_sold_out:
  assumes "findByIdempotencyKey (s_id store) (qr_key request) w = Some winner"
    and "cart_join (s_id store) c w = [(i, v)]" and "for_sale v"
    and "counted (s_id store) w (va_id v)"
    and "on_hand w (va_id v) - reserved w (va_id v) < ci_qty i"
  shows "\<exists>msg w'. place_finish metres now fresh shopper request store (Inr c) w =
    (Inl (Validation msg), w')"
proof -
  obtain l where l: "visible_level (in_store (s_id store)) w (va_id v) = Some l" "sl_tracked l"
    using assms(4) by (auto simp: counted_def split: option.splits)
  then have "w_levels w (va_id v) = Some l" by (simp add: visible_in_store)
  then have "sl_on_hand l - sl_reserved l < ci_qty i"
    using assms(5) by (simp add: on_hand_def reserved_def)
  then obtain msg where "reserve_line (s_id store) (i, v) w = Inl (Validation msg)"
    using l by (auto simp: reserve_line_def Let_def)
  then have "createOrder metres now fresh shopper request c store w = Inl (Validation msg)"
    using assms(2,3) by (simp add: createOrder_def check_for_sale_def)
  then show ?thesis by (auto simp: place_finish_def Let_def)
qed

theorem retry_told_sold_out_witness:
  "\<exists>winner msg w'. findByIdempotencyKey ''s1'' ''key1'' sample_raced = Some winner \<and>
     place_finish nowhere 6 sample_fresh (Guest ''k'') sample_place (sample_store ACTIVE)
       (Inr ''g1'') sample_raced = (Inl (Validation msg), w')"
proof -
  obtain winner where win: "findByIdempotencyKey ''s1'' ''key1'' sample_raced = Some winner"
    "findByIdempotencyKey (s_id (sample_store ACTIVE)) (qr_key sample_place) sample_raced =
      Some winner"
    by (rule sample_winner)
  let ?cart = "cart_join (s_id (sample_store ACTIVE)) ''g1'' sample_raced"
  have one: "length ?cart = 1"
    and each: "\<forall>(i, v) \<in> set ?cart.
        for_sale v \<and> counted (s_id (sample_store ACTIVE)) sample_raced (va_id v) \<and>
        on_hand sample_raced (va_id v) - reserved sample_raced (va_id v) < ci_qty i"
    by code_simp+
  obtain i v where "?cart = [(i, v)]" using one by (auto simp: length_Suc_conv)
  with retry_told_sold_out [OF win(2) this] each win(1) show ?thesis by auto
qed

section \<open>A coupon worth nothing\<close>

lemma coupon_quote_cong:
  assumes "w_coupons w = w_coupons w'" and "w_redemptions w = w_redemptions w'"
  shows "coupon_quote now s code t u w = coupon_quote now s code t u w'"
  unfolding coupon_quote_def redemptions_of_def assms by (rule refl)

text \<open>
  A coupon whose discount rounds to zero cents is quoted as valid, and no order can be placed
  with it: the row that records its use must have a positive amount, so the transaction fails.
\<close>

theorem zero_discount_blocks_checkout:
  assumes "qr_coupon request = Some code" and "code \<noteq> []"
    and "coupon_quote now (s_id store) code
           (sum_list (map (\<lambda>(i, v). va_price v * ci_qty i) (cart_join (s_id store) c w)))
           (shopper_user shopper) w = Inr q"
    and "cq_discount q = 0"
  shows "\<not> okE (createOrder metres now fresh shopper request c store w)"
proof
  assume "okE (createOrder metres now fresh shopper request c store w)"
  then obtain summary w' where "createOrder metres now fresh shopper request c store w =
      Inr (summary, w')"
    by (auto simp: okE_iff)
  then show False
    using refl
  proof (rule createOrder_Inr)
    fix w1 w2 :: world and coupon o1 tr
    assume w1: "foldE (reserve_line (s_id store)) (cart_join (s_id store) c w) w = Inr w1"
      and coupon: "price_coupon now (s_id store) (qr_coupon request)
           (goods_total (cart_join (s_id store) c w)) (shopper_user shopper) w1 = Inr coupon"
      and w': "write_order fresh o1 (cart_lines (cart_join (s_id store) c w)) (tx_lines tr)
        c coupon w2 = Inr w'"
    have off: "off_stock w1 = off_stock w" using foldE_reserve_effect [OF w1] by simp
    have "coupon_quote now (s_id store) code (goods_total (cart_join (s_id store) c w))
        (shopper_user shopper) w1 = Inr q"
      using assms(3) coupon_quote_cong [of w1 w] off_stock_keeps [OF off] by simp
    then have "coupon = Some q" using coupon assms(1,2) by (simp add: price_coupon_def)
    then show False using write_order_Inr [OF w'] assms(4) by simp
  qed
qed

definition sample_penny :: world where
  "sample_penny = sample_basket\<lparr>w_coupons := [\<lparr>co_id = ''c1'', co_store = ''s1'', co_code = ''PENNY'',
     co_kind = PERCENT, co_value = 4, co_min_order = 0, co_starts = None, co_ends = None,
     co_max = None, co_per_customer = None, co_active = True, co_deleted = False\<rparr>]\<rparr>"

theorem zero_discount_blocks_checkout_witness:
  "\<not> okE (createOrder nowhere 5 sample_fresh (Guest ''k'')
     (sample_place\<lparr>qr_coupon := Some ''penny''\<rparr>) ''g1'' (sample_store ACTIVE) sample_penny)"
proof -
  have "case coupon_quote 5 ''s1'' ''penny''
      (sum_list (map (\<lambda>(i, v). va_price v * ci_qty i) (cart_join ''s1'' ''g1'' sample_penny)))
      (shopper_user (Guest ''k'')) sample_penny of Inl _ \<Rightarrow> False | Inr q \<Rightarrow> cq_discount q = 0"
    by code_simp
  then obtain q where "coupon_quote 5 ''s1'' ''penny''
      (sum_list (map (\<lambda>(i, v). va_price v * ci_qty i) (cart_join ''s1'' ''g1'' sample_penny)))
      (shopper_user (Guest ''k'')) sample_penny = Inr q" "cq_discount q = 0"
    by (auto split: sum.splits)
  moreover have "s_id (sample_store ACTIVE) = ''s1''" by (simp add: sample_store_def)
  ultimately show ?thesis
    by (intro zero_discount_blocks_checkout [where code = "''penny''" and q = q]) simp_all
qed

end
