(* ===== verification/Notifications.thy ===== *)
theory Notifications
  imports OrderTables Coupons
begin

text \<open>
  \<open>NotificationsService\<close> with its catalogue and templates (\<open>modules/notifications\<close>): who wants to
  hear about what, and the inbox it is written into.  Identifiers of inbox rows are supplied by
  the caller; prices are shown in dollars, the one currency a store can have here.
\<close>

section \<open>The catalogue\<close>

definition NOTIFICATION_EVENTS :: "string list" where
  "NOTIFICATION_EVENTS =
     [''order.placed'', ''order.ready'', ''order.out_for_delivery'', ''order.delivered'',
      ''order.cancelled'', ''inventory.low_stock'', ''subscription.payment_failed'',
      ''delivery.assigned'']"

text \<open>The entries marked transactional: sent whatever the preferences say.\<close>

definition transactional :: "string \<Rightarrow> bool" where
  "transactional ev = (ev = ''order.cancelled'' \<or> ev = ''subscription.payment_failed'')"

section \<open>Templates\<close>

record order_context =
  oc_store :: string
  oc_number :: string
  oc_total :: int
  oc_fulfillment :: fulfillment
  oc_reason :: "string option"

abbreviation newline :: string where "newline \<equiv> [CHR 0x0A]"

definition renderOrderMessage :: "string \<Rightarrow> order_context \<Rightarrow> (string \<times> string) option" where
  "renderOrderMessage ev ctx =
     (let money = formatMoney (oc_total ctx);
          collecting = (oc_fulfillment ctx = FUL_PICKUP);
          shop = oc_store ctx;
          line = ''Order '' @ oc_number ctx @ '', '' @ money @ ''.'' @ newline
      in if ev = ''order.placed'' then
           Some (shop @ '': order '' @ oc_number ctx @ '' confirmed'',
             ''Thanks - '' @ shop @ '' has your order.'' @ newline @ newline @ line @
             (if collecting then ''They'll let you know when it's ready to collect.'' @ newline
              else ''They'll let you know when it's on its way.'' @ newline))
         else if ev = ''order.ready'' then
           (if collecting
            then Some (shop @ '': order '' @ oc_number ctx @ '' is ready'',
              ''Your order is ready to collect from '' @ shop @ ''.'' @ newline @ newline @ line)
            else Some (shop @ '': order '' @ oc_number ctx @ '' is packed'',
              shop @ '' has packed your order and it's waiting for a driver.'' @ newline @ newline @ line))
         else if ev = ''order.out_for_delivery'' then
           Some (shop @ '': order '' @ oc_number ctx @ '' is on its way'',
             ''Your order from '' @ shop @ '' is out for delivery.'' @ newline @ newline @ line)
         else if ev = ''order.delivered'' then
           Some (shop @ '': order '' @ oc_number ctx @ '' delivered'',
             ''Your order from '' @ shop @ '' has been delivered.'' @ newline @ newline @ line @
             newline @ ''If something isn't right, get in touch with the shop.'' @ newline)
         else if ev = ''order.cancelled'' then
           Some (shop @ '': order '' @ oc_number ctx @ '' cancelled'',
             shop @ '' has cancelled order '' @ oc_number ctx @ ''.'' @ newline @ newline @
             (case oc_reason ctx of None \<Rightarrow> []
              | Some r \<Rightarrow> (if r = [] then [] else ''Reason given: '' @ r @ newline @ newline)) @
             ''Anything you paid is refunded to the card you used. It can take a few days to appear, depending on your bank.'' @
             newline)
         else None)"

section \<open>Preferences and the inbox\<close>

definition wants :: "string option \<Rightarrow> string \<Rightarrow> string \<Rightarrow> string \<Rightarrow> world \<Rightarrow> bool" where
  "wants userId storeId ev channel w =
     (if transactional ev then True
      else case userId of
        None \<Rightarrow> True
      | Some u \<Rightarrow>
          (let rows = filter (\<lambda>p. np_user p = u \<and> np_event p = ev \<and> np_channel p = channel \<and>
                        (np_store p = Some storeId \<or> np_store p = None)) (w_prefs w)
           in case rows of
                [] \<Rightarrow> True
              | r # _ \<Rightarrow>
                  (case find (\<lambda>p. np_store p = Some storeId) rows of
                     Some p \<Rightarrow> np_enabled p
                   | None \<Rightarrow> np_enabled r)))"

definition deliver :: "inbox_item \<Rightarrow> world \<Rightarrow> world" where
  "deliver item w = w\<lparr>w_inbox := w_inbox w @ [item]\<rparr>"

definition inbox :: "string \<Rightarrow> bool \<Rightarrow> nat \<Rightarrow> world \<Rightarrow> inbox_item list" where
  "inbox userId unreadOnly limit w =
     take (min limit 200) (rev (filter (\<lambda>n. nb_user n = userId \<and> (unreadOnly \<longrightarrow> nb_read n = None))
       (w_inbox w)))"

definition unreadCount :: "string \<Rightarrow> world \<Rightarrow> nat" where
  "unreadCount userId w = count_where (\<lambda>n. nb_user n = userId \<and> nb_read n = None) (w_inbox w)"

definition markRead :: "int \<Rightarrow> string \<Rightarrow> string option \<Rightarrow> world \<Rightarrow> nat \<times> world" where
  "markRead now userId notificationId w =
     (let hit = (\<lambda>n. nb_user n = userId \<and> nb_read n = None \<and>
                   (notificationId = None \<or> notificationId = Some (nb_id n)))
      in (count_where hit (w_inbox w),
          w\<lparr>w_inbox := update_where hit (\<lambda>n. n\<lparr>nb_read := Some now\<rparr>) (w_inbox w)\<rparr>))"

definition setPreference ::
    "string \<Rightarrow> string \<Rightarrow> string \<Rightarrow> string option \<Rightarrow> bool \<Rightarrow> world \<Rightarrow> unit outcome" where
  "setPreference userId ev channel storeId enabled w =
     (if ev \<notin> set NOTIFICATION_EVENTS then (Inr (), w)
      else if transactional ev \<and> \<not> enabled
      then (Inl (Internal (ev @ '' cannot be switched off.'')), w)
      else
        let same = (\<lambda>p. np_user p = userId \<and> np_store p = storeId \<and> np_event p = ev \<and>
                        np_channel p = channel)
        in (Inr (),
            if \<exists>p \<in> set (w_prefs w). same p
            then w\<lparr>w_prefs := update_where same (\<lambda>p. p\<lparr>np_enabled := enabled\<rparr>) (w_prefs w)\<rparr>
            else w\<lparr>w_prefs := w_prefs w @ [\<lparr>np_user = userId, np_store = storeId, np_event = ev,
                   np_channel = channel, np_enabled = enabled\<rparr>]\<rparr>))"

section \<open>Telling a customer about an order\<close>

definition cancel_reason :: "world \<Rightarrow> string \<Rightarrow> string option" where
  "cancel_reason w orderId =
     (case rev (filter (\<lambda>h. h_order h = orderId \<and> h_to h = CANCELLED) (w_history w)) of
        [] \<Rightarrow> None | h # _ \<Rightarrow> h_note h)"

definition notifyOrder :: "string \<Rightarrow> string \<Rightarrow> string \<Rightarrow> string \<Rightarrow> world \<Rightarrow> bool \<times> world" where
  "notifyOrder newId ev storeId orderId w =
     (case (find_order storeId orderId w, find (\<lambda>s. s_id s = storeId) (w_stores w)) of
        (Some o1, Some s) \<Rightarrow>
          (case o_customer o1 of
             None \<Rightarrow> (False, w)
           | Some user \<Rightarrow>
               if \<not> wants (Some user) storeId ev ''IN_APP'' w then (False, w)
               else case renderOrderMessage ev
                   \<lparr>oc_store = s_name s, oc_number = o_number o1, oc_total = o_total o1,
                    oc_fulfillment = o_fulfillment o1, oc_reason = cancel_reason w orderId\<rparr> of
                 None \<Rightarrow> (False, w)
               | Some (title, body) \<Rightarrow>
                   (True, deliver \<lparr>nb_id = newId, nb_user = user, nb_store = Some storeId,
                      nb_event = ev, nb_title = title, nb_body = body,
                      nb_link = Some (''/orders/'' @ orderId), nb_read = None\<rparr> w))
      | _ \<Rightarrow> (False, w))"

section \<open>What it leaves alone\<close>

definition off_inbox :: "world \<Rightarrow> world" where
  "off_inbox w = w\<lparr>w_inbox := []\<rparr>"

lemma deliver_off: "off_inbox (deliver n w) = off_inbox w"
  by (simp add: off_inbox_def deliver_def)

lemma notifyOrder_off: "off_inbox (snd (notifyOrder i ev s oid w)) = off_inbox w"
  by (auto simp: notifyOrder_def deliver_off split: option.split)

text \<open>Somebody is only ever told about their own order.\<close>

lemma notifyOrder_inbox:
  "w_inbox (snd (notifyOrder i ev s oid w)) = w_inbox w \<or>
   (\<exists>o1 n. find_order s oid w = Some o1 \<and> o_customer o1 = Some (nb_user n) \<and>
      w_inbox (snd (notifyOrder i ev s oid w)) = w_inbox w @ [n])"
  by (auto simp: notifyOrder_def deliver_def split: option.split)

end
