(* ===== verification/Orders.thy ===== *)
theory Orders
  imports CheckoutFacts Notifications
begin

text \<open>
  \<open>OrdersService\<close> (\<open>modules/orders/orders.service.ts\<close>): the queue, the status change with its stock
  effects, cash collection and the sweep that settles orders which ran out of time.  A status
  change is one transaction; the customer is told after it.  The queues are ordered by the
  time the order was placed.
\<close>

section \<open>Reading\<close>

definition OPEN_STATUSES :: "order_status list" where
  "OPEN_STATUSES = [PENDING, CONFIRMED, PREPARING, READY, OUT_FOR_DELIVERY]"

definition CUSTOMER_TOLD_ABOUT :: "order_status \<Rightarrow> string option" where
  "CUSTOMER_TOLD_ABOUT st =
     (case st of
        READY \<Rightarrow> Some ''order.ready''
      | OUT_FOR_DELIVERY \<Rightarrow> Some ''order.out_for_delivery''
      | DELIVERED \<Rightarrow> Some ''order.delivered''
      | CANCELLED \<Rightarrow> Some ''order.cancelled''
      | _ \<Rightarrow> None)"

definition pipeline :: "string \<Rightarrow> world \<Rightarrow> (order_status \<times> nat) list" where
  "pipeline storeId w =
     map (\<lambda>st. (st, count_where (\<lambda>o1. o_store o1 = storeId \<and> o_status o1 = st) (w_orders w)))
       OPEN_STATUSES"

text \<open>\<open>openOnly\<close> replaces a given status, as the spread in the code does.\<close>

definition listForStore ::
    "string \<Rightarrow> order_status option \<Rightarrow> bool \<Rightarrow> int option \<Rightarrow> int option \<Rightarrow> world \<Rightarrow> order list \<times> nat" where
  "listForStore storeId status openOnly limit offset w =
     (let hit = (\<lambda>o1. o_store o1 = storeId \<and>
            (if openOnly then o_status o1 \<in> set OPEN_STATUSES
             else status = None \<or> status = Some (o_status o1)));
          rows = sort_key (\<lambda>o1. - o_placed_at o1) (filter hit (w_orders w))
      in (take (nat (min (or_else limit 50) 200)) (drop (nat (max (or_else offset 0) 0)) rows),
          length rows))"

definition getForStore :: "string \<Rightarrow> string \<Rightarrow> world \<Rightarrow> order res" where
  "getForStore storeId orderId w =
     (case find_order storeId orderId w of None \<Rightarrow> notFound | Some o1 \<Rightarrow> Inr o1)"

definition listForCustomer :: "string \<Rightarrow> nat \<Rightarrow> world \<Rightarrow> order list" where
  "listForCustomer userId limit w =
     take (min limit 100) (sort_key (\<lambda>o1. - o_placed_at o1)
       (filter (\<lambda>o1. o_customer o1 = Some userId) (w_orders w)))"

text \<open>\<open>orders_read\<close> for a customer or for a guest with a claim token: no store, not the platform.\<close>

definition order_visible :: "string option \<Rightarrow> string option \<Rightarrow> order \<Rightarrow> bool" where
  "order_visible userId token o1 =
     ((userId \<noteq> None \<and> userId \<noteq> Some [] \<and> o_customer o1 = userId) \<or>
      (token \<noteq> None \<and> token \<noteq> Some [] \<and> o_guest_token o1 = token))"

definition getForCustomer :: "string \<Rightarrow> string option \<Rightarrow> string option \<Rightarrow> world \<Rightarrow> order res" where
  "getForCustomer orderId userId token w =
     (case find (\<lambda>o1. o_id o1 = orderId \<and> order_visible userId token o1) (w_orders w) of
        None \<Rightarrow> notFound
      | Some o1 \<Rightarrow> Inr o1)"

section \<open>Stock effects\<close>

definition sale_of :: "string \<Rightarrow> string \<Rightarrow> string option \<Rightarrow> string \<Rightarrow> int \<Rightarrow> string option \<Rightarrow> movement" where
  "sale_of storeId orderId actor v qty reason =
     \<lparr>mv_store = storeId, mv_variant = v, mv_type = SALE, mv_qty = - qty, mv_reason = reason,
      mv_note = None, mv_order = Some orderId, mv_actor = actor\<rparr>"

definition return_of :: "string \<Rightarrow> string \<Rightarrow> string option \<Rightarrow> string \<Rightarrow> int \<Rightarrow> string \<Rightarrow> movement" where
  "return_of storeId orderId actor v qty reason =
     \<lparr>mv_store = storeId, mv_variant = v, mv_type = RETURN, mv_qty = qty, mv_reason = Some reason,
      mv_note = None, mv_order = Some orderId, mv_actor = actor\<rparr>"

text \<open>Confirming: release the hold and record the sale.\<close>

definition confirm_item :: "string \<Rightarrow> string \<Rightarrow> string option \<Rightarrow> order_item \<Rightarrow> world \<Rightarrow> world res" where
  "confirm_item storeId orderId actor item w =
     (case oi_variant item of
        None \<Rightarrow> Inr w
      | Some v \<Rightarrow>
          if \<not> counted storeId w v then Inr w
          else bindE (update_level v (\<lambda>l. l\<lparr>sl_reserved := sl_reserved l - oi_qty item\<rparr>) w)
                 (insert_movement (sale_of storeId orderId actor v (oi_qty item) None)))"

text \<open>Cancelling before the sale: drop the hold, never below nothing.\<close>

definition release_item :: "string \<Rightarrow> order_item \<Rightarrow> world \<Rightarrow> world res" where
  "release_item storeId item w =
     (case oi_variant item of
        None \<Rightarrow> Inr w
      | Some v \<Rightarrow>
          if \<not> counted storeId w v then Inr w
          else update_level v (\<lambda>l. l\<lparr>sl_reserved := max (sl_reserved l - oi_qty item) 0\<rparr>) w)"

definition return_item ::
    "string \<Rightarrow> string \<Rightarrow> order_status \<Rightarrow> string option \<Rightarrow> order_item \<Rightarrow> world \<Rightarrow> world res" where
  "return_item storeId orderId to actor item w =
     (case oi_variant item of
        None \<Rightarrow> Inr w
      | Some v \<Rightarrow>
          if \<not> counted storeId w v then Inr w
          else insert_movement (return_of storeId orderId actor v (oi_qty item)
                 (if to = RETURNED then ''customer_return'' else ''cancelled_after_confirm'')) w)"

definition applyStockEffects ::
    "string \<Rightarrow> string \<Rightarrow> order_status \<Rightarrow> order_status \<Rightarrow> string option \<Rightarrow> world \<Rightarrow> world res" where
  "applyStockEffects storeId orderId frm to actor w =
     (let items = items_of_order w orderId in
      if to = CONFIRMED \<and> frm = PENDING then foldE (confirm_item storeId orderId actor) items w
      else if to = CANCELLED \<and> frm = PENDING then foldE (release_item storeId) items w
      else if to = CANCELLED \<or> to = RETURNED
      then foldE (return_item storeId orderId to actor) items w
      else Inr w)"

section \<open>Changing the status\<close>

record transition_result =
  tt_id :: string
  tt_status :: order_status
  tt_unchanged :: bool
  tt_number :: string

record actor =
  ac_user :: "string option"
  ac_role :: transition_actor

fun status_name :: "order_status \<Rightarrow> string" where
  "status_name PENDING = ''PENDING''"
| "status_name CONFIRMED = ''CONFIRMED''"
| "status_name PREPARING = ''PREPARING''"
| "status_name READY = ''READY''"
| "status_name PICKED_UP = ''PICKED_UP''"
| "status_name OUT_FOR_DELIVERY = ''OUT_FOR_DELIVERY''"
| "status_name DELIVERED = ''DELIVERED''"
| "status_name CANCELLED = ''CANCELLED''"
| "status_name RETURNED = ''RETURNED''"
| "status_name REFUNDED = ''REFUNDED''"

definition status_event :: "string \<Rightarrow> string \<Rightarrow> string \<Rightarrow> order_status \<Rightarrow> order_status \<Rightarrow> outbox_event" where
  "status_event storeId orderId number frm to =
     event ''order.status_changed'' storeId orderId
       [(''orderId'', orderId), (''orderNumber'', number), (''status'', status_name to),
        (''from'', status_name frm)]"

text \<open>The transaction of \<open>transition\<close>.\<close>

definition transition_tx ::
    "string \<Rightarrow> string \<Rightarrow> order_status \<Rightarrow> actor \<Rightarrow> string option \<Rightarrow> world \<Rightarrow>
     (transition_result \<times> world) res" where
  "transition_tx storeId orderId to actor note w =
     (case find_order storeId orderId w of
        None \<Rightarrow> notFound
      | Some current \<Rightarrow>
          let frm = o_status current; number = o_number current in
          if frm = to
          then Inr (\<lparr>tt_id = orderId, tt_status = to, tt_unchanged = True, tt_number = number\<rparr>, w)
          else
            bindE (case assertTransition frm to of
                     Inr _ \<Rightarrow> Inr ()
                   | Inl (InvalidTransitionError a b) \<Rightarrow> Inl (Validation
                       (''This order is '' @ humanize frm @ '' - it can't be marked '' @
                        humanize to @ ''.''))) (\<lambda>_.
            bindE (guardE (isActorAllowed frm to (ac_role actor))
                     (Forbidden (''Your role can't move an order from '' @ humanize frm @ '' to '' @
                        humanize to @ ''.''))) (\<lambda>_.
            bindE (applyStockEffects storeId orderId frm to (ac_user actor) w) (\<lambda>w1.
            bindE (update_status storeId orderId to w1) (\<lambda>w2.
            Inr (\<lparr>tt_id = orderId, tt_status = to, tt_unchanged = False, tt_number = number\<rparr>,
                 emitIn (status_event storeId orderId number frm to)
                   (insert_history \<lparr>h_order = orderId, h_store = storeId, h_from = Some frm,
                      h_to = to, h_actor = ac_user actor, h_note = note\<rparr> w2)))))))"

text \<open>And the notice after it, which cannot undo it.\<close>

definition transition ::
    "string \<Rightarrow> string \<Rightarrow> string \<Rightarrow> order_status \<Rightarrow> actor \<Rightarrow> string option \<Rightarrow> world \<Rightarrow>
     transition_result outcome" where
  "transition newId storeId orderId to actor note w =
     (case run_tx (transition_tx storeId orderId to actor note) w of
        (Inl e, w1) \<Rightarrow> (Inl e, w1)
      | (Inr r, w1) \<Rightarrow>
          (Inr r,
           if tt_unchanged r then w1
           else case CUSTOMER_TOLD_ABOUT to of
             None \<Rightarrow> w1
           | Some ev \<Rightarrow> snd (notifyOrder newId ev storeId orderId w1)))"

section \<open>Cash\<close>

record cash_result =
  cr_payment :: string
  cr_amount :: int
  cr_already :: bool
  cr_number :: string

definition retireSupersededPayments :: "string \<Rightarrow> string \<Rightarrow> world \<Rightarrow> world" where
  "retireSupersededPayments storeId orderId w =
     w\<lparr>w_payments := update_where
        (\<lambda>p. p_order p = orderId \<and> p_store p = storeId \<and> p_status p \<noteq> PAY_SUCCEEDED)
        (\<lambda>p. p\<lparr>p_status := PAY_CANCELED\<rparr>) (w_payments w)\<rparr>"

definition payment_outcome :: "string \<Rightarrow> string \<Rightarrow> string \<Rightarrow> world \<Rightarrow> world" where
  "payment_outcome provider outcome reason =
     inc ''payment_outcomes_total'' [provider, outcome, reason]"

definition recordCashPayment ::
    "int \<Rightarrow> string \<Rightarrow> string \<Rightarrow> string \<Rightarrow> world \<Rightarrow> cash_result outcome" where
  "recordCashPayment now storeId orderId actorUserId w =
     (case (find (\<lambda>p. p_order p = orderId \<and> p_store p = storeId \<and> p_provider p = CASH) (w_payments w),
            find (\<lambda>o1. o_id o1 = orderId) (w_orders w)) of
        (Some p, Some o1) \<Rightarrow>
          if p_status p = PAY_SUCCEEDED
          then (Inr \<lparr>cr_payment = p_id p, cr_amount = p_amount p, cr_already = True,
                     cr_number = o_number o1\<rparr>, w)
          else
            let w1 = w\<lparr>w_payments := update_where (\<lambda>x. p_id x = p_id p)
                       (\<lambda>x. x\<lparr>p_status := PAY_SUCCEEDED, p_cash_by := Some actorUserId,
                              p_cash_at := Some now\<rparr>) (w_payments w)\<rparr>;
                w2 = payment_outcome ''CASH'' ''succeeded'' ''none'' w1;
                w3 = audit_record (audit_entry_of ''payment.cash_collected'' MEDIUM storeId
                       (Some actorUserId) ''payment'' (p_id p)) w2;
                w4 = retireSupersededPayments storeId orderId w3;
                w5 = emitIn (event ''order.payment_recorded'' storeId orderId
                       [(''orderId'', orderId), (''orderNumber'', o_number o1),
                        (''amountCents'', show_int (p_amount p))]) w4
            in (Inr \<lparr>cr_payment = p_id p, cr_amount = p_amount p, cr_already = False,
                     cr_number = o_number o1\<rparr>, w5)
      | _ \<Rightarrow> (Inl (NotFound ''No cash payment is outstanding for this order.''), w))"

section \<open>The sweep\<close>

definition is_paid :: "world \<Rightarrow> string \<Rightarrow> bool" where
  "is_paid w orderId = (\<exists>p \<in> set (w_payments w). p_order p = orderId \<and> p_status p = PAY_SUCCEEDED)"

definition stale_orders :: "int \<Rightarrow> world \<Rightarrow> (string \<times> string \<times> bool) list" where
  "stale_orders now w =
     map (\<lambda>o1. (o_id o1, o_store o1, is_paid w (o_id o1)))
       (take 200 (filter (\<lambda>o1. o_status o1 = PENDING \<and>
          (case o_expires_at o1 of None \<Rightarrow> False | Some t \<Rightarrow> t < now)) (w_orders w)))"

definition system_actor :: actor where
  "system_actor = \<lparr>ac_user = None, ac_role = SYSTEM\<rparr>"

text \<open>One order of the sweep: how many it expired, and the database after it.\<close>

definition settle_stale ::
    "(string \<Rightarrow> string) \<Rightarrow> string \<times> string \<times> bool \<Rightarrow> nat \<times> world \<Rightarrow> nat \<times> world" where
  "settle_stale newIds row st =
     (case (row, st) of
        ((orderId, storeId, paid), (expired, w)) \<Rightarrow>
          if paid
          then (case transition (newIds orderId) storeId orderId CONFIRMED system_actor
                  (Some ''Payment received; confirmed by the expiry sweep after the original confirmation failed'') w of
                  (Inr _, w1) \<Rightarrow> (expired, inc ''orders_recovered_total'' [''paid_but_unconfirmed''] w1)
                | (Inl _, w1) \<Rightarrow> (expired, inc ''payments_unreconciled_total'' [''recovery_failed''] w1))
          else (case transition (newIds orderId) storeId orderId CANCELLED system_actor
                  (Some ''Expired without payment'') w of
                  (Inr _, w1) \<Rightarrow> (expired + 1, w1)
                | (Inl _, w1) \<Rightarrow> (expired, w1)))"

definition expireStaleOrders :: "(string \<Rightarrow> string) \<Rightarrow> int \<Rightarrow> world \<Rightarrow> nat \<times> world" where
  "expireStaleOrders newIds now w =
     foldl (\<lambda>st row. settle_stale newIds row st) (0, w) (stale_orders now w)"

end
