(* ===== verification/OrderFacts.thy ===== *)
theory OrderFacts
  imports Orders
begin

text \<open>
  What \<open>Orders\<close> guarantees of stock: the locale \<open>stock_lines\<close> is interpreted by the confirmation
  and the return of an order's items, and the release of held units is summed up by hand since
  it stops at nothing.
\<close>

section \<open>One item\<close>

definition ordered :: "order_item list \<Rightarrow> string \<Rightarrow> int" where
  "ordered items u = sum_where (\<lambda>i. oi_variant i = Some u) oi_qty items"

lemma ordered_simps [simp]:
  "ordered [] u = 0"
  "ordered (i # items) u = (if oi_variant i = Some u then oi_qty i else 0) + ordered items u"
  by (simp_all add: ordered_def)

lemma ordered_nonneg: "items_ok items \<Longrightarrow> 0 \<le> ordered items u"
  unfolding ordered_def by (rule sum_where_nonneg) (auto simp: items_ok_def)

lemma sum_ordered:
  "sum_list (map (\<lambda>i. if oi_variant i = Some u then oi_qty i else 0) items) = ordered items u"
  "sum_list (map (\<lambda>i. if oi_variant i = Some u then - oi_qty i else 0) items) = - ordered items u"
  by (induction items) auto

lemma counted_level:
  "counted s w v \<longleftrightarrow> (\<exists>l. w_levels w v = Some l \<and> sl_store l = s \<and> sl_tracked l)"
  unfolding conj_assoc [symmetric] visible_in_store [symmetric]
  by (auto simp: counted_def split: option.split)

lemma counted_same:
  assumes "\<And>v. map_option (\<lambda>l. (sl_store l, sl_tracked l)) (w_levels w' v) =
    map_option (\<lambda>l. (sl_store l, sl_tracked l)) (w_levels w v)"
  shows "counted s w' = counted s w"
proof
  fix v
  show "counted s w' v = counted s w v"
    using assms [of v] by (cases "w_levels w v"; cases "w_levels w' v") (auto simp: counted_level)
qed

lemma insert_movement_level:
  assumes "insert_movement m w = Inr w'" and "w_levels w (mv_variant m) = Some l"
  shows "w' = w\<lparr>w_movements := w_movements w @ [m],
    w_levels := (w_levels w)(mv_variant m \<mapsto> l\<lparr>sl_on_hand := sl_on_hand l + mv_qty m\<rparr>)\<rparr>"
  using assms
  by (auto simp: insert_movement_def apply_stock_movement_def put_level_Inr split: if_splits)

lemma insert_movement_counted:
  assumes "insert_movement m w = Inr w'" and "counted s w (mv_variant m)"
  shows "counted s w' = counted s w"
proof -
  obtain l where l: "w_levels w (mv_variant m) = Some l" using assms(2) by (auto simp: counted_level)
  show ?thesis
    by (rule counted_same) (simp add: insert_movement_level [OF assms(1) l] l)
qed

lemma update_level_counted:
  assumes "update_level v f w = Inr w'"
    and "\<And>l. sl_tracked (f l) = sl_tracked l" and "\<And>l. sl_store (f l) = sl_store l"
  shows "counted s w' = counted s w"
  by (rule counted_same)
    (use assms in \<open>auto simp: update_level_Inr split: option.splits\<close>)

section \<open>Confirming\<close>

lemma confirm_item_cases:
  assumes "confirm_item s oid actor i w = Inr w'"
  obtains (skip) "w' = w" and "\<And>u. oi_variant i = Some u \<Longrightarrow> \<not> counted s w u"
  | (sell) v w1 where "oi_variant i = Some v" and "counted s w v"
      and "update_level v (\<lambda>l. l\<lparr>sl_reserved := sl_reserved l - oi_qty i\<rparr>) w = Inr w1"
      and "insert_movement (sale_of s oid actor v (oi_qty i) None) w1 = Inr w'"
  using assms by (auto simp: confirm_item_def split: option.splits if_splits)

lemma confirm_item_effect:
  assumes "confirm_item s oid actor i w = Inr w'"
  shows "off_stock w' = off_stock w \<and> counted s w' = counted s w \<and>
    (\<forall>u. on_hand w' u = on_hand w u +
           (if counted s w u then (if oi_variant i = Some u then - oi_qty i else 0) else 0) \<and>
         reserved w' u = reserved w u +
           (if counted s w u then (if oi_variant i = Some u then - oi_qty i else 0) else 0))"
  using assms
proof (cases rule: confirm_item_cases)
  case (sell v w1)
  obtain l where l: "w_levels w v = Some l" using sell(2) by (auto simp: counted_level)
  have c: "counted s w1 = counted s w" by (rule update_level_counted [OF sell(3)]) simp_all
  have "counted s w' = counted s w1"
    by (rule insert_movement_counted [OF sell(4)]) (simp add: c sell(2) sale_of_def)
  moreover have "off_stock w' = off_stock w"
    using update_level_off [OF sell(3)] insert_movement_off [OF sell(4)] by simp
  moreover have "on_hand w1 = on_hand w" by (rule update_level_on_hand [OF sell(3)]) simp
  moreover have "reserved w v = sl_reserved l" by (simp add: reserved_def l)
  ultimately show ?thesis
    using sell(1,2) insert_movement_on_hand [OF sell(4)] insert_movement_reserved [OF sell(4)]
      update_level_reserved [OF sell(3)] c l
    by (auto simp: sale_of_def)
qed auto

lemma confirm_item_inv: "confirm_item s oid actor i w = Inr w' \<Longrightarrow> stock_inv w \<Longrightarrow> stock_inv w'"
proof (erule confirm_item_cases)
  fix v w1
  assume u: "update_level v (\<lambda>l. l\<lparr>sl_reserved := sl_reserved l - oi_qty i\<rparr>) w = Inr w1"
    and m: "insert_movement (sale_of s oid actor v (oi_qty i) None) w1 = Inr w'" and "stock_inv w"
  have "stock_inv w1" by (rule stock_inv_update_level [OF u]) (simp_all add: \<open>stock_inv w\<close>)
  then show "stock_inv w'" by (rule stock_inv_insert [OF m])
qed simp

interpretation confirming: stock_lines s "confirm_item s oid actor"
  "\<lambda>i u. if oi_variant i = Some u then - oi_qty i else 0"
  "\<lambda>i u. if oi_variant i = Some u then - oi_qty i else 0" for s oid actor
  by unfold_locales (rule confirm_item_effect confirm_item_inv; assumption)+

section \<open>Returning\<close>

lemma return_item_cases:
  assumes "return_item s oid st actor i w = Inr w'"
  obtains (skip) "w' = w" and "\<And>u. oi_variant i = Some u \<Longrightarrow> \<not> counted s w u"
  | (put) v reason where "oi_variant i = Some v" and "counted s w v"
      and "insert_movement (return_of s oid actor v (oi_qty i) reason) w = Inr w'"
  using assms by (auto simp: return_item_def split: option.splits if_splits)

lemma return_item_effect:
  assumes "return_item s oid st actor i w = Inr w'"
  shows "off_stock w' = off_stock w \<and> counted s w' = counted s w \<and>
    (\<forall>u. on_hand w' u = on_hand w u +
           (if counted s w u then (if oi_variant i = Some u then oi_qty i else 0) else 0) \<and>
         reserved w' u = reserved w u + (if counted s w u then 0 else 0))"
  using assms
proof (cases rule: return_item_cases)
  case (put v reason)
  have "counted s w' = counted s w"
    by (rule insert_movement_counted [OF put(3)]) (simp add: put(2) return_of_def)
  then show ?thesis
    using put(1,2) insert_movement_off [OF put(3)] insert_movement_on_hand [OF put(3)]
      insert_movement_reserved [OF put(3)]
    by (auto simp: return_of_def)
qed auto

lemma return_item_inv: "return_item s oid st actor i w = Inr w' \<Longrightarrow> stock_inv w \<Longrightarrow> stock_inv w'"
  by (erule return_item_cases) (auto intro: stock_inv_insert)

interpretation returning: stock_lines s "return_item s oid st actor"
  "\<lambda>i u. if oi_variant i = Some u then oi_qty i else 0" "\<lambda>_ _. 0" for s oid st actor
  by unfold_locales (rule return_item_effect return_item_inv; assumption)+

section \<open>Releasing\<close>

lemma release_item_cases:
  assumes "release_item s i w = Inr w'"
  obtains (skip) "w' = w" and "\<And>u. oi_variant i = Some u \<Longrightarrow> \<not> counted s w u"
  | (drop) v where "oi_variant i = Some v" and "counted s w v"
      and "update_level v (\<lambda>l. l\<lparr>sl_reserved := max (sl_reserved l - oi_qty i) 0\<rparr>) w = Inr w'"
  using assms by (auto simp: release_item_def split: option.splits if_splits)

lemma release_item_effect:
  assumes "release_item s i w = Inr w'"
  shows "off_stock w' = off_stock w \<and> w_movements w' = w_movements w \<and> counted s w' = counted s w \<and>
    on_hand w' = on_hand w \<and>
    (\<forall>u. reserved w' u =
       (if counted s w u \<and> oi_variant i = Some u then max (reserved w u - oi_qty i) 0 else reserved w u))"
  using assms
proof (cases rule: release_item_cases)
  case (drop v)
  obtain l where l: "w_levels w v = Some l" using drop(2) by (auto simp: counted_level)
  have "counted s w' = counted s w" by (rule update_level_counted [OF drop(3)]) simp_all
  moreover have "on_hand w' = on_hand w" by (rule update_level_on_hand [OF drop(3)]) simp
  moreover have "reserved w v = sl_reserved l" by (simp add: reserved_def l)
  ultimately show ?thesis
    using drop(1,2) update_level_off [OF drop(3)] update_level_movements [OF drop(3)]
      update_level_reserved [OF drop(3)] l
    by auto
qed auto

lemma release_item_inv: "release_item s i w = Inr w' \<Longrightarrow> stock_inv w \<Longrightarrow> stock_inv w'"
proof (erule release_item_cases)
  fix v
  assume u: "update_level v (\<lambda>l. l\<lparr>sl_reserved := max (sl_reserved l - oi_qty i) 0\<rparr>) w = Inr w'"
    and "stock_inv w"
  show "stock_inv w'" by (rule stock_inv_update_level [OF u]) (simp_all add: \<open>stock_inv w\<close>)
qed simp

lemma release_inv: "foldE (release_item s) items w = Inr w' \<Longrightarrow> stock_inv w \<Longrightarrow> stock_inv w'"
  by (rule foldE_inv [where P = stock_inv]) (auto intro: release_item_inv)

lemma release_effect:
  assumes "foldE (release_item s) items w = Inr w'" and "items_ok items" and "\<forall>u. 0 \<le> reserved w u"
  shows "off_stock w' = off_stock w \<and> w_movements w' = w_movements w \<and> counted s w' = counted s w \<and>
    on_hand w' = on_hand w \<and>
    (\<forall>u. reserved w' u =
       (if counted s w u then max (reserved w u - ordered items u) 0 else reserved w u))"
  using assms
proof (induction items arbitrary: w)
  case Nil
  then show ?case by simp
next
  case (Cons i items)
  then obtain w1 where w1: "release_item s i w = Inr w1" "foldE (release_item s) items w1 = Inr w'"
    by auto
  note first = release_item_effect [OF w1(1)]
  have ok: "items_ok items" "0 < oi_qty i" using Cons.prems(2) by (auto simp: items_ok_def)
  have "\<forall>u. 0 \<le> reserved w1 u" using first Cons.prems(3) by simp
  note rest = Cons.IH [OF w1(2) ok(1) this]
  have "reserved w' u =
      (if counted s w u then max (reserved w u - ordered (i # items) u) 0 else reserved w u)" for u
    using first rest ordered_nonneg [OF ok(1), of u] Cons.prems(3) ok(2) by (auto simp: max_def)
  then show ?case using first rest by simp
qed

text \<open>A release never fails: it only lowers what is held.\<close>

lemma release_item_total:
  assumes "stock_inv w" and "0 < oi_qty i"
  shows "okE (release_item s i w)"
proof (cases "oi_variant i")
  case (Some v)
  show ?thesis
  proof (cases "w_levels w v")
    case (Some l)
    then have "level_ok l" using assms(1) by (simp add: stock_inv_def)
    then show ?thesis
      using Some \<open>oi_variant i = Some v\<close> assms(2)
      by (auto simp: release_item_def update_level_def put_level_ok level_ok_def fits_int4_def)
  qed (use Some in \<open>simp add: release_item_def update_level_def\<close>)
qed (simp add: release_item_def)

lemma release_total:
  "stock_inv w \<Longrightarrow> items_ok items \<Longrightarrow> okE (foldE (release_item s) items w)"
proof (induction items arbitrary: w)
  case (Cons i items)
  then obtain w1 where w1: "release_item s i w = Inr w1"
    using release_item_total [of w i s] by (auto simp: okE_iff items_ok_def)
  have "stock_inv w1" by (rule release_item_inv [OF w1 Cons.prems(1)])
  then show ?case using Cons w1 by (simp add: items_ok_def)
qed simp

end
