(* ===== verification/OrderProps.thy ===== *)
theory OrderProps
  imports OrderFacts
begin

text \<open>
  What a change of status of an order does to the rows and to the shelf.
\<close>

section \<open>The transaction of a status change\<close>

text \<open>
  What a status change means for the stock of one counted variant of which the order holds
  \<open>n\<close> units: the pair is what is on the shelf and what is held.
\<close>

definition stock_move :: "order_status \<Rightarrow> order_status \<Rightarrow> int \<Rightarrow> int \<times> int \<Rightarrow> int \<times> int" where
  "stock_move frm to n shelf =
     (case shelf of (h, r) \<Rightarrow>
        if frm = PENDING \<and> to = CONFIRMED then (h - n, r - n)
        else if frm = PENDING \<and> to = CANCELLED then (h, max (r - n) 0)
        else if to = CANCELLED \<or> to = RETURNED then (h + n, r)
        else (h, r))"

definition shelf :: "world \<Rightarrow> string \<Rightarrow> int \<times> int" where
  "shelf w u = (on_hand w u, reserved w u)"

lemma shelf_cong: "w_levels w = w_levels w' \<Longrightarrow> shelf w = shelf w'"
  using on_hand_cong [of w w'] reserved_cong [of w w'] by (simp add: shelf_def fun_eq_iff)

lemma counted_cong: "w_levels w = w_levels w' \<Longrightarrow> counted s w = counted s w'"
  by (rule counted_same) simp

lemma items_ok_filter: "items_ok rows \<Longrightarrow> items_ok (filter p rows)"
  by (simp add: items_ok_def)

lemma stock_effects:
  assumes "applyStockEffects s oid frm to actor w = Inr w1"
    and "stock_inv w" and "items_ok (w_items w)"
  shows "off_stock w1 = off_stock w \<and> stock_inv w1 \<and> counted s w1 = counted s w \<and>
    (\<forall>u. shelf w1 u =
       (if counted s w u then stock_move frm to (ordered (items_of_order w oid) u) (shelf w u)
        else shelf w u))"
proof -
  define items where "items = items_of_order w oid"
  have ok: "items_ok items" using assms(3) by (simp add: items_def items_of_order_def items_ok_filter)
  have nonneg: "\<forall>u. 0 \<le> reserved w u" using stock_inv_available [OF assms(2)] by simp
  note step = assms(1) [unfolded applyStockEffects_def Let_def items_def [symmetric]]
  consider (confirm) "to = CONFIRMED \<and> frm = PENDING" | (release) "to = CANCELLED \<and> frm = PENDING"
    | (return) "\<not> (to = CANCELLED \<and> frm = PENDING)" "to = CANCELLED \<or> to = RETURNED"
    | (none) "\<not> (to = CONFIRMED \<and> frm = PENDING)" "to \<noteq> CANCELLED" "to \<noteq> RETURNED"
    by blast
  then show ?thesis
  proof cases
    case confirm
    then have f: "foldE (confirm_item s oid actor) items w = Inr w1" using step by simp
    show ?thesis
      using confirming.fold_effect [OF f] confirming.fold_inv [OF f assms(2)] confirm
      by (simp add: sum_ordered stock_move_def shelf_def items_def [symmetric])
  next
    case release
    then have f: "foldE (release_item s) items w = Inr w1" using step by simp
    show ?thesis
      using release_effect [OF f ok nonneg] release_inv [OF f assms(2)] release
      by (simp add: stock_move_def shelf_def items_def [symmetric])
  next
    case return
    then have f: "foldE (return_item s oid to actor) items w = Inr w1"
      using step by (auto split: if_splits)
    have move: "stock_move frm to n sh = (fst sh + n, snd sh)" for n sh
      using return by (cases sh) (auto simp: stock_move_def)
    show ?thesis
      using returning.fold_effect [OF f] returning.fold_inv [OF f assms(2)]
      by (simp add: sum_ordered move shelf_def items_def [symmetric])
  next
    case none
    then have "w1 = w" using step by (auto split: if_splits)
    moreover have "stock_move frm to n sh = sh" for n sh
      using none by (cases sh) (auto simp: stock_move_def)
    ultimately show ?thesis using assms(2) by simp
  qed
qed

lemma find_order_in: "find_order s oid w = Some o1 \<Longrightarrow> o1 \<in> set (w_orders w) \<and> o_id o1 = oid \<and> o_store o1 = s"
  unfolding find_order_def by (drule findD) simp

lemma transition_tx_Inr:
  assumes "transition_tx s oid to act note w = Inr (r, w')"
  obtains (same) o1 where "find_order s oid w = Some o1" and "o_status o1 = to" and "w' = w"
      and "tt_unchanged r"
  | (moved) o1 w1 w2 where "find_order s oid w = Some o1" and "o_status o1 \<noteq> to" and "\<not> tt_unchanged r"
      and "canTransition (o_status o1) to" and "isActorAllowed (o_status o1) to (ac_role act)"
      and "applyStockEffects s oid (o_status o1) to (ac_user act) w = Inr w1"
      and "update_status s oid to w1 = Inr w2"
      and "w' = emitIn (status_event s oid (o_number o1) (o_status o1) to)
                  (insert_history \<lparr>h_order = oid, h_store = s, h_from = Some (o_status o1),
                     h_to = to, h_actor = ac_user act, h_note = note\<rparr> w2)"
proof (cases "find_order s oid w")
  case None
  with assms show ?thesis by (simp add: transition_tx_def notFound_def)
next
  case (Some o1)
  show ?thesis
  proof (cases "o_status o1 = to")
    case True
    show ?thesis by (rule same [OF Some True]) (use assms Some True in \<open>auto simp: transition_tx_def Let_def\<close>)
  next
    case False
    then show ?thesis
      using assms Some isActorAllowed_can moved [OF Some False]
      by (auto simp: transition_tx_def Let_def)
  qed
qed

text \<open>The row after the change, and every other row as it was.\<close>

definition changed_order :: "string \<Rightarrow> string \<Rightarrow> order_status \<Rightarrow> order list \<Rightarrow> order list" where
  "changed_order s oid to = update_where (\<lambda>o1. o_id o1 = oid \<and> o_store o1 = s) (set_status to)"

lemma transition_tx_effect:
  assumes "transition_tx s oid to act note w = Inr (r, w')" and "stock_inv w" and "orders_inv w"
    and "\<not> tt_unchanged r"
  obtains o1 where "find_order s oid w = Some o1"
    and "canTransition (o_status o1) to" and "isActorAllowed (o_status o1) to (ac_role act)"
    and "w_orders w' = changed_order s oid to (w_orders w)"
    and "w_history w' = w_history w @ [\<lparr>h_order = oid, h_store = s, h_from = Some (o_status o1),
            h_to = to, h_actor = ac_user act, h_note = note\<rparr>]"
    and "w_outbox w' = w_outbox w @ [status_event s oid (o_number o1) (o_status o1) to]"
    and "w_payments w' = w_payments w" and "w_items w' = w_items w"
    and "stock_inv w'" and "orders_inv w'"
    and "counted s w' = counted s w"
    and "\<forall>u. shelf w' u = (if counted s w u
           then stock_move (o_status o1) to (ordered (items_of_order w oid) u) (shelf w u)
           else shelf w u)"
  using assms(1)
proof (cases rule: transition_tx_Inr)
  case (moved o1 w1 w2)
  have eff: "off_stock w1 = off_stock w \<and> stock_inv w1 \<and> counted s w1 = counted s w \<and>
    (\<forall>u. shelf w1 u = (if counted s w u
       then stock_move (o_status o1) to (ordered (items_of_order w oid) u) (shelf w u) else shelf w u))"
    using stock_effects [OF moved(6) assms(2)] assms(3) by (simp add: orders_inv_def)
  note keeps = off_stock_keeps [OF conjunct1 [OF eff]]
  have w2: "w2 = w1\<lparr>w_orders := changed_order s oid to (w_orders w1)\<rparr>"
    using update_status_Inr [OF moved(7)] by (simp add: changed_order_def)
  have lv: "w_levels w' = w_levels w1" "w_movements w' = w_movements w1"
    by (simp_all add: moved(8) w2 insert_history_def)
  have inv: "orders_inv w1" using assms(3) orders_inv_cong [of w1 w] keeps by simp
  show thesis
  proof (rule that [OF moved(1,4,5)])
    show "w_orders w' = changed_order s oid to (w_orders w)"
      by (simp add: moved(8) w2 insert_history_def keeps)
    show "w_history w' = w_history w @ [\<lparr>h_order = oid, h_store = s, h_from = Some (o_status o1),
            h_to = to, h_actor = ac_user act, h_note = note\<rparr>]"
      by (simp add: moved(8) w2 insert_history_def keeps)
    show "w_outbox w' = w_outbox w @ [status_event s oid (o_number o1) (o_status o1) to]"
      by (simp add: moved(8) w2 insert_history_def keeps emitIn_def)
    show "w_payments w' = w_payments w" "w_items w' = w_items w"
      by (simp_all add: moved(8) w2 insert_history_def keeps)
    show "stock_inv w'" using eff stock_inv_cong [OF lv] by simp
    show "orders_inv w'" using update_status_inv [OF moved(7) inv] by (simp add: moved(8))
    show "counted s w' = counted s w" using eff counted_cong [OF lv(1)] by simp
    show "\<forall>u. shelf w' u = (if counted s w u
       then stock_move (o_status o1) to (ordered (items_of_order w oid) u) (shelf w u) else shelf w u)"
      using eff shelf_cong [OF lv(1)] by simp
  qed
qed (use assms(4) in simp)

text \<open>The notice after the transaction touches the inbox and nothing else.\<close>

lemma transition_cases:
  assumes "transition newId s oid to act note w = (r, w')"
  obtains (refused) e where "r = Inl e" and "w' = w"
  | (kept) t w1 where "r = Inr t" and "transition_tx s oid to act note w = Inr (t, w1)"
      and "off_inbox w' = off_inbox w1" and "tt_unchanged t \<Longrightarrow> w' = w1"
proof (cases "transition_tx s oid to act note w")
  case (Inl e)
  with assms show ?thesis by (intro refused) (auto simp: transition_def run_tx_def)
next
  case (Inr p)
  obtain t w1 where p: "p = (t, w1)" by (cases p)
  show ?thesis
  proof (rule kept [of t w1])
    show "off_inbox w' = off_inbox w1"
      using assms Inr p notifyOrder_off
      by (auto simp: transition_def run_tx_def split: if_splits option.splits)
  qed (use assms Inr p in \<open>auto simp: transition_def run_tx_def split: if_splits\<close>)
qed

lemma off_inbox_keeps:
  assumes "off_inbox w' = off_inbox w"
  shows "w_levels w' = w_levels w" "w_movements w' = w_movements w" "w_orders w' = w_orders w"
    "w_items w' = w_items w" "w_history w' = w_history w" "w_payments w' = w_payments w"
    "w_outbox w' = w_outbox w" "w_metrics w' = w_metrics w" "w_refunds w' = w_refunds w"
    "w_stores w' = w_stores w" "w_deliveries w' = w_deliveries w" "w_events w' = w_events w"
    "w_subs w' = w_subs w" "w_carts w' = w_carts w" "w_cart_items w' = w_cart_items w"
    "w_coupons w' = w_coupons w" "w_redemptions w' = w_redemptions w" "w_sessions w' = w_sessions w"
    "w_lines w' = w_lines w" "w_rates w' = w_rates w" "w_variants w' = w_variants w"
  using arg_cong [OF assms, of w_levels] arg_cong [OF assms, of w_movements]
    arg_cong [OF assms, of w_orders] arg_cong [OF assms, of w_items]
    arg_cong [OF assms, of w_history] arg_cong [OF assms, of w_payments]
    arg_cong [OF assms, of w_outbox] arg_cong [OF assms, of w_metrics]
    arg_cong [OF assms, of w_refunds] arg_cong [OF assms, of w_stores]
    arg_cong [OF assms, of w_deliveries] arg_cong [OF assms, of w_events]
    arg_cong [OF assms, of w_subs] arg_cong [OF assms, of w_carts]
    arg_cong [OF assms, of w_cart_items] arg_cong [OF assms, of w_coupons]
    arg_cong [OF assms, of w_redemptions] arg_cong [OF assms, of w_sessions]
    arg_cong [OF assms, of w_lines] arg_cong [OF assms, of w_rates]
    arg_cong [OF assms, of w_variants]
  by (simp_all add: off_inbox_def)

section \<open>A status change\<close>

lemma transition_changes:
  assumes "transition newId s oid to act note w = (Inr t, w')" and "stock_inv w" and "orders_inv w"
  obtains (same) o1 where "find_order s oid w = Some o1" and "o_status o1 = to" and "w' = w"
    | (moved) o1 where "find_order s oid w = Some o1" and "o_status o1 \<noteq> to"
        and "canTransition (o_status o1) to" and "isActorAllowed (o_status o1) to (ac_role act)"
        and "w_orders w' = changed_order s oid to (w_orders w)"
        and "w_history w' = w_history w @ [\<lparr>h_order = oid, h_store = s, h_from = Some (o_status o1),
               h_to = to, h_actor = ac_user act, h_note = note\<rparr>]"
        and "w_outbox w' = w_outbox w @ [status_event s oid (o_number o1) (o_status o1) to]"
        and "w_payments w' = w_payments w" and "w_items w' = w_items w"
        and "stock_inv w'" and "orders_inv w'" and "counted s w' = counted s w"
        and "\<forall>u. shelf w' u = (if counted s w u
               then stock_move (o_status o1) to (ordered (items_of_order w oid) u) (shelf w u)
               else shelf w u)"
  using assms(1)
proof (cases rule: transition_cases)
  case (kept t' w1)
  show thesis
  proof (cases "tt_unchanged t'")
    case True
    from kept(2) show thesis
      by (cases rule: transition_tx_Inr) (use kept(4) True in \<open>auto intro: same\<close>)
  next
    case False
    note same_rows = off_inbox_keeps [OF kept(3)]
    from kept(2) assms(2,3) False show thesis
    proof (rule transition_tx_effect)
      fix o1
      assume o1: "find_order s oid w = Some o1" "canTransition (o_status o1) to"
        "isActorAllowed (o_status o1) to (ac_role act)"
        "w_orders w1 = changed_order s oid to (w_orders w)"
        "w_history w1 = w_history w @ [\<lparr>h_order = oid, h_store = s, h_from = Some (o_status o1),
               h_to = to, h_actor = ac_user act, h_note = note\<rparr>]"
        "w_outbox w1 = w_outbox w @ [status_event s oid (o_number o1) (o_status o1) to]"
        "w_payments w1 = w_payments w" "w_items w1 = w_items w" "stock_inv w1" "orders_inv w1"
        "counted s w1 = counted s w"
        "\<forall>u. shelf w1 u = (if counted s w u
               then stock_move (o_status o1) to (ordered (items_of_order w oid) u) (shelf w u)
               else shelf w u)"
      show thesis
        by (rule moved [OF o1(1)])
          (use o1 same_rows(3-7) shelf_cong [OF same_rows(1)] counted_cong [OF same_rows(1)]
            stock_inv_cong [OF same_rows(1,2)] orders_inv_cong [OF same_rows(3,6,4)]
            canTransition_irrefl [of to] in auto)
    qed
  qed
qed simp

text \<open>
  C2. A status change answers an error and changes nothing, or finds the order already there and
  changes nothing, or the edge is legal and the actor's role is listed for it: then this order's
  row has the new status and no deadline, every other order and every payment is as it was, one
  history row says who moved it from what to what, and one event tells the queue the same.
\<close>

theorem transition_correct:
  assumes "transition newId s oid to act note w = (r, w')" and "stock_inv w" and "orders_inv w"
  shows "case r of Inl e \<Rightarrow> w' = w
    | Inr t \<Rightarrow> \<exists>o1. find_order s oid w = Some o1 \<and>
        (if o_status o1 = to then w' = w
         else canTransition (o_status o1) to \<and> isActorAllowed (o_status o1) to (ac_role act) \<and>
           w_orders w' = update_where (\<lambda>x. o_id x = oid \<and> o_store x = s) (set_status to) (w_orders w) \<and>
           w_history w' = w_history w @ [\<lparr>h_order = oid, h_store = s, h_from = Some (o_status o1),
             h_to = to, h_actor = ac_user act, h_note = note\<rparr>] \<and>
           w_outbox w' = w_outbox w @ [status_event s oid (o_number o1) (o_status o1) to] \<and>
           w_payments w' = w_payments w \<and> orders_inv w')"
proof (cases r)
  case (Inl e)
  with assms(1) show ?thesis by (auto elim: transition_cases)
next
  case (Inr t)
  from assms(1) have "transition newId s oid to act note w = (Inr t, w')" by (simp add: Inr)
  then show ?thesis using assms(2,3)
    by (cases rule: transition_changes) (simp_all add: Inr changed_order_def)
qed

text \<open>
  C8. What a status change does to the shelf is the abstract move of that edge, for every variant
  the store counts and by what the order holds of it: confirming takes the units off the shelf and
  out of the held ones, cancelling a pending order only lets go of them, cancelling later or
  returning puts them back, and no other edge moves stock; the level stays the sum of the ledger.
\<close>

theorem status_change_refines:
  assumes "transition newId s oid to act note w = (Inr t, w')" and "stock_inv w" and "orders_inv w"
    and "find_order s oid w = Some o1"
  shows "stock_inv w' \<and>
    (\<forall>u. shelf w' u =
       (if o_status o1 \<noteq> to \<and> counted s w u
        then stock_move (o_status o1) to (ordered (items_of_order w oid) u) (shelf w u)
        else shelf w u))"
  using assms(1,2,3)
  by (cases rule: transition_changes) (use assms(2,4) in auto)

section \<open>An order waiting to be confirmed\<close>

definition sample_order :: "order_status \<Rightarrow> order" where
  "sample_order st =
     \<lparr>o_id = ''o1'', o_store = ''s1'', o_number = ''MOR-1000'', o_customer = Some ''u9'',
      o_channel = ONLINE, o_fulfillment = FUL_PICKUP, o_status = st, o_subtotal = 1000,
      o_discount = 0, o_tax = 0, o_delivery_fee = 0, o_tip = 100, o_total = 1100,
      o_currency = ''USD'', o_address = None, o_note = None, o_email = None, o_phone = None,
      o_guest_token = None, o_idem = Some ''key1'', o_coupon = None, o_coupon_code = None,
      o_placed_at = 4, o_expires_at = (if st = PENDING then Some 9 else None)\<rparr>"

definition sample_payment :: "string \<Rightarrow> payment_provider \<Rightarrow> payment_status \<Rightarrow> payment" where
  "sample_payment i provider st =
     \<lparr>p_id = i, p_store = ''s1'', p_order = ''o1'', p_provider = provider,
      p_intent = (if provider = STRIPE then Some (''pi_'' @ i) else None), p_amount = 1100,
      p_fee = 0, p_status = st, p_cash_by = None, p_cash_at = None, p_failure = None\<rparr>"

definition sample_queue :: "order_status \<Rightarrow> payment list \<Rightarrow> world" where
  "sample_queue st payments = sample_shop\<lparr>
     w_orders := [sample_order st],
     w_items := [\<lparr>oi_order = ''o1'', oi_store = ''s1'', oi_variant = Some ''v1'', oi_name = ''Tea'',
       oi_attrs = [], oi_sku = None, oi_unit = 500, oi_qty = 2, oi_total = 1000, oi_tax = 0\<rparr>],
     w_payments := payments,
     w_levels := [''v1'' \<mapsto> \<lparr>sl_store = ''s1'', sl_on_hand = 2,
       sl_reserved = (if st = PENDING then 2 else 0),
       sl_tracked = True, sl_reorder_point = None, sl_reorder_qty = None\<rparr>]\<rparr>"

lemma sample_queue_stock_inv: "stock_inv (sample_queue st ps)"
  by (simp add: stock_inv_def sample_queue_def sample_shop_def empty_world_def on_hand_def
      ledger_sum_def level_ok_def fits_int4_def)

lemma sample_queue_orders_inv: "payments_ok ps \<Longrightarrow> orders_inv (sample_queue st ps)"
  by (simp add: orders_inv_def orders_ok_def items_ok_def sample_queue_def sample_order_def
      check_order_def order_amounts_def fits_int4_def)

lemma sample_payment_ok: "payments_ok [sample_payment i pr st]"
  by (simp add: payments_ok_def sample_payment_def fits_int4_def)

definition clerk :: actor where
  "clerk = \<lparr>ac_user = Some ''u2'', ac_role = Member CLERK\<rparr>"

lemma sample_confirm_ok:
  "okE (fst (transition ''n1'' ''s1'' ''o1'' CONFIRMED clerk None
     (sample_queue PENDING [sample_payment ''p1'' CASH PAY_PROCESSING])))"
  by code_simp

theorem transition_correct_witness:
  "\<exists>t w'. transition ''n1'' ''s1'' ''o1'' CONFIRMED clerk None
       (sample_queue PENDING [sample_payment ''p1'' CASH PAY_PROCESSING]) = (Inr t, w') \<and>
     w_orders w' = [sample_order CONFIRMED] \<and> length (w_history w') = 1"
proof -
  let ?w = "sample_queue PENDING [sample_payment ''p1'' CASH PAY_PROCESSING]"
  obtain t w' where ok: "transition ''n1'' ''s1'' ''o1'' CONFIRMED clerk None ?w = (Inr t, w')"
    using sample_confirm_ok by (rule okE_fstE)
  note out = transition_correct [OF ok sample_queue_stock_inv
      sample_queue_orders_inv [OF sample_payment_ok]]
  have "w_orders ?w = [sample_order PENDING]" "w_history ?w = []"
    by (simp_all add: sample_queue_def sample_shop_def empty_world_def)
  then show ?thesis
    using ok out by (auto simp: find_order_def sample_order_def set_status_def split: if_splits)
qed

theorem status_change_refines_witness:
  "\<exists>t w'. transition ''n1'' ''s1'' ''o1'' CONFIRMED clerk None
       (sample_queue PENDING [sample_payment ''p1'' CASH PAY_PROCESSING]) = (Inr t, w') \<and>
     shelf w' ''v1'' = (0, 0)"
proof -
  let ?w = "sample_queue PENDING [sample_payment ''p1'' CASH PAY_PROCESSING]"
  obtain t w' where ok: "transition ''n1'' ''s1'' ''o1'' CONFIRMED clerk None ?w = (Inr t, w')"
    using sample_confirm_ok by (rule okE_fstE)
  have "find_order ''s1'' ''o1'' ?w = Some (sample_order PENDING)"
    by (simp add: find_order_def sample_queue_def sample_order_def)
  note out = status_change_refines [OF ok sample_queue_stock_inv
      sample_queue_orders_inv [OF sample_payment_ok] this]
  have "counted ''s1'' ?w ''v1''" "ordered (items_of_order ?w ''o1'') ''v1'' = 2"
    "shelf ?w ''v1'' = (2, 2)" "o_status (sample_order PENDING) = PENDING"
    by code_simp+
  then show ?thesis using ok out by (auto simp: stock_move_def)
qed

end
