(* ===== verification/OrderSweep.thy ===== *)
theory OrderSweep
  imports OrderProps
begin

text \<open>
  The expiry sweep: which orders it settles and how, and that it never cancels a paid one.
\<close>

section \<open>One order\<close>

lemma find_by_id:
  "distinct (map o_id rows) \<Longrightarrow> o1 \<in> set rows \<Longrightarrow>
     find (\<lambda>x. o_id x = o_id o1 \<and> o_store x = o_store o1) rows = Some o1"
  by (induction rows) auto

lemma find_order_row:
  "orders_inv w \<Longrightarrow> o1 \<in> set (w_orders w) \<Longrightarrow> find_order (o_store o1) (o_id o1) w = Some o1"
  by (simp add: find_order_def find_by_id orders_inv_def orders_ok_def)

text \<open>Expiring a pending order cannot fail: the edge is legal for the system and a release is total.\<close>

lemma expire_goes_through:
  assumes "find_order s oid w = Some o1" and "o_status o1 = PENDING"
    and "stock_inv w" and "orders_inv w"
  obtains t w' where "transition i s oid CANCELLED system_actor note w = (Inr t, w')"
proof -
  have ok: "items_ok (items_of_order w oid)"
    using assms(4) by (simp add: orders_inv_def items_of_order_def items_ok_filter)
  obtain w1 where w1: "foldE (release_item s) (items_of_order w oid) w = Inr w1"
    using release_total [OF assms(3) ok] by (auto simp: okE_iff)
  have "\<forall>u. 0 \<le> reserved w u" using stock_inv_available [OF assms(3)] by simp
  then have "off_stock w1 = off_stock w" using release_effect [OF w1 ok] by simp
  note keeps = off_stock_keeps [OF this]
  have "\<forall>x \<in> set (w_orders w). o_id x = oid \<and> o_store x = s \<longrightarrow> x = o1"
    using assms(4) find_order_in [OF assms(1)]
    by (auto simp: orders_inv_def orders_ok_def distinct_map inj_on_def)
  then have "okE (update_status s oid CANCELLED w1)"
    by (auto simp: update_status_def keeps trigger_agrees assms(2))
  then obtain w2 where w2: "update_status s oid CANCELLED w1 = Inr w2" by (auto simp: okE_iff)
  have eff: "applyStockEffects s oid PENDING CANCELLED None w = Inr w1"
    by (simp add: applyStockEffects_def w1)
  have "isActorAllowed PENDING CANCELLED SYSTEM"
    by (simp add: isActorAllowed_def TRANSITION_ACTORS_def)
  then have "okE (transition_tx s oid CANCELLED system_actor note w)"
    using assms(1,2) by (simp add: transition_tx_def Let_def eff w2 system_actor_def assertTransition_def)
  then show thesis
    by (auto simp: okE_iff transition_def run_tx_def intro: that)
qed

section \<open>The whole sweep\<close>

text \<open>
  What the sweep may make of an order: \<open>rows\<close> are the orders it read, each with whether a payment
  had succeeded.
\<close>

definition settled :: "(string \<times> string \<times> bool) list \<Rightarrow> order \<Rightarrow> order \<Rightarrow> bool" where
  "settled rows a b =
     (if (o_id a, o_store a, False) \<in> set rows then b = set_status CANCELLED a
      else if (o_id a, o_store a, True) \<in> set rows then b = a \<or> b = set_status CONFIRMED a
      else b = a)"

lemma set_status_same [simp]: "o_id (set_status st a) = o_id a" "o_store (set_status st a) = o_store a"
  by (simp_all add: set_status_def)

lemma settled_id: "settled rows a b \<Longrightarrow> o_id b = o_id a \<and> o_store b = o_store a"
  by (auto simp: settled_def split: if_splits)

lemma settled_ids: "list_all2 (settled rows) xs ys \<Longrightarrow> map o_id ys = map o_id xs"
  by (induction rule: list_all2_induct) (auto dest: settled_id)

lemma settled_Cons:
  assumes "settled [row] a b" and "settled rows b c" and "fst row \<notin> fst ` set rows"
  shows "settled (row # rows) a c"
proof (cases "fst row = o_id a")
  case True
  then have "(o_id a, o_store a, x) \<notin> set rows" for x using assms(3) by force
  then have "c = b" using assms(2) settled_id [OF assms(1)] by (simp add: settled_def)
  then show ?thesis
    using assms(1) \<open>\<And>x. (o_id a, o_store a, x) \<notin> set rows\<close> by (auto simp: settled_def)
next
  case False
  then have "b = a" using assms(1) by (auto simp: settled_def split: if_splits)
  then show ?thesis using assms(2) False by (auto simp: settled_def)
qed

lemma changed_settled:
  "list_all2 (settled [(oid, s, False)]) rows (changed_order s oid CANCELLED rows)"
  "list_all2 (settled [(oid, s, True)]) rows (changed_order s oid CONFIRMED rows)"
  "list_all2 (settled [(oid, s, True)]) rows rows"
  unfolding changed_order_def by (induction rows) (auto simp: settled_def)

lemma settle_one:
  assumes "settle_stale newIds (oid, s, paid) (k, w) = (k', w')"
    and "find_order s oid w = Some o1" and "o_status o1 = PENDING"
    and "stock_inv w" and "orders_inv w"
  shows "list_all2 (settled [(oid, s, paid)]) (w_orders w) (w_orders w') \<and>
    w_payments w' = w_payments w \<and> stock_inv w' \<and> orders_inv w' \<and>
    k' = k + (if paid then 0 else 1)"
proof (cases paid)
  case False
  obtain t w1 where t: "transition (newIds oid) s oid CANCELLED system_actor
      (Some ''Expired without payment'') w = (Inr t, w1)"
    by (rule expire_goes_through [OF assms(2-5)])
  have "k' = k + 1" "w' = w1" using assms(1) False t by (auto simp: settle_stale_def)
  from t assms(4,5) show ?thesis
  proof (cases rule: transition_changes)
    case (same o2)
    then show ?thesis using assms(2,3) by simp
  next
    case (moved o2)
    then show ?thesis using \<open>k' = k + 1\<close> \<open>w' = w1\<close> False changed_settled by simp
  qed
next
  case True
  define why where "why = Some ''Payment received; confirmed by the expiry sweep after the original confirmation failed''"
  obtain r w1 where t: "transition (newIds oid) s oid CONFIRMED system_actor why w = (r, w1)"
    by (meson surj_pair)
  show ?thesis
  proof (cases r)
    case (Inl e)
    then have "w1 = w" using t by (auto elim: transition_cases)
    then show ?thesis
      using assms(1,4,5) True t Inl changed_settled(3)
      by (auto simp: settle_stale_def why_def)
  next
    case (Inr x)
    then have w': "k' = k" "w' = inc ''orders_recovered_total'' [''paid_but_unconfirmed''] w1"
      using assms(1) True t by (auto simp: settle_stale_def why_def)
    from t have "transition (newIds oid) s oid CONFIRMED system_actor why w = (Inr x, w1)" by (simp add: Inr)
    from this assms(4,5) show ?thesis
    proof (cases rule: transition_changes)
      case (same o2)
      then show ?thesis using assms(2,3) by simp
    next
      case (moved o2)
      then show ?thesis using w' True changed_settled by simp
    qed
  qed
qed

lemma settle_all:
  assumes "foldl (\<lambda>st row. settle_stale newIds row st) (k, w) rows = (k', w')"
    and "distinct (map fst rows)"
    and "\<forall>(oid, s, paid) \<in> set rows. \<exists>o1. find_order s oid w = Some o1 \<and> o_status o1 = PENDING"
    and "stock_inv w" and "orders_inv w"
  shows "list_all2 (settled rows) (w_orders w) (w_orders w') \<and> w_payments w' = w_payments w \<and>
    stock_inv w' \<and> orders_inv w' \<and> k' = k + count_where (\<lambda>(oid, s, paid). \<not> paid) rows"
  using assms
proof (induction rows arbitrary: k w)
  case Nil
  then show ?case by (simp add: settled_def list_all2_refl)
next
  case (Cons row rows)
  obtain oid s paid where row: "row = (oid, s, paid)" by (cases row)
  obtain k1 w1 where s1: "settle_stale newIds row (k, w) = (k1, w1)"
    by (meson surj_pair)
  obtain o1 where o1: "find_order s oid w = Some o1" "o_status o1 = PENDING"
    using Cons.prems(3) by (auto simp: row)
  note one = settle_one [OF s1 [unfolded row] o1 Cons.prems(4,5)]
  have rest: "\<forall>(oid', s', paid') \<in> set rows.
      \<exists>o2. find_order s' oid' w1 = Some o2 \<and> o_status o2 = PENDING"
  proof clarify
    fix oid' s' paid' assume r: "(oid', s', paid') \<in> set rows"
    then obtain o2 where o2: "find_order s' oid' w = Some o2" "o_status o2 = PENDING"
      using Cons.prems(3) by auto
    have "oid' \<noteq> oid" using Cons.prems(2) r by (force simp: row)
    note o2_in = find_order_in [OF o2(1)]
    then obtain b where b: "b \<in> set (w_orders w1)" "settled [(oid, s, paid)] o2 b"
      using one list_all2_conv_all_nth in_set_conv_nth by (metis (no_types, lifting))
    have "b = o2" using b(2) o2_in \<open>oid' \<noteq> oid\<close> by (simp add: settled_def)
    then show "\<exists>o2. find_order s' oid' w1 = Some o2 \<and> o_status o2 = PENDING"
      using find_order_row [of w1 o2] one b(1) o2 o2_in by auto
  qed
  have "foldl (\<lambda>st row. settle_stale newIds row st) (k1, w1) rows = (k', w')"
    using Cons.prems(1) s1 by simp
  note all = Cons.IH [OF this _ rest] 
  have "list_all2 (settled (row # rows)) (w_orders w) (w_orders w')"
  proof (rule list_all2_trans)
    show "list_all2 (settled [row]) (w_orders w) (w_orders w1)" using one by (simp add: row)
    show "list_all2 (settled rows) (w_orders w1) (w_orders w')" using all one Cons.prems(2) by simp
    show "settled [row] a b \<Longrightarrow> settled rows b c \<Longrightarrow> settled (row # rows) a c" for a b c
      by (rule settled_Cons) (use Cons.prems(2) in simp_all)
  qed
  then show ?case using one all Cons.prems(2) by (auto simp: row)
qed

lemma stale_distinct:
  assumes "orders_inv w"
  shows "distinct (map fst (stale_orders now w))"
proof -
  have "distinct (map o_id (w_orders w))" using assms by (simp add: orders_inv_def orders_ok_def)
  then show ?thesis by (simp add: stale_orders_def o_def distinct_map_filter distinct_take take_map [symmetric])
qed

lemma stale_rows:
  assumes "orders_inv w" and "(oid, s, paid) \<in> set (stale_orders now w)"
  obtains o1 where "find_order s oid w = Some o1" and "o_status o1 = PENDING" and "paid = is_paid w oid"
proof -
  obtain o1 where "o1 \<in> set (w_orders w)" "o_status o1 = PENDING" "oid = o_id o1" "s = o_store o1"
    "paid = is_paid w oid"
    using assms(2) by (auto simp: stale_orders_def dest!: in_set_takeD)
  then show thesis using find_order_row [OF assms(1)] by (intro that) simp_all
qed

lemma sweep_result:
  assumes "expireStaleOrders newIds now w = (n, w')" and "stock_inv w" and "orders_inv w"
  shows "list_all2 (settled (stale_orders now w)) (w_orders w) (w_orders w') \<and>
    w_payments w' = w_payments w \<and> stock_inv w' \<and> orders_inv w' \<and>
    n = count_where (\<lambda>(oid, s, paid). \<not> paid) (stale_orders now w)"
proof -
  have "\<forall>(oid, s, paid) \<in> set (stale_orders now w).
      \<exists>o1. find_order s oid w = Some o1 \<and> o_status o1 = PENDING"
    by (auto elim: stale_rows [OF assms(3)])
  from settle_all [OF assms(1) [unfolded expireStaleOrders_def] stale_distinct [OF assms(3)] this
      assms(2,3)]
  show ?thesis by simp
qed

lemma list_all2_partner:
  "list_all2 P xs ys \<Longrightarrow> x \<in> set xs \<Longrightarrow> \<exists>y \<in> set ys. P x y"
  by (induction rule: list_all2_induct) auto

text \<open>
  C11. The expiry sweep never cancels an order that has been paid for: after it, such an order is
  the row it was, or it is confirmed in place of still waiting; no payment is touched, and the
  stock and order tables keep their invariants.
\<close>

theorem sweep_spares_paid:
  assumes "expireStaleOrders newIds now w = (n, w')" and "stock_inv w" and "orders_inv w"
    and "o1 \<in> set (w_orders w)" and "is_paid w (o_id o1)"
  shows "(o1 \<in> set (w_orders w') \<or>
      o_status o1 = PENDING \<and> set_status CONFIRMED o1 \<in> set (w_orders w')) \<and>
    w_payments w' = w_payments w \<and> stock_inv w' \<and> orders_inv w'"
proof -
  note out = sweep_result [OF assms(1-3)]
  obtain b where b: "b \<in> set (w_orders w')" "settled (stale_orders now w) o1 b"
    using list_all2_partner [OF conjunct1 [OF out] assms(4)] by blast
  have "(o_id o1, o_store o1, False) \<notin> set (stale_orders now w)"
  proof
    assume "(o_id o1, o_store o1, False) \<in> set (stale_orders now w)"
    then show False by (rule stale_rows [OF assms(3)]) (use assms(5) in simp)
  qed
  moreover have "o_status o1 = PENDING" if "(o_id o1, o_store o1, True) \<in> set (stale_orders now w)"
    using that by (rule stale_rows [OF assms(3)]) (use find_order_row [OF assms(3,4)] in simp)
  ultimately have "b = o1 \<or> o_status o1 = PENDING \<and> b = set_status CONFIRMED o1"
    using b(2) unfolding settled_def by presburger
  then show ?thesis using b(1) out by blast
qed

definition overdue :: "int \<Rightarrow> order \<Rightarrow> bool" where
  "overdue now o1 = (o_status o1 = PENDING \<and> (\<exists>t < now. o_expires_at o1 = Some t))"

lemma stale_overdue:
  "stale_orders now w =
     map (\<lambda>o1. (o_id o1, o_store o1, is_paid w (o_id o1))) (take 200 (filter (overdue now) (w_orders w)))"
proof -
  have "(\<lambda>o1. o_status o1 = PENDING \<and>
      (case o_expires_at o1 of None \<Rightarrow> False | Some t \<Rightarrow> t < now)) = overdue now"
    by (auto simp: overdue_def fun_eq_iff split: option.split)
  then show ?thesis by (simp add: stale_orders_def)
qed

text \<open>
  C12. With at most two hundred orders overdue, one sweep settles every one of them that nobody
  paid for: each is cancelled, its change of status cannot fail, the sweep's count is exactly
  their number, and no unpaid overdue order is left.
\<close>

theorem sweep_settles_unpaid:
  assumes "expireStaleOrders newIds now w = (n, w')" and "stock_inv w" and "orders_inv w"
    and "count_where (overdue now) (w_orders w) \<le> 200"
  shows "n = count_where (\<lambda>o1. overdue now o1 \<and> \<not> is_paid w (o_id o1)) (w_orders w) \<and>
    (\<forall>o1 \<in> set (w_orders w). overdue now o1 \<and> \<not> is_paid w (o_id o1) \<longrightarrow>
       set_status CANCELLED o1 \<in> set (w_orders w')) \<and>
    (\<forall>o1 \<in> set (w_orders w'). overdue now o1 \<longrightarrow> is_paid w' (o_id o1))"
proof -
  note out = sweep_result [OF assms(1-3)]
  have stale: "stale_orders now w =
      map (\<lambda>o1. (o_id o1, o_store o1, is_paid w (o_id o1))) (filter (overdue now) (w_orders w))"
    using assms(4) by (simp add: stale_overdue count_where_def)
  have paid: "is_paid w' = is_paid w" using out by (simp add: is_paid_def fun_eq_iff)
  have row: "(o_id o1, o_store o1, False) \<in> set (stale_orders now w)"
    if "o1 \<in> set (w_orders w)" "overdue now o1" "\<not> is_paid w (o_id o1)" for o1
    using that by (force simp: stale)
  have "n = count_where (\<lambda>o1. overdue now o1 \<and> \<not> is_paid w (o_id o1)) (w_orders w)"
    using out by (simp add: stale count_where_def filter_map o_def conj_commute)
  moreover have "set_status CANCELLED o1 \<in> set (w_orders w')"
    if "o1 \<in> set (w_orders w)" "overdue now o1" "\<not> is_paid w (o_id o1)" for o1
    using list_all2_partner [OF conjunct1 [OF out] that(1)] row [OF that] by (auto simp: settled_def)
  moreover have "is_paid w' (o_id b)" if b: "b \<in> set (w_orders w')" "overdue now b" for b
  proof (rule ccontr)
    assume unpaid: "\<not> is_paid w' (o_id b)"
    obtain a where a: "a \<in> set (w_orders w)" "settled (stale_orders now w) a b"
      using out b(1) list_all2_conv_all_nth in_set_conv_nth by (metis (no_types, lifting))
    have open_b: "o_status b = PENDING" using b(2) by (simp add: overdue_def)
    then have not_moved: "b \<noteq> set_status CANCELLED a" "b \<noteq> set_status CONFIRMED a"
      by (auto simp: set_status_def)
    then have "b = a" using a(2) unfolding settled_def by presburger
    then have "(o_id a, o_store a, False) \<in> set (stale_orders now w)"
      using row [OF a(1)] b(2) unpaid paid by simp
    then show False using a(2) not_moved by (simp add: settled_def)
  qed
  ultimately show ?thesis by simp
qed

theorem sweep_spares_paid_witness:
  "\<exists>n w'. expireStaleOrders (\<lambda>_. ''n1'') 10
       (sample_queue PENDING [sample_payment ''p1'' CASH PAY_SUCCEEDED]) = (n, w') \<and>
     (sample_order PENDING \<in> set (w_orders w') \<or>
      set_status CONFIRMED (sample_order PENDING) \<in> set (w_orders w'))"
proof -
  let ?w = "sample_queue PENDING [sample_payment ''p1'' CASH PAY_SUCCEEDED]"
  obtain n w' where run: "expireStaleOrders (\<lambda>_. ''n1'') 10 ?w = (n, w')" by (meson surj_pair)
  have "sample_order PENDING \<in> set (w_orders ?w)" "is_paid ?w (o_id (sample_order PENDING))"
    by (simp_all add: sample_queue_def is_paid_def sample_payment_def sample_order_def)
  with sweep_spares_paid [OF run sample_queue_stock_inv sample_queue_orders_inv [OF sample_payment_ok]]
    run show ?thesis by blast
qed

theorem sweep_settles_unpaid_witness:
  "\<exists>w'. expireStaleOrders (\<lambda>_. ''n1'') 10
       (sample_queue PENDING [sample_payment ''p1'' CASH PAY_PROCESSING]) = (1, w') \<and>
     set_status CANCELLED (sample_order PENDING) \<in> set (w_orders w')"
proof -
  let ?w = "sample_queue PENDING [sample_payment ''p1'' CASH PAY_PROCESSING]"
  obtain n w' where run: "expireStaleOrders (\<lambda>_. ''n1'') 10 ?w = (n, w')" by (meson surj_pair)
  have rows: "w_orders ?w = [sample_order PENDING]" by (simp add: sample_queue_def)
  have due: "overdue 10 (sample_order PENDING)" by (simp add: overdue_def sample_order_def)
  have unpaid: "\<not> is_paid ?w (o_id (sample_order PENDING))"
    by (simp add: sample_queue_def is_paid_def sample_payment_def)
  have few: "count_where (overdue 10) (w_orders ?w) \<le> 200" by (simp add: rows due)
  note out = sweep_settles_unpaid [OF run sample_queue_stock_inv
      sample_queue_orders_inv [OF sample_payment_ok] few]
  have "n = 1" using out unpaid by (simp add: rows due)
  moreover have "set_status CANCELLED (sample_order PENDING) \<in> set (w_orders w')"
    using out unpaid by (simp add: rows due)
  ultimately show ?thesis using run by blast
qed

end
