(* ===== verification/OrderCash.thy ===== *)
theory OrderCash
  imports OrderProps
begin

text \<open>
  Collecting cash: what it does to the payments of an order, that a second tap changes nothing, and
  that it does not look at whether the order has already been paid by card.
\<close>

section \<open>The rows\<close>

definition cash_row :: "string \<Rightarrow> string \<Rightarrow> world \<Rightarrow> payment option" where
  "cash_row s oid w =
     find (\<lambda>p. p_order p = oid \<and> p_store p = s \<and> p_provider p = CASH) (w_payments w)"

lemma cash_row_in:
  "cash_row s oid w = Some p \<Longrightarrow>
     p \<in> set (w_payments w) \<and> p_order p = oid \<and> p_store p = s \<and> p_provider p = CASH"
  unfolding cash_row_def by (drule findD) simp

lemma recordCash_cases:
  assumes "recordCashPayment now s oid actor w = (res, w')"
  obtains (missing) e where "res = Inl e" and "w' = w"
  | (already) p o1 where "cash_row s oid w = Some p" and "find (\<lambda>o1. o_id o1 = oid) (w_orders w) = Some o1"
      and "p_status p = PAY_SUCCEEDED" and "w' = w"
      and "res = Inr \<lparr>cr_payment = p_id p, cr_amount = p_amount p, cr_already = True, cr_number = o_number o1\<rparr>"
  | (taken) p o1 where "cash_row s oid w = Some p" and "find (\<lambda>o1. o_id o1 = oid) (w_orders w) = Some o1"
      and "p_status p \<noteq> PAY_SUCCEEDED"
      and "w_payments w' = update_where (\<lambda>x. p_order x = oid \<and> p_store x = s \<and> p_status x \<noteq> PAY_SUCCEEDED)
             (\<lambda>x. x\<lparr>p_status := PAY_CANCELED\<rparr>)
             (update_where (\<lambda>x. p_id x = p_id p)
               (\<lambda>x. x\<lparr>p_status := PAY_SUCCEEDED, p_cash_by := Some actor, p_cash_at := Some now\<rparr>)
               (w_payments w))"
      and "w_orders w' = w_orders w" and "w_items w' = w_items w" and "w_levels w' = w_levels w"
      and "w_movements w' = w_movements w"
      and "res = Inr \<lparr>cr_payment = p_id p, cr_amount = p_amount p, cr_already = False, cr_number = o_number o1\<rparr>"
proof (cases "cash_row s oid w")
  case None
  then show ?thesis
    using assms by (intro missing) (auto simp: recordCashPayment_def cash_row_def split: option.splits)
next
  case (Some p)
  note p = Some [unfolded cash_row_def]
  show ?thesis
  proof (cases "find (\<lambda>o1. o_id o1 = oid) (w_orders w)")
    case None
    then show ?thesis using assms p by (intro missing) (auto simp: recordCashPayment_def)
  next
    case (Some o1)
    show ?thesis
    proof (cases "p_status p = PAY_SUCCEEDED")
      case True
      show ?thesis
        by (rule already [OF \<open>cash_row s oid w = Some p\<close> Some True])
          (use assms p Some True in \<open>auto simp: recordCashPayment_def\<close>)
    next
      case False
      show ?thesis
        by (rule taken [OF \<open>cash_row s oid w = Some p\<close> Some False])
          (use assms p Some False in \<open>auto simp: recordCashPayment_def Let_def
             retireSupersededPayments_def payment_outcome_def\<close>)
    qed
  qed
qed

lemma find_map_same: "(\<And>x. P (f x) = P x) \<Longrightarrow> find P (map f xs) = map_option f (find P xs)"
  by (induction xs) auto

lemma find_update_where:
  "(\<And>x. P (f x) = P x) \<Longrightarrow>
     find P (update_where q f xs) = map_option (\<lambda>x. if q x then f x else x) (find P xs)"
  unfolding update_where_def by (rule find_map_same) simp

text \<open>One row of the payments table when the cash row \<open>i\<close> of an order has been collected.\<close>

definition settled_cash :: "int \<Rightarrow> string \<Rightarrow> string \<Rightarrow> string \<Rightarrow> string \<Rightarrow> payment \<Rightarrow> payment" where
  "settled_cash now s oid actor i x =
     (if p_id x = i
      then x\<lparr>p_status := PAY_SUCCEEDED, p_cash_by := Some actor, p_cash_at := Some now\<rparr>
      else if p_order x = oid \<and> p_store x = s \<and> p_status x \<noteq> PAY_SUCCEEDED
      then x\<lparr>p_status := PAY_CANCELED\<rparr>
      else x)"

text \<open>
  C13. Collecting cash settles the order's payments.  On an order whose cash payment is
  outstanding, exactly this happens to the payments table: the cash row of this order and store
  succeeds, in the collector's name and at that moment; every other payment of the order in this
  store that has not succeeded is cancelled; those that have succeeded, and every other order's,
  stay as they are.  No order and no stock changes.  When the cash is on record already nothing
  changes.  Either way the answer names the cash row and its amount, and collecting again, by
  whomever and whenever, answers the same payment as already recorded and changes nothing.
\<close>

theorem cash_settles_once:
  assumes "recordCashPayment now s oid actor w = (Inr r, w')"
    and "\<forall>p. cash_row s oid w = Some p \<longrightarrow> p_status p \<noteq> PAY_CANCELED"
  shows "(\<exists>p. cash_row s oid w = Some p \<and> cr_payment r = p_id p \<and> cr_amount r = p_amount p \<and>
      cr_already r = (p_status p = PAY_SUCCEEDED) \<and>
      (if p_status p = PAY_SUCCEEDED then w' = w
       else w_payments w' = map (settled_cash now s oid actor (p_id p)) (w_payments w))) \<and>
    w_orders w' = w_orders w \<and> w_levels w' = w_levels w \<and> w_movements w' = w_movements w \<and>
    recordCashPayment later s oid other w' = (Inr (r\<lparr>cr_already := True\<rparr>), w')"
  using assms(1)
proof (cases rule: recordCash_cases)
  case (already p o1)
  then have "recordCashPayment later s oid other w = (Inr r, w)"
    by (simp add: recordCashPayment_def cash_row_def)
  then show ?thesis using already by auto
next
  case (taken p o1)
  have row': "cash_row s oid w' = Some (p\<lparr>p_status := PAY_SUCCEEDED, p_cash_by := Some actor, p_cash_at := Some now\<rparr>)"
    using taken(1) by (simp add: cash_row_def taken(4) find_update_where)
  moreover have "find (\<lambda>o1. o_id o1 = oid) (w_orders w') = Some o1" using taken(2,5) by simp
  with row' have again: "recordCashPayment later s oid other w' = (Inr (r\<lparr>cr_already := True\<rparr>), w')"
    using taken(9) by (simp add: recordCashPayment_def cash_row_def)
  have "w_payments w' = map (settled_cash now s oid actor (p_id p)) (w_payments w)"
    unfolding taken(4) update_where_def map_map by (rule map_cong) (simp_all add: settled_cash_def)
  then show ?thesis using taken(1,3,5,7,8,9) again by auto
qed simp

theorem cash_settles_once_witness:
  "\<exists>r w'. recordCashPayment 7 ''s1'' ''o1'' ''u2''
       (sample_queue CONFIRMED [sample_payment ''p1'' CASH PAY_PROCESSING]) = (Inr r, w') \<and>
     map p_cash_by (w_payments w') = [Some ''u2''] \<and>
     recordCashPayment 8 ''s1'' ''o1'' ''u3'' w' = (Inr (r\<lparr>cr_already := True\<rparr>), w')"
proof -
  let ?w = "sample_queue CONFIRMED [sample_payment ''p1'' CASH PAY_PROCESSING]"
  have row: "cash_row ''s1'' ''o1'' ?w = Some (sample_payment ''p1'' CASH PAY_PROCESSING)"
    and rows: "w_payments ?w = [sample_payment ''p1'' CASH PAY_PROCESSING]"
    by (simp_all add: cash_row_def sample_queue_def sample_payment_def)
  have "okE (fst (recordCashPayment 7 ''s1'' ''o1'' ''u2'' ?w))" by code_simp
  then obtain r w' where run: "recordCashPayment 7 ''s1'' ''o1'' ''u2'' ?w = (Inr r, w')"
    by (rule okE_fstE)
  have "\<forall>p. cash_row ''s1'' ''o1'' ?w = Some p \<longrightarrow> p_status p \<noteq> PAY_CANCELED"
    unfolding row by (simp add: sample_payment_def)
  from cash_settles_once [OF run this, of 8 "''u3''"] run show ?thesis
    unfolding row rows by (auto simp: settled_cash_def sample_payment_def)
qed

section \<open>Paid by card already\<close>

definition collected :: "world \<Rightarrow> string \<Rightarrow> int" where
  "collected w oid =
     sum_where (\<lambda>p. p_order p = oid \<and> p_status p = PAY_SUCCEEDED) p_amount (w_payments w)"

lemma collected_two:
  assumes "distinct (map p_id ps)" and "\<forall>p \<in> set ps. 0 \<le> p_amount p"
    and "p \<in> set ps" and "q \<in> set ps" and "p_id p \<noteq> p_id q" and "P p" and "P q"
  shows "p_amount p + p_amount q \<le> sum_where P p_amount ps"
  using assms
proof (induction ps)
  case (Cons x ps)
  have one: "p_amount y \<le> sum_where P p_amount ps" if "y \<in> set ps" "P y" for y
    using that Cons.prems(2)
  proof (induction ps)
    case (Cons z zs)
    then have "0 \<le> sum_where P p_amount zs" by (intro sum_where_nonneg) simp
    then show ?case using Cons by auto
  qed simp
  show ?case using Cons one by (cases "x = p"; cases "x = q") force+
qed simp

text \<open>
  A cash row that a card payment has retired can still be collected: the service only asks
  whether this row has succeeded, so an order the customer has paid by card is paid again in
  cash, and both payments stand.
\<close>

theorem cash_after_card_collects_twice:
  assumes "orders_inv w" and "cash_row s oid w = Some p" and "p_status p = PAY_CANCELED"
    and "q \<in> set (w_payments w)" and "p_order q = oid" and "p_provider q = STRIPE"
    and "p_status q = PAY_SUCCEEDED" and "o1 \<in> set (w_orders w)" and "o_id o1 = oid"
  shows "\<exists>r w'. recordCashPayment now s oid actor w = (Inr r, w') \<and> \<not> cr_already r \<and>
    q \<in> set (w_payments w') \<and> p_amount p + p_amount q \<le> collected w' oid"
proof -
  obtain res w' where run: "recordCashPayment now s oid actor w = (res, w')" by (meson surj_pair)
  have "find (\<lambda>o1. o_id o1 = oid) (w_orders w) \<noteq> None" using assms(8,9) by (auto simp: find_None_iff)
  then have "res \<noteq> Inl e" for e
    using run assms(2,3) by (auto simp: recordCashPayment_def cash_row_def Let_def)
  note p = cash_row_in [OF assms(2)]
  have ne: "p_id p \<noteq> p_id q"
    using assms(1,4,6) p
    by (auto simp: orders_inv_def payments_ok_def distinct_map inj_on_def)
  from run show ?thesis
  proof (cases rule: recordCash_cases)
    case (taken p' o')
    then have p': "p' = p" using assms(2) by simp
    define g :: "payment \<Rightarrow> payment" where "g = (\<lambda>x. if p_id x = p_id p
      then x\<lparr>p_status := PAY_SUCCEEDED, p_cash_by := Some actor, p_cash_at := Some now\<rparr> else x)"
    define h :: "payment \<Rightarrow> payment" where "h = (\<lambda>x. if p_order x = oid \<and> p_store x = s \<and> p_status x \<noteq> PAY_SUCCEEDED
      then x\<lparr>p_status := PAY_CANCELED\<rparr> else x)"
    have ps: "w_payments w' = map (\<lambda>x. h (g x)) (w_payments w)"
      using taken(4) by (simp add: p' update_where_def g_def h_def)
    have same: "p_id (h (g x)) = p_id x" "p_amount (h (g x)) = p_amount x"
      "p_order (h (g x)) = p_order x" for x
      by (simp_all add: g_def h_def)
    have q: "h (g q) = q" using ne assms(7) by (simp add: g_def h_def)
    have hp: "p_status (h (g p)) = PAY_SUCCEEDED" by (simp add: g_def h_def)
    have q_in: "q \<in> set (w_payments w')" using assms(4) q by (force simp: ps)
    have "p_amount (h (g p)) + p_amount q \<le> collected w' oid"
      unfolding collected_def
    proof (rule collected_two)
      show "distinct (map p_id (w_payments w'))" "\<forall>p \<in> set (w_payments w'). 0 \<le> p_amount p"
        using assms(1) by (auto simp: ps o_def same orders_inv_def payments_ok_def)
      show "h (g p) \<in> set (w_payments w')" using p by (simp add: ps)
    qed (use q_in ne hp p same assms(5,7) in auto)
    then show ?thesis using run taken(9) q_in same by auto
  qed (use assms(2,3) \<open>\<And>e. res \<noteq> Inl e\<close> in auto)
qed

definition sample_card_paid :: world where
  "sample_card_paid = sample_queue CONFIRMED
     [sample_payment ''p1'' CASH PAY_CANCELED, sample_payment ''p2'' STRIPE PAY_SUCCEEDED]"

theorem cash_after_card_collects_twice_witness:
  "\<exists>r w'. recordCashPayment 7 ''s1'' ''o1'' ''u2'' sample_card_paid = (Inr r, w') \<and>
     2200 \<le> collected w' ''o1''"
proof -
  have inv: "orders_inv sample_card_paid"
    unfolding sample_card_paid_def
    by (rule sample_queue_orders_inv) (simp add: payments_ok_def sample_payment_def fits_int4_def)
  have row: "cash_row ''s1'' ''o1'' sample_card_paid = Some (sample_payment ''p1'' CASH PAY_CANCELED)"
    by (simp add: cash_row_def sample_card_paid_def sample_queue_def sample_payment_def)
  have rows: "sample_payment ''p2'' STRIPE PAY_SUCCEEDED \<in> set (w_payments sample_card_paid)"
    "sample_order CONFIRMED \<in> set (w_orders sample_card_paid)"
    by (simp_all add: sample_card_paid_def sample_queue_def)
  from cash_after_card_collects_twice [OF inv row _ rows(1) _ _ _ rows(2), of 7 "''u2''"]
  show ?thesis by (auto simp: sample_payment_def sample_order_def)
qed

end
