(* ===== verification/Pos.thy ===== *)
theory Pos
  imports OrderFacts
begin

text \<open>
  \<open>PosService\<close> (\<open>modules/orders/pos.service.ts\<close>): finding an item at the till and ringing up a
  counter sale.  A sale is one transaction: it prices from the live catalogue, refuses what is
  not on the shelf, writes the order and walks it to \<open>PICKED_UP\<close>, takes the stock out through the
  ledger and records the cash.
\<close>

section \<open>Finding items\<close>

record till_item =
  ti_variant :: string
  ti_name :: string
  ti_attrs :: "(string \<times> string) list"
  ti_sku :: "string option"
  ti_barcode :: "string option"
  ti_price :: int
  ti_available :: "int option"

definition toTillItem :: "world \<Rightarrow> variant \<Rightarrow> till_item" where
  "toTillItem w v =
     \<lparr>ti_variant = va_id v, ti_name = va_name v, ti_attrs = va_attrs v, ti_sku = va_sku v,
      ti_barcode = va_barcode v, ti_price = va_price v,
      ti_available =
        (case visible_level (in_store (va_store v)) w (va_id v) of
           None \<Rightarrow> None
         | Some l \<Rightarrow> if sl_tracked l then Some (max (sl_on_hand l - sl_reserved l) 0) else None)\<rparr>"

definition sellable :: "string \<Rightarrow> variant \<Rightarrow> bool" where
  "sellable storeId v =
     (va_store v = storeId \<and> \<not> va_deleted v \<and> va_active v \<and>
      va_status v = P_ACTIVE \<and> \<not> va_product_deleted v)"

text \<open>Barcode or SKU first, then the name; \<open>ORDER BY is_default DESC\<close> is stable here.\<close>

definition lookup :: "string \<Rightarrow> string \<Rightarrow> world \<Rightarrow> till_item list" where
  "lookup storeId code w =
     (let trimmed = js_trim code in
      if trimmed = [] then []
      else
        let exact = take 10 (filter (\<lambda>v. sellable storeId v \<and>
              (va_barcode v = Some trimmed \<or> va_sku v = Some trimmed)) (w_variants w))
        in if exact \<noteq> [] then map (toTillItem w) exact
           else map (toTillItem w) (take 20 (sort_key (\<lambda>v. if va_default v then 0 else 1 :: nat)
             (filter (\<lambda>v. sellable storeId v \<and> ilike_contains trimmed (va_name v))
               (w_variants w)))))"

text \<open>The order of names is the database's collation, a parameter.\<close>

definition listTillItems :: "(string \<Rightarrow> nat) \<Rightarrow> string \<Rightarrow> world \<Rightarrow> till_item list" where
  "listTillItems collation storeId w =
     map (toTillItem w) (take 200
       (sort_key (\<lambda>v. collation (va_name v))
         (sort_key (\<lambda>v. if va_default v then 0 else 1 :: nat)
           (filter (sellable storeId) (w_variants w)))))"

section \<open>Ringing up\<close>

record sale_input =
  si_lines :: "(string \<times> js_number) list"
  si_tendered :: "int option"
  si_note :: "string option"
  si_key :: string

record sale_result =
  sa_id :: string
  sa_number :: string
  sa_subtotal :: int
  sa_tax :: int
  sa_total :: int
  sa_currency :: string
  sa_tendered :: "int option"
  sa_change :: "int option"

text \<open>One line, priced from the catalogue: of the variant, active and not deleted.\<close>

definition sale_line :: "string \<Rightarrow> world \<Rightarrow> string \<times> js_number \<Rightarrow> order_line res" where
  "sale_line storeId w line =
     (case find (\<lambda>v. va_id v = fst line \<and> va_store v = storeId \<and> \<not> va_deleted v \<and> va_active v)
             (w_variants w) of
        None \<Rightarrow> Inl (Validation ''One of those items is no longer for sale.'')
      | Some v \<Rightarrow>
          (case snd line of
             NotWhole _ \<Rightarrow> Inl (Validation ''Quantity must be a whole number of at least 1.'')
           | Whole n \<Rightarrow>
               if n < 1 then Inl (Validation ''Quantity must be a whole number of at least 1.'')
               else Inr (order_line_of v n)))"

definition sale_tax_request :: "store \<Rightarrow> order_line list \<Rightarrow> tax_request" where
  "sale_tax_request store lines =
     \<lparr>tq_store = s_id store,
      tq_lines = map (\<lambda>l. \<lparr>tl_variant = ol_variant l, tl_price = ol_unit l, tl_qty = ol_qty l\<rparr>) lines,
      tq_state = s_state store, tq_postal = s_postal store, tq_delivery = 0\<rparr>"

definition check_shelf :: "string \<Rightarrow> world \<Rightarrow> order_line \<Rightarrow> unit res" where
  "check_shelf storeId w line =
     (case visible_level (in_store storeId) w (ol_variant line) of
        None \<Rightarrow> Inr ()
      | Some level \<Rightarrow>
          if \<not> sl_tracked level then Inr ()
          else
            let available = sl_on_hand level - sl_reserved level in
            guardE (\<not> available < ol_qty line)
              (Validation (''Only '' @ show_int (max available 0) @ '' of \"'' @ ol_name line @
                 ''\" left in stock.'')))"

definition sale_order ::
    "int \<Rightarrow> string \<Rightarrow> sale_input \<Rightarrow> store \<Rightarrow> string \<Rightarrow> int \<Rightarrow> int \<Rightarrow> order" where
  "sale_order now orderId input store number subtotalCents taxCents =
     \<lparr>o_id = orderId, o_store = s_id store, o_number = number, o_customer = None, o_channel = POS,
      o_fulfillment = FUL_PICKUP, o_status = PENDING, o_subtotal = subtotalCents, o_discount = 0,
      o_tax = taxCents, o_delivery_fee = 0, o_tip = 0, o_total = subtotalCents + taxCents,
      o_currency = s_currency store, o_address = None, o_note = si_note input, o_email = None,
      o_phone = None, o_guest_token = None, o_idem = Some (si_key input), o_coupon = None,
      o_coupon_code = None, o_placed_at = now, o_expires_at = None\<rparr>"

definition SALE_PATH :: "(order_status \<times> order_status) list" where
  "SALE_PATH =
     [(PENDING, CONFIRMED), (CONFIRMED, PREPARING), (PREPARING, READY), (READY, PICKED_UP)]"

text \<open>
  One step of the path: the update leaves the expiry of the row alone, and a counter sale has
  none, so it is the update the orders service makes.
\<close>

definition walk_step ::
    "string \<Rightarrow> string \<Rightarrow> string \<Rightarrow> order_status \<times> order_status \<Rightarrow> world \<Rightarrow> world res" where
  "walk_step storeId orderId actorUserId edge w =
     mapE (insert_history \<lparr>h_order = orderId, h_store = storeId, h_from = Some (fst edge),
             h_to = snd edge, h_actor = Some actorUserId,
             h_note = (if fst edge = PENDING then Some ''Counter sale'' else None)\<rparr>)
       (update_status storeId orderId (snd edge) w)"

definition take_out :: "string \<Rightarrow> string \<Rightarrow> string \<Rightarrow> order_line \<Rightarrow> world \<Rightarrow> world res" where
  "take_out storeId orderId actorUserId line w =
     (if \<not> counted storeId w (ol_variant line) then Inr w
      else insert_movement (sale_of storeId orderId (Some actorUserId) (ol_variant line)
             (ol_qty line) (Some ''counter_sale'')) w)"

definition sale_payment :: "int \<Rightarrow> string \<Rightarrow> string \<Rightarrow> order \<Rightarrow> payment" where
  "sale_payment now paymentId actorUserId o1 =
     \<lparr>p_id = paymentId, p_store = o_store o1, p_order = o_id o1, p_provider = CASH, p_intent = None,
      p_amount = o_total o1, p_fee = 0, p_status = PAY_SUCCEEDED, p_cash_by = Some actorUserId,
      p_cash_at = Some now, p_failure = None\<rparr>"

definition sale_event :: "order \<Rightarrow> outbox_event" where
  "sale_event o1 =
     event ''order.created'' (o_store o1) (o_id o1)
       [(''orderId'', o_id o1), (''orderNumber'', o_number o1), (''status'', ''PICKED_UP''),
        (''channel'', ''POS'')]"

text \<open>The rows of the sale, in the order the code writes them.\<close>

definition write_sale ::
    "int \<Rightarrow> string \<Rightarrow> string \<Rightarrow> order \<Rightarrow> order_line list \<Rightarrow> int list \<Rightarrow> world \<Rightarrow> world res" where
  "write_sale now paymentId actorUserId o1 lines taxes w =
     (let s = o_store o1; i = o_id o1 in
      bindE (insert_order o1 w) (\<lambda>w1.
      bindE (foldE insert_order_item (new_items i s lines taxes) w1) (\<lambda>w2.
      bindE (foldE (walk_step s i actorUserId) SALE_PATH w2) (\<lambda>w3.
      bindE (foldE (take_out s i actorUserId) lines w3) (\<lambda>w4.
      bindE (insert_payment (sale_payment now paymentId actorUserId o1) w4) (\<lambda>w5.
      Inr (emitIn (sale_event o1)
        (audit_record (audit_entry_of ''order.pos_sale'' MEDIUM s (Some actorUserId) ''order'' i)
          w5))))))))"

definition createSale ::
    "int \<Rightarrow> string \<Rightarrow> string \<Rightarrow> string \<Rightarrow> sale_input \<Rightarrow> store \<Rightarrow> world \<Rightarrow>
     (sale_result \<times> world) res" where
  "createSale now orderId paymentId actorUserId input store w =
     (let storeId = s_id store in
      bindE (mapsE (sale_line storeId w) (si_lines input)) (\<lambda>lines.
      let subtotalCents = sum_list (map ol_total lines);
          tax = tax_quote w (sale_tax_request store lines);
          totalCents = subtotalCents + tx_total tax in
      bindE (guardE (case si_tendered input of None \<Rightarrow> True | Some t \<Rightarrow> \<not> t < totalCents)
               (Validation ''That's less than the total.'')) (\<lambda>_.
      bindE (mapsE (check_shelf storeId w) lines) (\<lambda>_.
      case nextOrderNumber storeId (s_name store) w of (orderNumber, w1) \<Rightarrow>
      let o1 = sale_order now orderId input store orderNumber subtotalCents (tx_total tax) in
      bindE (write_sale now paymentId actorUserId o1 lines (tx_lines tax) w1) (\<lambda>w2.
      Inr (\<lparr>sa_id = orderId, sa_number = orderNumber, sa_subtotal = subtotalCents,
             sa_tax = tx_total tax, sa_total = totalCents, sa_currency = s_currency store,
             sa_tendered = si_tendered input,
             sa_change = map_option (\<lambda>t. t - totalCents) (si_tendered input)\<rparr>, w2))))))"

definition findSaleByKey :: "string \<Rightarrow> string \<Rightarrow> world \<Rightarrow> sale_result option" where
  "findSaleByKey storeId key w =
     map_option (\<lambda>o1. \<lparr>sa_id = o_id o1, sa_number = o_number o1, sa_subtotal = o_subtotal o1,
         sa_tax = o_tax o1, sa_total = o_total o1, sa_currency = o_currency o1,
         sa_tendered = None, sa_change = None\<rparr>)
       (find (\<lambda>o1. o_store o1 = storeId \<and> o_idem o1 = Some key) (w_orders w))"

text \<open>The store is looked up whatever its status.\<close>

definition ringUp ::
    "int \<Rightarrow> string \<Rightarrow> string \<Rightarrow> string \<Rightarrow> string \<Rightarrow> sale_input \<Rightarrow> world \<Rightarrow> sale_result outcome" where
  "ringUp now orderId paymentId storeId actorUserId input w =
     (if si_lines input = [] then (Inl (Validation ''Add something to the sale first.''), w)
      else case findSaleByKey storeId (si_key input) w of
        Some existing \<Rightarrow> (Inr existing, w)
      | None \<Rightarrow>
          (case find (\<lambda>s. s_id s = storeId) (w_stores w) of
             None \<Rightarrow> (notFound, w)
           | Some store \<Rightarrow>
               (case run_tx (createSale now orderId paymentId actorUserId input store) w of
                  (Inr r, w1) \<Rightarrow> (Inr r, w1)
                | (Inl e, w1) \<Rightarrow>
                    (case (if isUniqueViolation e
                           then findSaleByKey storeId (si_key input) w1 else None) of
                       Some created \<Rightarrow> (Inr created, w1)
                     | None \<Rightarrow> (Inl e, w1)))))"

end
