(* ===== verification/PosProps.thy ===== *)
theory PosProps
  imports Pos OrderProps
begin

text \<open>
  What a counter sale guarantees: \<open>stock_lines\<close> is interpreted by the lines leaving the shelf, and
  a sale that went through is one order that has already been picked up and paid.
\<close>

section \<open>Taking the lines off the shelf\<close>

lemma take_out_effect:
  assumes "take_out s oid actor line w = Inr w'"
  shows "off_stock w' = off_stock w \<and> counted s w' = counted s w \<and>
    (\<forall>u. on_hand w' u = on_hand w u +
           (if counted s w u then (if ol_variant line = u then - ol_qty line else 0) else 0) \<and>
         reserved w' u = reserved w u + (if counted s w u then 0 else 0))"
proof (cases "counted s w (ol_variant line)")
  case False
  then show ?thesis using assms by (auto simp: take_out_def)
next
  case True
  then have m: "insert_movement (sale_of s oid (Some actor) (ol_variant line) (ol_qty line)
      (Some ''counter_sale'')) w = Inr w'"
    using assms by (simp add: take_out_def)
  have "counted s w' = counted s w"
    by (rule insert_movement_counted [OF m]) (simp add: True sale_of_def)
  then show ?thesis
    using insert_movement_off [OF m] insert_movement_on_hand [OF m] insert_movement_reserved [OF m] True
    by (auto simp: sale_of_def)
qed

lemma take_out_inv: "take_out s oid actor line w = Inr w' \<Longrightarrow> stock_inv w \<Longrightarrow> stock_inv w'"
  by (auto simp: take_out_def intro: stock_inv_insert split: if_splits)

interpretation selling: stock_lines s "take_out s oid actor"
  "\<lambda>line u. if ol_variant line = u then - ol_qty line else 0" "\<lambda>_ _. 0" for s oid actor
  by unfold_locales (rule take_out_effect take_out_inv; assumption)+

definition sold :: "order_line list \<Rightarrow> string \<Rightarrow> int" where
  "sold lines u = sum_where (\<lambda>l. ol_variant l = u) ol_qty lines"

lemma sum_sold: "sum_list (map (\<lambda>l. if ol_variant l = u then - ol_qty l else 0) lines) = - sold lines u"
  by (induction lines) (auto simp: sold_def)

section \<open>Walking the order to the counter\<close>

lemma set_status_twice:
  "st \<noteq> PENDING \<Longrightarrow> st' \<noteq> PENDING \<Longrightarrow> set_status st (set_status st' o1) = set_status st o1"
  by (simp add: set_status_def)

lemma walk_step_Inr:
  assumes "walk_step s oid actor edge w = Inr w'"
  shows "w_orders w' = changed_order s oid (snd edge) (w_orders w) \<and>
    w' = w\<lparr>w_orders := w_orders w', w_history := w_history w'\<rparr>"
  using assms by (auto simp: walk_step_def insert_history_def changed_order_def dest!: update_status_Inr)

lemma changed_twice:
  "st \<noteq> PENDING \<Longrightarrow> st' \<noteq> PENDING \<Longrightarrow>
     changed_order s oid st (changed_order s oid st' rows) = changed_order s oid st rows"
  unfolding changed_order_def by (subst update_where_twice) (auto simp: set_status_def [abs_def])

lemma walk_Inr:
  assumes "foldE (walk_step s oid actor) SALE_PATH w = Inr w'"
  shows "w_orders w' = changed_order s oid PICKED_UP (w_orders w) \<and>
    w' = w\<lparr>w_orders := w_orders w', w_history := w_history w'\<rparr>"
proof -
  obtain w1 w2 w3 where w1: "walk_step s oid actor (PENDING, CONFIRMED) w = Inr w1"
    and w2: "walk_step s oid actor (CONFIRMED, PREPARING) w1 = Inr w2"
    and w3: "walk_step s oid actor (PREPARING, READY) w2 = Inr w3"
    and w4: "walk_step s oid actor (READY, PICKED_UP) w3 = Inr w'"
    using assms by (auto simp: SALE_PATH_def)
  have rows: "w_orders w' = changed_order s oid PICKED_UP (w_orders w)"
    using walk_step_Inr [OF w1] walk_step_Inr [OF w2] walk_step_Inr [OF w3] walk_step_Inr [OF w4]
    by (simp add: changed_twice)
  have rest: "off w' = off w" if "\<And>v a b. off (v\<lparr>w_orders := a, w_history := b\<rparr>) = off v"
    for off :: "world \<Rightarrow> world"
    using walk_step_Inr [OF w1] walk_step_Inr [OF w2] walk_step_Inr [OF w3] walk_step_Inr [OF w4] that
    by metis
  have "w'\<lparr>w_orders := a, w_history := b\<rparr> = w\<lparr>w_orders := a, w_history := b\<rparr>" for a b
    by (rule rest) simp
  from this [where a = "w_orders w'" and b = "w_history w'"]
  have "w' = w\<lparr>w_orders := w_orders w', w_history := w_history w'\<rparr>" by simp
  with rows show ?thesis by blast
qed

lemma changed_fresh:
  assumes "\<forall>x \<in> set rows. o_id x \<noteq> o_id o1"
  shows "changed_order (o_store o1) (o_id o1) st (rows @ [o1]) = rows @ [set_status st o1]"
  using assms unfolding changed_order_def by (induction rows) auto

section \<open>The rows of a sale\<close>

lemma write_sale_Inr:
  assumes "write_sale now pid actor o1 lines taxes w = Inr w'" and "stock_inv w" and "orders_inv w"
  shows "w_orders w' = w_orders w @ [set_status PICKED_UP o1] \<and>
    w_items w' = w_items w @ new_items (o_id o1) (o_store o1) lines taxes \<and>
    w_payments w' = w_payments w @ [sale_payment now pid actor o1] \<and>
    okE (check_order o1) \<and> stock_inv w' \<and> orders_inv w' \<and>
    (\<forall>u. on_hand w' u = on_hand w u - (if counted (o_store o1) w u then sold lines u else 0) \<and>
         reserved w' u = reserved w u)"
proof -
  let ?s = "o_store o1" and ?i = "o_id o1"
  obtain w1 w2 w3 w4 w5 where w1: "insert_order o1 w = Inr w1"
    and w2: "foldE insert_order_item (new_items ?i ?s lines taxes) w1 = Inr w2"
    and w3: "foldE (walk_step ?s ?i actor) SALE_PATH w2 = Inr w3"
    and w4: "foldE (take_out ?s ?i actor) lines w3 = Inr w4"
    and w5: "insert_payment (sale_payment now pid actor o1) w4 = Inr w5"
    and w': "w' = emitIn (sale_event o1) (audit_record (audit_entry_of ''order.pos_sale'' MEDIUM ?s
          (Some actor) ''order'' ?i) w5)"
    using assms(1) by (auto simp: write_sale_def Let_def)
  have fresh: "okE (check_order o1)" "\<forall>x \<in> set (w_orders w). o_id x \<noteq> ?i"
    and w1': "w1 = w\<lparr>w_orders := w_orders w @ [o1]\<rparr>"
    using w1 by (auto simp: insert_order_Inr order_clash_def)
  note w2' = foldE_items_Inr [OF w2] and walk = walk_Inr [OF w3]
  have rows: "w_orders w3 = w_orders w @ [set_status PICKED_UP o1]"
    using walk changed_fresh [OF fresh(2)] by (simp add: w2' w1')
  have keep3: "w_items w3 = w_items w @ new_items ?i ?s lines taxes" "w_payments w3 = w_payments w"
    "w_levels w3 = w_levels w" "w_movements w3 = w_movements w"
    by (subst conjunct2 [OF walk]; simp add: w2' w1')+
  have inv3: "orders_inv w3"
  proof -
    have "orders_inv w2" using foldE_items_inv [OF w2] insert_order_inv [OF w1 assms(3)] by simp
    then have "orders_ok (changed_order ?s ?i PICKED_UP (w_orders w2))"
      unfolding changed_order_def orders_inv_def
      by (intro orders_ok_update) (auto simp: check_order_def order_amounts_def set_status_def)
    moreover have "w_items w3 = w_items w2" "w_payments w3 = w_payments w2"
      by (subst conjunct2 [OF walk]; simp)+
    ultimately show ?thesis using \<open>orders_inv w2\<close> walk by (simp add: orders_inv_def)
  qed
  have stock3: "stock_inv w3" using stock_inv_cong [OF keep3(3,4)] assms(2) by simp
  note sell = selling.fold_effect [OF w4] and keep4 = off_stock_keeps [OF selling.fold_keeps [OF w4]]
  have inv4: "orders_inv w4" using orders_inv_cong [of w4 w3] keep4 inv3 by simp
  note w5' = insert_payment_Inr [OF w5]
  have "stock_inv w4" by (rule selling.fold_inv [OF w4 stock3])
  then have st: "stock_inv w5" using stock_inv_cong [of w5 w4] by (simp add: w5')
  have "on_hand w' u = on_hand w u - (if counted ?s w u then sold lines u else 0) \<and>
      reserved w' u = reserved w u" for u
    using sell on_hand_cong [of w5 w4] reserved_cong [of w5 w4] on_hand_cong [OF keep3(3)]
      reserved_cong [OF keep3(3)] counted_cong [OF keep3(3)]
    by (simp add: w' w5' sum_sold)
  moreover have "orders_inv w'" using insert_payment_inv [OF w5 inv4] by (simp add: w')
  ultimately show ?thesis
    using fresh(1) st by (simp add: w' w5' keep4 rows keep3)
qed

lemma sale_line_Inr:
  assumes "sale_line s w x = Inr l"
  shows "(ol_variant l, Whole (ol_qty l)) = x \<and> 1 \<le> ol_qty l \<and> ol_total l = ol_unit l * ol_qty l \<and>
    (\<exists>v \<in> set (w_variants w). va_id v = ol_variant l \<and> va_store v = s \<and> va_active v \<and>
       \<not> va_deleted v \<and> ol_unit l = va_price v)"
proof (cases x)
  case (Pair i q)
  then show ?thesis
    using assms findD
    by (fastforce simp: sale_line_def order_line_of_def split: option.splits js_number.splits if_splits)
qed

lemma sale_lines_Inr:
  "mapsE (sale_line s w) xs = Inr lines \<Longrightarrow>
     map (\<lambda>l. (ol_variant l, Whole (ol_qty l))) lines = xs \<and>
     (\<forall>l \<in> set lines. 1 \<le> ol_qty l \<and> ol_total l = ol_unit l * ol_qty l \<and>
        (\<exists>v \<in> set (w_variants w). va_id v = ol_variant l \<and> va_store v = s \<and> va_active v \<and>
           \<not> va_deleted v \<and> ol_unit l = va_price v))"
  by (induction xs arbitrary: lines) (auto dest!: sale_line_Inr)

lemma createSale_Inr:
  assumes "createSale now oid pid actor input store w = Inr (r, w')"
  obtains lines tr number o1 w1 where "mapsE (sale_line (s_id store) w) (si_lines input) = Inr lines"
    and "tr = tax_quote w (sale_tax_request store lines)"
    and "o1 = sale_order now oid input store number (sum_list (map ol_total lines)) (tx_total tr)"
    and "\<forall>t. si_tendered input = Some t \<longrightarrow> o_total o1 \<le> t"
    and "w1 = w\<lparr>w_counters := w_counters w1\<rparr>"
    and "write_sale now pid actor o1 lines (tx_lines tr) w1 = Inr w'"
    and "r = \<lparr>sa_id = oid, sa_number = number, sa_subtotal = o_subtotal o1, sa_tax = o_tax o1,
           sa_total = o_total o1, sa_currency = s_currency store, sa_tendered = si_tendered input,
           sa_change = map_option (\<lambda>t. t - o_total o1) (si_tendered input)\<rparr>"
proof -
  obtain lines where lines: "mapsE (sale_line (s_id store) w) (si_lines input) = Inr lines"
    using assms by (auto simp: createSale_def Let_def)
  obtain number w1 where n: "nextOrderNumber (s_id store) (s_name store) w = (number, w1)"
    by (meson surj_pair)
  have w1: "w1 = w\<lparr>w_counters := w_counters w1\<rparr>"
    using n by (auto simp: nextOrderNumber_def Let_def)
  show thesis
    by (rule that [OF lines refl refl _ w1])
      (use assms lines n in \<open>auto simp: createSale_def Let_def sale_order_def split: option.splits\<close>)
qed

section \<open>A counter sale\<close>

lemma ringUp_cases:
  assumes "ringUp now oid pid s actor input w = (res, w')"
  obtains (refused) e where "res = Inl e" and "w' = w"
  | (replayed) r where "res = Inr r" and "findSaleByKey s (si_key input) w = Some r" and "w' = w"
  | (rung) r store where "res = Inr r" and "findSaleByKey s (si_key input) w = None"
      and "s_id store = s" and "createSale now oid pid actor input store w = Inr (r, w')"
proof (cases "si_lines input = []")
  case True
  then show ?thesis using assms by (intro refused) (auto simp: ringUp_def)
next
  case lines: False
  show ?thesis
  proof (cases "findSaleByKey s (si_key input) w")
    case (Some r)
    then show ?thesis using assms lines by (intro replayed) (auto simp: ringUp_def)
  next
    case None
    show ?thesis
    proof (cases "find (\<lambda>s1. s_id s1 = s) (w_stores w)")
      case no_store: None
      then show ?thesis
        using assms lines None by (intro refused) (auto simp: ringUp_def notFound_def)
    next
      case (Some store)
      then have id: "s_id store = s" by (auto dest: findD)
      show ?thesis
      proof (cases "createSale now oid pid actor input store w")
        case (Inl e)
        then show ?thesis
          using assms lines None Some
          by (intro refused [of e]) (auto simp: ringUp_def run_tx_def split: if_splits)
      next
        case (Inr p)
        obtain r w1 where p: "p = (r, w1)" by (cases p)
        show ?thesis
          by (rule rung [OF _ None id])
            (use assms lines None Some Inr p in \<open>auto simp: ringUp_def run_tx_def\<close>)
      qed
    qed
  qed
qed

text \<open>
  C16. Ringing up either is refused and changes nothing, or finds the sale already rung up under
  its key and answers it unchanged, or makes one order of the till's lines, each a whole positive
  quantity of a live variant of this store at its catalogue price, that has been picked up and is
  paid in full in cash; the change is what was tendered beyond the total; of every variant the
  store counts exactly the sold units leave the shelf and none of the held ones.
\<close>

theorem counter_sale_correct:
  assumes "ringUp now oid pid s actor input w = (res, w')" and "stock_inv w" and "orders_inv w"
  shows "case res of Inl e \<Rightarrow> w' = w
    | Inr r \<Rightarrow> (findSaleByKey s (si_key input) w = Some r \<and> w' = w) \<or>
       (\<exists>o1 p lines taxes. w_orders w' = w_orders w @ [o1] \<and> w_payments w' = w_payments w @ [p] \<and>
          w_items w' = w_items w @ new_items oid s lines taxes \<and>
          o_id o1 = oid \<and> o_store o1 = s \<and> o_status o1 = PICKED_UP \<and> o_channel o1 = POS \<and>
          o_idem o1 = Some (si_key input) \<and>
          map (\<lambda>l. (ol_variant l, Whole (ol_qty l))) lines = si_lines input \<and>
          (\<forall>l \<in> set lines. 1 \<le> ol_qty l \<and> ol_total l = ol_unit l * ol_qty l \<and>
             (\<exists>v \<in> set (w_variants w). va_id v = ol_variant l \<and> va_store v = s \<and> va_active v \<and>
                \<not> va_deleted v \<and> ol_unit l = va_price v)) \<and>
          o_subtotal o1 = sum_list (map ol_total lines) \<and>
          o_total o1 = o_subtotal o1 + o_tax o1 \<and> 0 \<le> o_tax o1 \<and>
          p_order p = oid \<and> p_provider p = CASH \<and> p_status p = PAY_SUCCEEDED \<and>
          p_amount p = o_total o1 \<and> sa_total r = o_total o1 \<and>
          (\<forall>t. si_tendered input = Some t \<longrightarrow> sa_change r = Some (t - o_total o1) \<and> o_total o1 \<le> t) \<and>
          (\<forall>u. on_hand w' u = on_hand w u - (if counted s w u
                  then sum_where (\<lambda>l. ol_variant l = u) ol_qty lines else 0) \<and>
               reserved w' u = reserved w u) \<and>
          stock_inv w' \<and> orders_inv w')"
  using assms(1)
proof (cases rule: ringUp_cases)
  case (rung r store)
  from rung(4) show ?thesis
  proof (rule createSale_Inr)
    fix lines tr number o1 w1
    assume lines: "mapsE (sale_line (s_id store) w) (si_lines input) = Inr lines"
      and o1: "o1 = sale_order now oid input store number (sum_list (map ol_total lines)) (tx_total tr)"
      and paid: "\<forall>t. si_tendered input = Some t \<longrightarrow> o_total o1 \<le> t"
      and w1: "w1 = w\<lparr>w_counters := w_counters w1\<rparr>"
      and sale: "write_sale now pid actor o1 lines (tx_lines tr) w1 = Inr w'"
      and r: "r = \<lparr>sa_id = oid, sa_number = number, sa_subtotal = o_subtotal o1, sa_tax = o_tax o1,
           sa_total = o_total o1, sa_currency = s_currency store, sa_tendered = si_tendered input,
           sa_change = map_option (\<lambda>t. t - o_total o1) (si_tendered input)\<rparr>"
    have same: "w_levels w1 = w_levels w" "w_movements w1 = w_movements w" "w_orders w1 = w_orders w"
      "w_payments w1 = w_payments w" "w_items w1 = w_items w"
      by (subst w1; simp)+
    have inv1: "stock_inv w1" "orders_inv w1"
      using stock_inv_cong [OF same(1,2)] orders_inv_cong [OF same(3-5)] assms(2,3) by simp_all
    note out = write_sale_Inr [OF sale inv1]
    have fields: "o_id o1 = oid" "o_store o1 = s" "o_channel o1 = POS" "o_idem o1 = Some (si_key input)"
      "o_subtotal o1 = sum_list (map ol_total lines)" "o_total o1 = o_subtotal o1 + o_tax o1"
      by (simp_all add: o1 sale_order_def rung(3))
    have tax: "0 \<le> o_tax o1"
      using out by (auto simp: check_order_def order_amounts_def okE_iff split: if_splits)
    have stock: "on_hand w' u = on_hand w u - (if counted s w u
          then sum_where (\<lambda>l. ol_variant l = u) ol_qty lines else 0) \<and> reserved w' u = reserved w u" for u
      using out on_hand_cong [OF same(1)] reserved_cong [OF same(1)] counted_cong [OF same(1)] fields(2)
      by (simp add: sold_def)
    define o2 where "o2 = set_status PICKED_UP o1"
    have done_fields: "o_id o2 = oid" "o_store o2 = s" "o_status o2 = PICKED_UP" "o_channel o2 = POS"
      "o_idem o2 = Some (si_key input)" "o_subtotal o2 = o_subtotal o1" "o_total o2 = o_total o1"
      "o_tax o2 = o_tax o1"
      using fields by (simp_all add: o2_def set_status_def)
    show ?thesis unfolding rung(1) sum.case
      by (rule disjI2, intro exI [of _ o2] exI [of _ "sale_payment now pid actor o1"]
          exI [of _ lines] exI [of _ "tx_lines tr"] conjI)
        (use out same done_fields fields tax paid stock sale_lines_Inr [OF lines] rung(3) r
         in \<open>simp_all add: o2_def [symmetric] sale_payment_def\<close>)
  qed
qed simp_all

definition sample_sale :: sale_input where
  "sample_sale = \<lparr>si_lines = [(''v1'', Whole 2)], si_tendered = Some 1500, si_note = None,
     si_key = ''till1''\<rparr>"

theorem counter_sale_correct_witness:
  "\<exists>r w'. ringUp 5 ''o7'' ''p7'' ''s1'' ''u2'' sample_sale sample_shop = (Inr r, w') \<and>
     (\<forall>t. si_tendered sample_sale = Some t \<longrightarrow> sa_change r = Some (t - sa_total r)) \<and>
     length (w_orders w') = 1"
proof -
  have "okE (fst (ringUp 5 ''o7'' ''p7'' ''s1'' ''u2'' sample_sale sample_shop))" by code_simp
  then obtain r w' where run: "ringUp 5 ''o7'' ''p7'' ''s1'' ''u2'' sample_sale sample_shop = (Inr r, w')"
    by (rule okE_fstE)
  have none: "findSaleByKey ''s1'' (si_key sample_sale) sample_shop = None"
    and empty: "w_orders sample_shop = []"
    by (simp_all add: findSaleByKey_def sample_shop_def empty_world_def)
  have inv: "orders_inv sample_shop"
    by (simp add: orders_inv_def orders_ok_def payments_ok_def items_ok_def sample_shop_def
        empty_world_def)
  from counter_sale_correct [OF run sample_shop_stock_inv inv] none empty run
  show ?thesis by auto
qed

end
