(* ===== verification/Payments.thy ===== *)
theory Payments
  imports OrderCash
begin

text \<open>
  \<open>PaymentsService\<close> (\<open>modules/payments/payments.service.ts\<close>) with the \<open>refunds\<close> table of migration
  11 and its trigger.  The payment company is not under \<open>src\<close>: what it answers to a request is a
  parameter of the operations that call it, and an answer is a result or an error.
\<close>

section \<open>The refunds table\<close>

text \<open>What has been handed back, or is about to be, of one payment, but for one refund.\<close>

definition refunded_but :: "string \<Rightarrow> string \<Rightarrow> world \<Rightarrow> int" where
  "refunded_but paymentId refundId w =
     sum_where (\<lambda>r. r_payment r = paymentId \<and> r_status r \<noteq> RF_FAILED \<and> r_id r \<noteq> refundId)
       r_amount (w_refunds w)"

text \<open>The trigger, on every insert and on every update that sets the status or the amount.\<close>

definition check_refund_total :: "refund \<Rightarrow> world \<Rightarrow> unit res" where
  "check_refund_total r w =
     (case find (\<lambda>p. p_id p = r_payment r) (w_payments w) of
        None \<Rightarrow> Inl (TriggerRaised ''Refund references a payment that does not exist'')
      | Some p \<Rightarrow>
          if refunded_but (r_payment r) (r_id r) w + r_amount r > p_amount p
          then Inl (TriggerRaised ''Refunds would exceed the captured amount'')
          else Inr ())"

definition insert_refund :: "refund \<Rightarrow> world \<Rightarrow> world res" where
  "insert_refund r w =
     bindE (check_refund_total r w) (\<lambda>_.
       if \<not> fits_int4 (r_amount r) then Inl (CheckViolation ''integer out of range'')
       else if \<not> r_amount r > 0 then Inl (CheckViolation ''refunds_amount_positive'')
       else if \<exists>x \<in> set (w_refunds w). r_id x = r_id r \<or> (r_stripe r \<noteq> None \<and> r_stripe x = r_stripe r)
       then Inl (UniqueViolation ''refunds'')
       else Inr (w\<lparr>w_refunds := w_refunds w @ [r]\<rparr>))"

text \<open>\<open>UPDATE refunds SET status = ...\<close> of the rows that match, one after the other.\<close>

definition set_refund_row :: "refund \<Rightarrow> world \<Rightarrow> world res" where
  "set_refund_row r w =
     mapE (\<lambda>_. w\<lparr>w_refunds := update_where (\<lambda>x. r_id x = r_id r) (\<lambda>_. r) (w_refunds w)\<rparr>)
       (check_refund_total r w)"

definition update_refunds :: "(refund \<Rightarrow> bool) \<Rightarrow> (refund \<Rightarrow> refund) \<Rightarrow> world \<Rightarrow> world res" where
  "update_refunds hit f w = foldE (\<lambda>r. set_refund_row (f r)) (filter hit (w_refunds w)) w"

text \<open>Setting the company's id leaves status and amount alone: only the unique index speaks.\<close>

definition set_stripe_refund :: "string \<Rightarrow> string \<Rightarrow> world \<Rightarrow> world res" where
  "set_stripe_refund refundId stripeId w =
     (if \<exists>x \<in> set (w_refunds w). r_id x \<noteq> refundId \<and> r_stripe x = Some stripeId
      then Inl (UniqueViolation ''refunds_stripe_id'')
      else Inr (w\<lparr>w_refunds := update_where (\<lambda>x. r_id x = refundId)
             (\<lambda>x. x\<lparr>r_stripe := Some stripeId\<rparr>) (w_refunds w)\<rparr>))"

section \<open>The payment company\<close>

record intent_request =
  iq_store :: string
  iq_order :: string
  iq_number :: string
  iq_amount :: int
  iq_currency :: string
  iq_destination :: string
  iq_key :: string
  iq_email :: "string option"

record intent =
  in_id :: string
  in_secret :: string

record refund_request =
  rq_intent :: string
  rq_amount :: int
  rq_account :: string
  rq_reason :: "string option"
  rq_key :: string

text \<open>What the company says of a connected account.\<close>

record account_status =
  as_account :: string
  as_charges :: bool
  as_payouts :: bool
  as_details :: bool
  as_requirements :: "string list"
  as_disabled :: "string option"

section \<open>Connecting a store\<close>

definition find_store :: "string \<Rightarrow> world \<Rightarrow> store option" where
  "find_store storeId w = find (\<lambda>s. s_id s = storeId) (w_stores w)"

definition update_store :: "string \<Rightarrow> (store \<Rightarrow> store) \<Rightarrow> world \<Rightarrow> world" where
  "update_store storeId f w = w\<lparr>w_stores := update_where (\<lambda>s. s_id s = storeId) f (w_stores w)\<rparr>"

text \<open>
  \<open>link\<close> is what the company answers for the account the store already has, if any; \<open>email\<close> is the
  owner's address in the users table.
\<close>

definition startOnboarding ::
    "(string option \<Rightarrow> (string \<times> string) res) \<Rightarrow> (string \<Rightarrow> string option) \<Rightarrow> string \<Rightarrow> string \<Rightarrow>
     world \<Rightarrow> string outcome" where
  "startOnboarding link email storeId actorUserId w =
     (case find_store storeId w of
        None \<Rightarrow> (notFound, w)
      | Some store \<Rightarrow>
          (case email (s_owner store) of
             None \<Rightarrow> (Inl (Internal ''This store has no owner on record.''), w)
           | Some _ \<Rightarrow>
               (case link (s_account store) of
                  Inl e \<Rightarrow> (Inl e, w)
                | Inr (accountId, url) \<Rightarrow>
                    if s_account store \<noteq> Some accountId
                    then (Inr url,
                      audit_record (audit_entry_of ''payments.connect_started'' MEDIUM storeId
                        (Some actorUserId) ''store'' storeId)
                        (update_store storeId (\<lambda>s. s\<lparr>s_account := Some accountId\<rparr>) w))
                    else (Inr url, w))))"

definition persistAccountStatus :: "int \<Rightarrow> string \<Rightarrow> account_status \<Rightarrow> world \<Rightarrow> world" where
  "persistAccountStatus now storeId st w =
     update_store storeId (\<lambda>s. s\<lparr>s_account := Some (as_account st), s_charges := as_charges st,
       s_payouts := as_payouts st, s_details := as_details st,
       s_requirements := as_requirements st, s_disabled_reason := as_disabled st,
       s_synced_at := Some now\<rparr>) w"

record connect_status =
  cn_account :: "string option"
  cn_charges :: bool
  cn_payouts :: bool
  cn_details :: bool
  cn_requirements :: "string list"
  cn_disabled :: "string option"
  cn_synced :: "int option"

definition connect_status_of :: "store \<Rightarrow> connect_status" where
  "connect_status_of s =
     \<lparr>cn_account = s_account s, cn_charges = s_charges s, cn_payouts = s_payouts s,
      cn_details = s_details s, cn_requirements = s_requirements s,
      cn_disabled = s_disabled_reason s, cn_synced = s_synced_at s\<rparr>"

definition getConnectStatus :: "string \<Rightarrow> world \<Rightarrow> connect_status res" where
  "getConnectStatus storeId w =
     (case find_store storeId w of None \<Rightarrow> notFound | Some s \<Rightarrow> Inr (connect_status_of s))"

definition syncConnectStatus ::
    "(string \<Rightarrow> account_status res) \<Rightarrow> int \<Rightarrow> string \<Rightarrow> world \<Rightarrow> connect_status outcome" where
  "syncConnectStatus account now storeId w =
     (case find_store storeId w of
        None \<Rightarrow> (notFound, w)
      | Some s \<Rightarrow>
          (case s_account s of
             None \<Rightarrow> (Inr \<lparr>cn_account = None, cn_charges = False, cn_payouts = False,
                       cn_details = False, cn_requirements = [], cn_disabled = None,
                       cn_synced = None\<rparr>, w)
           | Some accountId \<Rightarrow>
               (case account accountId of
                  Inl e \<Rightarrow> (Inl e, w)
                | Inr st \<Rightarrow>
                    (Inr \<lparr>cn_account = Some (as_account st), cn_charges = as_charges st,
                       cn_payouts = as_payouts st, cn_details = as_details st,
                       cn_requirements = as_requirements st, cn_disabled = as_disabled st,
                       cn_synced = Some now\<rparr>,
                     persistAccountStatus now storeId st w))))"

section \<open>Taking a card payment\<close>

record caller =
  ca_user_id :: "string option"
  ca_token :: "string option"
  ca_staff :: bool

definition intent_request_of :: "order \<Rightarrow> string \<Rightarrow> string \<Rightarrow> intent_request" where
  "intent_request_of o1 account key =
     \<lparr>iq_store = o_store o1, iq_order = o_id o1, iq_number = o_number o1, iq_amount = o_total o1,
      iq_currency = o_currency o1, iq_destination = account, iq_key = key, iq_email = o_email o1\<rparr>"

definition card_row :: "string \<Rightarrow> order \<Rightarrow> intent \<Rightarrow> payment" where
  "card_row newId o1 i =
     \<lparr>p_id = newId, p_store = o_store o1, p_order = o_id o1, p_provider = STRIPE,
      p_intent = Some (in_id i), p_amount = o_total o1, p_fee = 0, p_status = PAY_REQUIRES_ACTION,
      p_cash_by = None, p_cash_at = None, p_failure = None\<rparr>"

definition createCardPayment ::
    "(intent_request \<Rightarrow> intent res) \<Rightarrow> string \<Rightarrow> string \<Rightarrow> string \<Rightarrow> string \<Rightarrow> caller \<Rightarrow> world \<Rightarrow>
     (intent \<times> int) outcome" where
  "createCardPayment createIntent newId storeId orderId key caller w =
     (if \<not> ca_staff caller \<and>
         find (\<lambda>o1. o_id o1 = orderId \<and> o_store o1 = storeId \<and>
                order_visible (ca_user_id caller) (ca_token caller) o1) (w_orders w) = None
      then (notFound, w)
      else case find_order storeId orderId w of
        None \<Rightarrow> (notFound, w)
      | Some o1 \<Rightarrow>
          if o_status o1 \<noteq> PENDING
          then (Inl (Validation ''This order is no longer awaiting payment.''), w)
          else case find_store storeId w of
            None \<Rightarrow> (notFound, w)
          | Some store \<Rightarrow>
              (case s_account store of
                 None \<Rightarrow> (Inl (Validation ''This store can't take card payments yet.''), w)
               | Some account \<Rightarrow>
                   if \<not> s_charges store
                   then (Inl (Validation ''This store can't take card payments yet.''), w)
                   else
                     (case createIntent (intent_request_of o1 account key) of
                        Inl e \<Rightarrow> (Inl e, w)
                      | Inr i \<Rightarrow>
                          if \<exists>p \<in> set (w_payments w). p_order p = orderId \<and> p_store p = storeId \<and>
                               p_provider p = STRIPE \<and> p_intent p \<noteq> None
                          then (Inr (i, o_total o1), w)
                          else case insert_payment (card_row newId o1 i) w of
                            Inl e \<Rightarrow> (Inl e, w)
                          | Inr w1 \<Rightarrow> (Inr (i, o_total o1), w1))))"

section \<open>Refunds\<close>

definition mapReason :: "string option \<Rightarrow> string option" where
  "mapReason code =
     (if code = Some ''duplicate'' then Some ''duplicate''
      else if code = Some ''fraud'' \<or> code = Some ''fraudulent'' then Some ''fraudulent''
      else if code = Some ''customer_request'' \<or> code = Some ''requested_by_customer''
      then Some ''requested_by_customer''
      else None)"

record refund_input =
  ri_amount :: "int option"
  ri_reason :: "string option"
  ri_note :: "string option"

record refund_result =
  rr_id :: string
  rr_amount :: int
  rr_status :: refund_status
  rr_provider :: payment_provider

text \<open>The latest payment of the order that has succeeded.\<close>

definition captured_payment :: "string \<Rightarrow> string \<Rightarrow> world \<Rightarrow> payment option" where
  "captured_payment storeId orderId w =
     find (\<lambda>p. p_order p = orderId \<and> p_store p = storeId \<and> p_status p = PAY_SUCCEEDED)
       (rev (w_payments w))"

definition refund_row :: "int \<Rightarrow> string \<Rightarrow> string \<Rightarrow> string \<Rightarrow> payment \<Rightarrow> int \<Rightarrow> refund_input \<Rightarrow> refund" where
  "refund_row now refundId storeId actorUserId p amount input =
     \<lparr>r_id = refundId, r_store = storeId, r_payment = p_id p, r_amount = amount,
      r_reason = ri_reason input, r_note = ri_note input, r_status = RF_PENDING, r_stripe = None,
      r_actor = Some actorUserId, r_created = now\<rparr>"

definition refund_audit :: "string \<Rightarrow> string \<Rightarrow> string \<Rightarrow> string \<Rightarrow> world \<Rightarrow> world" where
  "refund_audit action storeId actorUserId refundId =
     audit_record (audit_entry_of action MEDIUM storeId (Some actorUserId) ''refund'' refundId)"

text \<open>\<open>message\<close> is the text of an error, cut to five hundred characters.\<close>

definition fail_refund :: "string \<Rightarrow> string \<Rightarrow> app_error \<Rightarrow> world \<Rightarrow> refund_result outcome" where
  "fail_refund refundId message e w =
     (case update_refunds (\<lambda>r. r_id r = refundId)
             (\<lambda>r. r\<lparr>r_status := RF_FAILED, r_note := Some (take 500 message)\<rparr>) w of
        Inl e1 \<Rightarrow> (Inl e1, w)
      | Inr w1 \<Rightarrow> (Inl e, w1))"

text \<open>The call to the company, after the row is on disk.\<close>

definition send_refund ::
    "(refund_request \<Rightarrow> string res) \<Rightarrow> (app_error \<Rightarrow> string) \<Rightarrow> string \<Rightarrow> string \<Rightarrow> string \<Rightarrow>
     payment \<Rightarrow> int \<Rightarrow> refund_input \<Rightarrow> world \<Rightarrow> refund_result outcome" where
  "send_refund provider message refundId storeId actorUserId p amount input w =
     (case (p_intent p, bindE (case find_store storeId w of None \<Rightarrow> notFound | Some s \<Rightarrow> Inr s)
                          (\<lambda>s. case s_account s of None \<Rightarrow> notFound | Some a \<Rightarrow> Inr a)) of
        (Some intent, Inr account) \<Rightarrow>
          (case provider \<lparr>rq_intent = intent, rq_amount = amount, rq_account = account,
                   rq_reason = mapReason (ri_reason input), rq_key = refundId\<rparr> of
             Inl e \<Rightarrow> fail_refund refundId (message e) e w
           | Inr stripeId \<Rightarrow>
               (case set_stripe_refund refundId stripeId w of
                  Inl e \<Rightarrow> fail_refund refundId (message e) e w
                | Inr w1 \<Rightarrow>
                    (Inr \<lparr>rr_id = refundId, rr_amount = amount, rr_status = RF_PENDING,
                          rr_provider = STRIPE\<rparr>,
                     refund_audit ''payments.refund_requested'' storeId actorUserId refundId w1)))
      | _ \<Rightarrow> (Inl (Internal ''That payment is missing its provider references.''), w))"

definition refund_payment ::
    "int \<Rightarrow> (refund_request \<Rightarrow> string res) \<Rightarrow> (app_error \<Rightarrow> string) \<Rightarrow> string \<Rightarrow> string \<Rightarrow> string \<Rightarrow> string \<Rightarrow>
     refund_input \<Rightarrow> world \<Rightarrow> refund_result outcome" where
  "refund_payment now provider message refundId storeId orderId actorUserId input w =
     (case captured_payment storeId orderId w of
        None \<Rightarrow> (Inl (NotFound ''No completed payment to refund for this order.''), w)
      | Some p \<Rightarrow>
          let amount = or_else (ri_amount input) (p_amount p) in
          if amount \<le> 0 then (Inl (Validation ''A refund must be for more than zero.''), w)
          else if amount > p_amount p
          then (Inl (Validation ''You can't refund more than was paid.''), w)
          else case insert_refund (refund_row now refundId storeId actorUserId p amount input) w of
            Inl e \<Rightarrow> (Inl e, w)
          | Inr w1 \<Rightarrow>
              if p_provider p = CASH
              then (case update_refunds (\<lambda>r. r_id r = refundId) (\<lambda>r. r\<lparr>r_status := RF_SUCCEEDED\<rparr>) w1 of
                      Inl e \<Rightarrow> (Inl e, w1)
                    | Inr w2 \<Rightarrow>
                        (Inr \<lparr>rr_id = refundId, rr_amount = amount, rr_status = RF_SUCCEEDED,
                              rr_provider = CASH\<rparr>,
                         refund_audit ''payments.cash_refunded'' storeId actorUserId refundId w2))
              else send_refund provider message refundId storeId actorUserId p amount input w1)"

definition listRefunds :: "string \<Rightarrow> string \<Rightarrow> world \<Rightarrow> refund list" where
  "listRefunds storeId orderId w =
     filter (\<lambda>r. r_store r = storeId \<and>
         (\<exists>p \<in> set (w_payments w). p_id p = r_payment r \<and> p_order p = orderId)) (rev (w_refunds w))"

section \<open>No more goes back than came in\<close>

definition refunds_inv :: "world \<Rightarrow> bool" where
  "refunds_inv w =
     (distinct (map r_id (w_refunds w)) \<and> distinct (map p_id (w_payments w)) \<and>
      (\<forall>r \<in> set (w_refunds w). 0 < r_amount r) \<and>
      (\<forall>p \<in> set (w_payments w).
         sum_where (\<lambda>r. r_payment r = p_id p \<and> r_status r \<noteq> RF_FAILED) r_amount (w_refunds w)
         \<le> p_amount p))"

end
