(* ===== verification/PaymentProps.thy ===== *)
theory PaymentProps
  imports Payments
begin

text \<open>
  That the refunds of a payment never exceed what it captured, whatever is refunded and however
  the company answers, and what a second key does to a card payment.
\<close>

section \<open>The invariant\<close>

abbreviation live :: "payment \<Rightarrow> refund \<Rightarrow> bool" where
  "live p r \<equiv> r_payment r = p_id p \<and> r_status r \<noteq> RF_FAILED"

lemma refunded_but_eq:
  "refunded_but (p_id p) i w = sum_where (\<lambda>r. live p r \<and> r_id r \<noteq> i) r_amount (w_refunds w)"
  by (simp add: refunded_but_def conj_assoc)

lemma check_refund_total_Inr:
  assumes "check_refund_total r w = Inr u" and "distinct (map p_id (w_payments w))"
    and "p \<in> set (w_payments w)" and "p_id p = r_payment r"
  shows "sum_where (\<lambda>x. live p x \<and> r_id x \<noteq> r_id r) r_amount (w_refunds w) + r_amount r \<le> p_amount p"
proof -
  obtain q where q: "find (\<lambda>p. p_id p = r_payment r) (w_payments w) = Some q"
    using assms(1) by (auto simp: check_refund_total_def split: option.splits)
  then have "q = p"
    using assms(2-4) findD [OF q] by (auto simp: distinct_map inj_on_def)
  then show ?thesis
    using assms(1,4) q refunded_but_eq [of p "r_id r" w]
    by (auto simp: check_refund_total_def split: if_splits)
qed

lemma insert_refund_inv:
  assumes "insert_refund r w = Inr w'" and "refunds_inv w"
  shows "refunds_inv w'"
proof -
  have ok: "check_refund_total r w = Inr ()" "0 < r_amount r"
    and fresh: "\<forall>x \<in> set (w_refunds w). r_id x \<noteq> r_id r"
    and w': "w' = w\<lparr>w_refunds := w_refunds w @ [r]\<rparr>"
    using assms(1) by (auto simp: insert_refund_def split: if_splits)
  have "sum_where (live p) r_amount (w_refunds w @ [r]) \<le> p_amount p" if p: "p \<in> set (w_payments w)" for p
  proof (cases "r_payment r = p_id p")
    case True
    have "sum_where (\<lambda>x. live p x \<and> r_id x \<noteq> r_id r) r_amount (w_refunds w) =
        sum_where (live p) r_amount (w_refunds w)"
      by (rule sum_where_cong) (use fresh in auto)
    then show ?thesis
      using check_refund_total_Inr [OF ok(1) _ p] assms(2) True ok(2) by (simp add: refunds_inv_def)
  next
    case False
    then show ?thesis using assms(2) p by (simp add: refunds_inv_def)
  qed
  then show ?thesis using assms(2) ok(2) fresh by (auto simp: refunds_inv_def w')
qed

lemma set_refund_row_inv:
  assumes "set_refund_row r w = Inr w'" and "0 < r_amount r" and "refunds_inv w"
  shows "refunds_inv w'"
proof -
  define rows where "rows = update_where (\<lambda>x. r_id x = r_id r) (\<lambda>_. r) (w_refunds w)"
  have ok: "check_refund_total r w = Inr ()" and w': "w' = w\<lparr>w_refunds := rows\<rparr>"
    using assms(1) by (auto simp: set_refund_row_def rows_def)
  note inv = assms(3) [unfolded refunds_inv_def]
  have ids: "map r_id rows = map r_id (w_refunds w)"
    unfolding rows_def by (induction "w_refunds w" rule: list.induct)
      (simp_all add: update_where_def)
  have "sum_where (live p) r_amount rows \<le> p_amount p" if p: "p \<in> set (w_payments w)" for p
  proof -
    have split: "sum_where (live p) r_amount rows =
        sum_where (\<lambda>x. live p x \<and> r_id x \<noteq> r_id r) r_amount (w_refunds w) +
        (if r_id r \<in> r_id ` set (w_refunds w) \<and> live p r then r_amount r else 0)"
      unfolding rows_def by (rule sum_where_replace) (use inv in simp_all)
    have less: "sum_where (\<lambda>x. live p x \<and> r_id x \<noteq> r_id r) r_amount (w_refunds w) \<le>
        sum_where (live p) r_amount (w_refunds w)"
      by (rule sum_where_mono) (use inv in \<open>auto simp: less_imp_le\<close>)
    show ?thesis
    proof (cases "live p r")
      case True
      then show ?thesis
        using check_refund_total_Inr [OF ok _ p] inv assms(2) split by (auto split: if_splits)
    next
      case False
      then show ?thesis using split less inv p by auto
    qed
  qed
  moreover have "\<forall>x \<in> set rows. 0 < r_amount x"
    using inv assms(2) by (auto simp: rows_def set_update_where)
  ultimately show ?thesis using inv ids by (simp add: refunds_inv_def w')
qed

lemma set_refund_row_keeps: "set_refund_row r w = Inr w' \<Longrightarrow> w_payments w' = w_payments w"
  by (auto simp: set_refund_row_def)

lemma update_refunds_inv:
  assumes "update_refunds hit f w = Inr w'" and "\<And>r. r_amount (f r) = r_amount r" and "refunds_inv w"
  shows "refunds_inv w' \<and> w_payments w' = w_payments w"
proof
  note fold = assms(1) [unfolded update_refunds_def]
  show "w_payments w' = w_payments w"
    by (rule foldE_field [OF _ fold]) (auto dest: set_refund_row_keeps)
  show "refunds_inv w'"
  proof (rule foldE_inv [where P = refunds_inv, OF _ fold assms(3)])
    fix r s s'
    assume r: "r \<in> set (filter hit (w_refunds w))" and step: "set_refund_row (f r) s = Inr s'"
      and inv: "refunds_inv s"
    have "0 < r_amount (f r)" using r assms(2,3) by (simp add: refunds_inv_def)
    then show "refunds_inv s'" by (rule set_refund_row_inv [OF step _ inv])
  qed
qed

lemma set_stripe_refund_inv:
  assumes "set_stripe_refund i stripe w = Inr w'" and "refunds_inv w"
  shows "refunds_inv w' \<and> w_payments w' = w_payments w"
proof -
  have w': "w' = w\<lparr>w_refunds := update_where (\<lambda>x. r_id x = i) (\<lambda>x. x\<lparr>r_stripe := Some stripe\<rparr>) (w_refunds w)\<rparr>"
    using assms(1) by (auto simp: set_stripe_refund_def split: if_splits)
  have "sum_where (live p) r_amount (update_where hit (\<lambda>x. x\<lparr>r_stripe := Some stripe\<rparr>) rows) =
      sum_where (live p) r_amount rows" for p hit rows
    by (induction rows) auto
  moreover have "map r_id (update_where hit (\<lambda>x. x\<lparr>r_stripe := Some stripe\<rparr>) rows) = map r_id rows"
    for hit and rows :: "refund list"
    by (rule map_update_where) simp
  ultimately show ?thesis
    using assms(2) by (auto simp: refunds_inv_def w' set_update_where)
qed

lemma refunds_inv_cong:
  "w_refunds w = w_refunds w' \<Longrightarrow> w_payments w = w_payments w' \<Longrightarrow> refunds_inv w = refunds_inv w'"
  by (simp add: refunds_inv_def)

lemma refund_audit_keeps [simp]:
  "w_refunds (refund_audit a s u i w) = w_refunds w" "w_payments (refund_audit a s u i w) = w_payments w"
  "refunds_inv (refund_audit a s u i w) = refunds_inv w"
  by (simp_all add: refund_audit_def refunds_inv_def)

section \<open>A refund\<close>

text \<open>What a committed row says, whatever was done to its status or the company's id since.\<close>

definition refund_kept :: "refund \<Rightarrow> refund list \<Rightarrow> bool" where
  "refund_kept r rows =
     (\<exists>x \<in> set rows. r_id x = r_id r \<and> r_payment x = r_payment r \<and> r_amount x = r_amount r)"

lemma refund_kept_update:
  assumes "refund_kept r rows"
    and "\<And>x. r_id (f x) = r_id x \<and> r_payment (f x) = r_payment x \<and> r_amount (f x) = r_amount x"
  shows "refund_kept r (update_where hit f rows)"
proof -
  obtain x where "x \<in> set rows" "r_id x = r_id r" "r_payment x = r_payment r" "r_amount x = r_amount r"
    using assms(1) by (auto simp: refund_kept_def)
  then show ?thesis
    unfolding refund_kept_def set_update_where
    by (intro bexI [of _ "if hit x then f x else x"]) (simp_all add: assms(2))
qed

lemma update_refunds_row:
  assumes "update_refunds (\<lambda>r. r_id r = i) f w = Inr w'" and "distinct (map r_id (w_refunds w))"
    and "\<And>r. r_id (f r) = r_id r"
  shows "w_refunds w' = update_where (\<lambda>r. r_id r = i) f (w_refunds w)"
proof -
  have single: "filter (\<lambda>r. r_id r = i) rows = (case find (\<lambda>r. r_id r = i) rows of None \<Rightarrow> [] | Some r \<Rightarrow> [r])"
    if "distinct (map r_id rows)" for rows
    using that
    by (induction rows) (auto simp: filter_empty_conv image_iff split: option.split dest!: findD)
  have same: "update_where (\<lambda>x. r_id x = i) (\<lambda>_. f r) rows = update_where (\<lambda>x. r_id x = i) f rows"
    if "distinct (map r_id rows)" "find (\<lambda>r. r_id r = i) rows = Some r" for rows r
    using that findD [OF that(2)] unfolding update_where_def
    by (intro map_cong) (auto simp: distinct_map inj_on_def)
  show ?thesis
  proof (cases "find (\<lambda>r. r_id r = i) (w_refunds w)")
    case None
    then show ?thesis
      using assms(1) single [OF assms(2)]
      by (auto simp: update_refunds_def find_None_iff intro!: update_where_id [symmetric])
  next
    case (Some r)
    then show ?thesis
      using assms(1,3) single [OF assms(2)] same [OF assms(2) Some] findD [OF Some]
      by (auto simp: update_refunds_def set_refund_row_def)
  qed
qed

lemma fail_refund_inv:
  assumes "fail_refund i msg e w = (out, w')" and "refunds_inv w"
  shows "refunds_inv w' \<and> w_payments w' = w_payments w \<and> \<not> okE out"
proof (cases "update_refunds (\<lambda>r. r_id r = i) (\<lambda>r. r\<lparr>r_status := RF_FAILED, r_note := Some (take 500 msg)\<rparr>) w")
  case (Inl e1)
  then show ?thesis using assms by (auto simp: fail_refund_def)
next
  case (Inr w1)
  then show ?thesis
    using assms(1) update_refunds_inv [OF Inr _ assms(2)] by (auto simp: fail_refund_def)
qed

lemma send_refund_inv:
  assumes "send_refund provider msg i s u p amount input w = (out, w')" and "refunds_inv w"
  shows "refunds_inv w' \<and> w_payments w' = w_payments w \<and>
    (\<forall>r res. out = Inr res \<longrightarrow> refund_kept r (w_refunds w) \<longrightarrow>
       refund_kept r (w_refunds w') \<and> rr_id res = i \<and> rr_amount res = amount)"
proof -
  have fail: ?thesis if "fail_refund i m e w = (out, w')" for m e
    using fail_refund_inv [OF that assms(2)] by auto
  have sent: ?thesis
    if "set_stripe_refund i k w = Inr w1"
      and "(out, w') = (Inr \<lparr>rr_id = i, rr_amount = amount, rr_status = RF_PENDING, rr_provider = STRIPE\<rparr>,
        refund_audit ''payments.refund_requested'' s u i w1)" for k w1
  proof -
    have "w_refunds w1 = update_where (\<lambda>x. r_id x = i) (\<lambda>x. x\<lparr>r_stripe := Some k\<rparr>) (w_refunds w)"
      using that(1) by (auto simp: set_stripe_refund_def split: if_splits)
    then have "refund_kept r (w_refunds w1)" if "refund_kept r (w_refunds w)" for r
      using that by (auto intro!: refund_kept_update)
    then show ?thesis using that set_stripe_refund_inv [OF that(1) assms(2)] by auto
  qed
  show ?thesis
    using assms fail sent
    by (auto simp: send_refund_def split: option.splits sum.splits)
qed

text \<open>
  C5. Whatever is asked for and however the payment company answers, the refunds of a payment
  that have not failed never add up to more than the payment captured, and no payment is touched.
  A refund that is answered with success is of the order's latest successful payment, is for a
  positive amount, is on disk, and fitted in what was left of the payment before it.
\<close>

theorem refund_within_captured:
  assumes "refund_payment now provider message i storeId orderId u input w = (out, w')"
    and "refunds_inv w"
  shows "refunds_inv w' \<and> w_payments w' = w_payments w \<and>
    (\<forall>res. out = Inr res \<longrightarrow>
       (\<exists>p. captured_payment storeId orderId w = Some p \<and>
          (\<exists>x \<in> set (w_refunds w'). r_id x = rr_id res \<and> r_payment x = p_id p \<and>
             r_amount x = rr_amount res) \<and>
          0 < rr_amount res \<and>
          sum_where (\<lambda>r. r_payment r = p_id p \<and> r_status r \<noteq> RF_FAILED) r_amount (w_refunds w)
            + rr_amount res \<le> p_amount p))"
proof (cases "captured_payment storeId orderId w")
  case None
  then show ?thesis using assms by (auto simp: refund_payment_def)
next
  case (Some p)
  define amount where "amount = or_else (ri_amount input) (p_amount p)"
  define row where "row = refund_row now i storeId u p amount input"
  have p: "p \<in> set (w_payments w)" using Some findD by (force simp: captured_payment_def)
  have row [simp]: "r_id row = i" "r_payment row = p_id p" "r_amount row = amount"
    by (simp_all add: row_def refund_row_def)
  show ?thesis
  proof (cases "0 < amount \<and> amount \<le> p_amount p \<and> okE (insert_refund row w)")
    case False
    then have "w' = w \<and> \<not> okE out"
      using assms(1) Some
      by (auto simp: refund_payment_def Let_def amount_def row_def okE_def split: if_splits sum.splits)
    then show ?thesis using assms(2) by auto
  next
    case True
    then obtain w1 where ins: "insert_refund row w = Inr w1" by (auto simp: okE_iff)
    have inv1: "refunds_inv w1" by (rule insert_refund_inv [OF ins assms(2)])
    have w1: "w1 = w\<lparr>w_refunds := w_refunds w @ [row]\<rparr>" and chk: "check_refund_total row w = Inr ()"
      and fresh: "\<forall>x \<in> set (w_refunds w). r_id x \<noteq> i"
      using ins by (auto simp: insert_refund_def split: if_splits)
    have kept1: "refund_kept row (w_refunds w1)" by (auto simp: w1 refund_kept_def)
    have "sum_where (\<lambda>x. live p x \<and> r_id x \<noteq> i) r_amount (w_refunds w) =
        sum_where (live p) r_amount (w_refunds w)"
      by (rule sum_where_cong) (use fresh in auto)
    then have fits: "sum_where (live p) r_amount (w_refunds w) + amount \<le> p_amount p"
      using check_refund_total_Inr [OF chk _ p] assms(2) by (simp add: refunds_inv_def)
    have run: "(if p_provider p = CASH
        then (case update_refunds (\<lambda>r. r_id r = i) (\<lambda>r. r\<lparr>r_status := RF_SUCCEEDED\<rparr>) w1 of
                Inl e \<Rightarrow> (Inl e, w1)
              | Inr w2 \<Rightarrow> (Inr \<lparr>rr_id = i, rr_amount = amount, rr_status = RF_SUCCEEDED, rr_provider = CASH\<rparr>,
                   refund_audit ''payments.cash_refunded'' storeId u i w2))
        else send_refund provider message i storeId u p amount input w1) = (out, w')"
      using assms(1) True ins
      unfolding refund_payment_def Let_def Some option.case amount_def [symmetric] row_def [symmetric]
      by simp
    have "refunds_inv w' \<and> w_payments w' = w_payments w1 \<and>
      (\<forall>res. out = Inr res \<longrightarrow> refund_kept row (w_refunds w') \<and> rr_id res = i \<and> rr_amount res = amount)"
    proof (cases "p_provider p = CASH")
      case False
      then show ?thesis using send_refund_inv [OF _ inv1] run kept1 by simp
    next
      case cash: True
      show ?thesis
      proof (cases "update_refunds (\<lambda>r. r_id r = i) (\<lambda>r. r\<lparr>r_status := RF_SUCCEEDED\<rparr>) w1")
        case (Inl e)
        then show ?thesis using run cash inv1 by auto
      next
        case (Inr w2)
        have "refund_kept row (w_refunds w2)"
          using inv1 kept1 by (subst update_refunds_row [OF Inr])
            (auto simp: refunds_inv_def intro!: refund_kept_update)
        then show ?thesis using run cash Inr update_refunds_inv [OF Inr _ inv1] by auto
      qed
    qed
    then show ?thesis using Some True fits by (auto simp: w1 refund_kept_def)
  qed
qed

definition refund_request_of :: "int option \<Rightarrow> refund_input" where
  "refund_request_of amount = \<lparr>ri_amount = amount, ri_reason = Some ''duplicate'', ri_note = None\<rparr>"

definition sample_refundable :: "string option \<Rightarrow> world" where
  "sample_refundable account =
     sample_card_paid\<lparr>w_stores := [(sample_store ACTIVE)\<lparr>s_account := account, s_charges := True\<rparr>]\<rparr>"

lemma sample_refundable_inv: "refunds_inv (sample_refundable a)"
  by (simp add: refunds_inv_def sample_refundable_def sample_card_paid_def sample_queue_def
      sample_payment_def sample_shop_def empty_world_def)

theorem refund_within_captured_witness:
  "\<exists>res w'. refund_payment 5 (\<lambda>_. Inr ''re_1'') (\<lambda>_. ''refused'') ''r1'' ''s1'' ''o1'' ''u1''
       (refund_request_of (Some 400)) (sample_refundable (Some ''acct_1'')) = (Inr res, w') \<and>
     refunds_inv w' \<and> 0 < rr_amount res"
proof -
  let ?w = "sample_refundable (Some ''acct_1'')"
  have "okE (fst (refund_payment 5 (\<lambda>_. Inr ''re_1'') (\<lambda>_. ''refused'') ''r1'' ''s1'' ''o1'' ''u1''
      (refund_request_of (Some 400)) ?w))"
    by code_simp
  then obtain res w' where run: "refund_payment 5 (\<lambda>_. Inr ''re_1'') (\<lambda>_. ''refused'') ''r1'' ''s1'' ''o1''
      ''u1'' (refund_request_of (Some 400)) ?w = (Inr res, w')"
    by (rule okE_fstE)
  show ?thesis using refund_within_captured [OF run sample_refundable_inv] run by blast
qed

section \<open>Two ways it goes wrong\<close>

text \<open>
  The row is written before the payment's references are looked at.  When they are missing the
  request fails and the row stays, waiting for an answer that will never come and holding its
  amount back from every later refund.
\<close>

theorem refund_left_pending:
  "\<exists>w'. refund_payment 5 (\<lambda>_. Inr ''re_1'') (\<lambda>_. ''refused'') ''r1'' ''s1'' ''o1'' ''u1''
       (refund_request_of None) (sample_refundable None)
       = (Inl (Internal ''That payment is missing its provider references.''), w') \<and>
     map (\<lambda>r. (r_status r, r_stripe r)) (w_refunds w') = [(RF_PENDING, None)] \<and>
     (\<forall>k. fst (refund_payment 5 (\<lambda>_. Inr k) (\<lambda>_. ''refused'') ''r2'' ''s1'' ''o1'' ''u1''
        (refund_request_of (Some 1)) w') = Inl (TriggerRaised ''Refunds would exceed the captured amount''))"
proof -
  define w' where "w' = snd (refund_payment 5 (\<lambda>_. Inr ''re_1'') (\<lambda>_. ''refused'') ''r1'' ''s1'' ''o1'' ''u1''
       (refund_request_of None) (sample_refundable None))"
  have "fst (refund_payment 5 (\<lambda>_. Inr k) (\<lambda>_. ''refused'') ''r2'' ''s1'' ''o1'' ''u1''
      (refund_request_of (Some 1)) w') =
    Inl (TriggerRaised ''Refunds would exceed the captured amount'')" for k
    unfolding w'_def by code_simp
  moreover have "fst (refund_payment 5 (\<lambda>_. Inr ''re_1'') (\<lambda>_. ''refused'') ''r1'' ''s1'' ''o1'' ''u1''
      (refund_request_of None) (sample_refundable None)) =
      Inl (Internal ''That payment is missing its provider references.'')"
    and "map (\<lambda>r. (r_status r, r_stripe r)) (w_refunds w') = [(RF_PENDING, None)]"
    unfolding w'_def by code_simp+
  ultimately show ?thesis
    by (intro exI [of _ w'] conjI allI prod_eqI) (simp_all add: w'_def)
qed

text \<open>
  Asking twice to pay one order by card, under two idempotency keys: the second request opens an
  intent with the company and writes no row for it.
\<close>

theorem second_intent_unrecorded:
  assumes "createCardPayment mk i1 s oid k1 c w = (Inr (a, t), w1)"
    and "createCardPayment mk i2 s oid k2 c w1 = (Inr (b, t'), w2)" and "in_id a \<noteq> in_id b"
    and "\<forall>p \<in> set (w_payments w). p_intent p \<noteq> Some (in_id b)"
  shows "w2 = w1 \<and> (\<forall>p \<in> set (w_payments w2). p_intent p \<noteq> Some (in_id b))"
proof -
  have row: "\<exists>p \<in> set (w_payments w1). p_order p = oid \<and> p_store p = s \<and> p_provider p = STRIPE \<and>
      p_intent p \<noteq> None"
    and new: "\<forall>p \<in> set (w_payments w1). p_intent p \<noteq> Some (in_id b)"
    using assms(1,3,4)
    by (auto simp: createCardPayment_def card_row_def find_order_def notFound_def dest!: insert_payment_Inr findD
        split: if_splits option.splits sum.splits)
  have "w2 = w1"
    using assms(2) row by (auto simp: createCardPayment_def split: if_splits option.splits sum.splits)
  then show ?thesis using new by simp
qed

end
