(* ===== verification/Billing.thy ===== *)
theory Billing
  imports Payments
begin

text \<open>
  \<open>BillingService\<close> (\<open>modules/billing/billing.service.ts\<close>): the subscription a store owner pays the
  platform, its grace period, the suspension of a store that does not pay and its return.  The
  plans table, the owners' addresses and the payment company are parameters; a query without
  an \<open>ORDER BY\<close> reads a table in the order of its rows.
\<close>

record plan =
  pl_code :: string
  pl_name :: string
  pl_price :: int
  pl_trial_days :: int
  pl_active :: bool
  pl_stripe_price :: "string option"

definition GRACE_PERIOD_DAYS :: int where
  "GRACE_PERIOD_DAYS = 7"

definition DAY_MS :: int where
  "DAY_MS = 86400000"

text \<open>\<open>Math.ceil(n / d)\<close>\<close>

definition js_ceil_div :: "int \<Rightarrow> int \<Rightarrow> int" where
  "js_ceil_div n d = - ((- n) div d)"

text \<open>An empty text counts as no text.\<close>

definition text_of :: "string option \<Rightarrow> string option" where
  "text_of s = (if s = Some [] then None else s)"

section \<open>Reading\<close>

definition currentPlan :: "plan list \<Rightarrow> plan res" where
  "currentPlan plans =
     (case sort_key pl_price (filter pl_active plans) of
        [] \<Rightarrow> Inl (Internal ''No active plan is configured.'')
      | p # _ \<Rightarrow> Inr p)"

fun mapStatus :: "string \<Rightarrow> subscription_status" where
  "mapStatus s =
     (if s = ''trialing'' then SUB_TRIALING
      else if s = ''active'' then SUB_ACTIVE
      else if s \<in> {''past_due'', ''unpaid'', ''incomplete'', ''paused''} then SUB_PAST_DUE
      else SUB_CANCELED)"

declare mapStatus.simps [simp del]

definition graceRemaining :: "int \<Rightarrow> subscription_status \<Rightarrow> int option \<Rightarrow> int option" where
  "graceRemaining now status since =
     (case since of
        None \<Rightarrow> None
      | Some t \<Rightarrow>
          if status \<noteq> SUB_PAST_DUE then None
          else Some (max 0 (js_ceil_div (GRACE_PERIOD_DAYS * DAY_MS - (now - t)) DAY_MS)))"

record subscription_view =
  sv_status :: "subscription_status option"
  sv_plan :: "string option"
  sv_plan_name :: "string option"
  sv_price :: "int option"
  sv_trial_ends :: "int option"
  sv_period_end :: "int option"
  sv_grace :: "int option"
  sv_has_method :: bool

definition find_sub :: "string \<Rightarrow> world \<Rightarrow> subscription option" where
  "find_sub storeId w = find (\<lambda>b. sb_store b = storeId) (w_subs w)"

definition getSubscription :: "plan list \<Rightarrow> int \<Rightarrow> string \<Rightarrow> world \<Rightarrow> subscription_view" where
  "getSubscription plans now storeId w =
     (case find_sub storeId w of
        None \<Rightarrow> \<lparr>sv_status = None, sv_plan = None, sv_plan_name = None, sv_price = None,
                 sv_trial_ends = None, sv_period_end = None, sv_grace = None, sv_has_method = False\<rparr>
      | Some b \<Rightarrow>
          (let p = find (\<lambda>p. pl_code p = sb_plan b) plans in
           \<lparr>sv_status = Some (sb_status b), sv_plan = Some (sb_plan b),
            sv_plan_name = map_option pl_name p, sv_price = map_option pl_price p,
            sv_trial_ends = sb_trial_ends b, sv_period_end = sb_period_end b,
            sv_grace = graceRemaining now (sb_status b) (sb_past_due_since b),
            sv_has_method = (text_of (sb_customer b) \<noteq> None)\<rparr>))"

definition billingPortalUrl :: "(string \<Rightarrow> string res) \<Rightarrow> string \<Rightarrow> world \<Rightarrow> string res" where
  "billingPortalUrl portal storeId w =
     (case find_sub storeId w of
        None \<Rightarrow> Inl (Validation ''This store hasn't started a subscription yet.'')
      | Some b \<Rightarrow>
          (case text_of (sb_customer b) of
             None \<Rightarrow> Inl (Validation ''This store hasn't started a subscription yet.'')
           | Some c \<Rightarrow> portal c))"

section \<open>Starting\<close>

record company_subscription =
  cx_id :: string
  cx_status :: string
  cx_trial_ends :: "int option"
  cx_period_end :: "int option"

record started =
  st_subscription :: string
  st_status :: subscription_status
  st_already :: bool

record customer_request =
  cq_store :: string
  cq_name :: string
  cq_email :: string
  cq_existing :: "string option"

record subscription_request =
  sq_customer :: string
  sq_price :: string
  sq_trial_days :: int
  sq_store :: string
  sq_key :: string

text \<open>\<open>digest\<close> is the first sixteen digits of the SHA-256 of the joined parameters.\<close>

definition subscriptionIdempotencyKey ::
    "(string \<Rightarrow> string) \<Rightarrow> string \<Rightarrow> string \<Rightarrow> string \<Rightarrow> int \<Rightarrow> string" where
  "subscriptionIdempotencyKey digest storeId customerId priceId trialDays =
     ''sub-'' @ storeId @ ''-'' @ digest (customerId @ ''|'' @ priceId @ ''|'' @ show_int trialDays)"

text \<open>\<open>INSERT ... ON CONFLICT (store_id) DO UPDATE\<close>, with the unique indexes of migration 13.\<close>

definition upsert_sub :: "subscription \<Rightarrow> world \<Rightarrow> world res" where
  "upsert_sub b w =
     (if \<exists>x \<in> set (w_subs w). sb_store x \<noteq> sb_store b \<and>
          ((sb_subscription b \<noteq> None \<and> sb_subscription x = sb_subscription b) \<or>
           (sb_customer b \<noteq> None \<and> sb_customer x = sb_customer b))
      then Inl (UniqueViolation ''store_subscriptions'')
      else if \<exists>x \<in> set (w_subs w). sb_store x = sb_store b
      then Inr (w\<lparr>w_subs := update_where (\<lambda>x. sb_store x = sb_store b)
             (\<lambda>x. x\<lparr>sb_customer := sb_customer b, sb_subscription := sb_subscription b,
                    sb_status := sb_status b, sb_trial_ends := sb_trial_ends b,
                    sb_period_end := sb_period_end b\<rparr>) (w_subs w)\<rparr>)
      else Inr (w\<lparr>w_subs := w_subs w @ [b]\<rparr>))"

definition already_started :: "string \<Rightarrow> world \<Rightarrow> started option" where
  "already_started storeId w =
     (case find_sub storeId w of
        None \<Rightarrow> None
      | Some b \<Rightarrow>
          (case text_of (sb_subscription b) of
             None \<Rightarrow> None
           | Some k \<Rightarrow> Some \<lparr>st_subscription = k, st_status = sb_status b, st_already = True\<rparr>))"

definition startSubscription ::
    "plan list \<Rightarrow> (string \<Rightarrow> string option) \<Rightarrow> (string \<Rightarrow> string) \<Rightarrow> (customer_request \<Rightarrow> string res) \<Rightarrow>
     (subscription_request \<Rightarrow> company_subscription res) \<Rightarrow> string \<Rightarrow> string \<Rightarrow> world \<Rightarrow> started outcome" where
  "startSubscription plans email digest customer subscribe storeId actorUserId w =
     (case already_started storeId w of
        Some r \<Rightarrow> (Inr r, w)
      | None \<Rightarrow>
          (case
             bindE (currentPlan plans) (\<lambda>plan.
             bindE (case text_of (pl_stripe_price plan) of
                      None \<Rightarrow> Inl (Validation ''Billing isn't configured on this platform yet - no Stripe price is set for the plan.'')
                    | Some p \<Rightarrow> Inr p) (\<lambda>price.
             bindE (case find_store storeId w of None \<Rightarrow> notFound | Some s \<Rightarrow> Inr s) (\<lambda>store.
             bindE (case email (s_owner store) of
                      None \<Rightarrow> Inl (Internal ''This store has no owner on record.'')
                    | Some e \<Rightarrow> Inr e) (\<lambda>addr.
             bindE (customer \<lparr>cq_store = storeId, cq_name = s_name store, cq_email = addr,
                      cq_existing = (case find_sub storeId w of None \<Rightarrow> None | Some b \<Rightarrow> sb_customer b)\<rparr>) (\<lambda>cust.
             bindE (subscribe \<lparr>sq_customer = cust, sq_price = price, sq_trial_days = pl_trial_days plan,
                      sq_store = storeId,
                      sq_key = subscriptionIdempotencyKey digest storeId cust price (pl_trial_days plan)\<rparr>) (\<lambda>sub.
             mapE (\<lambda>w1. (sub, w1))
               (upsert_sub \<lparr>sb_store = storeId, sb_plan = pl_code plan, sb_customer = Some cust,
                  sb_subscription = Some (cx_id sub), sb_status = mapStatus (cx_status sub),
                  sb_trial_ends = cx_trial_ends sub, sb_period_end = cx_period_end sub,
                  sb_past_due_since = None, sb_suspended_at = None\<rparr> w))))))) of
             Inl e \<Rightarrow> (Inl e, w)
           | Inr (sub, w1) \<Rightarrow>
               (Inr \<lparr>st_subscription = cx_id sub, st_status = mapStatus (cx_status sub), st_already = False\<rparr>,
                audit_record (audit_entry_of ''billing.subscription_started'' MEDIUM storeId
                  (Some actorUserId) ''store'' storeId) w1)))"

section \<open>What the company says\<close>

record provider_status =
  ps_subscription :: string
  ps_status :: string
  ps_period_end :: "int option"
  ps_trial_ends :: "int option"

definition mirror_status :: "int \<Rightarrow> provider_status \<Rightarrow> subscription \<Rightarrow> subscription" where
  "mirror_status now input b =
     b\<lparr>sb_status := mapStatus (ps_status input),
       sb_period_end := coalesce (ps_period_end input) (sb_period_end b),
       sb_trial_ends := coalesce (ps_trial_ends input) (sb_trial_ends b),
       sb_past_due_since := (if mapStatus (ps_status input) = SUB_PAST_DUE
          then coalesce (sb_past_due_since b) (Some now) else None)\<rparr>"

definition update_sub :: "string \<Rightarrow> (subscription \<Rightarrow> subscription) \<Rightarrow> world \<Rightarrow> world" where
  "update_sub storeId f w = w\<lparr>w_subs := update_where (\<lambda>b. sb_store b = storeId) f (w_subs w)\<rparr>"

definition reinstateIfSuspendedForNonPayment :: "string \<Rightarrow> world \<Rightarrow> world" where
  "reinstateIfSuspendedForNonPayment storeId w =
     (case find_sub storeId w of
        None \<Rightarrow> w
      | Some b \<Rightarrow>
          if sb_suspended_at b = None then w
          else
            audit_record (audit_entry_of ''billing.store_reinstated'' HIGH storeId None ''store'' storeId)
              (update_sub storeId (\<lambda>b. b\<lparr>sb_suspended_at := None\<rparr>)
                (w\<lparr>w_stores := update_where (\<lambda>s. s_id s = storeId \<and> s_status s = SUSPENDED)
                   (\<lambda>s. s\<lparr>s_status := ACTIVE\<rparr>) (w_stores w)\<rparr>)))"

definition applyProviderStatus ::
    "int \<Rightarrow> provider_status \<Rightarrow> world \<Rightarrow> (string \<times> subscription_status) option \<times> world" where
  "applyProviderStatus now input w =
     (let status = mapStatus (ps_status input);
          hit = (\<lambda>b. sb_subscription b = Some (ps_subscription input));
          w1 = w\<lparr>w_subs := update_where hit (mirror_status now input) (w_subs w)\<rparr>
      in case find hit (w_subs w) of
           None \<Rightarrow> (None, w1)
         | Some b \<Rightarrow>
             (Some (sb_store b, status),
              if status = SUB_ACTIVE \<or> status = SUB_TRIALING
              then reinstateIfSuspendedForNonPayment (sb_store b) w1
              else w1))"

section \<open>Suspending\<close>

definition grace_over :: "int \<Rightarrow> subscription \<Rightarrow> bool" where
  "grace_over now b =
     (sb_status b = SUB_PAST_DUE \<and> sb_suspended_at b = None \<and>
      (case sb_past_due_since b of None \<Rightarrow> False | Some t \<Rightarrow> t < now - GRACE_PERIOD_DAYS * DAY_MS))"

definition due_stores :: "int \<Rightarrow> world \<Rightarrow> string list" where
  "due_stores now w =
     take 100 (map sb_store (filter (\<lambda>b. grace_over now b \<and>
       (\<exists>s \<in> set (w_stores w). s_id s = sb_store b \<and> s_status s = ACTIVE)) (w_subs w)))"

text \<open>One store of the sweep: \<open>clock\<close> is the database's \<open>now()\<close>.\<close>

definition suspend_store :: "int \<Rightarrow> string \<Rightarrow> world \<Rightarrow> world" where
  "suspend_store clock storeId w =
     audit_record (audit_entry_of ''billing.store_suspended_unpaid'' HIGH storeId None ''store'' storeId)
       (update_sub storeId (\<lambda>b. b\<lparr>sb_suspended_at := Some clock\<rparr>)
         (update_store storeId (\<lambda>s. s\<lparr>s_status := SUSPENDED\<rparr>) w))"

definition suspendExpiredGracePeriods :: "int \<Rightarrow> int \<Rightarrow> world \<Rightarrow> nat \<times> world" where
  "suspendExpiredGracePeriods clock now w =
     (length (due_stores now w), fold (suspend_store clock) (due_stores now w) w)"

definition storesInGracePeriod :: "world \<Rightarrow> (string \<times> int option) list" where
  "storesInGracePeriod w =
     map (\<lambda>b. (sb_store b, sb_past_due_since b))
       (filter (\<lambda>b. sb_status b = SUB_PAST_DUE \<and> sb_past_due_since b \<noteq> None \<and> sb_suspended_at b = None)
         (w_subs w))"

end
