(* ===== verification/BillingProps.thy ===== *)
theory BillingProps
  imports Billing
begin

text \<open>
  The grace period of an unpaid store: when it starts, when a store goes offline for it, and
  that a store which pays comes back as it was.
\<close>

section \<open>The subscriptions table\<close>

definition subs_inv :: "world \<Rightarrow> bool" where
  "subs_inv w =
     (distinct (map sb_store (w_subs w)) \<and> distinct (map s_id (w_stores w)) \<and>
      (\<forall>a \<in> set (w_subs w). \<forall>b \<in> set (w_subs w).
         sb_subscription a \<noteq> None \<longrightarrow> sb_subscription a = sb_subscription b \<longrightarrow> a = b))"

lemma subs_inv_update:
  assumes "subs_inv w" and "w_subs w' = update_where p f (w_subs w)"
    and "map s_id (w_stores w') = map s_id (w_stores w)"
    and f: "\<And>b. sb_store (f b) = sb_store b" "\<And>b. sb_subscription (f b) = sb_subscription b"
  shows "subs_inv w'"
proof -
  define g where "g b = (if p b then f b else b)" for b
  have rows: "w_subs w' = map g (w_subs w)" by (simp add: assms(2) update_where_def g_def)
  have keep: "sb_subscription (g b) = sb_subscription b" for b by (simp add: g_def f)
  have "a = b" if ab: "a \<in> set (w_subs w')" "b \<in> set (w_subs w')" "sb_subscription a \<noteq> None"
      "sb_subscription a = sb_subscription b" for a b
  proof -
    obtain x y where xy: "x \<in> set (w_subs w)" "y \<in> set (w_subs w)" "a = g x" "b = g y"
      using ab(1,2) by (auto simp: rows)
    then have "x = y" using assms(1) ab(3,4) keep by (simp add: subs_inv_def)
    then show ?thesis using xy by simp
  qed
  moreover have "distinct (map sb_store (w_subs w'))"
    using assms(1) f(1) by (simp add: subs_inv_def assms(2) map_update_where)
  ultimately show ?thesis using assms(1,3) unfolding subs_inv_def by auto
qed

section \<open>The sweep\<close>

lemma suspend_store_tables:
  "w_stores (suspend_store t i w) =
     update_where (\<lambda>s. s_id s = i) (\<lambda>s. s\<lparr>s_status := SUSPENDED\<rparr>) (w_stores w)"
  "w_subs (suspend_store t i w) =
     update_where (\<lambda>b. sb_store b = i) (\<lambda>b. b\<lparr>sb_suspended_at := Some t\<rparr>) (w_subs w)"
  by (simp_all add: suspend_store_def update_store_def update_sub_def)

lemma update_where_fold:
  assumes "\<And>r. key (f r) = key r" and "\<And>r. f (f r) = f r"
  shows "fold (\<lambda>i. update_where (\<lambda>r. key r = i) f) ids rows = update_where (\<lambda>r. key r \<in> set ids) f rows"
proof (induction ids arbitrary: rows)
  case Nil
  then show ?case by (simp add: update_where_id)
next
  case (Cons i ids)
  have "update_where (\<lambda>r. key r \<in> set ids) f (update_where (\<lambda>r. key r = i) f rows) =
      update_where (\<lambda>r. key r \<in> set (i # ids)) f rows"
    by (induction rows) (auto simp: assms)
  then show ?case by (simp add: Cons.IH)
qed

lemma sweep_tables:
  assumes "suspendExpiredGracePeriods t now w = (n, w')"
  shows "w_stores w' = update_where (\<lambda>s. s_id s \<in> set (due_stores now w))
      (\<lambda>s. s\<lparr>s_status := SUSPENDED\<rparr>) (w_stores w)"
    and "w_subs w' = update_where (\<lambda>b. sb_store b \<in> set (due_stores now w))
      (\<lambda>b. b\<lparr>sb_suspended_at := Some t\<rparr>) (w_subs w)"
proof -
  have "w_stores (fold (suspend_store t) ids v) =
      fold (\<lambda>i. update_where (\<lambda>s. s_id s = i) (\<lambda>s. s\<lparr>s_status := SUSPENDED\<rparr>)) ids (w_stores v)"
    "w_subs (fold (suspend_store t) ids v) =
      fold (\<lambda>i. update_where (\<lambda>b. sb_store b = i) (\<lambda>b. b\<lparr>sb_suspended_at := Some t\<rparr>)) ids (w_subs v)"
    for ids v
    by (induction ids arbitrary: v) (simp_all add: suspend_store_tables)
  then show "w_stores w' = update_where (\<lambda>s. s_id s \<in> set (due_stores now w))
      (\<lambda>s. s\<lparr>s_status := SUSPENDED\<rparr>) (w_stores w)"
    and "w_subs w' = update_where (\<lambda>b. sb_store b \<in> set (due_stores now w))
      (\<lambda>b. b\<lparr>sb_suspended_at := Some t\<rparr>) (w_subs w)"
    using assms
    by (auto simp: suspendExpiredGracePeriods_def
        update_where_fold [where key = s_id] update_where_fold [where key = sb_store])
qed

lemma due_storesD:
  assumes "i \<in> set (due_stores now w)"
  shows "\<exists>b \<in> set (w_subs w). sb_store b = i \<and> grace_over now b"
    and "\<exists>s \<in> set (w_stores w). s_id s = i \<and> s_status s = ACTIVE"
  using set_take_subset [of 100] assms by (fastforce simp: due_stores_def)+

lemma due_store_active:
  assumes "subs_inv w" and "s \<in> set (w_stores w)" and "s_id s \<in> set (due_stores now w)"
  shows "s_status s = ACTIVE"
  using due_storesD(2) [OF assms(3)] assms(1,2) distinct_map_eq [of s_id "w_stores w"]
  by (auto simp: subs_inv_def)

section \<open>Paying up\<close>

lemma reinstate_tables:
  assumes "find_sub i w = Some b" and "sb_suspended_at b \<noteq> None"
  shows "w_stores (reinstateIfSuspendedForNonPayment i w) =
      update_where (\<lambda>s. s_id s = i \<and> s_status s = SUSPENDED) (\<lambda>s. s\<lparr>s_status := ACTIVE\<rparr>) (w_stores w)"
    and "w_subs (reinstateIfSuspendedForNonPayment i w) =
      update_where (\<lambda>b. sb_store b = i) (\<lambda>b. b\<lparr>sb_suspended_at := None\<rparr>) (w_subs w)"
  using assms by (auto simp: reinstateIfSuspendedForNonPayment_def update_sub_def)

definition pays :: "provider_status \<Rightarrow> bool" where
  "pays p = (mapStatus (ps_status p) = SUB_ACTIVE \<or> mapStatus (ps_status p) = SUB_TRIALING)"

lemma paying_tables:
  assumes "subs_inv w" and "b \<in> set (w_subs w)" and "sb_subscription b = Some (ps_subscription p)"
    and "sb_suspended_at b \<noteq> None" and "pays p" and "applyProviderStatus t p w = (r, w')"
  shows "r = Some (sb_store b, mapStatus (ps_status p))"
    and "w_stores w' = update_where (\<lambda>s. s_id s = sb_store b \<and> s_status s = SUSPENDED)
      (\<lambda>s. s\<lparr>s_status := ACTIVE\<rparr>) (w_stores w)"
    and "(mirror_status t p b)\<lparr>sb_suspended_at := None\<rparr> \<in> set (w_subs w')"
proof -
  let ?hit = "\<lambda>b. sb_subscription b = Some (ps_subscription p)"
  define rows where "rows = update_where ?hit (mirror_status t p) (w_subs w)"
  define w1 where "w1 = w\<lparr>w_subs := rows\<rparr>"
  have keys: "sb_store (mirror_status t p x) = sb_store x"
    "sb_suspended_at (mirror_status t p x) = sb_suspended_at x" for x
    by (simp_all add: mirror_status_def)
  have found: "find ?hit (w_subs w) = Some b"
  proof (cases "find ?hit (w_subs w)")
    case None
    then show ?thesis using assms(2,3) by (auto simp: find_None_iff)
  next
    case (Some x)
    then show ?thesis using findD [OF Some] assms(1-3) by (auto simp: subs_inv_def)
  qed
  have row: "mirror_status t p b \<in> set rows"
    using assms(2,3) by (auto simp: rows_def intro: in_update_where)
  have dist: "distinct (map sb_store rows)"
    using assms(1) keys by (simp add: rows_def map_update_where subs_inv_def)
  have fs: "find_sub (sb_store b) w1 = Some (mirror_status t p b)"
    using find_unique [OF dist row] keys by (simp add: find_sub_def w1_def)
  have run: "(r, w') = (Some (sb_store b, mapStatus (ps_status p)),
      reinstateIfSuspendedForNonPayment (sb_store b) w1)"
    using assms(5,6) found by (auto simp: applyProviderStatus_def Let_def pays_def w1_def rows_def)
  then show "r = Some (sb_store b, mapStatus (ps_status p))" by simp
  have sus: "sb_suspended_at (mirror_status t p b) \<noteq> None" using assms(4) keys by simp
  show "w_stores w' = update_where (\<lambda>s. s_id s = sb_store b \<and> s_status s = SUSPENDED)
      (\<lambda>s. s\<lparr>s_status := ACTIVE\<rparr>) (w_stores w)"
    using run reinstate_tables(1) [OF fs sus] by (simp add: w1_def)
  have "w_subs w' = update_where (\<lambda>x. sb_store x = sb_store b) (\<lambda>x. x\<lparr>sb_suspended_at := None\<rparr>) rows"
    using run reinstate_tables(2) [OF fs sus] by (simp add: w1_def)
  then show "(mirror_status t p b)\<lparr>sb_suspended_at := None\<rparr> \<in> set (w_subs w')"
    using row keys by (auto intro: in_update_where)
qed

text \<open>
  C26. The sweep takes a store offline only after its payment has been outstanding for more than
  the grace period, changes the status of no other store, and counts what it took.  When the
  payment company then reports the subscription of such a store as paid or trialing, the store's
  row is back to exactly what it was before the sweep, and the mark of the suspension and the
  clock of the grace period are cleared.
\<close>

theorem suspension_and_return:
  assumes "subs_inv w" and "suspendExpiredGracePeriods t now w = (n, w1)"
  shows "n = length (due_stores now w) \<and>
    w_stores w1 = map (\<lambda>s. if s_id s \<in> set (due_stores now w) then s\<lparr>s_status := SUSPENDED\<rparr> else s)
      (w_stores w) \<and>
    (\<forall>i \<in> set (due_stores now w). \<exists>b \<in> set (w_subs w). \<exists>since. sb_store b = i \<and>
       sb_status b = SUB_PAST_DUE \<and> sb_past_due_since b = Some since \<and>
       since + GRACE_PERIOD_DAYS * DAY_MS < now) \<and>
    (\<forall>b \<in> set (w_subs w). \<forall>p t2. sb_store b \<in> set (due_stores now w) \<longrightarrow>
       sb_subscription b = Some (ps_subscription p) \<longrightarrow> pays p \<longrightarrow>
       (\<exists>w2 b2. applyProviderStatus t2 p w1 = (Some (sb_store b, mapStatus (ps_status p)), w2) \<and>
          (\<forall>s \<in> set (w_stores w). s_id s = sb_store b \<longrightarrow> s \<in> set (w_stores w2)) \<and>
          b2 \<in> set (w_subs w2) \<and> sb_store b2 = sb_store b \<and> sb_suspended_at b2 = None \<and>
          sb_past_due_since b2 = None))"
proof (intro conjI ballI allI impI)
  note tab = sweep_tables [OF assms(2)]
  show "n = length (due_stores now w)"
    using assms(2) by (simp add: suspendExpiredGracePeriods_def)
  show "w_stores w1 = map (\<lambda>s. if s_id s \<in> set (due_stores now w) then s\<lparr>s_status := SUSPENDED\<rparr> else s)
      (w_stores w)"
    by (simp add: tab(1) update_where_def)
  show "\<exists>b \<in> set (w_subs w). \<exists>since. sb_store b = i \<and> sb_status b = SUB_PAST_DUE \<and>
      sb_past_due_since b = Some since \<and> since + GRACE_PERIOD_DAYS * DAY_MS < now"
    if "i \<in> set (due_stores now w)" for i
    using due_storesD(1) [OF that] by (force simp: grace_over_def split: option.splits)
  fix b p t2
  assume b: "b \<in> set (w_subs w)" and due: "sb_store b \<in> set (due_stores now w)"
    and sub: "sb_subscription b = Some (ps_subscription p)" and pays: "pays p"
  define b1 where "b1 = b\<lparr>sb_suspended_at := Some t\<rparr>"
  have "subs_inv w1"
    by (rule subs_inv_update [OF assms(1) tab(2)]) (simp_all add: tab(1) map_update_where)
  moreover have "b1 \<in> set (w_subs w1)"
    using b due by (auto simp: tab(2) b1_def intro: in_update_where)
  moreover have "sb_subscription b1 = Some (ps_subscription p)" "sb_suspended_at b1 \<noteq> None"
    using sub by (simp_all add: b1_def)
  moreover obtain r w2 where run: "applyProviderStatus t2 p w1 = (r, w2)" by (meson surj_pair)
  ultimately have r: "r = Some (sb_store b1, mapStatus (ps_status p))"
    and stores: "w_stores w2 = update_where (\<lambda>s. s_id s = sb_store b1 \<and> s_status s = SUSPENDED)
      (\<lambda>s. s\<lparr>s_status := ACTIVE\<rparr>) (w_stores w1)"
    and row: "(mirror_status t2 p b1)\<lparr>sb_suspended_at := None\<rparr> \<in> set (w_subs w2)"
    using pays by (blast intro: paying_tables)+
  have back_on: "s \<in> set (w_stores w2)" if s: "s \<in> set (w_stores w)" "s_id s = sb_store b" for s
  proof -
    have "s\<lparr>s_status := SUSPENDED\<rparr> \<in> set (w_stores w1)"
      using s due by (auto simp: tab(1) intro: in_update_where)
    moreover have "s = (s\<lparr>s_status := SUSPENDED\<rparr>)\<lparr>s_status := ACTIVE\<rparr>"
      using due_store_active [OF assms(1) s(1)] s(2) due by (cases s) simp
    ultimately show ?thesis
      unfolding stores using s(2) by (intro in_update_where [of "s\<lparr>s_status := SUSPENDED\<rparr>"]) (simp_all add: b1_def)
  qed
  show "\<exists>w2 b2. applyProviderStatus t2 p w1 = (Some (sb_store b, mapStatus (ps_status p)), w2) \<and>
      (\<forall>s \<in> set (w_stores w). s_id s = sb_store b \<longrightarrow> s \<in> set (w_stores w2)) \<and>
      b2 \<in> set (w_subs w2) \<and> sb_store b2 = sb_store b \<and> sb_suspended_at b2 = None \<and>
      sb_past_due_since b2 = None"
  proof (intro exI conjI ballI impI)
    show "applyProviderStatus t2 p w1 = (Some (sb_store b, mapStatus (ps_status p)), w2)"
      using run r by (simp add: b1_def)
    show "(mirror_status t2 p b1)\<lparr>sb_suspended_at := None\<rparr> \<in> set (w_subs w2)" by (rule row)
  qed (use back_on pays in \<open>auto simp: mirror_status_def b1_def pays_def\<close>)
qed

definition unpaid_world :: world where
  "unpaid_world = sample_shop\<lparr>w_subs := [\<lparr>sb_store = ''s1'', sb_plan = ''STANDARD'',
     sb_customer = Some ''cus_1'', sb_subscription = Some ''sub_1'', sb_status = SUB_PAST_DUE,
     sb_trial_ends = None, sb_period_end = None, sb_past_due_since = Some 0, sb_suspended_at = None\<rparr>]\<rparr>"

definition report :: "string \<Rightarrow> provider_status" where
  "report st = \<lparr>ps_subscription = ''sub_1'', ps_status = st, ps_period_end = None, ps_trial_ends = None\<rparr>"

lemma unpaid_world_inv: "subs_inv unpaid_world"
  by (simp add: subs_inv_def unpaid_world_def sample_shop_def empty_world_def)

theorem suspension_and_return_witness:
  "\<exists>w1 w2. suspendExpiredGracePeriods 5 604800001 unpaid_world = (1, w1) \<and>
     map s_status (w_stores w1) = [SUSPENDED] \<and>
     applyProviderStatus 9 (report ''active'') w1 = (Some (''s1'', SUB_ACTIVE), w2) \<and>
     sample_store ACTIVE \<in> set (w_stores w2)"
proof -
  obtain n w1 where run: "suspendExpiredGracePeriods 5 604800001 unpaid_world = (n, w1)"
    by (meson surj_pair)
  have due: "due_stores 604800001 unpaid_world = [''s1'']" by code_simp
  have mapped: "mapStatus ''active'' = SUB_ACTIVE" by code_simp
  define b where "b = hd (w_subs unpaid_world)"
  have b: "b \<in> set (w_subs unpaid_world)" "sb_store b = ''s1''" "sb_subscription b = Some ''sub_1''"
    by (simp_all add: b_def unpaid_world_def)
  have stores: "w_stores unpaid_world = [sample_store ACTIVE]" "s_id (sample_store ACTIVE) = ''s1''"
    by (simp_all add: unpaid_world_def sample_shop_def sample_store_def)
  note facts = suspension_and_return [OF unpaid_world_inv run]
  have n: "n = 1" and w1: "map s_status (w_stores w1) = [SUSPENDED]"
    using facts by (simp_all add: due stores)
  have paid: "pays (report ''active'')" by (simp add: pays_def report_def mapped)
  have "\<exists>w2 b2. applyProviderStatus 9 (report ''active'') w1 =
        (Some (sb_store b, mapStatus (ps_status (report ''active''))), w2) \<and>
      (\<forall>s \<in> set (w_stores unpaid_world). s_id s = sb_store b \<longrightarrow> s \<in> set (w_stores w2)) \<and>
      b2 \<in> set (w_subs w2) \<and> sb_store b2 = sb_store b \<and> sb_suspended_at b2 = None \<and>
      sb_past_due_since b2 = None"
    by (rule facts [THEN conjunct2, THEN conjunct2, THEN conjunct2, rule_format, OF b(1) _ _ paid])
      (simp_all add: due b report_def)
  then show ?thesis using run n w1 b by (auto simp: report_def mapped stores)
qed

section \<open>The grace period's clock\<close>

definition past_due :: "provider_status \<Rightarrow> bool" where
  "past_due p = (mapStatus (ps_status p) = SUB_PAST_DUE)"

definition hear :: "(int \<times> provider_status) list \<Rightarrow> world \<Rightarrow> world" where
  "hear reports w = fold (\<lambda>(t, p) w. snd (applyProviderStatus t p w)) reports w"

text \<open>
  The clock as it should read: running since the first of the unbroken run of unpaid reports that
  ends with the last one, and since before them if the reports were all unpaid and it ran then.
\<close>

definition clock_after :: "(int \<times> provider_status) list \<Rightarrow> int option \<Rightarrow> int option" where
  "clock_after reports since =
     (let run = rev (takeWhile (\<lambda>(t, p). past_due p) (rev reports)) in
      if run = reports then coalesce since (map_option fst (if run = [] then None else Some (hd run)))
      else if run = [] then None
      else Some (fst (hd run)))"

lemma clock_after_Nil [simp]: "clock_after [] since = since"
  by (cases since) (simp_all add: clock_after_def)

lemma clock_after_snoc:
  "clock_after (rs @ [(t, p)]) since =
     (if past_due p then coalesce (clock_after rs since) (Some t) else None)"
proof -
  have "takeWhile Q (rev rs) = rev rs \<longleftrightarrow> rev (takeWhile Q (rev rs)) = rs" for Q
    by (metis rev_rev_ident)
  moreover have "length (takeWhile Q (rev rs)) \<le> length rs" for Q
    by (metis length_rev length_takeWhile_le)
  ultimately show ?thesis
    by (cases "past_due p"; cases rs rule: rev_cases)
      (auto simp: clock_after_def Let_def coalesce_def hd_append split: option.splits)
qed

lemma apply_row:
  assumes "subs_inv w" and "b \<in> set (w_subs w)" and "sb_subscription b = Some (ps_subscription p)"
    and "applyProviderStatus t p w = (r, w')"
  shows "subs_inv w' \<and> (\<exists>b' \<in> set (w_subs w'). sb_store b' = sb_store b \<and>
    sb_subscription b' = sb_subscription b \<and> sb_status b' = mapStatus (ps_status p) \<and>
    sb_past_due_since b' = (if past_due p then coalesce (sb_past_due_since b) (Some t) else None))"
proof -
  let ?hit = "\<lambda>b. sb_subscription b = Some (ps_subscription p)"
  define w1 where "w1 = w\<lparr>w_subs := update_where ?hit (mirror_status t p) (w_subs w)\<rparr>"
  have keys: "sb_store (mirror_status t p x) = sb_store x"
    "sb_subscription (mirror_status t p x) = sb_subscription x" for x
    by (simp_all add: mirror_status_def)
  have inv1: "subs_inv w1"
    by (rule subs_inv_update [OF assms(1), of w1 ?hit "mirror_status t p"]) (simp_all add: w1_def keys)
  have row1: "mirror_status t p b \<in> set (w_subs w1)"
    using assms(2,3) by (auto simp: w1_def intro: in_update_where)
  have hear1: "w' = w1 \<or> w' = reinstateIfSuspendedForNonPayment i w1" if "r = Some (i, st)" for i st
    using assms(4) that by (auto simp: applyProviderStatus_def Let_def w1_def split: option.splits if_splits)
  have "r \<noteq> None"
    using assms(2-4) by (auto simp: applyProviderStatus_def Let_def find_None_iff split: option.splits)
  then consider "w' = w1" | i where "w' = reinstateIfSuspendedForNonPayment i w1"
    using hear1 by (cases r) auto
  then show ?thesis
  proof cases
    case 1
    then show ?thesis
      using inv1 row1 by (intro conjI bexI [of _ "mirror_status t p b"]) (auto simp: mirror_status_def past_due_def)
  next
    case (2 i)
    show ?thesis
    proof (cases "w' = w1")
      case True
      then show ?thesis
        using inv1 row1 by (intro conjI bexI [of _ "mirror_status t p b"]) (auto simp: mirror_status_def past_due_def)
    next
      case False
      then obtain c where c: "find_sub i w1 = Some c" "sb_suspended_at c \<noteq> None"
        using 2 by (auto simp: reinstateIfSuspendedForNonPayment_def split: option.splits if_splits)
      note tab = reinstate_tables [OF c, folded 2]
      have "subs_inv w'"
        by (rule subs_inv_update [OF inv1 tab(2)]) (simp_all add: tab(1) map_update_where)
      moreover have "(if sb_store b = i then (mirror_status t p b)\<lparr>sb_suspended_at := None\<rparr>
          else mirror_status t p b) \<in> set (w_subs w')"
        using row1 keys by (auto simp: tab(2) intro: in_update_where in_update_where_other)
      ultimately show ?thesis
        by (intro conjI bexI) (auto simp: mirror_status_def past_due_def)
    qed
  qed
qed

text \<open>
  However often the payment company repeats itself, the grace period runs from the first
  report of the current unpaid run and is cleared by any other report: the clock on the
  subscription's row always reads what the whole sequence of reports says it should.
\<close>

theorem grace_clock_reads:
  assumes "subs_inv w" and "b \<in> set (w_subs w)" and "sb_subscription b = Some k"
    and "\<forall>(t, p) \<in> set reports. ps_subscription p = k"
  shows "\<exists>b' \<in> set (w_subs (hear reports w)). sb_store b' = sb_store b \<and>
    sb_subscription b' = Some k \<and>
    sb_past_due_since b' = clock_after reports (sb_past_due_since b)"
proof -
  have "subs_inv (hear reports w) \<and> (\<exists>b' \<in> set (w_subs (hear reports w)). sb_store b' = sb_store b \<and>
      sb_subscription b' = Some k \<and> sb_past_due_since b' = clock_after reports (sb_past_due_since b))"
    using assms(4)
  proof (induction reports rule: rev_induct)
    case Nil
    then show ?case using assms(1-3) by (auto simp: hear_def)
  next
    case (snoc r rs)
    obtain t p where r: "r = (t, p)" by fastforce
    then obtain b1 where inv: "subs_inv (hear rs w)" and b1: "b1 \<in> set (w_subs (hear rs w))"
      "sb_store b1 = sb_store b" "sb_subscription b1 = Some k"
      "sb_past_due_since b1 = clock_after rs (sb_past_due_since b)"
      using snoc by auto
    obtain x w' where run: "applyProviderStatus t p (hear rs w) = (x, w')" by (meson surj_pair)
    have "sb_subscription b1 = Some (ps_subscription p)" using snoc.prems b1(3) r by simp
    from apply_row [OF inv b1(1) this run] show ?case
      using run b1 by (auto simp: r hear_def clock_after_snoc)
  qed
  then show ?thesis by blast
qed

theorem grace_clock_reads_witness:
  "\<exists>b' \<in> set (w_subs (hear [(3, report ''active''), (5, report ''past_due''), (8, report ''unpaid'')]
      unpaid_world)). sb_subscription b' = Some ''sub_1'' \<and> sb_past_due_since b' = Some 5"
proof -
  let ?rs = "[(3, report ''active''), (5, report ''past_due''), (8, report ''unpaid'')]"
  define b where "b = hd (w_subs unpaid_world)"
  have b: "b \<in> set (w_subs unpaid_world)" "sb_subscription b = Some ''sub_1''"
    by (simp_all add: b_def unpaid_world_def)
  have "\<forall>(t, p) \<in> set ?rs. ps_subscription p = ''sub_1''" by (simp add: report_def)
  from grace_clock_reads [OF unpaid_world_inv b this]
  have "\<exists>b' \<in> set (w_subs (hear ?rs unpaid_world)). sb_subscription b' = Some ''sub_1'' \<and>
      sb_past_due_since b' = clock_after ?rs (sb_past_due_since b)"
    by blast
  moreover have "clock_after ?rs x = Some 5" for x
    by (simp add: clock_after_def past_due_def report_def mapStatus.simps)
  ultimately show ?thesis by simp
qed

end
