(* ===== verification/Webhooks.thy ===== *)
theory Webhooks
  imports Billing
begin

text \<open>
  \<open>StripeWebhooksService\<close> (\<open>modules/payments/webhooks.service.ts\<close>): what the payment company says,
  recorded once and acted on.  Checking the signature and parsing the body belong to the
  provider; an event arrives parsed or as an error.  Of the payload the model keeps the
  fields the handlers read; a missing identifier is the empty text.
\<close>

text \<open>A value that should be text.\<close>

datatype js_value = JText string | JOtherValue

record last_error =
  le_message :: "string option"
  le_code :: "js_value option"
  le_decline :: "js_value option"

record requirements =
  rqm_due :: "string list option"
  rqm_past_due :: "string list option"
  rqm_disabled :: "string option"

record event_data =
  ed_id :: string
  ed_object :: "string option"
  ed_status :: "string option"
  ed_store :: "string option"
  ed_error :: "last_error option"
  ed_intent :: "string option"
  ed_trial_end :: "int option"
  ed_period_end :: "int option"
  ed_item_period_end :: "int option"
  ed_charges :: "bool option"
  ed_payouts :: "bool option"
  ed_details :: "bool option"
  ed_requirements :: "requirements option"

record provider_event =
  pe_id :: string
  pe_type :: string
  pe_account :: "string option"
  pe_data :: event_data

record webhook_outcome =
  wo_event :: string
  wo_type :: string
  wo_duplicate :: bool
  wo_handled :: bool

section \<open>Labels\<close>

definition is_lower :: "char \<Rightarrow> bool" where
  "is_lower c = (97 \<le> (of_char c :: nat) \<and> (of_char c :: nat) \<le> 122)"

text \<open>\<open>/^[a-z][a-z0-9_]{0,39}$/\<close>\<close>

definition safe_label :: "string \<Rightarrow> bool" where
  "safe_label s =
     (case s of
        [] \<Rightarrow> False
      | c # cs \<Rightarrow> is_lower c \<and> length cs \<le> 39 \<and>
          list_all (\<lambda>d. is_lower d \<or> is_digit d \<or> d = CHR ''_'') cs)"

definition declineReason :: "last_error option \<Rightarrow> string" where
  "declineReason error =
     (case (case error of None \<Rightarrow> None | Some e \<Rightarrow> coalesce (le_decline e) (le_code e)) of
        Some (JText raw) \<Rightarrow> (if safe_label raw then raw else ''other'')
      | _ \<Rightarrow> ''unknown'')"

section \<open>Recording\<close>

definition resolveStore :: "provider_event \<Rightarrow> world \<Rightarrow> string option" where
  "resolveStore ev w =
     (case text_of (ed_store (pe_data ev)) of
        Some s \<Rightarrow> Some s
      | None \<Rightarrow>
          (let accountId = or_else (pe_account ev) (ed_id (pe_data ev)) in
           if accountId = [] then None
           else map_option s_id (find (\<lambda>s. s_account s = Some accountId) (w_stores w))))"

text \<open>The insert, with the unique index on the event and the reference to the store.\<close>

definition record_event :: "provider_event \<Rightarrow> string option \<Rightarrow> world \<Rightarrow> world res" where
  "record_event ev storeId w =
     (if \<exists>x \<in> set (w_events w). se_event x = pe_id ev then Inl (UniqueViolation ''stripe_events_event_id'')
      else if (case storeId of None \<Rightarrow> False | Some s \<Rightarrow> s \<notin> s_id ` set (w_stores w))
      then Inl (CheckViolation ''stripe_events_store_id_fkey'')
      else Inr (w\<lparr>w_events := w_events w @ [\<lparr>se_event = pe_id ev, se_type = pe_type ev,
             se_store = storeId, se_processed = False, se_error = None\<rparr>]\<rparr>))"

definition markProcessed :: "string \<Rightarrow> app_error option \<Rightarrow> world \<Rightarrow> world" where
  "markProcessed eventId error w =
     w\<lparr>w_events := update_where (\<lambda>x. se_event x = eventId)
        (\<lambda>x. x\<lparr>se_processed := True, se_error := error\<rparr>) (w_events w)\<rparr>"

section \<open>Payments\<close>

definition unreconciled :: "string \<Rightarrow> world \<Rightarrow> world" where
  "unreconciled cause = inc ''payments_unreconciled_total'' [cause]"

definition flagIfStillUnconfirmed :: "string \<Rightarrow> string \<Rightarrow> world \<Rightarrow> world" where
  "flagIfStillUnconfirmed storeId orderId w =
     (case find_order storeId orderId w of
        None \<Rightarrow> w
      | Some o1 \<Rightarrow> if o_status o1 = PENDING then unreconciled ''confirm_failed'' w else w)"

definition of_intent :: "string \<Rightarrow> string \<Rightarrow> payment \<Rightarrow> bool" where
  "of_intent storeId intent p = (p_intent p = Some intent \<and> p_store p = storeId)"

definition capture_payment :: "string \<Rightarrow> string \<Rightarrow> world \<Rightarrow> string option \<times> world" where
  "capture_payment storeId intent w =
     (let w1 = w\<lparr>w_payments := update_where (of_intent storeId intent)
                 (\<lambda>p. p\<lparr>p_status := PAY_SUCCEEDED\<rparr>) (w_payments w)\<rparr>
      in case find (of_intent storeId intent) (w_payments w) of
           None \<Rightarrow> (None, w1)
         | Some p \<Rightarrow> (Some (p_order p), retireSupersededPayments storeId (p_order p) w1))"

definition onPaymentSucceeded :: "string \<Rightarrow> provider_event \<Rightarrow> string option \<Rightarrow> world \<Rightarrow> world" where
  "onPaymentSucceeded newId ev storeId w =
     (let w0 = payment_outcome ''STRIPE'' ''succeeded'' ''none'' w in
      case storeId of
        None \<Rightarrow> unreconciled ''no_store'' w0
      | Some s \<Rightarrow>
          (case capture_payment s (ed_id (pe_data ev)) w0 of
             (None, w1) \<Rightarrow> unreconciled ''no_payment_row'' w1
           | (Some orderId, w1) \<Rightarrow>
               (case transition newId s orderId CONFIRMED system_actor (Some ''Card payment received'') w1 of
                  (Inr _, w2) \<Rightarrow> w2
                | (Inl _, w2) \<Rightarrow> flagIfStillUnconfirmed s orderId w2)))"

definition onPaymentFailed :: "provider_event \<Rightarrow> string option \<Rightarrow> world \<Rightarrow> world" where
  "onPaymentFailed ev storeId w =
     (let error = ed_error (pe_data ev);
          w0 = payment_outcome ''STRIPE'' ''failed'' (declineReason error) w;
          reason = or_else (Option.bind error le_message) ''Card declined''
      in case storeId of
           None \<Rightarrow> w0
         | Some s \<Rightarrow>
             w0\<lparr>w_payments := update_where (of_intent s (ed_id (pe_data ev)))
                (\<lambda>p. p\<lparr>p_status := PAY_FAILED, p_failure := Some reason\<rparr>) (w_payments w0)\<rparr>)"

section \<open>Refunds, subscriptions, accounts\<close>

definition mapRefundStatus :: "string option \<Rightarrow> refund_status" where
  "mapRefundStatus status =
     (if status = Some ''succeeded'' then RF_SUCCEEDED
      else if status = Some ''failed'' \<or> status = Some ''canceled'' then RF_FAILED
      else RF_PENDING)"

definition onRefundUpdated :: "provider_event \<Rightarrow> world \<Rightarrow> world res" where
  "onRefundUpdated ev w =
     (let data = pe_data ev in
      if ed_object data = Some ''refund'' \<and> ed_id data \<noteq> []
      then update_refunds (\<lambda>r. r_stripe r = Some (ed_id data))
             (\<lambda>r. r\<lparr>r_status := mapRefundStatus (ed_status data)\<rparr>) w
      else case text_of (ed_intent data) of
        None \<Rightarrow> Inr w
      | Some intent \<Rightarrow>
          update_refunds (\<lambda>r. r_status r = RF_PENDING \<and> r_stripe r \<noteq> None \<and>
              (\<exists>p \<in> set (w_payments w). p_id p = r_payment r \<and> p_intent p = Some intent))
            (\<lambda>r. r\<lparr>r_status := RF_SUCCEEDED\<rparr>) w)"

text \<open>\<open>t ? new Date(t * 1000) : null\<close>\<close>

definition date_of :: "int option \<Rightarrow> int option" where
  "date_of t = (case t of None \<Rightarrow> None | Some n \<Rightarrow> if n = 0 then None else Some (n * 1000))"

definition onSubscriptionChanged :: "int \<Rightarrow> provider_event \<Rightarrow> world \<Rightarrow> world" where
  "onSubscriptionChanged now ev w =
     (let data = pe_data ev in
      case text_of (ed_status data) of
        None \<Rightarrow> w
      | Some st \<Rightarrow>
          if ed_id data = [] then w
          else snd (applyProviderStatus now
            \<lparr>ps_subscription = ed_id data, ps_status = st,
             ps_period_end = date_of (coalesce (ed_item_period_end data) (ed_period_end data)),
             ps_trial_ends = date_of (ed_trial_end data)\<rparr> w))"

definition onAccountUpdated :: "int \<Rightarrow> provider_event \<Rightarrow> string option \<Rightarrow> world \<Rightarrow> world" where
  "onAccountUpdated now ev storeId w =
     (let data = pe_data ev; reqs = ed_requirements data in
      case storeId of
        None \<Rightarrow> w
      | Some s \<Rightarrow>
          update_store s (\<lambda>x. x\<lparr>s_charges := or_else (ed_charges data) False,
            s_payouts := or_else (ed_payouts data) False,
            s_details := or_else (ed_details data) False,
            s_requirements := or_else (Option.bind reqs rqm_due) [] @ or_else (Option.bind reqs rqm_past_due) [],
            s_disabled_reason := Option.bind reqs rqm_disabled,
            s_synced_at := Some now\<rparr>) w)"

section \<open>Dispatch\<close>

definition dispatch ::
    "int \<Rightarrow> string \<Rightarrow> provider_event \<Rightarrow> string option \<Rightarrow> world \<Rightarrow> (bool \<times> world) res" where
  "dispatch now newId ev storeId w =
     (let t = pe_type ev in
      if t = ''payment_intent.succeeded'' then Inr (True, onPaymentSucceeded newId ev storeId w)
      else if t = ''payment_intent.payment_failed'' then Inr (True, onPaymentFailed ev storeId w)
      else if t \<in> {''charge.refunded'', ''refund.updated'', ''charge.refund.updated''}
      then mapE (\<lambda>w1. (True, w1)) (onRefundUpdated ev w)
      else if t = ''account.updated'' then Inr (True, onAccountUpdated now ev storeId w)
      else if t \<in> {''customer.subscription.created'', ''customer.subscription.updated'',
                   ''customer.subscription.deleted'', ''customer.subscription.paused'',
                   ''customer.subscription.resumed''}
      then Inr (True, onSubscriptionChanged now ev w)
      else Inr (False, w))"

definition webhook_handle ::
    "int \<Rightarrow> string \<Rightarrow> provider_event res \<Rightarrow> world \<Rightarrow> webhook_outcome outcome" where
  "webhook_handle now newId parsed w =
     (case parsed of
        Inl e \<Rightarrow> (Inl e, w)
      | Inr ev \<Rightarrow>
          (let storeId = resolveStore ev w in
           case record_event ev storeId w of
             Inl e \<Rightarrow>
               if isUniqueViolation e
               then (Inr \<lparr>wo_event = pe_id ev, wo_type = pe_type ev, wo_duplicate = True,
                          wo_handled = False\<rparr>, w)
               else (Inl e, w)
           | Inr w1 \<Rightarrow>
               (case dispatch now newId ev storeId w1 of
                  Inl e \<Rightarrow> (Inl e, markProcessed (pe_id ev) (Some e) w1)
                | Inr (handled, w2) \<Rightarrow>
                    (Inr \<lparr>wo_event = pe_id ev, wo_type = pe_type ev, wo_duplicate = False,
                          wo_handled = handled\<rparr>,
                     markProcessed (pe_id ev) None w2))))"

end
