(* ===== verification/OrderFrame.thy ===== *)
theory OrderFrame
  imports OrderProps
begin

text \<open>
  The tables a status change never touches, whatever it is and however it ends: every component
  that moves orders (the webhooks, the deliveries, the sweep) rests on these.
\<close>

definition off_orders :: "world \<Rightarrow> world" where
  "off_orders w = w\<lparr>w_levels := Map.empty, w_movements := [], w_orders := [], w_history := [],
     w_outbox := [], w_inbox := []\<rparr>"

lemma off_orders_off_stock: "off_stock w = off_stock v \<Longrightarrow> off_orders w = off_orders v"
  by (drule arg_cong [of _ _ "\<lambda>w. w\<lparr>w_orders := [], w_history := [], w_outbox := [], w_inbox := []\<rparr>"])
    (simp add: off_stock_def off_orders_def)

lemma off_orders_off_inbox: "off_inbox w = off_inbox v \<Longrightarrow> off_orders w = off_orders v"
  by (drule arg_cong [of _ _ "\<lambda>w. w\<lparr>w_levels := Map.empty, w_movements := [], w_orders := [],
      w_history := [], w_outbox := []\<rparr>"]) (cases w; cases v; simp add: off_inbox_def off_orders_def)

lemma off_orders_keeps:
  assumes "off_orders w' = off_orders w"
  shows "w_stores w' = w_stores w" "w_items w' = w_items w" "w_payments w' = w_payments w"
    "w_refunds w' = w_refunds w" "w_members w' = w_members w" "w_assets w' = w_assets w"
    "w_deliveries w' = w_deliveries w" "w_subs w' = w_subs w" "w_notices w' = w_notices w"
    "w_events w' = w_events w" "w_audit w' = w_audit w" "w_metrics w' = w_metrics w"
    "w_mail w' = w_mail w" "w_variants w' = w_variants w" "w_coupons w' = w_coupons w"
    "w_redemptions w' = w_redemptions w"
  using arg_cong [OF assms, of w_stores] arg_cong [OF assms, of w_items]
    arg_cong [OF assms, of w_payments] arg_cong [OF assms, of w_refunds]
    arg_cong [OF assms, of w_members] arg_cong [OF assms, of w_assets]
    arg_cong [OF assms, of w_deliveries] arg_cong [OF assms, of w_subs]
    arg_cong [OF assms, of w_notices] arg_cong [OF assms, of w_events]
    arg_cong [OF assms, of w_audit] arg_cong [OF assms, of w_metrics]
    arg_cong [OF assms, of w_mail] arg_cong [OF assms, of w_variants]
    arg_cong [OF assms, of w_coupons] arg_cong [OF assms, of w_redemptions]
  by (simp_all add: off_orders_def)

lemma stock_effects_off:
  assumes "applyStockEffects s oid frm to actor w = Inr w1"
  shows "off_stock w1 = off_stock w"
proof -
  have release: "off_stock w1 = off_stock w" if "foldE (release_item s) items w = Inr w1" for items
    by (rule foldE_field [OF _ that]) (auto dest: release_item_effect)
  show ?thesis
    using assms release confirming.fold_keeps returning.fold_keeps
    by (auto simp: applyStockEffects_def Let_def split: if_splits)
qed

lemma transition_off:
  assumes "transition newId s oid to act note w = (r, w')"
  shows "off_orders w' = off_orders w"
  using assms
proof (cases rule: transition_cases)
  case (kept t w1)
  have "off_orders w1 = off_orders w"
    using kept(2)
  proof (cases rule: transition_tx_Inr)
    case (moved o1 w2 w3)
    have "off_orders w1 = off_orders w2"
      using update_status_Inr [OF moved(7)] by (simp add: moved(8) insert_history_def off_orders_def emitIn_def)
    also have "\<dots> = off_orders w" by (rule off_orders_off_stock [OF stock_effects_off [OF moved(6)]])
    finally show ?thesis .
  qed simp
  then show ?thesis using off_orders_off_inbox [OF kept(3)] by simp
qed simp

lemmas transition_keeps = off_orders_keeps [OF transition_off]

text \<open>Rows of the order table keep their place, their identity and everything but status and deadline.\<close>

lemma transition_orders:
  assumes "transition newId s oid to act note w = (r, w')"
  shows "w_orders w' = w_orders w \<or> w_orders w' = changed_order s oid to (w_orders w)"
  using assms
proof (cases rule: transition_cases)
  case (kept t w1)
  have "w_orders w1 = w_orders w \<or> w_orders w1 = changed_order s oid to (w_orders w)"
    using kept(2)
  proof (cases rule: transition_tx_Inr)
    case (moved o1 w2 w3)
    then show ?thesis
      using update_status_Inr [OF moved(7)] off_stock_keeps(8) [OF stock_effects_off [OF moved(6)]]
      by (simp add: insert_history_def changed_order_def)
  qed simp
  then show ?thesis using off_inbox_keeps(3) [OF kept(3)] by simp
qed simp

lemma transition_order_keys:
  assumes "transition newId s oid to act note w = (r, w')"
    and "\<And>o1 st. g (set_status st o1) = g o1"
  shows "map g (w_orders w') = map g (w_orders w)"
  using transition_orders [OF assms(1)] assms(2)
  by (auto simp: changed_order_def map_update_where)

lemma set_status_keeps [simp]:
  "o_id (set_status st x) = o_id x" "o_store (set_status st x) = o_store x"
  "o_status (set_status st x) = st" "o_fulfillment (set_status st x) = o_fulfillment x"
  by (simp_all add: set_status_def)

lemma find_changed:
  "find (\<lambda>x. o_id x = oid \<and> o_store x = s) (changed_order s oid st rows) =
   map_option (set_status st) (find (\<lambda>x. o_id x = oid \<and> o_store x = s) rows)"
  by (induction rows) (auto simp: changed_order_def)

text \<open>Where the order is after a change of status that was accepted.\<close>

lemma transition_arrives:
  assumes "transition newId s oid to act note w = (Inr t, w')"
  shows "\<exists>o1. find_order s oid w' = Some o1 \<and> o_status o1 = to"
  using assms
proof (cases rule: transition_cases)
  case (kept t' w1)
  have "\<exists>o1. find_order s oid w1 = Some o1 \<and> o_status o1 = to"
    using kept(2)
  proof (cases rule: transition_tx_Inr)
    case (moved o1 w2 w3)
    have "w_orders w1 = changed_order s oid to (w_orders w)"
      using update_status_Inr [OF moved(7)] off_stock_keeps(8) [OF stock_effects_off [OF moved(6)]]
      by (simp add: moved(8) insert_history_def changed_order_def)
    then show ?thesis using moved(1) by (simp add: find_order_def find_changed)
  qed simp
  then show ?thesis using off_inbox_keeps(3) [OF kept(3)] by (simp add: find_order_def)
qed simp

end
