(* ===== verification/WebhookProps.thy ===== *)
theory WebhookProps
  imports Webhooks OrderFrame PaymentProps BillingProps
begin

text \<open>
  That hearing an event again changes nothing, what a card payment does to its order, and three
  ways the books and the payment company can come apart.
\<close>

section \<open>What a handler leaves alone\<close>

definition recorded :: "provider_event \<Rightarrow> world \<Rightarrow> bool" where
  "recorded ev w = (pe_id ev \<in> set (map se_event (w_events w)))"

abbreviation store_ids :: "world \<Rightarrow> string list" where
  "store_ids w \<equiv> map s_id (w_stores w)"

definition keeps_books :: "world \<Rightarrow> world \<Rightarrow> bool" where
  "keeps_books w w' = (w_events w' = w_events w \<and> store_ids w' = store_ids w)"

lemma keeps_books_refl [simp]: "keeps_books w w"
  by (simp add: keeps_books_def)

lemma keeps_books_trans: "keeps_books w1 w2 \<Longrightarrow> keeps_books w2 w3 \<Longrightarrow> keeps_books w1 w3"
  by (simp add: keeps_books_def)

lemma capture_payment_keeps:
  assumes "capture_payment s i w = (r, w')"
  shows "keeps_books w w'" "w_metrics w' = w_metrics w" "w_orders w' = w_orders w"
  using assms
  by (auto simp: capture_payment_def Let_def keeps_books_def retireSupersededPayments_def split: option.splits)

lemma onPaymentSucceeded_keeps: "keeps_books w (onPaymentSucceeded n ev st w)"
proof (cases st)
  case None
  then show ?thesis
    by (simp add: onPaymentSucceeded_def Let_def keeps_books_def unreconciled_def payment_outcome_def)
next
  case (Some s)
  define w0 where "w0 = payment_outcome ''STRIPE'' ''succeeded'' ''none'' w"
  have w0: "keeps_books w w0" by (simp add: w0_def keeps_books_def payment_outcome_def)
  obtain r w1 where cap: "capture_payment s (ed_id (pe_data ev)) w0 = (r, w1)" by (meson surj_pair)
  have w1: "keeps_books w w1" by (rule keeps_books_trans [OF w0 capture_payment_keeps(1) [OF cap]])
  show ?thesis
  proof (cases r)
    case None
    then show ?thesis
      using w1 cap by (simp add: onPaymentSucceeded_def Let_def Some w0_def [symmetric] unreconciled_def keeps_books_def)
  next
    case oid: (Some oid)
    obtain x w2 where tr: "transition n s oid CONFIRMED system_actor (Some ''Card payment received'') w1 = (x, w2)"
      by (meson surj_pair)
    have "keeps_books w w2" using transition_keeps [OF tr] w1 by (simp add: keeps_books_def)
    then show ?thesis
      using cap tr oid
      by (auto simp: onPaymentSucceeded_def Let_def Some w0_def [symmetric] flagIfStillUnconfirmed_def
          keeps_books_def unreconciled_def split: sum.splits option.splits)
  qed
qed

lemma reinstate_keeps: "keeps_books w (reinstateIfSuspendedForNonPayment i w)"
  by (auto simp: reinstateIfSuspendedForNonPayment_def keeps_books_def update_sub_def map_update_where
      split: option.splits)

lemma applyProviderStatus_keeps: "keeps_books w (snd (applyProviderStatus t p w))"
  using keeps_books_trans [OF _ reinstate_keeps, of w]
  by (auto simp: applyProviderStatus_def Let_def keeps_books_def split: option.splits)

lemma update_refunds_keeps:
  assumes "update_refunds hit f w = Inr w'"
  shows "keeps_books w w'"
proof -
  have step: "keeps_books v v'" if "set_refund_row r v = Inr v'" for r v v'
    using that by (auto simp: set_refund_row_def keeps_books_def)
  show ?thesis
    using foldE_inv [where P = "keeps_books w", OF _ assms [unfolded update_refunds_def]]
    by (auto intro: keeps_books_trans step)
qed

lemma dispatch_keeps:
  assumes "dispatch now n ev st w = Inr (b, w')"
  shows "keeps_books w w'"
proof -
  have refunds: "keeps_books w v" if "onRefundUpdated ev w = Inr v" for v
    using that by (auto simp: onRefundUpdated_def Let_def split: if_splits option.splits dest: update_refunds_keeps)
  have failed: "keeps_books w (onPaymentFailed ev st w)"
    by (simp add: onPaymentFailed_def Let_def keeps_books_def payment_outcome_def split: option.split)
  have account: "keeps_books w (onAccountUpdated now ev st w)"
    by (simp add: onAccountUpdated_def Let_def keeps_books_def update_store_def map_update_where split: option.split)
  have sub: "keeps_books w (onSubscriptionChanged now ev w)"
    by (simp add: onSubscriptionChanged_def Let_def applyProviderStatus_keeps split: option.split)
  show ?thesis
    using assms refunds failed account sub onPaymentSucceeded_keeps [of w n ev st]
    by (auto simp: dispatch_def Let_def split: if_splits)
qed

section \<open>Once is enough\<close>

definition store_known :: "provider_event \<Rightarrow> world \<Rightarrow> bool" where
  "store_known ev w =
     (case text_of (ed_store (pe_data ev)) of None \<Rightarrow> True | Some s \<Rightarrow> s \<in> set (store_ids w))"

lemma resolveStore_known:
  assumes "resolveStore ev w = Some s" and "store_known ev w"
  shows "s \<in> set (store_ids w)"
proof (cases "text_of (ed_store (pe_data ev))")
  case None
  then obtain x where "find (\<lambda>s. s_account s = Some (or_else (pe_account ev) (ed_id (pe_data ev)))) (w_stores w) = Some x"
    "s_id x = s"
    using assms(1) by (auto simp: resolveStore_def Let_def split: if_splits)
  then show ?thesis using findD by fastforce
next
  case (Some a)
  then show ?thesis using assms by (simp add: resolveStore_def store_known_def)
qed

lemma handle_replay:
  assumes "recorded ev w"
  shows "webhook_handle now n (Inr ev) w =
    (Inr \<lparr>wo_event = pe_id ev, wo_type = pe_type ev, wo_duplicate = True, wo_handled = False\<rparr>, w)"
proof -
  have "record_event ev st w = Inl (UniqueViolation ''stripe_events_event_id'')" for st
    using assms by (auto simp: record_event_def recorded_def)
  then show ?thesis by (simp add: webhook_handle_def Let_def)
qed

lemma record_event_Inr:
  assumes "store_known ev w" and "\<not> recorded ev w"
  obtains row where "record_event ev (resolveStore ev w) w = Inr (w\<lparr>w_events := w_events w @ [row]\<rparr>)"
    and "se_event row = pe_id ev"
proof -
  have "s \<in> s_id ` set (w_stores w)" if "resolveStore ev w = Some s" for s
    using resolveStore_known [OF that assms(1)] by simp
  moreover have "\<forall>x \<in> set (w_events w). se_event x \<noteq> pe_id ev"
    using assms(2) unfolding recorded_def by force
  ultimately show thesis
    by (intro that [of "\<lparr>se_event = pe_id ev, se_type = pe_type ev, se_store = resolveStore ev w,
        se_processed = False, se_error = None\<rparr>"])
      (auto simp: record_event_def recorded_def split: option.splits)
qed

lemma markProcessed_ids:
  "map se_event (w_events (markProcessed i e w)) = map se_event (w_events w)"
  "store_ids (markProcessed i e w) = store_ids w"
  by (simp_all add: markProcessed_def map_update_where)

lemma handle_first:
  assumes "store_known ev w" and "\<not> recorded ev w" and "webhook_handle now n (Inr ev) w = (out, w')"
  shows "map se_event (w_events w') = map se_event (w_events w) @ [pe_id ev]"
    and "store_ids w' = store_ids w"
proof -
  obtain row where rec: "record_event ev (resolveStore ev w) w = Inr (w\<lparr>w_events := w_events w @ [row]\<rparr>)"
    and row: "se_event row = pe_id ev"
    by (rule record_event_Inr [OF assms(1,2)])
  define w1 where "w1 = w\<lparr>w_events := w_events w @ [row]\<rparr>"
  have "map se_event (w_events w') = map se_event (w_events w1) \<and> store_ids w' = store_ids w1"
  proof (cases "dispatch now n ev (resolveStore ev w) w1")
    case (Inl e)
    then show ?thesis
      using assms(3) rec by (auto simp: webhook_handle_def Let_def w1_def [symmetric] markProcessed_ids)
  next
    case (Inr p)
    then obtain b w2 where d: "dispatch now n ev (resolveStore ev w) w1 = Inr (b, w2)" by (cases p) auto
    have "w' = markProcessed (pe_id ev) None w2"
      using assms(3) rec d by (auto simp: webhook_handle_def Let_def w1_def [symmetric])
    then show ?thesis using dispatch_keeps [OF d] by (simp add: markProcessed_ids keeps_books_def)
  qed
  then show "map se_event (w_events w') = map se_event (w_events w) @ [pe_id ev]"
    and "store_ids w' = store_ids w"
    using row by (simp_all add: w1_def)
qed

type_synonym delivery_of = "int \<times> string \<times> provider_event"

definition deliver_all :: "delivery_of list \<Rightarrow> world \<Rightarrow> world" where
  "deliver_all ds w = fold (\<lambda>(now, n, ev) w. snd (webhook_handle now n (Inr ev) w)) ds w"

text \<open>The stream with every event that has been seen before left out.\<close>

fun first_only :: "string list \<Rightarrow> delivery_of list \<Rightarrow> delivery_of list" where
  "first_only seen [] = []"
| "first_only seen ((now, n, ev) # ds) =
     (if pe_id ev \<in> set seen then first_only seen ds
      else (now, n, ev) # first_only (seen @ [pe_id ev]) ds)"

text \<open>
  Hearing a stream has exactly the effect of hearing only the first delivery of each event that
  was not on record before; and no event is on record twice.
\<close>

lemma deliver_first_only:
  assumes "\<forall>(now, n, ev) \<in> set ds. store_known ev w"
  shows "deliver_all ds w = deliver_all (first_only (map se_event (w_events w)) ds) w \<and>
    (distinct (map se_event (w_events w)) \<longrightarrow> distinct (map se_event (w_events (deliver_all ds w))))"
  using assms
proof (induction ds arbitrary: w)
  case Nil
  show ?case by (simp add: deliver_all_def)
next
  case (Cons d ds)
  obtain now n ev where d: "d = (now, n, ev)" by (cases d)
  obtain out w' where run: "webhook_handle now n (Inr ev) w = (out, w')" by (meson surj_pair)
  have step: "deliver_all (d # es) w = deliver_all es w'" for es
    using run by (simp add: deliver_all_def d)
  show ?case
  proof (cases "recorded ev w")
    case True
    then have same: "deliver_all (d # ds) w = deliver_all ds w" using run handle_replay step by simp
    have skip: "first_only (map se_event (w_events w)) (d # ds) = first_only (map se_event (w_events w)) ds"
      using True by (simp add: d recorded_def)
    have "\<forall>(now, n, ev) \<in> set ds. store_known ev w" using Cons.prems by simp
    from Cons.IH [OF this] show ?thesis unfolding same skip .
  next
    case False
    have known: "store_known ev w" using Cons.prems by (simp add: d)
    note first = handle_first [OF known False run]
    have "\<forall>(now, n, ev) \<in> set ds. store_known ev w'"
      using Cons.prems first(2) by (auto simp: store_known_def d split: option.splits)
    note IH = Cons.IH [OF this]
    show ?thesis
      using conjunct1 [OF IH] conjunct2 [OF IH] False
      by (intro conjI impI) (simp_all only: step first(1), simp_all add: d recorded_def step [unfolded d])
  qed
qed

text \<open>Every delivery of the stream, in turn, is answered without an error.\<close>

fun heard_well :: "delivery_of list \<Rightarrow> world \<Rightarrow> bool" where
  "heard_well [] w = True"
| "heard_well ((now, n, ev) # ds) w =
     (case webhook_handle now n (Inr ev) w of (out, w') \<Rightarrow> okE out \<and> heard_well ds w')"

definition all_processed :: "world \<Rightarrow> bool" where
  "all_processed w = list_all (\<lambda>x. se_processed x \<and> se_error x = None) (w_events w)"

lemma handle_processed:
  assumes "webhook_handle now n (Inr ev) w = (Inr out, w')" and "all_processed w"
  shows "all_processed w'" and "recorded ev w'" and "set (map se_event (w_events w)) \<subseteq> set (map se_event (w_events w'))"
proof -
  have "all_processed w' \<and> recorded ev w' \<and> set (map se_event (w_events w)) \<subseteq> set (map se_event (w_events w'))"
  proof (cases "record_event ev (resolveStore ev w) w")
    case (Inl e)
    then have "w' = w" "recorded ev w" using assms(1)
      by (auto simp: webhook_handle_def Let_def record_event_def recorded_def intro: rev_image_eqI
          split: if_splits)
    then show ?thesis using assms(2) by simp
  next
    case (Inr w1)
    then obtain b w2 where d: "dispatch now n ev (resolveStore ev w) w1 = Inr (b, w2)"
      and w': "w' = markProcessed (pe_id ev) None w2"
      using assms(1) by (auto simp: webhook_handle_def Let_def split: sum.splits prod.splits)
    obtain row where row: "w_events w1 = w_events w @ [row]" "se_event row = pe_id ev"
      using Inr by (auto simp: record_event_def split: if_splits)
    have "w_events w2 = w_events w @ [row]" using dispatch_keeps [OF d] row by (simp add: keeps_books_def)
    then show ?thesis
      using assms(2) row(2)
      by (auto simp: w' markProcessed_def all_processed_def recorded_def list_all_iff set_update_where
          image_Un map_update_where)
  qed
  then show "all_processed w'" and "recorded ev w'"
    and "set (map se_event (w_events w)) \<subseteq> set (map se_event (w_events w'))" by blast+
qed

lemma deliver_processed:
  assumes "heard_well ds w" and "all_processed w"
  shows "all_processed (deliver_all ds w) \<and> list_all (\<lambda>(now, n, ev). recorded ev (deliver_all ds w)) ds \<and>
    set (map se_event (w_events w)) \<subseteq> set (map se_event (w_events (deliver_all ds w)))"
  using assms
proof (induction ds arbitrary: w)
  case (Cons d ds)
  obtain now n ev where d: "d = (now, n, ev)" by (cases d)
  obtain out w' where run: "webhook_handle now n (Inr ev) w = (Inr out, w')" and well: "heard_well ds w'"
    using Cons.prems(1) by (cases "webhook_handle now n (Inr ev) w") (auto simp: d okE_iff)
  note step = handle_processed [OF run Cons.prems(2)]
  have "deliver_all (d # ds) w = deliver_all ds w'" using run by (simp add: deliver_all_def d)
  then show ?case using Cons.IH [OF well step(1)] step(2,3) by (auto simp: d recorded_def)
qed (simp add: deliver_all_def)

text \<open>
  C10. The payment company delivers every event at least once, in any order and as often as it
  likes.  While handling goes well, that is, while every delivery is answered without an error,
  hearing such a stream has exactly the effect of hearing only the first delivery of each event
  that was not on record before; every event of the stream is then on record, each once, handled
  and with no error.  (An event whose handling fails is a different matter, and one of the faults
  found.)
\<close>

theorem webhook_replays_harmless:
  assumes "list_all (\<lambda>(now, n, ev). store_known ev w) ds"
    and "heard_well ds w" and "all_processed w" and "distinct (map se_event (w_events w))"
  shows "deliver_all ds w = deliver_all (first_only (map se_event (w_events w)) ds) w \<and>
    list_all (\<lambda>(now, n, ev). recorded ev (deliver_all ds w)) ds \<and>
    distinct (map se_event (w_events (deliver_all ds w))) \<and> all_processed (deliver_all ds w)"
proof -
  have "\<forall>(now, n, ev) \<in> set ds. store_known ev w" using assms(1) by (simp add: list_all_iff)
  from deliver_first_only [OF this] deliver_processed [OF assms(2,3)] assms(4) show ?thesis by blast
qed

text \<open>What the examples below are about: a payment event and a refund event.\<close>

definition no_data :: event_data where
  "no_data = \<lparr>ed_id = [], ed_object = None, ed_status = None, ed_store = None, ed_error = None,
     ed_intent = None, ed_trial_end = None, ed_period_end = None, ed_item_period_end = None,
     ed_charges = None, ed_payouts = None, ed_details = None, ed_requirements = None\<rparr>"

definition intent_event :: "string \<Rightarrow> string \<Rightarrow> string \<Rightarrow> provider_event" where
  "intent_event i typ intent = \<lparr>pe_id = i, pe_type = typ, pe_account = None,
     pe_data = no_data\<lparr>ed_id := intent, ed_store := Some ''s1''\<rparr>\<rparr>"

definition refund_event :: "string \<Rightarrow> string \<Rightarrow> string \<Rightarrow> provider_event" where
  "refund_event i refund status = \<lparr>pe_id = i, pe_type = ''refund.updated'', pe_account = None,
     pe_data = no_data\<lparr>ed_id := refund, ed_object := Some ''refund'', ed_status := Some status\<rparr>\<rparr>"

theorem webhook_replays_harmless_witness:
  "let ev = intent_event ''evt_1'' ''payment_intent.payment_failed'' ''pi_p1'';
       w = sample_queue PENDING [sample_payment ''p1'' STRIPE PAY_REQUIRES_ACTION]
   in deliver_all [(1, ''n1'', ev), (2, ''n2'', ev), (3, ''n3'', ev)] w = deliver_all [(1, ''n1'', ev)] w \<and>
      map se_event (w_events (deliver_all [(1, ''n1'', ev)] w)) = [''evt_1'']"
proof -
  define ev where "ev = intent_event ''evt_1'' ''payment_intent.payment_failed'' ''pi_p1''"
  define w where "w = sample_queue PENDING [sample_payment ''p1'' STRIPE PAY_REQUIRES_ACTION]"
  have id: "pe_id ev = ''evt_1''" by (simp add: ev_def intent_event_def)
  have none: "w_events w = []" by (simp add: w_def sample_queue_def sample_shop_def empty_world_def)
  have known: "store_known ev w"
    by (simp add: store_known_def text_of_def ev_def intent_event_def no_data_def w_def sample_queue_def
        sample_shop_def sample_store_def)
  then have "list_all (\<lambda>(now, n, ev). store_known ev w)
      [(1 :: int, ''n1'', ev), (2, ''n2'', ev), (3, ''n3'', ev)]"
    by simp
  moreover have "heard_well [(1, ''n1'', ev), (2, ''n2'', ev), (3, ''n3'', ev)] w"
    unfolding ev_def w_def by code_simp
  moreover have "all_processed w" "distinct (map se_event (w_events w))"
    by (simp_all add: all_processed_def none)
  ultimately have "deliver_all [(1, ''n1'', ev), (2, ''n2'', ev), (3, ''n3'', ev)] w =
      deliver_all (first_only (map se_event (w_events w)) [(1, ''n1'', ev), (2, ''n2'', ev), (3, ''n3'', ev)]) w"
    by (rule webhook_replays_harmless [THEN conjunct1])
  then have "deliver_all [(1, ''n1'', ev), (2, ''n2'', ev), (3, ''n3'', ev)] w = deliver_all [(1, ''n1'', ev)] w"
    by (simp add: id none)
  moreover have "map se_event (w_events (deliver_all [(1, ''n1'', ev)] w)) = [''evt_1'']"
    using handle_first(1) [OF known, of 1 "''n1''"] none id
    by (cases "webhook_handle 1 ''n1'' (Inr ev) w") (simp add: deliver_all_def recorded_def)
  ultimately show ?thesis unfolding ev_def w_def by simp
qed

section \<open>A card payment\<close>

abbreviation counter :: "string \<Rightarrow> string list \<Rightarrow> metric" where
  "counter n ls \<equiv> \<lparr>me_name = n, me_labels = ls\<rparr>"

text \<open>The payments of an order once one of them has been captured.\<close>

definition settled_by :: "payment \<Rightarrow> payment \<Rightarrow> payment" where
  "settled_by p x =
     (if x = p then x\<lparr>p_status := PAY_SUCCEEDED\<rparr>
      else if p_order x = p_order p \<and> p_store x = p_store p \<and> p_status x \<noteq> PAY_SUCCEEDED
      then x\<lparr>p_status := PAY_CANCELED\<rparr>
      else x)"

lemma of_intent_unique:
  assumes "payments_ok ps" and "p \<in> set ps" and "x \<in> set ps" and "of_intent s i p" and "of_intent s i x"
  shows "x = p"
proof -
  have "p_id x = p_id p" using assms unfolding payments_ok_def of_intent_def by (metis option.distinct(1))
  then show ?thesis using assms distinct_map_eq [of p_id ps x p] by (simp add: payments_ok_def)
qed

lemma capture_payment_found:
  assumes "payments_ok (w_payments w)" and "p \<in> set (w_payments w)" and "of_intent s i p"
    and "capture_payment s i w = (r, w')"
  shows "r = Some (p_order p)" and "w_payments w' = map (settled_by p) (w_payments w)"
proof -
  have "find (of_intent s i) (w_payments w) = Some p"
  proof (cases "find (of_intent s i) (w_payments w)")
    case None
    then show ?thesis using assms(2,3) by (simp add: find_None_iff)
  next
    case (Some x)
    then show ?thesis using findD [OF Some] of_intent_unique [OF assms(1,2) _ assms(3)] by simp
  qed
  then have run: "r = Some (p_order p)"
    "w_payments w' = update_where (\<lambda>x. p_order x = p_order p \<and> p_store x = s \<and> p_status x \<noteq> PAY_SUCCEEDED)
      (\<lambda>x. x\<lparr>p_status := PAY_CANCELED\<rparr>)
      (update_where (of_intent s i) (\<lambda>x. x\<lparr>p_status := PAY_SUCCEEDED\<rparr>) (w_payments w))"
    using assms(4) by (auto simp: capture_payment_def Let_def retireSupersededPayments_def)
  then show "r = Some (p_order p)" by simp
  have store: "p_store p = s" using assms(3) by (simp add: of_intent_def)
  show "w_payments w' = map (settled_by p) (w_payments w)"
    unfolding run(2) update_where_def map_map
  proof (rule map_cong [OF refl])
    fix x assume "x \<in> set (w_payments w)"
    then have "of_intent s i x \<longleftrightarrow> x = p" using of_intent_unique [OF assms(1,2) _ assms(3)] assms(3) by auto
    then show "((\<lambda>x. if p_order x = p_order p \<and> p_store x = s \<and> p_status x \<noteq> PAY_SUCCEEDED
        then x\<lparr>p_status := PAY_CANCELED\<rparr> else x) \<circ>
        (\<lambda>x. if of_intent s i x then x\<lparr>p_status := PAY_SUCCEEDED\<rparr> else x)) x = settled_by p x"
      by (auto simp: settled_by_def store)
  qed
qed

lemma canTransition_CONFIRMED: "canTransition st CONFIRMED \<longleftrightarrow> st = PENDING"
  by (cases st) (simp_all add: canTransition_def)

lemma confirm_cases:
  assumes "transition n s oid CONFIRMED act note w = (x, w')" and "find_order s oid w = Some o1"
  obtains (refused) e where "x = Inl e" and "w' = w"
  | (there) t where "x = Inr t" and "o_status o1 = CONFIRMED" and "w_orders w' = w_orders w"
  | (moved) t where "x = Inr t" and "o_status o1 = PENDING"
  using assms(1)
proof (cases rule: transition_cases)
  case (kept t w1)
  from kept(2) show thesis
  proof (cases rule: transition_tx_Inr)
    case (same o2)
    then show thesis using there [OF kept(1)] assms(2) off_inbox_keeps(3) [OF kept(3)] by simp
  next
    case (moved o2 w2 w3)
    then show thesis using that(3) [OF kept(1)] assms(2) canTransition_CONFIRMED by simp
  qed
qed (rule refused)

text \<open>The general case, whatever the state of the order.\<close>

lemma card_payment_effect:
  assumes "webhook_handle now n (Inr ev) w = (out, w')"
    and "pe_type ev = ''payment_intent.succeeded''" and "\<not> recorded ev w" and "store_known ev w"
    and "resolveStore ev w = Some s" and "payments_ok (w_payments w)"
    and "p \<in> set (w_payments w)" and "of_intent s (ed_id (pe_data ev)) p"
    and "find_order s (p_order p) w = Some o1"
  shows "okE out \<and> w_payments w' = map (settled_by p) (w_payments w) \<and>
    (\<exists>o2. find_order s (p_order p) w' = Some o2 \<and>
      (if o_status o1 = PENDING
       then o_status o2 = CONFIRMED \<or>
         (o2 = o1 \<and> w_metrics w' = w_metrics w @
            [counter ''payment_outcomes_total'' [''STRIPE'', ''succeeded'', ''none''],
             counter ''payments_unreconciled_total'' [''confirm_failed'']])
       else o2 = o1 \<and> w_metrics w' = w_metrics w @
            [counter ''payment_outcomes_total'' [''STRIPE'', ''succeeded'', ''none'']]))"
proof -
  obtain row where rec: "record_event ev (Some s) w = Inr (w\<lparr>w_events := w_events w @ [row]\<rparr>)"
    using record_event_Inr [OF assms(4,3)] assms(5) by metis
  define w0 where "w0 = payment_outcome ''STRIPE'' ''succeeded'' ''none'' (w\<lparr>w_events := w_events w @ [row]\<rparr>)"
  have w0: "w_payments w0 = w_payments w" "w_orders w0 = w_orders w"
    "w_metrics w0 = w_metrics w @ [counter ''payment_outcomes_total'' [''STRIPE'', ''succeeded'', ''none'']]"
    by (simp_all add: w0_def payment_outcome_def inc_def)
  obtain r w1 where cap: "capture_payment s (ed_id (pe_data ev)) w0 = (r, w1)" by (meson surj_pair)
  have found: "r = Some (p_order p)" "w_payments w1 = map (settled_by p) (w_payments w)"
    using capture_payment_found [OF _ _ assms(8) cap] assms(6,7) by (simp_all add: w0)
  note kept1 = capture_payment_keeps [OF cap]
  obtain x w2 where tr: "transition n s (p_order p) CONFIRMED system_actor (Some ''Card payment received'') w1 = (x, w2)"
    by (meson surj_pair)
  define w3 where "w3 = (case x of Inr _ \<Rightarrow> w2 | Inl _ \<Rightarrow> flagIfStillUnconfirmed s (p_order p) w2)"
  have run: "okE out" "w' = markProcessed (pe_id ev) None w3"
    using assms(1,2,5) rec cap found(1) tr
    by (auto simp: webhook_handle_def Let_def dispatch_def onPaymentSucceeded_def w0_def [symmetric] w3_def
        split: sum.splits)
  have same: "w_payments w' = w_payments w3" "w_metrics w' = w_metrics w3" "w_orders w' = w_orders w3"
    by (simp_all add: run(2) markProcessed_def)
  have o1: "find_order s (p_order p) w1 = Some o1"
    using assms(9) kept1(3) by (simp add: find_order_def w0)
  have pays: "w_payments w3 = w_payments w1"
    using transition_keeps(3) [OF tr]
    by (auto simp: w3_def flagIfStillUnconfirmed_def unreconciled_def split: sum.split option.split)
  have "\<exists>o2. find_order s (p_order p) w3 = Some o2 \<and>
      (if o_status o1 = PENDING
       then o_status o2 = CONFIRMED \<or> (o2 = o1 \<and> w_metrics w3 = w_metrics w0 @
             [counter ''payments_unreconciled_total'' [''confirm_failed'']])
       else o2 = o1 \<and> w_metrics w3 = w_metrics w0)"
    using tr o1
  proof (cases rule: confirm_cases)
    case (refused e)
    then show ?thesis
      using o1 kept1 by (auto simp: w3_def flagIfStillUnconfirmed_def unreconciled_def inc_def find_order_def)
  next
    case (there t)
    then show ?thesis
      using o1 kept1 transition_keeps(12) [OF tr] by (simp add: w3_def find_order_def)
  next
    case (moved t)
    then obtain o2 where "find_order s (p_order p) w2 = Some o2" "o_status o2 = CONFIRMED"
      using transition_arrives [of n s "p_order p" CONFIRMED] tr by blast
    then show ?thesis using moved by (simp add: w3_def)
  qed
  then show ?thesis
    using run(1) same pays found(2) by (auto simp: find_order_def w0)
qed

text \<open>
  C9. When the payment company reports a card payment for an intent on record, of an order that
  has not been cancelled, that payment is marked as succeeded and every other unsettled payment of
  the order is retired, the other orders' payments staying as they are.  A pending order is then
  confirmed, or it is still pending and the payment is counted as one that needs a human; an order
  that had been confirmed before stays as it is and nothing needs reconciling.
\<close>

theorem card_payment_settles_order:
  assumes "webhook_handle now n (Inr ev) w = (out, w')"
    and "pe_type ev = ''payment_intent.succeeded''" and "\<not> recorded ev w" and "store_known ev w"
    and "resolveStore ev w = Some s" and "payments_ok (w_payments w)"
    and "p \<in> set (w_payments w)" and "of_intent s (ed_id (pe_data ev)) p"
    and "find_order s (p_order p) w = Some o1" and "o_status o1 \<noteq> CANCELLED"
  shows "okE out \<and> w_payments w' = map (settled_by p) (w_payments w) \<and>
    (\<exists>o2. find_order s (p_order p) w' = Some o2 \<and>
      (if o_status o1 = PENDING
       then o_status o2 = CONFIRMED \<or>
         (o2 = o1 \<and> w_metrics w' = w_metrics w @
            [counter ''payment_outcomes_total'' [''STRIPE'', ''succeeded'', ''none''],
             counter ''payments_unreconciled_total'' [''confirm_failed'']])
       else o2 = o1 \<and> w_metrics w' = w_metrics w @
            [counter ''payment_outcomes_total'' [''STRIPE'', ''succeeded'', ''none'']]))"
  by (rule card_payment_effect [OF assms(1-9)])

text \<open>A charge on an order that was cancelled meanwhile is one nobody is told of.\<close>

lemma charge_after_cancellation_uncounted:
  assumes "webhook_handle now n (Inr ev) w = (out, w')"
    and "pe_type ev = ''payment_intent.succeeded''" and "\<not> recorded ev w" and "store_known ev w"
    and "resolveStore ev w = Some s" and "payments_ok (w_payments w)"
    and "p \<in> set (w_payments w)" and "of_intent s (ed_id (pe_data ev)) p"
    and "find_order s (p_order p) w = Some o1" and "o_status o1 = CANCELLED"
  shows "find_order s (p_order p) w' = Some o1 \<and> w_metrics w' = w_metrics w @
    [counter ''payment_outcomes_total'' [''STRIPE'', ''succeeded'', ''none'']]"
  using card_payment_effect [OF assms(1-9)] assms(10) by auto

theorem card_payment_settles_order_witness:
  "\<exists>out w'. webhook_handle 5 ''n1''
       (Inr (intent_event ''evt_1'' ''payment_intent.succeeded'' ''pi_p2''))
       (sample_queue PENDING [sample_payment ''p1'' CASH PAY_PROCESSING,
          sample_payment ''p2'' STRIPE PAY_REQUIRES_ACTION]) = (out, w') \<and> okE out \<and>
     map p_status (w_payments w') = [PAY_CANCELED, PAY_SUCCEEDED]"
proof -
  define ev where "ev = intent_event ''evt_1'' ''payment_intent.succeeded'' ''pi_p2''"
  define w where "w = sample_queue PENDING [sample_payment ''p1'' CASH PAY_PROCESSING,
          sample_payment ''p2'' STRIPE PAY_REQUIRES_ACTION]"
  obtain out w' where run: "webhook_handle 5 ''n1'' (Inr ev) w = (out, w')" by (meson surj_pair)
  have "pe_type ev = ''payment_intent.succeeded''" by (simp add: ev_def intent_event_def)
  moreover have "\<not> recorded ev w"
    by (simp add: recorded_def w_def sample_queue_def sample_shop_def empty_world_def)
  moreover have "store_known ev w" "resolveStore ev w = Some ''s1''"
    by (simp_all add: store_known_def resolveStore_def text_of_def ev_def intent_event_def no_data_def
        w_def sample_queue_def sample_shop_def sample_store_def)
  moreover have "payments_ok (w_payments w)"
    by (simp add: w_def sample_queue_def payments_ok_def sample_payment_def fits_int4_def)
  moreover have p: "sample_payment ''p2'' STRIPE PAY_REQUIRES_ACTION \<in> set (w_payments w)"
    by (simp add: w_def sample_queue_def)
  moreover have "of_intent ''s1'' (ed_id (pe_data ev)) (sample_payment ''p2'' STRIPE PAY_REQUIRES_ACTION)"
    by (simp add: of_intent_def sample_payment_def ev_def intent_event_def)
  moreover have "o_status (sample_order PENDING) \<noteq> CANCELLED" by (simp add: sample_order_def)
  moreover have "find_order ''s1'' (p_order (sample_payment ''p2'' STRIPE PAY_REQUIRES_ACTION)) w =
      Some (sample_order PENDING)"
    by (simp add: find_order_def sample_payment_def w_def sample_queue_def sample_order_def)
  ultimately have "okE out" "w_payments w' = map (settled_by (sample_payment ''p2'' STRIPE PAY_REQUIRES_ACTION)) (w_payments w)"
    using card_payment_settles_order [OF run] by blast+
  then show ?thesis
    using run unfolding ev_def w_def
    by (intro exI [of _ out] exI [of _ w']) (simp add: sample_queue_def settled_by_def sample_payment_def)
qed

section \<open>Where the books and the company come apart\<close>

text \<open>
  An event whose handling fails is answered with an error so that it is sent again, but it is on
  record by then: the second delivery is taken for a replay and never handled.
\<close>

theorem failed_webhook_lost:
  assumes "store_known ev w" and "\<not> recorded ev w" and "webhook_handle now n (Inr ev) w = (Inl e, w1)"
  shows "webhook_handle now' n' (Inr ev) w1 =
    (Inr \<lparr>wo_event = pe_id ev, wo_type = pe_type ev, wo_duplicate = True, wo_handled = False\<rparr>, w1)"
  using handle_first(1) [OF assms] by (intro handle_replay) (simp add: recorded_def)

definition sample_refund :: "string \<Rightarrow> int \<Rightarrow> refund_status \<Rightarrow> refund" where
  "sample_refund i amount st = \<lparr>r_id = i, r_store = ''s1'', r_payment = ''p2'', r_amount = amount,
     r_reason = None, r_note = None, r_status = st, r_stripe = Some (''re_'' @ i), r_actor = None,
     r_created = 0\<rparr>"

text \<open>
  It happens: a refund reported as failed, a second one made in its place, and then a late report
  that the first went through after all.
\<close>

theorem failed_webhook_lost_example:
  "\<exists>e. fst (webhook_handle 5 ''n1'' (Inr (refund_event ''evt_9'' ''re_r1'' ''succeeded''))
       (sample_card_paid\<lparr>w_refunds := [sample_refund ''r1'' 700 RF_FAILED, sample_refund ''r2'' 600 RF_PENDING]\<rparr>)) =
     Inl (TriggerRaised e)"
  by (rule exI [of _ "''Refunds would exceed the captured amount''"]) code_simp

text \<open>
  A report of a failed attempt that arrives after the payment has succeeded marks the payment as
  failed, so that the order no longer counts as paid and the payment can no longer be refunded.
\<close>

theorem late_failure_downgrades:
  assumes "p \<in> set (w_payments w)" and "of_intent s (ed_id (pe_data ev)) p"
  shows "\<exists>x \<in> set (w_payments (onPaymentFailed ev (Some s) w)). p_id x = p_id p \<and> p_status x = PAY_FAILED"
proof -
  define f where "f = (\<lambda>p :: payment. p\<lparr>p_status := PAY_FAILED, p_failure := Some (or_else (Option.bind
    (ed_error (pe_data ev)) le_message) ''Card declined'')\<rparr>)"
  have "f p \<in> set (w_payments (onPaymentFailed ev (Some s) w))"
    using assms by (auto simp: onPaymentFailed_def Let_def payment_outcome_def f_def intro: in_update_where)
  then show ?thesis by (rule bexI [rotated]) (simp add: f_def)
qed

theorem late_failure_example:
  "let w = sample_queue CONFIRMED [sample_payment ''p2'' STRIPE PAY_SUCCEEDED];
       w' = snd (webhook_handle 5 ''n1'' (Inr (intent_event ''evt_3'' ''payment_intent.payment_failed'' ''pi_p2'')) w)
   in is_paid w ''o1'' \<and> \<not> is_paid w' ''o1'' \<and> captured_payment ''s1'' ''o1'' w' = None"
proof -
  define w where "w = sample_queue CONFIRMED [sample_payment ''p2'' STRIPE PAY_SUCCEEDED]"
  define w' where "w' = snd (webhook_handle 5 ''n1''
    (Inr (intent_event ''evt_3'' ''payment_intent.payment_failed'' ''pi_p2'')) w)"
  have "map p_status (w_payments w') = [PAY_FAILED]" unfolding w'_def w_def by code_simp
  then obtain x where x: "w_payments w' = [x]" "p_status x = PAY_FAILED" by auto
  have "is_paid w ''o1''" by (simp add: is_paid_def w_def sample_queue_def sample_payment_def)
  then show ?thesis
    unfolding w'_def [symmetric] w_def [symmetric] Let_def
    by (simp add: x is_paid_def captured_payment_def)
qed

end
