(* ===== verification/Dunning.thy ===== *)
theory Dunning
  imports BillingProps Notifications
begin

text \<open>
  \<open>DunningService\<close> (\<open>modules/billing/dunning.service.ts\<close>) with the unique index of migration 15:
  telling the owner of an unpaid store, once per stage of the episode, before and after the store
  goes offline.  The owners' addresses and the origin of the web application are parameters, and
  so is whether the mailer takes a message; the mail table keeps address and subject.
\<close>

section \<open>When\<close>

definition SCHEDULE :: "(dunning_stage \<times> int) list" where
  "SCHEDULE = [(PAYMENT_FAILED, 0), (GRACE_REMINDER, 3), (FINAL_WARNING, GRACE_PERIOD_DAYS - 1)]"

record candidate =
  cd_store :: string
  cd_owner :: string
  cd_name :: string
  cd_email :: string
  cd_since :: int
  cd_suspended :: "int option"
  cd_sent :: "dunning_stage list"

definition sent_stages :: "string \<Rightarrow> int \<Rightarrow> world \<Rightarrow> dunning_stage list" where
  "sent_stages storeId since w =
     map bn_stage (filter (\<lambda>n. bn_store n = storeId \<and> bn_since n = since) (w_notices w))"

definition candidate_of :: "(string \<Rightarrow> string option) \<Rightarrow> world \<Rightarrow> subscription \<Rightarrow> candidate option" where
  "candidate_of email w b =
     (case (sb_past_due_since b, find_store (sb_store b) w) of
        (Some since, Some s) \<Rightarrow>
          (case email (s_owner s) of
             None \<Rightarrow> None
           | Some addr \<Rightarrow>
               if sb_status b \<noteq> SUB_PAST_DUE then None
               else Some \<lparr>cd_store = sb_store b, cd_owner = s_owner s, cd_name = s_name s,
                      cd_email = addr, cd_since = since, cd_suspended = sb_suspended_at b,
                      cd_sent = sent_stages (sb_store b) since w\<rparr>)
      | _ \<Rightarrow> None)"

definition candidates :: "(string \<Rightarrow> string option) \<Rightarrow> world \<Rightarrow> candidate list" where
  "candidates email w = take 200 (List.map_filter (candidate_of email w) (w_subs w))"

definition dueStage :: "int \<Rightarrow> candidate \<Rightarrow> dunning_stage option" where
  "dueStage now c =
     (if cd_suspended c \<noteq> None then Some STAGE_SUSPENDED
      else foldl (\<lambda>due (stage, days). if now - cd_since c \<ge> days * DAY_MS then Some stage else due)
             None SCHEDULE)"

section \<open>What\<close>

abbreviation nl :: string where "nl \<equiv> [CHR 0x0A]"

fun subjectFor :: "dunning_stage \<Rightarrow> string \<Rightarrow> int \<Rightarrow> string" where
  "subjectFor PAYMENT_FAILED name days = ''We couldn't take payment for '' @ name"
| "subjectFor GRACE_REMINDER name days = name @ '': your payment is still outstanding''"
| "subjectFor FINAL_WARNING name days =
     (if days \<le> 1 then name @ '' goes offline tomorrow''
      else name @ '' goes offline in '' @ show_int days @ '' days'')"
| "subjectFor STAGE_SUSPENDED name days = name @ '' is now offline''"

definition fix_line :: "string \<Rightarrow> string" where
  "fix_line url = ''Update your card here:'' @ nl @ url @ nl @ nl"

definition reassurance :: string where
  "reassurance = ''Nothing has been deleted. Your products, orders and customers are all exactly as you left them.'' @ nl"

fun bodyFor :: "dunning_stage \<Rightarrow> string \<Rightarrow> int \<Rightarrow> string \<Rightarrow> string" where
  "bodyFor PAYMENT_FAILED name days url =
     ''Your last payment for '' @ name @ '' didn't go through.'' @ nl @ nl @
     ''This is usually an expired or replaced card. '' @ name @
     '' is still open and taking orders - nothing has changed for your customers yet.'' @ nl @ nl @
     fix_line url @
     ''If it isn't sorted within '' @ show_int GRACE_PERIOD_DAYS @
     '' days your storefront will be hidden, and we'll write again before that happens.'' @ nl"
| "bodyFor GRACE_REMINDER name days url =
     ''We still haven't been able to take payment for '' @ name @ ''.'' @ nl @ nl @
     ''Your shop is open as normal for now. '' @
     (if days = 1 then ''You have 1 day'' else ''You have '' @ show_int days @ '' days'') @
     '' left before the storefront is hidden from customers.'' @ nl @ nl @ fix_line url"
| "bodyFor FINAL_WARNING name days url =
     ''This is the last reminder before '' @ name @ '' goes offline.'' @ nl @ nl @
     (if days \<le> 1 then ''Tomorrow'' else ''In '' @ show_int days @ '' days'') @
     '' your storefront will stop being visible to customers, and your staff won't be able to sign in.'' @
     nl @ nl @ fix_line url @ reassurance @ ''Paying puts everything back within a few minutes.'' @ nl"
| "bodyFor STAGE_SUSPENDED name days url =
     name @ '' is no longer visible to customers, because the subscription is unpaid.'' @ nl @ nl @
     reassurance @ nl @ fix_line url @
     ''As soon as the payment goes through your shop comes back on, exactly as it was.'' @ nl"

text \<open>One trailing slash of the origin is dropped.\<close>

definition billingUrl :: "string \<Rightarrow> string \<Rightarrow> string" where
  "billingUrl origin storeId =
     (if origin \<noteq> [] \<and> last origin = CHR ''/'' then butlast origin else origin) @
     ''/store/'' @ storeId @ ''/ops/settings''"

section \<open>Telling\<close>

definition days_left :: "int \<Rightarrow> candidate \<Rightarrow> int" where
  "days_left now c = max 0 (js_ceil_div (cd_since c + GRACE_PERIOD_DAYS * DAY_MS - now) DAY_MS)"

text \<open>\<open>INSERT ... SELECT\<close> from the subscription's row; a clash with the unique index is ignored.\<close>

definition record_notice :: "candidate \<Rightarrow> dunning_stage \<Rightarrow> world \<Rightarrow> world" where
  "record_notice c stage w =
     (case Option.bind (find_sub (cd_store c) w) sb_past_due_since of
        None \<Rightarrow> w
      | Some since \<Rightarrow>
          if \<exists>n \<in> set (w_notices w). bn_store n = cd_store c \<and> bn_since n = since \<and> bn_stage n = stage
          then w
          else w\<lparr>w_notices := w_notices w @ [\<lparr>bn_store = cd_store c, bn_since = since,
                 bn_stage = stage, bn_to = cd_email c\<rparr>]\<rparr>)"

definition notify ::
    "string \<Rightarrow> (string \<Rightarrow> bool) \<Rightarrow> string \<Rightarrow> int \<Rightarrow> candidate \<Rightarrow> dunning_stage \<Rightarrow> world \<Rightarrow> bool \<times> world" where
  "notify origin takes newId now c stage w =
     (let title = subjectFor stage (cd_name c) (days_left now c);
          body = bodyFor stage (cd_name c) (days_left now c) (billingUrl origin (cd_store c));
          w1 = deliver \<lparr>nb_id = newId, nb_user = cd_owner c, nb_store = Some (cd_store c),
                 nb_event = ''subscription.payment_failed'', nb_title = title, nb_body = body,
                 nb_link = Some (''/store/'' @ cd_store c @ ''/ops/settings''), nb_read = None\<rparr> w
      in if \<not> takes (cd_email c) then (False, w1)
         else (True, record_notice c stage (w1\<lparr>w_mail := w_mail w1 @ [(cd_email c, title)]\<rparr>)))"

definition dun_one ::
    "string \<Rightarrow> (string \<Rightarrow> bool) \<Rightarrow> (string \<Rightarrow> string) \<Rightarrow> int \<Rightarrow> candidate \<Rightarrow> nat \<times> world \<Rightarrow> nat \<times> world" where
  "dun_one origin takes newIds now c st =
     (case st of (sent, w) \<Rightarrow>
        (case dueStage now c of
           None \<Rightarrow> (sent, w)
         | Some stage \<Rightarrow>
             if stage \<in> set (cd_sent c) then (sent, w)
             else case notify origin takes (newIds (cd_store c)) now c stage w of
               (ok, w1) \<Rightarrow> (if ok then sent + 1 else sent, w1)))"

definition dunning_run ::
    "(string \<Rightarrow> string option) \<Rightarrow> string \<Rightarrow> (string \<Rightarrow> bool) \<Rightarrow> (string \<Rightarrow> string) \<Rightarrow> int \<Rightarrow> world \<Rightarrow> nat \<times> world" where
  "dunning_run email origin takes newIds now w =
     fold (dun_one origin takes newIds now) (candidates email w) (0, w)"

section \<open>Once per stage\<close>

lemma notify_keeps:
  assumes "notify origin takes i now c stage w = (ok, w')"
  shows "w_subs w' = w_subs w \<and> w_stores w' = w_stores w \<and> set (w_notices w) \<subseteq> set (w_notices w') \<and>
    ok = takes (cd_email c) \<and> (\<not> ok \<longrightarrow> w_mail w' = w_mail w)"
  using assms
  by (auto simp: notify_def Let_def record_notice_def deliver_def split: if_splits option.splits)

lemma notify_records:
  assumes "notify origin takes i now c stage w = (True, w')"
    and "Option.bind (find_sub (cd_store c) w) sb_past_due_since = Some since"
  shows "stage \<in> set (sent_stages (cd_store c) since w')"
proof -
  have "\<exists>n \<in> set (w_notices w'). bn_store n = cd_store c \<and> bn_since n = since \<and> bn_stage n = stage"
    using assms
    by (auto simp: notify_def Let_def record_notice_def deliver_def find_sub_def split: if_splits)
  then show ?thesis by (force simp: sent_stages_def)
qed

lemma candidate_ofD:
  assumes "candidate_of email w b = Some c"
  shows "cd_store c = sb_store b" and "sb_past_due_since b = Some (cd_since c)"
    and "cd_sent c = sent_stages (cd_store c) (cd_since c) w" and "sb_status b = SUB_PAST_DUE"
  using assms by (auto simp: candidate_of_def split: option.splits if_splits)

lemma candidate_sub:
  assumes "subs_inv w" and "c \<in> set (candidates email w)"
  obtains b where "b \<in> set (w_subs w)" and "candidate_of email w b = Some c"
    and "Option.bind (find_sub (cd_store c) w) sb_past_due_since = Some (cd_since c)"
proof -
  have "c \<in> set (List.map_filter (candidate_of email w) (w_subs w))"
    using assms(2) set_take_subset unfolding candidates_def by fastforce
  then obtain b where b: "b \<in> set (w_subs w)" "candidate_of email w b = Some c"
    by (auto simp: map_filter_def)
  have "find_sub (cd_store c) w = Some b"
    using find_unique [of sb_store "w_subs w" b] assms(1) b candidate_ofD(1) [OF b(2)]
    by (simp add: find_sub_def subs_inv_def)
  then show thesis using that [OF b] candidate_ofD(2) [OF b(2)] by simp
qed

text \<open>What a pass over any list of candidates leaves behind.\<close>

lemma dun_fold:
  assumes "fold (dun_one origin takes newIds now) cs (k, w) = (k', w')"
  shows "w_subs w' = w_subs w \<and> w_stores w' = w_stores w \<and> set (w_notices w) \<subseteq> set (w_notices w') \<and> k \<le> k'"
  using assms
proof (induction cs arbitrary: k w)
  case Nil
  then show ?case by simp
next
  case (Cons c cs)
  obtain k1 w1 where one: "dun_one origin takes newIds now c (k, w) = (k1, w1)" by (meson surj_pair)
  have "w_subs w1 = w_subs w \<and> w_stores w1 = w_stores w \<and> set (w_notices w) \<subseteq> set (w_notices w1) \<and> k \<le> k1"
    using one notify_keeps [of origin takes _ now c _ w]
    by (auto simp: dun_one_def split: option.splits if_splits prod.splits)
  then show ?case using Cons.IH [of k1 w1] Cons.prems one by fastforce
qed

lemma sent_stages_mono:
  "set (w_notices w) \<subseteq> set (w_notices w') \<Longrightarrow> set (sent_stages s t w) \<subseteq> set (sent_stages s t w')"
  by (auto simp: sent_stages_def)

lemma dun_fold_records:
  assumes "fold (dun_one origin takes newIds now) cs (k, w) = (k', w')"
    and "c \<in> set cs" and "dueStage now c = Some stage" and "stage \<notin> set (cd_sent c)"
    and "takes (cd_email c)"
    and "Option.bind (find_sub (cd_store c) w) sb_past_due_since = Some since"
  shows "stage \<in> set (sent_stages (cd_store c) since w')"
  using assms(1,2,6)
proof (induction cs arbitrary: k w)
  case (Cons d cs)
  obtain k1 w1 where one: "dun_one origin takes newIds now d (k, w) = (k1, w1)" by (meson surj_pair)
  have rest: "fold (dun_one origin takes newIds now) cs (k1, w1) = (k', w')" using Cons.prems(1) one by simp
  have keeps: "w_subs w1 = w_subs w"
    using dun_fold [of origin takes newIds now "[d]" k w k1 w1] one by simp
  show ?case
  proof (cases "c = d")
    case True
    obtain ok w2 where n: "notify origin takes (newIds (cd_store c)) now c stage w = (ok, w2)"
      by (meson surj_pair)
    have "ok" using notify_keeps [OF n] assms(5) by simp
    then have "stage \<in> set (sent_stages (cd_store c) since w1)"
      using one n assms(3,4) notify_records [OF _ Cons.prems(3)] by (simp add: dun_one_def True)
    then show ?thesis using sent_stages_mono dun_fold [OF rest] by blast
  next
    case False
    then show ?thesis
      using Cons.IH [OF rest] Cons.prems(2,3) keeps by (simp add: find_sub_def)
  qed
qed simp

text \<open>
  The stage an unpaid store has reached, read off the days gone by: nothing before the payment
  failed, then the first notice, from the third day the reminder, from the day before the grace
  period ends the last warning, and once the store is suspended that.
\<close>

definition latest_stage :: "int \<Rightarrow> candidate \<Rightarrow> dunning_stage option" where
  "latest_stage now c =
     (let gone = now - cd_since c in
      if cd_suspended c \<noteq> None then Some STAGE_SUSPENDED
      else if gone < 0 then None
      else if gone < 3 * DAY_MS then Some PAYMENT_FAILED
      else if gone < (GRACE_PERIOD_DAYS - 1) * DAY_MS then Some GRACE_REMINDER
      else Some FINAL_WARNING)"

lemma dueStage_latest: "dueStage now c = latest_stage now c"
  by (simp add: dueStage_def latest_stage_def SCHEDULE_def GRACE_PERIOD_DAYS_def DAY_MS_def Let_def)

text \<open>The mail a pass owes to a candidate, if any.\<close>

definition due_mail :: "int \<Rightarrow> (string \<Rightarrow> bool) \<Rightarrow> candidate \<Rightarrow> (string \<times> string) option" where
  "due_mail now takes c =
     (case latest_stage now c of
        None \<Rightarrow> None
      | Some stage \<Rightarrow>
          if stage \<in> set (cd_sent c) \<or> \<not> takes (cd_email c) then None
          else Some (cd_email c, subjectFor stage (cd_name c) (days_left now c)))"

lemma dun_fold_mails:
  assumes "fold (dun_one origin takes newIds now) cs (k, w) = (k', w')"
  shows "w_mail w' = w_mail w @ List.map_filter (due_mail now takes) cs \<and>
    k' = k + length (List.map_filter (due_mail now takes) cs)"
  using assms
proof (induction cs arbitrary: k w)
  case Nil
  then show ?case by (simp add: map_filter_simps)
next
  case (Cons c cs)
  obtain k1 w1 where one: "dun_one origin takes newIds now c (k, w) = (k1, w1)" by (meson surj_pair)
  then have rest: "fold (dun_one origin takes newIds now) cs (k1, w1) = (k', w')" using Cons.prems by simp
  have "w_mail w1 = w_mail w @ (case due_mail now takes c of None \<Rightarrow> [] | Some m \<Rightarrow> [m]) \<and>
      k1 = k + (case due_mail now takes c of None \<Rightarrow> 0 | Some _ \<Rightarrow> 1)"
    using one
    by (auto simp: dun_one_def notify_def Let_def record_notice_def deliver_def due_mail_def
        dueStage_latest split: option.splits if_splits)
  then show ?case using Cons.IH [OF rest] by (auto simp: map_filter_simps split: option.splits)
qed

lemma candidates_again:
  assumes "w_subs w' = w_subs w" and "w_stores w' = w_stores w"
  shows "candidates email w' =
    map (\<lambda>c. c\<lparr>cd_sent := sent_stages (cd_store c) (cd_since c) w'\<rparr>) (candidates email w)"
proof -
  have one: "candidate_of email w' b =
      map_option (\<lambda>c. c\<lparr>cd_sent := sent_stages (cd_store c) (cd_since c) w'\<rparr>) (candidate_of email w b)" for b
    by (simp add: candidate_of_def find_store_def assms(2) split: option.split)
  have "List.map_filter (candidate_of email w') rows =
      map (\<lambda>c. c\<lparr>cd_sent := sent_stages (cd_store c) (cd_since c) w'\<rparr>)
        (List.map_filter (candidate_of email w) rows)" for rows
    by (induction rows) (simp_all add: one map_filter_simps split: option.split)
  then show ?thesis by (simp add: candidates_def assms(1) take_map)
qed

text \<open>
  C27. A pass mails the owners of unpaid stores only (the first two hundred), and each exactly
  when the latest stage the store has reached, by the days since the payment failed or by its
  suspension, has not been announced in this episode and the mailer takes the address: one mail,
  about that stage.  What was mailed is on record, so that no mail is sent twice: whatever the
  clock says at a second pass, a stage it mails about was not on record when the first
  began, and if it was due in the first pass already the mailer had refused the address.  (The
  notice in the application goes out before the mail, again with each attempt.)
\<close>

theorem dunning_says_it_once:
  assumes "subs_inv w" and "dunning_run email origin takes ids now w = (k1, w1)"
    and "dunning_run email origin' takes' ids' later w1 = (k2, w2)"
  shows "\<exists>new1 new2. w_mail w1 = w_mail w @ new1 \<and> w_mail w2 = w_mail w1 @ new2 \<and>
    k1 = length new1 \<and> k2 = length new2 \<and>
    new1 = List.map_filter (due_mail now takes) (candidates email w) \<and>
    new2 = List.map_filter (due_mail later takes') (candidates email w1) \<and>
    (\<forall>c \<in> set (candidates email w). \<exists>b \<in> set (w_subs w). cd_store c = sb_store b \<and>
       sb_status b = SUB_PAST_DUE \<and> sb_past_due_since b = Some (cd_since c) \<and>
       cd_sent c = sent_stages (cd_store c) (cd_since c) w) \<and>
    (\<forall>c \<in> set (candidates email w1). \<forall>stage. latest_stage later c = Some stage \<longrightarrow>
       stage \<notin> set (cd_sent c) \<longrightarrow> stage \<notin> set (sent_stages (cd_store c) (cd_since c) w) \<and>
       (latest_stage now c = Some stage \<longrightarrow> \<not> takes (cd_email c)))"
proof -
  note run1 = assms(2) [unfolded dunning_run_def] and run2 = assms(3) [unfolded dunning_run_def]
  note new1 = dun_fold_mails [OF run1] and new2 = dun_fold_mails [OF run2]
  have keeps: "w_subs w1 = w_subs w" "w_stores w1 = w_stores w" "set (w_notices w) \<subseteq> set (w_notices w1)"
    using dun_fold [OF run1] by simp_all
  have unpaid: "\<exists>b \<in> set (w_subs w). cd_store c = sb_store b \<and>
       sb_status b = SUB_PAST_DUE \<and> sb_past_due_since b = Some (cd_since c) \<and>
       cd_sent c = sent_stages (cd_store c) (cd_since c) w" if "c \<in> set (candidates email w)" for c
    using candidate_sub [OF assms(1) that] candidate_ofD by metis
  have once: "stage \<notin> set (sent_stages (cd_store c1) (cd_since c1) w) \<and>
      (latest_stage now c1 = Some stage \<longrightarrow> \<not> takes (cd_email c1))"
    if c1: "c1 \<in> set (candidates email w1)" "stage \<notin> set (cd_sent c1)" for c1 stage
  proof -
    obtain c where c: "c \<in> set (candidates email w)"
      and eq: "c1 = c\<lparr>cd_sent := sent_stages (cd_store c) (cd_since c) w1\<rparr>"
      using c1(1) candidates_again [OF keeps(1,2)] by auto
    obtain b where b: "candidate_of email w b = Some c"
      "Option.bind (find_sub (cd_store c) w) sb_past_due_since = Some (cd_since c)"
      using candidate_sub [OF assms(1) c] by blast
    have unsent: "stage \<notin> set (sent_stages (cd_store c) (cd_since c) w1)" using c1(2) by (simp add: eq)
    then have before: "stage \<notin> set (sent_stages (cd_store c) (cd_since c) w)"
      using sent_stages_mono [OF keeps(3)] by blast
    moreover have "\<not> takes (cd_email c)" if "latest_stage now c = Some stage"
      using dun_fold_records [OF run1 c _ _ _ b(2)] that unsent before candidate_ofD(3) [OF b(1)]
      by (auto simp: dueStage_latest)
    ultimately show ?thesis by (simp add: eq latest_stage_def)
  qed
  show ?thesis using new1 new2 unpaid once by auto
qed

theorem dunning_says_it_once_witness:
  "\<exists>k w1 w2. dunning_run (\<lambda>u. Some (u @ ''@example.test'')) ''https://bba'' (\<lambda>_. True) id 300000000 unpaid_world
       = (k, w1) \<and>
     dunning_run (\<lambda>u. Some (u @ ''@example.test'')) ''https://bba'' (\<lambda>_. True) id 300000000 w1 = (0, w2) \<and>
     w_mail w2 = [(''u1@example.test'', ''Moreno Tea: your payment is still outstanding'')]"
proof -
  let ?run = "dunning_run (\<lambda>u. Some (u @ ''@example.test'')) ''https://bba'' (\<lambda>_. True) id 300000000"
  obtain k1 w1 where r1: "?run unpaid_world = (k1, w1)" by (meson surj_pair)
  obtain k2 w2 where r2: "?run w1 = (k2, w2)" by (meson surj_pair)
  obtain new1 new2 where new: "w_mail w2 = w_mail w1 @ new2" "k2 = length new2"
      "new2 = List.map_filter (due_mail 300000000 (\<lambda>_. True)) (candidates (\<lambda>u. Some (u @ ''@example.test'')) w1)"
    and once: "\<forall>c \<in> set (candidates (\<lambda>u. Some (u @ ''@example.test'')) w1). \<forall>stage.
      latest_stage 300000000 c = Some stage \<longrightarrow> stage \<in> set (cd_sent c)"
    using dunning_says_it_once [OF unpaid_world_inv r1 r2] by blast
  then have "new2 = []"
    by (auto simp: map_filter_def filter_empty_conv due_mail_def split: option.splits)
  moreover have "w_mail (snd (?run unpaid_world)) =
      [(''u1@example.test'', ''Moreno Tea: your payment is still outstanding'')]" by code_simp
  ultimately show ?thesis using r1 r2 new by auto
qed

end
