(* ===== verification/Delivery.thy ===== *)
theory Delivery
  imports OrderFrame
begin

text \<open>
  \<open>DeliveryService\<close> (\<open>modules/delivery/delivery.service.ts\<close>) on the deliveries table of migration
  18: who takes an order out, what proof they left and why it came back.  The order's own status
  moves through the order transition.  The names of users and the storage provider's URLs are
  parameters.
\<close>

section \<open>Rows\<close>

definition new_delivery :: "order \<Rightarrow> delivery" where
  "new_delivery o1 =
     \<lparr>d_order = o_id o1, d_store = o_store o1, d_driver = None, d_assigned_at = None,
      d_assigned_by = None, d_picked_up_at = None, d_delivered_at = None, d_proof = None,
      d_signature = None, d_failure = None, d_failure_note = None, d_failed_at = None,
      d_attempts = 0, d_notes = None\<rparr>"

definition needs_record :: "string \<Rightarrow> world \<Rightarrow> order \<Rightarrow> bool" where
  "needs_record storeId w o1 =
     (o_store o1 = storeId \<and> o_fulfillment o1 = FUL_DELIVERY \<and>
      o_status o1 \<in> {READY, OUT_FOR_DELIVERY, DELIVERED} \<and>
      (\<forall>d \<in> set (w_deliveries w). d_order d \<noteq> o_id o1))"

definition ensureRecords :: "string \<Rightarrow> world \<Rightarrow> world" where
  "ensureRecords storeId w =
     w\<lparr>w_deliveries := w_deliveries w @ map new_delivery (filter (needs_record storeId w) (w_orders w))\<rparr>"

text \<open>\<open>UPDATE deliveries SET ... WHERE order_id = ... AND store_id = ...\<close>\<close>

definition delivery_at :: "string \<Rightarrow> string \<Rightarrow> delivery \<Rightarrow> bool" where
  "delivery_at storeId orderId d = (d_order d = orderId \<and> d_store d = storeId)"

definition update_delivery :: "string \<Rightarrow> string \<Rightarrow> (delivery \<Rightarrow> delivery) \<Rightarrow> world \<Rightarrow> world" where
  "update_delivery storeId orderId f w =
     w\<lparr>w_deliveries := update_where (delivery_at storeId orderId) f (w_deliveries w)\<rparr>"

section \<open>Reading\<close>

record delivery_row =
  dr_delivery :: delivery
  dr_number :: string
  dr_status :: order_status
  dr_phone :: "string option"
  dr_email :: "string option"
  dr_address :: "address option"
  dr_driver_name :: "string option"
  dr_proof_url :: "string option"
  dr_signature_url :: "string option"

text \<open>The two services a read asks.\<close>

record delivery_env =
  de_name :: "string \<Rightarrow> string option"
  de_presign :: "string \<Rightarrow> string"

definition viewUrl :: "delivery_env \<Rightarrow> string option \<Rightarrow> string option" where
  "viewUrl env key =
     (case key of None \<Rightarrow> None | Some k \<Rightarrow> if k = [] then None else Some (de_presign env (k @ ''/medium.webp'')))"

definition ready_key :: "world \<Rightarrow> string option \<Rightarrow> string option" where
  "ready_key w assetId =
     (case assetId of
        None \<Rightarrow> None
      | Some i \<Rightarrow>
          (case find (\<lambda>a. ma_id a = i) (w_assets w) of
             None \<Rightarrow> None
           | Some a \<Rightarrow> if ma_status a = MA_READY then Some (ma_key a) else None))"

definition row_of :: "delivery_env \<Rightarrow> world \<Rightarrow> delivery \<times> order \<Rightarrow> delivery_row" where
  "row_of env w p =
     (case p of (d, o1) \<Rightarrow>
        \<lparr>dr_delivery = d, dr_number = o_number o1, dr_status = o_status o1, dr_phone = o_phone o1,
         dr_email = o_email o1, dr_address = o_address o1,
         dr_driver_name = Option.bind (d_driver d) (de_name env),
         dr_proof_url = viewUrl env (ready_key w (d_proof d)),
         dr_signature_url = viewUrl env (ready_key w (d_signature d))\<rparr>)"

text \<open>The join with the orders, oldest order first.\<close>

definition joined :: "string \<Rightarrow> (delivery \<Rightarrow> bool) \<Rightarrow> world \<Rightarrow> (delivery \<times> order) list" where
  "joined storeId chosen w =
     sort_key (\<lambda>(d, o1). o_placed_at o1)
       (List.map_filter (\<lambda>d. map_option (Pair d) (find (\<lambda>o1. o_id o1 = d_order d) (w_orders w)))
         (filter (\<lambda>d. d_store d = storeId \<and> chosen d) (w_deliveries w)))"

definition read_deliveries ::
    "delivery_env \<Rightarrow> string \<Rightarrow> (delivery \<Rightarrow> bool) \<Rightarrow> world \<Rightarrow> delivery_row list" where
  "read_deliveries env storeId chosen w = map (row_of env w) (take 200 (joined storeId chosen w))"

definition board :: "delivery_env \<Rightarrow> string \<Rightarrow> world \<Rightarrow> delivery_row list \<times> world" where
  "board env storeId w =
     (let w1 = ensureRecords storeId w
      in (read_deliveries env storeId (\<lambda>d. d_delivered_at d = None) w1, w1))"

definition queueFor :: "delivery_env \<Rightarrow> string \<Rightarrow> string \<Rightarrow> world \<Rightarrow> delivery_row list \<times> world" where
  "queueFor env storeId driverUserId w =
     (let w1 = ensureRecords storeId w
      in (read_deliveries env storeId
            (\<lambda>d. d_driver d = Some driverUserId \<and> d_delivered_at d = None) w1, w1))"

definition one_delivery :: "delivery_env \<Rightarrow> string \<Rightarrow> string \<Rightarrow> world \<Rightarrow> delivery_row res" where
  "one_delivery env storeId orderId w =
     (case read_deliveries env storeId (\<lambda>d. d_order d = orderId) w of
        [] \<Rightarrow> notFound | r # _ \<Rightarrow> Inr r)"

section \<open>Guards\<close>

definition active_role :: "string \<Rightarrow> string \<Rightarrow> world \<Rightarrow> membership_role option" where
  "active_role storeId userId w =
     map_option m_role
       (find (\<lambda>m. m_store m = storeId \<and> m_user m = userId \<and> m_status m = MS_ACTIVE) (w_members w))"

definition assertDriver :: "string \<Rightarrow> string \<Rightarrow> world \<Rightarrow> unit res" where
  "assertDriver storeId driverUserId w =
     guardE (\<exists>m \<in> set (w_members w). m_store m = storeId \<and> m_user m = driverUserId \<and>
               m_status m = MS_ACTIVE \<and> m_role m \<in> {DELIVERY, STORE_ADMIN})
       (Validation ''That person isn't set up to make deliveries for this shop.'')"

definition assertAssignedTo :: "string \<Rightarrow> string \<Rightarrow> string \<Rightarrow> world \<Rightarrow> unit res" where
  "assertAssignedTo storeId orderId actorUserId w =
     (case find (delivery_at storeId orderId) (w_deliveries w) of
        None \<Rightarrow> notFound
      | Some d \<Rightarrow>
          guardE (d_driver d = Some actorUserId \<or> active_role storeId actorUserId w = Some STORE_ADMIN)
            (Forbidden ''That delivery is assigned to somebody else.''))"

definition assertUsableProof :: "string \<Rightarrow> string \<Rightarrow> media_kind \<Rightarrow> world \<Rightarrow> unit res" where
  "assertUsableProof storeId assetId kind w =
     (case find (\<lambda>a. ma_id a = assetId) (w_assets w) of
        None \<Rightarrow> Inl (Validation ''That photo isn't one this shop can use.'')
      | Some a \<Rightarrow>
          if ma_store a \<noteq> Some storeId \<or> ma_kind a \<noteq> kind
          then Inl (Validation ''That photo isn't one this shop can use.'')
          else if ma_status a = MA_REJECTED
          then Inl (Validation ''That photo couldn't be used. Take another one.'')
          else if ma_status a = MA_PENDING
          then Inl (Validation ''That photo is still uploading. Give it a moment.'')
          else Inr ())"

section \<open>Assigning\<close>

definition delivery_audit :: "string \<Rightarrow> string \<Rightarrow> string \<Rightarrow> string \<Rightarrow> world \<Rightarrow> world" where
  "delivery_audit action storeId actorUserId orderId =
     audit_record (audit_entry_of action MEDIUM storeId (Some actorUserId) ''order'' orderId)"

definition assign ::
    "delivery_env \<Rightarrow> int \<Rightarrow> string \<Rightarrow> string \<Rightarrow> string \<Rightarrow> string \<Rightarrow> world \<Rightarrow> delivery_row outcome" where
  "assign env now storeId orderId actorUserId driverUserId w =
     (let w1 = ensureRecords storeId w;
          hit = (\<lambda>d. delivery_at storeId orderId d \<and> d_delivered_at d = None)
      in case assertDriver storeId driverUserId w1 of
           Inl e \<Rightarrow> (Inl e, w1)
         | Inr _ \<Rightarrow>
             if count_where hit (w_deliveries w1) = 0
             then (Inl (Validation ''That order is not out for delivery, or is already delivered.''), w1)
             else
               let w2 = w1\<lparr>w_deliveries := update_where hit
                          (\<lambda>d. d\<lparr>d_driver := Some driverUserId, d_assigned_at := Some now,
                                 d_assigned_by := Some actorUserId\<rparr>) (w_deliveries w1)\<rparr>;
                   w3 = delivery_audit ''delivery.assigned'' storeId actorUserId orderId w2
               in (one_delivery env storeId orderId w3, w3))"

definition unassign ::
    "delivery_env \<Rightarrow> string \<Rightarrow> string \<Rightarrow> string \<Rightarrow> world \<Rightarrow> delivery_row outcome" where
  "unassign env storeId orderId actorUserId w =
     (let w1 = w\<lparr>w_deliveries := update_where
                (\<lambda>d. delivery_at storeId orderId d \<and> d_delivered_at d = None)
                (\<lambda>d. d\<lparr>d_driver := None, d_assigned_at := None, d_assigned_by := None\<rparr>) (w_deliveries w)\<rparr>;
          w2 = delivery_audit ''delivery.unassigned'' storeId actorUserId orderId w1
      in (one_delivery env storeId orderId w2, w2))"

section \<open>On the road\<close>

definition driver_actor :: "string \<Rightarrow> actor" where
  "driver_actor userId = \<lparr>ac_user = Some userId, ac_role = Member DELIVERY\<rparr>"

definition picked_up :: "int \<Rightarrow> delivery \<Rightarrow> delivery" where
  "picked_up now d = d\<lparr>d_picked_up_at := Some now\<rparr>"

definition pickUp ::
    "delivery_env \<Rightarrow> string \<Rightarrow> int \<Rightarrow> string \<Rightarrow> string \<Rightarrow> string \<Rightarrow> world \<Rightarrow> delivery_row outcome" where
  "pickUp env newId now storeId orderId actorUserId w =
     (case assertAssignedTo storeId orderId actorUserId w of
        Inl e \<Rightarrow> (Inl e, w)
      | Inr _ \<Rightarrow>
          (case transition newId storeId orderId OUT_FOR_DELIVERY (driver_actor actorUserId) None w of
             (Inl e, w1) \<Rightarrow> (Inl e, w1)
           | (Inr _, w1) \<Rightarrow>
               let w2 = update_delivery storeId orderId (picked_up now) w1
               in (one_delivery env storeId orderId w2, w2)))"

record proof_input =
  pi_proof :: "string option"
  pi_signature :: "string option"
  pi_notes :: "string option"

definition handed_over :: "int \<Rightarrow> proof_input \<Rightarrow> delivery \<Rightarrow> delivery" where
  "handed_over now input d =
     d\<lparr>d_delivered_at := Some now, d_proof := coalesce (pi_proof input) (d_proof d),
       d_signature := coalesce (pi_signature input) (d_signature d),
       d_notes := coalesce (pi_notes input) (d_notes d),
       d_failure := None, d_failure_note := None, d_failed_at := None\<rparr>"

text \<open>\<open>if (id) await this.assertUsableProof(...)\<close>\<close>

definition check_proof :: "string \<Rightarrow> string option \<Rightarrow> media_kind \<Rightarrow> world \<Rightarrow> unit res" where
  "check_proof storeId assetId kind w =
     (case assetId of
        None \<Rightarrow> Inr ()
      | Some i \<Rightarrow> if i = [] then Inr () else assertUsableProof storeId i kind w)"

definition complete_delivery ::
    "delivery_env \<Rightarrow> string \<Rightarrow> int \<Rightarrow> string \<Rightarrow> string \<Rightarrow> string \<Rightarrow> proof_input \<Rightarrow> world \<Rightarrow>
     delivery_row outcome" where
  "complete_delivery env newId now storeId orderId actorUserId input w =
     (case
        bindE (assertAssignedTo storeId orderId actorUserId w) (\<lambda>_.
        bindE (check_proof storeId (pi_proof input) MK_PROOF w) (\<lambda>_.
        check_proof storeId (pi_signature input) MK_SIGNATURE w)) of
        Inl e \<Rightarrow> (Inl e, w)
      | Inr _ \<Rightarrow>
          (case transition newId storeId orderId DELIVERED (driver_actor actorUserId) None w of
             (Inl e, w1) \<Rightarrow> (Inl e, w1)
           | (Inr _, w1) \<Rightarrow>
               let w2 = delivery_audit ''delivery.completed'' storeId actorUserId orderId
                          (update_delivery storeId orderId (handed_over now input) w1)
               in (one_delivery env storeId orderId w2, w2)))"

definition FAILURE_REASONS :: "string list" where
  "FAILURE_REASONS =
     [''NOBODY_HOME'', ''ADDRESS_NOT_FOUND'', ''REFUSED'', ''UNSAFE_TO_LEAVE'', ''VEHICLE_PROBLEM'', ''OTHER'']"

fun failure_of :: "string \<Rightarrow> failure_reason option" where
  "failure_of r =
     (if r = ''NOBODY_HOME'' then Some NOBODY_HOME
      else if r = ''ADDRESS_NOT_FOUND'' then Some ADDRESS_NOT_FOUND
      else if r = ''REFUSED'' then Some REFUSED
      else if r = ''UNSAFE_TO_LEAVE'' then Some UNSAFE_TO_LEAVE
      else if r = ''VEHICLE_PROBLEM'' then Some VEHICLE_PROBLEM
      else if r = ''OTHER'' then Some OTHER_FAILURE
      else None)"

declare failure_of.simps [simp del]

definition came_back :: "int \<Rightarrow> failure_reason option \<Rightarrow> string option \<Rightarrow> delivery \<Rightarrow> delivery" where
  "came_back now reason note d =
     d\<lparr>d_failure := reason, d_failure_note := note, d_failed_at := Some now,
       d_attempts := d_attempts d + 1, d_picked_up_at := None\<rparr>"

definition fail_delivery ::
    "delivery_env \<Rightarrow> string \<Rightarrow> int \<Rightarrow> string \<Rightarrow> string \<Rightarrow> string \<Rightarrow> string \<Rightarrow> string option \<Rightarrow> world \<Rightarrow>
     delivery_row outcome" where
  "fail_delivery env newId now storeId orderId actorUserId reason note w =
     (if reason \<notin> set FAILURE_REASONS
      then (Inl (Validation ''Choose a reason the delivery didn't happen.''), w)
      else case assertAssignedTo storeId orderId actorUserId w of
        Inl e \<Rightarrow> (Inl e, w)
      | Inr _ \<Rightarrow>
          (case transition newId storeId orderId READY (driver_actor actorUserId) None w of
             (Inl e, w1) \<Rightarrow> (Inl e, w1)
           | (Inr _, w1) \<Rightarrow>
               let w2 = delivery_audit ''delivery.failed'' storeId actorUserId orderId
                          (update_delivery storeId orderId (came_back now (failure_of reason) note) w1)
               in (one_delivery env storeId orderId w2, w2)))"

section \<open>One parcel, one row\<close>

definition deliveries_inv :: "world \<Rightarrow> bool" where
  "deliveries_inv w =
     (distinct (map d_order (w_deliveries w)) \<and> distinct (map o_id (w_orders w)) \<and>
      (\<forall>d \<in> set (w_deliveries w).
         0 \<le> d_attempts d \<and>
         (\<exists>o1 \<in> set (w_orders w). o_id o1 = d_order d \<and> o_store o1 = d_store d \<and>
            o_fulfillment o1 = FUL_DELIVERY \<and>
            (d_delivered_at d \<noteq> None \<longrightarrow> o_status o1 \<in> {DELIVERED, RETURNED, REFUNDED}))))"

end
