(* ===== verification/DeliveryProps.thy ===== *)
theory DeliveryProps
  imports Delivery
begin

text \<open>
  What moves a parcel and what it leaves on the rows: the order goes where the status machine
  lets a driver take it, only for the driver it is assigned to or an administrator of the
  store, and one row says who has it.
\<close>

section \<open>The order\<close>

lemma transition_moved:
  assumes "transition newId s oid to act note w = (Inr t, w')"
  obtains o1 where "find_order s oid w = Some o1"
    and "o_status o1 = to \<or> canTransition (o_status o1) to \<and> isActorAllowed (o_status o1) to (ac_role act)"
    and "w_orders w' = (if o_status o1 = to then w_orders w else changed_order s oid to (w_orders w))"
  using assms
proof (cases rule: transition_cases)
  case (kept t' w1)
  note same_rows = off_inbox_keeps(3) [OF kept(3)]
  from kept(2) show thesis
  proof (cases rule: transition_tx_Inr)
    case (same o1)
    then show thesis using that [OF same(1)] same_rows by simp
  next
    case (moved o1 w2 w3)
    have "w_orders w1 = changed_order s oid to (w_orders w)"
      using update_status_Inr [OF moved(7)] off_stock_keeps(8) [OF stock_effects_off [OF moved(6)]]
      by (simp add: moved(8) insert_history_def changed_order_def)
    then show thesis using that [OF moved(1)] moved(2,4,5) same_rows by simp
  qed
qed simp

lemma find_order_status:
  assumes "distinct (map o_id (w_orders w))" and "find_order s oid w = Some o1"
    and "x \<in> set (w_orders w)" and "o_id x = oid"
  shows "x = o1"
  using find_order_in [OF assms(2)] assms(1,3,4) by (auto simp: distinct_map inj_on_def)

section \<open>The row read back\<close>

lemma joined_one:
  assumes "distinct (map d_order (w_deliveries w))" and "distinct (map o_id (w_orders w))"
    and "d \<in> set (w_deliveries w)" and "delivery_at s oid d"
    and "o1 \<in> set (w_orders w)" and "o_id o1 = oid"
  shows "joined s (\<lambda>d. d_order d = oid) w = [(d, o1)]"
proof -
  have rows: "filter (\<lambda>d. d_store d = s \<and> d_order d = oid) ds = [d]"
    if "distinct (map d_order ds)" "d \<in> set ds" for ds
    using that assms(4)
    by (induction ds) (auto simp: delivery_at_def filter_empty_conv image_iff)
  have "find (\<lambda>o1. o_id o1 = d_order d) (w_orders w) = Some o1"
  proof (cases "find (\<lambda>o1. o_id o1 = d_order d) (w_orders w)")
    case None
    then show ?thesis using assms(4-6) by (auto simp: find_None_iff delivery_at_def)
  next
    case (Some x)
    then show ?thesis using findD [OF Some] assms(2,4-6) by (auto simp: delivery_at_def distinct_map inj_on_def)
  qed
  then show ?thesis
    using rows [OF assms(1,3)] by (simp add: joined_def map_filter_simps)
qed

lemma one_delivery_row:
  assumes "distinct (map d_order (w_deliveries w))" and "distinct (map o_id (w_orders w))"
    and "d \<in> set (w_deliveries w)" and "delivery_at s oid d"
    and "o1 \<in> set (w_orders w)" and "o_id o1 = oid"
  shows "one_delivery env s oid w = Inr (row_of env w (d, o1))"
  using joined_one [OF assms] by (simp add: one_delivery_def read_deliveries_def)

section \<open>Moving a parcel\<close>

text \<open>The three things a driver does, as one.\<close>

datatype parcel_move = PickUp | HandOver proof_input | ComeBack string "string option"

definition run_move ::
    "delivery_env \<Rightarrow> string \<Rightarrow> int \<Rightarrow> string \<Rightarrow> string \<Rightarrow> string \<Rightarrow> parcel_move \<Rightarrow> world \<Rightarrow>
     delivery_row outcome" where
  "run_move env newId now s oid u mv w =
     (case mv of
        PickUp \<Rightarrow> pickUp env newId now s oid u w
      | HandOver input \<Rightarrow> complete_delivery env newId now s oid u input w
      | ComeBack reason note \<Rightarrow> fail_delivery env newId now s oid u reason note w)"

definition goal_of :: "parcel_move \<Rightarrow> order_status" where
  "goal_of mv = (case mv of PickUp \<Rightarrow> OUT_FOR_DELIVERY | HandOver _ \<Rightarrow> DELIVERED | ComeBack _ _ \<Rightarrow> READY)"

definition change_of :: "int \<Rightarrow> parcel_move \<Rightarrow> delivery \<Rightarrow> delivery" where
  "change_of now mv =
     (case mv of
        PickUp \<Rightarrow> picked_up now
      | HandOver input \<Rightarrow> handed_over now input
      | ComeBack reason note \<Rightarrow> came_back now (failure_of reason) note)"

lemma change_of_keeps [simp]:
  "d_order (change_of now mv d) = d_order d" "d_store (change_of now mv d) = d_store d"
  "d_driver (change_of now mv d) = d_driver d"
  "delivery_at s oid (change_of now mv d) = delivery_at s oid d"
  by (cases mv; simp add: change_of_def picked_up_def handed_over_def came_back_def delivery_at_def)+

lemma change_of_attempts: "0 \<le> d_attempts d \<Longrightarrow> 0 \<le> d_attempts (change_of now mv d)"
  by (cases mv) (simp_all add: change_of_def picked_up_def handed_over_def came_back_def)

lemma change_of_delivered:
  "d_delivered_at (change_of now mv d) = (case mv of HandOver _ \<Rightarrow> Some now | _ \<Rightarrow> d_delivered_at d)"
  by (cases mv) (simp_all add: change_of_def picked_up_def handed_over_def came_back_def)

text \<open>What each of them is made of: the guard, the order's move, the row's change, the read.\<close>

lemma run_move_cases:
  assumes "run_move env newId now s oid u mv w = (out, w')"
  obtains (refused) e where "out = Inl e" and "w' = w"
  | (moved) t w1 where "assertAssignedTo s oid u w = Inr ()"
      and "transition newId s oid (goal_of mv) (driver_actor u) None w = (Inr t, w1)"
      and "w_deliveries w' = update_where (delivery_at s oid) (change_of now mv) (w_deliveries w1)"
      and "w_orders w' = w_orders w1" and "w_assets w' = w_assets w1"
      and "out = one_delivery env s oid w'"
proof (cases "assertAssignedTo s oid u w")
  case (Inl e)
  then show thesis
    using assms refused
    by (auto simp: run_move_def pickUp_def complete_delivery_def fail_delivery_def split: parcel_move.splits if_splits)
next
  case (Inr x)
  obtain r w1 where tr: "transition newId s oid (goal_of mv) (driver_actor u) None w = (r, w1)"
    by (meson surj_pair)
  show thesis
  proof (cases r)
    case (Inl e)
    then have "w1 = w" using tr by (auto elim: transition_cases)
    then show thesis
      using assms refused tr Inl Inr
      by (auto simp: run_move_def pickUp_def complete_delivery_def fail_delivery_def goal_of_def
          split: parcel_move.splits if_splits sum.splits)
  next
    case t: (Inr t)
    consider "\<exists>e. out = Inl e \<and> w' = w"
      | "w_deliveries w' = update_where (delivery_at s oid) (change_of now mv) (w_deliveries w1)"
        "w_orders w' = w_orders w1" "w_assets w' = w_assets w1" "out = one_delivery env s oid w'"
      using assms tr t Inr
      by (auto simp: run_move_def pickUp_def complete_delivery_def fail_delivery_def goal_of_def Let_def
          change_of_def update_delivery_def delivery_audit_def split: parcel_move.splits if_splits sum.splits)
    then show thesis
      using refused moved Inr tr t by cases auto
  qed
qed

lemma changed_status:
  assumes "x \<in> set (changed_order s oid to rows)"
  obtains y where "y \<in> set rows" and "o_id x = o_id y" and "o_store x = o_store y"
    and "o_fulfillment x = o_fulfillment y"
    and "o_status x = (if o_id y = oid \<and> o_store y = s then to else o_status y)"
proof -
  obtain y where "y \<in> set rows" "x = (if o_id y = oid \<and> o_store y = s then set_status to y else y)"
    using assms by (auto simp: changed_order_def set_update_where)
  then show thesis by (intro that [of y]) auto
qed

lemma in_changed_order:
  assumes "y \<in> set rows"
  shows "\<exists>x \<in> set (changed_order s oid to rows). o_id x = o_id y \<and> o_store x = o_store y \<and>
    o_fulfillment x = o_fulfillment y \<and>
    o_status x = (if o_id y = oid \<and> o_store y = s then to else o_status y)"
proof -
  have "(if o_id y = oid \<and> o_store y = s then set_status to y else y) \<in> set (changed_order s oid to rows)"
    using assms by (auto simp: changed_order_def set_update_where)
  then show ?thesis by (rule bexI [rotated]) auto
qed

lemma deliveries_inv_move:
  assumes inv: "deliveries_inv w" and o1: "find_order s oid w = Some o1"
    and ok: "o_status o1 = to \<or> canTransition (o_status o1) to"
    and to: "to \<in> {OUT_FOR_DELIVERY, DELIVERED, READY}"
    and orders: "w_orders w' = (if o_status o1 = to then w_orders w else changed_order s oid to (w_orders w))"
    and rows: "w_deliveries w' = update_where (delivery_at s oid) g (w_deliveries w)"
    and g: "\<And>d. d_order (g d) = d_order d" "\<And>d. d_store (g d) = d_store d"
      "\<And>d. 0 \<le> d_attempts d \<Longrightarrow> 0 \<le> d_attempts (g d)"
      "\<And>d. d_delivered_at (g d) \<noteq> None \<Longrightarrow> to = DELIVERED \<or> d_delivered_at d \<noteq> None"
  shows "deliveries_inv w'"
proof -
  have keys: "map o_id (w_orders w') = map o_id (w_orders w)"
    by (simp add: orders changed_order_def map_update_where)
  have now_at: "\<exists>x \<in> set (w_orders w'). o_id x = o_id y \<and> o_store x = o_store y \<and>
      o_fulfillment x = o_fulfillment y \<and> o_status x = (if o_id y = oid \<and> o_store y = s then to else o_status y)"
    if y: "y \<in> set (w_orders w)" for y
  proof (cases "o_status o1 = to")
    case True
    have "o_id y = oid \<Longrightarrow> y = o1"
      using find_order_status [OF _ o1 y] inv by (simp add: deliveries_inv_def)
    then show ?thesis using y True by (auto simp: orders)
  next
    case False
    then show ?thesis using in_changed_order [OF y] by (simp add: orders)
  qed
  have only: "to = DELIVERED" if "o_status o1 \<in> {DELIVERED, RETURNED, REFUNDED}"
    using that ok to by (cases "o_status o1") auto
  have row: "0 \<le> d_attempts d' \<and> (\<exists>x \<in> set (w_orders w'). o_id x = d_order d' \<and> o_store x = d_store d' \<and>
      o_fulfillment x = FUL_DELIVERY \<and>
      (d_delivered_at d' \<noteq> None \<longrightarrow> o_status x \<in> {DELIVERED, RETURNED, REFUNDED}))"
    if d': "d' \<in> set (w_deliveries w')" for d'
  proof -
    obtain d where d: "d \<in> set (w_deliveries w)" "d' = (if delivery_at s oid d then g d else d)"
      using d' by (auto simp: rows set_update_where)
    obtain y where y: "y \<in> set (w_orders w)" "o_id y = d_order d" "o_store y = d_store d"
      "o_fulfillment y = FUL_DELIVERY" "d_delivered_at d \<noteq> None \<Longrightarrow> o_status y \<in> {DELIVERED, RETURNED, REFUNDED}"
      and att: "0 \<le> d_attempts d"
      using inv d(1) unfolding deliveries_inv_def by blast
    obtain x where x: "x \<in> set (w_orders w')" "o_id x = o_id y" "o_store x = o_store y"
      "o_fulfillment x = o_fulfillment y"
      "o_status x = (if o_id y = oid \<and> o_store y = s then to else o_status y)"
      using now_at [OF y(1)] by blast
    have at: "delivery_at s oid d \<longleftrightarrow> o_id y = oid \<and> o_store y = s" using y by (auto simp: delivery_at_def)
    have "y = o1" if "o_id y = oid"
      using find_order_status [OF _ o1 y(1) that] inv by (simp add: deliveries_inv_def)
    then have "o_status x \<in> {DELIVERED, RETURNED, REFUNDED}" if "d_delivered_at d' \<noteq> None"
      using that x(5) y(5) g(4) [of d] only by (cases "delivery_at s oid d") (auto simp: d(2) at)
    then show ?thesis using x y att g by (intro conjI bexI [of _ x]) (auto simp: d(2))
  qed
  have "distinct (map d_order (w_deliveries w'))"
    using inv by (simp add: deliveries_inv_def rows map_update_where g)
  then show ?thesis using row keys inv by (simp add: deliveries_inv_def)
qed

text \<open>
  C17. Picking a parcel up, handing it over and bringing it back either change nothing and say
  why, or: the caller is the driver the parcel is assigned to or an administrator of the store,
  the order is taken along an edge that is legal and open to drivers (or was already there), only
  this order's row and this parcel's row change, and the answer shows both as they now are.  There
  stays one row per parcel, and one marked as delivered belongs to an order that was delivered.
\<close>

theorem parcel_moves:
  assumes "run_move env newId now s oid u mv w = (out, w')" and "deliveries_inv w"
  shows "deliveries_inv w' \<and>
    (case out of
       Inl e \<Rightarrow> w' = w
     | Inr row \<Rightarrow> \<exists>d o1. find (delivery_at s oid) (w_deliveries w) = Some d \<and>
         find_order s oid w = Some o1 \<and>
         (d_driver d = Some u \<or> active_role s u w = Some STORE_ADMIN) \<and>
         (o_status o1 = goal_of mv \<or>
          canTransition (o_status o1) (goal_of mv) \<and>
          isActorAllowed (o_status o1) (goal_of mv) (Member DELIVERY)) \<and>
         w_orders w' = (if o_status o1 = goal_of mv then w_orders w
                        else changed_order s oid (goal_of mv) (w_orders w)) \<and>
         w_deliveries w' = update_where (delivery_at s oid) (change_of now mv) (w_deliveries w) \<and>
         dr_delivery row = change_of now mv d \<and> dr_status row = goal_of mv)"
  using assms(1)
proof (cases rule: run_move_cases)
  case (refused e)
  then show ?thesis using assms(2) by simp
next
  case (moved t w1)
  obtain d where d: "find (delivery_at s oid) (w_deliveries w) = Some d"
    "d_driver d = Some u \<or> active_role s u w = Some STORE_ADMIN"
    using moved(1) by (auto simp: assertAssignedTo_def notFound_def split: option.splits)
  obtain o1 where o1: "find_order s oid w = Some o1"
    "o_status o1 = goal_of mv \<or> canTransition (o_status o1) (goal_of mv) \<and>
      isActorAllowed (o_status o1) (goal_of mv) (Member DELIVERY)"
    "w_orders w1 = (if o_status o1 = goal_of mv then w_orders w else changed_order s oid (goal_of mv) (w_orders w))"
    using transition_moved [OF moved(2)] by (auto simp: driver_actor_def)
  have rows: "w_deliveries w' = update_where (delivery_at s oid) (change_of now mv) (w_deliveries w)"
    using moved(3) transition_keeps(7) [OF moved(2)] by simp
  have orders: "w_orders w' = (if o_status o1 = goal_of mv then w_orders w
      else changed_order s oid (goal_of mv) (w_orders w))"
    using moved(4) o1(3) by simp
  have goal: "goal_of mv \<in> {OUT_FOR_DELIVERY, DELIVERED, READY}" by (cases mv) (simp_all add: goal_of_def)
  have inv': "deliveries_inv w'"
  proof (rule deliveries_inv_move [OF assms(2) o1(1) _ goal orders rows])
    show "goal_of mv = DELIVERED \<or> d_delivered_at d \<noteq> None"
      if "d_delivered_at (change_of now mv d) \<noteq> None" for d
      using that by (cases mv) (simp_all add: change_of_delivered goal_of_def)
  qed (use o1(2) change_of_attempts in auto)
  obtain o2 where o2: "find_order s oid w' = Some o2" "o_status o2 = goal_of mv"
    using transition_arrives [OF moved(2)] moved(4) by (auto simp: find_order_def)
  have "change_of now mv d \<in> set (w_deliveries w')"
    using findD [OF d(1)] by (auto simp: rows intro: in_update_where)
  then have "one_delivery env s oid w' = Inr (row_of env w' (change_of now mv d, o2))"
    using inv' findD [OF d(1)] find_order_in [OF o2(1)]
    by (intro one_delivery_row) (simp_all add: deliveries_inv_def)
  then show ?thesis
    using d o1(1,2) orders rows inv' o2(2) moved(6) by (simp add: row_of_def)
qed

definition sample_round :: "order_status \<Rightarrow> world" where
  "sample_round st = (sample_queue st [])\<lparr>
     w_orders := [(sample_order st)\<lparr>o_fulfillment := FUL_DELIVERY\<rparr>],
     w_deliveries := [(new_delivery (sample_order st))\<lparr>d_driver := Some ''u5'', d_assigned_at := Some 1\<rparr>]\<rparr>"

definition sample_env :: delivery_env where
  "sample_env = \<lparr>de_name = \<lambda>_. Some ''Dee'', de_presign = \<lambda>k. ''https://media/'' @ k\<rparr>"

lemma sample_round_inv: "deliveries_inv (sample_round st)"
  by (simp add: deliveries_inv_def sample_round_def sample_queue_def new_delivery_def sample_order_def)

theorem parcel_moves_witness:
  "\<exists>row w'. run_move sample_env ''n1'' 7 ''s1'' ''o1'' ''u5'' (ComeBack ''REFUSED'' None)
       (sample_round OUT_FOR_DELIVERY) = (Inr row, w') \<and>
     dr_status row = READY \<and> d_attempts (dr_delivery row) = 1"
proof -
  let ?op = "run_move sample_env ''n1'' 7 ''s1'' ''o1'' ''u5'' (ComeBack ''REFUSED'' None) (sample_round OUT_FOR_DELIVERY)"
  have "okE (fst ?op)" by code_simp
  then obtain row w' where run: "?op = (Inr row, w')" by (rule okE_fstE)
  have "find (delivery_at ''s1'' ''o1'') (w_deliveries (sample_round OUT_FOR_DELIVERY)) =
      Some ((new_delivery (sample_order OUT_FOR_DELIVERY))\<lparr>d_driver := Some ''u5'', d_assigned_at := Some 1\<rparr>)"
    by (simp add: sample_round_def delivery_at_def new_delivery_def sample_order_def)
  then show ?thesis
    using parcel_moves [OF run sample_round_inv] run
    by (auto simp: goal_of_def change_of_def came_back_def new_delivery_def)
qed

end
