(* ===== verification/Sessions.thy ===== *)
theory Sessions
  imports Schema
begin

text \<open>
  Signing in: \<open>AuthService\<close>, \<open>MfaService\<close>, \<open>AuthRepository\<close> and the policy of \<open>PasswordService\<close>
  (\<open>modules/auth\<close>), over the users, refresh tokens and recovery codes they keep.  Hashing, encryption,
  one-time codes, signed tokens and the breach list are other people's code: they are the functions
  of a record the operations take.  Random identifiers and tokens are supplied by the caller.
\<close>

section \<open>State\<close>

datatype user_status = U_ACTIVE | U_LOCKED | U_CLOSED

record user =
  u_id :: string
  u_email :: string
  u_name :: string
  u_hash :: "string option"
  u_status :: user_status
  u_super :: bool
  u_deleted :: bool
  u_last_login :: "int option"
  u_totp :: "string option"
  u_mfa_at :: "int option"
  u_verified :: "int option"

record refresh_token =
  rt_id :: string
  rt_user :: string
  rt_family :: string
  rt_hash :: string
  rt_expires :: int
  rt_rotated :: "int option"
  rt_revoked :: "int option"
  rt_created :: int

record recovery_code =
  rc_user :: string
  rc_hash :: string
  rc_used :: "int option"

record auth =
  a_users :: "user list"
  a_tokens :: "refresh_token list"
  a_codes :: "recovery_code list"
  a_members :: "membership list"

record claims =
  cm_sub :: string
  cm_email :: string
  cm_super :: bool
  cm_memberships :: "(string \<times> membership_role) list"

text \<open>What the cryptographic packages answer.\<close>

record crypto =
  cr_hash :: "string \<Rightarrow> string"
  cr_verify :: "string \<Rightarrow> string \<Rightarrow> bool"
  cr_weak :: "string \<Rightarrow> bool"
  cr_sha :: "string \<Rightarrow> string"
  cr_encrypt :: "string \<Rightarrow> string"
  cr_decrypt :: "string \<Rightarrow> string"
  cr_totp :: "string \<Rightarrow> string \<Rightarrow> bool"
  cr_access :: "claims \<Rightarrow> string"
  cr_challenge :: "string \<Rightarrow> string"
  cr_open :: "string \<Rightarrow> string option"
  cr_breached :: "string \<Rightarrow> bool"

type_synonym 'a auth_outcome = "'a res \<times> auth"

definition find_user :: "string \<Rightarrow> auth \<Rightarrow> user option" where
  "find_user userId a = find (\<lambda>u. u_id u = userId) (a_users a)"

definition update_user :: "string \<Rightarrow> (user \<Rightarrow> user) \<Rightarrow> auth \<Rightarrow> auth" where
  "update_user userId f a = a\<lparr>a_users := update_where (\<lambda>u. u_id u = userId) f (a_users a)\<rparr>"

text \<open>The e-mail column is case-insensitive.\<close>

definition findUserByEmail :: "string \<Rightarrow> auth \<Rightarrow> user option" where
  "findUserByEmail email a =
     find (\<lambda>u. map lower_char (u_email u) = map lower_char email) (a_users a)"

definition findRefreshToken :: "string \<Rightarrow> auth \<Rightarrow> refresh_token option" where
  "findRefreshToken h a = find (\<lambda>t. rt_hash t = h) (a_tokens a)"

section \<open>Passwords\<close>

definition MIN_PASSWORD_LENGTH :: nat where
  "MIN_PASSWORD_LENGTH = 10"

text \<open>\<open>haystack.includes(needle)\<close>\<close>

fun str_includes :: "string \<Rightarrow> string \<Rightarrow> bool" where
  "str_includes [] needle = (needle = [])"
| "str_includes (c # cs) needle = (take (length needle) (c # cs) = needle \<or> str_includes cs needle)"

definition local_part :: "string \<Rightarrow> string" where
  "local_part email = takeWhile (\<lambda>c. c \<noteq> CHR ''@'') email"

definition password_errors :: "(string \<Rightarrow> bool) \<Rightarrow> string \<Rightarrow> string option \<Rightarrow> string list" where
  "password_errors breached plaintext email =
     (let short = (if length plaintext < MIN_PASSWORD_LENGTH then [''TOO_SHORT''] else []);
          mail = (case email of
                    None \<Rightarrow> []
                  | Some e \<Rightarrow>
                      if e \<noteq> [] \<and> str_includes (map lower_char plaintext) (map lower_char (local_part e))
                      then [''CONTAINS_EMAIL''] else [])
      in if short @ mail = [] \<and> breached plaintext then [''BREACHED''] else short @ mail)"

definition assertAcceptable :: "(string \<Rightarrow> bool) \<Rightarrow> string \<Rightarrow> string option \<Rightarrow> unit res" where
  "assertAcceptable breached plaintext email =
     guardE (password_errors breached plaintext email = [])
       (Validation ''That password cannot be used.'')"

section \<open>Second factor\<close>

definition RECOVERY_CODE_COUNT :: nat where
  "RECOVERY_CODE_COUNT = 10"

definition hashCode :: "crypto \<Rightarrow> string \<Rightarrow> string" where
  "hashCode cr code = cr_sha cr (map upper_char (js_trim code))"

definition beginEnrollment :: "crypto \<Rightarrow> string \<Rightarrow> string \<Rightarrow> auth \<Rightarrow> auth" where
  "beginEnrollment cr secret userId =
     update_user userId (\<lambda>u. u\<lparr>u_totp := Some (cr_encrypt cr secret), u_mfa_at := None\<rparr>)"

definition mfa_isEnabled :: "string \<Rightarrow> auth \<Rightarrow> bool" where
  "mfa_isEnabled userId a = (case find_user userId a of None \<Rightarrow> False | Some u \<Rightarrow> u_mfa_at u \<noteq> None)"

text \<open>\<open>codes\<close> are the ten random codes.\<close>

definition regenerateRecoveryCodes :: "crypto \<Rightarrow> string list \<Rightarrow> string \<Rightarrow> auth \<Rightarrow> auth" where
  "regenerateRecoveryCodes cr codes userId a =
     a\<lparr>a_codes := filter (\<lambda>c. rc_user c \<noteq> userId) (a_codes a) @
        map (\<lambda>code. \<lparr>rc_user = userId, rc_hash = hashCode cr code, rc_used = None\<rparr>) codes\<rparr>"

definition confirmEnrollment ::
    "crypto \<Rightarrow> int \<Rightarrow> string list \<Rightarrow> string \<Rightarrow> string \<Rightarrow> auth \<Rightarrow> string list auth_outcome" where
  "confirmEnrollment cr now codes userId code a =
     (case Option.bind (find_user userId a) u_totp of
        None \<Rightarrow> (Inl (Validation ''Start MFA setup first.''), a)
      | Some secret \<Rightarrow>
          if \<not> cr_totp cr (cr_decrypt cr secret) (js_trim code)
          then (Inl (Validation ''That code isn't right. Check your authenticator app and try again.''), a)
          else (Inr codes,
            update_user userId (\<lambda>u. u\<lparr>u_mfa_at := Some now\<rparr>) (regenerateRecoveryCodes cr codes userId a)))"

text \<open>One statement: marks the unused code and says whether there was one.\<close>

definition consumeRecoveryCode :: "crypto \<Rightarrow> int \<Rightarrow> string \<Rightarrow> string \<Rightarrow> auth \<Rightarrow> bool \<times> auth" where
  "consumeRecoveryCode cr now userId code a =
     (let hit = (\<lambda>c. rc_user c = userId \<and> rc_hash c = hashCode cr (map upper_char (js_trim code)) \<and> rc_used c = None)
      in (\<exists>c \<in> set (a_codes a). hit c,
          a\<lparr>a_codes := update_where hit (\<lambda>c. c\<lparr>rc_used := Some now\<rparr>) (a_codes a)\<rparr>))"

definition verifyChallenge :: "crypto \<Rightarrow> int \<Rightarrow> string \<Rightarrow> string \<Rightarrow> auth \<Rightarrow> bool \<times> auth" where
  "verifyChallenge cr now userId code a =
     (case find_user userId a of
        None \<Rightarrow> (False, a)
      | Some u \<Rightarrow>
          (case (u_mfa_at u, u_totp u) of
             (Some _, Some secret) \<Rightarrow>
               if cr_totp cr (cr_decrypt cr secret) (js_trim code) then (True, a)
               else consumeRecoveryCode cr now userId code a
           | _ \<Rightarrow> (False, a)))"

definition mfa_disable :: "string \<Rightarrow> auth \<Rightarrow> auth" where
  "mfa_disable userId a =
     update_user userId (\<lambda>u. u\<lparr>u_totp := None, u_mfa_at := None\<rparr>)
       (a\<lparr>a_codes := filter (\<lambda>c. rc_user c \<noteq> userId) (a_codes a)\<rparr>)"

section \<open>Sessions\<close>

record session =
  ss_user :: string
  ss_access :: string
  ss_refresh :: string
  ss_expires :: int

text \<open>What one issue of a session draws: the row's identifier and the opaque token.\<close>

record draw =
  dw_id :: string
  dw_token :: string

definition claims_of :: "user \<Rightarrow> auth \<Rightarrow> claims" where
  "claims_of u a =
     \<lparr>cm_sub = u_id u, cm_email = u_email u, cm_super = u_super u,
      cm_memberships = map (\<lambda>m. (m_store m, m_role m))
        (filter (\<lambda>m. m_user m = u_id u \<and> m_status m = MS_ACTIVE) (a_members a))\<rparr>"

definition issueSession ::
    "crypto \<Rightarrow> int \<Rightarrow> int \<Rightarrow> draw \<Rightarrow> string \<Rightarrow> string \<Rightarrow> auth \<Rightarrow> session auth_outcome" where
  "issueSession cr ttl now dw userId familyId a =
     (case find_user userId a of
        None \<Rightarrow> (Inl (Internal ''No User found''), a)
      | Some u \<Rightarrow>
          (Inr \<lparr>ss_user = userId, ss_access = cr_access cr (claims_of u a), ss_refresh = dw_token dw,
                ss_expires = now + ttl * 1000\<rparr>,
           a\<lparr>a_tokens := a_tokens a @
               [\<lparr>rt_id = dw_id dw, rt_user = userId, rt_family = familyId,
                 rt_hash = cr_sha cr (dw_token dw), rt_expires = now + ttl * 1000,
                 rt_rotated = None, rt_revoked = None, rt_created = now\<rparr>]\<rparr>))"

datatype login_outcome = SessionIssued session | MfaRequired string

text \<open>After the first factor: a challenge when the account has a second one, else a session.\<close>

definition after_first_factor ::
    "crypto \<Rightarrow> int \<Rightarrow> int \<Rightarrow> draw \<Rightarrow> string \<Rightarrow> string \<Rightarrow> auth \<Rightarrow> login_outcome auth_outcome" where
  "after_first_factor cr ttl now dw userId familyId a =
     (if mfa_isEnabled userId a then (Inr (MfaRequired (cr_challenge cr userId)), a)
      else case issueSession cr ttl now dw userId familyId a of
        (Inl e, a1) \<Rightarrow> (Inl e, a1)
      | (Inr s, a1) \<Rightarrow> (Inr (SessionIssued s), a1))"

definition wrong_credentials :: app_error where
  "wrong_credentials = Unauthenticated ''Email or password is incorrect.''"

definition login ::
    "crypto \<Rightarrow> int \<Rightarrow> int \<Rightarrow> draw \<Rightarrow> string \<Rightarrow> string \<Rightarrow> string \<Rightarrow> auth \<Rightarrow> login_outcome auth_outcome" where
  "login cr ttl now dw familyId email password a =
     (case findUserByEmail (map lower_char (js_trim email)) a of
        None \<Rightarrow> (Inl wrong_credentials, a)
      | Some u \<Rightarrow>
          (case u_hash u of
             None \<Rightarrow> (Inl wrong_credentials, a)
           | Some h \<Rightarrow>
               if h = [] then (Inl wrong_credentials, a)
               else if \<not> cr_verify cr h password then (Inl wrong_credentials, a)
               else if u_status u = U_LOCKED
               then (Inl (AccountLocked ''This account is temporarily locked.''), a)
               else if u_status u = U_CLOSED \<or> u_deleted u then (Inl wrong_credentials, a)
               else after_first_factor cr ttl now dw (u_id u) familyId
                 (update_user (u_id u) (\<lambda>u. u\<lparr>u_last_login := Some now,
                    u_hash := (if cr_weak cr h then Some (cr_hash cr password) else u_hash u)\<rparr>) a)))"

definition completeMfaLogin ::
    "crypto \<Rightarrow> int \<Rightarrow> int \<Rightarrow> draw \<Rightarrow> string \<Rightarrow> string \<Rightarrow> string \<Rightarrow> auth \<Rightarrow> session auth_outcome" where
  "completeMfaLogin cr ttl now dw familyId challenge code a =
     (case cr_open cr challenge of
        None \<Rightarrow> (Inl (Unauthenticated ''That sign-in attempt expired. Please start again.''), a)
      | Some userId \<Rightarrow>
          (case find_user userId a of
             None \<Rightarrow> (Inl (Unauthenticated ''Authentication is required.''), a)
           | Some u \<Rightarrow>
               if u_status u \<noteq> U_ACTIVE then (Inl (Unauthenticated ''Authentication is required.''), a)
               else (case verifyChallenge cr now userId code a of
                 (False, a1) \<Rightarrow> (Inl (Unauthenticated ''That code isn't right.''), a1)
               | (True, a1) \<Rightarrow> issueSession cr ttl now dw userId familyId a1)))"

definition completeProviderSignIn ::
    "crypto \<Rightarrow> int \<Rightarrow> int \<Rightarrow> draw \<Rightarrow> string \<Rightarrow> string \<Rightarrow> auth \<Rightarrow> login_outcome auth_outcome" where
  "completeProviderSignIn cr ttl now dw familyId userId a =
     (case find_user userId a of
        None \<Rightarrow> (Inl (Internal ''No User found''), a)
      | Some _ \<Rightarrow> after_first_factor cr ttl now dw userId familyId
          (update_user userId (\<lambda>u. u\<lparr>u_last_login := Some now\<rparr>) a))"

definition issueSessionFor ::
    "crypto \<Rightarrow> int \<Rightarrow> int \<Rightarrow> draw \<Rightarrow> string \<Rightarrow> string \<Rightarrow> auth \<Rightarrow> session auth_outcome" where
  "issueSessionFor cr ttl now dw familyId userId a = issueSession cr ttl now dw userId familyId a"

definition register ::
    "crypto \<Rightarrow> string \<Rightarrow> string \<Rightarrow> string \<Rightarrow> string \<Rightarrow> auth \<Rightarrow> unit auth_outcome" where
  "register cr newId email password name a =
     (let addr = map lower_char (js_trim email) in
      case assertAcceptable (cr_breached cr) password (Some addr) of
        Inl e \<Rightarrow> (Inl e, a)
      | Inr _ \<Rightarrow>
          (case findUserByEmail addr a of
             Some _ \<Rightarrow> (Inr (), a)
           | None \<Rightarrow> (Inr (), a\<lparr>a_users := a_users a @
               [\<lparr>u_id = newId, u_email = addr, u_name = js_trim name, u_hash = Some (cr_hash cr password),
                 u_status = U_ACTIVE, u_super = False, u_deleted = False, u_last_login = None,
                 u_totp = None, u_mfa_at = None, u_verified = None\<rparr>]\<rparr>)))"

section \<open>Rotation\<close>

definition invalidSession :: app_error where
  "invalidSession = Unauthenticated ''Your session is invalid or has expired.''"

definition revoke_where :: "(refresh_token \<Rightarrow> bool) \<Rightarrow> int \<Rightarrow> auth \<Rightarrow> auth" where
  "revoke_where hit now a =
     a\<lparr>a_tokens := update_where (\<lambda>t. hit t \<and> rt_revoked t = None) (\<lambda>t. t\<lparr>rt_revoked := Some now\<rparr>) (a_tokens a)\<rparr>"

text \<open>\<open>userId\<close> is the row-level scope of the statement.\<close>

definition revokeFamily :: "int \<Rightarrow> string \<Rightarrow> string \<Rightarrow> auth \<Rightarrow> auth" where
  "revokeFamily now userId familyId = revoke_where (\<lambda>t. rt_user t = userId \<and> rt_family t = familyId) now"

definition revokeAllSessions :: "int \<Rightarrow> string \<Rightarrow> auth \<Rightarrow> nat \<times> auth" where
  "revokeAllSessions now userId a =
     (count_where (\<lambda>t. rt_user t = userId \<and> rt_revoked t = None) (a_tokens a),
      revoke_where (\<lambda>t. rt_user t = userId) now a)"

text \<open>
  A refresh reads the token, then writes: other requests may come between the two.
\<close>

definition refresh_read :: "crypto \<Rightarrow> string \<Rightarrow> auth \<Rightarrow> refresh_token option" where
  "refresh_read cr presented a = findRefreshToken (cr_sha cr presented) a"

definition refresh_write ::
    "crypto \<Rightarrow> int \<Rightarrow> int \<Rightarrow> draw \<Rightarrow> refresh_token option \<Rightarrow> auth \<Rightarrow> session auth_outcome" where
  "refresh_write cr ttl now dw stored a =
     (case stored of
        None \<Rightarrow> (Inl invalidSession, a)
      | Some t \<Rightarrow>
          if rt_revoked t \<noteq> None then (Inl invalidSession, a)
          else if rt_rotated t \<noteq> None
          then (Inl invalidSession, revokeFamily now (rt_user t) (rt_family t) a)
          else if rt_expires t \<le> now then (Inl invalidSession, a)
          else issueSession cr ttl now dw (rt_user t) (rt_family t)
            (a\<lparr>a_tokens := update_where (\<lambda>x. rt_id x = rt_id t) (\<lambda>x. x\<lparr>rt_rotated := Some now\<rparr>) (a_tokens a)\<rparr>))"

definition refresh :: "crypto \<Rightarrow> int \<Rightarrow> int \<Rightarrow> draw \<Rightarrow> string \<Rightarrow> auth \<Rightarrow> session auth_outcome" where
  "refresh cr ttl now dw presented a = refresh_write cr ttl now dw (refresh_read cr presented a) a"

definition logout :: "crypto \<Rightarrow> int \<Rightarrow> string option \<Rightarrow> auth \<Rightarrow> auth" where
  "logout cr now presented a =
     (case presented of
        None \<Rightarrow> a
      | Some p \<Rightarrow>
          if p = [] then a
          else (case findRefreshToken (cr_sha cr p) a of
            None \<Rightarrow> a
          | Some t \<Rightarrow>
              if rt_revoked t \<noteq> None then a
              else a\<lparr>a_tokens := update_where (\<lambda>x. rt_id x = rt_id t) (\<lambda>x. x\<lparr>rt_revoked := Some now\<rparr>) (a_tokens a)\<rparr>))"

end
