(* ===== verification/SessionProps.thy ===== *)
theory SessionProps
  imports Sessions
begin

text \<open>
  A session family that is cut off stays cut off, and nobody gets past the second factor of an
  account that has one.
\<close>

section \<open>Requests\<close>

text \<open>Every request that can come to the service, with what it draws.\<close>

datatype auth_request =
    Register string string string string
  | Login draw string string string
  | CompleteMfa draw string string string
  | ProviderSignIn draw string string
  | Refresh draw string
  | Logout "string option"
  | RevokeAll string
  | BeginMfa string string
  | ConfirmMfa "string list" string string
  | DisableMfa string

definition auth_run :: "crypto \<Rightarrow> int \<Rightarrow> int \<Rightarrow> auth_request \<Rightarrow> auth \<Rightarrow> auth" where
  "auth_run cr ttl now rq a =
     (case rq of
        Register i e p n \<Rightarrow> snd (register cr i e p n a)
      | Login dw f e p \<Rightarrow> snd (login cr ttl now dw f e p a)
      | CompleteMfa dw f ch c \<Rightarrow> snd (completeMfaLogin cr ttl now dw f ch c a)
      | ProviderSignIn dw f u \<Rightarrow> snd (completeProviderSignIn cr ttl now dw f u a)
      | Refresh dw t \<Rightarrow> snd (refresh cr ttl now dw t a)
      | Logout t \<Rightarrow> logout cr now t a
      | RevokeAll u \<Rightarrow> snd (revokeAllSessions now u a)
      | BeginMfa s u \<Rightarrow> beginEnrollment cr s u a
      | ConfirmMfa cs u c \<Rightarrow> snd (confirmEnrollment cr now cs u c a)
      | DisableMfa u \<Rightarrow> mfa_disable u a)"

text \<open>The family a request would open; the code draws it at random, so it is not in use.\<close>

definition opens :: "auth_request \<Rightarrow> string option" where
  "opens rq =
     (case rq of
        Login _ f _ _ \<Rightarrow> Some f
      | CompleteMfa _ f _ _ \<Rightarrow> Some f
      | ProviderSignIn _ f _ \<Rightarrow> Some f
      | _ \<Rightarrow> None)"

inductive auth_step :: "crypto \<Rightarrow> int \<Rightarrow> auth \<Rightarrow> auth \<Rightarrow> bool" for cr ttl where
  auth_step: "(\<And>f. opens rq = Some f \<Longrightarrow> f \<notin> rt_family ` set (a_tokens a)) \<Longrightarrow>
     auth_step cr ttl a (auth_run cr ttl now rq a)"

inductive auth_steps :: "crypto \<Rightarrow> int \<Rightarrow> auth \<Rightarrow> auth \<Rightarrow> bool" for cr ttl where
  auth_here: "auth_steps cr ttl a a"
| auth_next: "auth_steps cr ttl a b \<Longrightarrow> auth_step cr ttl b c \<Longrightarrow> auth_steps cr ttl a c"

inductive_cases auth_stepE: "auth_step cr ttl a b"

section \<open>A dead family\<close>

definition cut_off :: "string \<Rightarrow> auth \<Rightarrow> bool" where
  "cut_off f a = (f \<in> rt_family ` set (a_tokens a) \<and>
     (\<forall>t \<in> set (a_tokens a). rt_family t = f \<longrightarrow> rt_revoked t \<noteq> None))"

text \<open>
  What an operation may do to the tokens: change rows without taking back a revocation, and add
  rows of the families and users it names.
\<close>

definition only_adds :: "(string \<times> string) set \<Rightarrow> auth \<Rightarrow> auth \<Rightarrow> bool" where
  "only_adds fs a b =
     (\<exists>g new. a_tokens b = map g (a_tokens a) @ new \<and>
        (\<forall>t. rt_family (g t) = rt_family t \<and> rt_user (g t) = rt_user t \<and>
             (rt_revoked t \<noteq> None \<longrightarrow> rt_revoked (g t) \<noteq> None)) \<and>
        (\<forall>t \<in> set new. (rt_family t, rt_user t) \<in> fs))"

lemma only_adds_same: "a_tokens b = a_tokens a \<Longrightarrow> only_adds fs a b"
  unfolding only_adds_def by (rule exI [of _ id], rule exI [of _ "[]"]) simp

lemma only_adds_cut_off:
  assumes "only_adds fs a b" and "cut_off f a" and "f \<notin> fst ` fs"
  shows "cut_off f b"
proof -
  obtain g new where b: "a_tokens b = map g (a_tokens a) @ new"
    and g: "\<And>t. rt_family (g t) = rt_family t" "\<And>t. rt_revoked t \<noteq> None \<Longrightarrow> rt_revoked (g t) \<noteq> None"
    and new: "\<forall>t \<in> set new. (rt_family t, rt_user t) \<in> fs"
    using assms(1) unfolding only_adds_def by blast
  obtain t0 where "t0 \<in> set (a_tokens a)" "rt_family t0 = f"
    using assms(2) by (auto simp: cut_off_def)
  then have "f \<in> rt_family ` set (a_tokens b)"
    using g(1) by (intro image_eqI [of _ _ "g t0"]) (simp_all add: b)
  moreover have "rt_revoked t \<noteq> None" if t: "t \<in> set (a_tokens b)" "rt_family t = f" for t
    using t new assms(2,3) g unfolding b cut_off_def by force
  ultimately show ?thesis by (simp add: cut_off_def)
qed

lemma issue_adds: "only_adds {(f, u)} a (snd (issueSession cr ttl now dw u f a))"
proof (cases "find_user u a")
  case None
  then show ?thesis by (simp add: issueSession_def only_adds_same)
next
  case (Some x)
  then show ?thesis
    unfolding only_adds_def
    by (intro exI [of _ id] exI [of _ "[\<lparr>rt_id = dw_id dw, rt_user = u, rt_family = f,
         rt_hash = cr_sha cr (dw_token dw), rt_expires = now + ttl * 1000, rt_rotated = None,
         rt_revoked = None, rt_created = now\<rparr>]"]) (simp add: issueSession_def)
qed

lemma only_adds_after:
  assumes "only_adds fs b c" and "a_tokens b = update_where p h (a_tokens a)"
    and "\<And>t. rt_family (h t) = rt_family t \<and> rt_user (h t) = rt_user t \<and>
           (rt_revoked t \<noteq> None \<longrightarrow> rt_revoked (h t) \<noteq> None)"
  shows "only_adds fs a c"
proof -
  obtain g new where c: "a_tokens c = map g (a_tokens b) @ new"
    and g: "\<forall>t. rt_family (g t) = rt_family t \<and> rt_user (g t) = rt_user t \<and>
             (rt_revoked t \<noteq> None \<longrightarrow> rt_revoked (g t) \<noteq> None)"
    and new: "\<forall>t \<in> set new. (rt_family t, rt_user t) \<in> fs"
    using assms(1) unfolding only_adds_def by blast
  show ?thesis
    unfolding only_adds_def
    by (rule exI [of _ "\<lambda>t. g (if p t then h t else t)"], rule exI [of _ new])
      (use c g new assms(2,3) in \<open>auto simp: update_where_def\<close>)
qed

lemma only_adds_update:
  assumes "a_tokens b = update_where p h (a_tokens a)"
    and "\<And>t. rt_family (h t) = rt_family t \<and> rt_user (h t) = rt_user t \<and>
           (rt_revoked t \<noteq> None \<longrightarrow> rt_revoked (h t) \<noteq> None)"
  shows "only_adds fs a b"
  by (rule only_adds_after [OF only_adds_same assms]) simp

lemma only_adds_step: "a_tokens b = a_tokens a \<Longrightarrow> only_adds fs b c \<Longrightarrow> only_adds fs a c"
  by (simp add: only_adds_def)

lemma first_factor_adds: "only_adds {(f, u)} a (snd (after_first_factor cr ttl now dw u f a))"
  using issue_adds [where f = f and u = u and a = a and cr = cr and ttl = ttl and now = now and dw = dw]
  by (auto simp: after_first_factor_def only_adds_same split: prod.splits sum.splits)

lemma update_user_tokens [simp]: "a_tokens (update_user u f a) = a_tokens a"
  by (simp add: update_user_def)

lemma revoke_adds: "only_adds fs a (revoke_where hit now a)"
  by (rule only_adds_update [where p = "\<lambda>t. hit t \<and> rt_revoked t = None" and
        h = "\<lambda>t. t\<lparr>rt_revoked := Some now\<rparr>"]) (simp_all add: revoke_where_def)

text \<open>A token is only ever added to a family of its user, or opens one that was not in use.\<close>

definition may_add :: "(string \<times> string) set \<Rightarrow> auth \<Rightarrow> bool" where
  "may_add fs a = (\<exists>f u. fs \<subseteq> {(f, u)} \<and>
     (f \<notin> rt_family ` set (a_tokens a) \<or>
      (\<exists>t \<in> set (a_tokens a). rt_family t = f \<and> rt_user t = u \<and> rt_revoked t = None)))"

lemma may_add_none [simp]: "may_add {} a"
proof -
  obtain f where "f \<notin> rt_family ` set (a_tokens a)"
    using ex_new_if_finite [OF infinite_UNIV_listI, of "rt_family ` set (a_tokens a)"] by auto
  then show ?thesis unfolding may_add_def by blast
qed

lemma refresh_adds: "\<exists>fs. may_add fs a \<and> only_adds fs a (snd (refresh cr ttl now dw p a))"
proof (cases "refresh_read cr p a")
  case None
  then show ?thesis by (intro exI [of _ "{}"]) (simp add: refresh_def refresh_write_def only_adds_same)
next
  case (Some t)
  then have t: "t \<in> set (a_tokens a)" unfolding refresh_read_def findRefreshToken_def by (drule_tac findD) simp
  show ?thesis
  proof (cases "rt_revoked t \<noteq> None \<or> (rt_rotated t = None \<and> rt_expires t \<le> now)")
    case True
    then show ?thesis
      using Some by (intro exI [of _ "{}"]) (auto simp: refresh_def refresh_write_def only_adds_same)
  next
    case live: False
    show ?thesis
    proof (cases "rt_rotated t")
      case (Some x)
      then show ?thesis
        using live \<open>refresh_read cr p a = Some t\<close>
        by (intro exI [of _ "{}"]) (auto simp: refresh_def refresh_write_def revokeFamily_def revoke_adds)
    next
      case None
      define b where "b = a\<lparr>a_tokens := update_where (\<lambda>x. rt_id x = rt_id t) (\<lambda>x. x\<lparr>rt_rotated := Some now\<rparr>) (a_tokens a)\<rparr>"
      have "only_adds {(rt_family t, rt_user t)} a (snd (issueSession cr ttl now dw (rt_user t) (rt_family t) b))"
        by (rule only_adds_after [OF issue_adds, where p = "\<lambda>x. rt_id x = rt_id t" and
              h = "\<lambda>x. x\<lparr>rt_rotated := Some now\<rparr>"]) (simp_all add: b_def)
      moreover have "snd (refresh cr ttl now dw p a) = snd (issueSession cr ttl now dw (rt_user t) (rt_family t) b)"
        using None live \<open>refresh_read cr p a = Some t\<close> by (simp add: refresh_def refresh_write_def b_def)
      moreover have "may_add {(rt_family t, rt_user t)} a"
        unfolding may_add_def
        by (intro exI [of _ "rt_family t"] exI [of _ "rt_user t"] conjI disjI2 bexI [of _ t]) (use t live in auto)
      ultimately show ?thesis by (intro exI [of _ "{(rt_family t, rt_user t)}"]) simp
    qed
  qed
qed

lemma logout_adds: "only_adds fs a (logout cr now t a)"
proof -
  have "logout cr now t a = a \<or> (\<exists>i. logout cr now t a =
      a\<lparr>a_tokens := update_where (\<lambda>x. rt_id x = i) (\<lambda>x. x\<lparr>rt_revoked := Some now\<rparr>) (a_tokens a)\<rparr>)"
    by (auto simp: logout_def split: option.split)
  then show ?thesis
  proof (elim disjE exE)
    fix i
    assume eq: "logout cr now t a =
      a\<lparr>a_tokens := update_where (\<lambda>x. rt_id x = i) (\<lambda>x. x\<lparr>rt_revoked := Some now\<rparr>) (a_tokens a)\<rparr>"
    show ?thesis
      by (rule only_adds_update [where p = "\<lambda>x. rt_id x = i" and h = "\<lambda>x. x\<lparr>rt_revoked := Some now\<rparr>"])
        (simp_all add: eq)
  qed (simp add: only_adds_same)
qed

lemma auth_step_adds:
  assumes "auth_step cr ttl a b"
  shows "\<exists>fs. may_add fs a \<and> only_adds fs a b"
  using assms
proof (rule auth_stepE)
  fix rq now
  assume b: "b = auth_run cr ttl now rq a"
    and fresh: "\<And>g. opens rq = Some g \<Longrightarrow> g \<notin> rt_family ` set (a_tokens a)"
  have opened: ?thesis if "opens rq = Some g" and "\<exists>u. only_adds {(g, u)} a b" for g
    using that(2) fresh [OF that(1)] unfolding may_add_def by blast
  have none: ?thesis if "only_adds {} a b"
    using that may_add_none by blast
  show ?thesis
  proof (cases rq)
    case (Register i e p n)
    then show ?thesis
      by (intro none) (auto simp: b auth_run_def register_def Let_def split: sum.split option.split intro: only_adds_same)
  next
    case (Login dw g e p)
    have "\<exists>u. only_adds {(g, u)} a b"
      unfolding b Login auth_run_def login_def
      by (auto simp: Let_def split: option.split intro: only_adds_same intro!: exI only_adds_step [OF _ first_factor_adds])
    then show ?thesis by (intro opened [of g]) (simp_all add: Login opens_def)
  next
    case (CompleteMfa dw g ch c)
    have same: "a_tokens (snd (verifyChallenge cr now u c a)) = a_tokens a" for u
      by (auto simp: verifyChallenge_def consumeRecoveryCode_def Let_def split: option.split)
    have "\<exists>u. only_adds {(g, u)} a b"
    proof (cases "cr_open cr ch")
      case None
      then show ?thesis by (simp add: b CompleteMfa auth_run_def completeMfaLogin_def only_adds_same)
    next
      case (Some u)
      obtain ok a1 where v: "verifyChallenge cr now u c a = (ok, a1)" by (meson surj_pair)
      then have "a_tokens a1 = a_tokens a" using same [of u] by simp
      then have "only_adds {(g, u)} a b"
        using v Some by (auto simp: b CompleteMfa auth_run_def completeMfaLogin_def
            split: option.split bool.split intro: only_adds_same only_adds_step [OF _ issue_adds])
      then show ?thesis by blast
    qed
    then show ?thesis by (intro opened [of g]) (simp_all add: CompleteMfa opens_def)
  next
    case (ProviderSignIn dw g u)
    have "only_adds {(g, u)} a b"
      unfolding b ProviderSignIn auth_run_def completeProviderSignIn_def
      by (auto split: option.split intro: only_adds_same only_adds_step [OF _ first_factor_adds])
    then show ?thesis by (intro opened [of g]) (auto simp: ProviderSignIn opens_def)
  next
    case (Refresh dw t)
    then show ?thesis using refresh_adds [of a] by (simp add: b auth_run_def)
  next
    case (Logout t)
    then show ?thesis by (intro none) (simp add: b auth_run_def logout_adds)
  next
    case (RevokeAll u)
    then show ?thesis by (intro none) (simp add: b auth_run_def revokeAllSessions_def revoke_adds)
  next
    case (BeginMfa x u)
    then show ?thesis by (intro none) (simp add: b auth_run_def beginEnrollment_def only_adds_same)
  next
    case (ConfirmMfa cs u c)
    then show ?thesis
      by (intro none) (auto simp: b auth_run_def confirmEnrollment_def regenerateRecoveryCodes_def
          split: option.split intro: only_adds_same)
  next
    case (DisableMfa u)
    then show ?thesis by (intro none) (simp add: b auth_run_def mfa_disable_def only_adds_same)
  qed
qed

lemma may_add_cut_off: "may_add fs a \<Longrightarrow> cut_off f a \<Longrightarrow> f \<notin> fst ` fs"
  by (force simp: may_add_def cut_off_def)

lemma auth_step_cut_off: "auth_step cr ttl a b \<Longrightarrow> cut_off f a \<Longrightarrow> cut_off f b"
  using auth_step_adds only_adds_cut_off may_add_cut_off by blast

lemma auth_steps_cut_off: "auth_steps cr ttl a b \<Longrightarrow> cut_off f a \<Longrightarrow> cut_off f b"
  by (induction rule: auth_steps.induct) (auto intro: auth_step_cut_off)

text \<open>A family belongs to one user.\<close>

definition one_owner :: "auth \<Rightarrow> bool" where
  "one_owner a = (\<forall>t \<in> set (a_tokens a). \<forall>x \<in> set (a_tokens a). rt_family t = rt_family x \<longrightarrow> rt_user t = rt_user x)"

lemma auth_step_one_owner:
  assumes "auth_step cr ttl a b" and "one_owner a"
  shows "one_owner b"
proof -
  obtain fs where fs: "may_add fs a" "only_adds fs a b" using auth_step_adds [OF assms(1)] by blast
  obtain g new where b: "a_tokens b = map g (a_tokens a) @ new"
    and g: "\<And>t. rt_family (g t) = rt_family t" "\<And>t. rt_user (g t) = rt_user t"
    and new: "\<forall>t \<in> set new. (rt_family t, rt_user t) \<in> fs"
    using fs(2) unfolding only_adds_def by blast
  obtain f u where fu: "fs \<subseteq> {(f, u)}" "f \<notin> rt_family ` set (a_tokens a) \<or>
      (\<exists>t \<in> set (a_tokens a). rt_family t = f \<and> rt_user t = u)"
    using fs(1) unfolding may_add_def by blast
  have added: "rt_family n = f \<and> rt_user n = u" if "n \<in> set new" for n using that new fu(1) by auto
  have kept: "\<exists>y \<in> set (a_tokens a). rt_family y = rt_family t \<and> rt_user y = rt_user t"
    if "t \<in> set (map g (a_tokens a))" for t
    using that g by auto
  have mixed: "rt_user t = u" if t: "t \<in> set (map g (a_tokens a))" "rt_family t = f" for t
  proof -
    obtain y where y: "y \<in> set (a_tokens a)" "rt_family y = f" "rt_user y = rt_user t"
      using kept [OF t(1)] t(2) by auto
    then have "f \<in> rt_family ` set (a_tokens a)" by blast
    then obtain x where "x \<in> set (a_tokens a)" "rt_family x = f" "rt_user x = u" using fu(2) by auto
    then show ?thesis using assms(2) y unfolding one_owner_def by metis
  qed
  have old: "rt_user t = rt_user x"
    if "t \<in> set (map g (a_tokens a))" "x \<in> set (map g (a_tokens a))" "rt_family t = rt_family x" for t x
    using kept [OF that(1)] kept [OF that(2)] that(3) assms(2) unfolding one_owner_def by metis
  show ?thesis
    unfolding one_owner_def
  proof (intro ballI impI)
    fix t x
    assume t: "t \<in> set (a_tokens b)" and x: "x \<in> set (a_tokens b)" and same: "rt_family t = rt_family x"
    consider "t \<in> set new" "x \<in> set new" | "t \<in> set new" "x \<in> set (map g (a_tokens a))"
      | "t \<in> set (map g (a_tokens a))" "x \<in> set new"
      | "t \<in> set (map g (a_tokens a))" "x \<in> set (map g (a_tokens a))"
      using t x unfolding b set_append by blast
    then show "rt_user t = rt_user x"
    proof cases
      case 1
      then show ?thesis using added [of t] added [of x] by simp
    next
      case 2
      then show ?thesis using added [of t] mixed [of x] same by simp
    next
      case 3
      then show ?thesis using added [of x] mixed [of t] same by simp
    next
      case 4
      then show ?thesis using old same by blast
    qed
  qed
qed

lemma auth_steps_one_owner: "auth_steps cr ttl a b \<Longrightarrow> one_owner a \<Longrightarrow> one_owner b"
  by (induction rule: auth_steps.induct) (auto intro: auth_step_one_owner)

section \<open>Reuse\<close>

lemma refresh_cut_off:
  assumes "cut_off f a" and "refresh_read cr p a = Some t" and "rt_family t = f"
  shows "refresh cr ttl now dw p a = (Inl invalidSession, a)"
proof -
  have "t \<in> set (a_tokens a)" using assms(2) findD by (force simp: refresh_read_def findRefreshToken_def)
  then have "rt_revoked t \<noteq> None" using assms(1,3) by (simp add: cut_off_def)
  then show ?thesis using assms(2) by (simp add: refresh_def refresh_write_def)
qed


text \<open>An example: one account, codes that are right when they repeat the secret.\<close>

definition toy :: crypto where
  "toy = \<lparr>cr_hash = id, cr_verify = (=), cr_weak = (\<lambda>_. False), cr_sha = id, cr_encrypt = id,
     cr_decrypt = id, cr_totp = (=), cr_access = cm_sub, cr_challenge = id, cr_open = Some,
     cr_breached = (\<lambda>_. False)\<rparr>"

definition sample_auth :: "int option \<Rightarrow> auth" where
  "sample_auth mfa =
     \<lparr>a_users = [\<lparr>u_id = ''u1'', u_email = ''ann@example.test'', u_name = ''Ann'',
        u_hash = Some ''correct horse'', u_status = U_ACTIVE, u_super = False, u_deleted = False,
        u_last_login = None, u_totp = Some ''123456'', u_mfa_at = mfa,
        u_verified = None\<rparr>],
      a_tokens = [], a_codes = [\<lparr>rc_user = ''u1'', rc_hash = ''AAAAA-BBBBB'', rc_used = None\<rparr>],
      a_members = []\<rparr>"

definition sample_draw :: "string \<Rightarrow> draw" where
  "sample_draw i = \<lparr>dw_id = ''row '' @ i, dw_token = i\<rparr>"

definition signed_in :: auth where
  "signed_in = auth_run toy 900 1 (Login (sample_draw ''t1'') ''f1'' ''ann@example.test'' ''correct horse'')
     (sample_auth None)"

definition refreshed :: auth where
  "refreshed = auth_run toy 900 2 (Refresh (sample_draw ''t2'') ''t1'') signed_in"

lemma refreshed_reached: "auth_steps toy 900 (sample_auth None) refreshed"
proof -
  have "auth_step toy 900 (sample_auth None) signed_in"
    unfolding signed_in_def by (rule auth_step) (simp add: sample_auth_def)
  moreover have "auth_step toy 900 signed_in refreshed"
    unfolding refreshed_def by (rule auth_step) (simp add: opens_def)
  ultimately show ?thesis by (meson auth_steps.intros)
qed


section \<open>What rotation does not stop\<close>

text \<open>
  Two requests that present one token at the same moment both read it as not yet exchanged, and
  both get a session: the write does not ask again.
\<close>

theorem refresh_race:
  assumes "refresh_read cr p a = Some t" and "rt_revoked t = None" and "rt_rotated t = None"
    and "now < rt_expires t" and "find_user (rt_user t) a = Some u"
  shows "\<exists>s1 s2 b c. refresh_write cr ttl now dw1 (refresh_read cr p a) a = (Inr s1, b) \<and>
    refresh_write cr ttl now dw2 (refresh_read cr p a) b = (Inr s2, c) \<and>
    ss_refresh s1 = dw_token dw1 \<and> ss_refresh s2 = dw_token dw2"
  using assms by (auto simp: refresh_write_def issueSession_def find_user_def)

section \<open>The second factor\<close>

lemma after_first_factor_mfa:
  "mfa_isEnabled u a \<Longrightarrow> a_tokens (snd (after_first_factor cr ttl now dw u f a)) = a_tokens a"
  by (simp add: after_first_factor_def)

lemma issueSession_new:
  assumes "t \<in> set (a_tokens (snd (issueSession cr ttl now dw u f a)))" and "t \<notin> set (a_tokens a)"
  shows "rt_user t = u" and "rt_family t = f"
  using assms by (auto simp: issueSession_def split: option.splits)

lemma mfa_update_user:
  "(\<And>u. u_id (g u) = u_id u) \<Longrightarrow> (\<And>u. u_mfa_at (g u) = u_mfa_at u) \<Longrightarrow>
   mfa_isEnabled i (update_user j g a) = mfa_isEnabled i a"
proof -
  assume g: "\<And>u. u_id (g u) = u_id u" "\<And>u. u_mfa_at (g u) = u_mfa_at u"
  have "map_option u_mfa_at (find (\<lambda>u. u_id u = i) (update_where (\<lambda>u. u_id u = j) g us)) =
      map_option u_mfa_at (find (\<lambda>u. u_id u = i) us)" for us
    by (induction us) (auto simp: g)
  then have "map_option u_mfa_at (find_user i (update_user j g a)) = map_option u_mfa_at (find_user i a)"
    by (simp add: find_user_def update_user_def)
  then show ?thesis
    by (cases "find_user i a"; cases "find_user i (update_user j g a)") (auto simp: mfa_isEnabled_def)
qed

lemma first_factor_stops:
  assumes "t \<in> set (a_tokens (snd (after_first_factor cr ttl now dw u f b)))" and "t \<notin> set (a_tokens b)"
  shows "rt_user t = u \<and> \<not> mfa_isEnabled u b"
proof (cases "mfa_isEnabled u b")
  case True
  then show ?thesis using assms by (simp add: after_first_factor_def)
next
  case False
  have "t \<in> set (a_tokens (snd (issueSession cr ttl now dw u f b)))"
    using assms False by (auto simp: after_first_factor_def split: prod.splits sum.splits)
  then show ?thesis using issueSession_new assms(2) False by blast
qed

lemma update_where_spends: "(\<And>c. \<not> p (g c)) \<Longrightarrow> \<forall>c \<in> set (update_where p g rows). \<not> p c"
  by (induction rows) auto

lemma consume_spends:
  assumes "a_codes b = a_codes (snd (consumeRecoveryCode cr now v code a))"
  shows "\<not> fst (consumeRecoveryCode cr now' v code b)"
proof -
  define hit where "hit c = (rc_user c = v \<and> rc_hash c = hashCode cr (map upper_char (js_trim code)) \<and>
    rc_used c = None)" for c :: recovery_code
  have "a_codes b = update_where hit (\<lambda>c. c\<lparr>rc_used := Some now\<rparr>) (a_codes a)"
    using assms by (simp add: consumeRecoveryCode_def Let_def hit_def [abs_def])
  moreover have "\<not> hit (c\<lparr>rc_used := Some now\<rparr>)" for c by (simp add: hit_def)
  ultimately have "\<forall>c \<in> set (a_codes b). \<not> hit c" 
    using update_where_spends [of hit "\<lambda>c. c\<lparr>rc_used := Some now\<rparr>" "a_codes a"] by simp
  then show ?thesis by (auto simp: consumeRecoveryCode_def Let_def hit_def)
qed

text \<open>
  C18. A request that starts a new session family for an account whose second factor is on is the
  completion of a sign-in: it came with a valid challenge for that account and a code that was
  checked, and a recovery code that was accepted is not accepted again.
\<close>

theorem second_factor_holds:
  assumes "b = auth_run cr ttl now rq a" and "t \<in> set (a_tokens b)"
    and "rt_family t \<notin> rt_family ` set (a_tokens a)" and "mfa_isEnabled (rt_user t) a"
  shows "\<exists>dw f ch code u secret. rq = CompleteMfa dw f ch code \<and> cr_open cr ch = Some (rt_user t) \<and>
    find_user (rt_user t) a = Some u \<and> u_status u = U_ACTIVE \<and> u_totp u = Some secret \<and>
    (cr_totp cr (cr_decrypt cr secret) (js_trim code) \<or>
     fst (consumeRecoveryCode cr now (rt_user t) code a) \<and>
     \<not> fst (consumeRecoveryCode cr now' (rt_user t) code b))"
proof -
  have fresh: "t \<notin> set (a_tokens a)" using assms(3) by auto
  note b = assms(1) and t = assms(2)
  have keep: "rt_family x = rt_family y \<Longrightarrow> y \<in> set (a_tokens a) \<Longrightarrow> x \<noteq> t" for x y using assms(3) by auto
  have updated: "t \<notin> set (update_where p g (a_tokens a))" if "\<And>x. rt_family (g x) = rt_family x" for p g
    using assms(3) that by (auto simp: set_update_where)
  show ?thesis
  proof (cases rq)
    case (Register i e p n)
    then show ?thesis using b t fresh by (auto simp: auth_run_def register_def Let_def split: sum.splits option.splits)
  next
    case (Login dw f e p)
    then have "t \<in> set (a_tokens (snd (login cr ttl now dw f e p a)))" using b t by (simp add: auth_run_def)
    then obtain u g where "t \<in> set (a_tokens (snd (after_first_factor cr ttl now dw u f (update_user u g a))))"
      "\<And>u. u_id (g u) = u_id u" "\<And>u. u_mfa_at (g u) = u_mfa_at u"
      using fresh by (auto simp: login_def split: option.splits if_splits)
    then show ?thesis using first_factor_stops [of t cr ttl now dw u f "update_user u g a"] fresh assms(4)
        mfa_update_user [of g u u a] by auto
  next
    case (ProviderSignIn dw f v)
    then have "t \<in> set (a_tokens (snd (completeProviderSignIn cr ttl now dw f v a)))" using b t by (simp add: auth_run_def)
    then have "t \<in> set (a_tokens (snd (after_first_factor cr ttl now dw v f
        (update_user v (\<lambda>u. u\<lparr>u_last_login := Some now\<rparr>) a))))"
      using fresh by (auto simp: completeProviderSignIn_def split: option.splits)
    then show ?thesis
      using first_factor_stops [of t cr ttl now dw v f "update_user v (\<lambda>u. u\<lparr>u_last_login := Some now\<rparr>) a"]
        fresh assms(4) mfa_update_user [of "\<lambda>u. u\<lparr>u_last_login := Some now\<rparr>" v v a]
      by auto
  next
    case (CompleteMfa dw f ch code)
    then have in_b: "t \<in> set (a_tokens (snd (completeMfaLogin cr ttl now dw f ch code a)))" using b t by (simp add: auth_run_def)
    obtain v where v: "cr_open cr ch = Some v" using in_b fresh by (auto simp: completeMfaLogin_def split: option.splits)
    obtain u where u: "find_user v a = Some u" "u_status u = U_ACTIVE"
      using in_b fresh v by (auto simp: completeMfaLogin_def split: option.splits if_splits)
    obtain ok a1 where vc: "verifyChallenge cr now v code a = (ok, a1)" by (meson surj_pair)
    have same: "a_tokens a1 = a_tokens a"
      using vc by (auto simp: verifyChallenge_def consumeRecoveryCode_def Let_def split: option.splits if_splits)
    have run: "snd (completeMfaLogin cr ttl now dw f ch code a) =
        (if ok then snd (issueSession cr ttl now dw v f a1) else a1)"
      using u v vc by (simp add: completeMfaLogin_def split: bool.split)
    then have ok: ok using in_b fresh same by (auto split: if_splits)
    then have user: "rt_user t = v" using in_b run fresh same issueSession_new by (metis (full_types))
    have bb: "b = snd (issueSession cr ttl now dw v f a1)" using run ok b CompleteMfa by (simp add: auth_run_def)
    have codes: "a_codes b = a_codes a1" by (auto simp: bb issueSession_def split: option.split)
    obtain secret where s: "u_totp u = Some secret"
      "cr_totp cr (cr_decrypt cr secret) (js_trim code) \<or> (ok, a1) = consumeRecoveryCode cr now v code a"
      using vc ok u by (auto simp: verifyChallenge_def split: option.splits if_splits)
    have spent: "\<not> fst (consumeRecoveryCode cr now' v code b)" if "(ok, a1) = consumeRecoveryCode cr now v code a"
      by (rule consume_spends [where a = a and now = now]) (simp add: codes that [symmetric])
    show ?thesis
      using CompleteMfa u v s ok spent user by (cases "consumeRecoveryCode cr now v code a") auto
  next
    case (Refresh dw p)
    then have in_b: "t \<in> set (a_tokens (snd (refresh cr ttl now dw p a)))" using b t by (simp add: auth_run_def)
    show ?thesis
    proof (cases "refresh_read cr p a")
      case None
      then show ?thesis using in_b fresh by (simp add: refresh_def refresh_write_def)
    next
      case (Some r)
      then have r: "r \<in> set (a_tokens a)" unfolding refresh_read_def findRefreshToken_def by (drule_tac findD) simp
      define a1 where "a1 = a\<lparr>a_tokens := update_where (\<lambda>x. rt_id x = rt_id r) (\<lambda>x. x\<lparr>rt_rotated := Some now\<rparr>) (a_tokens a)\<rparr>"
      have "t \<in> set (a_tokens (snd (issueSession cr ttl now dw (rt_user r) (rt_family r) a1)))"
        using in_b Some fresh updated [of "\<lambda>t. t\<lparr>rt_revoked := Some now\<rparr>"]
        by (auto simp: refresh_def refresh_write_def revokeFamily_def revoke_where_def a1_def split: if_splits)
      moreover have "t \<notin> set (a_tokens a1)" by (simp add: a1_def updated)
      ultimately have "rt_family t = rt_family r" using issueSession_new by blast
      then show ?thesis using assms(3) r by auto
    qed
  qed (use b t fresh updated in \<open>auto simp: auth_run_def logout_def revokeAllSessions_def revoke_where_def
      beginEnrollment_def confirmEnrollment_def regenerateRecoveryCodes_def mfa_disable_def split: option.splits if_splits\<close>)
qed

theorem second_factor_holds_witness:
  "let b = auth_run toy 900 5 (CompleteMfa (sample_draw ''t1'') ''f1'' ''u1'' '' aaaaa-bbbbb'') (sample_auth (Some 0))
   in map rt_user (a_tokens b) = [''u1''] \<and>
      \<not> fst (consumeRecoveryCode toy 6 ''u1'' '' aaaaa-bbbbb'' b)"
proof -
  define rq where "rq = CompleteMfa (sample_draw ''t1'') ''f1'' ''u1'' '' aaaaa-bbbbb''"
  define b where "b = auth_run toy 900 5 rq (sample_auth (Some 0))"
  have tokens: "map (\<lambda>t. (rt_user t, rt_family t)) (a_tokens b) = [(''u1'', ''f1'')]"
    unfolding b_def rq_def by code_simp
  then obtain t where t: "a_tokens b = [t]" "rt_user t = ''u1''" by auto
  have on: "mfa_isEnabled ''u1'' (sample_auth (Some 0))" by code_simp
  have none: "a_tokens (sample_auth (Some 0)) = []" by (simp add: sample_auth_def)
  have wrong: "\<not> cr_totp toy (cr_decrypt toy ''123456'') (js_trim '' aaaaa-bbbbb'')" by code_simp
  have secret: "find_user ''u1'' (sample_auth (Some 0)) = Some u \<Longrightarrow> u_totp u = Some ''123456''" for u
    by (auto simp: find_user_def sample_auth_def split: if_splits)
  have mem: "t \<in> set (a_tokens b)" "rt_family t \<notin> rt_family ` set (a_tokens (sample_auth (Some 0)))"
    "mfa_isEnabled (rt_user t) (sample_auth (Some 0))"
    using t on none by simp_all
  obtain dw f ch code u s where got: "rq = CompleteMfa dw f ch code"
    "find_user (rt_user t) (sample_auth (Some 0)) = Some u" "u_totp u = Some s"
    "cr_totp toy (cr_decrypt toy s) (js_trim code) \<or> \<not> fst (consumeRecoveryCode toy 6 (rt_user t) code b)"
    using second_factor_holds [OF b_def mem, of 6] by auto
  have "code = '' aaaaa-bbbbb''" using got(1) by (simp add: rq_def)
  moreover have "s = ''123456''" using secret [of u] got(2,3) t(2) by simp
  ultimately have "\<not> fst (consumeRecoveryCode toy 6 ''u1'' '' aaaaa-bbbbb'' b)"
    using got(4) wrong t(2) by simp
  then show ?thesis using t by (simp add: b_def rq_def)
qed

end
