(* ===== verification/Contrast.thy ===== *)
theory Contrast
  imports Schema
begin

text \<open>
  Colour contrast of a store's branding (\<open>packages/shared/src/contrast.ts\<close>).  Luminance is a real
  number here where the code has a double; the ratio is compared after rounding to hundredths.
\<close>

record rgb =
  c_r :: nat
  c_g :: nat
  c_b :: nat

definition hex_value :: "char \<Rightarrow> nat option" where
  "hex_value c =
     (let n = (of_char c :: nat) in
      if 48 \<le> n \<and> n \<le> 57 then Some (n - 48)
      else if 97 \<le> n \<and> n \<le> 102 then Some (n - 87)
      else if 65 \<le> n \<and> n \<le> 70 then Some (n - 55)
      else None)"

definition hex_pair :: "char \<Rightarrow> char \<Rightarrow> nat option" where
  "hex_pair a b =
     (case (hex_value a, hex_value b) of (Some x, Some y) \<Rightarrow> Some (16 * x + y) | _ \<Rightarrow> None)"

definition rgb_of :: "nat option \<Rightarrow> nat option \<Rightarrow> nat option \<Rightarrow> rgb option" where
  "rgb_of r g b =
     (case (r, g, b) of (Some x, Some y, Some z) \<Rightarrow> Some \<lparr>c_r = x, c_g = y, c_b = z\<rparr> | _ \<Rightarrow> None)"

definition parseHexColor :: "string \<Rightarrow> rgb option" where
  "parseHexColor input =
     (let t = js_trim input;
          hex = (case t of [] \<Rightarrow> [] | c # cs \<Rightarrow> if c = CHR ''#'' then cs else t)
      in case hex of
           [a, b, c] \<Rightarrow> rgb_of (hex_pair a a) (hex_pair b b) (hex_pair c c)
         | [a, b, c, d, e, f] \<Rightarrow> rgb_of (hex_pair a b) (hex_pair c d) (hex_pair e f)
         | _ \<Rightarrow> None)"

definition channel :: "nat \<Rightarrow> real" where
  "channel value =
     (let c = real value / 255 in if c \<le> 0.03928 then c / 12.92 else ((c + 0.055) / 1.055) powr 2.4)"

definition relativeLuminance :: "rgb \<Rightarrow> real" where
  "relativeLuminance c = 0.2126 * channel (c_r c) + 0.7152 * channel (c_g c) + 0.0722 * channel (c_b c)"

definition contrastRatio :: "rgb \<Rightarrow> rgb \<Rightarrow> real" where
  "contrastRatio a b =
     (max (relativeLuminance a) (relativeLuminance b) + 0.05) /
     (min (relativeLuminance a) (relativeLuminance b) + 0.05)"

definition AA_NORMAL_TEXT :: real where "AA_NORMAL_TEXT = 4.5"
definition AA_LARGE_TEXT :: real where "AA_LARGE_TEXT = 3"
definition AA_NON_TEXT :: real where "AA_NON_TEXT = 3"

record contrast_check =
  cc_pair :: string
  cc_ratio :: real
  cc_required :: real
  cc_passes :: bool

record contrast_result =
  cn_passes :: bool
  cn_checks :: "contrast_check list"
  cn_invalid :: "string list"

text \<open>\<open>Math.round(x * 100) / 100\<close>\<close>

definition hundredths :: "real \<Rightarrow> real" where
  "hundredths x = of_int \<lfloor>x * 100 + 1 / 2\<rfloor> / 100"

definition check_pair :: "string \<times> rgb \<times> rgb \<times> real \<Rightarrow> contrast_check" where
  "check_pair p =
     (case p of (pair, a, b, required) \<Rightarrow>
        let ratio = hundredths (contrastRatio a b) in
        \<lparr>cc_pair = pair, cc_ratio = ratio, cc_required = required, cc_passes = (ratio \<ge> required)\<rparr>)"

definition theme_colors :: "theme \<Rightarrow> (string \<times> rgb option) list" where
  "theme_colors t =
     [(''primary'', parseHexColor (th_primary t)), (''background'', parseHexColor (th_background t)),
      (''text'', parseHexColor (th_text t)), (''accent'', parseHexColor (th_accent t))]"

definition checkBrandingContrast :: "theme \<Rightarrow> contrast_result" where
  "checkBrandingContrast t =
     (case (parseHexColor (th_primary t), parseHexColor (th_background t), parseHexColor (th_text t),
            parseHexColor (th_accent t)) of
        (Some primary, Some background, Some txt, Some accent) \<Rightarrow>
          (let checks = map check_pair
                 [(''text on background'', txt, background, AA_NORMAL_TEXT),
                  (''primary on background'', primary, background, AA_LARGE_TEXT),
                  (''accent on background'', accent, background, AA_NON_TEXT)]
           in \<lparr>cn_passes = list_all cc_passes checks, cn_checks = checks, cn_invalid = []\<rparr>)
      | _ \<Rightarrow> \<lparr>cn_passes = False, cn_checks = [],
               cn_invalid = map fst (filter (\<lambda>(n, c). c = None) (theme_colors t))\<rparr>)"

section \<open>Between one and twenty-one\<close>

lemma hex_value_lt: "hex_value c = Some n \<Longrightarrow> n < 16"
  by (auto simp: hex_value_def Let_def split: if_splits)

lemma hex_pair_lt: "hex_pair a b = Some n \<Longrightarrow> n \<le> 255"
  using hex_value_lt [of a] hex_value_lt [of b] by (fastforce simp: hex_pair_def split: option.splits)

definition byte_color :: "rgb \<Rightarrow> bool" where
  "byte_color c = (c_r c \<le> 255 \<and> c_g c \<le> 255 \<and> c_b c \<le> 255)"

lemma rgb_of_byte:
  "rgb_of (hex_pair a b) (hex_pair c d) (hex_pair e f) = Some x \<Longrightarrow> byte_color x"
  using hex_pair_lt [of a b] hex_pair_lt [of c d] hex_pair_lt [of e f]
  by (auto simp: rgb_of_def byte_color_def split: option.splits)

lemma parseHexColor_byte: "parseHexColor s = Some x \<Longrightarrow> byte_color x"
  by (auto simp: parseHexColor_def Let_def split: list.splits if_splits intro: rgb_of_byte)

lemma channel_bounds:
  assumes "n \<le> 255"
  shows "0 \<le> channel n" and "channel n \<le> 1"
proof -
  have c: "0 \<le> real n / 255" "real n / 255 \<le> 1" using assms by simp_all
  show "0 \<le> channel n" by (simp add: channel_def Let_def)
  show "channel n \<le> 1"
  proof (cases "real n / 255 \<le> 0.03928")
    case True
    then show ?thesis by (simp add: channel_def)
  next
    case False
    have "((real n / 255 + 0.055) / 1.055) powr 2.4 \<le> 1 powr 2.4"
      by (rule powr_mono2) (use c in auto)
    then show ?thesis using False by (simp add: channel_def Let_def)
  qed
qed

lemma luminance_bounds:
  assumes "byte_color c"
  shows "0 \<le> relativeLuminance c" and "relativeLuminance c \<le> 1"
proof -
  have "0 \<le> channel (c_r c)" "channel (c_r c) \<le> 1" "0 \<le> channel (c_g c)" "channel (c_g c) \<le> 1"
    "0 \<le> channel (c_b c)" "channel (c_b c) \<le> 1"
    using assms channel_bounds by (simp_all add: byte_color_def)
  then have "0 \<le> relativeLuminance c \<and> relativeLuminance c \<le> 1"
    unfolding relativeLuminance_def by (simp add: field_simps)
  then show "0 \<le> relativeLuminance c" and "relativeLuminance c \<le> 1" by simp_all
qed

lemma contrastRatio_sym: "contrastRatio a b = contrastRatio b a"
  by (simp add: contrastRatio_def max.commute min.commute)

lemma contrastRatio_same: "byte_color a \<Longrightarrow> contrastRatio a a = 1"
  using luminance_bounds(1) [of a] by (simp add: contrastRatio_def)

lemma twentyone: "0 \<le> lo \<Longrightarrow> hi \<le> 1 \<Longrightarrow> hi + 0.05 \<le> 21 * (lo + (0.05::real))"
  by simp

text \<open>
  The contrast of two colours that parse is the same in either order and lies between one and
  twenty-one, so no theme is refused or let through for a ratio the rules do not know.
\<close>

theorem contrast_in_range:
  assumes "parseHexColor s = Some a" and "parseHexColor t = Some b"
  shows "contrastRatio a b = contrastRatio b a \<and> 1 \<le> contrastRatio a b \<and> contrastRatio a b \<le> 21"
proof -
  let ?hi = "max (relativeLuminance a) (relativeLuminance b)"
  let ?lo = "min (relativeLuminance a) (relativeLuminance b)"
  have lum: "0 \<le> ?lo" "?lo \<le> ?hi" "?hi \<le> 1"
    using luminance_bounds [OF parseHexColor_byte [OF assms(1)]]
      luminance_bounds [OF parseHexColor_byte [OF assms(2)]] by auto
  have pos: "0 < ?lo + 0.05" by (rule add_nonneg_pos [OF lum(1)]) simp
  have "?lo + 0.05 \<le> ?hi + 0.05" using lum by linarith
  with pos have "1 \<le> contrastRatio a b" unfolding contrastRatio_def by (simp only: le_divide_eq_1_pos)
  moreover have "?hi + 0.05 \<le> 21 * (?lo + 0.05)" using lum(1,3) by (rule twentyone)
  then have "contrastRatio a b \<le> 21" unfolding contrastRatio_def using pos by (simp only: pos_divide_le_eq)
  ultimately show ?thesis using contrastRatio_sym by simp
qed

end
