(* ===== verification/StoreOps.thy ===== *)
theory StoreOps
  imports Contrast Sessions Payments
begin

text \<open>
  \<open>StoreService\<close> (\<open>modules/stores/store.service.ts\<close>): a store's profile, its lifecycle, opening hours
  and delivery zones (its tax rates are in \<open>Tax\<close>).  Opening hours are a table of this service alone
  and are passed beside the world; the sessions a suspension ends are the rows of \<open>Sessions\<close>.
\<close>

section \<open>Profile\<close>

definition store_get :: "string \<Rightarrow> world \<Rightarrow> store res" where
  "store_get storeId w = (case find_store storeId w of None \<Rightarrow> notFound | Some s \<Rightarrow> Inr s)"

text \<open>A patch leaves out what it does not change; of the branding it may hold a theme.\<close>

record profile_patch =
  pp_name :: "string option"
  pp_legal :: "string option"
  pp_line1 :: "string option"
  pp_city :: "string option"
  pp_state :: "string option"
  pp_postal :: "string option"
  pp_branding :: "theme option option"

definition check_theme :: "theme option option \<Rightarrow> unit res" where
  "check_theme branding =
     (case branding of
        Some (Some t) \<Rightarrow>
          (let result = checkBrandingContrast t in
           if cn_invalid result \<noteq> [] then Inl (Validation ''Some brand colours aren't valid hex values.'')
           else guardE (cn_passes result)
             (Validation ''These colour combinations are too low-contrast to read.''))
      | _ \<Rightarrow> Inr ())"

definition patch_store :: "profile_patch \<Rightarrow> store \<Rightarrow> store" where
  "patch_store patch s =
     s\<lparr>s_name := (case pp_name patch of None \<Rightarrow> s_name s | Some n \<Rightarrow> js_trim n),
       s_legal := (case pp_legal patch of None \<Rightarrow> s_legal s | Some n \<Rightarrow> js_trim n),
       s_line1 := (case pp_line1 patch of None \<Rightarrow> s_line1 s | Some x \<Rightarrow> Some x),
       s_city := (case pp_city patch of None \<Rightarrow> s_city s | Some x \<Rightarrow> Some x),
       s_state := (case pp_state patch of None \<Rightarrow> s_state s | Some x \<Rightarrow> Some x),
       s_postal := (case pp_postal patch of None \<Rightarrow> s_postal s | Some x \<Rightarrow> Some x),
       s_theme := (case pp_branding patch of None \<Rightarrow> s_theme s | Some t \<Rightarrow> t)\<rparr>"

definition updateProfile :: "string \<Rightarrow> profile_patch \<Rightarrow> world \<Rightarrow> store outcome" where
  "updateProfile storeId patch w =
     (case bindE (store_get storeId w) (\<lambda>before. mapE (\<lambda>_. before) (check_theme (pp_branding patch))) of
        Inl e \<Rightarrow> (Inl e, w)
      | Inr before \<Rightarrow>
          (Inr (patch_store patch before),
           audit_record (audit_entry_of ''store.profile_updated'' MEDIUM storeId None ''store'' storeId)
             (w\<lparr>w_stores := update_where (\<lambda>s. s_id s = storeId) (patch_store patch) (w_stores w)\<rparr>)))"

section \<open>Lifecycle\<close>

text \<open>The table of the error message, kept apart from the one that decides.\<close>

fun allowedFrom :: "store_status \<Rightarrow> store_status list" where
  "allowedFrom APPROVED = [ACTIVE, CLOSED]"
| "allowedFrom ACTIVE = [SUSPENDED, CLOSED]"
| "allowedFrom SUSPENDED = [ACTIVE, CLOSED]"
| "allowedFrom CLOSED = []"

fun store_status_text :: "store_status \<Rightarrow> string" where
  "store_status_text APPROVED = ''approved''"
| "store_status_text ACTIVE = ''active''"
| "store_status_text SUSPENDED = ''suspended''"
| "store_status_text CLOSED = ''closed''"

fun revoke_each :: "int \<Rightarrow> string list \<Rightarrow> auth \<Rightarrow> nat \<times> auth" where
  "revoke_each now [] a = (0, a)"
| "revoke_each now (u # us) a =
     (case revokeAllSessions now u a of (n, a1) \<Rightarrow> (case revoke_each now us a1 of (k, a2) \<Rightarrow> (n + k, a2)))"

definition revokeAllStaffSessions :: "int \<Rightarrow> string \<Rightarrow> world \<Rightarrow> auth \<Rightarrow> nat \<times> auth" where
  "revokeAllStaffSessions now storeId w =
     revoke_each now (map m_user (filter (\<lambda>m. m_store m = storeId) (w_members w)))"

datatype store_move_error =
    StoreMissing app_error
  | IllegalMove store_status store_status "store_status list"

definition set_status :: "int \<Rightarrow> store_status \<Rightarrow> store \<Rightarrow> store" where
  "set_status now to s =
     s\<lparr>s_status := to,
       s_approved_at := (if to = ACTIVE \<and> s_approved_at s = None then Some now else s_approved_at s)\<rparr>"

definition store_transition ::
    "int \<Rightarrow> string \<Rightarrow> store_status \<Rightarrow> string \<Rightarrow> world \<times> auth \<Rightarrow>
     (store_move_error + unit) \<times> world \<times> auth" where
  "store_transition now storeId to actorId wa =
     (case wa of (w, a) \<Rightarrow>
        case find_store storeId w of
          None \<Rightarrow> (Inl (StoreMissing (NotFound ''Not found.'')), w, a)
        | Some s \<Rightarrow>
            if s_status s = to then (Inr (), w, a)
            else (case assertStoreTransition (s_status s) to of
              Inl _ \<Rightarrow> (Inl (IllegalMove (s_status s) to (allowedFrom (s_status s))), w, a)
            | Inr _ \<Rightarrow>
                (let w1 = audit_record (audit_entry_of (''store.'' @ store_status_text to) HIGH storeId
                            (Some actorId) ''store'' storeId)
                       (w\<lparr>w_stores := update_where (\<lambda>x. s_id x = storeId) (set_status now to) (w_stores w)\<rparr>)
                 in (Inr (), w1,
                     if to = SUSPENDED \<or> to = CLOSED then snd (revokeAllStaffSessions now storeId w1 a) else a))))"

section \<open>Opening hours\<close>

record hours_entry =
  he_weekday :: int
  he_opens :: "string option"
  he_closes :: "string option"
  he_closed :: bool

record hours_row =
  hr_store :: string
  hr_weekday :: int
  hr_opens :: "string option"
  hr_closes :: "string option"
  hr_closed :: bool

definition getHours :: "string \<Rightarrow> hours_row list \<Rightarrow> hours_row list" where
  "getHours storeId rows = sort_key hr_weekday (filter (\<lambda>h. hr_store h = storeId) rows)"

definition check_entry :: "hours_entry \<Rightarrow> unit res" where
  "check_entry en =
     (if he_weekday en < 0 \<or> he_weekday en > 6
      then Inl (Validation ''Weekday must be between 0 (Sunday) and 6 (Saturday).'')
      else if \<not> he_closed en \<and> (he_opens en \<in> {None, Some []} \<or> he_closes en \<in> {None, Some []})
      then Inl (Validation ''Open and close times are required unless the day is closed.'')
      else Inr ())"

definition hours_of :: "string \<Rightarrow> hours_entry \<Rightarrow> hours_row" where
  "hours_of storeId en =
     \<lparr>hr_store = storeId, hr_weekday = he_weekday en,
      hr_opens = (if he_closed en then None else he_opens en),
      hr_closes = (if he_closed en then None else he_closes en), hr_closed = he_closed en\<rparr>"

text \<open>One insert, under the unique index on store and weekday.\<close>

definition create_hours :: "string \<Rightarrow> hours_entry \<Rightarrow> hours_row list \<Rightarrow> hours_row list res" where
  "create_hours storeId en rows =
     (if \<exists>h \<in> set rows. hr_store h = storeId \<and> hr_weekday h = he_weekday en
      then Inl (UniqueViolation ''store_hours'')
      else Inr (rows @ [hours_of storeId en]))"

definition setHours ::
    "string \<Rightarrow> hours_entry list \<Rightarrow> hours_row list \<times> world \<Rightarrow> hours_row list res \<times> hours_row list \<times> world" where
  "setHours storeId entries hw =
     (case hw of (rows, w) \<Rightarrow>
        case bindE (mapsE check_entry entries)
               (\<lambda>_. foldE (create_hours storeId) entries (filter (\<lambda>h. hr_store h \<noteq> storeId) rows)) of
          Inl e \<Rightarrow> (Inl e, rows, w)
        | Inr rows' \<Rightarrow>
            (Inr (getHours storeId rows'), rows',
             audit_record (audit_entry_of ''store.hours_updated'' LOW storeId None ''store'' storeId) w))"

section \<open>Delivery zones\<close>

record zone_input =
  zi_name :: string
  zi_lat :: real
  zi_lng :: real
  zi_radius :: int
  zi_fee :: int
  zi_min_order :: int
  zi_eta :: int

definition getZones :: "string \<Rightarrow> world \<Rightarrow> zone list" where
  "getZones storeId w = sort_key z_radius (filter (\<lambda>z. z_store z = storeId) (w_zones w))"

definition createZone :: "string \<Rightarrow> string \<Rightarrow> zone_input \<Rightarrow> world \<Rightarrow> zone outcome" where
  "createZone newId storeId i w =
     (if zi_lat i < - 90 \<or> zi_lat i > 90
      then (Inl (Validation ''Latitude must be between -90 and 90.''), w)
      else if zi_lng i < - 180 \<or> zi_lng i > 180
      then (Inl (Validation ''Longitude must be between -180 and 180.''), w)
      else if zi_radius i < 100 \<or> zi_radius i > 100000
      then (Inl (Validation ''A delivery radius must be between 100 m and 100 km.''), w)
      else if \<not> (fits_int4 (zi_fee i) \<and> fits_int4 (zi_min_order i) \<and> fits_int4 (zi_eta i))
      then (Inl (CheckViolation ''integer''), w)
      else
        let z = \<lparr>z_id = newId, z_name = js_trim (zi_name i), z_store = storeId, z_active = True,
                 z_fee = zi_fee i, z_min_order = zi_min_order i, z_eta = zi_eta i, z_lat = zi_lat i,
                 z_lng = zi_lng i, z_radius = zi_radius i\<rparr>
        in (Inr z, audit_record
              (audit_entry_of ''store.delivery_zone_created'' MEDIUM storeId None ''delivery_zone'' newId)
              (w\<lparr>w_zones := w_zones w @ [z]\<rparr>)))"

definition deleteZone :: "string \<Rightarrow> string \<Rightarrow> world \<Rightarrow> unit outcome" where
  "deleteZone storeId zoneId w =
     (if count_where (\<lambda>z. z_id z = zoneId \<and> z_store z = storeId) (w_zones w) = 0 then (notFound, w)
      else (Inr (), audit_record
              (audit_entry_of ''store.delivery_zone_deleted'' MEDIUM storeId None ''delivery_zone'' zoneId)
              (w\<lparr>w_zones := filter (\<lambda>z. \<not> (z_id z = zoneId \<and> z_store z = storeId)) (w_zones w)\<rparr>)))"

text \<open>
  This service rounds the distance to a metre, so it is an integer here; the function is a
  parameter of the check below.
\<close>

definition rounded_haversine :: "real \<Rightarrow> real \<Rightarrow> real \<Rightarrow> real \<Rightarrow> int" where
  "rounded_haversine lat1 lng1 lat2 lng2 =
     (let toRad = (\<lambda>d. d * pi / 180);
          dLat = toRad (lat2 - lat1);
          dLng = toRad (lng2 - lng1);
          a = sin (dLat / 2) ^ 2 + cos (toRad lat1) * cos (toRad lat2) * sin (dLng / 2) ^ 2
      in \<lfloor>2 * 6371000 * arcsin (sqrt a) + 1 / 2\<rfloor>)"

fun best_zone :: "(zone \<Rightarrow> int) \<Rightarrow> zone list \<Rightarrow> (zone \<times> int) option \<Rightarrow> (zone \<times> int) option" where
  "best_zone metres [] best = best"
| "best_zone metres (z # zs) best =
     (if metres z > z_radius z then best_zone metres zs best
      else case best of
        None \<Rightarrow> best_zone metres zs (Some (z, metres z))
      | Some (b, _) \<Rightarrow>
          best_zone metres zs (if z_fee z < z_fee b then Some (z, metres z) else best))"

record serviceability =
  sv_serviceable :: bool
  sv_zone :: "zone option"
  sv_distance :: "int option"

definition checkServiceability ::
    "(real \<Rightarrow> real \<Rightarrow> real \<Rightarrow> real \<Rightarrow> int) \<Rightarrow> string \<Rightarrow> real \<Rightarrow> real \<Rightarrow> world \<Rightarrow> serviceability" where
  "checkServiceability metres storeId lat lng w =
     (case best_zone (\<lambda>z. metres lat lng (z_lat z) (z_lng z))
             (filter (\<lambda>z. z_store z = storeId \<and> z_active z) (w_zones w)) None of
        None \<Rightarrow> \<lparr>sv_serviceable = False, sv_zone = None, sv_distance = None\<rparr>
      | Some (z, d) \<Rightarrow> \<lparr>sv_serviceable = True, sv_zone = Some z, sv_distance = Some d\<rparr>)"

section \<open>Tax rates\<close>

definition getTaxRates :: "string \<Rightarrow> world \<Rightarrow> tax_rate list" where
  "getTaxRates storeId w = filter (\<lambda>r. tr_store r = storeId \<and> tr_active r) (w_rates w)"

end
