(* ===== verification/StoreOpsProps.thy ===== *)
theory StoreOpsProps
  imports StoreOps SessionProps
begin

text \<open>
  What \<open>StoreOps\<close> promises: ending a store's business signs its staff out and nobody else, a
  week of hours is replaced whole or not at all, and a delivery check answers the cheapest zone.
\<close>

lemma allowedFrom_agrees: "allowedFrom s = STORE_TRANSITIONS s"
  by (cases s) simp_all

section \<open>Revoking\<close>

lemma revoke_where_tokens:
  "a_tokens (revoke_where hit now a) =
     map (\<lambda>t. if hit t \<and> rt_revoked t = None then t\<lparr>rt_revoked := Some now\<rparr> else t) (a_tokens a)"
  by (simp add: revoke_where_def update_where_def)

lemma revoke_each_Cons:
  "snd (revoke_each now (u # us) a) = snd (revoke_each now us (snd (revokeAllSessions now u a)))"
  by (simp split: prod.split)

lemma revoke_each_tokens:
  "a_tokens (snd (revoke_each now us a)) =
     map (\<lambda>t. if rt_user t \<in> set us \<and> rt_revoked t = None then t\<lparr>rt_revoked := Some now\<rparr> else t)
       (a_tokens a)"
proof (induction us arbitrary: a)
  case (Cons u us)
  show ?case
    unfolding revoke_each_Cons Cons.IH
    by (auto simp: revokeAllSessions_def revoke_where_tokens)
qed simp

definition staff_of :: "string \<Rightarrow> world \<Rightarrow> string set" where
  "staff_of storeId w = {m_user m | m. m \<in> set (w_members w) \<and> m_store m = storeId}"

lemma staff_sessions_tokens:
  "a_tokens (snd (revokeAllStaffSessions now storeId w a)) =
     map (\<lambda>t. if rt_user t \<in> staff_of storeId w \<and> rt_revoked t = None then t\<lparr>rt_revoked := Some now\<rparr> else t)
       (a_tokens a)"
proof -
  have "set (map m_user (filter (\<lambda>m. m_store m = storeId) (w_members w))) = staff_of storeId w"
    by (auto simp: staff_of_def)
  then show ?thesis by (simp only: revokeAllStaffSessions_def revoke_each_tokens)
qed

lemma filter_outside:
  "(\<And>x. P (g x) = P x) \<Longrightarrow> (\<And>x. P x \<Longrightarrow> g x = x) \<Longrightarrow> filter P (map g xs) = filter P xs"
  by (induction xs) auto

lemma staff_of_cong: "w_members w = w_members w' \<Longrightarrow> staff_of s w = staff_of s w'"
  by (simp add: staff_of_def)

lemma revoked_refresh_refused:
  assumes "\<forall>t \<in> set (a_tokens a). rt_user t \<in> us \<longrightarrow> rt_revoked t \<noteq> None"
    and "findRefreshToken (cr_sha cr p) a = Some t" and "rt_user t \<in> us"
  shows "refresh cr ttl later dw p a = (Inl invalidSession, a)"
proof -
  have "t \<in> set (a_tokens a)" using findD assms(2) unfolding findRefreshToken_def by fastforce
  then have "rt_revoked t \<noteq> None" using assms(1,3) by blast
  then show ?thesis by (simp add: refresh_def refresh_read_def refresh_write_def assms(2))
qed

lemma find_store_updated:
  assumes "find_store i w = Some s" and "\<And>x. s_id (f x) = s_id x"
    and "w_stores w' = update_where (\<lambda>x. s_id x = i) f (w_stores w)"
  shows "find_store i w' = Some (f s)"
proof -
  have "find (\<lambda>x. s_id x = i) (update_where (\<lambda>x. s_id x = i) f rows) =
      map_option f (find (\<lambda>x. s_id x = i) rows)" for rows
    by (induction rows) (auto simp: assms(2))
  then show ?thesis using assms(1,3) by (simp add: find_store_def)
qed

text \<open>
  Suspending or closing a store is refused, with nothing written, when the lifecycle does not
  allow it; otherwise the store has the new status, every session of every one of its members is
  revoked and can no longer be refreshed, and the sessions of everyone else are as they were.
\<close>

theorem closing_signs_staff_out:
  assumes "find_store storeId w = Some s" and "s_status s \<noteq> to" and "to \<in> {SUSPENDED, CLOSED}"
    and "store_transition now storeId to actor (w, a) = (r, w', a')"
  shows "if canTransitionStore (s_status s) to
    then r = Inr () \<and> map_option s_status (find_store storeId w') = Some to \<and>
      (\<forall>t \<in> set (a_tokens a'). rt_user t \<in> staff_of storeId w \<longrightarrow> rt_revoked t \<noteq> None) \<and>
      filter (\<lambda>t. rt_user t \<notin> staff_of storeId w) (a_tokens a') =
        filter (\<lambda>t. rt_user t \<notin> staff_of storeId w) (a_tokens a) \<and>
      (\<forall>cr p t. findRefreshToken (cr_sha cr p) a' = Some t \<and> rt_user t \<in> staff_of storeId w \<longrightarrow>
         refresh cr ttl later dw p a' = (Inl invalidSession, a'))
    else r = Inl (IllegalMove (s_status s) to (STORE_TRANSITIONS (s_status s))) \<and> w' = w \<and> a' = a"
proof (cases "canTransitionStore (s_status s) to")
  case False
  then show ?thesis using assms
    by (simp add: store_transition_def assertStoreTransition_def allowedFrom_agrees)
next
  case True
  let ?staff = "staff_of storeId w"
  have w': "w_stores w' = update_where (\<lambda>x. s_id x = storeId) (set_status now to) (w_stores w)"
    and a': "a_tokens a' = map (\<lambda>t. if rt_user t \<in> ?staff \<and> rt_revoked t = None
        then t\<lparr>rt_revoked := Some now\<rparr> else t) (a_tokens a)"
    and r: "r = Inr ()"
    using assms True
    by (auto simp: store_transition_def assertStoreTransition_def Let_def staff_sessions_tokens
        cong: staff_of_cong)
  have "find_store storeId w' = Some (set_status now to s)"
    by (rule find_store_updated [OF assms(1) _ w']) (simp add: set_status_def)
  then have st: "map_option s_status (find_store storeId w') = Some to"
    by (simp add: set_status_def)
  have rev: "\<forall>t \<in> set (a_tokens a'). rt_user t \<in> ?staff \<longrightarrow> rt_revoked t \<noteq> None"
    by (auto simp: a')
  have "filter (\<lambda>t. rt_user t \<notin> ?staff) (a_tokens a') = filter (\<lambda>t. rt_user t \<notin> ?staff) (a_tokens a)"
    unfolding a' by (rule filter_outside) auto
  then show ?thesis using True r st rev revoked_refresh_refused [OF rev] by simp
qed

text \<open>An open shop with one member of staff, who is signed in.\<close>

definition staffed_shop :: world where
  "staffed_shop = sample_shop\<lparr>w_members := [\<lparr>m_id = ''m1'', m_store = ''s1'', m_user = ''u1'', m_role = CLERK,
     m_status = MS_ACTIVE, m_invited_by = None, m_accepted = None\<rparr>]\<rparr>"

theorem closing_signs_staff_out_witness:
  "\<exists>w' a'. store_transition 5 ''s1'' SUSPENDED ''admin'' (staffed_shop, signed_in) = (Inr (), w', a') \<and>
     map_option s_status (find_store ''s1'' w') = Some SUSPENDED \<and>
     (\<forall>t \<in> set (a_tokens a'). rt_user t = ''u1'' \<longrightarrow> rt_revoked t \<noteq> None)"
proof -
  obtain r w' a' where run: "store_transition 5 ''s1'' SUSPENDED ''admin'' (staffed_shop, signed_in) = (r, w', a')"
    by (meson prod_cases3)
  have s: "find_store ''s1'' staffed_shop = Some (sample_store ACTIVE)"
    by (simp add: find_store_def staffed_shop_def sample_shop_def sample_store_def)
  have staff: "staff_of ''s1'' staffed_shop = {''u1''}" by (simp add: staff_of_def staffed_shop_def)
  have "canTransitionStore ACTIVE SUSPENDED" by code_simp
  then show ?thesis
    using closing_signs_staff_out [OF s _ _ run] run by (simp add: staff sample_store_def)
qed

section \<open>Opening hours\<close>

lemma create_hours_all:
  "foldE (create_hours storeId) entries rows =
     (if distinct (map he_weekday entries) \<and>
         (\<forall>h \<in> set rows. hr_store h = storeId \<longrightarrow> hr_weekday h \<notin> he_weekday ` set entries)
      then Inr (rows @ map (hours_of storeId) entries)
      else Inl (UniqueViolation ''store_hours''))"
proof (induction entries arbitrary: rows)
  case (Cons en entries)
  have row: "hr_store (hours_of storeId en) = storeId" "hr_weekday (hours_of storeId en) = he_weekday en"
    by (simp_all add: hours_of_def)
  show ?case
  proof (cases "\<exists>h \<in> set rows. hr_store h = storeId \<and> hr_weekday h = he_weekday en")
    case True
    then show ?thesis by (auto simp: create_hours_def)
  next
    case False
    then have "create_hours storeId en rows = Inr (rows @ [hours_of storeId en])"
      by (simp add: create_hours_def)
    then show ?thesis using False by (auto simp: Cons.IH row)
  qed
qed simp

lemma check_entries_ok: "okE (mapsE check_entry entries) \<longleftrightarrow> (\<forall>en \<in> set entries. check_entry en = Inr ())"
  by (induction entries) (auto simp: okE_iff bindE_eq_Inl)

text \<open>
  A week of opening hours is replaced whole or not at all: it is accepted exactly when every
  entry is well formed and no weekday comes twice, the store then shows those days and only
  those in the order of the week, every other store shows what it did, and a refusal changes
  nothing.
\<close>

theorem hours_replaced_whole:
  assumes "setHours storeId entries (rows, w) = (r, rows', w')"
  shows "if (\<forall>en \<in> set entries. check_entry en = Inr ()) \<and> distinct (map he_weekday entries)
    then r = Inr (getHours storeId rows') \<and>
      getHours storeId rows' = sort_key hr_weekday (map (hours_of storeId) entries) \<and>
      (\<forall>s. s \<noteq> storeId \<longrightarrow> getHours s rows' = getHours s rows)
    else \<not> okE r \<and> rows' = rows \<and> w' = w"
proof (cases "\<forall>en \<in> set entries. check_entry en = Inr ()")
  case False
  then obtain e where "mapsE check_entry entries = Inl e"
    using check_entries_ok [of entries] by (cases "mapsE check_entry entries") auto
  then show ?thesis using assms False by (auto simp: setHours_def)
next
  case True
  then obtain us where us: "mapsE check_entry entries = Inr us"
    using check_entries_ok [of entries] by (auto simp: okE_iff)
  have mine: "filter (\<lambda>h. hr_store h = storeId) (map (hours_of storeId) entries) =
      map (hours_of storeId) entries"
    by (simp add: filter_map o_def hours_of_def)
  have other: "filter (\<lambda>h. hr_store h = s) (map (hours_of storeId) entries) = []" if "s \<noteq> storeId" for s
    using that by (simp add: filter_map o_def hours_of_def)
  have gone: "filter (\<lambda>h. hr_store h = storeId) (filter (\<lambda>h. hr_store h \<noteq> storeId) rows) = []"
    by (simp add: filter_empty_conv)
  have kept: "filter (\<lambda>h. hr_store h \<noteq> storeId \<and> hr_store h = s) rows =
      filter (\<lambda>h. hr_store h = s) rows" if "s \<noteq> storeId" for s
    using that by (auto intro!: filter_cong)
  show ?thesis
    using assms True us
    by (auto simp: setHours_def create_hours_all getHours_def mine other gone kept split: if_splits)
qed

section \<open>Serviceability\<close>

definition in_reach :: "(zone \<Rightarrow> int) \<Rightarrow> zone \<Rightarrow> bool" where
  "in_reach metres z = (metres z \<le> z_radius z)"

lemma best_zone_None: "best_zone metres zs None = None \<longleftrightarrow> (\<forall>z \<in> set zs. \<not> in_reach metres z)"
  and best_zone_never_lost: "best_zone metres zs (Some b) \<noteq> None"
proof -
  have lost: "best_zone metres zs (Some b) \<noteq> None" for zs b
    by (induction zs arbitrary: b) (auto split: prod.split)
  then show "best_zone metres zs (Some b) \<noteq> None" .
  show "best_zone metres zs None = None \<longleftrightarrow> (\<forall>z \<in> set zs. \<not> in_reach metres z)"
    using lost by (induction zs) (auto simp: in_reach_def)
qed

text \<open>One round of the loop.\<close>

definition better :: "(zone \<Rightarrow> int) \<Rightarrow> zone \<Rightarrow> (zone \<times> int) option \<Rightarrow> (zone \<times> int) option" where
  "better metres z best =
     (if \<not> in_reach metres z then best
      else case best of
        None \<Rightarrow> Some (z, metres z)
      | Some (b, e) \<Rightarrow> if z_fee z < z_fee b then Some (z, metres z) else best)"

lemma best_zone_Cons: "best_zone metres (z # zs) best = best_zone metres zs (better metres z best)"
  by (auto simp: better_def in_reach_def split: option.split)

lemma best_zone_Some:
  assumes "best_zone metres zs best = Some (z, d)"
    and "\<And>b e. best = Some (b, e) \<Longrightarrow> P b \<and> in_reach metres b \<and> e = metres b"
    and "\<And>x. x \<in> set zs \<Longrightarrow> P x"
  shows "P z \<and> in_reach metres z \<and> d = metres z \<and>
    (\<forall>x \<in> set zs. in_reach metres x \<longrightarrow> z_fee z \<le> z_fee x) \<and>
    (\<forall>b e. best = Some (b, e) \<longrightarrow> z_fee z \<le> z_fee b)"
  using assms
proof (induction zs arbitrary: best)
  case Nil
  then show ?case by auto
next
  case (Cons x zs)
  have ok: "P b \<and> in_reach metres b \<and> e = metres b" if "better metres x best = Some (b, e)" for b e
    using that Cons.prems(2,3) by (auto simp: better_def split: if_splits option.splits)
  have IH: "P z \<and> in_reach metres z \<and> d = metres z \<and>
      (\<forall>x \<in> set zs. in_reach metres x \<longrightarrow> z_fee z \<le> z_fee x) \<and>
      (\<forall>b e. better metres x best = Some (b, e) \<longrightarrow> z_fee z \<le> z_fee b)"
    by (rule Cons.IH [OF Cons.prems(1) [unfolded best_zone_Cons] ok]) (use Cons.prems(3) in auto)
  have "z_fee z \<le> z_fee b" if "best = Some (b, e)" for b e
    using IH that by (cases "in_reach metres x \<and> z_fee x < z_fee b") (fastforce simp: better_def)+
  moreover have "z_fee z \<le> z_fee x" if "in_reach metres x"
    using IH that by (cases best) (fastforce simp: better_def split: if_splits)+
  ultimately show ?case using IH by auto
qed

definition offered :: "string \<Rightarrow> (zone \<Rightarrow> int) \<Rightarrow> world \<Rightarrow> zone set" where
  "offered storeId metres w =
     {z \<in> set (w_zones w). z_store z = storeId \<and> z_active z \<and> in_reach metres z}"

text \<open>
  The delivery check offers a zone exactly when some active zone of this store reaches the
  point; the zone is one of those, none of them is cheaper, and the distance shown is the distance
  to that zone's centre.
\<close>

theorem serviceability_is_cheapest:
  "case sv_zone (checkServiceability metres storeId lat lng w) of
     None \<Rightarrow> checkServiceability metres storeId lat lng w =
         \<lparr>sv_serviceable = False, sv_zone = None, sv_distance = None\<rparr> \<and>
       offered storeId (\<lambda>z. metres lat lng (z_lat z) (z_lng z)) w = {}
   | Some z \<Rightarrow> checkServiceability metres storeId lat lng w =
         \<lparr>sv_serviceable = True, sv_zone = Some z,
           sv_distance = Some (metres lat lng (z_lat z) (z_lng z))\<rparr> \<and>
       z \<in> offered storeId (\<lambda>z. metres lat lng (z_lat z) (z_lng z)) w \<and>
       z_fee z = Min (z_fee ` offered storeId (\<lambda>z. metres lat lng (z_lat z) (z_lng z)) w)"
proof -
  let ?d = "\<lambda>z. metres lat lng (z_lat z) (z_lng z)"
  let ?reach = "offered storeId ?d w"
  let ?zs = "filter (\<lambda>z. z_store z = storeId \<and> z_active z) (w_zones w)"
  show ?thesis
  proof (cases "best_zone ?d ?zs None")
    case None
    then have "\<forall>z \<in> set ?zs. \<not> in_reach ?d z" by (simp only: best_zone_None)
    then show ?thesis using None by (auto simp: checkServiceability_def offered_def)
  next
    case (Some p)
    then obtain z d where p: "best_zone ?d ?zs None = Some (z, d)" by (cases p) simp
    have z: "z \<in> set ?zs \<and> in_reach ?d z \<and> d = ?d z \<and>
        (\<forall>x \<in> set ?zs. in_reach ?d x \<longrightarrow> z_fee z \<le> z_fee x)"
      using best_zone_Some [OF p, where P = "\<lambda>x. x \<in> set ?zs"] by simp
    then have "z \<in> ?reach" by (simp add: offered_def)
    moreover have "z_fee z = Min (z_fee ` ?reach)"
    proof (rule sym, rule Min_eqI)
      show "finite (z_fee ` ?reach)" by (simp add: offered_def)
      show "z_fee z \<le> y" if "y \<in> z_fee ` ?reach" for y
        using that z by (auto simp: offered_def)
      show "z_fee z \<in> z_fee ` ?reach" using \<open>z \<in> ?reach\<close> by simp
    qed
    ultimately show ?thesis using p z by (simp add: checkServiceability_def)
  qed
qed

end
