(* ===== verification/Catalog.thy ===== *)
theory Catalog
  imports Schema
begin

text \<open>
  \<open>CatalogService\<close> (\<open>modules/catalog/catalog.service.ts\<close>) over its own tables: categories, products,
  variants and images, with the indexes, checks and the trigger of migration 8.  The products and
  variants are here the two tables whose join the other services read as the variants of the
  world.  What Unicode normalisation makes of a name, the address of a stored image and the
  collation of names are parameters; identifiers and the clock are supplied.
\<close>

record category =
  cg_id :: string
  cg_store :: string
  cg_parent :: "string option"
  cg_name :: string
  cg_slug :: string
  cg_position :: int
  cg_active :: bool
  cg_deleted :: bool

record product =
  pr_id :: string
  pr_store :: string
  pr_category :: "string option"
  pr_name :: string
  pr_slug :: string
  pr_brand :: "string option"
  pr_description :: "string option"
  pr_status :: product_status
  pr_deleted :: bool
  pr_updated :: int

record product_variant =
  pv_id :: string
  pv_product :: string
  pv_store :: string
  pv_sku :: "string option"
  pv_barcode :: "string option"
  pv_attrs :: "(string \<times> string) list"
  pv_price :: int
  pv_compare :: "int option"
  pv_cost :: "int option"
  pv_default :: bool
  pv_active :: bool
  pv_deleted :: bool

record product_image =
  im_id :: string
  im_product :: string
  im_store :: string
  im_asset :: string
  im_alt :: "string option"
  im_position :: int

record catalog =
  ct_categories :: "category list"
  ct_products :: "product list"
  ct_variants :: "product_variant list"
  ct_images :: "product_image list"
  ct_assets :: "media_asset list"
  ct_audit :: "audit_entry list"

type_synonym 'a cat_outcome = "'a res \<times> catalog"

section \<open>Slugs\<close>

definition slug_char :: "char \<Rightarrow> bool" where
  "slug_char c = (let n = (of_char c :: nat) in (97 \<le> n \<and> n \<le> 122) \<or> (48 \<le> n \<and> n \<le> 57))"

text \<open>Every run of other characters becomes one hyphen.\<close>

fun hyphenate :: "bool \<Rightarrow> string \<Rightarrow> string" where
  "hyphenate _ [] = []"
| "hyphenate inRun (c # cs) =
     (if slug_char c then c # hyphenate False cs
      else if inRun then hyphenate True cs else CHR ''-'' # hyphenate True cs)"

definition trim_hyphens :: "string \<Rightarrow> string" where
  "trim_hyphens s = rev (dropWhile (\<lambda>c. c = CHR ''-'') (rev (dropWhile (\<lambda>c. c = CHR ''-'') s)))"

text \<open>\<open>plain\<close> is the normalisation and the removal of combining marks.\<close>

definition slugify :: "(string \<Rightarrow> string) \<Rightarrow> string \<Rightarrow> string" where
  "slugify plain input = take 60 (trim_hyphens (hyphenate False (plain (map lower_char input))))"

section \<open>Look-ups\<close>

definition live_category :: "string \<Rightarrow> string \<Rightarrow> catalog \<Rightarrow> category option" where
  "live_category storeId categoryId c =
     find (\<lambda>g. cg_id g = categoryId \<and> cg_store g = storeId \<and> \<not> cg_deleted g) (ct_categories c)"

definition requireCategory :: "string \<Rightarrow> string \<Rightarrow> catalog \<Rightarrow> category res" where
  "requireCategory storeId categoryId c =
     (case live_category storeId categoryId c of None \<Rightarrow> notFound | Some g \<Rightarrow> Inr g)"

definition requireVariant :: "string \<Rightarrow> string \<Rightarrow> catalog \<Rightarrow> product_variant res" where
  "requireVariant storeId variantId c =
     (case find (\<lambda>v. pv_id v = variantId \<and> pv_store v = storeId \<and> \<not> pv_deleted v) (ct_variants c) of
        None \<Rightarrow> notFound | Some v \<Rightarrow> Inr v)"

definition find_product :: "string \<Rightarrow> string \<Rightarrow> catalog \<Rightarrow> product res" where
  "find_product storeId productId c =
     (case find (\<lambda>p. pr_id p = productId \<and> pr_store p = storeId \<and> \<not> pr_deleted p) (ct_products c) of
        None \<Rightarrow> notFound | Some p \<Rightarrow> Inr p)"

definition live_variants :: "string \<Rightarrow> catalog \<Rightarrow> product_variant list" where
  "live_variants productId c = filter (\<lambda>v. pv_product v = productId \<and> \<not> pv_deleted v) (ct_variants c)"

definition assertCategorySlugFree :: "string \<Rightarrow> string \<Rightarrow> catalog \<Rightarrow> unit res" where
  "assertCategorySlugFree storeId slug c =
     guardE (\<not> (\<exists>g \<in> set (ct_categories c). cg_store g = storeId \<and> cg_slug g = slug \<and> \<not> cg_deleted g))
       (Validation ''You already have a category with that name.'')"

definition sku_taken :: "string \<Rightarrow> string \<Rightarrow> catalog \<Rightarrow> bool" where
  "sku_taken storeId sku c =
     (\<exists>v \<in> set (ct_variants c). pv_store v = storeId \<and> pv_sku v = Some sku \<and> \<not> pv_deleted v)"

definition assertSkuFree :: "string \<Rightarrow> string \<Rightarrow> catalog \<Rightarrow> unit res" where
  "assertSkuFree storeId sku c =
     guardE (\<not> sku_taken storeId (js_trim sku) c) (Validation ''That SKU is already used by another product.'')"

text \<open>\<open>value?.trim() || null\<close>\<close>

definition trim_or_null :: "string option \<Rightarrow> string option" where
  "trim_or_null x = (case x of None \<Rightarrow> None | Some s \<Rightarrow> if js_trim s = [] then None else Some (js_trim s))"

text \<open>A text that JavaScript takes for false is left out.\<close>

definition given :: "string option \<Rightarrow> string option" where
  "given x = (if x = Some [] then None else x)"

section \<open>Reading\<close>

text \<open>An image with the address of its asset, when that is ready.\<close>

record shown_image =
  si_image :: product_image
  si_url :: "string option"

definition image_url :: "(string \<Rightarrow> string) \<Rightarrow> string \<Rightarrow> catalog \<Rightarrow> string option" where
  "image_url publicVariantUrl assetId c =
     map_option (\<lambda>a. publicVariantUrl (ma_key a))
       (find (\<lambda>a. ma_id a = assetId \<and> ma_status a = MA_READY) (ct_assets c))"

definition withImageUrls :: "(string \<Rightarrow> string) \<Rightarrow> catalog \<Rightarrow> product_image list \<Rightarrow> shown_image list" where
  "withImageUrls publicVariantUrl c images =
     map (\<lambda>i. \<lparr>si_image = i, si_url = image_url publicVariantUrl (im_asset i) c\<rparr>) images"

record product_view =
  pw_product :: product
  pw_variants :: "product_variant list"
  pw_images :: "shown_image list"
  pw_category :: "(string \<times> string) option"

definition images_of :: "string \<Rightarrow> catalog \<Rightarrow> product_image list" where
  "images_of productId c = sort_key im_position (filter (\<lambda>i. im_product i = productId) (ct_images c))"

text \<open>The default variant first, the others in the order of the table.\<close>

definition view_of :: "(string \<Rightarrow> string) \<Rightarrow> product_image list \<Rightarrow> product \<Rightarrow> catalog \<Rightarrow> product_view" where
  "view_of url images p c =
     \<lparr>pw_product = p,
      pw_variants = filter pv_default (live_variants (pr_id p) c) @
        filter (\<lambda>v. \<not> pv_default v) (live_variants (pr_id p) c),
      pw_images = withImageUrls url c images,
      pw_category = Option.bind (pr_category p) (\<lambda>g.
        map_option (\<lambda>g. (cg_id g, cg_name g)) (find (\<lambda>x. cg_id x = g) (ct_categories c)))\<rparr>"

definition getProduct :: "(string \<Rightarrow> string) \<Rightarrow> string \<Rightarrow> string \<Rightarrow> catalog \<Rightarrow> product_view res" where
  "getProduct url storeId productId c =
     mapE (\<lambda>p. view_of url (images_of productId c) p c) (find_product storeId productId c)"

fun text_contains :: "string \<Rightarrow> string \<Rightarrow> bool" where
  "text_contains [] needle = (needle = [])"
| "text_contains (c # cs) needle = (take (length needle) (c # cs) = needle \<or> text_contains cs needle)"

definition contains_insensitive :: "string \<Rightarrow> string \<Rightarrow> bool" where
  "contains_insensitive s needle = text_contains (map lower_char s) (map lower_char needle)"

record product_filters =
  pf_status :: "product_status option"
  pf_category :: "string option"
  pf_q :: "string option"

definition matches_filters :: "product_filters \<Rightarrow> product \<Rightarrow> bool" where
  "matches_filters f p =
     ((case pf_status f of None \<Rightarrow> True | Some s \<Rightarrow> pr_status p = s) \<and>
      (case given (pf_category f) of None \<Rightarrow> True | Some g \<Rightarrow> pr_category p = Some g) \<and>
      (case given (pf_q f) of
         None \<Rightarrow> True
       | Some q \<Rightarrow> contains_insensitive (pr_name p) q \<or>
           (case pr_brand p of None \<Rightarrow> False | Some b \<Rightarrow> contains_insensitive b q)))"

definition listProducts :: "(string \<Rightarrow> string) \<Rightarrow> string \<Rightarrow> product_filters \<Rightarrow> catalog \<Rightarrow> product_view list" where
  "listProducts url storeId f c =
     map (\<lambda>p. view_of url (take 1 (images_of (pr_id p) c)) p c)
       (take 200 (sort_key (\<lambda>p. - pr_updated p)
         (filter (\<lambda>p. pr_store p = storeId \<and> \<not> pr_deleted p \<and> matches_filters f p) (ct_products c))))"

text \<open>\<open>rank\<close> is the database's order of names.\<close>

definition listCategories :: "(string \<Rightarrow> nat) \<Rightarrow> string \<Rightarrow> catalog \<Rightarrow> (category \<times> category list) list" where
  "listCategories rank storeId c =
     (let rows = sort_key cg_position (sort_key (\<lambda>g. rank (cg_name g))
           (filter (\<lambda>g. cg_store g = storeId \<and> \<not> cg_deleted g) (ct_categories c)));
          roots = filter (\<lambda>g. given (cg_parent g) = None) rows
      in map (\<lambda>r. (r, filter (\<lambda>g. cg_parent g = Some (cg_id r)) rows)) roots)"

section \<open>Rows and the rules of their tables\<close>

text \<open>The trigger on every insert and update of a category.\<close>

definition depth_trigger :: "category list \<Rightarrow> category \<Rightarrow> unit res" where
  "depth_trigger rows new =
     (case cg_parent new of
        None \<Rightarrow> Inr ()
      | Some p \<Rightarrow>
          if p = cg_id new then Inl (TriggerRaised ''A category cannot be its own parent'')
          else if \<exists>g \<in> set rows. cg_id g = p \<and> cg_parent g \<noteq> None
          then Inl (TriggerRaised ''Categories can only be one level deep'')
          else Inr ())"

text \<open>The foreign key to a category is checked whatever store the category is of.\<close>

definition category_exists :: "string option \<Rightarrow> catalog \<Rightarrow> bool" where
  "category_exists g c = (case g of None \<Rightarrow> True | Some i \<Rightarrow> i \<in> cg_id ` set (ct_categories c))"

definition insert_category :: "category \<Rightarrow> catalog \<Rightarrow> catalog res" where
  "insert_category g c =
     bindE (depth_trigger (ct_categories c) g) (\<lambda>_.
     if \<exists>x \<in> set (ct_categories c). cg_store x = cg_store g \<and> cg_slug x = cg_slug g
     then Inl (UniqueViolation ''categories_store_id_slug_key'')
     else if \<not> fits_int4 (cg_position g) then Inl (CheckViolation ''integer'')
     else if \<not> category_exists (cg_parent g) c then Inl (CheckViolation ''categories_parent_id_fkey'')
     else Inr (c\<lparr>ct_categories := ct_categories c @ [g]\<rparr>))"

definition update_category :: "category \<Rightarrow> catalog \<Rightarrow> catalog res" where
  "update_category g c =
     bindE (depth_trigger (ct_categories c) g) (\<lambda>_.
     if \<not> fits_int4 (cg_position g) then Inl (CheckViolation ''integer'')
     else Inr (c\<lparr>ct_categories := update_where (\<lambda>x. cg_id x = cg_id g) (\<lambda>_. g) (ct_categories c)\<rparr>))"

definition insert_product :: "product \<Rightarrow> catalog \<Rightarrow> catalog res" where
  "insert_product p c =
     (if \<exists>x \<in> set (ct_products c). pr_store x = pr_store p \<and> pr_slug x = pr_slug p
      then Inl (UniqueViolation ''products_store_id_slug_key'')
      else if \<not> category_exists (pr_category p) c then Inl (CheckViolation ''products_category_id_fkey'')
      else Inr (c\<lparr>ct_products := ct_products c @ [p]\<rparr>))"

definition update_product :: "product \<Rightarrow> catalog \<Rightarrow> catalog res" where
  "update_product p c =
     (if \<not> category_exists (pr_category p) c then Inl (CheckViolation ''products_category_id_fkey'')
      else Inr (c\<lparr>ct_products := update_where (\<lambda>x. pr_id x = pr_id p) (\<lambda>_. p) (ct_products c)\<rparr>))"

definition price_ok :: "int \<Rightarrow> bool" where
  "price_ok n = (0 \<le> n \<and> fits_int4 n)"

definition optional_price_ok :: "int option \<Rightarrow> bool" where
  "optional_price_ok x = (case x of None \<Rightarrow> True | Some n \<Rightarrow> price_ok n)"

text \<open>The checks and the two partial unique indexes, for a row that will be written beside \<open>others\<close>.\<close>

definition variant_row_ok :: "product_variant list \<Rightarrow> product_variant \<Rightarrow> unit res" where
  "variant_row_ok others v =
     (if \<not> (price_ok (pv_price v) \<and> optional_price_ok (pv_compare v) \<and> optional_price_ok (pv_cost v))
      then Inl (CheckViolation ''product_variants'')
      else if pv_deleted v then Inr ()
      else if pv_sku v \<noteq> None \<and>
        (\<exists>x \<in> set others. pv_store x = pv_store v \<and> pv_sku x = pv_sku v \<and> \<not> pv_deleted x)
      then Inl (UniqueViolation ''product_variants_store_sku_idx'')
      else if pv_default v \<and>
        (\<exists>x \<in> set others. pv_product x = pv_product v \<and> pv_default x \<and> \<not> pv_deleted x)
      then Inl (UniqueViolation ''product_variants_one_default_idx'')
      else Inr ())"

definition insert_variant :: "product_variant \<Rightarrow> catalog \<Rightarrow> catalog res" where
  "insert_variant v c =
     mapE (\<lambda>_. c\<lparr>ct_variants := ct_variants c @ [v]\<rparr>) (variant_row_ok (ct_variants c) v)"

definition update_variant :: "product_variant \<Rightarrow> catalog \<Rightarrow> catalog res" where
  "update_variant v c =
     mapE (\<lambda>_. c\<lparr>ct_variants := update_where (\<lambda>x. pv_id x = pv_id v) (\<lambda>_. v) (ct_variants c)\<rparr>)
       (variant_row_ok (filter (\<lambda>x. pv_id x \<noteq> pv_id v) (ct_variants c)) v)"

definition image_place_free :: "product_image list \<Rightarrow> product_image \<Rightarrow> unit res" where
  "image_place_free others i =
     guardE (fits_int4 (im_position i) \<and>
         \<not> (\<exists>x \<in> set others. im_product x = im_product i \<and> im_position x = im_position i))
       (UniqueViolation ''product_images_product_id_position_key'')"

definition cat_audit :: "audit_entry \<Rightarrow> catalog \<Rightarrow> catalog" where
  "cat_audit en c = c\<lparr>ct_audit := ct_audit c @ [en]\<rparr>"

text \<open>A request whose work is one transaction.\<close>

definition cat_tx :: "(catalog \<Rightarrow> ('a \<times> catalog) res) \<Rightarrow> catalog \<Rightarrow> 'a cat_outcome" where
  "cat_tx work c = (case work c of Inl e \<Rightarrow> (Inl e, c) | Inr (x, c') \<Rightarrow> (Inr x, c'))"

section \<open>Categories\<close>

definition check_parent :: "string \<Rightarrow> string option \<Rightarrow> catalog \<Rightarrow> unit res" where
  "check_parent storeId parentId c =
     (case given parentId of
        None \<Rightarrow> Inr ()
      | Some p \<Rightarrow>
          (case live_category storeId p c of
             None \<Rightarrow> Inl (NotFound ''That parent category doesn't exist.'')
           | Some g \<Rightarrow> guardE (given (cg_parent g) = None)
               (Validation ''Categories can only be one level deep. Pick a top-level category as the parent.'')))"

definition createCategory ::
    "(string \<Rightarrow> string) \<Rightarrow> string \<Rightarrow> string \<Rightarrow> string \<Rightarrow> string option \<Rightarrow> int option \<Rightarrow> catalog \<Rightarrow>
     category cat_outcome" where
  "createCategory plain newId storeId name parentId position =
     cat_tx (\<lambda>c.
       let g = \<lparr>cg_id = newId, cg_store = storeId, cg_parent = parentId, cg_name = js_trim name,
                cg_slug = slugify plain name, cg_position = (case position of None \<Rightarrow> 0 | Some n \<Rightarrow> n),
                cg_active = True, cg_deleted = False\<rparr>
       in bindE (assertCategorySlugFree storeId (cg_slug g) c) (\<lambda>_.
          bindE (check_parent storeId parentId c) (\<lambda>_.
          bindE (insert_category g c) (\<lambda>c1.
          Inr (g, cat_audit (audit_entry_of ''catalog.category_created'' LOW storeId None ''category'' newId) c1)))))"

record category_patch =
  cp_name :: "string option"
  cp_position :: "int option"
  cp_active :: "bool option"

definition patch_category :: "category_patch \<Rightarrow> category \<Rightarrow> category" where
  "patch_category patch g =
     g\<lparr>cg_name := (case cp_name patch of None \<Rightarrow> cg_name g | Some n \<Rightarrow> js_trim n),
       cg_position := (case cp_position patch of None \<Rightarrow> cg_position g | Some n \<Rightarrow> n),
       cg_active := (case cp_active patch of None \<Rightarrow> cg_active g | Some b \<Rightarrow> b)\<rparr>"

definition updateCategory :: "string \<Rightarrow> string \<Rightarrow> category_patch \<Rightarrow> catalog \<Rightarrow> category cat_outcome" where
  "updateCategory storeId categoryId patch =
     cat_tx (\<lambda>c. bindE (requireCategory storeId categoryId c) (\<lambda>g.
       mapE (\<lambda>c1. (patch_category patch g, c1)) (update_category (patch_category patch g) c)))"

definition deleteCategory :: "string \<Rightarrow> string \<Rightarrow> catalog \<Rightarrow> unit cat_outcome" where
  "deleteCategory storeId categoryId =
     cat_tx (\<lambda>c. bindE (requireCategory storeId categoryId c) (\<lambda>g.
       bindE (guardE (count_where (\<lambda>x. cg_parent x = Some categoryId \<and> \<not> cg_deleted x) (ct_categories c) = 0)
         (Validation ''Remove or move the subcategories first, otherwise they'd be orphaned.'')) (\<lambda>_.
       mapE (\<lambda>c1. ((), cat_audit
           (audit_entry_of ''catalog.category_deleted'' LOW storeId None ''category'' categoryId) c1))
         (update_category (g\<lparr>cg_deleted := True\<rparr>) c))))"

section \<open>Products\<close>

definition slug_candidates :: "string \<Rightarrow> string list" where
  "slug_candidates base = base # map (\<lambda>n. base @ ''-'' @ show_int (int n)) [2..<51]"

definition uniqueProductSlug ::
    "(string \<Rightarrow> string) \<Rightarrow> string \<Rightarrow> string \<Rightarrow> string \<Rightarrow> catalog \<Rightarrow> string" where
  "uniqueProductSlug plain suffix storeId name c =
     (let slug = slugify plain name;
          base = (if slug = [] then ''product'' else slug);
          free = (\<lambda>s. \<not> (\<exists>p \<in> set (ct_products c). pr_store p = storeId \<and> pr_slug p = s))
      in case find free (slug_candidates base) of Some s \<Rightarrow> s | None \<Rightarrow> base @ ''-'' @ suffix)"

record product_input =
  pi_name :: string
  pi_brand :: "string option"
  pi_description :: "string option"
  pi_category :: "string option"
  pi_price :: int
  pi_sku :: "string option"

definition check_sku :: "string \<Rightarrow> string option \<Rightarrow> catalog \<Rightarrow> unit res" where
  "check_sku storeId sku c = (case given sku of None \<Rightarrow> Inr () | Some s \<Rightarrow> assertSkuFree storeId s c)"

definition createProduct ::
    "(string \<Rightarrow> string) \<Rightarrow> (string \<Rightarrow> string) \<Rightarrow> int \<Rightarrow> string \<Rightarrow> string \<Rightarrow> string \<Rightarrow> string \<Rightarrow> product_input \<Rightarrow>
     catalog \<Rightarrow> product_view cat_outcome" where
  "createProduct url plain now productId variantId suffix storeId i =
     cat_tx (\<lambda>c.
       let p = \<lparr>pr_id = productId, pr_store = storeId, pr_category = pi_category i,
                pr_name = js_trim (pi_name i), pr_slug = uniqueProductSlug plain suffix storeId (pi_name i) c,
                pr_brand = trim_or_null (pi_brand i), pr_description = trim_or_null (pi_description i),
                pr_status = P_DRAFT, pr_deleted = False, pr_updated = now\<rparr>;
           v = \<lparr>pv_id = variantId, pv_product = productId, pv_store = storeId,
                pv_sku = trim_or_null (pi_sku i), pv_barcode = None, pv_attrs = [], pv_price = pi_price i,
                pv_compare = None, pv_cost = None, pv_default = True, pv_active = True, pv_deleted = False\<rparr>
       in bindE (check_sku storeId (pi_sku i) c) (\<lambda>_.
          bindE (insert_product p c) (\<lambda>c1.
          bindE (insert_variant v c1) (\<lambda>c2.
          let c3 = cat_audit (audit_entry_of ''catalog.product_created'' LOW storeId None ''product'' productId) c2
          in mapE (\<lambda>view. (view, c3)) (getProduct url storeId productId c3)))))"

record product_patch =
  pt_name :: "string option"
  pt_brand :: "string option option"
  pt_description :: "string option option"
  pt_category :: "string option option"

definition patch_product :: "int \<Rightarrow> product_patch \<Rightarrow> product \<Rightarrow> product" where
  "patch_product now patch p =
     p\<lparr>pr_name := (case pt_name patch of None \<Rightarrow> pr_name p | Some n \<Rightarrow> js_trim n),
       pr_brand := (case pt_brand patch of None \<Rightarrow> pr_brand p | Some b \<Rightarrow> trim_or_null b),
       pr_description := (case pt_description patch of None \<Rightarrow> pr_description p | Some d \<Rightarrow> trim_or_null d),
       pr_category := (case pt_category patch of None \<Rightarrow> pr_category p | Some g \<Rightarrow> g),
       pr_updated := now\<rparr>"

definition updateProduct ::
    "(string \<Rightarrow> string) \<Rightarrow> int \<Rightarrow> string \<Rightarrow> string \<Rightarrow> product_patch \<Rightarrow> catalog \<Rightarrow> product_view cat_outcome" where
  "updateProduct url now storeId productId patch =
     cat_tx (\<lambda>c. bindE (find_product storeId productId c) (\<lambda>p.
       bindE (update_product (patch_product now patch p) c) (\<lambda>c1.
       mapE (\<lambda>view. (view, c1)) (getProduct url storeId productId c1))))"

fun product_status_text :: "product_status \<Rightarrow> string" where
  "product_status_text P_DRAFT = ''draft''"
| "product_status_text P_ACTIVE = ''active''"
| "product_status_text P_ARCHIVED = ''archived''"

definition sellable :: "string \<Rightarrow> catalog \<Rightarrow> bool" where
  "sellable productId c = (\<exists>v \<in> set (live_variants productId c). pv_active v \<and> pv_price v > 0)"

definition setProductStatus ::
    "(string \<Rightarrow> string) \<Rightarrow> int \<Rightarrow> string \<Rightarrow> string \<Rightarrow> product_status \<Rightarrow> catalog \<Rightarrow> product_view cat_outcome" where
  "setProductStatus url now storeId productId status =
     cat_tx (\<lambda>c. bindE (find_product storeId productId c) (\<lambda>p.
       bindE (guardE (status \<noteq> P_ACTIVE \<or> sellable productId c)
         (Validation ''Give this product a price before publishing it -- customers can't buy something with no price.'')) (\<lambda>_.
       bindE (update_product (p\<lparr>pr_status := status, pr_updated := now\<rparr>) c) (\<lambda>c1.
       let c2 = cat_audit (audit_entry_of (''catalog.product_'' @ product_status_text status) LOW storeId None
             ''product'' productId) c1
       in mapE (\<lambda>view. (view, c2)) (getProduct url storeId productId c2)))))"

definition deleteProduct :: "int \<Rightarrow> string \<Rightarrow> string \<Rightarrow> catalog \<Rightarrow> unit cat_outcome" where
  "deleteProduct now storeId productId =
     cat_tx (\<lambda>c. bindE (find_product storeId productId c) (\<lambda>p.
       let c1 = c\<lparr>ct_variants := update_where (\<lambda>v. pv_product v = productId \<and> \<not> pv_deleted v)
                    (\<lambda>v. v\<lparr>pv_deleted := True\<rparr>) (ct_variants c)\<rparr>
       in bindE (update_product (p\<lparr>pr_deleted := True, pr_updated := now\<rparr>) c1) (\<lambda>c2.
          Inr ((), cat_audit
            (audit_entry_of ''catalog.product_deleted'' MEDIUM storeId None ''product'' productId) c2))))"

section \<open>Variants\<close>

record variant_input =
  vi_sku :: "string option"
  vi_barcode :: "string option"
  vi_attrs :: "(string \<times> string) list option"
  vi_price :: int
  vi_compare :: "int option"
  vi_cost :: "int option"

definition addVariant ::
    "string \<Rightarrow> string \<Rightarrow> string \<Rightarrow> variant_input \<Rightarrow> catalog \<Rightarrow> product_variant cat_outcome" where
  "addVariant newId storeId productId i =
     cat_tx (\<lambda>c. bindE (find_product storeId productId c) (\<lambda>_.
       bindE (check_sku storeId (vi_sku i) c) (\<lambda>_.
       let v = \<lparr>pv_id = newId, pv_product = productId, pv_store = storeId, pv_sku = trim_or_null (vi_sku i),
                pv_barcode = trim_or_null (vi_barcode i),
                pv_attrs = (case vi_attrs i of None \<Rightarrow> [] | Some a \<Rightarrow> a), pv_price = vi_price i,
                pv_compare = vi_compare i, pv_cost = vi_cost i, pv_default = False, pv_active = True,
                pv_deleted = False\<rparr>
       in mapE (\<lambda>c1. (v, c1)) (insert_variant v c))))"

text \<open>A field left out keeps its value; a field given as \<open>null\<close> is cleared.\<close>

record variant_patch =
  vp_sku :: "string option option"
  vp_barcode :: "string option option"
  vp_attrs :: "(string \<times> string) list option"
  vp_price :: "int option"
  vp_compare :: "int option option"
  vp_cost :: "int option option"

definition patch_variant :: "variant_patch \<Rightarrow> product_variant \<Rightarrow> product_variant" where
  "patch_variant i v =
     v\<lparr>pv_sku := (case vp_sku i of None \<Rightarrow> pv_sku v | Some s \<Rightarrow> trim_or_null s),
       pv_barcode := (case vp_barcode i of None \<Rightarrow> pv_barcode v | Some b \<Rightarrow> trim_or_null b),
       pv_attrs := (case vp_attrs i of None \<Rightarrow> pv_attrs v | Some a \<Rightarrow> a),
       pv_price := (case vp_price i of None \<Rightarrow> pv_price v | Some n \<Rightarrow> n),
       pv_compare := (case vp_compare i of None \<Rightarrow> pv_compare v | Some n \<Rightarrow> n),
       pv_cost := (case vp_cost i of None \<Rightarrow> pv_cost v | Some n \<Rightarrow> n)\<rparr>"

definition updateVariant ::
    "string \<Rightarrow> string \<Rightarrow> variant_patch \<Rightarrow> catalog \<Rightarrow> product_variant cat_outcome" where
  "updateVariant storeId variantId i =
     cat_tx (\<lambda>c. bindE (requireVariant storeId variantId c) (\<lambda>v.
       let sku = Option.bind (vp_sku i) given in
       bindE (if sku \<noteq> None \<and> sku \<noteq> pv_sku v then assertSkuFree storeId (the sku) c else Inr ()) (\<lambda>_.
       mapE (\<lambda>c1. (patch_variant i v, c1)) (update_variant (patch_variant i v) c))))"

definition deleteVariant :: "string \<Rightarrow> string \<Rightarrow> catalog \<Rightarrow> unit cat_outcome" where
  "deleteVariant storeId variantId =
     cat_tx (\<lambda>c. bindE (requireVariant storeId variantId c) (\<lambda>v.
       bindE (guardE (count_where (\<lambda>x. pv_product x = pv_product v \<and> \<not> pv_deleted x \<and> pv_id x \<noteq> variantId)
           (ct_variants c) \<noteq> 0)
         (Validation ''A product needs at least one option. Delete the product instead if you're removing it.'')) (\<lambda>_.
       bindE (update_variant (v\<lparr>pv_deleted := True, pv_default := False\<rparr>) c) (\<lambda>c1.
       if pv_default v
       then (case live_variants (pv_product v) c1 of
               [] \<Rightarrow> Inr ((), c1)
             | x # _ \<Rightarrow> mapE (\<lambda>c2. ((), c2)) (update_variant (x\<lparr>pv_default := True\<rparr>) c1))
       else Inr ((), c1)))))"

section \<open>Images\<close>

definition attachImage ::
    "string \<Rightarrow> string \<Rightarrow> string \<Rightarrow> string \<Rightarrow> string option \<Rightarrow> catalog \<Rightarrow> product_image cat_outcome" where
  "attachImage newId storeId productId assetId alt =
     cat_tx (\<lambda>c. bindE (find_product storeId productId c) (\<lambda>_.
       bindE (guardE (\<exists>a \<in> set (ct_assets c). ma_id a = assetId \<and> ma_store a = Some storeId \<and> ma_status a = MA_READY)
         (Validation ''That image isn't ready yet.'')) (\<lambda>_.
       let places = map im_position (filter (\<lambda>i. im_product i = productId) (ct_images c));
           i = \<lparr>im_id = newId, im_product = productId, im_store = storeId, im_asset = assetId,
                im_alt = trim_or_null alt,
                im_position = (if places = [] then 0 else Max (set places) + 1)\<rparr>
       in bindE (image_place_free (ct_images c) i) (\<lambda>_. Inr (i, c\<lparr>ct_images := ct_images c @ [i]\<rparr>)))))"

text \<open>The parking update, row after row: the index is checked as each row moves.\<close>

definition park_image :: "product_image \<Rightarrow> product_image list \<Rightarrow> product_image list res" where
  "park_image i rows =
     mapE (\<lambda>_. update_where (\<lambda>x. im_id x = im_id i) (\<lambda>x. x\<lparr>im_position := im_position i + 1000\<rparr>) rows)
       (image_place_free (filter (\<lambda>x. im_id x \<noteq> im_id i) rows) (i\<lparr>im_position := im_position i + 1000\<rparr>))"

text \<open>
  One update of the loop: the row with this identifier among those of the store, and the index
  checked at once.
\<close>

definition place_image :: "string \<Rightarrow> int \<times> string \<Rightarrow> product_image list \<Rightarrow> product_image list res" where
  "place_image storeId ix rows =
     (case find (\<lambda>i. im_id i = snd ix \<and> im_store i = storeId) rows of
        None \<Rightarrow> Inl (NotFound ''No ProductImage found'')
      | Some i \<Rightarrow>
          mapE (\<lambda>_. update_where (\<lambda>x. im_id x = im_id i) (\<lambda>x. x\<lparr>im_position := fst ix\<rparr>) rows)
            (image_place_free (filter (\<lambda>x. im_id x \<noteq> im_id i) rows) (i\<lparr>im_position := fst ix\<rparr>)))"

definition reorderImages :: "string \<Rightarrow> string \<Rightarrow> string list \<Rightarrow> catalog \<Rightarrow> unit cat_outcome" where
  "reorderImages storeId productId imageIds =
     cat_tx (\<lambda>c. bindE (find_product storeId productId c) (\<lambda>_.
       bindE (guardE (length (filter (\<lambda>i. im_product i = productId) (ct_images c)) = length imageIds)
         (Validation ''Send every image id when reordering.'')) (\<lambda>_.
       bindE (foldE park_image (filter (\<lambda>i. im_product i = productId) (ct_images c)) (ct_images c)) (\<lambda>parked.
       mapE (\<lambda>rows. ((), c\<lparr>ct_images := rows\<rparr>))
         (foldE (place_image storeId) (zip (map int [0..<length imageIds]) imageIds) parked)))))"

definition detachImage :: "string \<Rightarrow> string \<Rightarrow> catalog \<Rightarrow> unit cat_outcome" where
  "detachImage storeId imageId =
     cat_tx (\<lambda>c. bindE (guardE (\<exists>i \<in> set (ct_images c). im_id i = imageId \<and> im_store i = storeId)
         (NotFound ''Not found.'')) (\<lambda>_.
       Inr ((), c\<lparr>ct_images := filter (\<lambda>i. \<not> (im_id i = imageId \<and> im_store i = storeId)) (ct_images c)\<rparr>)))"

end
