(* ===== verification/CatalogProps.thy ===== *)
theory CatalogProps
  imports Catalog
begin

text \<open>
  What every sequence of catalog operations keeps true: one default among the live variants of a
  product, one owner of a SKU and of a slug, categories one level deep; and when a product may
  become visible to shoppers.
\<close>

section \<open>Tables in order\<close>

text \<open>Every parent is a category that has no parent itself.\<close>

definition tree_of :: "category list \<Rightarrow> (string \<times> string option) set" where
  "tree_of gs = (\<lambda>g. (cg_id g, cg_parent g)) ` set gs"

definition one_level :: "(string \<times> string option) set \<Rightarrow> bool" where
  "one_level E \<longleftrightarrow> (\<forall>i p. (i, Some p) \<in> E \<longrightarrow> (p, None) \<in> E)"

definition categories_ok :: "category list \<Rightarrow> bool" where
  "categories_ok gs \<longleftrightarrow>
     distinct (map cg_id gs) \<and> distinct (map (\<lambda>g. (cg_store g, cg_slug g)) gs) \<and> one_level (tree_of gs)"

text \<open>The live default variants of a product.\<close>

definition defaults_of_product :: "string \<Rightarrow> product_variant list \<Rightarrow> nat" where
  "defaults_of_product i vs = count_where (\<lambda>v. pv_product v = i \<and> pv_default v \<and> \<not> pv_deleted v) vs"

definition sku_unique :: "product_variant list \<Rightarrow> bool" where
  "sku_unique vs \<longleftrightarrow>
     (\<forall>v \<in> set vs. \<forall>x \<in> set vs. \<not> pv_deleted v \<and> \<not> pv_deleted x \<and> pv_sku v \<noteq> None \<and>
        pv_sku x = pv_sku v \<and> pv_store x = pv_store v \<longrightarrow> pv_id x = pv_id v)"

text \<open>Of a product: who it is, whose it is and whether it is deleted.\<close>

definition shelf :: "product list \<Rightarrow> (string \<times> string \<times> bool) set" where
  "shelf ps = (\<lambda>p. (pr_id p, pr_store p, pr_deleted p)) ` set ps"

definition products_ok :: "product list \<Rightarrow> bool" where
  "products_ok ps \<longleftrightarrow> distinct (map pr_id ps) \<and> distinct (map (\<lambda>p. (pr_store p, pr_slug p)) ps)"

text \<open>Every variant belongs to a product of its store, a live one to a live one.\<close>

definition rows_ok :: "(string \<times> string \<times> bool) set \<Rightarrow> product_variant list \<Rightarrow> bool" where
  "rows_ok T vs \<longleftrightarrow>
     distinct (map pv_id vs) \<and> sku_unique vs \<and>
     (\<forall>v \<in> set vs. 0 \<le> pv_price v \<and>
        (\<exists>d. (pv_product v, pv_store v, d) \<in> T \<and> (\<not> pv_deleted v \<longrightarrow> \<not> d)))"

definition one_default :: "(string \<times> string \<times> bool) set \<Rightarrow> product_variant list \<Rightarrow> bool" where
  "one_default T vs \<longleftrightarrow> (\<forall>i s. (i, s, False) \<in> T \<longrightarrow> defaults_of_product i vs = 1)"

definition images_ok :: "product_image list \<Rightarrow> bool" where
  "images_ok is \<longleftrightarrow>
     distinct (map im_id is) \<and> distinct (map (\<lambda>i. (im_product i, im_position i)) is)"

definition cat_ok :: "catalog \<Rightarrow> bool" where
  "cat_ok c \<longleftrightarrow> categories_ok (ct_categories c) \<and> products_ok (ct_products c) \<and>
     rows_ok (shelf (ct_products c)) (ct_variants c) \<and>
     one_default (shelf (ct_products c)) (ct_variants c) \<and> images_ok (ct_images c)"

lemma cat_audit_tables [simp]:
  "ct_categories (cat_audit e c) = ct_categories c" "ct_products (cat_audit e c) = ct_products c"
  "ct_variants (cat_audit e c) = ct_variants c" "ct_images (cat_audit e c) = ct_images c"
  by (simp_all add: cat_audit_def)

lemma cat_tx_ok:
  assumes "cat_ok c" and "\<And>x c'. work c = Inr (x, c') \<Longrightarrow> cat_ok c'"
  shows "cat_ok (snd (cat_tx work c))"
  using assms by (auto simp: cat_tx_def split: sum.split)

section \<open>Replacing one row\<close>

text \<open>The row with a key is replaced by one that keeps what \<open>f\<close> reads of it.\<close>

lemma replace_keeps_map:
  assumes "distinct (map key rows)" and "old \<in> set rows" and "key new = key old" and "f new = f old"
  shows "map f (update_where (\<lambda>x. key x = key new) (\<lambda>_. new) rows) = map f rows"
proof -
  have "f (if key x = key new then new else x) = f x" if "x \<in> set rows" for x
  proof (cases "key x = key new")
    case True
    then have "old = x" using distinct_map_eq [OF assms(1,2) that] assms(3) by metis
    then show ?thesis using True assms(4) by simp
  qed simp
  then show ?thesis by (simp add: update_where_def)
qed

lemma replace_set:
  assumes "key new \<in> key ` set rows"
  shows "set (update_where (\<lambda>x. key x = key new) (\<lambda>_. new) rows) =
    insert new {x \<in> set rows. key x \<noteq> key new}"
proof (intro equalityI subsetI)
  fix x
  assume "x \<in> set (update_where (\<lambda>x. key x = key new) (\<lambda>_. new) rows)"
  then obtain y where "y \<in> set rows" "x = (if key y = key new then new else y)"
    unfolding set_update_where by blast
  then show "x \<in> insert new {x \<in> set rows. key x \<noteq> key new}" by (cases "key y = key new") simp_all
next
  fix x
  assume x: "x \<in> insert new {x \<in> set rows. key x \<noteq> key new}"
  obtain y where y: "y \<in> set rows" "key y = key new" using assms by (metis imageE)
  show "x \<in> set (update_where (\<lambda>x. key x = key new) (\<lambda>_. new) rows)"
  proof (cases "x = new")
    case True
    show ?thesis using in_update_where [OF y(1), of "\<lambda>x. key x = key new" x "\<lambda>_. new"] y(2) True by simp
  next
    case False
    then show ?thesis using x in_update_where_other [of x rows "\<lambda>x. key x = key new"] by simp
  qed
qed

lemma distinct_head: "distinct (map f (r # rows)) \<Longrightarrow> x \<in> set rows \<Longrightarrow> f x \<noteq> f r"
  by (metis distinct.simps(2) image_eqI list.set_map list.simps(9))

lemma count_where_replace:
  assumes "distinct (map key rows)" and "key new \<in> key ` set rows"
  shows "count_where P (update_where (\<lambda>x. key x = key new) (\<lambda>_. new) rows) =
    count_where (\<lambda>x. P x \<and> key x \<noteq> key new) rows + (if P new then 1 else 0)"
  using assms
proof (induction rows)
  case (Cons x rows)
  show ?case
  proof (cases "key x = key new")
    case True
    then have none: "key y \<noteq> key new" if "y \<in> set rows" for y
      using distinct_head [OF Cons.prems(1) that] True by simp
    then have "update_where (\<lambda>x. key x = key new) (\<lambda>_. new) rows = rows" by (intro update_where_id) auto
    moreover have "count_where (\<lambda>x. P x \<and> key x \<noteq> key new) rows = count_where P rows"
      using none unfolding count_where_def by (metis (mono_tags, lifting) filter_cong)
    ultimately show ?thesis using True by simp
  next
    case False
    then show ?thesis using Cons by auto
  qed
qed simp

lemma count_where_cong:
  "(\<And>x. x \<in> set rows \<Longrightarrow> P x = Q x) \<Longrightarrow> count_where P rows = count_where Q rows"
  unfolding count_where_def by (metis (mono_tags, lifting) filter_cong)

text \<open>Split one row off a count.\<close>

lemma count_where_split:
  assumes "distinct (map key rows)" and "r \<in> set rows"
  shows "count_where P rows = count_where (\<lambda>x. P x \<and> key x \<noteq> key r) rows + (if P r then 1 else 0)"
proof -
  have "update_where (\<lambda>x. key x = key r) (\<lambda>_. r) rows = rows"
    using assms distinct_map_eq [OF assms(1)] by (intro nth_equalityI) (auto simp: update_where_def)
  then show ?thesis using count_where_replace [OF assms(1), of r P] assms(2) by simp
qed

section \<open>Categories\<close>

lemma one_level_insert:
  "one_level E \<Longrightarrow> (\<And>p. e = Some p \<Longrightarrow> (p, None) \<in> E) \<Longrightarrow> one_level (insert (i, e) E)"
  by (auto simp: one_level_def)

lemma insert_category_ok:
  assumes "insert_category g c = Inr c1" and "categories_ok (ct_categories c)"
    and "cg_id g \<notin> cg_id ` set (ct_categories c)"
  shows "categories_ok (ct_categories c1) \<and> ct_products c1 = ct_products c \<and>
    ct_variants c1 = ct_variants c \<and> ct_images c1 = ct_images c"
proof -
  let ?gs = "ct_categories c"
  have c1: "c1 = c\<lparr>ct_categories := ?gs @ [g]\<rparr>"
    and slug: "\<not> (\<exists>x \<in> set ?gs. cg_store x = cg_store g \<and> cg_slug x = cg_slug g)"
    and trig: "depth_trigger ?gs g = Inr ()" and fk: "category_exists (cg_parent g) c"
    using assms(1) by (auto simp: insert_category_def split: if_splits)
  have root: "(p, None) \<in> tree_of ?gs" if "cg_parent g = Some p" for p
    using that trig fk by (force simp: depth_trigger_def category_exists_def tree_of_def split: if_splits)
  have "tree_of (?gs @ [g]) = insert (cg_id g, cg_parent g) (tree_of ?gs)" by (simp add: tree_of_def)
  moreover have "one_level (tree_of ?gs)" using assms(2) by (simp add: categories_ok_def)
  ultimately have "one_level (tree_of (?gs @ [g]))" using one_level_insert root by simp
  moreover have "(cg_store g, cg_slug g) \<notin> (\<lambda>g. (cg_store g, cg_slug g)) ` set ?gs" using slug by auto
  ultimately show ?thesis using assms(2,3) by (simp add: categories_ok_def c1)
qed

lemma update_category_ok:
  assumes "update_category g c = Inr c1" and "categories_ok (ct_categories c)"
    and "old \<in> set (ct_categories c)" and "cg_id g = cg_id old" and "cg_parent g = cg_parent old"
    and "cg_store g = cg_store old" and "cg_slug g = cg_slug old"
  shows "categories_ok (ct_categories c1) \<and> ct_products c1 = ct_products c \<and>
    ct_variants c1 = ct_variants c \<and> ct_images c1 = ct_images c"
proof -
  let ?rows = "ct_categories c" and ?new = "update_where (\<lambda>x. cg_id x = cg_id g) (\<lambda>_. g) (ct_categories c)"
  have c1: "c1 = c\<lparr>ct_categories := ?new\<rparr>" using assms(1) by (auto simp: update_category_def split: if_splits)
  have d: "distinct (map cg_id ?rows)" using assms(2) by (simp add: categories_ok_def)
  note keep = replace_keeps_map [OF d assms(3,4)]
  have "map cg_id ?new = map cg_id ?rows" by (rule keep) (rule assms(4))
  moreover have "map (\<lambda>g. (cg_store g, cg_slug g)) ?new = map (\<lambda>g. (cg_store g, cg_slug g)) ?rows"
    by (rule keep) (simp add: assms(6,7))
  moreover have "map (\<lambda>g. (cg_id g, cg_parent g)) ?new = map (\<lambda>g. (cg_id g, cg_parent g)) ?rows"
    by (rule keep) (simp add: assms(4,5))
  from arg_cong [OF this, of set] have "tree_of ?new = tree_of ?rows" by (simp only: set_map tree_of_def)
  ultimately show ?thesis using assms(2) by (simp add: categories_ok_def c1)
qed

lemma live_category_in: "live_category s i c = Some g \<Longrightarrow> g \<in> set (ct_categories c) \<and> cg_id g = i"
  using findD by (fastforce simp: live_category_def)

lemma requireCategory_in: "requireCategory s i c = Inr g \<Longrightarrow> g \<in> set (ct_categories c)"
  using live_category_in by (fastforce simp: requireCategory_def notFound_def split: option.splits)

lemma createCategory_ok:
  assumes "cat_ok c" and "i \<notin> cg_id ` set (ct_categories c)"
  shows "cat_ok (snd (createCategory plain i s n par pos c))"
  unfolding createCategory_def Let_def
  apply (rule cat_tx_ok [OF assms(1)])
  subgoal premises h for x c'
  proof -
    obtain g c1 where "insert_category g c = Inr c1" "cg_id g = i"
      and c': "c' = cat_audit (audit_entry_of ''catalog.category_created'' LOW s None ''category'' i) c1"
      using h by fastforce
    from insert_category_ok [OF this(1)] this(2) assms show ?thesis by (simp add: cat_ok_def c')
  qed
  done

lemma updateCategory_ok: assumes "cat_ok c" shows "cat_ok (snd (updateCategory s i patch c))"
  unfolding updateCategory_def
  apply (rule cat_tx_ok [OF assms])
  subgoal premises h for x c'
  proof -
    obtain g where rq: "requireCategory s i c = Inr g" and u: "update_category (patch_category patch g) c = Inr c'"
      using h by auto
    from update_category_ok [OF u _ requireCategory_in [OF rq]] assms show ?thesis
      by (simp add: cat_ok_def patch_category_def)
  qed
  done

lemma deleteCategory_ok: assumes "cat_ok c" shows "cat_ok (snd (deleteCategory s i c))"
  unfolding deleteCategory_def
  apply (rule cat_tx_ok [OF assms])
  subgoal premises h for x c'
  proof -
    obtain g c1 where rq: "requireCategory s i c = Inr g"
      and u: "update_category (g\<lparr>cg_deleted := True\<rparr>) c = Inr c1"
      and c': "c' = cat_audit (audit_entry_of ''catalog.category_deleted'' LOW s None ''category'' i) c1"
      using h by auto
    from update_category_ok [OF u _ requireCategory_in [OF rq]] assms show ?thesis
      by (simp add: cat_ok_def c')
  qed
  done

section \<open>Products and variants\<close>

lemma find_product_in:
  assumes "find_product s i c = Inr p"
  shows "p \<in> set (ct_products c)" and "pr_id p = i" and "pr_store p = s" and "\<not> pr_deleted p"
    and "(i, s, False) \<in> shelf (ct_products c)"
proof -
  have f: "find (\<lambda>p. pr_id p = i \<and> pr_store p = s \<and> \<not> pr_deleted p) (ct_products c) = Some p"
    using assms by (auto simp: find_product_def notFound_def split: option.splits)
  show p: "p \<in> set (ct_products c)" "pr_id p = i" "pr_store p = s" "\<not> pr_deleted p"
    using findD [OF f] by auto
  then show "(i, s, False) \<in> shelf (ct_products c)" by (force simp: shelf_def)
qed

lemma requireVariant_in:
  assumes "requireVariant s i c = Inr v"
  shows "v \<in> set (ct_variants c)" and "pv_id v = i" and "pv_store v = s" and "\<not> pv_deleted v"
proof -
  have f: "find (\<lambda>v. pv_id v = i \<and> pv_store v = s \<and> \<not> pv_deleted v) (ct_variants c) = Some v"
    using assms by (auto simp: requireVariant_def notFound_def split: option.splits)
  show "v \<in> set (ct_variants c)" "pv_id v = i" "pv_store v = s" "\<not> pv_deleted v"
    using findD [OF f] by auto
qed

lemma update_product_ok:
  assumes "update_product p c = Inr c1" and "products_ok (ct_products c)" and "old \<in> set (ct_products c)"
    and "pr_id p = pr_id old" and "pr_store p = pr_store old" and "pr_slug p = pr_slug old"
  shows "products_ok (ct_products c1)" and "ct_categories c1 = ct_categories c"
    and "ct_variants c1 = ct_variants c" and "ct_images c1 = ct_images c"
    and "shelf (ct_products c1) = insert (pr_id p, pr_store p, pr_deleted p)
      {t \<in> shelf (ct_products c). fst t \<noteq> pr_id p}"
proof -
  let ?new = "update_where (\<lambda>x. pr_id x = pr_id p) (\<lambda>_. p) (ct_products c)"
  have c1: "c1 = c\<lparr>ct_products := ?new\<rparr>" using assms(1) by (auto simp: update_product_def split: if_splits)
  have d: "distinct (map pr_id (ct_products c))" using assms(2) by (simp add: products_ok_def)
  note keep = replace_keeps_map [OF d assms(3,4)]
  have "map pr_id ?new = map pr_id (ct_products c)" by (rule keep) (rule assms(4))
  moreover have "map (\<lambda>p. (pr_store p, pr_slug p)) ?new = map (\<lambda>p. (pr_store p, pr_slug p)) (ct_products c)"
    by (rule keep) (simp add: assms(5,6))
  ultimately show "products_ok (ct_products c1)" using assms(2) by (simp add: products_ok_def c1)
  have "pr_id p \<in> pr_id ` set (ct_products c)" using assms(3,4) by simp
  then have "set ?new = insert p {x \<in> set (ct_products c). pr_id x \<noteq> pr_id p}" by (rule replace_set)
  then show "shelf (ct_products c1) = insert (pr_id p, pr_store p, pr_deleted p)
      {t \<in> shelf (ct_products c). fst t \<noteq> pr_id p}"
    by (force simp: shelf_def c1)
qed (use assms(1) in \<open>auto simp: update_product_def split: if_splits\<close>)

text \<open>An update that leaves a product alive and where it is leaves the shelf as it is.\<close>

lemma shelf_unchanged:
  assumes "products_ok ps" and "old \<in> set ps"
  shows "insert (pr_id old, pr_store old, pr_deleted old) {t \<in> shelf ps. fst t \<noteq> pr_id old} = shelf ps"
proof -
  have "x = old" if "x \<in> set ps" "pr_id x = pr_id old" for x
    using distinct_map_eq [of pr_id ps x old] that assms by (simp add: products_ok_def)
  then show ?thesis using assms(2) by (force simp: shelf_def)
qed

lemma update_same_product_ok:
  assumes "update_product p c = Inr c1" and "cat_ok c" and "old \<in> set (ct_products c)"
    and "pr_id p = pr_id old" and "pr_store p = pr_store old" and "pr_slug p = pr_slug old"
    and "pr_deleted p = pr_deleted old"
  shows "cat_ok c1"
proof -
  have ok: "products_ok (ct_products c)" using assms(2) by (simp add: cat_ok_def)
  note u = update_product_ok [OF assms(1) ok assms(3-6)]
  have "shelf (ct_products c1) = shelf (ct_products c)"
    using u(5) shelf_unchanged [OF ok assms(3)] assms(4,5,7) by simp
  then show ?thesis using u(1-4) assms(2) by (simp add: cat_ok_def)
qed

lemma cat_ok_audit [simp]: "cat_ok (cat_audit e c) = cat_ok c"
  by (simp add: cat_ok_def)

lemma updateProduct_ok: assumes "cat_ok c" shows "cat_ok (snd (updateProduct url now s i patch c))"
  unfolding updateProduct_def
  apply (rule cat_tx_ok [OF assms])
  subgoal premises h for x c'
  proof -
    obtain p where p: "find_product s i c = Inr p" and u: "update_product (patch_product now patch p) c = Inr c'"
      using h by auto
    show ?thesis
      by (rule update_same_product_ok [OF u assms find_product_in(1) [OF p]]) (simp_all add: patch_product_def)
  qed
  done

lemma setProductStatus_ok: assumes "cat_ok c" shows "cat_ok (snd (setProductStatus url now s i st c))"
  unfolding setProductStatus_def Let_def
  apply (rule cat_tx_ok [OF assms])
  subgoal premises h for x c'
  proof -
    obtain p c1 where p: "find_product s i c = Inr p"
      and u: "update_product (p\<lparr>pr_status := st, pr_updated := now\<rparr>) c = Inr c1"
      and c': "c' = cat_audit (audit_entry_of (''catalog.product_'' @ product_status_text st) LOW s None ''product'' i) c1"
      using h by auto
    have "cat_ok c1" by (rule update_same_product_ok [OF u assms find_product_in(1) [OF p]]) simp_all
    then show ?thesis by (simp add: c')
  qed
  done

subsection \<open>Writing a variant\<close>

lemma variant_row_okD:
  assumes "variant_row_ok others v = Inr ()"
  shows "0 \<le> pv_price v"
    and "\<not> pv_deleted v \<Longrightarrow> pv_sku v \<noteq> None \<Longrightarrow> x \<in> set others \<Longrightarrow> pv_store x = pv_store v \<Longrightarrow>
      pv_sku x = pv_sku v \<Longrightarrow> pv_deleted x"
  using assms by (auto simp: variant_row_ok_def price_ok_def split: if_splits)

lemma sku_unique_insert:
  assumes "sku_unique vs" and "variant_row_ok others v = Inr ()"
    and "set new \<subseteq> insert v (set others)" and "set others \<subseteq> set vs"
  shows "sku_unique new"
  unfolding sku_unique_def
proof (intro ballI impI)
  fix x y
  assume "x \<in> set new" "y \<in> set new" and h: "\<not> pv_deleted x \<and> \<not> pv_deleted y \<and> pv_sku x \<noteq> None \<and>
    pv_sku y = pv_sku x \<and> pv_store y = pv_store x"
  then consider "x = v" "y = v" | "x = v" "y \<in> set others" | "x \<in> set others" "y = v"
    | "x \<in> set others" "y \<in> set others" using assms(3) by blast
  then show "pv_id y = pv_id x"
  proof cases
    case 2
    then show ?thesis using variant_row_okD(2) [OF assms(2), of y] h by metis
  next
    case 3
    then show ?thesis using variant_row_okD(2) [OF assms(2), of x] h by metis
  next
    case 4
    then show ?thesis using assms(1,4) h unfolding sku_unique_def by blast
  qed simp
qed

lemma insert_variant_rows:
  assumes "insert_variant v c = Inr c1" and "rows_ok T (ct_variants c)"
    and "pv_id v \<notin> pv_id ` set (ct_variants c)" and "(pv_product v, pv_store v, False) \<in> T"
  shows "rows_ok T (ct_variants c1)" and "c1 = c\<lparr>ct_variants := ct_variants c @ [v]\<rparr>"
proof -
  have r: "variant_row_ok (ct_variants c) v = Inr ()" and c1: "c1 = c\<lparr>ct_variants := ct_variants c @ [v]\<rparr>"
    using assms(1) by (auto simp: insert_variant_def)
  then show "c1 = c\<lparr>ct_variants := ct_variants c @ [v]\<rparr>" by simp
  have "sku_unique (ct_variants c @ [v])"
    by (rule sku_unique_insert [OF _ r]) (use assms(2) in \<open>auto simp: rows_ok_def\<close>)
  then show "rows_ok T (ct_variants c1)"
    using assms(2-4) variant_row_okD(1) [OF r] by (auto simp: rows_ok_def c1)
qed

lemma update_variant_rows:
  assumes "update_variant v c = Inr c1" and "rows_ok T (ct_variants c)" and "old \<in> set (ct_variants c)"
    and "pv_id v = pv_id old" and "pv_product v = pv_product old" and "pv_store v = pv_store old"
    and "\<not> pv_deleted old"
  shows "rows_ok T (ct_variants c1)"
    and "c1 = c\<lparr>ct_variants := update_where (\<lambda>x. pv_id x = pv_id v) (\<lambda>_. v) (ct_variants c)\<rparr>"
proof -
  let ?new = "update_where (\<lambda>x. pv_id x = pv_id v) (\<lambda>_. v) (ct_variants c)"
  let ?others = "filter (\<lambda>x. pv_id x \<noteq> pv_id v) (ct_variants c)"
  have r: "variant_row_ok ?others v = Inr ()" and c1: "c1 = c\<lparr>ct_variants := ?new\<rparr>"
    using assms(1) by (auto simp: update_variant_def)
  then show "c1 = c\<lparr>ct_variants := ?new\<rparr>" by simp
  have d: "distinct (map pv_id (ct_variants c))" using assms(2) by (simp add: rows_ok_def)
  have "map pv_id ?new = map pv_id (ct_variants c)"
    by (rule replace_keeps_map [OF d assms(3,4)]) (rule assms(4))
  then have d': "distinct (map pv_id ?new)" using d by simp
  have "pv_id v \<in> pv_id ` set (ct_variants c)" using assms(3,4) by simp
  then have set: "set ?new = insert v (set ?others)" by (simp add: replace_set)
  have "sku_unique ?new"
    by (rule sku_unique_insert [OF _ r]) (use assms(2) set in \<open>auto simp: rows_ok_def\<close>)
  moreover have "\<exists>d. (pv_product v, pv_store v, d) \<in> T \<and> (\<not> pv_deleted v \<longrightarrow> \<not> d)"
    using assms(2,3,5-7) by (auto simp: rows_ok_def)
  ultimately show "rows_ok T (ct_variants c1)"
    using assms(2) d' variant_row_okD(1) [OF r] set by (simp add: rows_ok_def c1)
qed

lemma defaults_after_update:
  assumes "distinct (map pv_id vs)" and "old \<in> set vs" and "pv_id v = pv_id old"
  shows "defaults_of_product i (update_where (\<lambda>x. pv_id x = pv_id v) (\<lambda>_. v) vs) +
      (if pv_product old = i \<and> pv_default old \<and> \<not> pv_deleted old then 1 else 0) =
    defaults_of_product i vs + (if pv_product v = i \<and> pv_default v \<and> \<not> pv_deleted v then 1 else 0)"
proof -
  let ?P = "\<lambda>v. pv_product v = i \<and> pv_default v \<and> \<not> pv_deleted v"
  have "pv_id v \<in> pv_id ` set vs" using assms(2,3) by simp
  note new = count_where_replace [OF assms(1) this, of ?P, unfolded assms(3)]
  note old = count_where_split [OF assms(1,2), of ?P]
  show ?thesis unfolding defaults_of_product_def assms(3) new old by simp
qed

lemma rows_ok_mono:
  "rows_ok T vs \<Longrightarrow> T \<subseteq> T' \<Longrightarrow> rows_ok T' vs"
  unfolding rows_ok_def by (meson subsetD)

lemma shelf_owner:
  assumes "products_ok ps" and "(i, s, d) \<in> shelf ps" and "(i, s', d') \<in> shelf ps"
  shows "s = s' \<and> d = d'"
proof -
  obtain p p' where p: "p \<in> set ps" "pr_id p = i" "pr_store p = s" "pr_deleted p = d"
    and p': "p' \<in> set ps" "pr_id p' = i" "pr_store p' = s'" "pr_deleted p' = d'"
    using assms(2,3) by (auto simp: shelf_def)
  have "p = p'"
    by (rule distinct_map_eq [of pr_id ps]) (use assms(1) p p' in \<open>simp_all add: products_ok_def\<close>)
  then show ?thesis using p p' by simp
qed

lemma insert_product_ok:
  assumes "insert_product p c = Inr c1" and "products_ok (ct_products c)"
    and "pr_id p \<notin> pr_id ` set (ct_products c)"
  shows "products_ok (ct_products c1)" and "c1 = c\<lparr>ct_products := ct_products c @ [p]\<rparr>"
proof -
  have "\<not> (\<exists>x \<in> set (ct_products c). pr_store x = pr_store p \<and> pr_slug x = pr_slug p)"
    and c1: "c1 = c\<lparr>ct_products := ct_products c @ [p]\<rparr>"
    using assms(1) by (auto simp: insert_product_def split: if_splits)
  then show "products_ok (ct_products c1)" using assms(2,3) by (auto simp: products_ok_def)
  show "c1 = c\<lparr>ct_products := ct_products c @ [p]\<rparr>" by (rule c1)
qed

lemma no_rows_of_a_new_product:
  assumes "rows_ok (shelf ps) vs" and "i \<notin> pr_id ` set ps"
  shows "defaults_of_product i vs = 0"
proof -
  have "pv_product v \<noteq> i" if "v \<in> set vs" for v
    using assms that by (force simp: rows_ok_def shelf_def)
  then show ?thesis by (simp add: defaults_of_product_def count_where_0_iff)
qed

lemma createProduct_ok:
  assumes "cat_ok c" and "i \<notin> pr_id ` set (ct_products c)" and "k \<notin> pv_id ` set (ct_variants c)"
  shows "cat_ok (snd (createProduct url plain now i k suffix s input c))"
  unfolding createProduct_def Let_def
  apply (rule cat_tx_ok [OF assms(1)])
  subgoal premises h for x c'
  proof -
    obtain p v c1 c2 where p: "insert_product p c = Inr c1" "pr_id p = i" "pr_store p = s" "\<not> pr_deleted p"
      and v: "insert_variant v c1 = Inr c2" "pv_id v = k" "pv_product v = i" "pv_store v = s" "pv_default v"
        "\<not> pv_deleted v"
      and c': "c' = cat_audit (audit_entry_of ''catalog.product_created'' LOW s None ''product'' i) c2"
      using h by fastforce
    let ?T = "shelf (ct_products c)" and ?T' = "insert (i, s, False) (shelf (ct_products c))"
    have ok: "products_ok (ct_products c)" "rows_ok ?T (ct_variants c)" "one_default ?T (ct_variants c)"
      using assms(1) by (simp_all add: cat_ok_def)
    have new: "pr_id p \<notin> pr_id ` set (ct_products c)" using assms(2) p(2) by simp
    note ip = insert_product_ok [OF p(1) ok(1) new]
    have shelf: "shelf (ct_products c1) = ?T'" using p(2-4) by (simp add: ip(2) shelf_def)
    have rows1: "rows_ok ?T' (ct_variants c1)" using rows_ok_mono [OF ok(2)] by (auto simp: ip(2))
    have "pv_id v \<notin> pv_id ` set (ct_variants c1)" "(pv_product v, pv_store v, False) \<in> ?T'"
      using assms(3) v by (simp_all add: ip(2))
    note iv = insert_variant_rows [OF v(1) rows1 this]
    have counts: "defaults_of_product j (ct_variants c2) =
        defaults_of_product j (ct_variants c) + (if j = i then 1 else 0)" for j
      using v(3,5,6) iv(2) ip(2) by (auto simp: defaults_of_product_def)
    have none: "defaults_of_product i (ct_variants c) = 0" by (rule no_rows_of_a_new_product [OF ok(2) assms(2)])
    have "one_default ?T' (ct_variants c2)"
      unfolding one_default_def counts using ok(3) assms(2) none by (auto simp: one_default_def shelf_def)
    then show ?thesis using assms(1) ip iv shelf by (simp add: cat_ok_def c')
  qed
  done

lemma sku_unique_fewer_live:
  assumes "sku_unique vs" and "\<And>v. pv_id (f v) = pv_id v \<and> pv_sku (f v) = pv_sku v \<and> pv_store (f v) = pv_store v"
    and "\<And>v. \<not> pv_deleted (f v) \<Longrightarrow> \<not> pv_deleted v"
  shows "sku_unique (map f vs)"
  unfolding sku_unique_def
proof (intro ballI impI)
  fix x y
  assume xy: "x \<in> set (map f vs)" "y \<in> set (map f vs)" and h: "\<not> pv_deleted x \<and> \<not> pv_deleted y \<and>
    pv_sku x \<noteq> None \<and> pv_sku y = pv_sku x \<and> pv_store y = pv_store x"
  obtain v u where v: "v \<in> set vs" "x = f v" and u: "u \<in> set vs" "y = f u" using xy by auto
  have live: "\<not> pv_deleted v" "\<not> pv_deleted u"
    using h assms(3) [of v] assms(3) [of u] v(2) u(2) by blast+
  have e: "pv_sku v \<noteq> None" "pv_sku u = pv_sku v" "pv_store u = pv_store v"
    using h assms(2) [of v] assms(2) [of u] v(2) u(2) by metis+
  have "pv_id u = pv_id v"
    using assms(1) [unfolded sku_unique_def, rule_format, OF v(1) u(1)] live e by blast
  then show "pv_id y = pv_id x" using assms(2) v(2) u(2) by metis
qed

lemma deleteProduct_ok: assumes "cat_ok c" shows "cat_ok (snd (deleteProduct now s i c))"
  unfolding deleteProduct_def Let_def
  apply (rule cat_tx_ok [OF assms])
  subgoal premises h for x c'
  proof -
    define off :: "product_variant \<Rightarrow> product_variant" where "off = (\<lambda>v. if pv_product v = i \<and> \<not> pv_deleted v then v\<lparr>pv_deleted := True\<rparr> else v)"
    have same: "pv_id (off v) = pv_id v" "pv_sku (off v) = pv_sku v" "pv_store (off v) = pv_store v"
      "pv_product (off v) = pv_product v" "pv_price (off v) = pv_price v" "pv_default (off v) = pv_default v"
      and gone: "pv_deleted (off v) \<longleftrightarrow> pv_deleted v \<or> pv_product v = i" for v
      by (auto simp: off_def)
    let ?vs = "map off (ct_variants c)" and ?T = "shelf (ct_products c)"
    let ?T' = "insert (i, s, True) {t \<in> shelf (ct_products c). fst t \<noteq> i}"
    obtain p c2 where p: "find_product s i c = Inr p"
      and u: "update_product (p\<lparr>pr_deleted := True, pr_updated := now\<rparr>) (c\<lparr>ct_variants := ?vs\<rparr>) = Inr c2"
      and c': "c' = cat_audit (audit_entry_of ''catalog.product_deleted'' MEDIUM s None ''product'' i) c2"
      using h by (auto simp: update_where_def off_def)
    note fp = find_product_in [OF p]
    have ok: "products_ok (ct_products c)" "rows_ok ?T (ct_variants c)" "one_default ?T (ct_variants c)"
      using assms by (simp_all add: cat_ok_def)
    note up = update_product_ok [OF u, of p, simplified, OF ok(1) fp(1)]
    have shelf: "shelf (ct_products c2) = ?T'" using up(5) fp by simp
    have "map pv_id ?vs = map pv_id (ct_variants c)" by (simp add: same)
    then have ids: "distinct (map pv_id ?vs)" using ok(2) by (simp only: rows_ok_def)
    have sku: "sku_unique ?vs"
      by (rule sku_unique_fewer_live) (use ok(2) in \<open>simp_all add: rows_ok_def same gone\<close>)
    have home: "0 \<le> pv_price v \<and> (\<exists>d. (pv_product v, pv_store v, d) \<in> ?T' \<and>
        (\<not> pv_deleted (off v) \<longrightarrow> \<not> d))" if v: "v \<in> set (ct_variants c)" for v
    proof -
      obtain d where d: "(pv_product v, pv_store v, d) \<in> ?T" "\<not> pv_deleted v \<longrightarrow> \<not> d" "0 \<le> pv_price v"
        using ok(2) v by (auto simp: rows_ok_def)
      show ?thesis
      proof (cases "pv_product v = i")
        case True
        then have "pv_store v = s" using shelf_owner [OF ok(1) _ fp(5)] d(1) by simp
        then show ?thesis using True d(3) by (intro conjI exI [of _ True]) (simp_all add: gone)
      next
        case False
        then show ?thesis using d by (auto simp: gone)
      qed
    qed
    have rows: "rows_ok ?T' ?vs" unfolding rows_ok_def using ids sku home by (simp add: same)
    have "defaults_of_product j ?vs = defaults_of_product j (ct_variants c)" if "j \<noteq> i" for j
      using that unfolding defaults_of_product_def count_where_def filter_map length_map
      by (intro arg_cong [of _ _ length] filter_cong) (auto simp: same gone)
    then have "one_default ?T' ?vs" using ok(3) by (auto simp: one_default_def)
    then show ?thesis using assms up(1-4) shelf rows by (simp add: cat_ok_def c')
  qed
  done

lemma one_default_cong:
  "one_default T vs \<Longrightarrow> (\<And>i. defaults_of_product i new = defaults_of_product i vs) \<Longrightarrow> one_default T new"
  by (simp add: one_default_def)

lemma addVariant_ok:
  assumes "cat_ok c" and "k \<notin> pv_id ` set (ct_variants c)"
  shows "cat_ok (snd (addVariant k s i input c))"
  unfolding addVariant_def Let_def
  apply (rule cat_tx_ok [OF assms(1)])
  subgoal premises h for x c'
  proof -
    obtain p v where p: "find_product s i c = Inr p" and v: "insert_variant v c = Inr c'" "pv_id v = k"
      "pv_product v = i" "pv_store v = s" "\<not> pv_default v"
      using h by fastforce
    have ok: "rows_ok (shelf (ct_products c)) (ct_variants c)" "one_default (shelf (ct_products c)) (ct_variants c)"
      using assms(1) by (simp_all add: cat_ok_def)
    have "pv_id v \<notin> pv_id ` set (ct_variants c)" "(pv_product v, pv_store v, False) \<in> shelf (ct_products c)"
      using assms(2) v find_product_in(5) [OF p] by simp_all
    note iv = insert_variant_rows [OF v(1) ok(1) this]
    have "one_default (shelf (ct_products c)) (ct_variants c')"
      by (rule one_default_cong [OF ok(2)]) (simp add: iv(2) defaults_of_product_def v(5))
    then show ?thesis using assms(1) iv(1) by (simp add: cat_ok_def iv(2))
  qed
  done

lemma updateVariant_ok: assumes "cat_ok c" shows "cat_ok (snd (updateVariant s k patch c))"
  unfolding updateVariant_def Let_def
  apply (rule cat_tx_ok [OF assms])
  subgoal premises h for x c'
  proof -
    obtain v where v: "requireVariant s k c = Inr v" and u: "update_variant (patch_variant patch v) c = Inr c'"
      using h by (auto split: if_splits)
    note rv = requireVariant_in [OF v]
    have keep: "pv_id (patch_variant patch v) = pv_id v" "pv_product (patch_variant patch v) = pv_product v"
      "pv_store (patch_variant patch v) = pv_store v" "pv_default (patch_variant patch v) = pv_default v"
      "pv_deleted (patch_variant patch v) = pv_deleted v"
      by (simp_all add: patch_variant_def)
    have ok: "rows_ok (shelf (ct_products c)) (ct_variants c)" "one_default (shelf (ct_products c)) (ct_variants c)"
      using assms by (simp_all add: cat_ok_def)
    then have d: "distinct (map pv_id (ct_variants c))" by (simp add: rows_ok_def)
    note uv = update_variant_rows [OF u ok(1) rv(1) keep(1-3) rv(4)]
    have "one_default (shelf (ct_products c)) (ct_variants c')"
      using defaults_after_update [OF d rv(1) keep(1)]
      by (intro one_default_cong [OF ok(2)]) (simp add: uv(2) keep)
    then show ?thesis using assms uv(1) by (simp add: cat_ok_def uv(2))
  qed
  done

text \<open>Taking a variant away and making the next one the default.\<close>

lemma live_variants_mem:
  "x \<in> set (live_variants i c) \<longleftrightarrow> x \<in> set (ct_variants c) \<and> pv_product x = i \<and> \<not> pv_deleted x"
  by (auto simp: live_variants_def)

lemma deleteVariant_ok: assumes "cat_ok c" shows "cat_ok (snd (deleteVariant s k c))"
  unfolding deleteVariant_def Let_def
  apply (rule cat_tx_ok [OF assms])
  subgoal premises h for x c'
  proof -
    obtain v c1 where v: "requireVariant s k c = Inr v"
      and others: "count_where (\<lambda>x. pv_product x = pv_product v \<and> \<not> pv_deleted x \<and> pv_id x \<noteq> k) (ct_variants c) \<noteq> 0"
      and u: "update_variant (v\<lparr>pv_deleted := True, pv_default := False\<rparr>) c = Inr c1"
      and rest: "(if pv_default v then (case live_variants (pv_product v) c1 of [] \<Rightarrow> Inr ((), c1)
          | x # _ \<Rightarrow> mapE (\<lambda>c2. ((), c2)) (update_variant (x\<lparr>pv_default := True\<rparr>) c1))
        else Inr ((), c1)) = Inr (x, c')"
      using h by auto
    note rv = requireVariant_in [OF v]
    let ?T = "shelf (ct_products c)" and ?gone = "v\<lparr>pv_deleted := True, pv_default := False\<rparr>"
    have ok: "rows_ok ?T (ct_variants c)" "one_default ?T (ct_variants c)"
      using assms by (simp_all add: cat_ok_def)
    then have d: "distinct (map pv_id (ct_variants c))" by (simp add: rows_ok_def)
    note uv = update_variant_rows [OF u ok(1) rv(1), simplified, OF rv(4)]
    have off: "defaults_of_product i (ct_variants c1) + (if pv_product v = i \<and> pv_default v then 1 else 0) =
        defaults_of_product i (ct_variants c)" for i
      using defaults_after_update [OF d rv(1), of ?gone i] rv(4) by (simp add: uv(2))
    show ?thesis
    proof (cases "pv_default v")
      case False
      then have "one_default ?T (ct_variants c1)" using off by (intro one_default_cong [OF ok(2)]) simp
      then show ?thesis using assms uv rest False by (auto simp: cat_ok_def)
    next
      case True
      obtain y where y: "y \<in> set (ct_variants c)" "pv_product y = pv_product v" "\<not> pv_deleted y" "pv_id y \<noteq> k"
        using others by (auto simp: count_where_0_iff)
      have "y \<in> set (ct_variants c1)"
        unfolding uv(2) using y(1,4) rv(2) by (auto intro: in_update_where_other)
      then have "live_variants (pv_product v) c1 \<noteq> []" using y live_variants_mem [of y "pv_product v" c1] by auto
      then obtain z zs where z: "live_variants (pv_product v) c1 = z # zs" by (cases "live_variants (pv_product v) c1") auto
      then have zin: "z \<in> set (ct_variants c1)" "pv_product z = pv_product v" "\<not> pv_deleted z"
        using live_variants_mem [of z "pv_product v" c1] by simp_all
      have w: "update_variant (z\<lparr>pv_default := True\<rparr>) c1 = Inr c'" using rest True z by auto
      note uz = update_variant_rows [OF w uv(1) zin(1), simplified, OF zin(3)]
      obtain d1 where "(pv_product v, pv_store v, d1) \<in> ?T" "\<not> d1" using ok(1) rv(1,4) by (auto simp: rows_ok_def)
      then have one: "defaults_of_product (pv_product v) (ct_variants c) = 1" using ok(2) by (auto simp: one_default_def)
      have none: "defaults_of_product (pv_product v) (ct_variants c1) = 0" using off [of "pv_product v"] one True by simp
      then have "\<not> pv_default z" using zin by (auto simp: defaults_of_product_def count_where_0_iff)
      moreover have d1: "distinct (map pv_id (ct_variants c1))" using uv(1) by (simp add: rows_ok_def)
      ultimately have "defaults_of_product i (ct_variants c') = defaults_of_product i (ct_variants c)" for i
        using defaults_after_update [OF d1 zin(1), of "z\<lparr>pv_default := True\<rparr>" i] off [of i] zin True
        by (auto simp: uz(2) split: if_splits)
      then have "one_default ?T (ct_variants c')" by (rule one_default_cong [OF ok(2)])
      then show ?thesis using assms uz(1) by (simp add: cat_ok_def uz(2) uv(2))
    qed
  qed
  done

section \<open>Images\<close>

lemma distinct_after_change:
  assumes "distinct (map key rows)" and "distinct (map f rows)"
    and "\<And>r. r \<in> set rows \<Longrightarrow> key r = k \<Longrightarrow> f (g r) = z" and "\<And>r. r \<in> set rows \<Longrightarrow> key r \<noteq> k \<Longrightarrow> f r \<noteq> z"
  shows "distinct (map f (update_where (\<lambda>r. key r = k) g rows))"
  using assms
proof (induction rows)
  case (Cons r rows)
  show ?case
  proof (cases "key r = k")
    case True
    then have none: "key x \<noteq> k" if "x \<in> set rows" for x
      using distinct_head [OF Cons.prems(1) that] True by simp
    then have "update_where (\<lambda>r. key r = k) g rows = rows" by (intro update_where_id) auto
    moreover have "z \<notin> f ` set rows" using none Cons.prems(4) by auto
    ultimately show ?thesis using True Cons.prems(2,3) by simp
  next
    case False
    have "f (if key x = k then g x else x) \<noteq> f r" if x: "x \<in> set rows" for x
    proof (cases "key x = k")
      case True
      then show ?thesis using x False Cons.prems(3) [of x] Cons.prems(4) [of r] by auto
    next
      case False
      then show ?thesis using distinct_head [OF Cons.prems(2) x] by simp
    qed
    then have "f r \<notin> f ` set (update_where (\<lambda>r. key r = k) g rows)" unfolding set_update_where by fastforce
    moreover have "distinct (map f (update_where (\<lambda>r. key r = k) g rows))" using Cons by simp
    ultimately show ?thesis using False by simp
  qed
qed simp

text \<open>What a move leaves alone: which images there are, and of which product each is.\<close>

definition frames :: "product_image list \<Rightarrow> (string \<times> string) list" where
  "frames rows = map (\<lambda>i. (im_id i, im_product i)) rows"

lemma move_image_ok:
  assumes "images_ok rows" and "(im_id i, im_product i) \<in> set (frames rows)"
    and "image_place_free (filter (\<lambda>x. im_id x \<noteq> im_id i) rows) (i\<lparr>im_position := n\<rparr>) = Inr ()"
  shows "images_ok (update_where (\<lambda>x. im_id x = im_id i) (\<lambda>x. x\<lparr>im_position := n\<rparr>) rows)"
    and "frames (update_where (\<lambda>x. im_id x = im_id i) (\<lambda>x. x\<lparr>im_position := n\<rparr>) rows) = frames rows"
proof -
  have d: "distinct (map im_id rows)" "distinct (map (\<lambda>i. (im_product i, im_position i)) rows)"
    using assms(1) by (simp_all add: images_ok_def)
  obtain y where y: "y \<in> set rows" "im_id y = im_id i" "im_product y = im_product i"
    using assms(2) by (auto simp: frames_def)
  have same: "im_product x = im_product i" if "x \<in> set rows" "im_id x = im_id i" for x
    using distinct_map_eq [OF d(1) that(1) y(1)] that(2) y by simp
  have free: "(im_product x, im_position x) \<noteq> (im_product i, n)" if "x \<in> set rows" "im_id x \<noteq> im_id i" for x
    using assms(3) that by (auto simp: image_place_free_def)
  have "distinct (map (\<lambda>i. (im_product i, im_position i))
      (update_where (\<lambda>x. im_id x = im_id i) (\<lambda>x. x\<lparr>im_position := n\<rparr>) rows))"
    by (rule distinct_after_change [OF d, where z = "(im_product i, n)"]) (use same free in auto)
  then show "images_ok (update_where (\<lambda>x. im_id x = im_id i) (\<lambda>x. x\<lparr>im_position := n\<rparr>) rows)"
    using d(1) by (simp add: images_ok_def map_update_where)
  show "frames (update_where (\<lambda>x. im_id x = im_id i) (\<lambda>x. x\<lparr>im_position := n\<rparr>) rows) = frames rows"
    unfolding frames_def by (rule map_update_where) simp
qed

lemma park_all_ok:
  assumes "foldE park_image is rows = Inr rows'" and "images_ok rows"
    and "\<And>i. i \<in> set is \<Longrightarrow> (im_id i, im_product i) \<in> set (frames rows)"
  shows "images_ok rows'"
proof -
  have "images_ok rows' \<and> frames rows' = frames rows"
  proof (rule foldE_inv [where P = "\<lambda>r. images_ok r \<and> frames r = frames rows", OF _ assms(1)])
    fix i r r'
    assume "i \<in> set is" and "images_ok r \<and> frames r = frames rows" and "park_image i r = Inr r'"
    then show "images_ok r' \<and> frames r' = frames rows"
      using move_image_ok [of r i "im_position i + 1000"] assms(3) [of i] by (auto simp: park_image_def)
  qed (use assms(2) in simp)
  then show ?thesis by simp
qed

lemma place_all_ok:
  assumes "foldE (place_image s) ixs rows = Inr rows'" and "images_ok rows"
  shows "images_ok rows'"
proof (rule foldE_inv [where P = images_ok, OF _ assms])
  fix ix r r'
  assume "images_ok r" and p: "place_image s ix r = Inr r'"
  then obtain i where f: "find (\<lambda>i. im_id i = snd ix \<and> im_store i = s) r = Some i"
    and "image_place_free (filter (\<lambda>x. im_id x \<noteq> im_id i) r) (i\<lparr>im_position := fst ix\<rparr>) = Inr ()"
    and "r' = update_where (\<lambda>x. im_id x = im_id i) (\<lambda>x. x\<lparr>im_position := fst ix\<rparr>) r"
    by (auto simp: place_image_def split: option.splits)
  moreover have "i \<in> set r" using findD [OF f] by simp
  ultimately show "images_ok r'" using move_image_ok(1) [OF \<open>images_ok r\<close>, of i "fst ix"] by (auto simp: frames_def)
qed

lemma reorderImages_ok: assumes "cat_ok c" shows "cat_ok (snd (reorderImages s i ids c))"
  unfolding reorderImages_def
  apply (rule cat_tx_ok [OF assms])
  subgoal premises h for x c'
  proof -
    obtain parked rows where parked: "foldE park_image (filter (\<lambda>j. im_product j = i) (ct_images c)) (ct_images c) = Inr parked"
      and rows: "foldE (place_image s) (zip (map int [0..<length ids]) ids) parked = Inr rows"
      and c': "c' = c\<lparr>ct_images := rows\<rparr>"
      using h by auto
    have "images_ok parked"
      by (rule park_all_ok [OF parked]) (use assms in \<open>auto simp: cat_ok_def frames_def\<close>)
    from place_all_ok [OF rows this] show ?thesis using assms by (simp add: cat_ok_def c')
  qed
  done

lemma attachImage_ok:
  assumes "cat_ok c" and "k \<notin> im_id ` set (ct_images c)"
  shows "cat_ok (snd (attachImage k s i asset alt c))"
  unfolding attachImage_def Let_def
  apply (rule cat_tx_ok [OF assms(1)])
  subgoal premises h for x c'
  proof -
    obtain im where free: "image_place_free (ct_images c) im = Inr ()" and "im_id im = k"
      and c': "c' = c\<lparr>ct_images := ct_images c @ [im]\<rparr>"
      using h by fastforce
    then have "images_ok (ct_images c @ [im])"
      using assms by (auto simp: cat_ok_def images_ok_def image_place_free_def)
    then show ?thesis using assms(1) by (simp add: cat_ok_def c')
  qed
  done

lemma detachImage_ok: assumes "cat_ok c" shows "cat_ok (snd (detachImage s k c))"
  unfolding detachImage_def
  by (rule cat_tx_ok [OF assms])
     (use assms in \<open>auto simp: cat_ok_def images_ok_def distinct_map_filter\<close>)

end
