(* ===== verification/CatalogImport.thy ===== *)
theory CatalogImport
  imports Catalog Csv
begin

text \<open>
  The catalog as a file against the tables (\<open>modules/catalog/catalog-csv.service.ts\<close>): the export
  reads the rows of \<open>Catalog\<close>, the import goes through the service's own operations, row after
  row, each a transaction of its own.  The characters and the cells are those of \<open>Csv\<close>.
  Identifiers of new rows are supplied by the row's place in the file.
\<close>

definition lower :: "string \<Rightarrow> string" where
  "lower s = map lower_char s"

section \<open>Export\<close>

definition row_of_variant :: "catalog \<Rightarrow> product_variant \<Rightarrow> product \<Rightarrow> catalog_row" where
  "row_of_variant c v p =
     \<lparr>cr_sku = pv_sku v, cr_name = pr_name p, cr_attrs = pv_attrs v, cr_brand = pr_brand p,
      cr_description = pr_description p,
      cr_category = Option.bind (pr_category p) (\<lambda>g.
        map_option cg_name (find (\<lambda>x. cg_id x = g) (ct_categories c))),
      cr_price_cents = pv_price v, cr_compare_at_cents = pv_compare v, cr_barcode = pv_barcode v,
      cr_status = map upper_char (product_status_text (pr_status p))\<rparr>"

text \<open>By product name, the default option of a product first; \<open>rank\<close> is the database's order.\<close>

definition export_rows :: "(string \<Rightarrow> nat) \<Rightarrow> string \<Rightarrow> catalog \<Rightarrow> catalog_row list" where
  "export_rows rank storeId c =
     (let joined = concat (map (\<lambda>v. case find (\<lambda>p. pr_id p = pv_product v) (ct_products c) of
            None \<Rightarrow> [] | Some p \<Rightarrow> [(v, p)])
            (filter (\<lambda>v. pv_store v = storeId \<and> \<not> pv_deleted v) (ct_variants c)))
      in map (\<lambda>(v, p). row_of_variant c v p)
           (sort_key (\<lambda>(v, p). rank (pr_name p))
             (sort_key (\<lambda>(v, p). if pv_default v then 0 else 1 :: nat) joined)))"

definition export_catalog :: "(string \<Rightarrow> nat) \<Rightarrow> string \<Rightarrow> catalog \<Rightarrow> string" where
  "export_catalog rank storeId c = exportCsv (export_rows rank storeId c)"

section \<open>Import\<close>

definition MAX_ROWS :: nat where "MAX_ROWS = 5000"

datatype row_problem =
    NoProductName
  | UnreadablePrice string
  | RefusedRow app_error

record import_row_error =
  ie_line :: nat
  ie_sku :: "string option"
  ie_problem :: row_problem

record import_result =
  ir_created :: nat
  ir_updated :: nat
  ir_skipped :: nat
  ir_errors :: "import_row_error list"

text \<open>The first column of that title.\<close>

fun indexOf :: "string \<Rightarrow> string list \<Rightarrow> nat option" where
  "indexOf x [] = None"
| "indexOf x (y # ys) = (if x = y then Some 0 else map_option Suc (indexOf x ys))"

definition cell_of :: "string list \<Rightarrow> string list \<Rightarrow> string \<Rightarrow> string" where
  "cell_of header row column =
     (case indexOf column header of
        None \<Rightarrow> []
      | Some n \<Rightarrow> js_trim (if n < length row then row ! n else []))"

definition blank_row :: "string list \<Rightarrow> bool" where
  "blank_row row = list_all (\<lambda>x. js_trim x = []) row"

text \<open>An empty cell is read as no value.\<close>

definition or_null :: "string \<Rightarrow> string option" where
  "or_null s = (if s = [] then None else Some s)"

text \<open>The variants by SKU in lower case: of two that differ in case only, the later one.\<close>

definition sku_map :: "string \<Rightarrow> catalog \<Rightarrow> (string \<rightharpoonup> string \<times> string)" where
  "sku_map storeId c =
     foldl (\<lambda>m v. case pv_sku v of None \<Rightarrow> m | Some s \<Rightarrow> m(lower s \<mapsto> (pv_id v, pv_product v))) Map.empty
       (filter (\<lambda>v. pv_store v = storeId \<and> \<not> pv_deleted v \<and> pv_sku v \<noteq> None) (ct_variants c))"

text \<open>Without repetitions, in the order of first appearance.\<close>

definition in_first_order :: "'a list \<Rightarrow> 'a list" where
  "in_first_order xs = rev (remdups (rev xs))"

definition category_names :: "(string \<Rightarrow> nat) \<Rightarrow> string \<Rightarrow> catalog \<Rightarrow> (string \<rightharpoonup> string)" where
  "category_names rank storeId c =
     foldl (\<lambda>m (g, children).
         foldl (\<lambda>m k. m(lower (cg_name k) \<mapsto> cg_id k)) (m(lower (cg_name g) \<mapsto> cg_id g)) children)
       Map.empty (listCategories rank storeId c)"

fun create_wanted ::
    "(string \<Rightarrow> string) \<Rightarrow> (string \<Rightarrow> string) \<Rightarrow> string \<Rightarrow> string list \<Rightarrow> (string \<rightharpoonup> string) \<Rightarrow> catalog \<Rightarrow>
     (string \<rightharpoonup> string) \<times> catalog" where
  "create_wanted plain catId storeId [] lookup c = (lookup, c)"
| "create_wanted plain catId storeId (n # ns) lookup c =
     (case createCategory plain (catId n) storeId n None None c of
        (Inl _, c1) \<Rightarrow> create_wanted plain catId storeId ns lookup c1
      | (Inr g, c1) \<Rightarrow> create_wanted plain catId storeId ns (lookup(lower n \<mapsto> cg_id g)) c1)"

definition ensureCategoryLookup ::
    "(string \<Rightarrow> string) \<Rightarrow> (string \<Rightarrow> nat) \<Rightarrow> (string \<Rightarrow> string) \<Rightarrow> string \<Rightarrow> string list list \<Rightarrow> nat option \<Rightarrow>
     catalog \<Rightarrow> (string \<rightharpoonup> string) \<times> catalog" where
  "ensureCategoryLookup plain rank catId storeId rows categoryIndex c =
     (case categoryIndex of
        None \<Rightarrow> (Map.empty, c)
      | Some n \<Rightarrow>
          let lookup = category_names rank storeId c;
              named = map (\<lambda>r. js_trim (if n < length r then r ! n else [])) rows;
              wanted = in_first_order (filter (\<lambda>x. x \<noteq> [] \<and> lookup (lower x) = None) named)
          in create_wanted plain catId storeId wanted lookup c)"

text \<open>What every row needs: the header, the two look-ups and where new identifiers come from.\<close>

record import_env =
  en_header :: "string list"
  en_skus :: "string \<rightharpoonup> string \<times> string"
  en_categories :: "string \<rightharpoonup> string"
  en_ids :: "nat \<Rightarrow> string \<times> string \<times> string"

datatype row_done = RowCreated | RowUpdated

text \<open>A row that names a SKU of the store: the product is renamed, then the variant is priced.\<close>

definition update_from_row ::
    "(string \<Rightarrow> string) \<Rightarrow> int \<Rightarrow> string \<Rightarrow> (string \<Rightarrow> string) \<Rightarrow> int \<Rightarrow> int option \<Rightarrow> string option \<Rightarrow>
     string \<times> string \<Rightarrow> catalog \<Rightarrow> row_done cat_outcome" where
  "update_from_row url now storeId cell priceCents compareAt categoryId match c =
     (case updateProduct url now storeId (snd match)
             \<lparr>pt_name = Some (cell ''name''), pt_brand = Some (or_null (cell ''brand'')),
              pt_description = Some (or_null (cell ''description'')),
              pt_category = map_option Some categoryId\<rparr> c of
        (Inl e, c1) \<Rightarrow> (Inl e, c1)
      | (Inr _, c1) \<Rightarrow>
          (case updateVariant storeId (fst match)
                  \<lparr>vp_sku = None, vp_barcode = map_option Some (or_null (cell ''barcode'')), vp_attrs = None,
                   vp_price = Some priceCents, vp_compare = map_option Some compareAt, vp_cost = None\<rparr> c1 of
             (Inl e, c2) \<Rightarrow> (Inl e, c2)
           | (Inr _, c2) \<Rightarrow> (Inr RowUpdated, c2)))"

definition create_from_row ::
    "(string \<Rightarrow> string) \<Rightarrow> (string \<Rightarrow> string) \<Rightarrow> int \<Rightarrow> string \<Rightarrow> (string \<Rightarrow> string) \<Rightarrow> int \<Rightarrow> string option \<Rightarrow>
     string option \<Rightarrow> string \<times> string \<times> string \<Rightarrow> catalog \<Rightarrow> row_done cat_outcome" where
  "create_from_row url plain now storeId cell priceCents sku categoryId ids c =
     (case createProduct url plain now (fst ids) (fst (snd ids)) (snd (snd ids)) storeId
             \<lparr>pi_name = cell ''name'', pi_brand = or_null (cell ''brand''),
              pi_description = or_null (cell ''description''), pi_category = categoryId,
              pi_price = priceCents, pi_sku = sku\<rparr> c of
        (Inl e, c1) \<Rightarrow> (Inl e, c1)
      | (Inr _, c1) \<Rightarrow> (Inr RowCreated, c1))"

definition import_row ::
    "(string \<Rightarrow> string) \<Rightarrow> (string \<Rightarrow> string) \<Rightarrow> int \<Rightarrow> string \<Rightarrow> import_env \<Rightarrow> nat \<Rightarrow> string list \<Rightarrow> catalog \<Rightarrow>
     (row_problem + row_done) \<times> catalog" where
  "import_row url plain now storeId en i row c =
     (let cell = cell_of (en_header en) row;
          sku = or_null (cell ''sku'')
      in if cell ''name'' = [] then (Inl NoProductName, c)
         else case parseMoney (cell ''price'') of
           None \<Rightarrow> (Inl (UnreadablePrice (cell ''price'')), c)
         | Some priceCents \<Rightarrow>
             (let compareAt = (if cell ''compare_at_price'' = [] then None
                    else parseMoney (cell ''compare_at_price''));
                  categoryId = (if cell ''category'' = [] then None
                    else given (en_categories en (lower (cell ''category''))))
              in case (case Option.bind sku (\<lambda>s. en_skus en (lower s)) of
                   Some match \<Rightarrow> update_from_row url now storeId cell priceCents compareAt categoryId match c
                 | None \<Rightarrow> create_from_row url plain now storeId cell priceCents sku categoryId (en_ids en i) c) of
                 (Inl e, c1) \<Rightarrow> (Inl (RefusedRow e), c1)
               | (Inr d, c1) \<Rightarrow> (Inr d, c1)))"

definition count_row :: "nat \<Rightarrow> string option \<Rightarrow> row_problem + row_done \<Rightarrow> import_result \<Rightarrow> import_result" where
  "count_row line sku r res =
     (case r of
        Inl p \<Rightarrow> res\<lparr>ir_errors := ir_errors res @ [\<lparr>ie_line = line, ie_sku = sku, ie_problem = p\<rparr>]\<rparr>
      | Inr RowCreated \<Rightarrow> res\<lparr>ir_created := ir_created res + 1\<rparr>
      | Inr RowUpdated \<Rightarrow> res\<lparr>ir_updated := ir_updated res + 1\<rparr>)"

fun import_rows ::
    "(string \<Rightarrow> string) \<Rightarrow> (string \<Rightarrow> string) \<Rightarrow> int \<Rightarrow> string \<Rightarrow> import_env \<Rightarrow> nat \<Rightarrow> string list list \<Rightarrow>
     import_result \<Rightarrow> catalog \<Rightarrow> import_result \<times> catalog" where
  "import_rows url plain now storeId en i [] res c = (res, c)"
| "import_rows url plain now storeId en i (row # rows) res c =
     (if blank_row row
      then import_rows url plain now storeId en (i + 1) rows (res\<lparr>ir_skipped := ir_skipped res + 1\<rparr>) c
      else case import_row url plain now storeId en i row c of
        (r, c1) \<Rightarrow> import_rows url plain now storeId en (i + 1) rows
          (count_row (i + 2) (or_null (cell_of (en_header en) row ''sku'')) r res) c1)"

text \<open>The body of a file whose header has been read.\<close>

definition import_body ::
    "(string \<Rightarrow> string) \<Rightarrow> (string \<Rightarrow> string) \<Rightarrow> (string \<Rightarrow> nat) \<Rightarrow> int \<Rightarrow> (string \<Rightarrow> string) \<Rightarrow>
     (nat \<Rightarrow> string \<times> string \<times> string) \<Rightarrow> string \<Rightarrow> string list \<Rightarrow> string list list \<Rightarrow> catalog \<Rightarrow>
     import_result \<times> catalog" where
  "import_body url plain rank now catId ids storeId header body c =
     (case ensureCategoryLookup plain rank catId storeId body (indexOf ''category'' header) c of
        (categories, c1) \<Rightarrow>
          import_rows url plain now storeId
            \<lparr>en_header = header, en_skus = sku_map storeId c, en_categories = categories, en_ids = ids\<rparr>
            0 body \<lparr>ir_created = 0, ir_updated = 0, ir_skipped = 0, ir_errors = []\<rparr> c1)"

definition importCsv ::
    "(string \<Rightarrow> string) \<Rightarrow> (string \<Rightarrow> string) \<Rightarrow> (string \<Rightarrow> nat) \<Rightarrow> int \<Rightarrow> (string \<Rightarrow> string) \<Rightarrow>
     (nat \<Rightarrow> string \<times> string \<times> string) \<Rightarrow> string \<Rightarrow> string \<Rightarrow> string \<Rightarrow> catalog \<Rightarrow> import_result cat_outcome" where
  "importCsv url plain rank now catId ids storeId actor csv c =
     (case parseCsv csv of
        [] \<Rightarrow> (Inl (Validation ''That file is empty.''), c)
      | first # body \<Rightarrow>
          let header = map (\<lambda>x. lower (js_trim x)) first in
          if indexOf ''name'' header = None \<or> indexOf ''price'' header = None
          then (Inl (Validation ''The file needs at least a name and price column.''), c)
          else if length body > MAX_ROWS
          then (Inl (Validation ''That file has too many rows.''), c)
          else case import_body url plain rank now catId ids storeId header body c of
            (res, c1) \<Rightarrow>
              (Inr res, cat_audit
                 (audit_entry_of ''catalog.csv_imported'' LOW storeId (Some actor) ''store'' storeId) c1))"

end
