(* ===== verification/CatalogRuns.thy ===== *)
theory CatalogRuns
  imports CatalogProps CatalogImport
begin

text \<open>
  What an import may do to a catalog, and the catalog under every sequence of requests.
\<close>

section \<open>Growth\<close>

text \<open>
  Of a product all that decides whether and where shoppers see it; of a variant all but its price,
  its code and its attributes.
\<close>

definition product_tag :: "product \<Rightarrow> string \<times> string \<times> string \<times> product_status \<times> bool" where
  "product_tag p = (pr_id p, pr_store p, pr_slug p, pr_status p, pr_deleted p)"

definition variant_tag :: "product_variant \<Rightarrow> string \<times> string \<times> string \<times> string option \<times> bool \<times> bool \<times> bool" where
  "variant_tag v = (pv_id v, pv_product v, pv_store v, pv_sku v, pv_default v, pv_active v, pv_deleted v)"

text \<open>Rows are only added, products as drafts, with identifiers among those given.\<close>

definition grows :: "string set \<Rightarrow> string set \<Rightarrow> catalog \<Rightarrow> catalog \<Rightarrow> bool" where
  "grows I V c c' \<longleftrightarrow>
     (\<exists>ps. map product_tag (ct_products c') = map product_tag (ct_products c) @ map product_tag ps \<and>
        (\<forall>p \<in> set ps. pr_status p = P_DRAFT \<and> \<not> pr_deleted p \<and> pr_id p \<in> I)) \<and>
     (\<exists>vs. map variant_tag (ct_variants c') = map variant_tag (ct_variants c) @ map variant_tag vs \<and>
        (\<forall>v \<in> set vs. pv_id v \<in> V)) \<and>
     ct_images c' = ct_images c"

lemma grows_same:
  "map product_tag (ct_products c') = map product_tag (ct_products c) \<Longrightarrow>
   map variant_tag (ct_variants c') = map variant_tag (ct_variants c) \<Longrightarrow> ct_images c' = ct_images c \<Longrightarrow>
   grows I V c c'"
  unfolding grows_def by (intro conjI exI [of _ "[]"]) simp_all

lemma grows_refl: "grows I V c c"
  by (rule grows_same) simp_all

lemma grows_mono: "grows I V c c' \<Longrightarrow> I \<subseteq> I' \<Longrightarrow> V \<subseteq> V' \<Longrightarrow> grows I' V' c c'"
  unfolding grows_def by blast

lemma grows_trans:
  assumes "grows I V a b" and "grows I V b c"
  shows "grows I V a c"
proof -
  obtain ps vs where 1: "map product_tag (ct_products b) = map product_tag (ct_products a) @ map product_tag ps"
    "\<forall>p \<in> set ps. pr_status p = P_DRAFT \<and> \<not> pr_deleted p \<and> pr_id p \<in> I"
    "map variant_tag (ct_variants b) = map variant_tag (ct_variants a) @ map variant_tag vs"
    "\<forall>v \<in> set vs. pv_id v \<in> V" "ct_images b = ct_images a"
    using assms(1) unfolding grows_def by blast
  obtain qs us where 2: "map product_tag (ct_products c) = map product_tag (ct_products b) @ map product_tag qs"
    "\<forall>p \<in> set qs. pr_status p = P_DRAFT \<and> \<not> pr_deleted p \<and> pr_id p \<in> I"
    "map variant_tag (ct_variants c) = map variant_tag (ct_variants b) @ map variant_tag us"
    "\<forall>v \<in> set us. pv_id v \<in> V" "ct_images c = ct_images b"
    using assms(2) unfolding grows_def by blast
  show ?thesis
    unfolding grows_def by (intro conjI exI [of _ "ps @ qs"] exI [of _ "vs @ us"]) (use 1 2 in auto)
qed

lemma ids_of_tags: "map pr_id ps = map fst (map product_tag ps)" "map pv_id vs = map fst (map variant_tag vs)"
  by (simp_all add: product_tag_def variant_tag_def o_def)

lemma grows_ids:
  assumes "grows I V c c'"
  shows "pr_id ` set (ct_products c') \<subseteq> pr_id ` set (ct_products c) \<union> I"
    and "pv_id ` set (ct_variants c') \<subseteq> pv_id ` set (ct_variants c) \<union> V"
proof -
  obtain ps vs where 1: "map product_tag (ct_products c') = map product_tag (ct_products c) @ map product_tag ps"
    "\<forall>p \<in> set ps. pr_id p \<in> I"
    "map variant_tag (ct_variants c') = map variant_tag (ct_variants c) @ map variant_tag vs"
    "\<forall>v \<in> set vs. pv_id v \<in> V"
    using assms unfolding grows_def by blast
  have p: "map pr_id (ct_products c') = map pr_id (ct_products c) @ map pr_id ps"
    unfolding ids_of_tags 1(1) by simp
  have v: "map pv_id (ct_variants c') = map pv_id (ct_variants c) @ map pv_id vs"
    unfolding ids_of_tags 1(3) by simp
  show "pr_id ` set (ct_products c') \<subseteq> pr_id ` set (ct_products c) \<union> I"
    using arg_cong [OF p, of set] 1(2) by auto
  show "pv_id ` set (ct_variants c') \<subseteq> pv_id ` set (ct_variants c) \<union> V"
    using arg_cong [OF v, of set] 1(4) by auto
qed

lemma cat_tx_grows:
  assumes "\<And>x c'. work c = Inr (x, c') \<Longrightarrow> grows I V c c'"
  shows "grows I V c (snd (cat_tx work c))"
  using assms grows_refl by (auto simp: cat_tx_def split: sum.split)

lemma createCategory_grows: "grows I V c (snd (createCategory plain i s n par pos c))"
  unfolding createCategory_def Let_def
  apply (rule cat_tx_grows)
  subgoal premises h for x c'
  proof -
    obtain g c1 where "insert_category g c = Inr c1"
      and "c' = cat_audit (audit_entry_of ''catalog.category_created'' LOW s None ''category'' i) c1"
      using h by fastforce
    then show ?thesis by (intro grows_same) (auto simp: insert_category_def split: if_splits)
  qed
  done

lemma createProduct_grows: "grows {i} {k} c (snd (createProduct url plain now i k suffix s input c))"
  unfolding createProduct_def Let_def
  apply (rule cat_tx_grows)
  subgoal premises h for x c'
  proof -
    obtain p v c1 c2 where p: "insert_product p c = Inr c1" "pr_id p = i" "pr_status p = P_DRAFT" "\<not> pr_deleted p"
      and v: "insert_variant v c1 = Inr c2" "pv_id v = k"
      and c': "c' = cat_audit (audit_entry_of ''catalog.product_created'' LOW s None ''product'' i) c2"
      using h by fastforce
    have "c1 = c\<lparr>ct_products := ct_products c @ [p]\<rparr>" using p(1) by (auto simp: insert_product_def split: if_splits)
    moreover have "c2 = c1\<lparr>ct_variants := ct_variants c1 @ [v]\<rparr>" using v(1) by (auto simp: insert_variant_def)
    ultimately show ?thesis
      unfolding grows_def by (intro conjI exI [of _ "[p]"] exI [of _ "[v]"]) (simp_all add: c' p v)
  qed
  done

lemma updateProduct_grows:
  assumes "cat_ok c"
  shows "grows I V c (snd (updateProduct url now s i patch c))"
  unfolding updateProduct_def
  apply (rule cat_tx_grows)
  subgoal premises h for x c'
  proof -
    obtain p where p: "find_product s i c = Inr p" and u: "update_product (patch_product now patch p) c = Inr c'"
      using h by auto
    have c': "c' = c\<lparr>ct_products := update_where (\<lambda>x. pr_id x = pr_id (patch_product now patch p))
        (\<lambda>_. patch_product now patch p) (ct_products c)\<rparr>"
      using u by (auto simp: update_product_def split: if_splits)
    have d: "distinct (map pr_id (ct_products c))" using assms by (simp add: cat_ok_def products_ok_def)
    have "map product_tag (ct_products c') = map product_tag (ct_products c)"
      unfolding c' using replace_keeps_map [OF d find_product_in(1) [OF p], of "patch_product now patch p" product_tag]
      by (simp add: patch_product_def product_tag_def)
    then show ?thesis by (intro grows_same) (simp_all add: c')
  qed
  done

text \<open>A patch that leaves the SKU alone.\<close>

lemma updateVariant_grows:
  assumes "cat_ok c" and "vp_sku patch = None"
  shows "grows I V c (snd (updateVariant s k patch c))"
  unfolding updateVariant_def Let_def
  apply (rule cat_tx_grows)
  subgoal premises h for x c'
  proof -
    obtain v where v: "requireVariant s k c = Inr v" and u: "update_variant (patch_variant patch v) c = Inr c'"
      using h by (auto split: if_splits)
    have c': "c' = c\<lparr>ct_variants := update_where (\<lambda>x. pv_id x = pv_id (patch_variant patch v))
        (\<lambda>_. patch_variant patch v) (ct_variants c)\<rparr>"
      using u by (auto simp: update_variant_def)
    have d: "distinct (map pv_id (ct_variants c))" using assms by (simp add: cat_ok_def rows_ok_def)
    have "map variant_tag (ct_variants c') = map variant_tag (ct_variants c)"
      unfolding c' using replace_keeps_map [OF d requireVariant_in(1) [OF v], of "patch_variant patch v" variant_tag]
      by (simp add: patch_variant_def variant_tag_def assms(2))
    then show ?thesis by (intro grows_same) (simp_all add: c')
  qed
  done

section \<open>A row of a file\<close>

lemma update_from_row_ok:
  assumes "cat_ok c"
  shows "cat_ok (snd (update_from_row url now s cell price compare g match c))"
    and "grows I V c (snd (update_from_row url now s cell price compare g match c))"
proof -
  let ?patch = "\<lparr>pt_name = Some (cell ''name''), pt_brand = Some (or_null (cell ''brand'')),
    pt_description = Some (or_null (cell ''description'')), pt_category = map_option Some g\<rparr>"
  let ?vpatch = "\<lparr>vp_sku = None, vp_barcode = map_option Some (or_null (cell ''barcode'')), vp_attrs = None,
    vp_price = Some price, vp_compare = map_option Some compare, vp_cost = None\<rparr>"
  obtain r c1 where run: "updateProduct url now s (snd match) ?patch c = (r, c1)" by (meson surj_pair)
  have c1: "cat_ok c1" "grows I V c c1"
    using updateProduct_ok [OF assms, of url now s "snd match" ?patch]
      updateProduct_grows [OF assms, of I V url now s "snd match" ?patch] by (simp_all add: run)
  obtain r2 c2 where run2: "updateVariant s (fst match) ?vpatch c1 = (r2, c2)" by (meson surj_pair)
  have c2: "cat_ok c2" "grows I V c1 c2"
    using updateVariant_ok [OF c1(1), of s "fst match" ?vpatch]
      updateVariant_grows [OF c1(1), of ?vpatch I V s "fst match"] by (simp_all add: run2)
  have "snd (update_from_row url now s cell price compare g match c) \<in> {c1, c2}"
    by (simp add: update_from_row_def run run2 split: sum.split)
  then show "cat_ok (snd (update_from_row url now s cell price compare g match c))"
    "grows I V c (snd (update_from_row url now s cell price compare g match c))"
    using c1 c2 grows_trans by auto
qed

lemma create_from_row_state:
  "snd (create_from_row url plain now s cell price sku g ids c) =
     snd (createProduct url plain now (fst ids) (fst (snd ids)) (snd (snd ids)) s
       \<lparr>pi_name = cell ''name'', pi_brand = or_null (cell ''brand''),
        pi_description = or_null (cell ''description''), pi_category = g, pi_price = price, pi_sku = sku\<rparr> c)"
  by (simp add: create_from_row_def split: prod.split sum.split)

definition new_product_id :: "(nat \<Rightarrow> string \<times> string \<times> string) \<Rightarrow> nat \<Rightarrow> string" where
  "new_product_id ids n = fst (ids n)"

definition new_variant_id :: "(nat \<Rightarrow> string \<times> string \<times> string) \<Rightarrow> nat \<Rightarrow> string" where
  "new_variant_id ids n = fst (snd (ids n))"

lemma import_row_ok:
  assumes "cat_ok c" and "new_product_id (en_ids en) i \<notin> pr_id ` set (ct_products c)"
    and "new_variant_id (en_ids en) i \<notin> pv_id ` set (ct_variants c)"
    and "import_row url plain now s en i row c = (r, c')"
  shows "cat_ok c' \<and> grows {new_product_id (en_ids en) i} {new_variant_id (en_ids en) i} c c'"
proof (cases "cell_of (en_header en) row ''name'' = [] \<or> parseMoney (cell_of (en_header en) row ''price'') = None")
  case True
  then have "c' = c" using assms(4) by (auto simp: import_row_def Let_def split: if_splits)
  then show ?thesis using assms(1) grows_refl by simp
next
  case False
  let ?cell = "cell_of (en_header en) row"
  let ?sku = "or_null (?cell ''sku'')"
  obtain price where price: "parseMoney (?cell ''price'') = Some price" using False by auto
  define compare where "compare = (if ?cell ''compare_at_price'' = [] then None
    else parseMoney (?cell ''compare_at_price''))"
  define g where "g = (if ?cell ''category'' = [] then None else given (en_categories en (lower (?cell ''category''))))"
  define out where "out = (case Option.bind ?sku (\<lambda>s. en_skus en (lower s)) of
      Some match \<Rightarrow> update_from_row url now s ?cell price compare g match c
    | None \<Rightarrow> create_from_row url plain now s ?cell price ?sku g (en_ids en i) c)"
  have "import_row url plain now s en i row c =
      (case out of (Inl e, c1) \<Rightarrow> (Inl (RefusedRow e), c1) | (Inr d, c1) \<Rightarrow> (Inr d, c1))"
    unfolding import_row_def Let_def out_def compare_def g_def using False price by simp
  then have c': "c' = snd out" using assms(4) by (auto split: prod.splits sum.splits)
  show ?thesis
  proof (cases "Option.bind ?sku (\<lambda>s. en_skus en (lower s))")
    case None
    then have "c' = snd (create_from_row url plain now s ?cell price ?sku g (en_ids en i) c)"
      by (simp add: c' out_def)
    then show ?thesis
      unfolding create_from_row_state new_product_id_def new_variant_id_def
      using createProduct_ok [OF assms(1-3) [unfolded new_product_id_def new_variant_id_def]] createProduct_grows
      by simp
  next
    case (Some match)
    then have "c' = snd (update_from_row url now s ?cell price compare g match c)" by (simp add: c' out_def)
    then show ?thesis using update_from_row_ok [OF assms(1)] by simp
  qed
qed

section \<open>A file\<close>

text \<open>The rows from \<open>i\<close> on have identifiers of their own.\<close>

definition fresh_from :: "(nat \<Rightarrow> string \<times> string \<times> string) \<Rightarrow> nat \<Rightarrow> catalog \<Rightarrow> bool" where
  "fresh_from ids i c \<longleftrightarrow> inj (new_product_id ids) \<and> inj (new_variant_id ids) \<and>
     (\<forall>n \<ge> i. new_product_id ids n \<notin> pr_id ` set (ct_products c) \<and>
        new_variant_id ids n \<notin> pv_id ` set (ct_variants c))"

lemma fresh_after:
  assumes "fresh_from ids i c" and "grows {new_product_id ids i} {new_variant_id ids i} c c'"
  shows "fresh_from ids (Suc i) c'"
proof -
  have "new_product_id ids n \<notin> pr_id ` set (ct_products c') \<and> new_variant_id ids n \<notin> pv_id ` set (ct_variants c')"
    if n: "Suc i \<le> n" for n
  proof -
    have "new_product_id ids n \<noteq> new_product_id ids i" "new_variant_id ids n \<noteq> new_variant_id ids i"
      using assms(1) n by (auto simp: fresh_from_def inj_eq)
    moreover have "new_product_id ids n \<notin> pr_id ` set (ct_products c)" "new_variant_id ids n \<notin> pv_id ` set (ct_variants c)"
      using assms(1) n by (simp_all add: fresh_from_def)
    ultimately show ?thesis
      using subsetD [OF grows_ids(1) [OF assms(2)], of "new_product_id ids n"]
        subsetD [OF grows_ids(2) [OF assms(2)], of "new_variant_id ids n"] by (simp only: Un_iff singleton_iff) blast
  qed
  then show ?thesis using assms(1) by (simp add: fresh_from_def)
qed

definition rows_counted :: "import_result \<Rightarrow> nat" where
  "rows_counted res = ir_created res + ir_updated res + ir_skipped res + length (ir_errors res)"

lemma count_row_counted: "rows_counted (count_row l sku r res) = rows_counted res + 1"
  by (auto simp: count_row_def rows_counted_def split: sum.split row_done.split)

text \<open>The errors come in the order of the file, each on a line of it.\<close>

definition lines_between :: "nat \<Rightarrow> nat \<Rightarrow> import_row_error list \<Rightarrow> bool" where
  "lines_between a b es \<longleftrightarrow> sorted_wrt (<) (map ie_line es) \<and> (\<forall>e \<in> set es. a \<le> ie_line e \<and> ie_line e < b)"

lemma count_row_lines:
  assumes "lines_between 2 (i + 2) (ir_errors res)"
  shows "lines_between 2 (i + 3) (ir_errors (count_row (i + 2) sku r res))"
  using assms by (auto simp: count_row_def lines_between_def sorted_wrt_append split: sum.split row_done.split)

lemma import_rows_ok:
  assumes "cat_ok c" and "fresh_from (en_ids en) i c"
    and "import_rows url plain now s en i rows res c = (res', c')"
  shows "cat_ok c' \<and> grows (range (new_product_id (en_ids en))) (range (new_variant_id (en_ids en))) c c'"
  using assms
proof (induction rows arbitrary: i res c)
  case Nil
  then show ?case using grows_refl by simp
next
  case (Cons row rows)
  let ?I = "range (new_product_id (en_ids en))" and ?V = "range (new_variant_id (en_ids en))"
  note ok = Cons.prems(1) and fresh = Cons.prems(2) and run = Cons.prems(3)
  show ?case
  proof (cases "blank_row row")
    case True
    have "fresh_from (en_ids en) (i + 1) c" using fresh by (simp add: fresh_from_def)
    then show ?thesis using Cons.IH [OF ok] run True by simp
  next
    case False
    obtain r c1 where row: "import_row url plain now s en i row c = (r, c1)" by (meson surj_pair)
    have "new_product_id (en_ids en) i \<notin> pr_id ` set (ct_products c)"
      "new_variant_id (en_ids en) i \<notin> pv_id ` set (ct_variants c)"
      using fresh by (simp_all add: fresh_from_def)
    from import_row_ok [OF ok this row] have c1: "cat_ok c1"
      and g: "grows {new_product_id (en_ids en) i} {new_variant_id (en_ids en) i} c c1" by simp_all
    have f1: "fresh_from (en_ids en) (i + 1) c1" using fresh_after [OF fresh g] by simp
    have run1: "import_rows url plain now s en (i + 1) rows
        (count_row (i + 2) (or_null (cell_of (en_header en) row ''sku'')) r res) c1 = (res', c')"
      using run False row by simp
    have "grows ?I ?V c c1" by (rule grows_mono [OF g]) auto
    then show ?thesis using Cons.IH [OF c1 f1 run1] grows_trans [of ?I ?V c c1 c'] by simp
  qed
qed

lemma import_rows_counts:
  assumes "import_rows url plain now s en i rows res c = (res', c')"
    and "lines_between 2 (i + 2) (ir_errors res)"
  shows "rows_counted res' = rows_counted res + length rows \<and> lines_between 2 (i + length rows + 2) (ir_errors res')"
  using assms
proof (induction rows arbitrary: i res c)
  case (Cons row rows)
  show ?case
  proof (cases "blank_row row")
    case True
    have "lines_between 2 (i + 1 + 2) (ir_errors (res\<lparr>ir_skipped := ir_skipped res + 1\<rparr>))"
      using Cons.prems(2) by (auto simp: lines_between_def)
    then show ?thesis using Cons.IH [of "i + 1" "res\<lparr>ir_skipped := ir_skipped res + 1\<rparr>" c] Cons.prems(1) True
      by (simp add: rows_counted_def)
  next
    case False
    obtain r c1 where row: "import_row url plain now s en i row c = (r, c1)" by (meson surj_pair)
    let ?res = "count_row (i + 2) (or_null (cell_of (en_header en) row ''sku'')) r res"
    have "lines_between 2 (i + 1 + 2) (ir_errors ?res)"
      using count_row_lines [OF Cons.prems(2)] by (simp add: eval_nat_numeral)
    from Cons.IH [OF _ this] show ?thesis
      using Cons.prems(1) False row by (simp add: count_row_counted)
  qed
qed simp

section \<open>The categories of a file\<close>

lemma createCategory_ids:
  "cg_id ` set (ct_categories (snd (createCategory plain i s n par pos c))) \<subseteq>
     insert i (cg_id ` set (ct_categories c))"
proof (cases "createCategory plain i s n par pos c")
  case (Pair r c')
  then show ?thesis
    by (auto simp: createCategory_def cat_tx_def Let_def insert_category_def
        split: sum.splits if_splits)
qed

lemma create_wanted_ok:
  assumes "cat_ok c" and "inj catId" and "distinct ns" and "\<And>n. n \<in> set ns \<Longrightarrow> catId n \<notin> cg_id ` set (ct_categories c)"
    and "create_wanted plain catId s ns lookup c = (m, c')"
  shows "cat_ok c' \<and> grows {} {} c c'"
  using assms
proof (induction ns arbitrary: lookup c)
  case Nil
  then show ?case using grows_refl by simp
next
  case (Cons n ns)
  obtain r c1 where run: "createCategory plain (catId n) s n None None c = (r, c1)" by (meson surj_pair)
  have "catId n \<notin> cg_id ` set (ct_categories c)" using Cons.prems(4) by simp
  then have ok: "cat_ok c1" using createCategory_ok [OF Cons.prems(1)] run by (metis snd_conv)
  have g: "grows {} {} c c1" using createCategory_grows [of "{}" "{}" c plain "catId n" s n None None] by (simp add: run)
  have fresh: "catId k \<notin> cg_id ` set (ct_categories c1)" if k: "k \<in> set ns" for k
  proof -
    have "catId k \<noteq> catId n" using Cons.prems(2,3) k by (auto simp: inj_eq)
    moreover have "catId k \<notin> cg_id ` set (ct_categories c)" using Cons.prems(4) k by simp
    ultimately show ?thesis
      using subsetD [OF createCategory_ids [of plain "catId n" s n None None c], of "catId k"]
      by (simp only: run snd_conv insert_iff) blast
  qed
  obtain lookup' where "create_wanted plain catId s ns lookup' c1 = (m, c')"
    using Cons.prems(5) run by (cases r) auto
  from Cons.IH [OF ok Cons.prems(2) _ fresh this] Cons.prems(3) show ?case
    using grows_trans [OF g] by simp
qed

lemma ensureCategoryLookup_ok:
  assumes "cat_ok c" and "inj catId" and "range catId \<inter> cg_id ` set (ct_categories c) = {}"
    and "ensureCategoryLookup plain rank catId s rows column c = (m, c')"
  shows "cat_ok c' \<and> grows {} {} c c'"
proof (cases column)
  case None
  then show ?thesis using assms(1,4) grows_refl by (simp add: ensureCategoryLookup_def)
next
  case (Some k)
  then obtain ns where "create_wanted plain catId s (in_first_order ns) (category_names rank s c) c = (m, c')"
    using assms(4) by (auto simp: ensureCategoryLookup_def Let_def)
  moreover have "distinct (in_first_order ns)" by (simp add: in_first_order_def)
  ultimately show ?thesis using create_wanted_ok [OF assms(1,2)] assms(3) by blast
qed

section \<open>An import\<close>

text \<open>Identifiers not in use, no two alike.\<close>

definition import_ids_fresh ::
    "(string \<Rightarrow> string) \<Rightarrow> (nat \<Rightarrow> string \<times> string \<times> string) \<Rightarrow> catalog \<Rightarrow> bool" where
  "import_ids_fresh catId ids c \<longleftrightarrow>
     inj catId \<and> range catId \<inter> cg_id ` set (ct_categories c) = {} \<and> fresh_from ids 0 c"

lemma import_body_ok:
  assumes "cat_ok c" and "import_ids_fresh catId ids c"
    and "import_body url plain rank now catId ids s header body c = (res, c')"
  shows "cat_ok c' \<and> grows (range (new_product_id ids)) (range (new_variant_id ids)) c c'"
proof -
  let ?I = "range (new_product_id ids)" and ?V = "range (new_variant_id ids)"
  obtain m c1 where e: "ensureCategoryLookup plain rank catId s body (indexOf ''category'' header) c = (m, c1)"
    by (meson surj_pair)
  define en where "en = \<lparr>en_header = header, en_skus = sku_map s c, en_categories = m, en_ids = ids\<rparr>"
  have rows: "import_rows url plain now s en 0 body
      \<lparr>ir_created = 0, ir_updated = 0, ir_skipped = 0, ir_errors = []\<rparr> c1 = (res, c')"
    using assms(3) e by (simp add: import_body_def en_def)
  have ids: "en_ids en = ids" by (simp add: en_def)
  have "inj catId" "range catId \<inter> cg_id ` set (ct_categories c) = {}" and fresh: "fresh_from ids 0 c"
    using assms(2) by (simp_all add: import_ids_fresh_def)
  from ensureCategoryLookup_ok [OF assms(1) this(1,2) e] have c1: "cat_ok c1" "grows {} {} c c1" by simp_all
  have "fresh_from ids 0 c1"
    using fresh subsetD [OF grows_ids(1) [OF c1(2)]] subsetD [OF grows_ids(2) [OF c1(2)]]
    unfolding fresh_from_def by (metis sup_bot.right_neutral)
  then have "fresh_from (en_ids en) 0 c1" by (simp add: ids)
  from import_rows_ok [OF c1(1) this rows] have c': "cat_ok c'" "grows ?I ?V c1 c'" by (simp_all add: ids)
  have "grows ?I ?V c c1" by (rule grows_mono [OF c1(2)]) simp_all
  then show ?thesis using c' grows_trans by blast
qed

lemma importCsv_cases:
  assumes "importCsv url plain rank now catId ids s actor csv c = (r, c')"
  obtains "c' = c" and "\<not> okE r"
  | first body res c1 where "parseCsv csv = first # body" and "r = Inr res"
      and "import_body url plain rank now catId ids s (map (\<lambda>x. lower (js_trim x)) first) body c = (res, c1)"
      and "c' = cat_audit (audit_entry_of ''catalog.csv_imported'' LOW s (Some actor) ''store'' s) c1"
proof (cases "parseCsv csv")
  case Nil
  then have "c' = c \<and> \<not> okE r" using assms by (auto simp: importCsv_def)
  then show ?thesis using that(1) by blast
next
  case (Cons first body)
  let ?header = "map (\<lambda>x. lower (js_trim x)) first"
  obtain res c1 where b: "import_body url plain rank now catId ids s ?header body c = (res, c1)"
    by (meson surj_pair)
  show ?thesis
  proof (cases "indexOf ''name'' ?header = None \<or> indexOf ''price'' ?header = None \<or> MAX_ROWS < length body")
    case True
    then have "c' = c \<and> \<not> okE r" using assms Cons unfolding importCsv_def Let_def by (auto split: if_splits)
    then show ?thesis using that(1) by blast
  next
    case False
    then have "r = Inr res" "c' = cat_audit (audit_entry_of ''catalog.csv_imported'' LOW s (Some actor) ''store'' s) c1"
      using assms Cons b unfolding importCsv_def Let_def by (auto split: if_splits)
    then show ?thesis using that(2) [OF Cons _ b] by blast
  qed
qed

lemma importCsv_ok:
  assumes "cat_ok c" and "import_ids_fresh catId ids c"
    and "importCsv url plain rank now catId ids s actor csv c = (r, c')"
  shows "cat_ok c' \<and> grows (range (new_product_id ids)) (range (new_variant_id ids)) c c'"
  using assms(3)
proof (cases rule: importCsv_cases)
  case 1
  then show ?thesis using assms(1) grows_refl by simp
next
  case (2 first body res c1)
  from import_body_ok [OF assms(1,2) 2(3)] have c1: "cat_ok c1"
    and g: "grows (range (new_product_id ids)) (range (new_variant_id ids)) c c1" by simp_all
  have "grows (range (new_product_id ids)) (range (new_variant_id ids)) c1 c'"
    by (rule grows_same) (simp_all add: 2(4))
  then show ?thesis using c1 grows_trans [OF g] by (simp add: 2(4))
qed

lemma importCsv_counts:
  assumes "importCsv url plain rank now catId ids s actor csv c = (Inr res, c')"
  shows "rows_counted res + 1 = length (parseCsv csv) \<and> lines_between 2 (length (parseCsv csv) + 1) (ir_errors res)"
  using assms
proof (cases rule: importCsv_cases)
  case (2 first body res' c1)
  obtain en c0 where "import_rows url plain now s en 0 body
      \<lparr>ir_created = 0, ir_updated = 0, ir_skipped = 0, ir_errors = []\<rparr> c0 = (res, c1)"
    using 2(2,3) by (auto simp: import_body_def split: prod.splits)
  from import_rows_counts [OF this]
  have "rows_counted res = length body \<and> lines_between 2 (length body + 2) (ir_errors res)"
    by (simp add: rows_counted_def lines_between_def)
  then show ?thesis using 2(1) by simp
qed simp

section \<open>Requests\<close>

text \<open>
  Every request of the service, with the identifiers its new rows get; \<open>Media\<close> is whatever the
  media service makes of the stored images.
\<close>

datatype cat_request =
    Create_Category string string string "string option" "int option"
  | Update_Category string string category_patch
  | Delete_Category string string
  | Create_Product string string string string product_input
  | Update_Product string string product_patch
  | Set_Status string string product_status
  | Delete_Product string string
  | Add_Variant string string string variant_input
  | Update_Variant string string variant_patch
  | Delete_Variant string string
  | Attach_Image string string string string "string option"
  | Reorder_Images string string "string list"
  | Detach_Image string string
  | Import "string \<Rightarrow> string" "nat \<Rightarrow> string \<times> string \<times> string" string string string
  | Media "media_asset list"

fun cat_run ::
    "(string \<Rightarrow> string) \<Rightarrow> (string \<Rightarrow> string) \<Rightarrow> (string \<Rightarrow> nat) \<Rightarrow> int \<Rightarrow> cat_request \<Rightarrow> catalog \<Rightarrow> catalog" where
  "cat_run url plain rank now (Create_Category i s n par pos) c = snd (createCategory plain i s n par pos c)"
| "cat_run url plain rank now (Update_Category s i p) c = snd (updateCategory s i p c)"
| "cat_run url plain rank now (Delete_Category s i) c = snd (deleteCategory s i c)"
| "cat_run url plain rank now (Create_Product i k suffix s input) c =
     snd (createProduct url plain now i k suffix s input c)"
| "cat_run url plain rank now (Update_Product s i p) c = snd (updateProduct url now s i p c)"
| "cat_run url plain rank now (Set_Status s i st) c = snd (setProductStatus url now s i st c)"
| "cat_run url plain rank now (Delete_Product s i) c = snd (deleteProduct now s i c)"
| "cat_run url plain rank now (Add_Variant k s i input) c = snd (addVariant k s i input c)"
| "cat_run url plain rank now (Update_Variant s k p) c = snd (updateVariant s k p c)"
| "cat_run url plain rank now (Delete_Variant s k) c = snd (deleteVariant s k c)"
| "cat_run url plain rank now (Attach_Image k s i asset alt) c = snd (attachImage k s i asset alt c)"
| "cat_run url plain rank now (Reorder_Images s i ids) c = snd (reorderImages s i ids c)"
| "cat_run url plain rank now (Detach_Image s k) c = snd (detachImage s k c)"
| "cat_run url plain rank now (Import catId ids s actor csv) c =
     snd (importCsv url plain rank now catId ids s actor csv c)"
| "cat_run url plain rank now (Media assets) c = c\<lparr>ct_assets := assets\<rparr>"

text \<open>The identifiers supplied are not in use.\<close>

fun request_fresh :: "cat_request \<Rightarrow> catalog \<Rightarrow> bool" where
  "request_fresh (Create_Category i s n par pos) c = (i \<notin> cg_id ` set (ct_categories c))"
| "request_fresh (Create_Product i k suffix s input) c =
     (i \<notin> pr_id ` set (ct_products c) \<and> k \<notin> pv_id ` set (ct_variants c))"
| "request_fresh (Add_Variant k s i input) c = (k \<notin> pv_id ` set (ct_variants c))"
| "request_fresh (Attach_Image k s i asset alt) c = (k \<notin> im_id ` set (ct_images c))"
| "request_fresh (Import catId ids s actor csv) c = import_ids_fresh catId ids c"
| "request_fresh _ c = True"

inductive cat_steps ::
    "(string \<Rightarrow> string) \<Rightarrow> (string \<Rightarrow> string) \<Rightarrow> (string \<Rightarrow> nat) \<Rightarrow> catalog \<Rightarrow> catalog \<Rightarrow> bool"
  for url plain rank where
  cat_refl: "cat_steps url plain rank c c"
| cat_next: "cat_steps url plain rank c0 c \<Longrightarrow> request_fresh rq c \<Longrightarrow>
    cat_steps url plain rank c0 (cat_run url plain rank now rq c)"

lemma cat_run_ok:
  assumes "cat_ok c" and "request_fresh rq c"
  shows "cat_ok (cat_run url plain rank now rq c)"
proof (cases rq)
  case (Import catId ids s actor csv)
  obtain r c' where "importCsv url plain rank now catId ids s actor csv c = (r, c')" by (meson surj_pair)
  then show ?thesis using importCsv_ok [OF assms(1)] assms(2) Import by simp
qed (use assms in \<open>simp_all add: createCategory_ok updateCategory_ok deleteCategory_ok createProduct_ok
  updateProduct_ok setProductStatus_ok deleteProduct_ok addVariant_ok updateVariant_ok deleteVariant_ok
  attachImage_ok reorderImages_ok detachImage_ok\<close>, simp add: cat_ok_def)

lemma cat_steps_ok: "cat_steps url plain rank c0 c \<Longrightarrow> cat_ok c0 \<Longrightarrow> cat_ok c"
  by (induction rule: cat_steps.induct) (auto intro: cat_run_ok)

definition empty_catalog :: catalog where
  "empty_catalog = \<lparr>ct_categories = [], ct_products = [], ct_variants = [], ct_images = [], ct_assets = [],
     ct_audit = []\<rparr>"

lemma empty_catalog_ok: "cat_ok empty_catalog"
  by (simp add: cat_ok_def empty_catalog_def categories_ok_def one_level_def tree_of_def products_ok_def rows_ok_def
      sku_unique_def one_default_def shelf_def images_ok_def)

lemma one_default_variant:
  assumes "cat_ok c" and "p \<in> set (ct_products c)" and "\<not> pr_deleted p"
  shows "\<exists>!v. v \<in> set (ct_variants c) \<and> pv_product v = pr_id p \<and> pv_default v \<and> \<not> pv_deleted v"
proof -
  let ?P = "\<lambda>v. pv_product v = pr_id p \<and> pv_default v \<and> \<not> pv_deleted v"
  have "(pr_id p, pr_store p, False) \<in> shelf (ct_products c)" using assms(2,3) by (force simp: shelf_def)
  then have "defaults_of_product (pr_id p) (ct_variants c) = 1"
    using assms(1) by (auto simp: cat_ok_def one_default_def)
  then have "length (filter ?P (ct_variants c)) = Suc 0" by (simp add: defaults_of_product_def count_where_def)
  then obtain v where "filter ?P (ct_variants c) = [v]" by (auto simp: length_Suc_conv)
  then have "set (filter ?P (ct_variants c)) = {v}" by simp
  then show ?thesis by (intro ex1I [of _ v]) auto
qed

lemma variant_home:
  assumes "cat_ok c" and "v \<in> set (ct_variants c)"
  shows "\<exists>p \<in> set (ct_products c). pr_id p = pv_product v \<and> pr_store p = pv_store v \<and>
    (\<not> pv_deleted v \<longrightarrow> \<not> pr_deleted p)"
proof -
  obtain d where "(pv_product v, pv_store v, d) \<in> shelf (ct_products c)" "\<not> pv_deleted v \<longrightarrow> \<not> d"
    using assms by (auto simp: cat_ok_def rows_ok_def)
  then show ?thesis by (auto simp: shelf_def)
qed

lemma image_places:
  assumes "images_ok rows" and "a \<in> set rows" and "b \<in> set rows" and "im_product a = im_product b"
    and "im_position a = im_position b"
  shows "a = b"
  by (rule distinct_map_eq [of "\<lambda>i. (im_product i, im_position i)" rows])
     (use assms in \<open>simp_all add: images_ok_def\<close>)

lemma parent_is_root:
  assumes "categories_ok gs" and "g \<in> set gs" and "cg_parent g = Some i"
  shows "\<exists>x \<in> set gs. cg_id x = i \<and> cg_parent x = None"
proof -
  have "(cg_id g, Some i) \<in> tree_of gs" using assms(2,3) by (force simp: tree_of_def)
  then have "(i, None) \<in> tree_of gs" using assms(1) by (auto simp: categories_ok_def one_level_def)
  then show ?thesis by (auto simp: tree_of_def)
qed

text \<open>
  C14. Whatever requests a store's catalog has served, including imports, refused requests and
  reorderings: every product that is not deleted has exactly one default among its live variants;
  every variant belongs to a product of its own store, a live one to a live one, and costs at least
  nothing; no two live variants of a store share a SKU; the parent of a category is a category
  without a parent; and no two images of a product are at one place.
\<close>

theorem catalog_stays_sound:
  assumes "cat_steps url plain rank empty_catalog c"
  shows "(\<forall>p \<in> set (ct_products c). \<not> pr_deleted p \<longrightarrow>
      (\<exists>!v. v \<in> set (ct_variants c) \<and> pv_product v = pr_id p \<and> pv_default v \<and> \<not> pv_deleted v)) \<and>
    (\<forall>v \<in> set (ct_variants c). 0 \<le> pv_price v \<and>
      (\<exists>p \<in> set (ct_products c). pr_id p = pv_product v \<and> pr_store p = pv_store v \<and>
         (\<not> pv_deleted v \<longrightarrow> \<not> pr_deleted p))) \<and>
    (\<forall>v \<in> set (ct_variants c). \<forall>x \<in> set (ct_variants c). \<not> pv_deleted v \<and> \<not> pv_deleted x \<and>
      pv_sku v \<noteq> None \<and> pv_sku x = pv_sku v \<and> pv_store x = pv_store v \<longrightarrow> x = v) \<and>
    (\<forall>g \<in> set (ct_categories c). \<forall>i. cg_parent g = Some i \<longrightarrow>
      (\<exists>x \<in> set (ct_categories c). cg_id x = i \<and> cg_parent x = None)) \<and>
    (\<forall>a \<in> set (ct_images c). \<forall>b \<in> set (ct_images c).
      im_product a = im_product b \<and> im_position a = im_position b \<longrightarrow> a = b)"
proof -
  have ok: "cat_ok c" by (rule cat_steps_ok [OF assms empty_catalog_ok])
  then have parts: "rows_ok (shelf (ct_products c)) (ct_variants c)" "categories_ok (ct_categories c)"
    "images_ok (ct_images c)" by (simp_all add: cat_ok_def)
  then have sku: "sku_unique (ct_variants c)" and ids: "distinct (map pv_id (ct_variants c))"
    and price: "\<forall>v \<in> set (ct_variants c). 0 \<le> pv_price v" by (simp_all add: rows_ok_def)
  have "\<forall>v \<in> set (ct_variants c). \<forall>x \<in> set (ct_variants c). \<not> pv_deleted v \<and> \<not> pv_deleted x \<and>
      pv_sku v \<noteq> None \<and> pv_sku x = pv_sku v \<and> pv_store x = pv_store v \<longrightarrow> x = v"
    using sku distinct_map_eq [OF ids] unfolding sku_unique_def by blast
  moreover have "\<forall>v \<in> set (ct_variants c). 0 \<le> pv_price v \<and>
      (\<exists>p \<in> set (ct_products c). pr_id p = pv_product v \<and> pr_store p = pv_store v \<and>
         (\<not> pv_deleted v \<longrightarrow> \<not> pr_deleted p))"
    using variant_home [OF ok] price by blast
  moreover have "\<forall>p \<in> set (ct_products c). \<not> pr_deleted p \<longrightarrow>
      (\<exists>!v. v \<in> set (ct_variants c) \<and> pv_product v = pr_id p \<and> pv_default v \<and> \<not> pv_deleted v)"
    using one_default_variant [OF ok] by blast
  moreover have "\<forall>g \<in> set (ct_categories c). \<forall>i. cg_parent g = Some i \<longrightarrow>
      (\<exists>x \<in> set (ct_categories c). cg_id x = i \<and> cg_parent x = None)"
    using parent_is_root [OF parts(2)] by blast
  moreover have "\<forall>a \<in> set (ct_images c). \<forall>b \<in> set (ct_images c).
      im_product a = im_product b \<and> im_position a = im_position b \<longrightarrow> a = b"
    using image_places [OF parts(3)] by blast
  ultimately show ?thesis by (intro conjI)
qed

section \<open>What a shopper may see\<close>

definition on_sale :: "catalog \<Rightarrow> string set" where
  "on_sale c = {pr_id p | p. p \<in> set (ct_products c) \<and> pr_status p = P_ACTIVE}"

lemma on_sale_same: "ct_products c' = ct_products c \<Longrightarrow> on_sale c' = on_sale c"
  by (simp add: on_sale_def)

lemma cat_tx_sale:
  assumes "\<And>x c'. work c = Inr (x, c') \<Longrightarrow> on_sale c' \<subseteq> on_sale c \<union> S"
  shows "on_sale (snd (cat_tx work c)) \<subseteq> on_sale c \<union> S"
  using assms by (auto simp: cat_tx_def split: sum.split)

lemma cat_tx_sale_same:
  assumes "\<And>x c'. work c = Inr (x, c') \<Longrightarrow> ct_products c' = ct_products c"
  shows "on_sale (snd (cat_tx work c)) = on_sale c"
proof (cases "work c")
  case (Inr y)
  then show ?thesis using assms [of "fst y" "snd y"] by (cases y) (simp add: cat_tx_def on_sale_def)
qed (simp add: cat_tx_def)

lemma grows_sale:
  assumes "grows I V c c'"
  shows "on_sale c' = on_sale c"
proof -
  let ?act = "\<lambda>t. fst (snd (snd (snd t))) = P_ACTIVE"
  have sale: "on_sale d = set (map fst (filter ?act (map product_tag (ct_products d))))" for d
    by (auto simp: on_sale_def product_tag_def filter_map o_def)
  obtain ps where t: "map product_tag (ct_products c') = map product_tag (ct_products c) @ map product_tag ps"
    and d: "\<forall>p \<in> set ps. pr_status p = P_DRAFT"
    using assms unfolding grows_def by blast
  have "filter ?act (map product_tag ps) = []"
    using d by (auto simp: product_tag_def filter_empty_conv)
  then show ?thesis unfolding sale t filter_append by simp
qed

lemma replaced_on_sale:
  assumes "update_product p c = Inr c1" and "pr_id p \<in> pr_id ` set (ct_products c)"
    and "pr_status p = P_ACTIVE \<Longrightarrow> pr_id p \<in> on_sale c \<union> S"
  shows "on_sale c1 \<subseteq> on_sale c \<union> S"
proof
  fix j
  assume "j \<in> on_sale c1"
  then obtain q where q: "q \<in> set (ct_products c1)" "pr_status q = P_ACTIVE" "j = pr_id q"
    unfolding on_sale_def by blast
  have "ct_products c1 = update_where (\<lambda>x. pr_id x = pr_id p) (\<lambda>_. p) (ct_products c)"
    using assms(1) by (auto simp: update_product_def split: if_splits)
  then have "set (ct_products c1) = insert p {x \<in> set (ct_products c). pr_id x \<noteq> pr_id p}"
    by (simp only: replace_set [OF assms(2)])
  then consider "q = p" | "q \<in> set (ct_products c)" using q(1) by blast
  then show "j \<in> on_sale c \<union> S"
  proof cases
    case 1
    then show ?thesis using assms(3) q by simp
  next
    case 2
    then show ?thesis using q unfolding on_sale_def by blast
  qed
qed

lemma setProductStatus_sale:
  "on_sale (snd (setProductStatus url now s i st c)) \<subseteq>
     on_sale c \<union> {j. j = i \<and> st = P_ACTIVE \<and> sellable i c}"
  unfolding setProductStatus_def Let_def
  apply (rule cat_tx_sale)
  subgoal premises h for x c'
  proof -
    obtain p c1 where p: "find_product s i c = Inr p" and ok: "st \<noteq> P_ACTIVE \<or> sellable i c"
      and u: "update_product (p\<lparr>pr_status := st, pr_updated := now\<rparr>) c = Inr c1"
      and c': "c' = cat_audit (audit_entry_of (''catalog.product_'' @ product_status_text st) LOW s None ''product'' i) c1"
      using h by auto
    have "on_sale c1 \<subseteq> on_sale c \<union> {j. j = i \<and> st = P_ACTIVE \<and> sellable i c}"
    proof (rule replaced_on_sale [OF u])
      show "pr_id (p\<lparr>pr_status := st, pr_updated := now\<rparr>) \<in> pr_id ` set (ct_products c)"
        using find_product_in(1) [OF p] by simp
    qed (use find_product_in(2) [OF p] ok in simp)
    then show ?thesis by (simp add: c' on_sale_def)
  qed
  done

lemma updateProduct_sale:
  "on_sale (snd (updateProduct url now s i patch c)) \<subseteq> on_sale c \<union> {}"
  unfolding updateProduct_def
  apply (rule cat_tx_sale)
  subgoal premises h for x c'
  proof -
    obtain p where p: "find_product s i c = Inr p" and u: "update_product (patch_product now patch p) c = Inr c'"
      using h by auto
    have "pr_status p = P_ACTIVE \<Longrightarrow> pr_id p \<in> on_sale c"
      using find_product_in(1) [OF p] by (auto simp: on_sale_def)
    then show ?thesis
      by (intro replaced_on_sale [OF u]) (use find_product_in(1) [OF p] in \<open>auto simp: patch_product_def\<close>)
  qed
  done

lemma deleteProduct_sale:
  "on_sale (snd (deleteProduct now s i c)) \<subseteq> on_sale c \<union> {}"
  unfolding deleteProduct_def Let_def
  apply (rule cat_tx_sale)
  subgoal premises h for x c'
  proof -
    let ?c0 = "c\<lparr>ct_variants := update_where (\<lambda>v. pv_product v = i \<and> \<not> pv_deleted v)
      (\<lambda>v. v\<lparr>pv_deleted := True\<rparr>) (ct_variants c)\<rparr>"
    obtain p c2 where p: "find_product s i c = Inr p"
      and u: "update_product (p\<lparr>pr_deleted := True, pr_updated := now\<rparr>) ?c0 = Inr c2"
      and c': "c' = cat_audit (audit_entry_of ''catalog.product_deleted'' MEDIUM s None ''product'' i) c2"
      using h by auto
    have "pr_status p = P_ACTIVE \<Longrightarrow> pr_id p \<in> on_sale c"
      using find_product_in(1) [OF p] by (auto simp: on_sale_def)
    moreover have "on_sale ?c0 = on_sale c" by (simp add: on_sale_def)
    ultimately have "on_sale c2 \<subseteq> on_sale ?c0 \<union> {}"
      by (intro replaced_on_sale [OF u]) (use find_product_in(1) [OF p] in simp_all)
    then show ?thesis by (simp add: c' on_sale_def)
  qed
  done

lemma import_sale:
  assumes "cat_ok c" and "import_ids_fresh catId ids c"
  shows "on_sale (snd (importCsv url plain rank now catId ids s actor csv c)) = on_sale c"
proof -
  obtain r c' where "importCsv url plain rank now catId ids s actor csv c = (r, c')" by (meson surj_pair)
  then show ?thesis using importCsv_ok [OF assms] grows_sale by (metis snd_conv)
qed

lemma category_sale [simp]:
  "on_sale (snd (createCategory plain i s n par pos c)) = on_sale c"
  "on_sale (snd (updateCategory s i cp c)) = on_sale c"
  "on_sale (snd (deleteCategory s i c)) = on_sale c"
  unfolding createCategory_def updateCategory_def deleteCategory_def Let_def
  by (rule cat_tx_sale_same; fastforce simp: insert_category_def update_category_def split: if_splits)+

lemma variant_sale [simp]:
  "on_sale (snd (addVariant k s i input c)) = on_sale c"
  "on_sale (snd (updateVariant s k vp c)) = on_sale c"
  unfolding addVariant_def updateVariant_def Let_def
  by (rule cat_tx_sale_same; fastforce simp: insert_variant_def update_variant_def split: if_splits)+

lemma update_variant_products: "update_variant v c = Inr c' \<Longrightarrow> ct_products c' = ct_products c"
  by (auto simp: update_variant_def)

lemma deleteVariant_sale [simp]: "on_sale (snd (deleteVariant s k c)) = on_sale c"
  unfolding deleteVariant_def Let_def
  by (rule cat_tx_sale_same) (auto split: if_splits list.splits dest!: update_variant_products)

lemma image_sale [simp]:
  "on_sale (snd (attachImage k s i asset alt c)) = on_sale c"
  "on_sale (snd (reorderImages s i imgs c)) = on_sale c"
  "on_sale (snd (detachImage s k c)) = on_sale c"
  unfolding attachImage_def reorderImages_def detachImage_def Let_def
  by (rule cat_tx_sale_same; fastforce)+

text \<open>
  C15. A product comes on sale in one way only: a request that sets its status to active, made when
  the product has a live, active option with a price above zero.  Nothing else puts a product on
  sale: not creating it, not editing it, and not a file that is imported.
\<close>

theorem published_when_sellable:
  assumes "cat_steps url plain rank empty_catalog c" and "request_fresh rq c"
    and "p \<in> set (ct_products (cat_run url plain rank now rq c))" and "pr_status p = P_ACTIVE"
    and "\<forall>q \<in> set (ct_products c). pr_id q = pr_id p \<longrightarrow> pr_status q \<noteq> P_ACTIVE"
  shows "(\<exists>s. rq = Set_Status s (pr_id p) P_ACTIVE) \<and>
    (\<exists>v \<in> set (ct_variants c). pv_product v = pr_id p \<and> \<not> pv_deleted v \<and> pv_active v \<and> pv_price v > 0)"
proof -
  have ok: "cat_ok c" by (rule cat_steps_ok [OF assms(1) empty_catalog_ok])
  have new: "pr_id p \<in> on_sale (cat_run url plain rank now rq c)" "pr_id p \<notin> on_sale c"
    using assms(3-5) by (auto simp: on_sale_def)
  have "\<exists>s. rq = Set_Status s (pr_id p) P_ACTIVE \<and> sellable (pr_id p) c"
  proof (cases rq)
    case (Set_Status s i st)
    then show ?thesis using new setProductStatus_sale [of url now s i st c] by auto
  next
    case (Update_Product s i patch)
    then show ?thesis using new updateProduct_sale [of url now s i patch c] by auto
  next
    case (Delete_Product s i)
    then show ?thesis using new deleteProduct_sale [of now s i c] by auto
  next
    case (Create_Product i k suffix s input)
    then show ?thesis using new grows_sale [OF createProduct_grows [of i k c url plain now suffix s input]] by simp
  next
    case (Import catId ids s actor csv)
    then show ?thesis using new import_sale [OF ok] assms(2) by simp
  qed (use new in \<open>simp_all add: on_sale_def [of "ct_assets_update _ _"] on_sale_def [symmetric]\<close>)
  then show ?thesis by (auto simp: sellable_def live_variants_mem)
qed

text \<open>
  An import only adds and edits: whatever the file says, every product keeps its place, its
  owner, its address, its status and whether it is deleted, every variant its product, its SKU and
  whether it is the default; the new products are drafts; and the images stay.  An accepted file is
  answered for row by row: rows created, updated, skipped and refused make up the rows under the
  header, and the refused ones are listed in the order of the file, each with its line.
\<close>

theorem import_publishes_nothing:
  assumes "cat_steps url plain rank empty_catalog c" and "import_ids_fresh catId ids c"
    and "importCsv url plain rank now catId ids s actor csv c = (r, c')"
  shows "(\<exists>ps. map product_tag (ct_products c') = map product_tag (ct_products c) @ map product_tag ps \<and>
        (\<forall>p \<in> set ps. pr_status p = P_DRAFT \<and> \<not> pr_deleted p \<and> pr_id p \<in> range (new_product_id ids))) \<and>
    (\<exists>vs. map variant_tag (ct_variants c') = map variant_tag (ct_variants c) @ map variant_tag vs) \<and>
    ct_images c' = ct_images c \<and>
    (case r of
       Inl _ \<Rightarrow> c' = c
     | Inr res \<Rightarrow>
         ir_created res + ir_updated res + ir_skipped res + length (ir_errors res) + 1 = length (parseCsv csv) \<and>
         sorted_wrt (<) (map ie_line (ir_errors res)) \<and>
         (\<forall>e \<in> set (ir_errors res). 2 \<le> ie_line e \<and> ie_line e \<le> length (parseCsv csv)))"
proof -
  have ok: "cat_ok c" by (rule cat_steps_ok [OF assms(1) empty_catalog_ok])
  have g: "grows (range (new_product_id ids)) (range (new_variant_id ids)) c c'"
    using importCsv_ok [OF ok assms(2,3)] by simp
  have refused: "c' = c" if "r = Inl e" for e
    using assms(3) that by (cases rule: importCsv_cases) simp_all
  have counted: "ir_created res + ir_updated res + ir_skipped res + length (ir_errors res) + 1 = length (parseCsv csv) \<and>
      sorted_wrt (<) (map ie_line (ir_errors res)) \<and>
      (\<forall>e \<in> set (ir_errors res). 2 \<le> ie_line e \<and> ie_line e \<le> length (parseCsv csv))" if "r = Inr res" for res
    using importCsv_counts [OF assms(3) [unfolded that]] by (auto simp: rows_counted_def lines_between_def)
  show ?thesis using g refused counted unfolding grows_def by (auto split: sum.split)
qed

section \<open>Examples\<close>

definition tea :: product_input where
  "tea = \<lparr>pi_name = ''Tea'', pi_brand = None, pi_description = None, pi_category = None, pi_price = 500,
     pi_sku = Some ''T1''\<rparr>"

definition cat1 :: catalog where
  "cat1 = cat_run id id (\<lambda>_. 0) 1 (Create_Product ''p1'' ''v1'' ''x'' ''s1'' tea) empty_catalog"

definition cat2 :: catalog where
  "cat2 = cat_run id id (\<lambda>_. 0) 2 (Update_Variant ''s1'' ''v1'' \<lparr>vp_sku = None, vp_barcode = None,
     vp_attrs = Some [(''size'', ''Large'')], vp_price = None, vp_compare = None, vp_cost = None\<rparr>) cat1"

definition cat3 :: catalog where
  "cat3 = cat_run id id (\<lambda>_. 0) 3 (Set_Status ''s1'' ''p1'' P_ACTIVE) cat2"

definition cat4 :: catalog where
  "cat4 = cat_run id id (\<lambda>_. 0) 4 (Update_Variant ''s1'' ''v1'' \<lparr>vp_sku = None, vp_barcode = None,
     vp_attrs = None, vp_price = Some 0, vp_compare = None, vp_cost = None\<rparr>) cat3"

lemma cat_steps_samples:
  "cat_steps id id (\<lambda>_. 0) empty_catalog cat2" "cat_steps id id (\<lambda>_. 0) empty_catalog cat3"
  "cat_steps id id (\<lambda>_. 0) empty_catalog cat4"
proof -
  show c2: "cat_steps id id (\<lambda>_. 0) empty_catalog cat2"
    unfolding cat2_def cat1_def by (intro cat_steps.intros) (simp_all add: empty_catalog_def)
  show c3: "cat_steps id id (\<lambda>_. 0) empty_catalog cat3"
    unfolding cat3_def by (rule cat_next [OF c2]) simp
  show "cat_steps id id (\<lambda>_. 0) empty_catalog cat4"
    unfolding cat4_def by (rule cat_next [OF c3]) simp
qed

definition tea_file :: string where
  "tea_file = export_catalog (\<lambda>_. 0) ''s1'' cat3"

definition tea_shelf :: "product_status \<Rightarrow> int \<Rightarrow> int \<Rightarrow> audit_entry list \<Rightarrow> catalog" where
  "tea_shelf st price now entries =
     \<lparr>ct_categories = [],
      ct_products = [\<lparr>pr_id = ''p1'', pr_store = ''s1'', pr_category = None, pr_name = ''Tea'',
        pr_slug = ''tea'', pr_brand = None, pr_description = None, pr_status = st, pr_deleted = False,
        pr_updated = now\<rparr>],
      ct_variants = [\<lparr>pv_id = ''v1'', pv_product = ''p1'', pv_store = ''s1'', pv_sku = Some ''T1'',
        pv_barcode = None, pv_attrs = [(''size'', ''Large'')], pv_price = price, pv_compare = None,
        pv_cost = None, pv_default = True, pv_active = True, pv_deleted = False\<rparr>],
      ct_images = [], ct_assets = [], ct_audit = entries\<rparr>"

lemma cat_values:
  "\<exists>es. cat2 = tea_shelf P_DRAFT 500 1 es" "\<exists>es. cat3 = tea_shelf P_ACTIVE 500 3 es"
  "\<exists>es. cat4 = tea_shelf P_ACTIVE 0 3 es"
proof -
  have "cat2 = tea_shelf P_DRAFT 500 1 (ct_audit cat2)" by code_simp
  then show c2: "\<exists>es. cat2 = tea_shelf P_DRAFT 500 1 es" by blast
  have "\<exists>es'. cat_run id id (\<lambda>_. 0) 3 (Set_Status ''s1'' ''p1'' P_ACTIVE) (tea_shelf P_DRAFT 500 1 es) =
      tea_shelf P_ACTIVE 500 3 es'" for es
    by (simp add: setProductStatus_def cat_tx_def find_product_def tea_shelf_def sellable_def
        live_variants_def update_product_def category_exists_def cat_audit_def getProduct_def Let_def)
  then show c3: "\<exists>es. cat3 = tea_shelf P_ACTIVE 500 3 es" using c2 unfolding cat3_def by metis
  have "\<exists>es'. cat_run id id (\<lambda>_. 0) 4 (Update_Variant ''s1'' ''v1'' \<lparr>vp_sku = None, vp_barcode = None,
      vp_attrs = None, vp_price = Some 0, vp_compare = None, vp_cost = None\<rparr>) (tea_shelf P_ACTIVE 500 3 es) =
      tea_shelf P_ACTIVE 0 3 es'" for es
    by (simp add: updateVariant_def cat_tx_def requireVariant_def tea_shelf_def update_variant_def
        patch_variant_def variant_row_ok_def price_ok_def optional_price_ok_def fits_int4_def)
  then show "\<exists>es. cat4 = tea_shelf P_ACTIVE 0 3 es" using c3 unfolding cat4_def by metis
qed

lemma tea_product:
  "\<exists>es. cat = tea_shelf st price now es \<Longrightarrow>
   \<exists>p. ct_products cat = [p] \<and> pr_id p = ''p1'' \<and> pr_status p = st \<and> \<not> pr_deleted p \<and> ct_images cat = []"
  by (auto simp: tea_shelf_def)

theorem catalog_stays_sound_witness:
  "\<exists>!v. v \<in> set (ct_variants cat4) \<and> pv_product v = ''p1'' \<and> pv_default v \<and> \<not> pv_deleted v"
proof -
  obtain p where "p \<in> set (ct_products cat4)" "pr_id p = ''p1''" "\<not> pr_deleted p"
    using tea_product [OF cat_values(3)] by auto
  then show ?thesis using catalog_stays_sound [OF cat_steps_samples(3)] by metis
qed

theorem published_when_sellable_witness:
  "\<exists>v \<in> set (ct_variants cat2). pv_product v = ''p1'' \<and> \<not> pv_deleted v \<and> pv_active v \<and> pv_price v > 0"
proof -
  obtain p where p: "ct_products cat3 = [p]" "pr_id p = ''p1''" "pr_status p = P_ACTIVE"
    using tea_product [OF cat_values(2)] by auto
  have before: "\<forall>q \<in> set (ct_products cat2). pr_id q = ''p1'' \<longrightarrow> pr_status q \<noteq> P_ACTIVE"
    using tea_product [OF cat_values(1)] by auto
  have "cat_run id id (\<lambda>_. 0) 3 (Set_Status ''s1'' ''p1'' P_ACTIVE) cat2 = cat3" by (simp only: cat3_def)
  then show ?thesis
    using published_when_sellable [OF cat_steps_samples(1), of "Set_Status ''s1'' ''p1'' P_ACTIVE" p 3] p before
    by simp
qed

text \<open>A product that is on sale may lose its price.\<close>

theorem price_leaves_a_shown_product:
  "cat_steps id id (\<lambda>_. 0) empty_catalog cat4 \<and> ''p1'' \<in> on_sale cat4 \<and> \<not> sellable ''p1'' cat4"
proof -
  obtain es where e: "cat4 = tea_shelf P_ACTIVE 0 3 es" using cat_values(3) by blast
  have "''p1'' \<in> on_sale cat4" "\<not> sellable ''p1'' cat4"
    by (simp_all add: e tea_shelf_def on_sale_def sellable_def live_variants_def)
  then show ?thesis using cat_steps_samples(3) by simp
qed

definition sample_ids :: "nat \<Rightarrow> string \<times> string \<times> string" where
  "sample_ids n = (replicate n CHR ''a'', replicate n CHR ''b'', ''x'')"

lemma sample_ids_fresh: "import_ids_fresh (\<lambda>n. n) sample_ids cat3"
proof -
  have "replicate n CHR ''a'' \<noteq> ''p1''" "replicate n CHR ''b'' \<noteq> ''v1''" for n by (cases n; simp)+
  moreover have "inj (\<lambda>n. replicate n CHR ''a'')" "inj (\<lambda>n. replicate n CHR ''b'')"
    by (auto simp: inj_def dest: arg_cong [of _ _ length])
  ultimately have "\<forall>es. import_ids_fresh (\<lambda>n. n) sample_ids (tea_shelf P_ACTIVE 500 3 es)"
    by (simp add: import_ids_fresh_def fresh_from_def new_product_id_def [abs_def] new_variant_id_def [abs_def]
        sample_ids_def tea_shelf_def)
  then show ?thesis using cat_values(2) by metis
qed

theorem import_publishes_nothing_witness:
  "\<exists>r c'. importCsv id id (\<lambda>_. 0) 9 (\<lambda>n. n) sample_ids ''s1'' ''u1'' tea_file cat3 = (r, c') \<and>
     ct_images c' = [] \<and> (\<exists>p ps. ct_products c' = p # ps \<and> pr_id p = ''p1'' \<and> pr_status p = P_ACTIVE)"
proof -
  obtain r c' where run: "importCsv id id (\<lambda>_. 0) 9 (\<lambda>n. n) sample_ids ''s1'' ''u1'' tea_file cat3 = (r, c')"
    by (meson surj_pair)
  obtain ps where tags: "map product_tag (ct_products c') = map product_tag (ct_products cat3) @ map product_tag ps"
    and images: "ct_images c' = ct_images cat3"
    using import_publishes_nothing [OF cat_steps_samples(2) sample_ids_fresh run] by blast
  obtain q where "ct_products cat3 = [q]" "pr_id q = ''p1''" "pr_status q = P_ACTIVE" "ct_images cat3 = []"
    using tea_product [OF cat_values(2)] by auto
  then show ?thesis using run tags images by (auto simp: product_tag_def map_eq_Cons_conv)
qed

text \<open>
  What the export writes is not what the import reads: the attributes of a variant are written
  into the name, and the import renames the product with them.
\<close>

theorem import_of_export_renames:
  "map pr_name (ct_products (tea_shelf P_ACTIVE 500 3 [])) = [''Tea''] \<and>
   (\<lambda>(r, c). (r, map pr_name (ct_products c)))
     (importCsv id id (\<lambda>_. 0) 9 (\<lambda>n. n) sample_ids ''s1'' ''u1''
       (export_catalog (\<lambda>_. 0) ''s1'' (tea_shelf P_ACTIVE 500 3 [])) (tea_shelf P_ACTIVE 500 3 [])) =
   (Inr \<lparr>ir_created = 0, ir_updated = 1, ir_skipped = 0, ir_errors = []\<rparr>, [''Tea (Large)''])"
  by code_simp

end
