(* ===== verification/OrderRuns.thy ===== *)
theory OrderRuns
  imports CheckoutRetry OrderSweep WebhookProps DeliveryProps PosProps "HOL-Library.Sublist"
begin

text \<open>
  A checkout retried later: whatever happened in between.  \<open>order_step\<close> is one request, webhook
  or job of the program as far as the order table goes; rows are only added at its end, and of
  a row only the status and the deadline ever change, so an idempotency key once answered keeps
  its order.
\<close>

section \<open>What never changes of an order\<close>

definition order_core :: "order \<Rightarrow> order" where
  "order_core o1 = o1\<lparr>o_status := PENDING, o_expires_at := None\<rparr>"

text \<open>Rows are kept in place but for status and deadline, and new ones come after them.\<close>

definition orders_grow :: "world \<Rightarrow> world \<Rightarrow> bool" where
  "orders_grow w w' = prefix (map order_core (w_orders w)) (map order_core (w_orders w'))"

lemma orders_grow_same: "w_orders w' = w_orders w \<Longrightarrow> orders_grow w w'"
  by (simp add: orders_grow_def)

lemma orders_grow_trans: "orders_grow w1 w2 \<Longrightarrow> orders_grow w2 w3 \<Longrightarrow> orders_grow w1 w3"
  unfolding orders_grow_def by (rule prefix_order.trans)

lemma order_core_set_status [simp]: "order_core (set_status st o1) = order_core o1"
  by (simp add: order_core_def set_status_def)

lemma changed_order_core: "map order_core (changed_order s oid st rows) = map order_core rows"
  by (simp add: changed_order_def map_update_where)

lemma core_keeps:
  "order_core a = order_core b \<Longrightarrow> o_id a = o_id b \<and> o_store a = o_store b \<and> o_idem a = o_idem b \<and>
     (summary_of a)\<lparr>os_status := st\<rparr> = (summary_of b)\<lparr>os_status := st\<rparr>"
  by (cases a; cases b) (simp add: order_core_def summary_of_def)

text \<open>The first row a test of the kept part finds stays the first.\<close>

lemma find_grow:
  assumes "find P xs = Some a" and "prefix (map order_core xs) (map order_core ys)"
    and "\<And>x y. order_core x = order_core y \<Longrightarrow> P x = P y"
  shows "\<exists>b. find P ys = Some b \<and> order_core b = order_core a"
  using assms(1,2)
proof (induction xs arbitrary: ys)
  case (Cons x xs)
  then obtain y zs where ys: "ys = y # zs" "order_core x = order_core y"
    "prefix (map order_core xs) (map order_core zs)" by (cases ys) auto
  then show ?case using Cons assms(3) [OF ys(2)] by (cases "P x") auto
qed simp

section \<open>Steps\<close>

inductive order_step :: "world \<Rightarrow> world \<Rightarrow> bool" where
  placed: "placeOrder metres now fresh s shopper request w = (out, w') \<Longrightarrow> order_step w w'"
| rung_up: "ringUp now oid pid s actor input w = (sale, w') \<Longrightarrow> order_step w w'"
| moved: "transition newId s oid to act note w = (result, w') \<Longrightarrow> order_step w w'"
| on_the_road: "run_move env newId now s oid u mv w = (row, w') \<Longrightarrow> order_step w w'"
| swept: "expireStaleOrders newIds now w = (n, w') \<Longrightarrow> order_step w w'"
| heard: "webhook_handle now newId parsed w = (answer, w') \<Longrightarrow> order_step w w'"
| elsewhere: "w_orders w' = w_orders w \<Longrightarrow> order_step w w'"

lemma transition_grow: "transition newId s oid to act note w = (r, w') \<Longrightarrow> orders_grow w w'"
  unfolding orders_grow_def by (drule transition_order_keys [where g = order_core]) simp_all

lemma placed_grow:
  assumes "placeOrder metres now fresh s shopper request w = (r, w')"
  shows "orders_grow w w'"
  using assms
proof (cases rule: place_cases)
  case (attempted store)
  from attempted(3) show ?thesis
  proof (cases rule: place_finish_cases)
    case (ordered c summary w1)
    then show ?thesis using createOrder_row [OF ordered(2)] by (auto simp: orders_grow_def counter_defs)
  qed (auto simp: counter_defs split: prod.splits intro: orders_grow_same)
qed (auto simp: replays_def intro: orders_grow_same)

lemma rung_grow:
  assumes "ringUp now oid pid s actor input w = (r, w')"
  shows "orders_grow w w'"
  using assms
proof (cases rule: ringUp_cases)
  case (rung x store)
  from rung(4) show ?thesis
  proof (rule createSale_Inr)
    fix lines tr number o1 w1
    assume w1: "w1 = w\<lparr>w_counters := w_counters w1\<rparr>"
      and wrote: "write_sale now pid actor o1 lines (tx_lines tr) w1 = Inr w'"
    have same: "w_orders w1 = w_orders w" by (subst w1) simp
    from wrote obtain w2 w3 w4 w5 w6 where start: "insert_order o1 w1 = Inr w2"
      and items: "foldE insert_order_item (new_items (o_id o1) (o_store o1) lines (tx_lines tr)) w2 = Inr w3"
      and walk: "foldE (walk_step (o_store o1) (o_id o1) actor) SALE_PATH w3 = Inr w4"
      and out: "foldE (take_out (o_store o1) (o_id o1) actor) lines w4 = Inr w5"
      and pay: "insert_payment (sale_payment now pid actor o1) w5 = Inr w6"
      and w': "w_orders w' = w_orders w6"
      by (auto simp: write_sale_def Let_def)
    have "w_orders w2 = w_orders w @ [o1]" using start same by (simp add: insert_order_Inr)
    moreover have "w_orders w' = changed_order (o_store o1) (o_id o1) PICKED_UP (w_orders w2)"
      using insert_payment_Inr [OF pay] off_stock_keeps(8) [OF selling.fold_keeps [OF out]]
        walk_Inr [OF walk] foldE_items_Inr [OF items] by (simp add: w')
    ultimately show ?thesis by (simp add: orders_grow_def changed_order_core)
  qed
qed (auto intro: orders_grow_same)

lemma swept_grow:
  assumes "expireStaleOrders newIds now w = (n, w')"
  shows "orders_grow w w'"
proof -
  have one: "orders_grow v (snd (settle_stale newIds row (k, v)))" for row k v
  proof -
    obtain oid s paid where row: "row = (oid, s, paid)" by (cases row) auto
    obtain r v1 where t: "transition (newIds oid) s oid (if paid then CONFIRMED else CANCELLED) system_actor
        (Some (if paid then ''Payment received; confirmed by the expiry sweep after the original confirmation failed''
          else ''Expired without payment'')) v = (r, v1)" by (meson surj_pair)
    have "orders_grow v v1" by (rule transition_grow [OF t])
    then show ?thesis using t
      by (cases paid; cases r) (simp_all add: settle_stale_def row orders_grow_def)
  qed
  have "orders_grow (snd st) (snd (foldl (\<lambda>st row. settle_stale newIds row st) st rows))" for rows st
  proof (induction rows arbitrary: st)
    case (Cons row rows)
    then show ?case using orders_grow_trans [OF one [of "snd st" row "fst st"]] by (simp add: surjective_pairing)
  qed (simp add: orders_grow_same)
  from this [of "(0, w)" "stale_orders now w"] show ?thesis
    using assms by (simp add: expireStaleOrders_def)
qed

lemma update_refunds_orders: "update_refunds hit f w = Inr w' \<Longrightarrow> w_orders w' = w_orders w"
  unfolding update_refunds_def
  by (erule foldE_field [rotated]) (auto simp: set_refund_row_def)

lemma applyProviderStatus_orders: "w_orders (snd (applyProviderStatus now p w)) = w_orders w"
  by (simp add: applyProviderStatus_def reinstateIfSuspendedForNonPayment_def update_sub_def Let_def
      split: option.split)

lemma payment_succeeded_grow: "orders_grow w (onPaymentSucceeded newId ev st w)"
proof (cases st)
  case None
  then show ?thesis
    by (simp add: onPaymentSucceeded_def unreconciled_def payment_outcome_def orders_grow_same)
next
  case (Some s)
  define w0 where "w0 = payment_outcome ''STRIPE'' ''succeeded'' ''none'' w"
  obtain r w1 where cap: "capture_payment s (ed_id (pe_data ev)) w0 = (r, w1)" by (meson surj_pair)
  have same: "w_orders w1 = w_orders w"
    using capture_payment_keeps(3) [OF cap] by (simp add: w0_def payment_outcome_def)
  show ?thesis
  proof (cases r)
    case None
    then show ?thesis using cap same
      by (simp add: onPaymentSucceeded_def Let_def Some w0_def [symmetric] unreconciled_def orders_grow_same)
  next
    case oid: (Some oid)
    obtain x w2 where tr: "transition newId s oid CONFIRMED system_actor (Some ''Card payment received'') w1 = (x, w2)"
      by (meson surj_pair)
    have "orders_grow w w2"
      by (rule orders_grow_trans [OF orders_grow_same [OF same] transition_grow [OF tr]])
    then show ?thesis using cap tr oid
      by (auto simp: onPaymentSucceeded_def Let_def Some w0_def [symmetric] flagIfStillUnconfirmed_def
          orders_grow_def unreconciled_def split: sum.splits option.splits)
  qed
qed

lemma dispatch_grow:
  assumes "dispatch now newId ev st w = Inr (b, w')"
  shows "orders_grow w w'"
proof -
  have refunds: "w_orders v = w_orders w" if "onRefundUpdated ev w = Inr v" for v
    using that by (auto simp: onRefundUpdated_def Let_def split: if_splits option.splits
        dest: update_refunds_orders)
  have failed: "w_orders (onPaymentFailed ev st w) = w_orders w"
    by (simp add: onPaymentFailed_def Let_def payment_outcome_def split: option.split)
  have account: "w_orders (onAccountUpdated now ev st w) = w_orders w"
    by (simp add: onAccountUpdated_def Let_def update_store_def split: option.split)
  have sub: "w_orders (onSubscriptionChanged now ev w) = w_orders w"
    by (simp add: onSubscriptionChanged_def Let_def applyProviderStatus_orders split: option.split)
  show ?thesis
    using assms refunds failed account sub payment_succeeded_grow [of w newId ev st]
    by (auto simp: dispatch_def Let_def intro: orders_grow_same split: if_splits)
qed

lemma heard_grow:
  assumes "webhook_handle now newId parsed w = (r, w')"
  shows "orders_grow w w'"
proof (cases parsed)
  case (Inl e)
  then show ?thesis using assms by (simp add: webhook_handle_def orders_grow_same)
next
  case (Inr ev)
  show ?thesis
  proof (cases "record_event ev (resolveStore ev w) w")
    case (Inl e)
    then show ?thesis using assms Inr
      by (auto simp: webhook_handle_def Let_def orders_grow_same split: if_splits)
  next
    case rec: (Inr w1)
    have same: "w_orders w1 = w_orders w" using rec by (auto simp: record_event_def split: if_splits)
    show ?thesis
    proof (cases "dispatch now newId ev (resolveStore ev w) w1")
      case (Inl e)
      then show ?thesis using assms Inr rec same
        by (auto simp: webhook_handle_def Let_def markProcessed_def orders_grow_same)
    next
      case done1: (Inr p)
      obtain b w2 where p: "p = (b, w2)" by (cases p)
      have "orders_grow w w2"
        by (rule orders_grow_trans [OF orders_grow_same [OF same] dispatch_grow [OF done1 [unfolded p]]])
      then show ?thesis using assms Inr rec done1 p
        by (auto simp: webhook_handle_def Let_def markProcessed_def orders_grow_def)
    qed
  qed
qed

lemma order_step_grow: "order_step w w' \<Longrightarrow> orders_grow w w'"
proof (induction rule: order_step.induct)
  case (on_the_road env newId now s oid u mv w row w')
  then show ?case
  proof (cases rule: run_move_cases)
    case (moved t w1)
    then show ?thesis using transition_grow [OF moved(2)] by (simp add: orders_grow_def)
  qed (simp add: orders_grow_same)
qed (auto intro: placed_grow rung_grow transition_grow swept_grow heard_grow orders_grow_same)

lemma order_steps_grow: "order_step\<^sup>*\<^sup>* w w' \<Longrightarrow> orders_grow w w'"
  by (induction rule: rtranclp_induct)
    (auto intro: orders_grow_same orders_grow_trans order_step_grow)

section \<open>A retry, at any later time\<close>

text \<open>
  C4. Once a checkout under a key has been answered with an order, the same shopper's request
  under the same key is answered with that same order however much has happened in between:
  whatever checkouts, counter sales, status changes, deliveries, payments, webhooks and sweeps
  have run and whatever else has changed, while the shop trades the answer is the same number,
  total and claim token, with the status the order has by then, no second order is written, and
  nothing but the replay counter moves.
\<close>

theorem retry_gets_the_same_order:
  assumes "placeOrder metres now fresh s shopper request w = (Inr summary, w1)"
    and "order_step\<^sup>*\<^sup>* w1 w2" and "okE (requireLiveStore s w2)" and "qr_key again = qr_key request"
  shows "\<exists>o1 \<in> set (w_orders w2). o_store o1 = s \<and> o_idem o1 = Some (qr_key request) \<and>
    o_id o1 = os_id summary \<and>
    placeOrder metres2 later fresh2 s shopper again w2 =
      (Inr (summary\<lparr>os_status := o_status o1\<rparr>), replays (qr_fulfillment again) w2)"
proof -
  let ?P = "\<lambda>o1. o_store o1 = s \<and> o_idem o1 = Some (qr_key request)"
  obtain a where a: "find ?P (w_orders w1) = Some a" "summary = summary_of a"
    using key_answered [OF assms(1)] by (auto simp: findByIdempotencyKey_def)
  have same: "?P x = ?P y" if "order_core x = order_core y" for x y
    using core_keeps [OF that] by simp
  obtain b where b: "find ?P (w_orders w2) = Some b" "order_core b = order_core a"
    using find_grow [OF a(1) order_steps_grow [OF assms(2), unfolded orders_grow_def] same] by blast
  have "summary_of b = summary\<lparr>os_status := o_status b\<rparr>"
    using core_keeps [OF b(2), of "o_status b"] a(2) by (simp add: summary_of_def)
  moreover have "b \<in> set (w_orders w2)" "?P b" using findD [OF b(1)] by simp_all
  moreover have "o_id b = os_id summary" using core_keeps [OF b(2)] a(2) by (simp add: summary_of_def)
  moreover obtain store where "requireLiveStore s w2 = Inr store" using assms(3) by (auto simp: okE_iff)
  ultimately show ?thesis using b(1) assms(4)
    by (intro bexI [of _ b]) (simp_all add: placeOrder_def findByIdempotencyKey_def)
qed

text \<open>The shop cancels the order before the shopper's browser asks once more.\<close>

definition sample_cancelled :: world where
  "sample_cancelled = snd (transition ''n1'' ''s1'' ''o9'' CANCELLED system_actor None
     (replays FUL_PICKUP sample_raced))"

theorem retry_gets_the_same_order_witness:
  "\<exists>summary o1. placeOrder nowhere 5 sample_fresh ''s1'' (Guest ''k'') sample_place sample_raced =
      (Inr summary, replays FUL_PICKUP sample_raced) \<and> os_status summary = PENDING \<and>
    o1 \<in> set (w_orders sample_cancelled) \<and> o_status o1 = CANCELLED \<and>
    fst (placeOrder nowhere 9 sample_fresh ''s1'' (Guest ''k'') sample_place sample_cancelled) =
      Inr (summary\<lparr>os_status := CANCELLED\<rparr>)"
proof -
  have "case placeOrder nowhere 5 sample_fresh ''s1'' (Guest ''k'') sample_place sample_raced of
      (Inr summary, _) \<Rightarrow> os_status summary = PENDING | _ \<Rightarrow> False"
    and live1: "okE (requireLiveStore ''s1'' sample_raced)"
    by code_simp+
  moreover obtain winner where "findByIdempotencyKey ''s1'' ''key1'' sample_raced = Some winner"
    by (rule sample_winner)
  moreover have "qr_key sample_place = ''key1''" "qr_fulfillment sample_place = FUL_PICKUP"
    by (simp_all add: sample_place_def)
  ultimately have placed: "placeOrder nowhere 5 sample_fresh ''s1'' (Guest ''k'') sample_place sample_raced =
      (Inr winner, replays FUL_PICKUP sample_raced)" and pending: "os_status winner = PENDING"
    by (auto simp: placeOrder_def okE_iff)
  have live: "okE (requireLiveStore ''s1'' sample_cancelled)"
    and gone: "list_all (\<lambda>x. o_status x = CANCELLED) (w_orders sample_cancelled)"
    by code_simp+
  have steps: "order_step\<^sup>*\<^sup>* (replays FUL_PICKUP sample_raced) sample_cancelled"
    unfolding sample_cancelled_def
    by (rule r_into_rtranclp, rule order_step.moved [OF surjective_pairing])
  from retry_gets_the_same_order [OF placed steps live refl, of nowhere 9 sample_fresh]
  obtain o1 where "o1 \<in> set (w_orders sample_cancelled)"
    "placeOrder nowhere 9 sample_fresh ''s1'' (Guest ''k'') sample_place sample_cancelled =
      (Inr (winner\<lparr>os_status := o_status o1\<rparr>), replays (qr_fulfillment sample_place) sample_cancelled)"
    by blast
  then show ?thesis using placed pending gone by (auto simp: list_all_iff)
qed

end
