(* ===== verification/Accounts.thy ===== *)
theory Accounts
  imports Sessions Permissions
begin

text \<open>
  Links sent by e-mail (\<open>modules/auth/verification-token.service.ts\<close> with the functions of
  migration 3), what an account does with them (\<open>account.service.ts\<close>) and invitations to a store
  (\<open>invitation.service.ts\<close>).  Random tokens, identifiers and the clock are arguments; a message is
  recorded with the token its link holds.  Every line that starts its own transaction keeps what
  the lines before it wrote when it fails.
\<close>

section \<open>State\<close>

datatype link_kind = EMAIL_VERIFY | PW_RESET | INVITE

record invite_payload =
  iv_store :: string
  iv_role :: membership_role
  iv_invited_by :: string

record verification_token =
  vt_id :: string
  vt_user :: "string option"
  vt_email :: string
  vt_type :: link_kind
  vt_hash :: string
  vt_payload :: "invite_payload option"
  vt_expires :: int
  vt_consumed :: "int option"

text \<open>A message: to whom, and what its text is made of.\<close>

datatype mail =
    VerifyMail string string string
  | ResetMail string string string
  | PasswordChanged string
  | InviteMail string string membership_role string bool

text \<open>One exception to a member's role.\<close>

record member_override =
  mo_member :: string
  mo_permission :: permission
  mo_effect :: effect
  mo_granted_by :: "string option"

datatype application_status = AP_PENDING | AP_APPROVED | AP_REJECTED

record store_application =
  ap_id :: string
  ap_name :: string
  ap_email :: string
  ap_phone :: "string option"
  ap_business :: string
  ap_line1 :: "string option"
  ap_city :: "string option"
  ap_state :: "string option"
  ap_postal :: "string option"
  ap_pitch :: "string option"
  ap_status :: application_status
  ap_reviewer :: "string option"
  ap_reviewed :: "int option"
  ap_note :: "string option"
  ap_store :: "string option"
  ap_created :: int

record people =
  pe_auth :: auth
  pe_links :: "verification_token list"
  pe_overrides :: "member_override list"
  pe_stores :: "store list"
  pe_applications :: "store_application list"
  pe_mail :: "mail list"
  pe_audit :: "audit_entry list"

type_synonym 'a people_outcome = "'a res \<times> people"

definition send_mail :: "mail \<Rightarrow> people \<Rightarrow> people" where
  "send_mail m pe = pe\<lparr>pe_mail := pe_mail pe @ [m]\<rparr>"

definition pe_record :: "audit_entry \<Rightarrow> people \<Rightarrow> people" where
  "pe_record en pe = pe\<lparr>pe_audit := pe_audit pe @ [en]\<rparr>"

definition set_user :: "string \<Rightarrow> (user \<Rightarrow> user) \<Rightarrow> people \<Rightarrow> people" where
  "set_user userId f pe = pe\<lparr>pe_auth := update_user userId f (pe_auth pe)\<rparr>"

section \<open>Links\<close>

text \<open>In milliseconds.\<close>

fun link_ttl :: "link_kind \<Rightarrow> int" where
  "link_ttl EMAIL_VERIFY = 24 * 60 * 60 * 1000"
| "link_ttl PW_RESET = 60 * 60 * 1000"
| "link_ttl INVITE = 7 * 24 * 60 * 60 * 1000"

definition same_mail :: "string \<Rightarrow> string \<Rightarrow> bool" where
  "same_mail x y = (map lower_char x = map lower_char y)"

text \<open>\<open>dw\<close> is the row's identifier and the token drawn.\<close>

definition issue_link ::
    "crypto \<Rightarrow> int \<Rightarrow> draw \<Rightarrow> link_kind \<Rightarrow> string \<Rightarrow> string option \<Rightarrow> invite_payload option \<Rightarrow>
     people \<Rightarrow> string people_outcome" where
  "issue_link cr now dw kind email userId payload pe =
     (if \<exists>v \<in> set (pe_links pe). vt_hash v = cr_sha cr (dw_token dw)
      then (Inl (UniqueViolation ''verification_tokens_token_hash_key''), pe)
      else (Inr (dw_token dw), pe\<lparr>pe_links := pe_links pe @
        [\<lparr>vt_id = dw_id dw, vt_user = userId, vt_email = map lower_char email, vt_type = kind,
          vt_hash = cr_sha cr (dw_token dw), vt_payload = payload, vt_expires = now + link_ttl kind,
          vt_consumed = None\<rparr>]\<rparr>))"

definition resolve_link :: "crypto \<Rightarrow> string \<Rightarrow> people \<Rightarrow> verification_token option" where
  "resolve_link cr token pe = find (\<lambda>v. vt_hash v = cr_sha cr token) (pe_links pe)"

definition redeemable :: "int \<Rightarrow> string \<Rightarrow> verification_token \<Rightarrow> bool" where
  "redeemable now h v = (vt_hash v = h \<and> vt_consumed v = None \<and> vt_expires v > now)"

definition consume_link :: "crypto \<Rightarrow> int \<Rightarrow> string \<Rightarrow> people \<Rightarrow> bool \<times> people" where
  "consume_link cr now token pe =
     (count_where (redeemable now (cr_sha cr token)) (pe_links pe) > 0,
      pe\<lparr>pe_links := update_where (redeemable now (cr_sha cr token)) (\<lambda>v. v\<lparr>vt_consumed := Some now\<rparr>)
        (pe_links pe)\<rparr>)"

definition outstanding :: "string \<Rightarrow> link_kind \<Rightarrow> verification_token \<Rightarrow> bool" where
  "outstanding email kind v = (same_mail (vt_email v) email \<and> vt_type v = kind \<and> vt_consumed v = None)"

definition invalidateOutstanding :: "int \<Rightarrow> string \<Rightarrow> link_kind \<Rightarrow> people \<Rightarrow> nat \<times> people" where
  "invalidateOutstanding now email kind pe =
     (count_where (outstanding email kind) (pe_links pe),
      pe\<lparr>pe_links := update_where (outstanding email kind) (\<lambda>v. v\<lparr>vt_consumed := Some now\<rparr>) (pe_links pe)\<rparr>)"

definition invalidLink :: app_error where
  "invalidLink = Validation ''That link is invalid or has expired.''"

section \<open>The account\<close>

definition isVerified :: "string \<Rightarrow> people \<Rightarrow> bool" where
  "isVerified userId pe =
     (case find_user userId (pe_auth pe) of None \<Rightarrow> False | Some u \<Rightarrow> u_verified u \<noteq> None)"

definition sendVerificationEmail :: "crypto \<Rightarrow> int \<Rightarrow> draw \<Rightarrow> string \<Rightarrow> people \<Rightarrow> unit people_outcome" where
  "sendVerificationEmail cr now dw email pe =
     (case findUserByEmail (map lower_char (js_trim email)) (pe_auth pe) of
        None \<Rightarrow> (Inr (), pe)
      | Some u \<Rightarrow>
          if u_deleted u \<or> isVerified (u_id u) pe then (Inr (), pe)
          else (case issue_link cr now dw EMAIL_VERIFY (u_email u) (Some (u_id u)) None
                       (snd (invalidateOutstanding now (u_email u) EMAIL_VERIFY pe)) of
            (Inl e, pe1) \<Rightarrow> (Inl e, pe1)
          | (Inr token, pe1) \<Rightarrow> (Inr (), send_mail (VerifyMail (u_email u) (u_name u) token) pe1)))"

text \<open>The link is spent first; what fails after it does not bring it back.\<close>

definition verifyEmail :: "crypto \<Rightarrow> int \<Rightarrow> string \<Rightarrow> people \<Rightarrow> unit people_outcome" where
  "verifyEmail cr now token pe =
     (case resolve_link cr token pe of
        None \<Rightarrow> (Inl invalidLink, pe)
      | Some v \<Rightarrow>
          (case vt_user v of
             None \<Rightarrow> (Inl invalidLink, pe)
           | Some userId \<Rightarrow>
               if vt_type v \<noteq> EMAIL_VERIFY then (Inl invalidLink, pe)
               else (case consume_link cr now token pe of
                 (False, pe1) \<Rightarrow> (Inl invalidLink, pe1)
               | (True, pe1) \<Rightarrow> (Inr (), set_user userId (\<lambda>u. u\<lparr>u_verified := Some now\<rparr>) pe1))))"

definition requestPasswordReset :: "crypto \<Rightarrow> int \<Rightarrow> draw \<Rightarrow> string \<Rightarrow> people \<Rightarrow> unit people_outcome" where
  "requestPasswordReset cr now dw email pe =
     (let normalized = map lower_char (js_trim email) in
      case findUserByEmail normalized (pe_auth pe) of
        None \<Rightarrow> (Inr (), pe)
      | Some u \<Rightarrow>
          if u_deleted u \<or> u_status u = U_CLOSED then (Inr (), pe)
          else (case issue_link cr now dw PW_RESET normalized (Some (u_id u)) None
                       (snd (invalidateOutstanding now normalized PW_RESET pe)) of
            (Inl e, pe1) \<Rightarrow> (Inl e, pe1)
          | (Inr token, pe1) \<Rightarrow> (Inr (), send_mail (ResetMail normalized (u_name u) token) pe1)))"

definition sign_out_everywhere :: "int \<Rightarrow> string \<Rightarrow> people \<Rightarrow> people" where
  "sign_out_everywhere now userId pe = pe\<lparr>pe_auth := snd (revokeAllSessions now userId (pe_auth pe))\<rparr>"

definition resetPassword :: "crypto \<Rightarrow> int \<Rightarrow> string \<Rightarrow> string \<Rightarrow> people \<Rightarrow> unit people_outcome" where
  "resetPassword cr now token newPassword pe =
     (case resolve_link cr token pe of
        None \<Rightarrow> (Inl invalidLink, pe)
      | Some v \<Rightarrow>
          (case vt_user v of
             None \<Rightarrow> (Inl invalidLink, pe)
           | Some userId \<Rightarrow>
               if vt_type v \<noteq> PW_RESET then (Inl invalidLink, pe)
               else (case assertAcceptable (cr_breached cr) newPassword (Some (vt_email v)) of
                 Inl e \<Rightarrow> (Inl e, pe)
               | Inr _ \<Rightarrow>
                   (case consume_link cr now token pe of
                      (False, pe1) \<Rightarrow> (Inl invalidLink, pe1)
                    | (True, pe1) \<Rightarrow>
                        (Inr (), send_mail (PasswordChanged (vt_email v))
                          (sign_out_everywhere now userId
                            (set_user userId (\<lambda>u. u\<lparr>u_hash := Some (cr_hash cr newPassword)\<rparr>) pe1)))))))"

definition changePassword ::
    "crypto \<Rightarrow> int \<Rightarrow> string \<Rightarrow> string \<Rightarrow> string \<Rightarrow> people \<Rightarrow> unit people_outcome" where
  "changePassword cr now userId currentPassword newPassword pe =
     (case find_user userId (pe_auth pe) of
        None \<Rightarrow> (Inl (Unauthenticated ''Authentication is required.''), pe)
      | Some u \<Rightarrow>
          (case (if u_hash u = Some [] then None else u_hash u) of
             None \<Rightarrow> (Inl (Unauthenticated ''Authentication is required.''), pe)
           | Some h \<Rightarrow>
               if \<not> cr_verify cr h currentPassword
               then (Inl (Validation ''Your current password is incorrect.''), pe)
               else (case assertAcceptable (cr_breached cr) newPassword (Some (u_email u)) of
                 Inl e \<Rightarrow> (Inl e, pe)
               | Inr _ \<Rightarrow>
                   (Inr (), sign_out_everywhere now userId
                     (set_user userId (\<lambda>u. u\<lparr>u_hash := Some (cr_hash cr newPassword)\<rparr>) pe)))))"

text \<open>One summary per family, as of the tokens that are still good, newest first.\<close>

record session_summary =
  sm_family :: string
  sm_created :: int
  sm_last_used :: int
  sm_current :: bool

fun add_family :: "string option \<Rightarrow> refresh_token \<Rightarrow> session_summary list \<Rightarrow> session_summary list" where
  "add_family current t [] =
     [\<lparr>sm_family = rt_family t, sm_created = rt_created t, sm_last_used = rt_created t,
       sm_current = (current = Some (rt_family t))\<rparr>]"
| "add_family current t (s # ss) =
     (if sm_family s = rt_family t
      then (if rt_created t > sm_last_used s then s\<lparr>sm_last_used := rt_created t\<rparr> else s) # ss
      else s # add_family current t ss)"

definition listSessions :: "int \<Rightarrow> string \<Rightarrow> string option \<Rightarrow> people \<Rightarrow> session_summary list" where
  "listSessions now userId current pe =
     (let tokens = sort_key (\<lambda>t. - rt_created t)
        (filter (\<lambda>t. rt_user t = userId \<and> rt_revoked t = None \<and> rt_expires t > now) (a_tokens (pe_auth pe)))
      in sort_key (\<lambda>s. - sm_last_used s) (fold (add_family current) tokens []))"

definition revokeSession :: "int \<Rightarrow> string \<Rightarrow> string \<Rightarrow> people \<Rightarrow> unit people_outcome" where
  "revokeSession now userId familyId pe =
     (let mine = (\<lambda>t. rt_user t = userId \<and> rt_family t = familyId) in
      if count_where (\<lambda>t. mine t \<and> rt_revoked t = None) (a_tokens (pe_auth pe)) = 0
      then (Inl (NotFound ''That session no longer exists.''), pe)
      else (Inr (), pe\<lparr>pe_auth := revoke_where mine now (pe_auth pe)\<rparr>))"

definition account_revokeAllSessions :: "int \<Rightarrow> string \<Rightarrow> people \<Rightarrow> nat \<times> people" where
  "account_revokeAllSessions now userId pe =
     (fst (revokeAllSessions now userId (pe_auth pe)), sign_out_everywhere now userId pe)"

section \<open>Invitations\<close>

definition member_in :: "string \<Rightarrow> string \<Rightarrow> people \<Rightarrow> membership option" where
  "member_in storeId userId pe =
     find (\<lambda>m. m_store m = storeId \<and> m_user m = userId) (a_members (pe_auth pe))"

definition store_called :: "string \<Rightarrow> people \<Rightarrow> string option" where
  "store_called storeId pe = map_option s_name (find (\<lambda>s. s_id s = storeId) (pe_stores pe))"

definition already_in_team :: "string \<Rightarrow> user option \<Rightarrow> people \<Rightarrow> bool" where
  "already_in_team storeId existing pe =
     (case existing of
        None \<Rightarrow> False
      | Some u \<Rightarrow>
          (case member_in storeId (u_id u) pe of None \<Rightarrow> False | Some m \<Rightarrow> m_status m \<noteq> MS_SUSPENDED))"

definition invite ::
    "crypto \<Rightarrow> int \<Rightarrow> draw \<Rightarrow> string \<Rightarrow> string \<Rightarrow> membership_role \<Rightarrow> string \<Rightarrow> people \<Rightarrow> unit people_outcome" where
  "invite cr now dw storeId email role invitedBy pe =
     (let addr = map lower_char (js_trim email);
          existing = findUserByEmail addr (pe_auth pe) in
      case store_called storeId pe of
        None \<Rightarrow> (notFound, pe)
      | Some name \<Rightarrow>
          if already_in_team storeId existing pe
          then (Inl (Validation ''That person is already on this store's team.''), pe)
          else (case issue_link cr now dw INVITE addr (map_option u_id existing)
                       (Some \<lparr>iv_store = storeId, iv_role = role, iv_invited_by = invitedBy\<rparr>)
                       (snd (invalidateOutstanding now addr INVITE pe)) of
            (Inl e, pe1) \<Rightarrow> (Inl e, pe1)
          | (Inr token, pe1) \<Rightarrow>
              (Inr (), send_mail (InviteMail addr name role token (existing \<noteq> None)) pe1)))"

definition invalidInvite :: app_error where
  "invalidInvite = Validation ''That invitation is invalid, expired, or has already been used.''"

record invitation_preview =
  ip_email :: string
  ip_store :: string
  ip_role :: membership_role
  ip_requires_account :: bool

definition resolve_invite :: "crypto \<Rightarrow> string \<Rightarrow> people \<Rightarrow> (verification_token \<times> invite_payload) res" where
  "resolve_invite cr token pe =
     (case resolve_link cr token pe of
        None \<Rightarrow> Inl invalidInvite
      | Some v \<Rightarrow>
          (case vt_payload v of
             None \<Rightarrow> Inl invalidInvite
           | Some iv \<Rightarrow> if vt_type v = INVITE then Inr (v, iv) else Inl invalidInvite))"

definition preview_invite :: "crypto \<Rightarrow> int \<Rightarrow> string \<Rightarrow> people \<Rightarrow> invitation_preview res" where
  "preview_invite cr now token pe =
     bindE (resolve_invite cr token pe) (\<lambda>(v, iv).
       if vt_consumed v \<noteq> None \<or> vt_expires v \<le> now then Inl invalidInvite
       else case store_called (iv_store iv) pe of
         None \<Rightarrow> Inl invalidInvite
       | Some name \<Rightarrow>
           Inr \<lparr>ip_email = vt_email v, ip_store = name, ip_role = iv_role iv,
                ip_requires_account = (findUserByEmail (vt_email v) (pe_auth pe) = None)\<rparr>)"

record accept_input =
  ai_token :: string
  ai_password :: "string option"
  ai_name :: "string option"
  ai_user :: "string option"

text \<open>An argument that JavaScript takes for false is none.\<close>

definition present :: "string option \<Rightarrow> string option" where
  "present x = (if x = Some [] then None else x)"

text \<open>The name and the hash of a new account, asked for before the link is spent.\<close>

definition new_account :: "crypto \<Rightarrow> accept_input \<Rightarrow> string \<Rightarrow> (string \<times> string) res" where
  "new_account cr input email =
     (case (present (ai_name input), present (ai_password input)) of
        (Some n, Some p) \<Rightarrow>
          mapE (\<lambda>_. (js_trim n, cr_hash cr p)) (assertAcceptable (cr_breached cr) p (Some email))
      | _ \<Rightarrow> Inl (Validation ''Choose a name and password to finish setting up your account.''))"

definition upsert_member :: "int \<Rightarrow> string \<Rightarrow> string \<Rightarrow> invite_payload \<Rightarrow> membership list \<Rightarrow> membership list" where
  "upsert_member now newId userId iv rows =
     (if \<exists>m \<in> set rows. m_store m = iv_store iv \<and> m_user m = userId
      then update_where (\<lambda>m. m_store m = iv_store iv \<and> m_user m = userId)
             (\<lambda>m. m\<lparr>m_role := iv_role iv, m_status := MS_ACTIVE, m_accepted := Some now\<rparr>) rows
      else rows @ [\<lparr>m_id = newId, m_store = iv_store iv, m_user = userId, m_role = iv_role iv,
                     m_status = MS_ACTIVE, m_invited_by = Some (iv_invited_by iv), m_accepted = Some now\<rparr>])"

definition join_store ::
    "int \<Rightarrow> string \<Rightarrow> string \<Rightarrow> (string \<times> string) option \<Rightarrow> string \<Rightarrow> invite_payload \<Rightarrow> people \<Rightarrow> people" where
  "join_store now newMember userId account email iv pe =
     pe\<lparr>pe_auth := (pe_auth pe)\<lparr>
       a_users := a_users (pe_auth pe) @
         (case account of
            None \<Rightarrow> []
          | Some (name, h) \<Rightarrow>
              [\<lparr>u_id = userId, u_email = email, u_name = name, u_hash = Some h, u_status = U_ACTIVE,
                u_super = False, u_deleted = False, u_last_login = None, u_totp = None, u_mfa_at = None,
                u_verified = Some now\<rparr>]),
       a_members := upsert_member now newMember userId iv (a_members (pe_auth pe))\<rparr>\<rparr>"

text \<open>The password of a new account is judged before the link is spent.\<close>

definition accept_invite ::
    "crypto \<Rightarrow> int \<Rightarrow> string \<Rightarrow> string \<Rightarrow> accept_input \<Rightarrow> people \<Rightarrow> (string \<times> string) people_outcome" where
  "accept_invite cr now newUser newMember input pe =
     (case resolve_invite cr (ai_token input) pe of
        Inl e \<Rightarrow> (Inl e, pe)
      | Inr (v, iv) \<Rightarrow>
          let existing = findUserByEmail (vt_email v) (pe_auth pe) in
          if present (ai_user input) \<noteq> None \<and> map_option u_id existing \<noteq> present (ai_user input)
          then (Inl (Forbidden ''This invitation was sent to a different email address. Sign in as that account to accept it.''), pe)
          else (case (case existing of
                        Some u \<Rightarrow> Inr (u_id u, None)
                      | None \<Rightarrow> mapE (\<lambda>a. (newUser, Some a)) (new_account cr input (vt_email v))) of
            Inl e \<Rightarrow> (Inl e, pe)
          | Inr (userId, account) \<Rightarrow>
              (case consume_link cr now (ai_token input) pe of
                 (False, pe1) \<Rightarrow> (Inl invalidInvite, pe1)
               | (True, pe1) \<Rightarrow>
                   (Inr (userId, iv_store iv), join_store now newMember userId account (vt_email v) iv pe1))))"

end
