(* ===== verification/Staff.thy ===== *)
theory Staff
  imports Accounts
begin

text \<open>
  The team of a store: \<open>StaffService\<close> (\<open>modules/stores/staff.service.ts\<close>), the resolver of a
  member's permissions (\<open>modules/auth/permission-resolver.service.ts\<close>) and the applications for a new
  store (\<open>modules/stores/store-application.service.ts\<close>), whose approval invites its owner.
\<close>

section \<open>Members\<close>

definition requireMembership :: "string \<Rightarrow> string \<Rightarrow> people \<Rightarrow> membership res" where
  "requireMembership storeId membershipId pe =
     (case find (\<lambda>m. m_id m = membershipId) (a_members (pe_auth pe)) of
        None \<Rightarrow> notFound
      | Some m \<Rightarrow> if m_store m = storeId then Inr m else notFound)"

definition assertNotLastOwner :: "string \<Rightarrow> string \<Rightarrow> people \<Rightarrow> unit res" where
  "assertNotLastOwner storeId membershipId pe =
     guardE (count_where (\<lambda>m. m_store m = storeId \<and> m_role m = STORE_ADMIN \<and> m_status m = MS_ACTIVE \<and>
         m_id m \<noteq> membershipId) (a_members (pe_auth pe)) \<noteq> 0)
       (Validation ''This store needs at least one active owner. Make someone else an owner first.'')"

definition update_member :: "string \<Rightarrow> (membership \<Rightarrow> membership) \<Rightarrow> people \<Rightarrow> people" where
  "update_member membershipId f pe =
     pe\<lparr>pe_auth := (pe_auth pe)\<lparr>a_members :=
       update_where (\<lambda>m. m_id m = membershipId) f (a_members (pe_auth pe))\<rparr>\<rparr>"

definition overrides_of :: "string \<Rightarrow> people \<Rightarrow> member_override list" where
  "overrides_of membershipId pe = filter (\<lambda>o1. mo_member o1 = membershipId) (pe_overrides pe)"

record staff_row =
  sr_member :: membership
  sr_email :: string
  sr_name :: string
  sr_last_login :: "int option"
  sr_grants :: "permission list"
  sr_denies :: "permission list"

definition with_effect :: "effect \<Rightarrow> member_override list \<Rightarrow> permission list" where
  "with_effect e os = map mo_permission (filter (\<lambda>o1. mo_effect o1 = e) os)"

definition list_staff :: "string \<Rightarrow> people \<Rightarrow> staff_row list" where
  "list_staff storeId pe =
     concat (map (\<lambda>m. case find_user (m_user m) (pe_auth pe) of
         None \<Rightarrow> []
       | Some u \<Rightarrow>
           [\<lparr>sr_member = m, sr_email = u_email u, sr_name = u_name u, sr_last_login = u_last_login u,
             sr_grants = with_effect GRANT (overrides_of (m_id m) pe),
             sr_denies = with_effect DENY (overrides_of (m_id m) pe)\<rparr>])
       (filter (\<lambda>m. m_store m = storeId) (a_members (pe_auth pe))))"

definition changeRole ::
    "int \<Rightarrow> string \<Rightarrow> string \<Rightarrow> membership_role \<Rightarrow> string \<Rightarrow> people \<Rightarrow> unit people_outcome" where
  "changeRole now storeId membershipId role actorId pe =
     (case requireMembership storeId membershipId pe of
        Inl e \<Rightarrow> (Inl e, pe)
      | Inr m \<Rightarrow>
          if m_role m = role then (Inr (), pe)
          else (case (if m_role m = STORE_ADMIN then assertNotLastOwner storeId membershipId pe else Inr ()) of
            Inl e \<Rightarrow> (Inl e, pe)
          | Inr _ \<Rightarrow>
              (Inr (), sign_out_everywhere now (m_user m)
                 (pe_record (audit_entry_of ''staff.role_changed'' HIGH storeId (Some actorId)
                     ''store_membership'' membershipId)
                   (update_member membershipId (\<lambda>m. m\<lparr>m_role := role\<rparr>)
                     (pe\<lparr>pe_overrides := filter (\<lambda>o1. mo_member o1 \<noteq> membershipId) (pe_overrides pe)\<rparr>))))))"

definition changeStatus ::
    "int \<Rightarrow> string \<Rightarrow> string \<Rightarrow> membership_status \<Rightarrow> string \<Rightarrow> people \<Rightarrow> unit people_outcome" where
  "changeStatus now storeId membershipId status actorId pe =
     (case requireMembership storeId membershipId pe of
        Inl e \<Rightarrow> (Inl e, pe)
      | Inr m \<Rightarrow>
          if m_status m = status then (Inr (), pe)
          else (case (if m_role m = STORE_ADMIN \<and> status \<noteq> MS_ACTIVE
                      then assertNotLastOwner storeId membershipId pe else Inr ()) of
            Inl e \<Rightarrow> (Inl e, pe)
          | Inr _ \<Rightarrow>
              (let pe1 = pe_record (audit_entry_of ''staff.status_changed'' HIGH storeId (Some actorId)
                     ''store_membership'' membershipId)
                   (update_member membershipId (\<lambda>m. m\<lparr>m_status := status\<rparr>) pe)
               in (Inr (), if status = MS_SUSPENDED then sign_out_everywhere now (m_user m) pe1 else pe1))))"

text \<open>One insert, under the unique index on member and permission.\<close>

definition create_override ::
    "string \<Rightarrow> string \<Rightarrow> effect \<Rightarrow> permission \<Rightarrow> member_override list \<Rightarrow> member_override list res" where
  "create_override membershipId actorId e p rows =
     (if \<exists>o1 \<in> set rows. mo_member o1 = membershipId \<and> mo_permission o1 = p
      then Inl (UniqueViolation ''member_permission_overrides_membership_id_permission_code_key'')
      else Inr (rows @ [\<lparr>mo_member = membershipId, mo_permission = p, mo_effect = e,
                         mo_granted_by = Some actorId\<rparr>]))"

datatype staff_error =
    StaffRefused app_error
  | OutOfSuperset membership_role "permission list"

definition setOverrides ::
    "string \<Rightarrow> string \<Rightarrow> permission list \<Rightarrow> permission list \<Rightarrow> string \<Rightarrow> people \<Rightarrow>
     (staff_error + unit) \<times> people" where
  "setOverrides storeId membershipId grants denies actorId pe =
     (case requireMembership storeId membershipId pe of
        Inl e \<Rightarrow> (Inl (StaffRefused e), pe)
      | Inr m \<Rightarrow>
          let outOfBounds = filter (\<lambda>p. p \<notin> set (ROLE_OPTIONAL_GRANT_SUPERSET (m_role m))) grants in
          if outOfBounds \<noteq> [] then (Inl (OutOfSuperset (m_role m) outOfBounds), pe)
          else if filter (\<lambda>p. p \<in> set denies) grants \<noteq> []
          then (Inl (StaffRefused (Validation ''These permissions are both granted and denied.'')), pe)
          else (case bindE (foldE (create_override membershipId actorId GRANT) grants
                           (filter (\<lambda>o1. mo_member o1 \<noteq> membershipId) (pe_overrides pe)))
                     (foldE (create_override membershipId actorId DENY) denies) of
            Inl e \<Rightarrow> (Inl (StaffRefused e), pe)
          | Inr rows \<Rightarrow>
              (Inr (), pe_record (audit_entry_of ''staff.permissions_changed'' HIGH storeId (Some actorId)
                   ''store_membership'' membershipId) (pe\<lparr>pe_overrides := rows\<rparr>))))"

section \<open>What a member may do\<close>

definition stored_overrides :: "string \<Rightarrow> people \<Rightarrow> permission_override list" where
  "stored_overrides membershipId pe =
     map (\<lambda>o1. \<lparr>ov_permission = mo_permission o1, ov_effect = mo_effect o1\<rparr>) (overrides_of membershipId pe)"

definition effectiveFor :: "string \<Rightarrow> string \<Rightarrow> people \<Rightarrow> permission set" where
  "effectiveFor userId storeId pe =
     (case member_in storeId userId pe of
        None \<Rightarrow> {}
      | Some m \<Rightarrow>
          if m_status m \<noteq> MS_ACTIVE then {}
          else (case resolveEffectivePermissions (m_role m) (stored_overrides (m_id m) pe) of
            Inl _ \<Rightarrow> {}
          | Inr ps \<Rightarrow> ps))"

section \<open>Applications for a store\<close>

record application_input =
  an_name :: string
  an_email :: string
  an_phone :: "string option"
  an_business :: string
  an_line1 :: "string option"
  an_city :: "string option"
  an_state :: "string option"
  an_postal :: "string option"
  an_pitch :: "string option"

definition submit_application ::
    "int \<Rightarrow> string \<Rightarrow> application_input \<Rightarrow> people \<Rightarrow> string people_outcome" where
  "submit_application now newId i pe =
     (Inr newId, pe_record \<lparr>au_action = ''store_application.submitted'', au_severity = LOW, au_store = None,
          au_actor = None, au_entity_type = ''store_application'', au_entity = Some newId\<rparr>
        (pe\<lparr>pe_applications := pe_applications pe @
          [\<lparr>ap_id = newId, ap_name = js_trim (an_name i), ap_email = map lower_char (js_trim (an_email i)),
            ap_phone = an_phone i, ap_business = js_trim (an_business i), ap_line1 = an_line1 i,
            ap_city = an_city i, ap_state = an_state i, ap_postal = an_postal i, ap_pitch = an_pitch i,
            ap_status = AP_PENDING, ap_reviewer = None, ap_reviewed = None, ap_note = None,
            ap_store = None, ap_created = now\<rparr>]\<rparr>))"

definition list_applications :: "application_status option \<Rightarrow> people \<Rightarrow> store_application list" where
  "list_applications status pe =
     take 200 (sort_key (\<lambda>x. - ap_created x)
       (filter (\<lambda>x. case status of None \<Rightarrow> True | Some s \<Rightarrow> ap_status x = s) (pe_applications pe)))"

definition get_application :: "string \<Rightarrow> people \<Rightarrow> store_application res" where
  "get_application i pe =
     (case find (\<lambda>x. ap_id x = i) (pe_applications pe) of None \<Rightarrow> notFound | Some x \<Rightarrow> Inr x)"

definition RESERVED_SLUGS :: "string list" where
  "RESERVED_SLUGS = [''api'', ''admin'', ''platform'', ''account'', ''auth'', ''www'', ''app'', ''stores'',
     ''static'', ''assets'']"

definition slug_edge :: "char \<Rightarrow> bool" where
  "slug_edge c = (let n = (of_char c :: nat) in (97 \<le> n \<and> n \<le> 122) \<or> (48 \<le> n \<and> n \<le> 57))"

text \<open>\<open>/^[a-z0-9][a-z0-9-]{1,48}[a-z0-9]$/\<close>\<close>

definition slug_shape :: "string \<Rightarrow> bool" where
  "slug_shape s =
     (3 \<le> length s \<and> length s \<le> 50 \<and> slug_edge (hd s) \<and> slug_edge (last s) \<and>
      list_all (\<lambda>c. slug_edge c \<or> c = CHR ''-'') s)"

definition assertValidSlug :: "string \<Rightarrow> unit res" where
  "assertValidSlug s =
     (if \<not> slug_shape s then Inl (Validation ''That store address isn't valid.'')
      else guardE (s \<notin> set RESERVED_SLUGS) (Validation ''That store address is reserved.''))"

definition new_store :: "string \<Rightarrow> string \<Rightarrow> string \<Rightarrow> store_application \<Rightarrow> store" where
  "new_store storeId slug reviewerId x =
     \<lparr>s_id = storeId, s_name = ap_business x, s_status = APPROVED, s_deleted = False, s_currency = ''USD'',
      s_owner = reviewerId, s_account = None, s_charges = False, s_payouts = False, s_details = False,
      s_requirements = [], s_disabled_reason = None, s_synced_at = None, s_approved_at = None,
      s_legal = [], s_line1 = ap_line1 x, s_city = ap_city x, s_state = ap_state x,
      s_postal = ap_postal x, s_theme = None, s_slug = slug, s_timezone = ''America/Chicago''\<rparr>"

definition review_application ::
    "string \<Rightarrow> application_status \<Rightarrow> int \<Rightarrow> string \<Rightarrow> string option \<Rightarrow> string option \<Rightarrow> people \<Rightarrow> people" where
  "review_application i status now reviewerId note storeId pe =
     pe\<lparr>pe_applications := update_where (\<lambda>x. ap_id x = i)
       (\<lambda>x. x\<lparr>ap_status := status, ap_reviewer := Some reviewerId, ap_reviewed := Some now, ap_note := note,
          ap_store := (if storeId = None then ap_store x else storeId)\<rparr>) (pe_applications pe)\<rparr>"

text \<open>
  A repeated approval finds the store of the first.  The invitation comes after the transaction
  that provisions the store, so when it fails the store is there.
\<close>

definition approve_application ::
    "crypto \<Rightarrow> int \<Rightarrow> draw \<Rightarrow> string \<Rightarrow> string \<Rightarrow> string \<Rightarrow> string \<Rightarrow> string option \<Rightarrow> people \<Rightarrow>
     (string \<times> bool) people_outcome" where
  "approve_application cr now dw storeId i reviewerId rawSlug note pe =
     (case get_application i pe of
        Inl e \<Rightarrow> (Inl e, pe)
      | Inr x \<Rightarrow>
          if ap_status x = AP_APPROVED \<and> present (ap_store x) \<noteq> None
          then (Inr (the (ap_store x), True), pe)
          else if ap_status x = AP_REJECTED
          then (Inl (Validation ''That application was already rejected.''), pe)
          else
            (let slug = map lower_char (js_trim rawSlug) in
             case assertValidSlug slug of
               Inl e \<Rightarrow> (Inl e, pe)
             | Inr _ \<Rightarrow>
                 if \<exists>s \<in> set (pe_stores pe). s_slug s = slug
                 then (Inl (Validation ''That store address is already taken.''), pe)
                 else
                   (let pe1 = pe_record (audit_entry_of ''store_application.approved'' HIGH storeId None
                            ''store'' storeId)
                          (review_application i AP_APPROVED now reviewerId note (Some storeId)
                            (pe\<lparr>pe_stores := pe_stores pe @ [new_store storeId slug reviewerId x]\<rparr>))
                    in case invite cr now dw storeId (ap_email x) STORE_ADMIN reviewerId pe1 of
                         (Inl e, pe2) \<Rightarrow> (Inl e, pe2)
                       | (Inr _, pe2) \<Rightarrow> (Inr (storeId, False), pe2))))"

definition reject_application :: "int \<Rightarrow> string \<Rightarrow> string \<Rightarrow> string \<Rightarrow> people \<Rightarrow> unit people_outcome" where
  "reject_application now i reviewerId note pe =
     (case get_application i pe of
        Inl e \<Rightarrow> (Inl e, pe)
      | Inr x \<Rightarrow>
          (case ap_status x of
             AP_APPROVED \<Rightarrow> (Inl (Validation ''That application was already approved.''), pe)
           | AP_REJECTED \<Rightarrow> (Inr (), pe)
           | AP_PENDING \<Rightarrow>
               (Inr (), pe_record \<lparr>au_action = ''store_application.rejected'', au_severity = MEDIUM,
                    au_store = None, au_actor = None, au_entity_type = ''store_application'',
                    au_entity = Some i\<rparr>
                  (review_application i AP_REJECTED now reviewerId (Some note) None pe))))"

end
