(* ===== verification/StaffProps.thy ===== *)
theory StaffProps
  imports Staff
begin

text \<open>
  What changes to a team keep: who may be granted what, and that a store has an owner; what a
  password link and an invitation do, once; and where an invitation goes round those rules.
\<close>

section \<open>A team in order\<close>

definition within_role :: "people \<Rightarrow> membership \<Rightarrow> bool" where
  "within_role pe m \<longleftrightarrow>
     (\<forall>o1 \<in> set (pe_overrides pe). mo_member o1 = m_id m \<and> mo_effect o1 = GRANT \<longrightarrow>
        mo_permission o1 \<in> set (ROLE_OPTIONAL_GRANT_SUPERSET (m_role m)))"

abbreviation members :: "people \<Rightarrow> membership list" where
  "members pe \<equiv> a_members (pe_auth pe)"

definition team_inv :: "people \<Rightarrow> bool" where
  "team_inv pe \<longleftrightarrow> distinct (map m_id (members pe)) \<and>
     distinct (map (\<lambda>o1. (mo_member o1, mo_permission o1)) (pe_overrides pe)) \<and>
     (\<forall>m \<in> set (members pe). within_role pe m)"

definition owner_ids :: "string \<Rightarrow> people \<Rightarrow> string set" where
  "owner_ids s pe = {m_id m | m. m \<in> set (members pe) \<and> m_store m = s \<and> m_role m = STORE_ADMIN \<and> m_status m = MS_ACTIVE}"

lemma sign_out_team [simp]:
  "members (sign_out_everywhere now u pe) = members pe" "pe_overrides (sign_out_everywhere now u pe) = pe_overrides pe"
  by (simp_all add: sign_out_everywhere_def revokeAllSessions_def revoke_where_def)

lemma record_team [simp]:
  "members (pe_record en pe) = members pe" "pe_overrides (pe_record en pe) = pe_overrides pe"
  by (simp_all add: pe_record_def)

lemma update_member_team [simp]:
  "members (update_member i f pe) = update_where (\<lambda>m. m_id m = i) f (members pe)"
  "pe_overrides (update_member i f pe) = pe_overrides pe"
  by (simp_all add: update_member_def)

text \<open>The invariant and the owners depend on these two tables alone.\<close>

lemma team_inv_cong:
  "members pe' = members pe \<Longrightarrow> pe_overrides pe' = pe_overrides pe \<Longrightarrow> team_inv pe' = team_inv pe"
  by (simp add: team_inv_def within_role_def)

lemma owner_ids_cong: "members pe' = members pe \<Longrightarrow> owner_ids s pe' = owner_ids s pe"
  by (simp add: owner_ids_def)

lemma requireMembership_in:
  assumes "requireMembership s i pe = Inr m"
  shows "m \<in> set (members pe) \<and> m_id m = i \<and> m_store m = s"
  using assms findD by (fastforce simp: requireMembership_def notFound_def split: option.splits if_splits)

text \<open>Changing one member of one store, when another owner is left if the changed one was an owner.\<close>

lemma owners_after_update:
  assumes "distinct (map m_id (members pe))" and "m \<in> set (members pe)" and "m_id m = i"
    and "\<And>x. m_id (f x) = m_id x \<and> m_store (f x) = m_store x"
    and "m_role m = STORE_ADMIN \<and> m_status m = MS_ACTIVE \<Longrightarrow>
      (m_role (f m) = STORE_ADMIN \<and> m_status (f m) = MS_ACTIVE) \<or> owner_ids (m_store m) pe - {i} \<noteq> {}"
    and "owner_ids s pe \<noteq> {}" and "members pe' = update_where (\<lambda>m. m_id m = i) f (members pe)"
  shows "owner_ids s pe' \<noteq> {}"
proof -
  obtain x where x: "x \<in> set (members pe)" "m_store x = s" "m_role x = STORE_ADMIN" "m_status x = MS_ACTIVE"
    using assms(6) by (auto simp: owner_ids_def)
  have keep: "owner_ids s pe' \<noteq> {}" if "y \<in> set (members pe)" "m_store y = s" "m_role y = STORE_ADMIN"
    "m_status y = MS_ACTIVE" "m_id y \<noteq> i" for y
  proof -
    have "y \<in> set (members pe')" unfolding assms(7) using that(1,5) by (intro in_update_where_other) auto
    then show ?thesis using that unfolding owner_ids_def by blast
  qed
  show ?thesis
  proof (cases "m_id x = i")
    case False
    then show ?thesis using keep x by blast
  next
    case True
    then have "x = m" using distinct_map_eq [OF assms(1) x(1) assms(2)] assms(3) by simp
    then consider "m_role (f m) = STORE_ADMIN \<and> m_status (f m) = MS_ACTIVE" | "owner_ids s pe - {i} \<noteq> {}"
      using assms(5) x by blast
    then show ?thesis
    proof cases
      case 1
      have "f m \<in> set (members pe')" unfolding assms(7) using assms(2,3) by (intro in_update_where) auto
      then show ?thesis using 1 assms(4) x(2) \<open>x = m\<close> unfolding owner_ids_def by blast
    next
      case 2
      then show ?thesis using keep unfolding owner_ids_def by blast
    qed
  qed
qed

lemma not_last_owner:
  assumes "assertNotLastOwner s i pe = Inr ()"
  shows "owner_ids s pe - {i} \<noteq> {}"
  using assms by (auto simp: assertNotLastOwner_def count_where_0_iff owner_ids_def)

section \<open>Requests\<close>

datatype staff_request =
    Change_Role string string membership_role string
  | Change_Status string string membership_status string
  | Set_Overrides string string "permission list" "permission list" string

fun staff_run :: "int \<Rightarrow> staff_request \<Rightarrow> people \<Rightarrow> people" where
  "staff_run now (Change_Role s i r actor) pe = snd (changeRole now s i r actor pe)"
| "staff_run now (Change_Status s i st actor) pe = snd (changeStatus now s i st actor pe)"
| "staff_run now (Set_Overrides s i gs ds actor) pe = snd (setOverrides s i gs ds actor pe)"

inductive staff_steps :: "people \<Rightarrow> people \<Rightarrow> bool" where
  staff_refl: "staff_steps pe pe"
| staff_next: "staff_steps pe p1 \<Longrightarrow> staff_steps pe (staff_run now rq p1)"

definition kept_team :: "people \<Rightarrow> people \<Rightarrow> bool" where
  "kept_team pe pe' \<longleftrightarrow> team_inv pe' \<and> (\<forall>s. owner_ids s pe \<noteq> {} \<longrightarrow> owner_ids s pe' \<noteq> {})"

lemma kept_same:
  "team_inv pe \<Longrightarrow> members pe' = members pe \<Longrightarrow> pe_overrides pe' = pe_overrides pe \<Longrightarrow> kept_team pe pe'"
  using team_inv_cong [of pe' pe] owner_ids_cong [of pe' pe] by (simp add: kept_team_def)

lemma distinct_filter_overrides:
  "distinct (map f rows) \<Longrightarrow> distinct (map f (filter p rows))"
  by (simp add: distinct_map_filter)

lemma changeRole_kept:
  assumes "team_inv pe"
  shows "kept_team pe (snd (changeRole now s i role actor pe))"
proof (cases "requireMembership s i pe")
  case (Inl e)
  then show ?thesis using assms kept_same by (simp add: changeRole_def)
next
  case (Inr m)
  note rm = requireMembership_in [OF Inr]
  let ?pe' = "snd (changeRole now s i role actor pe)"
  show ?thesis
  proof (cases "m_role m = role \<or> \<not> okE (if m_role m = STORE_ADMIN then assertNotLastOwner s i pe else Inr ())")
    case True
    then have "?pe' = pe" using Inr by (auto simp: changeRole_def okE_def split: sum.splits)
    then show ?thesis using assms kept_same by simp
  next
    case False
    have mem: "members ?pe' = update_where (\<lambda>m. m_id m = i) (\<lambda>m. m\<lparr>m_role := role\<rparr>) (members pe)"
      and ovs: "pe_overrides ?pe' = filter (\<lambda>o1. mo_member o1 \<noteq> i) (pe_overrides pe)"
      using False Inr by (auto simp: changeRole_def okE_def split: sum.splits)
    have d: "distinct (map m_id (members pe))" using assms by (simp add: team_inv_def)
    have "team_inv ?pe'"
      using assms unfolding team_inv_def within_role_def mem ovs
      by (auto simp: map_update_where distinct_map_filter set_update_where)
    moreover have "owner_ids t ?pe' \<noteq> {}" if "owner_ids t pe \<noteq> {}" for t
    proof (rule owners_after_update [OF d _ _ _ _ that mem])
      show "m \<in> set (members pe)" "m_id m = i" using rm by simp_all
      assume "m_role m = STORE_ADMIN \<and> m_status m = MS_ACTIVE"
      then show "m_role (m\<lparr>m_role := role\<rparr>) = STORE_ADMIN \<and> m_status (m\<lparr>m_role := role\<rparr>) = MS_ACTIVE \<or>
          owner_ids (m_store m) pe - {i} \<noteq> {}"
        using False not_last_owner [of s i pe] rm by (auto simp: okE_iff)
    qed simp
    ultimately show ?thesis by (simp add: kept_team_def)
  qed
qed

lemma changeStatus_kept:
  assumes "team_inv pe"
  shows "kept_team pe (snd (changeStatus now s i st actor pe))"
proof (cases "requireMembership s i pe")
  case (Inl e)
  then show ?thesis using assms kept_same by (simp add: changeStatus_def)
next
  case (Inr m)
  note rm = requireMembership_in [OF Inr]
  let ?pe' = "snd (changeStatus now s i st actor pe)"
  let ?ask = "if m_role m = STORE_ADMIN \<and> st \<noteq> MS_ACTIVE then assertNotLastOwner s i pe else Inr ()"
  show ?thesis
  proof (cases "m_status m = st \<or> \<not> okE ?ask")
    case True
    then have "?pe' = pe" using Inr by (auto simp: changeStatus_def okE_def split: sum.splits)
    then show ?thesis using assms kept_same by simp
  next
    case False
    have mem: "members ?pe' = update_where (\<lambda>m. m_id m = i) (\<lambda>m. m\<lparr>m_status := st\<rparr>) (members pe)"
      and ovs: "pe_overrides ?pe' = pe_overrides pe"
      using False Inr by (auto simp: changeStatus_def Let_def okE_def split: sum.splits)
    have d: "distinct (map m_id (members pe))" using assms by (simp add: team_inv_def)
    have "team_inv ?pe'"
      using assms unfolding team_inv_def within_role_def mem ovs
      by (auto simp: map_update_where set_update_where)
    moreover have "owner_ids t ?pe' \<noteq> {}" if "owner_ids t pe \<noteq> {}" for t
    proof (rule owners_after_update [OF d _ _ _ _ that mem])
      show "m \<in> set (members pe)" "m_id m = i" using rm by simp_all
      assume "m_role m = STORE_ADMIN \<and> m_status m = MS_ACTIVE"
      then show "m_role (m\<lparr>m_status := st\<rparr>) = STORE_ADMIN \<and> m_status (m\<lparr>m_status := st\<rparr>) = MS_ACTIVE \<or>
          owner_ids (m_store m) pe - {i} \<noteq> {}"
        using False not_last_owner [of s i pe] rm by (auto simp: okE_iff split: if_splits)
    qed simp
    ultimately show ?thesis by (simp add: kept_team_def)
  qed
qed

definition new_override :: "string \<Rightarrow> string \<Rightarrow> effect \<Rightarrow> permission \<Rightarrow> member_override" where
  "new_override i actor e p =
     \<lparr>mo_member = i, mo_permission = p, mo_effect = e, mo_granted_by = Some actor\<rparr>"

abbreviation override_key :: "member_override \<Rightarrow> string \<times> permission" where
  "override_key \<equiv> (\<lambda>o1. (mo_member o1, mo_permission o1))"

lemma create_overrides_Inr:
  assumes "foldE (create_override i actor e) ps rows = Inr rows'" and "distinct (map override_key rows)"
  shows "rows' = rows @ map (new_override i actor e) ps \<and> distinct (map override_key rows')"
  using assms
proof (induction ps arbitrary: rows)
  case (Cons p ps)
  obtain r1 where r1: "create_override i actor e p rows = Inr r1" and rest: "foldE (create_override i actor e) ps r1 = Inr rows'"
    using Cons.prems(1) by auto
  have new: "\<not> (\<exists>o1 \<in> set rows. mo_member o1 = i \<and> mo_permission o1 = p)"
    and app: "r1 = rows @ [new_override i actor e p]"
    using r1 by (auto simp: create_override_def new_override_def split: if_splits)
  have "distinct (map override_key r1)" using Cons.prems(2) new by (auto simp: app new_override_def)
  note fin = Cons.IH [OF rest this]
  show ?case by (rule conjI [OF _ fin [THEN conjunct2]]) (simp add: fin [THEN conjunct1] app)
qed simp

lemma setOverrides_kept:
  assumes "team_inv pe"
  shows "kept_team pe (snd (setOverrides s i grants denies actor pe))"
proof (cases "okE (fst (setOverrides s i grants denies actor pe))")
  case False
  then have "snd (setOverrides s i grants denies actor pe) = pe"
    by (auto simp: setOverrides_def Let_def split: sum.splits if_splits)
  then show ?thesis using assms kept_same by simp
next
  case True
  let ?pe' = "snd (setOverrides s i grants denies actor pe)"
  let ?base = "filter (\<lambda>o1. mo_member o1 \<noteq> i) (pe_overrides pe)"
  obtain m mid rows where m: "requireMembership s i pe = Inr m"
    and sup: "\<forall>p \<in> set grants. p \<in> set (ROLE_OPTIONAL_GRANT_SUPERSET (m_role m))"
    and g: "foldE (create_override i actor GRANT) grants ?base = Inr mid"
    and d: "foldE (create_override i actor DENY) denies mid = Inr rows"
    and mem: "members ?pe' = members pe" and ovs: "pe_overrides ?pe' = rows"
    using True by (auto simp: setOverrides_def Let_def filter_empty_conv split: sum.splits if_splits)
  have base: "distinct (map override_key ?base)" using assms by (simp add: team_inv_def distinct_map_filter)
  note mid = create_overrides_Inr [OF g base]
  note fin = create_overrides_Inr [OF d mid [THEN conjunct2]]
  have rows: "rows = ?base @ map (new_override i actor GRANT) grants @ map (new_override i actor DENY) denies"
    using mid fin by simp
  have ids: "distinct (map m_id (members pe))" using assms by (simp add: team_inv_def)
  have "within_role ?pe' x" if x: "x \<in> set (members pe)" for x
  proof (cases "m_id x = i")
    case True
    then have "x = m" using distinct_map_eq [OF ids x] requireMembership_in [OF m] by simp
    then show ?thesis using sup True by (auto simp: within_role_def ovs rows new_override_def)
  next
    case False
    then show ?thesis using assms x by (auto simp: team_inv_def within_role_def ovs rows new_override_def)
  qed
  then have "team_inv ?pe'" unfolding team_inv_def mem ovs using ids fin [THEN conjunct2] by (intro conjI ballI)
  then show ?thesis using owner_ids_cong [OF mem] by (simp add: kept_team_def)
qed

lemma staff_run_kept: "team_inv pe \<Longrightarrow> kept_team pe (staff_run now rq pe)"
  by (cases rq) (simp_all add: changeRole_kept changeStatus_kept setOverrides_kept)

lemma staff_steps_kept: "staff_steps pe pe' \<Longrightarrow> team_inv pe \<Longrightarrow> kept_team pe pe'"
proof (induction rule: staff_steps.induct)
  case (staff_next pe p1 now rq)
  then have "kept_team pe p1" "kept_team p1 (staff_run now rq p1)"
    using staff_run_kept by (simp_all add: kept_team_def)
  then show ?case by (simp add: kept_team_def)
qed (simp add: kept_team_def)

section \<open>What a member may do\<close>

lemma stored_denied:
  "o1 \<in> set (pe_overrides pe) \<Longrightarrow> mo_member o1 = i \<Longrightarrow> mo_effect o1 = DENY \<Longrightarrow>
   mo_permission o1 \<in> denied (stored_overrides i pe)"
  unfolding denied_def stored_overrides_def overrides_of_def
  by (rule image_eqI [of _ _ "\<lparr>ov_permission = mo_permission o1, ov_effect = mo_effect o1\<rparr>"]) auto

lemma effective_within:
  assumes "team_inv pe" and "p \<in> effectiveFor u s pe"
  shows "\<exists>m. member_in s u pe = Some m \<and> m_status m = MS_ACTIVE \<and>
    p \<in> set (ROLE_DEFAULT_PERMISSIONS (m_role m)) \<union> set (ROLE_OPTIONAL_GRANT_SUPERSET (m_role m)) \<and>
    \<not> (\<exists>o1 \<in> set (pe_overrides pe). mo_member o1 = m_id m \<and> mo_permission o1 = p \<and> mo_effect o1 = DENY)"
proof -
  obtain m eff where m: "member_in s u pe = Some m" "m_status m = MS_ACTIVE"
    and eff: "resolveEffectivePermissions (m_role m) (stored_overrides (m_id m) pe) = Inr eff" "p \<in> eff"
    using assms(2) by (auto simp: effectiveFor_def split: option.splits if_splits sum.splits)
  have "m \<in> set (members pe)" using findD m(1) by (fastforce simp: member_in_def)
  then have "within_role pe m" using assms(1) by (simp add: team_inv_def)
  then have sub: "granted (stored_overrides (m_id m) pe) \<subseteq> set (ROLE_OPTIONAL_GRANT_SUPERSET (m_role m))"
    by (auto simp: granted_def stored_overrides_def overrides_of_def within_role_def)
  have "(p \<in> set (ROLE_DEFAULT_PERMISSIONS (m_role m)) \<or> p \<in> granted (stored_overrides (m_id m) pe)) \<and>
      p \<notin> denied (stored_overrides (m_id m) pe)"
    using eff by (simp add: resolve_iff)
  then show ?thesis
    using m sub stored_denied [of _ pe "m_id m"] by blast
qed

end
