(* ===== verification/LinkProps.thy ===== *)
theory LinkProps
  imports StaffProps SessionProps Cart
begin

text \<open>
  A link that has been used stays used, whatever is asked afterwards; what the reset of a password
  and the acceptance of an invitation change; and three things an invitation can do that the
  rules of a team do not allow.
\<close>

section \<open>Requests about accounts\<close>

datatype account_request =
    Send_Verification draw string
  | Verify_Email string
  | Request_Reset draw string
  | Reset_Password string string
  | Change_Password string string string
  | Revoke_Session string string
  | Revoke_All string
  | Invite draw string string membership_role string
  | Accept string string accept_input
  | Team staff_request
  | Apply string application_input
  | Approve draw string string string string "string option"
  | Reject string string string

fun account_run :: "crypto \<Rightarrow> int \<Rightarrow> account_request \<Rightarrow> people \<Rightarrow> people" where
  "account_run cr now (Send_Verification dw email) pe = snd (sendVerificationEmail cr now dw email pe)"
| "account_run cr now (Verify_Email token) pe = snd (verifyEmail cr now token pe)"
| "account_run cr now (Request_Reset dw email) pe = snd (requestPasswordReset cr now dw email pe)"
| "account_run cr now (Reset_Password token pw) pe = snd (resetPassword cr now token pw pe)"
| "account_run cr now (Change_Password u old new) pe = snd (changePassword cr now u old new pe)"
| "account_run cr now (Revoke_Session u f) pe = snd (revokeSession now u f pe)"
| "account_run cr now (Revoke_All u) pe = snd (account_revokeAllSessions now u pe)"
| "account_run cr now (Invite dw s email r inviter) pe = snd (invite cr now dw s email r inviter pe)"
| "account_run cr now (Accept nu nm input) pe = snd (accept_invite cr now nu nm input pe)"
| "account_run cr now (Team rq) pe = staff_run now rq pe"
| "account_run cr now (Apply i input) pe = snd (submit_application now i input pe)"
| "account_run cr now (Approve dw s i r slug note) pe = snd (approve_application cr now dw s i r slug note pe)"
| "account_run cr now (Reject i r note) pe = snd (reject_application now i r note pe)"

inductive account_steps :: "crypto \<Rightarrow> people \<Rightarrow> people \<Rightarrow> bool" for cr where
  account_refl: "account_steps cr pe pe"
| account_next: "account_steps cr pe p1 \<Longrightarrow> account_steps cr pe (account_run cr now rq p1)"

section \<open>Used links\<close>

definition spent :: "string \<Rightarrow> people \<Rightarrow> bool" where
  "spent h pe \<longleftrightarrow> (\<exists>v \<in> set (pe_links pe). vt_hash v = h) \<and>
     (\<forall>v \<in> set (pe_links pe). vt_hash v = h \<longrightarrow> vt_consumed v \<noteq> None)"

lemma spent_cong: "pe_links pe' = pe_links pe \<Longrightarrow> spent h pe' = spent h pe"
  by (simp add: spent_def)

lemma spent_marking:
  assumes "spent h pe" and "pe_links pe' = update_where p (\<lambda>v. v\<lparr>vt_consumed := Some now\<rparr>) (pe_links pe)"
  shows "spent h pe'"
proof -
  obtain v where "v \<in> set (pe_links pe)" "vt_hash v = h" using assms(1) by (auto simp: spent_def)
  then have "\<exists>x \<in> set (pe_links pe'). vt_hash x = h"
    unfolding assms(2) set_update_where by (intro bexI [of _ "if p v then v\<lparr>vt_consumed := Some now\<rparr> else v"]) auto
  moreover have "vt_consumed x \<noteq> None" if "x \<in> set (pe_links pe')" "vt_hash x = h" for x
    using that assms(1) unfolding assms(2) set_update_where spent_def by (auto split: if_splits)
  ultimately show ?thesis by (simp add: spent_def)
qed

lemma spent_issue: "spent h pe \<Longrightarrow> spent h (snd (issue_link cr now dw k email u pl pe))"
  by (auto simp: issue_link_def spent_def)

lemma spent_invalidate: "spent h pe \<Longrightarrow> spent h (snd (invalidateOutstanding now email k pe))"
  by (rule spent_marking) (simp_all add: invalidateOutstanding_def)

lemma spent_consume: "spent h pe \<Longrightarrow> spent h (snd (consume_link cr now token pe))"
  by (rule spent_marking) (simp_all add: consume_link_def)

text \<open>Everything else leaves the links alone.\<close>

lemma links_kept [simp]:
  "pe_links (send_mail m pe) = pe_links pe" "pe_links (pe_record en pe) = pe_links pe"
  "pe_links (set_user u f pe) = pe_links pe" "pe_links (sign_out_everywhere now u pe) = pe_links pe"
  "pe_links (update_member i g pe) = pe_links pe"
  "pe_links (review_application i st now r note s pe) = pe_links pe"
  "pe_links (join_store now nm u account email iv pe) = pe_links pe"
  by (simp_all add: send_mail_def pe_record_def set_user_def sign_out_everywhere_def update_member_def
      review_application_def join_store_def)

lemma spent_kept [simp]:
  "spent h (send_mail m pe) = spent h pe" "spent h (pe_record en pe) = spent h pe"
  "spent h (set_user u f pe) = spent h pe" "spent h (sign_out_everywhere now u pe) = spent h pe"
  "spent h (update_member i g pe) = spent h pe"
  "spent h (review_application i st now r note s pe) = spent h pe"
  "spent h (join_store now nm u account email iv pe) = spent h pe"
  "spent h (pe\<lparr>pe_stores := ss\<rparr>) = spent h pe" "spent h (pe\<lparr>pe_applications := xs\<rparr>) = spent h pe"
  "spent h (pe\<lparr>pe_overrides := os\<rparr>) = spent h pe" "spent h (pe\<lparr>pe_auth := a\<rparr>) = spent h pe"
  by (simp_all add: spent_def)

text \<open>A link that is reissued: what is left is the new one's outcome and a message.\<close>

lemma spent_reissue:
  assumes "spent h pe"
    and "issue_link cr now dw k email u pl (snd (invalidateOutstanding now addr k' pe)) = (r, p1)"
  shows "spent h p1"
  using spent_issue [OF spent_invalidate [OF assms(1)], of cr now dw k email u pl now addr k'] assms(2) by simp

lemma spent_sendVerification: "spent h pe \<Longrightarrow> spent h (snd (sendVerificationEmail cr now dw email pe))"
  unfolding sendVerificationEmail_def
  by (auto split: option.split prod.split sum.split dest: spent_reissue)

lemma spent_requestReset: "spent h pe \<Longrightarrow> spent h (snd (requestPasswordReset cr now dw email pe))"
  unfolding requestPasswordReset_def Let_def
  by (auto split: option.split prod.split sum.split dest: spent_reissue)

lemma spent_invite: "spent h pe \<Longrightarrow> spent h (snd (invite cr now dw s email r i pe))"
  unfolding invite_def Let_def
  by (auto split: option.split prod.split sum.split dest: spent_reissue)

lemma spent_used: "spent h pe \<Longrightarrow> consume_link cr now token pe = (b, p1) \<Longrightarrow> spent h p1"
  using spent_consume [of h pe cr now token] by simp

lemma spent_verify: "spent h pe \<Longrightarrow> spent h (snd (verifyEmail cr now token pe))"
  unfolding verifyEmail_def
  by (auto split: option.split prod.split bool.split dest: spent_used)

lemma spent_reset: "spent h pe \<Longrightarrow> spent h (snd (resetPassword cr now token pw pe))"
  unfolding resetPassword_def
  by (auto split: option.split prod.split bool.split sum.split dest: spent_used)

lemma spent_accept: "spent h pe \<Longrightarrow> spent h (snd (accept_invite cr now nu nm input pe))"
  unfolding accept_invite_def Let_def
  by (auto split: option.split prod.split bool.split sum.split dest: spent_used)

lemma spent_change: "spent h pe \<Longrightarrow> spent h (snd (changePassword cr now u old new pe))"
  unfolding changePassword_def by (auto split: option.split sum.split)

lemma spent_staff: "spent h pe \<Longrightarrow> spent h (staff_run now rq pe)"
  by (cases rq) (auto simp: changeRole_def changeStatus_def setOverrides_def Let_def split: sum.split)

lemma spent_approve: "spent h pe \<Longrightarrow> spent h (snd (approve_application cr now dw s i r slug note pe))"
proof -
  assume h: "spent h pe"
  let ?pe1 = "\<lambda>x. pe_record (audit_entry_of ''store_application.approved'' HIGH s None ''store'' s)
    (review_application i AP_APPROVED now r note (Some s)
      (pe\<lparr>pe_stores := pe_stores pe @ [new_store s (map lower_char (js_trim slug)) r x]\<rparr>))"
  have "spent h (snd (invite cr now dw s (ap_email x) STORE_ADMIN r (?pe1 x)))" for x
    by (rule spent_invite) (simp add: h)
  then have "spent h p2" if "invite cr now dw s (ap_email x) STORE_ADMIN r (?pe1 x) = (y, p2)" for x y p2
    using that by (metis snd_conv)
  then show ?thesis using h
    unfolding approve_application_def Let_def by (auto split: sum.split prod.split)
qed

lemma spent_run: "spent h pe \<Longrightarrow> spent h (account_run cr now rq pe)"
  by (cases rq) (auto simp: spent_sendVerification spent_verify spent_requestReset spent_reset spent_change
      spent_invite spent_accept spent_staff spent_approve revokeSession_def account_revokeAllSessions_def
      submit_application_def reject_application_def Let_def split: sum.split application_status.split)

lemma spent_steps: "account_steps cr pe pe' \<Longrightarrow> spent h pe \<Longrightarrow> spent h pe'"
  by (induction rule: account_steps.induct) (auto intro: spent_run)

definition links_ok :: "people \<Rightarrow> bool" where
  "links_ok pe \<longleftrightarrow> distinct (map vt_hash (pe_links pe))"

text \<open>Redeeming a link finds it unused and in time, and marks it.\<close>

lemma consumed:
  assumes "consume_link cr now token pe = (True, p1)" and "links_ok pe"
  shows "\<exists>v. resolve_link cr token pe = Some v \<and> vt_consumed v = None \<and> now < vt_expires v"
    and "spent (cr_sha cr token) p1" and "p1 = pe\<lparr>pe_links := pe_links p1\<rparr>"
proof -
  let ?h = "cr_sha cr token"
  have p1: "p1 = pe\<lparr>pe_links := update_where (redeemable now ?h) (\<lambda>v. v\<lparr>vt_consumed := Some now\<rparr>) (pe_links pe)\<rparr>"
    and "count_where (redeemable now ?h) (pe_links pe) \<noteq> 0"
    using assms(1) by (auto simp: consume_link_def)
  then obtain v where v: "v \<in> set (pe_links pe)" "redeemable now ?h v" by (auto simp: count_where_0_iff)
  have only: "x = v" if "x \<in> set (pe_links pe)" "vt_hash x = ?h" for x
    using distinct_map_eq [of vt_hash "pe_links pe" x v] assms(2) that v by (simp add: links_ok_def redeemable_def)
  have "find (\<lambda>x. vt_hash x = ?h) (pe_links pe) \<noteq> None"
    using v by (auto simp: find_None_iff redeemable_def)
  then obtain y where y: "resolve_link cr token pe = Some y" by (auto simp: resolve_link_def)
  then have "y = v" using only findD by (fastforce simp: resolve_link_def)
  then show "\<exists>v. resolve_link cr token pe = Some v \<and> vt_consumed v = None \<and> now < vt_expires v"
    using y v by (auto simp: redeemable_def)
  have "v\<lparr>vt_consumed := Some now\<rparr> \<in> set (pe_links p1)"
    using v by (auto simp: p1 intro!: in_update_where)
  moreover have "vt_consumed x \<noteq> None" if "x \<in> set (pe_links p1)" "vt_hash x = ?h" for x
    using that only v unfolding p1 by (auto simp: set_update_where split: if_splits)
  moreover have "vt_hash (v\<lparr>vt_consumed := Some now\<rparr>) = ?h" using v(2) by (simp add: redeemable_def)
  ultimately show "spent ?h p1" unfolding spent_def by blast
  show "p1 = pe\<lparr>pe_links := pe_links p1\<rparr>" by (simp add: p1)
qed

lemma spent_refused:
  assumes "spent (cr_sha cr token) pe"
  shows "consume_link cr now token pe = (False, pe)"
proof -
  have none: "\<not> redeemable now (cr_sha cr token) v" if "v \<in> set (pe_links pe)" for v
    using assms that by (auto simp: spent_def redeemable_def)
  then have "count_where (redeemable now (cr_sha cr token)) (pe_links pe) = 0" by (simp add: count_where_0_iff)
  moreover have "update_where (redeemable now (cr_sha cr token)) (\<lambda>v. v\<lparr>vt_consumed := Some now\<rparr>) (pe_links pe) =
      pe_links pe" using none by (rule update_where_id)
  ultimately show ?thesis by (simp add: consume_link_def)
qed

lemma spent_reset_refused:
  "spent (cr_sha cr token) pe \<Longrightarrow> \<exists>e. resetPassword cr now token pw pe = (Inl e, pe)"
  using spent_refused [of cr token pe now]
  by (auto simp: resetPassword_def split: option.split sum.split)

lemma spent_accept_refused:
  "spent (cr_sha cr (ai_token input)) pe \<Longrightarrow> \<exists>e. accept_invite cr now nu nm input pe = (Inl e, pe)"
  using spent_refused [of cr "ai_token input" pe now]
  by (auto simp: accept_invite_def Let_def split: option.split sum.split)

section \<open>A new password\<close>

text \<open>
  C29. A reset that succeeds used a link of that kind that was unused and in time, gives its account
  the new password and no other account anything, ends every session of that account and no other
  session, and can never be repeated: whatever requests follow, the same link is refused and
  changes nothing.
\<close>

theorem reset_link_works_once:
  assumes "resetPassword cr now token pw pe = (Inr (), pe')" and "links_ok pe"
    and "account_steps cr pe' later"
  shows "\<exists>v u. resolve_link cr token pe = Some v \<and> vt_type v = PW_RESET \<and> vt_user v = Some u \<and>
      vt_consumed v = None \<and> now < vt_expires v \<and>
      a_users (pe_auth pe') = map (\<lambda>x. if u_id x = u then x\<lparr>u_hash := Some (cr_hash cr pw)\<rparr> else x)
        (a_users (pe_auth pe)) \<and>
      a_tokens (pe_auth pe') = map (\<lambda>t. if rt_user t = u \<and> rt_revoked t = None then t\<lparr>rt_revoked := Some now\<rparr> else t)
        (a_tokens (pe_auth pe)) \<and>
      (\<exists>e. resetPassword cr now' token pw' later = (Inl e, later))"
proof -
  obtain v u p1 where v: "resolve_link cr token pe = Some v" "vt_type v = PW_RESET" "vt_user v = Some u"
    and use: "consume_link cr now token pe = (True, p1)"
    and pe': "pe' = send_mail (PasswordChanged (vt_email v)) (sign_out_everywhere now u
      (set_user u (\<lambda>u. u\<lparr>u_hash := Some (cr_hash cr pw)\<rparr>) p1))"
    using assms(1) by (auto simp: resetPassword_def split: option.splits if_splits sum.splits prod.splits bool.splits)
  note c = consumed [OF use assms(2)]
  have "pe_auth p1 = pe_auth pe" by (subst c(3)) simp
  then have "a_users (pe_auth pe') = map (\<lambda>x. if u_id x = u then x\<lparr>u_hash := Some (cr_hash cr pw)\<rparr> else x)
        (a_users (pe_auth pe))"
    "a_tokens (pe_auth pe') = map (\<lambda>t. if rt_user t = u \<and> rt_revoked t = None then t\<lparr>rt_revoked := Some now\<rparr> else t)
        (a_tokens (pe_auth pe))"
    by (simp_all add: pe' send_mail_def sign_out_everywhere_def set_user_def update_user_def revokeAllSessions_def
        revoke_where_def update_where_def)
  moreover have "spent (cr_sha cr token) pe'" using c(2) by (simp add: pe')
  from spent_reset_refused [OF spent_steps [OF assms(3) this]]
  have "\<exists>e. resetPassword cr now' token pw' later = (Inl e, later)" .
  ultimately show ?thesis using v c(1) by auto
qed

section \<open>An invitation\<close>

lemma upsert_member_there:
  "\<exists>m. find (\<lambda>m. m_store m = iv_store iv \<and> m_user m = u) (upsert_member now nm u iv rows) = Some m \<and>
     m_role m = iv_role iv \<and> m_status m = MS_ACTIVE"
proof -
  let ?mine = "\<lambda>m. m_store m = iv_store iv \<and> m_user m = u"
  let ?rows = "upsert_member now nm u iv rows"
  let ?join = "\<lambda>m. m\<lparr>m_role := iv_role iv, m_status := MS_ACTIVE, m_accepted := Some now\<rparr>"
  have both: "(\<exists>m \<in> set ?rows. ?mine m) \<and> (\<forall>m \<in> set ?rows. ?mine m \<longrightarrow> m_role m = iv_role iv \<and> m_status m = MS_ACTIVE)"
  proof (cases "\<exists>m \<in> set rows. ?mine m")
    case True
    then have rows: "?rows = update_where ?mine ?join rows" by (simp add: upsert_member_def)
    obtain m where m: "m \<in> set rows" "?mine m" using True by blast
    have "?join m \<in> set ?rows" unfolding rows using m by (intro in_update_where) auto
    moreover have "?mine (?join m)" using m by simp
    moreover have "m_role x = iv_role iv \<and> m_status x = MS_ACTIVE" if x: "x \<in> set ?rows" "?mine x" for x
    proof -
      obtain y where "y \<in> set rows" "x = (if ?mine y then ?join y else y)"
        using x(1) unfolding rows set_update_where by blast
      then show ?thesis using x(2) by (cases "?mine y") simp_all
    qed
    ultimately show ?thesis by blast
  next
    case False
    then show ?thesis unfolding upsert_member_def if_not_P [OF False] by auto
  qed
  then have all: "m_role m = iv_role iv \<and> m_status m = MS_ACTIVE" if "m \<in> set ?rows" "?mine m" for m
    using that by blast
  have "\<exists>m \<in> set ?rows. ?mine m" using both by blast
  then obtain m where "find ?mine ?rows = Some m" using find_None_iff [of ?mine ?rows] by (cases "find ?mine ?rows") auto
  moreover have "m \<in> set ?rows" "?mine m" using findD [OF calculation] by auto
  ultimately show ?thesis using all by blast
qed


lemma upsert_others_same:
  "filter (\<lambda>m. \<not> (m_store m = iv_store iv \<and> m_user m = u)) (upsert_member now nm u iv rows) =
     filter (\<lambda>m. \<not> (m_store m = iv_store iv \<and> m_user m = u)) rows"
proof (cases "\<exists>m \<in> set rows. m_store m = iv_store iv \<and> m_user m = u")
  case True
  have "filter (\<lambda>m. \<not> (m_store m = iv_store iv \<and> m_user m = u)) (update_where (\<lambda>m. m_store m = iv_store iv \<and> m_user m = u)
      (\<lambda>m. m\<lparr>m_role := iv_role iv, m_status := MS_ACTIVE, m_accepted := Some now\<rparr>) xs) =
    filter (\<lambda>m. \<not> (m_store m = iv_store iv \<and> m_user m = u)) xs" for xs
    by (induction xs) auto
  then show ?thesis using True by (simp add: upsert_member_def)
next
  case False
  then show ?thesis unfolding upsert_member_def if_not_P [OF False] by simp
qed

text \<open>
  C30. An accepted invitation was unused and in time.  It makes the account of the address it was
  sent to an active member of the store it names, in the role it names, and changes no other
  membership and no session; when the address had no account one is opened with the name and the
  password the invitee chose, otherwise no account changes.  Whatever follows, the same
  invitation cannot be accepted again.
\<close>

theorem invitation_admits_once:
  assumes "accept_invite cr now nu nm input pe = (Inr (u, s), pe')" and "links_ok pe"
    and "account_steps cr pe' later" and "ai_token input' = ai_token input"
  shows "\<exists>v iv. resolve_invite cr (ai_token input) pe = Inr (v, iv) \<and> s = iv_store iv \<and>
      vt_consumed v = None \<and> now < vt_expires v \<and>
      (\<exists>m. member_in s u pe' = Some m \<and> m_role m = iv_role iv \<and> m_status m = MS_ACTIVE) \<and>
      filter (\<lambda>m. \<not> (m_store m = s \<and> m_user m = u)) (members pe') =
        filter (\<lambda>m. \<not> (m_store m = s \<and> m_user m = u)) (members pe) \<and>
      a_tokens (pe_auth pe') = a_tokens (pe_auth pe) \<and>
      (case findUserByEmail (vt_email v) (pe_auth pe) of
         Some x \<Rightarrow> u = u_id x \<and> a_users (pe_auth pe') = a_users (pe_auth pe)
       | None \<Rightarrow> u = nu \<and> (\<exists>x name password. a_users (pe_auth pe') = a_users (pe_auth pe) @ [x] \<and>
           u_id x = nu \<and> u_email x = vt_email v \<and> ai_name input = Some name \<and> u_name x = js_trim name \<and>
           ai_password input = Some password \<and> u_hash x = Some (cr_hash cr password))) \<and>
      (\<exists>e. accept_invite cr now' nu' nm' input' later = (Inl e, later))"
proof -
  obtain v iv where inv: "resolve_invite cr (ai_token input) pe = Inr (v, iv)"
    using assms(1) by (auto simp: accept_invite_def split: sum.splits prod.splits)
  define existing where "existing = findUserByEmail (vt_email v) (pe_auth pe)"
  obtain account p1 where who: "(case findUserByEmail (vt_email v) (pe_auth pe) of Some x \<Rightarrow> Inr (u_id x, None)
      | None \<Rightarrow> mapE (\<lambda>a. (nu, Some a)) (new_account cr input (vt_email v))) = Inr (u, account)"
    and use: "consume_link cr now (ai_token input) pe = (True, p1)"
    and s: "s = iv_store iv" and pe': "pe' = join_store now nm u account (vt_email v) iv p1"
    using assms(1) unfolding accept_invite_def inv Let_def
    by (auto split: sum.splits prod.splits bool.splits if_splits)
  note c = consumed [OF use assms(2)]
  have auth: "pe_auth p1 = pe_auth pe" by (subst c(3)) simp
  have "resolve_link cr (ai_token input) pe = Some v"
    using inv by (auto simp: resolve_invite_def split: option.splits if_splits)
  then have time: "vt_consumed v = None" "now < vt_expires v" using c(1) by auto
  have mem: "members pe' = upsert_member now nm u iv (members pe)"
    and tok: "a_tokens (pe_auth pe') = a_tokens (pe_auth pe)"
    by (simp_all add: pe' join_store_def auth)
  have users: "case existing of
      Some x \<Rightarrow> u = u_id x \<and> a_users (pe_auth pe') = a_users (pe_auth pe)
    | None \<Rightarrow> u = nu \<and> (\<exists>x name password. a_users (pe_auth pe') = a_users (pe_auth pe) @ [x] \<and>
        u_id x = nu \<and> u_email x = vt_email v \<and> ai_name input = Some name \<and> u_name x = js_trim name \<and>
        ai_password input = Some password \<and> u_hash x = Some (cr_hash cr password))"
    using who unfolding existing_def [symmetric] by (cases existing)
      (auto simp: pe' join_store_def auth new_account_def present_def split: option.splits if_splits)
  have "spent (cr_sha cr (ai_token input')) pe'" using c(2) by (simp add: pe' assms(4))
  from spent_accept_refused [OF spent_steps [OF assms(3) this]]
  have again: "\<exists>e. accept_invite cr now' nu' nm' input' later = (Inl e, later)" .
  show ?thesis
    using inv s time tok users again upsert_member_there [of iv u now nm "members pe"]
      upsert_others_same [of iv u now nm "members pe"]
    unfolding existing_def member_in_def mem by (intro exI [of _ v] exI [of _ iv]) simp
qed

section \<open>A team under its rules\<close>

text \<open>
  C28. Whatever sequence of role changes, suspensions and permission changes a team goes through: a
  store that had an active owner has one; a member may do only what the defaults of the role and
  the grants allowed to it contain, never what is denied to the member or belongs to the platform;
  and who is not an active member may do nothing.
\<close>

theorem staff_changes_guarded:
  assumes "staff_steps pe pe'" and "team_inv pe"
  shows "(\<forall>s. owner_ids s pe \<noteq> {} \<longrightarrow> owner_ids s pe' \<noteq> {}) \<and>
    (\<forall>u s p. p \<in> effectiveFor u s pe' \<longrightarrow> \<not> isPlatformPermission p \<and>
      (\<exists>m. member_in s u pe' = Some m \<and> m_status m = MS_ACTIVE \<and>
        p \<in> set (ROLE_DEFAULT_PERMISSIONS (m_role m)) \<union> set (ROLE_OPTIONAL_GRANT_SUPERSET (m_role m)) \<and>
        \<not> (\<exists>o1 \<in> set (pe_overrides pe'). mo_member o1 = m_id m \<and> mo_permission o1 = p \<and> mo_effect o1 = DENY)))"
proof -
  have kept: "kept_team pe pe'" by (rule staff_steps_kept [OF assms])
  then have inv: "team_inv pe'" by (simp add: kept_team_def)
  have "\<not> isPlatformPermission p" if "p \<in> effectiveFor u s pe'" for u s p
    using effective_within [OF inv that] defaults_not_platform superset_not_platform by blast
  then show ?thesis using kept effective_within [OF inv] unfolding kept_team_def by blast
qed

section \<open>Examples\<close>

definition staff_member :: "string \<Rightarrow> string \<Rightarrow> membership_role \<Rightarrow> membership_status \<Rightarrow> membership" where
  "staff_member i u r st = \<lparr>m_id = i, m_store = ''s1'', m_user = u, m_role = r, m_status = st,
     m_invited_by = None, m_accepted = None\<rparr>"

definition person :: "string \<Rightarrow> string \<Rightarrow> user" where
  "person i email = \<lparr>u_id = i, u_email = email, u_name = i, u_hash = Some ''correct horse'',
     u_status = U_ACTIVE, u_super = False, u_deleted = False, u_last_login = None, u_totp = None,
     u_mfa_at = None, u_verified = None\<rparr>"

text \<open>Ann and Bob have accounts; there are two stores.\<close>

definition village :: "membership list \<Rightarrow> member_override list \<Rightarrow> people" where
  "village ms os =
     \<lparr>pe_auth = \<lparr>a_users = [person ''u1'' ''ann@example.test'', person ''u2'' ''bob@example.test''],
        a_tokens = [], a_codes = [], a_members = ms\<rparr>,
      pe_links = [], pe_overrides = os,
      pe_stores = [sample_store ACTIVE, (sample_store ACTIVE)\<lparr>s_id := ''s2'', s_slug := ''coffee''\<rparr>],
      pe_applications = [], pe_mail = [], pe_audit = []\<rparr>"

definition no_team :: people where
  "no_team = village [] []"

definition asked_reset :: people where
  "asked_reset = snd (requestPasswordReset toy 1 (sample_draw ''k1'') '' Ann@example.test'' no_team)"

definition has_reset :: people where
  "has_reset = snd (resetPassword toy 2 ''k1'' ''staple battery'' asked_reset)"

theorem reset_link_works_once_witness:
  "\<exists>e. resetPassword toy 3 ''k1'' ''battery staple'' has_reset = (Inl e, has_reset)"
proof -
  have "okE (fst (resetPassword toy 2 ''k1'' ''staple battery'' asked_reset))" by code_simp
  then have run: "resetPassword toy 2 ''k1'' ''staple battery'' asked_reset = (Inr (), has_reset)"
    by (cases "resetPassword toy 2 ''k1'' ''staple battery'' asked_reset") (auto simp: has_reset_def okE_iff)
  have "links_ok asked_reset" by code_simp
  from reset_link_works_once [OF run this account_refl] show ?thesis by blast
qed

definition invited :: people where
  "invited = snd (invite toy 1 (sample_draw ''i1'') ''s1'' ''carol@example.test'' CLERK ''u1'' no_team)"

definition carol :: accept_input where
  "carol = \<lparr>ai_token = ''i1'', ai_password = Some ''staple battery'', ai_name = Some ''Carol'', ai_user = None\<rparr>"

definition joined :: people where
  "joined = snd (accept_invite toy 2 ''u3'' ''m3'' carol invited)"

theorem invitation_admits_once_witness:
  "(\<exists>m. member_in ''s1'' ''u3'' joined = Some m \<and> m_role m = CLERK) \<and>
   (\<exists>e. accept_invite toy 3 ''u4'' ''m4'' carol joined = (Inl e, joined))"
proof -
  have "fst (accept_invite toy 2 ''u3'' ''m3'' carol invited) = Inr (''u3'', ''s1'')" by code_simp
  then have run: "accept_invite toy 2 ''u3'' ''m3'' carol invited = (Inr (''u3'', ''s1''), joined)"
    by (cases "accept_invite toy 2 ''u3'' ''m3'' carol invited") (simp add: joined_def)
  have role: "mapE (\<lambda>(v, iv). iv_role iv) (resolve_invite toy (ai_token carol) invited) = Inr CLERK" by code_simp
  have "links_ok invited" by code_simp
  from invitation_admits_once [OF run this account_refl refl, of 3 "''u4''" "''m4''"]
  obtain v iv where "resolve_invite toy (ai_token carol) invited = Inr (v, iv)" "''s1'' = iv_store iv"
    and m: "\<exists>m. member_in ''s1'' ''u3'' joined = Some m \<and> m_role m = iv_role iv"
    and again: "\<exists>e. accept_invite toy 3 ''u4'' ''m4'' carol joined = (Inl e, joined)"
    by blast
  then have "iv_role iv = CLERK" using role by simp
  then show ?thesis using m again by simp
qed

definition small_team :: people where
  "small_team = village [staff_member ''m1'' ''u1'' STORE_ADMIN MS_ACTIVE, staff_member ''m2'' ''u2'' CLERK MS_ACTIVE] []"

definition trusted :: people where
  "trusted = staff_run 5 (Set_Overrides ''s1'' ''m2'' [OrdersRefund] [] ''u1'') small_team"

theorem staff_changes_guarded_witness:
  "owner_ids ''s1'' trusted \<noteq> {} \<and> OrdersRefund \<in> effectiveFor ''u2'' ''s1'' trusted \<and>
   \<not> isPlatformPermission OrdersRefund"
proof -
  have inv: "team_inv small_team"
    by (simp add: small_team_def village_def staff_member_def team_inv_def within_role_def)
  have steps: "staff_steps small_team trusted" unfolding trusted_def by (intro staff_steps.intros)
  have may: "OrdersRefund \<in> effectiveFor ''u2'' ''s1'' trusted" by code_simp
  have "staff_member ''m1'' ''u1'' STORE_ADMIN MS_ACTIVE \<in> set (members small_team)"
    by (simp add: small_team_def village_def)
  then have "owner_ids ''s1'' small_team \<noteq> {}" unfolding owner_ids_def by (force simp: staff_member_def)
  then show ?thesis using staff_changes_guarded [OF steps inv] may by blast
qed

section \<open>What an invitation goes round\<close>

text \<open>An invitation to one store ends the invitation to another that the same address still holds.\<close>

theorem second_invitation_cancels_first:
  "fst (accept_invite toy 3 ''u3'' ''m3'' carol invited) = Inr (''u3'', ''s1'') \<and>
   fst (accept_invite toy 3 ''u3'' ''m3'' carol
     (snd (invite toy 2 (sample_draw ''i2'') ''s2'' ''carol@example.test'' CLERK ''u2'' invited))) =
     Inl invalidInvite"
  by code_simp

text \<open>
  A suspended member who is invited again in another role keeps the exceptions made for the old
  one, and one grant outside the new role takes every permission away.
\<close>

definition bob :: "string \<Rightarrow> accept_input" where
  "bob token = \<lparr>ai_token = token, ai_password = None, ai_name = None, ai_user = Some ''u2''\<rparr>"

definition reinvited :: people where
  "reinvited = snd (accept_invite toy 2 ''u3'' ''m3'' (bob ''i1'')
     (snd (invite toy 1 (sample_draw ''i1'') ''s1'' ''bob@example.test'' CLERK ''u1''
       (village [staff_member ''m1'' ''u1'' STORE_ADMIN MS_ACTIVE,
                 staff_member ''m2'' ''u2'' INVENTORY_MANAGER MS_SUSPENDED]
          [\<lparr>mo_member = ''m2'', mo_permission = CatalogPublish, mo_effect = GRANT, mo_granted_by = None\<rparr>]))))"

theorem reinvited_member_locked_out:
  "map_option (\<lambda>m. (m_role m, m_status m)) (member_in ''s1'' ''u2'' reinvited) = Some (CLERK, MS_ACTIVE) \<and>
   effectiveFor ''u2'' ''s1'' reinvited = {}"
  by code_simp

text \<open>
  An invitation accepted late takes the last owner of a store away: Bob is invited as a clerk while
  suspended, then becomes the only active owner, then accepts.
\<close>

definition bob_alone :: people where
  "bob_alone = staff_run 3 (Change_Status ''s1'' ''m1'' MS_SUSPENDED ''u2'')
     (staff_run 2 (Change_Status ''s1'' ''m2'' MS_ACTIVE ''u1'')
       (snd (invite toy 1 (sample_draw ''i1'') ''s1'' ''bob@example.test'' CLERK ''u1''
         (village [staff_member ''m1'' ''u1'' STORE_ADMIN MS_ACTIVE,
                   staff_member ''m2'' ''u2'' STORE_ADMIN MS_SUSPENDED] []))))"

theorem invitation_takes_last_owner:
  "map (\<lambda>m. (m_role m, m_status m)) (members bob_alone) =
     [(STORE_ADMIN, MS_SUSPENDED), (STORE_ADMIN, MS_ACTIVE)] \<and>
   map (\<lambda>m. (m_role m, m_status m)) (members (snd (accept_invite toy 4 ''u3'' ''m3'' (bob ''i1'') bob_alone))) =
     [(STORE_ADMIN, MS_SUSPENDED), (CLERK, MS_ACTIVE)]"
  by code_simp

end
