(* ===== verification/Rollup.thy ===== *)
theory Rollup
  imports Sessions
begin

text \<open>
  The daily figures (\<open>modules/reports/sales-rollup.service.ts\<close>): three tables that the scheduled pass
  and a backfill recompute from orders, their lines and refunds.  A date is the number of days
  since 1970, a moment the number of milliseconds; the offset of a time zone at a moment is the
  database's and a parameter, as is the collation of text.  The accounts are the table of
  \<open>Sessions\<close>.  The totals are integers; the tables keep them in 64 bits.
\<close>

section \<open>Days\<close>

definition ONE_DAY :: int where
  "ONE_DAY = 86400000"

text \<open>\<open>(t AT TIME ZONE zone)::date\<close>\<close>

definition local_day :: "(string \<Rightarrow> int \<Rightarrow> int) \<Rightarrow> string \<Rightarrow> int \<Rightarrow> int" where
  "local_day offset zone t = (t + offset zone t) div ONE_DAY"

record rollup_window =
  wn_from :: int
  wn_to :: int

text \<open>The plain test that lets an index cut the range, and the test that decides.\<close>

definition near_window :: "rollup_window \<Rightarrow> int \<Rightarrow> bool" where
  "near_window wn t \<longleftrightarrow> (wn_from wn - 1) * ONE_DAY \<le> t \<and> t < (wn_to wn + 2) * ONE_DAY"

definition day_in :: "rollup_window \<Rightarrow> int \<Rightarrow> bool" where
  "day_in wn d \<longleftrightarrow> wn_from wn \<le> d \<and> d \<le> wn_to wn"

section \<open>Tables\<close>

record daily_sales =
  dy_store :: string
  dy_date :: int
  dy_orders :: int
  dy_gross :: int
  dy_discounts :: int
  dy_tax :: int
  dy_refunds :: int
  dy_net :: int
  dy_pos :: int
  dy_online :: int
  dy_computed :: int

record daily_product =
  dp_store :: string
  dp_date :: int
  dp_key :: string
  dp_variant :: "string option"
  dp_name :: string
  dp_sku :: "string option"
  dp_units :: int
  dp_revenue :: int
  dp_computed :: int

record store_customer =
  sc_store :: string
  sc_customer :: string
  sc_name :: string
  sc_email :: string
  sc_orders :: int
  sc_lifetime :: int
  sc_first :: int
  sc_last :: int
  sc_computed :: int

record books =
  bk_days :: "daily_sales list"
  bk_products :: "daily_product list"
  bk_customers :: "store_customer list"

definition COUNTED_STATUSES :: "order_status list" where
  "COUNTED_STATUSES = [CONFIRMED, PREPARING, READY, PICKED_UP, OUT_FOR_DELIVERY, DELIVERED, REFUNDED, RETURNED]"

definition zone_of :: "string \<Rightarrow> world \<Rightarrow> string option" where
  "zone_of storeId w = map_option s_timezone (find (\<lambda>s. s_id s = storeId) (w_stores w))"

section \<open>Daily sales\<close>

definition window_orders ::
    "(string \<Rightarrow> int \<Rightarrow> int) \<Rightarrow> string \<Rightarrow> string \<Rightarrow> rollup_window \<Rightarrow> world \<Rightarrow> order list" where
  "window_orders offset zone storeId wn w =
     filter (\<lambda>x. o_store x = storeId \<and> o_status x \<in> set COUNTED_STATUSES \<and> near_window wn (o_placed_at x) \<and>
       day_in wn (local_day offset zone (o_placed_at x))) (w_orders w)"

definition window_refunds ::
    "(string \<Rightarrow> int \<Rightarrow> int) \<Rightarrow> string \<Rightarrow> string \<Rightarrow> rollup_window \<Rightarrow> world \<Rightarrow> refund list" where
  "window_refunds offset zone storeId wn w =
     filter (\<lambda>r. r_store r = storeId \<and> r_status r = RF_SUCCEEDED \<and> near_window wn (r_created r) \<and>
       day_in wn (local_day offset zone (r_created r))) (w_refunds w)"

text \<open>One group of the query: the orders and the refunds of a day.\<close>

definition day_row :: "string \<Rightarrow> int \<Rightarrow> int \<Rightarrow> order list \<Rightarrow> refund list \<Rightarrow> daily_sales" where
  "day_row storeId now d os rs =
     (let gross = sum_list (map o_subtotal os);
          discounts = sum_list (map o_discount os);
          refunds = sum_list (map r_amount rs)
      in \<lparr>dy_store = storeId, dy_date = d, dy_orders = int (length os), dy_gross = gross,
          dy_discounts = discounts, dy_tax = sum_list (map o_tax os), dy_refunds = refunds,
          dy_net = gross - discounts - refunds,
          dy_pos = int (count_where (\<lambda>x. o_channel x = POS) os),
          dy_online = int (count_where (\<lambda>x. o_channel x = ONLINE) os), dy_computed = now\<rparr>)"

text \<open>The days that have either, once each.\<close>

definition merged ::
    "(string \<Rightarrow> int \<Rightarrow> int) \<Rightarrow> int \<Rightarrow> string \<Rightarrow> string \<Rightarrow> rollup_window \<Rightarrow> world \<Rightarrow> daily_sales list" where
  "merged offset now zone storeId wn w =
     (let os = window_orders offset zone storeId wn w;
          rs = window_refunds offset zone storeId wn w;
          oday = (\<lambda>x. local_day offset zone (o_placed_at x));
          rday = (\<lambda>r. local_day offset zone (r_created r))
      in map (\<lambda>d. day_row storeId now d (filter (\<lambda>x. oday x = d) os) (filter (\<lambda>r. rday r = d) rs))
           (remdups (map oday os @ map rday rs)))"

text \<open>\<open>INSERT ... ON CONFLICT (store_id, date) DO UPDATE\<close>\<close>

definition upsert_day :: "daily_sales \<Rightarrow> daily_sales list \<Rightarrow> daily_sales list" where
  "upsert_day r rows =
     (if \<exists>x \<in> set rows. dy_store x = dy_store r \<and> dy_date x = dy_date r
      then update_where (\<lambda>x. dy_store x = dy_store r \<and> dy_date x = dy_date r) (\<lambda>_. r) rows
      else rows @ [r])"

definition recomputeStore ::
    "(string \<Rightarrow> int \<Rightarrow> int) \<Rightarrow> int \<Rightarrow> string \<Rightarrow> rollup_window \<Rightarrow> world \<Rightarrow> books \<Rightarrow> nat \<times> books" where
  "recomputeStore offset now storeId wn w bk =
     (case zone_of storeId w of
        None \<Rightarrow> (0, bk)
      | Some zone \<Rightarrow>
          let rows = merged offset now zone storeId wn w
          in (length rows, bk\<lparr>bk_days := fold upsert_day rows (bk_days bk)\<rparr>))"

section \<open>Daily lines\<close>

text \<open>A line with no variant is known by its name.\<close>

definition line_key :: "order_item \<Rightarrow> string" where
  "line_key i = (case oi_variant i of Some v \<Rightarrow> v | None \<Rightarrow> ''name:'' @ oi_name i)"

definition least_text :: "(string \<Rightarrow> nat) \<Rightarrow> string list \<Rightarrow> string option" where
  "least_text rank xs = (case sort_key rank xs of [] \<Rightarrow> None | x # _ \<Rightarrow> Some x)"

definition window_lines ::
    "(string \<Rightarrow> int \<Rightarrow> int) \<Rightarrow> string \<Rightarrow> string \<Rightarrow> rollup_window \<Rightarrow> world \<Rightarrow> (int \<times> order_item) list" where
  "window_lines offset zone storeId wn w =
     concat (map (\<lambda>i. map (\<lambda>x. (local_day offset zone (o_placed_at x), i))
         (filter (\<lambda>x. o_id x = oi_order i) (window_orders offset zone storeId wn w)))
       (filter (\<lambda>i. oi_store i = storeId) (w_items w)))"

definition line_group :: "int \<times> order_item \<Rightarrow> int \<times> string \<times> string option" where
  "line_group di = (case di of (d, i) \<Rightarrow> (d, line_key i, oi_variant i))"

definition product_row ::
    "(string \<Rightarrow> nat) \<Rightarrow> string \<Rightarrow> int \<Rightarrow> int \<times> string \<times> string option \<Rightarrow> order_item list \<Rightarrow> daily_product" where
  "product_row rank storeId now g is =
     (case g of (d, key, variant) \<Rightarrow>
       \<lparr>dp_store = storeId, dp_date = d, dp_key = key, dp_variant = variant,
        dp_name = or_else (least_text rank (map oi_name is)) [],
        dp_sku = least_text rank (concat (map (\<lambda>i. case oi_sku i of None \<Rightarrow> [] | Some s \<Rightarrow> [s]) is)),
        dp_units = sum_list (map oi_qty is), dp_revenue = sum_list (map oi_total is), dp_computed = now\<rparr>)"

text \<open>Cleared and rebuilt.\<close>

definition recomputeStoreProducts ::
    "(string \<Rightarrow> int \<Rightarrow> int) \<Rightarrow> (string \<Rightarrow> nat) \<Rightarrow> int \<Rightarrow> string \<Rightarrow> rollup_window \<Rightarrow> world \<Rightarrow> books \<Rightarrow> nat \<times> books" where
  "recomputeStoreProducts offset rank now storeId wn w bk =
     (let kept = filter (\<lambda>r. \<not> (dp_store r = storeId \<and> day_in wn (dp_date r))) (bk_products bk);
          lines = (case zone_of storeId w of None \<Rightarrow> [] | Some zone \<Rightarrow> window_lines offset zone storeId wn w);
          rows = map (\<lambda>g. product_row rank storeId now g (map snd (filter (\<lambda>di. line_group di = g) lines)))
                   (remdups (map line_group lines))
      in (length rows, bk\<lparr>bk_products := kept @ rows\<rparr>))"

section \<open>Customers\<close>

text \<open>Who ordered near the window, whatever became of the order.\<close>

definition seen_near :: "string \<Rightarrow> rollup_window \<Rightarrow> world \<Rightarrow> string list" where
  "seen_near storeId wn w =
     concat (map (\<lambda>x. case o_customer x of None \<Rightarrow> [] | Some c \<Rightarrow> [c])
       (filter (\<lambda>x. o_store x = storeId \<and> near_window wn (o_placed_at x)) (w_orders w)))"

definition orders_of_customer :: "string \<Rightarrow> string \<Rightarrow> world \<Rightarrow> order list" where
  "orders_of_customer storeId c w =
     filter (\<lambda>x. o_store x = storeId \<and> o_status x \<in> set COUNTED_STATUSES \<and> o_customer x = Some c) (w_orders w)"

definition customer_row ::
    "user list \<Rightarrow> string \<Rightarrow> int \<Rightarrow> string \<Rightarrow> order list \<Rightarrow> store_customer list" where
  "customer_row users storeId now c os =
     (case find (\<lambda>u. u_id u = c) users of
        None \<Rightarrow> []
      | Some u \<Rightarrow>
          if os = [] then []
          else [\<lparr>sc_store = storeId, sc_customer = c, sc_name = u_name u, sc_email = u_email u,
                 sc_orders = int (length os), sc_lifetime = sum_list (map (\<lambda>x. o_subtotal x - o_discount x) os),
                 sc_first = Min (set (map o_placed_at os)), sc_last = Max (set (map o_placed_at os)),
                 sc_computed = now\<rparr>])"

definition recomputeStoreCustomers ::
    "user list \<Rightarrow> int \<Rightarrow> string \<Rightarrow> rollup_window \<Rightarrow> world \<Rightarrow> books \<Rightarrow> nat \<times> books" where
  "recomputeStoreCustomers users now storeId wn w bk =
     (let seen = seen_near storeId wn w;
          kept = filter (\<lambda>r. \<not> (sc_store r = storeId \<and> sc_customer r \<in> set seen)) (bk_customers bk);
          rows = concat (map (\<lambda>c. customer_row users storeId now c (orders_of_customer storeId c w)) (remdups seen))
      in (length rows, bk\<lparr>bk_customers := kept @ rows\<rparr>))"

section \<open>The scheduled pass and the backfill\<close>

definition recompute_all ::
    "(string \<Rightarrow> int \<Rightarrow> int) \<Rightarrow> (string \<Rightarrow> nat) \<Rightarrow> user list \<Rightarrow> int \<Rightarrow> string \<Rightarrow>
     rollup_window \<Rightarrow> world \<Rightarrow> books \<Rightarrow> nat \<times> books" where
  "recompute_all offset rank users now storeId wn w bk =
     (case recomputeStore offset now storeId wn w bk of (n, b1) \<Rightarrow>
        (n, snd (recomputeStoreCustomers users now storeId wn w
              (snd (recomputeStoreProducts offset rank now storeId wn w b1)))))"

fun roll_stores ::
    "(string \<Rightarrow> int \<Rightarrow> int) \<Rightarrow> (string \<Rightarrow> nat) \<Rightarrow> user list \<Rightarrow> int \<Rightarrow> rollup_window \<Rightarrow>
     world \<Rightarrow> string list \<Rightarrow> books \<Rightarrow> nat \<times> books" where
  "roll_stores offset rank users now wn w [] bk = (0, bk)"
| "roll_stores offset rank users now wn w (s # ss) bk =
     (case recompute_all offset rank users now s wn w bk of (n, b1) \<Rightarrow>
        (case roll_stores offset rank users now wn w ss b1 of (k, b2) \<Rightarrow> (n + k, b2)))"

text \<open>The window is of days in UTC.\<close>

definition runIncremental ::
    "(string \<Rightarrow> int \<Rightarrow> int) \<Rightarrow> (string \<Rightarrow> nat) \<Rightarrow> user list \<Rightarrow> int \<Rightarrow> int \<Rightarrow> world \<Rightarrow>
     books \<Rightarrow> nat \<times> books" where
  "runIncremental offset rank users now days w bk =
     roll_stores offset rank users now
       \<lparr>wn_from = (now - days * ONE_DAY) div ONE_DAY, wn_to = now div ONE_DAY\<rparr> w
       (map s_id (filter (\<lambda>s. s_status s \<in> {ACTIVE, SUSPENDED}) (w_stores w))) bk"

text \<open>The calendar from 1970 on.\<close>

definition leap_year :: "int \<Rightarrow> bool" where
  "leap_year y \<longleftrightarrow> y mod 4 = 0 \<and> (y mod 100 \<noteq> 0 \<or> y mod 400 = 0)"

definition month_days :: "int \<Rightarrow> nat \<Rightarrow> int" where
  "month_days y m =
     (if m = 2 then (if leap_year y then 29 else 28) else if m \<in> {4, 6, 9, 11} then 30 else 31)"

lemma month_days_bounds: "28 \<le> month_days y m \<and> month_days y m \<le> 31"
  by (simp add: month_days_def)

text \<open>The year and the month a day is in and that month's first day, counting from one month on.\<close>

function month_from :: "int \<Rightarrow> nat \<Rightarrow> int \<Rightarrow> int \<Rightarrow> int \<times> nat \<times> int" where
  "month_from y m start d =
     (if d < start + month_days y m then (y, m, start)
      else month_from (if m = 12 then y + 1 else y) (if m = 12 then 1 else m + 1) (start + month_days y m) d)"
  by auto
termination
proof (relation "measure (\<lambda>(y, m, start, d). nat (d - start + 1))")
  fix y :: int and m :: nat and start d :: int
  assume "\<not> d < start + month_days y m"
  then show "((if m = 12 then y + 1 else y, if m = 12 then 1 else m + 1, start + month_days y m, d), y, m, start, d)
      \<in> measure (\<lambda>(y, m, start, d). nat (d - start + 1))"
    using month_days_bounds [of y m] by simp
qed simp

declare month_from.simps [simp del]

lemma month_from_here: "d < start + month_days y m \<Longrightarrow> month_from y m start d = (y, m, start)"
  by (simp add: month_from.simps)

lemma month_from_spans:
  assumes "start \<le> d" and "month_from y m start d = (y', m', start')"
  shows "start' \<le> d \<and> d < start' + month_days y' m' \<and> start \<le> start'"
  using assms
proof (induction y m start d arbitrary: y' m' start' rule: month_from.induct)
  case (1 y m start d)
  show ?case
  proof (cases "d < start + month_days y m")
    case True
    then show ?thesis using 1(2,3) by (simp add: month_from_here)
  next
    case False
    then have "start' \<le> d \<and> d < start' + month_days y' m' \<and> start + month_days y m \<le> start'"
      using 1(1) [of y' m' start'] 1(2,3) by (subst (asm) month_from.simps) auto
    then show ?thesis using month_days_bounds [of y m] by linarith
  qed
qed

definition month_of :: "int \<Rightarrow> int \<times> nat \<times> int" where
  "month_of d = month_from 1970 1 0 d"

definition month_end :: "int \<Rightarrow> int" where
  "month_end d = (case month_of d of (y, m, start) \<Rightarrow> start + month_days y m - 1)"

text \<open>\<open>n\<close> bounds the loop; the code has 600.\<close>

fun month_chunks :: "nat \<Rightarrow> int \<Rightarrow> int \<Rightarrow> rollup_window list" where
  "month_chunks 0 cursor final = []"
| "month_chunks (Suc n) cursor final =
     (if cursor \<le> final
      then let to = (if month_end cursor < final then month_end cursor else final)
           in \<lparr>wn_from = cursor, wn_to = to\<rparr> # month_chunks n (to + 1) final
      else [])"

definition monthlyChunks :: "rollup_window \<Rightarrow> rollup_window list" where
  "monthlyChunks wn = month_chunks 600 (wn_from wn) (wn_to wn)"

fun backfill_chunks ::
    "(string \<Rightarrow> int \<Rightarrow> int) \<Rightarrow> (string \<Rightarrow> nat) \<Rightarrow> user list \<Rightarrow> int \<Rightarrow> string \<Rightarrow>
     rollup_window list \<Rightarrow> world \<Rightarrow> books \<Rightarrow> nat \<times> books" where
  "backfill_chunks offset rank users now storeId [] w bk = (0, bk)"
| "backfill_chunks offset rank users now storeId (wn # wns) w bk =
     (case recompute_all offset rank users now storeId wn w bk of (n, b1) \<Rightarrow>
        (case backfill_chunks offset rank users now storeId wns w b1 of (k, b2) \<Rightarrow> (n + k, b2)))"

definition backfill ::
    "(string \<Rightarrow> int \<Rightarrow> int) \<Rightarrow> (string \<Rightarrow> nat) \<Rightarrow> user list \<Rightarrow> int \<Rightarrow> string \<Rightarrow>
     rollup_window \<Rightarrow> world \<Rightarrow> books \<Rightarrow> nat \<times> books" where
  "backfill offset rank users now storeId wn w bk =
     backfill_chunks offset rank users now storeId (monthlyChunks wn) w bk"

end
