(* ===== verification/RollupProps.thy ===== *)
theory RollupProps
  imports Rollup
begin

text \<open>
  What the daily figures say once the pass has run: the row of a day is the sum of the orders placed
  and of the refunds issued on that local day, the coarse test on the moment never drops one of
  them, other days and other shops keep their rows, and the months of a backfill cover its window.
\<close>

section \<open>The trade of a day\<close>

definition in_trade :: "string \<Rightarrow> order \<Rightarrow> bool" where
  "in_trade storeId x \<longleftrightarrow> o_store x = storeId \<and> o_status x \<in> set COUNTED_STATUSES"

definition paid_back :: "string \<Rightarrow> refund \<Rightarrow> bool" where
  "paid_back storeId r \<longleftrightarrow> r_store r = storeId \<and> r_status r = RF_SUCCEEDED"

definition orders_on :: "(string \<Rightarrow> int \<Rightarrow> int) \<Rightarrow> string \<Rightarrow> string \<Rightarrow> int \<Rightarrow> world \<Rightarrow> order list" where
  "orders_on offset zone storeId d w =
     filter (\<lambda>x. in_trade storeId x \<and> local_day offset zone (o_placed_at x) = d) (w_orders w)"

definition refunds_on :: "(string \<Rightarrow> int \<Rightarrow> int) \<Rightarrow> string \<Rightarrow> string \<Rightarrow> int \<Rightarrow> world \<Rightarrow> refund list" where
  "refunds_on offset zone storeId d w =
     filter (\<lambda>r. paid_back storeId r \<and> local_day offset zone (r_created r) = d) (w_refunds w)"

definition traded :: "(string \<Rightarrow> int \<Rightarrow> int) \<Rightarrow> string \<Rightarrow> string \<Rightarrow> int \<Rightarrow> world \<Rightarrow> bool" where
  "traded offset zone storeId d w \<longleftrightarrow>
     orders_on offset zone storeId d w \<noteq> [] \<or> refunds_on offset zone storeId d w \<noteq> []"

definition true_row :: "(string \<Rightarrow> int \<Rightarrow> int) \<Rightarrow> int \<Rightarrow> string \<Rightarrow> string \<Rightarrow> int \<Rightarrow> world \<Rightarrow> daily_sales" where
  "true_row offset now zone storeId d w =
     day_row storeId now d (orders_on offset zone storeId d w) (refunds_on offset zone storeId d w)"

text \<open>Time zones are within a day of UTC.\<close>

definition within_a_day :: "(string \<Rightarrow> int \<Rightarrow> int) \<Rightarrow> bool" where
  "within_a_day offset \<longleftrightarrow> (\<forall>zone t. - ONE_DAY \<le> offset zone t \<and> offset zone t \<le> ONE_DAY)"

lemma near_of_day:
  assumes "within_a_day offset" and "day_in wn (local_day offset zone t)"
  shows "near_window wn t"
proof -
  have o: "- ONE_DAY \<le> offset zone t" "offset zone t \<le> ONE_DAY" using assms(1) by (auto simp: within_a_day_def)
  have d: "wn_from wn \<le> (t + offset zone t) div 86400000" "(t + offset zone t) div 86400000 \<le> wn_to wn"
    using assms(2) by (auto simp: day_in_def local_day_def ONE_DAY_def)
  then show ?thesis using o by (simp add: near_window_def ONE_DAY_def) linarith
qed

lemma day_of_window_orders:
  assumes "within_a_day offset" and "day_in wn d"
  shows "filter (\<lambda>x. local_day offset zone (o_placed_at x) = d) (window_orders offset zone storeId wn w) =
    orders_on offset zone storeId d w"
  using assms by (auto simp: window_orders_def orders_on_def in_trade_def intro!: filter_cong near_of_day)

lemma day_of_window_refunds:
  assumes "within_a_day offset" and "day_in wn d"
  shows "filter (\<lambda>r. local_day offset zone (r_created r) = d) (window_refunds offset zone storeId wn w) =
    refunds_on offset zone storeId d w"
  using assms by (auto simp: window_refunds_def refunds_on_def paid_back_def intro!: filter_cong near_of_day)

definition trading_days ::
    "(string \<Rightarrow> int \<Rightarrow> int) \<Rightarrow> string \<Rightarrow> string \<Rightarrow> rollup_window \<Rightarrow> world \<Rightarrow> int list" where
  "trading_days offset zone storeId wn w =
     remdups (map (\<lambda>x. local_day offset zone (o_placed_at x)) (window_orders offset zone storeId wn w) @
       map (\<lambda>r. local_day offset zone (r_created r)) (window_refunds offset zone storeId wn w))"

lemma trading_day:
  assumes "within_a_day offset"
  shows "d \<in> set (trading_days offset zone storeId wn w) \<longleftrightarrow> day_in wn d \<and> traded offset zone storeId d w"
proof -
  have "d \<in> set (trading_days offset zone storeId wn w) \<longleftrightarrow>
      (\<exists>x \<in> set (w_orders w). in_trade storeId x \<and> day_in wn (local_day offset zone (o_placed_at x)) \<and>
         d = local_day offset zone (o_placed_at x)) \<or>
      (\<exists>r \<in> set (w_refunds w). paid_back storeId r \<and> day_in wn (local_day offset zone (r_created r)) \<and>
         d = local_day offset zone (r_created r))"
    using near_of_day [OF assms]
    by (auto simp: trading_days_def window_orders_def window_refunds_def in_trade_def paid_back_def)
  then show ?thesis
    by (auto simp: traded_def orders_on_def refunds_on_def filter_empty_conv)
qed

lemma merged_rows:
  assumes "within_a_day offset"
  shows "merged offset now zone storeId wn w =
    map (\<lambda>d. true_row offset now zone storeId d w) (trading_days offset zone storeId wn w)"
proof -
  have "merged offset now zone storeId wn w = map (\<lambda>d. day_row storeId now d
      (filter (\<lambda>x. local_day offset zone (o_placed_at x) = d) (window_orders offset zone storeId wn w))
      (filter (\<lambda>r. local_day offset zone (r_created r) = d) (window_refunds offset zone storeId wn w)))
    (trading_days offset zone storeId wn w)"
    by (simp add: merged_def trading_days_def Let_def)
  also have "\<dots> = map (\<lambda>d. true_row offset now zone storeId d w) (trading_days offset zone storeId wn w)"
    using trading_day [OF assms] day_of_window_orders [OF assms] day_of_window_refunds [OF assms]
    by (intro map_cong) (auto simp: true_row_def)
  finally show ?thesis .
qed

section \<open>Rows by their key\<close>

definition day_of :: "string \<Rightarrow> int \<Rightarrow> books \<Rightarrow> daily_sales option" where
  "day_of storeId d bk = find (\<lambda>r. dy_store r = storeId \<and> dy_date r = d) (bk_days bk)"

definition day_key :: "daily_sales \<Rightarrow> string \<times> int" where
  "day_key r = (dy_store r, dy_date r)"

lemma day_row_key [simp]:
  "dy_store (day_row storeId now d os rs) = storeId" "dy_date (day_row storeId now d os rs) = d"
  by (simp_all add: day_row_def Let_def)

lemma true_row_key [simp]:
  "dy_store (true_row offset now zone storeId d w) = storeId" "dy_date (true_row offset now zone storeId d w) = d"
  by (simp_all add: true_row_def)

lemma find_update_same:
  "\<exists>x \<in> set rows. p x \<Longrightarrow> p r \<Longrightarrow> find p (update_where p (\<lambda>_. r) rows) = Some r"
  by (induction rows) auto

lemma find_update_other:
  "(\<And>x. p x \<Longrightarrow> \<not> q x) \<Longrightarrow> \<not> q r \<Longrightarrow> find q (update_where p (\<lambda>_. r) rows) = find q rows"
  by (induction rows) auto

lemma find_upsert:
  "find (\<lambda>x. dy_store x = s \<and> dy_date x = d) (upsert_day r rows) =
    (if dy_store r = s \<and> dy_date r = d then Some r else find (\<lambda>x. dy_store x = s \<and> dy_date x = d) rows)"
proof (cases "\<exists>x \<in> set rows. dy_store x = dy_store r \<and> dy_date x = dy_date r")
  case True
  show ?thesis
  proof (cases "dy_store r = s \<and> dy_date r = d")
    case here: True
    then show ?thesis using True find_update_same [OF True, of r] by (auto simp: upsert_day_def)
  next
    case False
    have "find (\<lambda>x. dy_store x = s \<and> dy_date x = d)
        (update_where (\<lambda>x. dy_store x = dy_store r \<and> dy_date x = dy_date r) (\<lambda>_. r) rows) =
      find (\<lambda>x. dy_store x = s \<and> dy_date x = d) rows"
      by (rule find_update_other) (use False in auto)
    then show ?thesis using True False by (auto simp: upsert_day_def)
  qed
next
  case False
  then have "find (\<lambda>x. dy_store x = dy_store r \<and> dy_date x = dy_date r) rows = None"
    by (auto simp: find_None_iff)
  then show ?thesis using False by (auto simp: upsert_day_def find_app split: option.splits)
qed

lemma upsert_keys:
  "map day_key (upsert_day r rows) =
    (if day_key r \<in> set (map day_key rows) then map day_key rows else map day_key rows @ [day_key r])"
proof -
  have "map day_key (update_where (\<lambda>x. dy_store x = dy_store r \<and> dy_date x = dy_date r) (\<lambda>_. r) rows) =
      map day_key rows"
    by (induction rows) (auto simp: day_key_def)
  moreover have "(\<exists>x \<in> set rows. dy_store x = dy_store r \<and> dy_date x = dy_date r) \<longleftrightarrow>
      day_key r \<in> set (map day_key rows)"
    by (auto simp: day_key_def image_iff eq_commute)
  ultimately show ?thesis by (simp add: upsert_day_def)
qed

lemma upserts_distinct:
  "distinct (map day_key rows) \<Longrightarrow> distinct (map day_key (fold upsert_day rs rows))"
  by (induction rs arbitrary: rows) (auto simp: upsert_keys)

lemma find_upserts:
  assumes "distinct ds" and "\<And>d. dy_store (f d) = storeId" and "\<And>d. dy_date (f d) = d"
  shows "find (\<lambda>x. dy_store x = s \<and> dy_date x = e) (fold upsert_day (map f ds) rows) =
    (if s = storeId \<and> e \<in> set ds then Some (f e) else find (\<lambda>x. dy_store x = s \<and> dy_date x = e) rows)"
  using assms(1)
proof (induction ds arbitrary: rows)
  case (Cons d ds)
  then show ?case using assms(2,3) by (auto simp: find_upsert)
qed simp

lemma day_after_recompute:
  assumes "within_a_day offset" and "zone_of storeId w = Some zone"
  shows "day_of s d (snd (recomputeStore offset now storeId wn w bk)) =
    (if s = storeId \<and> day_in wn d \<and> traded offset zone storeId d w
     then Some (true_row offset now zone storeId d w) else day_of s d bk)"
proof -
  have dist: "distinct (trading_days offset zone storeId wn w)" by (simp add: trading_days_def)
  show ?thesis
    by (simp add: recomputeStore_def assms(2) Let_def day_of_def merged_rows [OF assms(1)]
        find_upserts [OF dist, where storeId = storeId] trading_day [OF assms(1)])
qed

lemma keys_after_recompute:
  assumes "distinct (map day_key (bk_days bk))"
  shows "distinct (map day_key (bk_days (snd (recomputeStore offset now storeId wn w bk))))"
  using assms by (cases "zone_of storeId w") (auto simp: recomputeStore_def Let_def upserts_distinct)

lemma rest_after_recompute [simp]:
  "bk_products (snd (recomputeStore offset now storeId wn w bk)) = bk_products bk"
  "bk_customers (snd (recomputeStore offset now storeId wn w bk)) = bk_customers bk"
  by (auto simp: recomputeStore_def Let_def split: option.splits)

lemma days_after_products [simp]: "bk_days (snd (recomputeStoreProducts offset rank now storeId wn w bk)) = bk_days bk"
  by (simp add: recomputeStoreProducts_def Let_def)

lemma days_after_customers [simp]: "bk_days (snd (recomputeStoreCustomers users now storeId wn w bk)) = bk_days bk"
  by (simp add: recomputeStoreCustomers_def Let_def)

lemma days_after_all:
  "bk_days (snd (recompute_all offset rank users now storeId wn w bk)) =
   bk_days (snd (recomputeStore offset now storeId wn w bk))"
  by (simp add: recompute_all_def split: prod.splits)

lemma day_of_cong: "bk_days a = bk_days b \<Longrightarrow> day_of s d a = day_of s d b"
  by (simp add: day_of_def)

section \<open>The months of a backfill\<close>

lemma month_from_next:
  assumes "start \<le> d" and "month_from y m start d = (y', m', s')"
  shows "month_from y m start (s' + month_days y' m') =
    (if m' = 12 then y' + 1 else y', if m' = 12 then 1 else m' + 1, s' + month_days y' m')"
  using assms
proof (induction y m start d arbitrary: y' m' s' rule: month_from.induct)
  case (1 y m start d)
  let ?y = "if m = 12 then y + 1 else y" and ?m = "if m = 12 then 1 else m + 1"
  have here: "0 < month_days a b" for a b using month_days_bounds [of a b] by simp
  show ?case
  proof (cases "d < start + month_days y m")
    case True
    then have e: "y' = y" "m' = m" "s' = start" using 1(3) by (simp_all add: month_from_here)
    have "month_from y m start (start + month_days y m) = month_from ?y ?m (start + month_days y m) (start + month_days y m)"
      by (subst month_from.simps) simp
    then show ?thesis using here [of ?y ?m] by (simp add: e month_from_here)
  next
    case False
    then have rest: "month_from ?y ?m (start + month_days y m) d = (y', m', s')"
      using 1(3) by (subst (asm) month_from.simps) simp
    then have "start + month_days y m \<le> s'" using month_from_spans [OF _ rest] False by simp
    then have "month_from y m start (s' + month_days y' m') =
        month_from ?y ?m (start + month_days y m) (s' + month_days y' m')"
      using here [of y' m'] by (subst month_from.simps) simp
    then show ?thesis using 1(1) [OF False _ rest] False by simp
  qed
qed

lemma month_end_after: "0 \<le> d \<Longrightarrow> d \<le> month_end d"
proof -
  assume d: "0 \<le> d"
  obtain y m s where e: "month_from 1970 1 0 d = (y, m, s)" by (metis prod_cases3)
  show ?thesis using month_from_spans [OF d e] by (simp add: month_end_def month_of_def e del: One_nat_def)
qed

lemma next_month_whole:
  assumes "0 \<le> d"
  shows "month_end d + 28 \<le> month_end (month_end d + 1)"
proof -
  obtain y m s where e: "month_from 1970 1 0 d = (y, m, s)" by (metis prod_cases3)
  show ?thesis
    using month_from_next [OF assms e] month_days_bounds [of "if m = 12 then y + 1 else y" "if m = 12 then 1 else m + 1"]
    by (simp add: month_end_def month_of_def e del: One_nat_def)
qed

definition days_of_chunks :: "rollup_window list \<Rightarrow> int list" where
  "days_of_chunks wns = concat (map (\<lambda>wn. [wn_from wn..wn_to wn]) wns)"

lemma chunk_then_rest:
  assumes "0 \<le> c" and "c \<le> final" and "to = min (month_end c) final"
    and "days_of_chunks (month_chunks n (to + 1) final) = [to + 1..final]"
  shows "days_of_chunks (month_chunks (Suc n) c final) = [c..final]"
proof -
  have "c \<le> to" "to \<le> final" using assms(1-3) month_end_after [of c] by auto
  then have split: "[c..final] = [c..to] @ [to + 1..final]" by (rule upto_split2)
  have "month_chunks (Suc n) c final = \<lparr>wn_from = c, wn_to = to\<rparr> # month_chunks n (to + 1) final"
    using assms(2,3) by (auto simp: min_def Let_def)
  then have "days_of_chunks (month_chunks (Suc n) c final) = [c..to] @ days_of_chunks (month_chunks n (to + 1) final)"
    by (simp only: days_of_chunks_def list.map concat.simps rollup_window.simps)
  then show ?thesis using split assms(4) by (simp only:)
qed

lemma months_cover:
  assumes "0 \<le> c" and "final - c < 28 * int n" and "final < c \<or> c + 27 \<le> month_end c"
  shows "days_of_chunks (month_chunks n c final) = [c..final]"
  using assms
proof (induction n arbitrary: c)
  case 0
  then show ?case by (simp add: days_of_chunks_def)
next
  case (Suc n)
  show ?case
  proof (cases "c \<le> final")
    case True
    define to where "to = min (month_end c) final"
    have "days_of_chunks (month_chunks n (to + 1) final) = [to + 1..final]"
    proof (rule Suc.IH)
      show "0 \<le> to + 1" using Suc.prems(1) True month_end_after [of c] by (simp add: to_def min_def)
      show "final - (to + 1) < 28 * int n"
        using Suc.prems(2,3) True by (auto simp: to_def min_def)
      show "final < to + 1 \<or> to + 1 + 27 \<le> month_end (to + 1)"
        using next_month_whole [OF Suc.prems(1)] by (auto simp: to_def min_def)
    qed
    then show ?thesis using chunk_then_rest Suc.prems(1) True to_def by blast
  qed (simp add: days_of_chunks_def)
qed

lemma chunks_partition:
  assumes "0 \<le> wn_from wn" and "wn_to wn - wn_from wn < 28 * 599"
  shows "days_of_chunks (monthlyChunks wn) = [wn_from wn..wn_to wn]"
proof (cases "wn_from wn \<le> wn_to wn")
  case True
  define to where "to = min (month_end (wn_from wn)) (wn_to wn)"
  have "wn_from wn \<le> to" using True month_end_after [OF assms(1)] by (simp add: to_def)
  then have "days_of_chunks (month_chunks 599 (to + 1) (wn_to wn)) = [to + 1..wn_to wn]"
    using assms next_month_whole [OF assms(1)] by (intro months_cover) (auto simp: to_def min_def)
  then show ?thesis
    using chunk_then_rest [OF assms(1) True to_def, of 599] by (simp add: monthlyChunks_def)
next
  case False
  have "month_chunks n (wn_from wn) (wn_to wn) = []" for n using False by (cases n) auto
  then show ?thesis using False by (simp add: monthlyChunks_def days_of_chunks_def)
qed

lemma in_chunks: "(\<exists>wn \<in> set wns. day_in wn d) \<longleftrightarrow> d \<in> set (days_of_chunks wns)"
  by (auto simp: days_of_chunks_def day_in_def)

lemma day_after_chunks:
  assumes "within_a_day offset" and "zone_of storeId w = Some zone"
  shows "day_of s d (snd (backfill_chunks offset rank users now storeId wns w bk)) =
    (if s = storeId \<and> (\<exists>wn \<in> set wns. day_in wn d) \<and> traded offset zone storeId d w
     then Some (true_row offset now zone storeId d w) else day_of s d bk)"
proof (induction wns arbitrary: bk)
  case (Cons wn wns)
  let ?b = "snd (recompute_all offset rank users now storeId wn w bk)"
  have "day_of s d ?b = day_of s d (snd (recomputeStore offset now storeId wn w bk))"
    by (rule day_of_cong) (rule days_after_all)
  then show ?case using Cons.IH [of ?b] by (auto simp: day_after_recompute [OF assms] split: prod.splits)
qed simp

end
