(* ===== verification/Reports.thy ===== *)
theory Reports
  imports Rollup Catalog Billing Csv
begin

text \<open>
  The reports (\<open>modules/reports\<close>): \<open>ReportsService\<close> over the daily figures of \<open>Rollup\<close>,
  \<open>ReportsCsvService\<close> and \<open>PlatformReportsService\<close>.  Where a query leaves an order open, rows
  come in the order of the table.  A shop's days start in 1970.
\<close>

section \<open>Dates\<close>

definition leap_days :: "int \<Rightarrow> int" where
  "leap_days y = y div 4 - y div 100 + y div 400"

definition month_start :: "int \<Rightarrow> nat \<Rightarrow> int" where
  "month_start y m = 365 * (y - 1970) + leap_days (y - 1) - leap_days 1969 + sum_list (map (month_days y) [1..<m])"

text \<open>\<open>/^\d{4}-\d{2}-\d{2}$/\<close>\<close>

definition date_shape :: "string \<Rightarrow> bool" where
  "date_shape s \<longleftrightarrow>
     length s = 10 \<and> list_all is_digit (take 4 s) \<and> s ! 4 = CHR ''-'' \<and> list_all is_digit (take 2 (drop 5 s)) \<and>
     s ! 7 = CHR ''-'' \<and> list_all is_digit (drop 8 s)"

definition date_year :: "string \<Rightarrow> int" where
  "date_year s = int (number_of_digits (take 4 s))"

definition date_month :: "string \<Rightarrow> nat" where
  "date_month s = number_of_digits (take 2 (drop 5 s))"

definition date_day :: "string \<Rightarrow> int" where
  "date_day s = int (number_of_digits (drop 8 s))"

text \<open>\<open>new Date(...)\<close> takes any day up to the 31st of any month and counts on from its first.\<close>

definition parseDate :: "string \<Rightarrow> string \<Rightarrow> int res" where
  "parseDate s field =
     (if \<not> date_shape s then Inl (Validation (''`'' @ field @ ''` must be a date like 2026-03-01.''))
      else if 1 \<le> date_month s \<and> date_month s \<le> 12 \<and> 1 \<le> date_day s \<and> date_day s \<le> 31
      then Inr (month_start (date_year s) (date_month s) + date_day s - 1)
      else Inl (Validation (''`'' @ field @ ''` is not a real date.'')))"

text \<open>\<open>s::date\<close>, which takes real days only.\<close>

definition sql_date :: "string \<Rightarrow> int res" where
  "sql_date s =
     (if 1 \<le> date_year s \<and> 1 \<le> date_month s \<and> date_month s \<le> 12 \<and> 1 \<le> date_day s \<and>
         date_day s \<le> month_days (date_year s) (date_month s)
      then Inr (month_start (date_year s) (date_month s) + date_day s - 1)
      else Inl (CheckViolation ''date''))"

definition pad4 :: "nat \<Rightarrow> string" where
  "pad4 n = replicate (4 - length (show_nat n)) (CHR ''0'') @ show_nat n"

text \<open>\<open>toISOString().slice(0, 10)\<close> of a day\<close>

definition iso_date :: "int \<Rightarrow> string" where
  "iso_date d = (case month_of d of (y, m, start) \<Rightarrow>
     pad4 (nat y) @ ''-'' @ pad2 m @ ''-'' @ pad2 (nat (d - start + 1)))"

definition iso_time :: "int \<Rightarrow> string" where
  "iso_time t =
     (let ms = nat (t mod ONE_DAY); s = ms div 1000
      in iso_date (t div ONE_DAY) @ ''T'' @ pad2 (s div 3600) @ '':'' @ pad2 (s div 60 mod 60) @ '':'' @
         pad2 (s mod 60) @ ''.'' @ drop 1 (pad4 (ms mod 1000)) @ ''Z'')"

section \<open>Sales\<close>

record figures =
  fg_orders :: int
  fg_gross :: int
  fg_discounts :: int
  fg_tax :: int
  fg_refunds :: int
  fg_net :: int
  fg_pos :: int
  fg_online :: int

record sales_point =
  pt_date :: int
  pt_figures :: figures

record sales_report =
  rp_grain :: string
  rp_from :: string
  rp_to :: string
  rp_points :: "sales_point list"
  rp_totals :: figures

definition MAX_DAYS :: int where
  "MAX_DAYS = 1100"

definition sum_rows :: "daily_sales list \<Rightarrow> figures" where
  "sum_rows rs =
     \<lparr>fg_orders = sum_list (map dy_orders rs), fg_gross = sum_list (map dy_gross rs),
      fg_discounts = sum_list (map dy_discounts rs), fg_tax = sum_list (map dy_tax rs),
      fg_refunds = sum_list (map dy_refunds rs), fg_net = sum_list (map dy_net rs),
      fg_pos = sum_list (map dy_pos rs), fg_online = sum_list (map dy_online rs)\<rparr>"

definition total :: "sales_point list \<Rightarrow> figures" where
  "total points =
     foldl (\<lambda>acc p. let f = pt_figures p in
         \<lparr>fg_orders = fg_orders acc + fg_orders f, fg_gross = fg_gross acc + fg_gross f,
          fg_discounts = fg_discounts acc + fg_discounts f, fg_tax = fg_tax acc + fg_tax f,
          fg_refunds = fg_refunds acc + fg_refunds f, fg_net = fg_net acc + fg_net f,
          fg_pos = fg_pos acc + fg_pos f, fg_online = fg_online acc + fg_online f\<rparr>)
       \<lparr>fg_orders = 0, fg_gross = 0, fg_discounts = 0, fg_tax = 0, fg_refunds = 0, fg_net = 0, fg_pos = 0, fg_online = 0\<rparr>
       points"

text \<open>\<open>date_trunc\<close>; a week starts on Monday and 1 January 1970 was a Thursday.\<close>

definition bucket :: "string \<Rightarrow> int \<Rightarrow> int" where
  "bucket grain d =
     (if grain = ''day'' then d
      else if grain = ''week'' then d - (d + 3) mod 7
      else (case month_of d of (y, m, start) \<Rightarrow> start))"

definition grouped :: "(daily_sales \<Rightarrow> int) \<Rightarrow> daily_sales list \<Rightarrow> sales_point list" where
  "grouped key rows =
     map (\<lambda>k. \<lparr>pt_date = k, pt_figures = sum_rows (filter (\<lambda>r. key r = k) rows)\<rparr>) (sort (remdups (map key rows)))"

definition check_range :: "int \<Rightarrow> int \<Rightarrow> unit res" where
  "check_range from_day to_day =
     (if to_day < from_day then Inl (Validation ''The end of the range is before the start.'')
      else if MAX_DAYS < to_day - from_day + 1 then Inl (Validation ''That range is longer than 3 years.'')
      else Inr ())"

definition rows_between :: "string \<Rightarrow> int \<Rightarrow> int \<Rightarrow> books \<Rightarrow> daily_sales list" where
  "rows_between storeId a b bk = filter (\<lambda>r. dy_store r = storeId \<and> a \<le> dy_date r \<and> dy_date r \<le> b) (bk_days bk)"

definition sales :: "string \<Rightarrow> string \<Rightarrow> string \<Rightarrow> string option \<Rightarrow> books \<Rightarrow> sales_report res" where
  "sales storeId from_text to_text grain_opt bk =
     (let grain = or_else grain_opt ''day''
      in if grain \<noteq> ''day'' \<and> grain \<noteq> ''week'' \<and> grain \<noteq> ''month''
         then Inl (Validation ''Group by day, week or month.'')
         else bindE (parseDate from_text ''from'') (\<lambda>from_day.
              bindE (parseDate to_text ''to'') (\<lambda>to_day.
              bindE (check_range from_day to_day) (\<lambda>_.
              bindE (sql_date from_text) (\<lambda>a. bindE (sql_date to_text) (\<lambda>b.
                let points = grouped (\<lambda>r. bucket grain (dy_date r)) (rows_between storeId a b bk)
                in Inr \<lparr>rp_grain = grain, rp_from = from_text, rp_to = to_text, rp_points = points,
                        rp_totals = total points\<rparr>))))))"

section \<open>The owner's morning view\<close>

record store_summary =
  su_today :: "int \<times> int"
  su_last7 :: "int \<times> int"
  su_last30 :: "int \<times> int"
  su_computed :: "int option"

definition net_and_orders :: "daily_sales list \<Rightarrow> int \<times> int" where
  "net_and_orders rs = (sum_list (map dy_net rs), sum_list (map dy_orders rs))"

definition latest_pass :: "daily_sales list \<Rightarrow> int option" where
  "latest_pass rs = (if rs = [] then None else Some (Max (set (map dy_computed rs))))"

definition summary :: "(string \<Rightarrow> int \<Rightarrow> int) \<Rightarrow> int \<Rightarrow> string \<Rightarrow> world \<Rightarrow> books \<Rightarrow> store_summary" where
  "summary offset now storeId w bk =
     (let rs = (case zone_of storeId w of
            None \<Rightarrow> []
          | Some zone \<Rightarrow>
              let d = local_day offset zone now
              in filter (\<lambda>r. dy_store r = storeId \<and> d - 30 < dy_date r \<and> dy_date r \<le> d) (bk_days bk));
          day = (case zone_of storeId w of None \<Rightarrow> 0 | Some zone \<Rightarrow> local_day offset zone now)
      in \<lparr>su_today = net_and_orders (filter (\<lambda>r. dy_date r = day) rs),
          su_last7 = net_and_orders (filter (\<lambda>r. day - 7 < dy_date r) rs),
          su_last30 = net_and_orders rs, su_computed = latest_pass rs\<rparr>)"

section \<open>What sold\<close>

record product_sales =
  ps_variant :: "string option"
  ps_name :: string
  ps_sku :: "string option"
  ps_units :: int
  ps_revenue :: int

definition clamp :: "int \<Rightarrow> int \<Rightarrow> int \<Rightarrow> nat" where
  "clamp low high n = nat (min (max n low) high)"

text \<open>\<open>(array_agg(x ORDER BY date DESC))[1]\<close>: a group is never empty.\<close>

definition latest_line :: "daily_product list \<Rightarrow> daily_product" where
  "latest_line rs = hd (sort_key (\<lambda>r. - dp_date r) rs)"

definition line_sales :: "string \<Rightarrow> daily_product list \<Rightarrow> product_sales" where
  "line_sales key rows =
     (let rs = filter (\<lambda>r. dp_key r = key) rows; r = latest_line rs
      in \<lparr>ps_variant = dp_variant r, ps_name = dp_name r, ps_sku = dp_sku r,
          ps_units = sum_list (map dp_units rs), ps_revenue = sum_list (map dp_revenue rs)\<rparr>)"

definition lines_between :: "string \<Rightarrow> int \<Rightarrow> int \<Rightarrow> books \<Rightarrow> daily_product list" where
  "lines_between storeId a b bk = filter (\<lambda>r. dp_store r = storeId \<and> a \<le> dp_date r \<and> dp_date r \<le> b) (bk_products bk)"

definition topProducts :: "string \<Rightarrow> string \<Rightarrow> string \<Rightarrow> int option \<Rightarrow> books \<Rightarrow> product_sales list res" where
  "topProducts storeId from_text to_text limit bk =
     bindE (parseDate from_text ''from'') (\<lambda>from_day.
     bindE (parseDate to_text ''to'') (\<lambda>to_day.
     bindE (check_range from_day to_day) (\<lambda>_.
     bindE (sql_date from_text) (\<lambda>a. bindE (sql_date to_text) (\<lambda>b.
       let rows = lines_between storeId a b bk
       in Inr (take (clamp 1 100 (or_else limit 10))
            (sort_key (\<lambda>p. - ps_revenue p) (map (\<lambda>k. line_sales k rows) (remdups (map dp_key rows))))))))))"

section \<open>Customers\<close>

definition customers ::
    "string \<Rightarrow> int option \<Rightarrow> int option \<Rightarrow> string option \<Rightarrow> books \<Rightarrow> store_customer list \<times> nat" where
  "customers storeId limit offset order_by bk =
     (let rows = filter (\<lambda>r. sc_store r = storeId) (bk_customers bk);
          key = (if order_by = Some ''recent'' then sc_last else sc_lifetime)
      in (take (clamp 1 200 (or_else limit 50)) (drop (nat (max (or_else offset 0) 0)) (sort_key (\<lambda>r. - key r) rows)),
          length rows))"

section \<open>Stock\<close>

record stock_row =
  sv_variant :: string
  sv_name :: string
  sv_sku :: "string option"
  sv_on_hand :: int
  sv_reserved :: int
  sv_cost :: "int option"
  sv_retail :: int

text \<open>The tracked stock of the lines the catalog still has, with their product.\<close>

definition tracked_stock :: "string \<Rightarrow> world \<Rightarrow> catalog \<Rightarrow> stock_row list" where
  "tracked_stock storeId w c =
     concat (map (\<lambda>v.
         case (w_levels w (pv_id v), find (\<lambda>p. pr_id p = pv_product v) (ct_products c)) of
           (Some l, Some p) \<Rightarrow>
             if sl_store l = storeId \<and> sl_tracked l \<and> \<not> pr_deleted p
             then [\<lparr>sv_variant = pv_id v, sv_name = pr_name p, sv_sku = pv_sku v, sv_on_hand = sl_on_hand l,
                    sv_reserved = sl_reserved l, sv_cost = pv_cost v, sv_retail = product_variant.pv_price v\<rparr>] else []
         | _ \<Rightarrow> [])
       (filter (\<lambda>v. \<not> pv_deleted v) (ct_variants c)))"

record valuation_line =
  vl_variant :: string
  vl_name :: string
  vl_sku :: "string option"
  vl_on_hand :: int
  vl_cost :: "int option"
  vl_retail :: int

record stock_valuation =
  va_lines :: int
  va_units :: int
  va_cost :: int
  va_lines_uncosted :: int
  va_units_uncosted :: int
  va_retail :: int
  va_top :: "valuation_line list"

definition stockValuation :: "string \<Rightarrow> nat \<Rightarrow> world \<Rightarrow> catalog \<Rightarrow> stock_valuation" where
  "stockValuation storeId limit w c =
     (let rows = filter (\<lambda>r. 0 < sv_on_hand r) (tracked_stock storeId w c);
          figures5 = foldl (\<lambda>(units, retail, cost, lines, bare) r.
              (units + sv_on_hand r, retail + sv_on_hand r * sv_retail r,
               (case sv_cost r of None \<Rightarrow> cost | Some k \<Rightarrow> cost + sv_on_hand r * k),
               (if sv_cost r = None then lines + 1 else lines),
               (if sv_cost r = None then bare + sv_on_hand r else bare))) (0, 0, 0, 0, 0) rows;
          top = take limit (sort_key (\<lambda>l. - vl_retail l) (map (\<lambda>r.
              \<lparr>vl_variant = sv_variant r, vl_name = sv_name r, vl_sku = sv_sku r, vl_on_hand = sv_on_hand r,
               vl_cost = map_option (\<lambda>k. sv_on_hand r * k) (sv_cost r), vl_retail = sv_on_hand r * sv_retail r\<rparr>) rows))
      in case figures5 of (units, retail, cost, lines, bare) \<Rightarrow>
        \<lparr>va_lines = int (length rows), va_units = units, va_cost = cost, va_lines_uncosted = lines,
         va_units_uncosted = bare, va_retail = retail, va_top = top\<rparr>)"

section \<open>As spreadsheets\<close>

definition text_cell :: "string option \<Rightarrow> string" where
  "text_cell x = csvCell (case x of None \<Rightarrow> CNull | Some s \<Rightarrow> CText s)"

definition sales_csv :: "string \<Rightarrow> string \<Rightarrow> string \<Rightarrow> string option \<Rightarrow> books \<Rightarrow> string res" where
  "sales_csv storeId from_text to_text grain bk =
     bindE (sales storeId from_text to_text grain bk) (\<lambda>report.
       Inr (toCsv [''Period'', ''Orders'', ''Gross'', ''Discounts'', ''Refunds'', ''Tax'', ''Takings'', ''In store'', ''Online'']
         (map (\<lambda>p. let f = pt_figures p in
             [csvCell (CText (iso_date (pt_date p))), csvCell (CNumber (fg_orders f)), csvMoney (fg_gross f),
              csvMoney (fg_discounts f), csvMoney (fg_refunds f), csvMoney (fg_tax f), csvMoney (fg_net f),
              csvCell (CNumber (fg_pos f)), csvCell (CNumber (fg_online f))]) (rp_points report))))"

definition products_csv :: "string \<Rightarrow> string \<Rightarrow> string \<Rightarrow> books \<Rightarrow> string res" where
  "products_csv storeId from_text to_text bk =
     bindE (topProducts storeId from_text to_text (Some 100) bk) (\<lambda>rows.
       Inr (toCsv [''Product'', ''SKU'', ''Units'', ''Revenue'']
         (map (\<lambda>p. [csvCell (CText (ps_name p)), text_cell (ps_sku p), csvCell (CNumber (ps_units p)),
            csvMoney (ps_revenue p)]) rows)))"

definition customers_csv :: "string \<Rightarrow> books \<Rightarrow> string" where
  "customers_csv storeId bk =
     toCsv [''Name'', ''Email'', ''Orders'', ''Lifetime spend'', ''First order'', ''Last order'']
       (map (\<lambda>r. [csvCell (CText (sc_name r)), csvCell (CText (sc_email r)), csvCell (CNumber (sc_orders r)),
           csvMoney (sc_lifetime r), csvCell (CDate (iso_time (sc_first r))), csvCell (CDate (iso_time (sc_last r)))])
         (sort_key (\<lambda>r. - sc_lifetime r) (filter (\<lambda>r. sc_store r = storeId) (bk_customers bk))))"

definition stock_csv :: "string \<Rightarrow> world \<Rightarrow> catalog \<Rightarrow> string" where
  "stock_csv storeId w c =
     toCsv [''Line'', ''SKU'', ''On hand'', ''Reserved'', ''Unit cost'', ''Unit price'', ''Value at cost'', ''Value at retail'']
       (map (\<lambda>r. [csvCell (CText (sv_name r)), text_cell (sv_sku r), csvCell (CNumber (sv_on_hand r)),
           csvCell (CNumber (sv_reserved r)), (case sv_cost r of None \<Rightarrow> [] | Some k \<Rightarrow> csvMoney k),
           csvMoney (sv_retail r), (case sv_cost r of None \<Rightarrow> [] | Some k \<Rightarrow> csvMoney (sv_on_hand r * k)),
           csvMoney (sv_on_hand r * sv_retail r)])
         (sort_key (\<lambda>r. - (sv_on_hand r * sv_retail r)) (tracked_stock storeId w c)))"

definition filename :: "int \<Rightarrow> string \<Rightarrow> string \<Rightarrow> string option \<Rightarrow> string option \<Rightarrow> world \<Rightarrow> string" where
  "filename now storeId kind from_text to_text w =
     (let period = (case (text_of from_text, text_of to_text) of
            (Some a, Some b) \<Rightarrow> ''-'' @ a @ ''-to-'' @ b
          | _ \<Rightarrow> ''-'' @ iso_date (now div ONE_DAY))
      in or_else (map_option s_slug (find (\<lambda>s. s_id s = storeId) (w_stores w))) ''store'' @ ''-'' @ kind @ period @ ''.csv'')"

definition EXPORT_KINDS :: "string list" where
  "EXPORT_KINDS = [''sales'', ''products'', ''customers'', ''stock'']"

text \<open>\<open>ReportsController.exportCsv\<close>: the name of the file and what is in it.\<close>

definition export_report ::
    "int \<Rightarrow> string \<Rightarrow> string \<Rightarrow> string option \<Rightarrow> string option \<Rightarrow> string option \<Rightarrow> world \<Rightarrow> catalog \<Rightarrow> books \<Rightarrow>
     (string \<times> string) res" where
  "export_report now storeId kind from_text to_text grain w c bk =
     (if kind \<notin> set EXPORT_KINDS then Inl (NotFound ''There is no such export.'')
      else if (kind = ''sales'' \<or> kind = ''products'') \<and> (text_of from_text = None \<or> text_of to_text = None)
      then Inl (Validation ''That export needs a date range.'')
      else bindE
        (if kind = ''sales'' then sales_csv storeId (or_else from_text []) (or_else to_text []) grain bk
         else if kind = ''products'' then products_csv storeId (or_else from_text []) (or_else to_text []) bk
         else if kind = ''customers'' then Inr (customers_csv storeId bk)
         else Inr (stock_csv storeId w c))
        (\<lambda>body. Inr (filename now storeId kind from_text to_text w, body)))"

section \<open>The platform's figures\<close>

record platform_summary =
  pf_gmv :: int
  pf_orders :: int
  pf_mrr :: int
  pf_trialing :: int
  pf_past_due :: int
  pf_past_due_cents :: int
  pf_active :: int
  pf_approved :: int
  pf_suspended :: int
  pf_closed :: int
  pf_computed :: "int option"

text \<open>The subscriptions in a status whose plan is known, with its price.\<close>

definition plan_prices :: "plan list \<Rightarrow> subscription_status \<Rightarrow> world \<Rightarrow> int list" where
  "plan_prices plans st w =
     concat (map (\<lambda>s. case find (\<lambda>p. pl_code p = sb_plan s) plans of None \<Rightarrow> [] | Some p \<Rightarrow> [pl_price p])
       (filter (\<lambda>s. sb_status s = st) (w_subs w)))"

definition stores_in :: "store_status \<Rightarrow> world \<Rightarrow> int" where
  "stores_in st w = int (count_where (\<lambda>s. s_status s = st) (w_stores w))"

definition platform_figures :: "int \<Rightarrow> int \<Rightarrow> plan list \<Rightarrow> world \<Rightarrow> books \<Rightarrow> platform_summary" where
  "platform_figures now days plans w bk =
     (let rs = filter (\<lambda>r. now div ONE_DAY - days < dy_date r) (bk_days bk)
      in \<lparr>pf_gmv = sum_list (map dy_net rs), pf_orders = sum_list (map dy_orders rs),
          pf_mrr = sum_list (plan_prices plans SUB_ACTIVE w),
          pf_trialing = int (length (plan_prices plans SUB_TRIALING w)),
          pf_past_due = int (length (plan_prices plans SUB_PAST_DUE w)),
          pf_past_due_cents = sum_list (plan_prices plans SUB_PAST_DUE w),
          pf_active = stores_in ACTIVE w, pf_approved = stores_in APPROVED w,
          pf_suspended = stores_in SUSPENDED w, pf_closed = stores_in CLOSED w, pf_computed = latest_pass rs\<rparr>)"

end
