(* ===== verification/ReportProps.thy ===== *)
theory ReportProps
  imports RollupProps Reports
begin

text \<open>
  What the reports say is what was sold: the figures of a report over a window that the pass has
  covered are the sums of the orders and refunds themselves, whatever the grain.
\<close>

section \<open>The figures of orders and refunds\<close>

definition trade_figures :: "order list \<Rightarrow> refund list \<Rightarrow> figures" where
  "trade_figures os rs =
     \<lparr>fg_orders = int (length os), fg_gross = sum_list (map o_subtotal os),
      fg_discounts = sum_list (map o_discount os), fg_tax = sum_list (map o_tax os),
      fg_refunds = sum_list (map r_amount rs),
      fg_net = sum_list (map (\<lambda>x. o_subtotal x - o_discount x) os) - sum_list (map r_amount rs),
      fg_pos = sum_list (map (\<lambda>x. if o_channel x = POS then 1 else 0) os),
      fg_online = sum_list (map (\<lambda>x. if o_channel x = ONLINE then 1 else 0) os)\<rparr>"

definition orders_of_days ::
    "(string \<Rightarrow> int \<Rightarrow> int) \<Rightarrow> string \<Rightarrow> string \<Rightarrow> (int \<Rightarrow> bool) \<Rightarrow> world \<Rightarrow> order list" where
  "orders_of_days offset zone storeId D w =
     filter (\<lambda>x. in_trade storeId x \<and> D (local_day offset zone (o_placed_at x))) (w_orders w)"

definition refunds_of_days ::
    "(string \<Rightarrow> int \<Rightarrow> int) \<Rightarrow> string \<Rightarrow> string \<Rightarrow> (int \<Rightarrow> bool) \<Rightarrow> world \<Rightarrow> refund list" where
  "refunds_of_days offset zone storeId D w =
     filter (\<lambda>r. paid_back storeId r \<and> D (local_day offset zone (r_created r))) (w_refunds w)"

definition no_stale_rows ::
    "(string \<Rightarrow> int \<Rightarrow> int) \<Rightarrow> string \<Rightarrow> string \<Rightarrow> rollup_window \<Rightarrow> world \<Rightarrow> books \<Rightarrow> bool" where
  "no_stale_rows offset zone storeId wn w bk \<longleftrightarrow>
     list_all (\<lambda>r. dy_store r = storeId \<and> day_in wn (dy_date r) \<longrightarrow> traded offset zone storeId (dy_date r) w) (bk_days bk)"

lemma sum_over_days:
  fixes f :: "'a \<Rightarrow> int"
  assumes "finite S"
  shows "(\<Sum>d\<in>S. sum_list (map f (filter (\<lambda>x. P x \<and> g x = d) xs))) =
    sum_list (map f (filter (\<lambda>x. P x \<and> g x \<in> S) xs))"
proof (induction xs)
  case (Cons a xs)
  have "sum_list (map f (filter (\<lambda>x. P x \<and> g x = d) (a # xs))) =
      (if d = g a then (if P a then f a else 0) else 0) + sum_list (map f (filter (\<lambda>x. P x \<and> g x = d) xs))" for d
    by auto
  then have "(\<Sum>d\<in>S. sum_list (map f (filter (\<lambda>x. P x \<and> g x = d) (a # xs)))) =
      (\<Sum>d\<in>S. if d = g a then (if P a then f a else 0) else 0) +
      (\<Sum>d\<in>S. sum_list (map f (filter (\<lambda>x. P x \<and> g x = d) xs)))"
    by (simp only: sum.distrib)
  then show ?case using Cons by (simp add: sum.delta [OF assms])
qed simp

lemma row_is_true_row:
  assumes "within_a_day offset" and "zone_of storeId w = Some zone" and "distinct (map day_key (bk_days bk))"
    and "no_stale_rows offset zone storeId wn w bk"
    and "r \<in> set (bk_days (snd (recomputeStore offset now storeId wn w bk)))"
    and "dy_store r = storeId" and "day_in wn (dy_date r)"
  shows "r = true_row offset now zone storeId (dy_date r) w \<and> traded offset zone storeId (dy_date r) w"
proof -
  let ?bk = "snd (recomputeStore offset now storeId wn w bk)"
  have "find (\<lambda>y. day_key y = (storeId, dy_date r)) (bk_days ?bk) = Some r"
    by (rule find_unique [OF keys_after_recompute [OF assms(3)] assms(5)]) (simp add: day_key_def assms(6))
  then have r: "day_of storeId (dy_date r) ?bk = Some r" by (simp add: day_of_def day_key_def)
  show ?thesis
  proof (cases "traded offset zone storeId (dy_date r) w")
    case True
    then show ?thesis using r assms(7) by (simp add: day_after_recompute [OF assms(1,2)])
  next
    case False
    then have "day_of storeId (dy_date r) bk = Some r"
      using r by (simp add: day_after_recompute [OF assms(1,2)])
    then have "r \<in> set (bk_days bk)" by (auto simp: day_of_def dest: findD)
    then have "traded offset zone storeId (dy_date r) w"
      using assms(4,6,7) by (simp add: no_stale_rows_def list_all_iff)
    then show ?thesis using False by simp
  qed
qed

lemma true_row_there:
  assumes "within_a_day offset" and "zone_of storeId w = Some zone" and "day_in wn d" and "traded offset zone storeId d w"
  shows "true_row offset now zone storeId d w \<in> set (bk_days (snd (recomputeStore offset now storeId wn w bk)))"
proof -
  have "day_of storeId d (snd (recomputeStore offset now storeId wn w bk)) = Some (true_row offset now zone storeId d w)"
    using assms(3,4) by (simp add: day_after_recompute [OF assms(1,2)])
  then show ?thesis by (auto simp: day_of_def dest: findD)
qed

text \<open>A column of the rows of some days, summed.\<close>

lemma column_sum:
  fixes sel :: "daily_sales \<Rightarrow> int"
  assumes hyps: "within_a_day offset" "zone_of storeId w = Some zone" "distinct (map day_key (bk_days bk))"
    "no_stale_rows offset zone storeId wn w bk"
    and D: "\<And>d. D d \<Longrightarrow> day_in wn d"
    and sel: "\<And>d os rs. sel (day_row storeId now d os rs) = sum_list (map fo os) + sum_list (map fr rs)"
  shows "sum_list (map sel (filter (\<lambda>r. dy_store r = storeId \<and> D (dy_date r))
      (bk_days (snd (recomputeStore offset now storeId wn w bk))))) =
    sum_list (map fo (orders_of_days offset zone storeId D w)) +
    sum_list (map fr (refunds_of_days offset zone storeId D w))"
proof -
  let ?rows = "filter (\<lambda>r. dy_store r = storeId \<and> D (dy_date r)) (bk_days (snd (recomputeStore offset now storeId wn w bk)))"
  let ?row = "\<lambda>d. true_row offset now zone storeId d w"
  let ?S = "{d. D d}" and ?T = "{d. D d \<and> traded offset zone storeId d w}"
  have fin: "finite ?S"
    by (rule finite_subset [of _ "{wn_from wn..wn_to wn}"]) (use D in \<open>auto simp: day_in_def\<close>)
  have dist: "distinct ?rows"
    using keys_after_recompute [OF hyps(3)] by (auto simp: distinct_map)
  have inj: "inj_on ?row ?T" by (rule inj_on_inverseI [where g = dy_date]) simp
  have "set ?rows = ?row ` ?T"
  proof
    show "set ?rows \<subseteq> ?row ` ?T"
    proof
      fix r assume "r \<in> set ?rows"
      then show "r \<in> ?row ` ?T"
        using row_is_true_row [OF hyps, of r now] D by (auto intro: image_eqI [of _ _ "dy_date r"])
    qed
    show "?row ` ?T \<subseteq> set ?rows" using true_row_there [OF hyps(1,2)] D by auto
  qed
  then have "sum_list (map sel ?rows) = (\<Sum>r\<in>?row ` ?T. sel r)"
    using dist by (simp add: sum_list_distinct_conv_sum_set)
  also have "\<dots> = (\<Sum>d\<in>?T. sel (?row d))" by (simp add: sum.reindex [OF inj])
  also have "\<dots> = (\<Sum>d\<in>?S. sel (?row d))"
    by (rule sum.mono_neutral_left) (use fin in \<open>auto simp: traded_def true_row_def sel\<close>)
  also have "\<dots> = (\<Sum>d\<in>?S. sum_list (map fo (orders_on offset zone storeId d w))) +
      (\<Sum>d\<in>?S. sum_list (map fr (refunds_on offset zone storeId d w)))"
    by (simp add: true_row_def sel sum.distrib)
  also have "\<dots> = sum_list (map fo (orders_of_days offset zone storeId D w)) +
      sum_list (map fr (refunds_of_days offset zone storeId D w))"
    by (simp add: orders_on_def refunds_on_def orders_of_days_def refunds_of_days_def sum_over_days [OF fin])
  finally show ?thesis .
qed

lemma minus_sum: "sum_list (map (\<lambda>x. - f x) xs) = - sum_list (map f xs)" for f :: "'a \<Rightarrow> int"
  by (induction xs) auto

lemma diff_sum: "sum_list (map (\<lambda>x. f x - g x) xs) = sum_list (map f xs) - sum_list (map g xs)" for f :: "'a \<Rightarrow> int"
  by (induction xs) auto

lemma count_sum: "int (count_where P xs) = sum_list (map (\<lambda>x. if P x then 1 else 0) xs)"
  by (induction xs) auto

lemma length_sum: "int (length xs) = sum_list (map (\<lambda>_. 1) xs)"
  by (induction xs) auto

lemma zero_sum [simp]: "sum_list (map (\<lambda>_. 0) xs) = (0 :: int)"
  by (induction xs) auto

lemma rows_agree:
  assumes hyps: "within_a_day offset" "zone_of storeId w = Some zone" "distinct (map day_key (bk_days bk))"
    "no_stale_rows offset zone storeId wn w bk"
    and D: "\<And>d. D d \<Longrightarrow> day_in wn d"
  shows "sum_rows (filter (\<lambda>r. dy_store r = storeId \<and> D (dy_date r))
      (bk_days (snd (recomputeStore offset now storeId wn w bk)))) =
    trade_figures (orders_of_days offset zone storeId D w) (refunds_of_days offset zone storeId D w)"
proof -
  note column = column_sum [OF hyps D, where now = now]
  show ?thesis
    unfolding sum_rows_def trade_figures_def
    apply (simp del: filter_filter)
    apply (intro conjI)
    subgoal by (subst column [where fo = "\<lambda>_. 1" and fr = "\<lambda>_. 0"]) (simp_all add: day_row_def Let_def length_sum)
    subgoal by (subst column [where fo = o_subtotal and fr = "\<lambda>_. 0"]) (simp_all add: day_row_def Let_def)
    subgoal by (subst column [where fo = o_discount and fr = "\<lambda>_. 0"]) (simp_all add: day_row_def Let_def)
    subgoal by (subst column [where fo = o_tax and fr = "\<lambda>_. 0"]) (simp_all add: day_row_def Let_def)
    subgoal by (subst column [where fo = "\<lambda>_. 0" and fr = r_amount]) (simp_all add: day_row_def Let_def)
    subgoal by (subst column [where fo = "\<lambda>x. o_subtotal x - o_discount x" and fr = "\<lambda>r. - r_amount r"])
        (simp_all add: day_row_def Let_def minus_sum diff_sum)
    subgoal by (subst column [where fo = "\<lambda>x. if o_channel x = POS then 1 else 0" and fr = "\<lambda>_. 0"])
        (simp_all add: day_row_def Let_def count_sum)
    subgoal by (subst column [where fo = "\<lambda>x. if o_channel x = ONLINE then 1 else 0" and fr = "\<lambda>_. 0"])
        (simp_all add: day_row_def Let_def count_sum)
    done
qed

section \<open>Grouping\<close>

lemma sum_groups:
  fixes f :: "'a \<Rightarrow> int"
  assumes "distinct ks" and "key ` set rows \<subseteq> set ks"
  shows "sum_list (map (\<lambda>k. sum_list (map f (filter (\<lambda>r. key r = k) rows))) ks) = sum_list (map f rows)"
proof -
  have "sum_list (map (\<lambda>k. sum_list (map f (filter (\<lambda>r. key r = k) rows))) ks) =
      (\<Sum>k\<in>set ks. sum_list (map f (filter (\<lambda>r. True \<and> key r = k) rows)))"
    by (simp add: sum_list_distinct_conv_sum_set [OF assms(1)])
  also have "\<dots> = sum_list (map f (filter (\<lambda>r. True \<and> key r \<in> set ks) rows))"
    by (rule sum_over_days) simp
  also have "filter (\<lambda>r. True \<and> key r \<in> set ks) rows = rows"
    using assms(2) by (auto simp: filter_id_conv)
  finally show ?thesis .
qed

lemma total_sums:
  "total points =
     \<lparr>fg_orders = sum_list (map (\<lambda>p. fg_orders (pt_figures p)) points),
      fg_gross = sum_list (map (\<lambda>p. fg_gross (pt_figures p)) points),
      fg_discounts = sum_list (map (\<lambda>p. fg_discounts (pt_figures p)) points),
      fg_tax = sum_list (map (\<lambda>p. fg_tax (pt_figures p)) points),
      fg_refunds = sum_list (map (\<lambda>p. fg_refunds (pt_figures p)) points),
      fg_net = sum_list (map (\<lambda>p. fg_net (pt_figures p)) points),
      fg_pos = sum_list (map (\<lambda>p. fg_pos (pt_figures p)) points),
      fg_online = sum_list (map (\<lambda>p. fg_online (pt_figures p)) points)\<rparr>"
proof -
  have "foldl (\<lambda>acc p. let f = pt_figures p in
         \<lparr>fg_orders = fg_orders acc + fg_orders f, fg_gross = fg_gross acc + fg_gross f,
          fg_discounts = fg_discounts acc + fg_discounts f, fg_tax = fg_tax acc + fg_tax f,
          fg_refunds = fg_refunds acc + fg_refunds f, fg_net = fg_net acc + fg_net f,
          fg_pos = fg_pos acc + fg_pos f, fg_online = fg_online acc + fg_online f\<rparr>) a points =
     \<lparr>fg_orders = fg_orders a + sum_list (map (\<lambda>p. fg_orders (pt_figures p)) points),
      fg_gross = fg_gross a + sum_list (map (\<lambda>p. fg_gross (pt_figures p)) points),
      fg_discounts = fg_discounts a + sum_list (map (\<lambda>p. fg_discounts (pt_figures p)) points),
      fg_tax = fg_tax a + sum_list (map (\<lambda>p. fg_tax (pt_figures p)) points),
      fg_refunds = fg_refunds a + sum_list (map (\<lambda>p. fg_refunds (pt_figures p)) points),
      fg_net = fg_net a + sum_list (map (\<lambda>p. fg_net (pt_figures p)) points),
      fg_pos = fg_pos a + sum_list (map (\<lambda>p. fg_pos (pt_figures p)) points),
      fg_online = fg_online a + sum_list (map (\<lambda>p. fg_online (pt_figures p)) points)\<rparr>" for a :: figures
    by (induction points arbitrary: a) (auto simp: Let_def add.assoc)
  then show ?thesis by (simp add: total_def)
qed

lemma total_grouped: "total (grouped key rows) = sum_rows rows"
proof -
  have "sum_list (map (\<lambda>k. sum_list (map f (filter (\<lambda>r. key r = k) rows))) (sort (remdups (map key rows)))) =
      sum_list (map f rows)" for f :: "daily_sales \<Rightarrow> int"
    by (rule sum_groups) auto
  then show ?thesis by (simp add: total_sums grouped_def sum_rows_def comp_def)
qed

lemma grouped_ascending: "sorted_wrt (<) (map pt_date (grouped key rows))"
  by (simp add: grouped_def comp_def strict_sorted_iff)

lemma grouped_point:
  "p \<in> set (grouped key rows) \<Longrightarrow> pt_figures p = sum_rows (filter (\<lambda>r. key r = pt_date p) rows)"
  by (auto simp: grouped_def)

section \<open>A report and the trade it reports\<close>

lemma month_at_most_31: "month_days y m \<le> 31"
  using month_days_bounds by simp

lemma parse_of_sql:
  assumes "date_shape s" and "sql_date s = Inr d"
  shows "parseDate s field = Inr d"
  using assms month_at_most_31 [of "date_year s" "date_month s"]
  by (auto simp: parseDate_def sql_date_def split: if_splits)

text \<open>
  C25. Where the books hold, for the days of a window, rows only of days that still have trade, a
  report over days inside it is the trade itself once the pass has run over the window: its totals
  are the sums of the orders placed and the refunds issued on those local days, its points stand
  in order of their period, and each carries the sums of its own period, by day, week or month.
  (That no row is stale is a condition: a day whose every order has been cancelled since its row
  was written keeps that row, which is one of the faults found, and such a day is not spoken of
  here.)
\<close>

theorem sales_report_is_the_trade:
  assumes "within_a_day offset" and "zone_of storeId w = Some zone" and "distinct (map day_key (bk_days bk))"
    and "no_stale_rows offset zone storeId wn w bk"
    and "date_shape from_text" and "sql_date from_text = Inr a" and "date_shape to_text" and "sql_date to_text = Inr b"
    and "wn_from wn \<le> a" and "a \<le> b" and "b \<le> wn_to wn" and "b - a < MAX_DAYS"
    and "grain \<in> {''day'', ''week'', ''month''}"
  shows "\<exists>report. sales storeId from_text to_text (Some grain) (snd (recomputeStore offset now storeId wn w bk)) = Inr report \<and>
    rp_totals report = trade_figures (orders_of_days offset zone storeId (\<lambda>d. a \<le> d \<and> d \<le> b) w)
      (refunds_of_days offset zone storeId (\<lambda>d. a \<le> d \<and> d \<le> b) w) \<and>
    sorted_wrt (<) (map pt_date (rp_points report)) \<and>
    list_all (\<lambda>p. pt_figures p =
      trade_figures (orders_of_days offset zone storeId (\<lambda>d. a \<le> d \<and> d \<le> b \<and> bucket grain d = pt_date p) w)
        (refunds_of_days offset zone storeId (\<lambda>d. a \<le> d \<and> d \<le> b \<and> bucket grain d = pt_date p) w)) (rp_points report)"
proof -
  let ?bk = "snd (recomputeStore offset now storeId wn w bk)"
  let ?points = "grouped (\<lambda>r. bucket grain (dy_date r)) (rows_between storeId a b ?bk)"
  have agree: "sum_rows (filter (\<lambda>r. dy_store r = storeId \<and> D (dy_date r)) (bk_days ?bk)) =
      trade_figures (orders_of_days offset zone storeId D w) (refunds_of_days offset zone storeId D w)"
    if "\<And>d. D d \<Longrightarrow> a \<le> d \<and> d \<le> b" for D
    by (rule rows_agree [OF assms(1-4)]) (use that assms(9,11) in \<open>force simp: day_in_def\<close>)
  have totals: "total ?points = trade_figures (orders_of_days offset zone storeId (\<lambda>d. a \<le> d \<and> d \<le> b) w)
      (refunds_of_days offset zone storeId (\<lambda>d. a \<le> d \<and> d \<le> b) w)"
    unfolding total_grouped rows_between_def by (rule agree)
  have point: "pt_figures p =
      trade_figures (orders_of_days offset zone storeId (\<lambda>d. a \<le> d \<and> d \<le> b \<and> bucket grain d = pt_date p) w)
        (refunds_of_days offset zone storeId (\<lambda>d. a \<le> d \<and> d \<le> b \<and> bucket grain d = pt_date p) w)"
    if "p \<in> set ?points" for p
  proof -
    have "filter (\<lambda>r. bucket grain (dy_date r) = pt_date p) (rows_between storeId a b ?bk) =
        filter (\<lambda>r. dy_store r = storeId \<and> a \<le> dy_date r \<and> dy_date r \<le> b \<and> bucket grain (dy_date r) = pt_date p) (bk_days ?bk)"
      by (auto simp: rows_between_def intro: filter_cong)
    then show ?thesis unfolding grouped_point [OF that] by (simp only:) (rule agree, simp)
  qed
  have "sales storeId from_text to_text (Some grain) ?bk =
      Inr \<lparr>rp_grain = grain, rp_from = from_text, rp_to = to_text, rp_points = ?points, rp_totals = total ?points\<rparr>"
    using assms(10,12,13) parse_of_sql [OF assms(5,6)] parse_of_sql [OF assms(7,8)]
    by (auto simp: sales_def check_range_def assms(6,8) Let_def)
  then show ?thesis using totals point grouped_ascending by (simp add: list_all_iff)
qed

text \<open>A shop six hours behind UTC: a sale late on 1 March, one online the next day, and a refund.\<close>

definition chicago :: "string \<Rightarrow> int \<Rightarrow> int" where
  "chicago zone t = -21600000"

definition traded_order :: "string \<Rightarrow> order_channel \<Rightarrow> order_status \<Rightarrow> int \<Rightarrow> int \<Rightarrow> int \<Rightarrow> order" where
  "traded_order i ch st subtotal discount t =
     \<lparr>o_id = i, o_store = ''s1'', o_number = i, o_customer = None, o_channel = ch, o_fulfillment = FUL_PICKUP,
      o_status = st, o_subtotal = subtotal, o_discount = discount, o_tax = 0, o_delivery_fee = 0, o_tip = 0,
      o_total = subtotal - discount, o_currency = ''usd'', o_address = None, o_note = None, o_email = None,
      o_phone = None, o_guest_token = None, o_idem = None, o_coupon = None, o_coupon_code = None,
      o_placed_at = t, o_expires_at = None\<rparr>"

definition sample_trade :: world where
  "sample_trade =
     empty_world\<lparr>w_stores := [sample_store ACTIVE],
       w_orders := [traded_order ''o1'' POS PICKED_UP 1000 100 1772420400000,
         traded_order ''o2'' ONLINE CONFIRMED 500 0 1772463600000,
         traded_order ''o3'' ONLINE CANCELLED 900 0 1772463600000],
       w_refunds := [\<lparr>r_id = ''r1'', r_store = ''s1'', r_payment = ''p1'', r_amount = 300, r_reason = None,
         r_note = None, r_status = RF_SUCCEEDED, r_stripe = None, r_actor = None, r_created = 1772463600000\<rparr>]\<rparr>"

definition sample_books :: books where
  "sample_books = \<lparr>bk_days = [], bk_products = [], bk_customers = []\<rparr>"

lemma chicago_within: "within_a_day chicago"
  by (simp add: within_a_day_def chicago_def ONE_DAY_def)

theorem sales_report_is_the_trade_witness:
  "\<exists>report. sales ''s1'' ''2026-03-01'' ''2026-03-02'' (Some ''day'')
      (snd (recomputeStore chicago 7 ''s1'' \<lparr>wn_from = 20512, wn_to = 20515\<rparr> sample_trade sample_books)) = Inr report \<and>
    fg_orders (rp_totals report) = 2 \<and> fg_net (rp_totals report) = 1100"
proof -
  have z: "zone_of ''s1'' sample_trade = Some (s_timezone (sample_store ACTIVE))"
    by (simp add: zone_of_def sample_trade_def sample_store_def)
  have keys: "distinct (map day_key (bk_days sample_books))"
    and stale: "no_stale_rows chicago (s_timezone (sample_store ACTIVE)) ''s1'' \<lparr>wn_from = 20512, wn_to = 20515\<rparr> sample_trade sample_books"
    by (simp_all add: sample_books_def no_stale_rows_def)
  have dates: "date_shape ''2026-03-01''" "sql_date ''2026-03-01'' = Inr 20513"
    "date_shape ''2026-03-02''" "sql_date ''2026-03-02'' = Inr 20514"
    by code_simp+
  have sums: "fg_orders (trade_figures (orders_of_days chicago zone ''s1'' (\<lambda>d. 20513 \<le> d \<and> d \<le> 20514) sample_trade)
        (refunds_of_days chicago zone ''s1'' (\<lambda>d. 20513 \<le> d \<and> d \<le> 20514) sample_trade)) = 2"
    "fg_net (trade_figures (orders_of_days chicago zone ''s1'' (\<lambda>d. 20513 \<le> d \<and> d \<le> 20514) sample_trade)
        (refunds_of_days chicago zone ''s1'' (\<lambda>d. 20513 \<le> d \<and> d \<le> 20514) sample_trade)) = 1100" for zone
    by (simp_all add: trade_figures_def orders_of_days_def refunds_of_days_def sample_trade_def empty_world_def
        traded_order_def in_trade_def paid_back_def COUNTED_STATUSES_def local_day_def chicago_def ONE_DAY_def)
  show ?thesis
    using sales_report_is_the_trade [OF chicago_within z keys stale dates, of "''day''" 7] sums
    by (auto simp: MAX_DAYS_def)
qed

text \<open>
  A backfill a month at a time leaves for every shop and day the row that one pass over the whole
  window would, so long as the window begins after 1970 and the loop's six hundred months reach its end.
\<close>

theorem backfill_is_one_pass:
  assumes "within_a_day offset" and "zone_of storeId w = Some zone"
    and "0 \<le> wn_from wn" and "wn_to wn - wn_from wn < 28 * 599"
  shows "day_of s d (snd (backfill offset rank users now storeId wn w bk)) =
    day_of s d (snd (recomputeStore offset now storeId wn w bk))"
  unfolding backfill_def day_after_chunks [OF assms(1,2)] day_after_recompute [OF assms(1,2)] in_chunks
    chunks_partition [OF assms(3,4)]
  by (simp add: day_in_def)

theorem backfill_is_one_pass_witness:
  "day_of ''s1'' 20514 (snd (backfill chicago (\<lambda>_. 0) [] 7 ''s1'' \<lparr>wn_from = 20500, wn_to = 20520\<rparr> sample_trade sample_books)) =
   Some (true_row chicago 7 (s_timezone (sample_store ACTIVE)) ''s1'' 20514 sample_trade)"
proof -
  have z: "zone_of ''s1'' sample_trade = Some (s_timezone (sample_store ACTIVE))"
    by (simp add: zone_of_def sample_trade_def sample_store_def)
  have "traded chicago (s_timezone (sample_store ACTIVE)) ''s1'' 20514 sample_trade"
    by (simp add: traded_def orders_on_def sample_trade_def empty_world_def
        traded_order_def in_trade_def COUNTED_STATUSES_def local_day_def chicago_def ONE_DAY_def)
  then show ?thesis
    using backfill_is_one_pass [OF chicago_within z, of "\<lparr>wn_from = 20500, wn_to = 20520\<rparr>" "''s1''" 20514 "\<lambda>_. 0" "[]" 7 sample_books]
    by (simp add: day_after_recompute [OF chicago_within z] day_in_def)
qed

section \<open>Lines and customers\<close>

text \<open>The lines of the orders in trade, each with the day of its order.\<close>

definition lines_of_days ::
    "(string \<Rightarrow> int \<Rightarrow> int) \<Rightarrow> string \<Rightarrow> string \<Rightarrow> (int \<Rightarrow> bool) \<Rightarrow> world \<Rightarrow> (int \<times> order_item) list" where
  "lines_of_days offset zone storeId D w =
     concat (map (\<lambda>i. map (\<lambda>x. (local_day offset zone (o_placed_at x), i))
         (filter (\<lambda>x. o_id x = oi_order i) (orders_of_days offset zone storeId D w)))
       (filter (\<lambda>i. oi_store i = storeId) (w_items w)))"

lemma window_orders_of_days:
  assumes "within_a_day offset"
  shows "window_orders offset zone storeId wn w = orders_of_days offset zone storeId (day_in wn) w"
  using near_of_day [OF assms]
  by (auto simp: window_orders_def orders_of_days_def in_trade_def intro: filter_cong)

lemma window_lines_of_days:
  "within_a_day offset \<Longrightarrow> window_lines offset zone storeId wn w = lines_of_days offset zone storeId (day_in wn) w"
  by (simp add: window_lines_def lines_of_days_def window_orders_of_days)

lemma filter_lines_of_days:
  "filter (\<lambda>di. E (fst di)) (lines_of_days offset zone storeId D w) =
   lines_of_days offset zone storeId (\<lambda>d. D d \<and> E d) w"
proof -
  have one: "filter (\<lambda>di. E (fst di)) (map (\<lambda>x. (local_day offset zone (o_placed_at x), i))
      (filter (\<lambda>x. o_id x = oi_order i) (orders_of_days offset zone storeId D w))) =
    map (\<lambda>x. (local_day offset zone (o_placed_at x), i))
      (filter (\<lambda>x. o_id x = oi_order i) (orders_of_days offset zone storeId (\<lambda>d. D d \<and> E d) w))" for i
    by (auto simp: filter_map orders_of_days_def comp_def intro!: arg_cong [where f = "map _"] filter_cong)
  then show ?thesis by (simp add: lines_of_days_def filter_concat comp_def one)
qed

lemma product_row_fields [simp]:
  "dp_store (product_row rank storeId now g is) = storeId" "dp_date (product_row rank storeId now g is) = fst g"
  "dp_units (product_row rank storeId now g is) = sum_list (map oi_qty is)"
  "dp_revenue (product_row rank storeId now g is) = sum_list (map oi_total is)"
  by (auto simp: product_row_def split: prod.splits)

lemma line_group_day [simp]: "fst (line_group di) = fst di"
  by (simp add: line_group_def split: prod.splits)

lemma line_column:
  fixes sel :: "daily_product \<Rightarrow> int"
  assumes "within_a_day offset" and "zone_of storeId w = Some zone" and "\<And>d. a \<le> d \<Longrightarrow> d \<le> b \<Longrightarrow> day_in wn d"
    and "\<And>g is. sel (product_row rank storeId now g is) = sum_list (map fi is)"
  shows "sum_list (map sel (lines_between storeId a b (snd (recomputeStoreProducts offset rank now storeId wn w bk)))) =
    sum_list (map (\<lambda>di. fi (snd di)) (lines_of_days offset zone storeId (\<lambda>d. a \<le> d \<and> d \<le> b) w))"
proof -
  let ?lines = "lines_of_days offset zone storeId (day_in wn) w"
  let ?in = "\<lambda>d. a \<le> d \<and> d \<le> b"
  let ?some = "filter (\<lambda>di. ?in (fst di)) ?lines"
  let ?ks = "filter (\<lambda>g. ?in (fst g)) (remdups (map line_group ?lines))"
  let ?row = "\<lambda>g. product_row rank storeId now g (map snd (filter (\<lambda>di. line_group di = g) ?lines))"
  have none: "filter (\<lambda>r. dp_store r = storeId \<and> ?in (dp_date r))
      (filter (\<lambda>r. \<not> (dp_store r = storeId \<and> day_in wn (dp_date r))) (bk_products bk)) = []"
    using assms(3) by (auto simp: filter_empty_conv)
  have "lines_between storeId a b (snd (recomputeStoreProducts offset rank now storeId wn w bk)) = map ?row ?ks"
    using none by (simp add: recomputeStoreProducts_def lines_between_def Let_def assms(2)
        window_lines_of_days [OF assms(1)] filter_map comp_def)
  then have "sum_list (map sel (lines_between storeId a b (snd (recomputeStoreProducts offset rank now storeId wn w bk)))) =
      sum_list (map (\<lambda>g. sum_list (map (\<lambda>di. fi (snd di)) (filter (\<lambda>di. line_group di = g) ?lines))) ?ks)"
    by (simp add: assms(4) comp_def)
  also have "\<dots> = sum_list (map (\<lambda>g. sum_list (map (\<lambda>di. fi (snd di)) (filter (\<lambda>di. line_group di = g) ?some))) ?ks)"
  proof (rule arg_cong [where f = sum_list], rule map_cong [OF refl])
    fix g assume "g \<in> set ?ks"
    then have "?in (fst di)" if "line_group di = g" for di using line_group_day [of di] that by simp
    then have "filter (\<lambda>di. line_group di = g) ?lines = filter (\<lambda>di. line_group di = g) ?some"
      by (auto intro: filter_cong)
    then show "sum_list (map (\<lambda>di. fi (snd di)) (filter (\<lambda>di. line_group di = g) ?lines)) =
        sum_list (map (\<lambda>di. fi (snd di)) (filter (\<lambda>di. line_group di = g) ?some))" by (simp only:)
  qed
  also have "\<dots> = sum_list (map (\<lambda>di. fi (snd di)) ?some)"
    by (rule sum_groups) auto
  also have "?some = lines_of_days offset zone storeId ?in w"
  proof -
    have "(\<lambda>d. day_in wn d \<and> ?in d) = ?in" using assms(3) by auto
    then show ?thesis using filter_lines_of_days [of ?in offset zone storeId "day_in wn" w] by (simp only:)
  qed
  finally show ?thesis .
qed

lemma products_are_the_lines:
  assumes "within_a_day offset" and "zone_of storeId w = Some zone" and "wn_from wn \<le> a" and "b \<le> wn_to wn"
  shows "sum_list (map dp_units (lines_between storeId a b (snd (recomputeStoreProducts offset rank now storeId wn w bk)))) =
      sum_list (map (\<lambda>di. oi_qty (snd di)) (lines_of_days offset zone storeId (\<lambda>d. a \<le> d \<and> d \<le> b) w))"
    and "sum_list (map dp_revenue (lines_between storeId a b (snd (recomputeStoreProducts offset rank now storeId wn w bk)))) =
      sum_list (map (\<lambda>di. oi_total (snd di)) (lines_of_days offset zone storeId (\<lambda>d. a \<le> d \<and> d \<le> b) w))"
  by (rule line_column [OF assms(1,2)]; use assms(3,4) in \<open>simp add: day_in_def\<close>)+

text \<open>Whoever ordered near the window has one row, of all their orders in trade, or none when they have none.\<close>

lemma filter_concat_one:
  assumes "distinct cs" and "\<And>c r. r \<in> set (f c) \<Longrightarrow> P r \<longleftrightarrow> c = k"
  shows "filter P (concat (map f cs)) = (if k \<in> set cs then f k else [])"
  using assms(1)
proof (induction cs)
  case (Cons c cs)
  have "filter P (f c) = (if c = k then f c else [])" using assms(2) by (auto simp: filter_id_conv filter_empty_conv)
  then show ?case using Cons by auto
qed simp

lemma customer_after_recompute:
  assumes "c \<in> set (seen_near storeId wn w)"
  shows "filter (\<lambda>r. sc_store r = storeId \<and> sc_customer r = c)
      (bk_customers (snd (recomputeStoreCustomers users now storeId wn w bk))) =
    customer_row users storeId now c (orders_of_customer storeId c w)"
proof -
  have row: "r \<in> set (customer_row users storeId now k os) \<Longrightarrow> sc_store r = storeId \<and> sc_customer r = k" for r k os
    by (auto simp: customer_row_def split: option.splits if_splits)
  have "filter (\<lambda>r. sc_store r = storeId \<and> sc_customer r = c)
      (concat (map (\<lambda>c. customer_row users storeId now c (orders_of_customer storeId c w)) (remdups (seen_near storeId wn w)))) =
    customer_row users storeId now c (orders_of_customer storeId c w)"
    by (subst filter_concat_one [where k = c]) (use assms row in auto)
  moreover have "filter (\<lambda>r. sc_store r = storeId \<and> sc_customer r = c)
      (filter (\<lambda>r. \<not> (sc_store r = storeId \<and> sc_customer r \<in> set (seen_near storeId wn w))) (bk_customers bk)) = []"
    using assms by (auto simp: filter_empty_conv)
  ultimately show ?thesis by (simp add: recomputeStoreCustomers_def Let_def del: filter_filter)
qed

section \<open>Where the figures go wrong\<close>

text \<open>
  A day with one order has its row; the order is cancelled, and the next pass leaves the row as it
  was: the day has no group any more, so nothing overwrites it.
\<close>

definition one_sale :: "order_status \<Rightarrow> world" where
  "one_sale st = empty_world\<lparr>w_stores := [sample_store ACTIVE], w_orders := [traded_order ''o1'' ONLINE st 1000 0 1772463600000]\<rparr>"

lemma cancelled_day_keeps_its_row:
  "let wn = \<lparr>wn_from = 20513, wn_to = 20515\<rparr>;
       b1 = snd (recomputeStore chicago 7 ''s1'' wn (one_sale CONFIRMED) sample_books);
       b2 = snd (recomputeStore chicago 9 ''s1'' wn (one_sale CANCELLED) b1)
   in b2 = b1 \<and> map_option dy_net (day_of ''s1'' 20514 b2) = Some 1000"
  by (simp add: Let_def recomputeStore_def zone_of_def one_sale_def sample_store_def sample_books_def merged_def
      window_orders_def window_refunds_def empty_world_def traded_order_def COUNTED_STATUSES_def near_window_def
      day_in_def local_day_def chicago_def ONE_DAY_def upsert_day_def day_row_def day_of_def)

text \<open>
  East of UTC the local day begins before the day of the pass does: an order of this morning is in
  no window the pass looks at, and the owner's view says that nothing was sold today.
\<close>

definition sydney :: "string \<Rightarrow> int \<Rightarrow> int" where
  "sydney zone t = 39600000"

definition morning :: world where
  "morning = empty_world\<lparr>w_stores := [sample_store ACTIVE], w_orders := [traded_order ''o1'' ONLINE CONFIRMED 1000 0 1772481600000]\<rparr>"

lemma morning_sale_unseen:
  "let now = 1772482000000; bk = snd (runIncremental sydney (\<lambda>_. 0) [] now 3 morning sample_books)
   in map o_id (orders_on sydney ''Australia/Sydney'' ''s1'' (local_day sydney ''Australia/Sydney'' now) morning) = [''o1''] \<and>
      su_today (summary sydney now ''s1'' morning bk) = (0, 0)"
  by (simp add: Let_def runIncremental_def recompute_all_def recomputeStore_def recomputeStoreProducts_def
      recomputeStoreCustomers_def zone_of_def morning_def sample_store_def sample_books_def merged_def seen_near_def
      window_orders_def window_refunds_def window_lines_def empty_world_def traded_order_def COUNTED_STATUSES_def
      near_window_def day_in_def local_day_def sydney_def ONE_DAY_def orders_on_def in_trade_def summary_def
      net_and_orders_def)

text \<open>The thirtieth of February passes the check of the dates and is refused by the database.\<close>

lemma thirtieth_of_february: "sales storeId ''2026-02-30'' ''2026-03-02'' None bk = Inl (CheckViolation ''date'')"
proof -
  have "parseDate ''2026-02-30'' ''from'' = Inr 20514" "parseDate ''2026-03-02'' ''to'' = Inr 20514"
    "sql_date ''2026-02-30'' = Inl (CheckViolation ''date'')"
    by code_simp+
  then show ?thesis by (simp add: sales_def check_range_def Let_def MAX_DAYS_def)
qed

end
