(* ===== verification/Media.thy ===== *)
theory Media
  imports Schema Permissions
begin

text \<open>
  Uploaded images (\<open>modules/media\<close>, \<open>infra/storage\<close>, \<open>infra/queue\<close>, \<open>worker/media-processor.ts\<close>): a
  client is given a signed permission to put one file into quarantine, says when it has, and the worker decides
  what the file is, re-encodes it and records the verdict.  Bytes are text.  Recognising and
  decoding an image and computing a signature are packages: they are the functions of two records.
  The queue keeps every job it was given and may hand a worker the same job again, which is what
  its retries and its recovery of stalled jobs do.  Random identifiers and the clock are supplied.
\<close>

section \<open>State\<close>

record media_row = media_asset +
  mr_owner :: "string option"
  mr_mime :: string
  mr_bytes :: int
  mr_width :: "int option"
  mr_height :: "int option"
  mr_name :: "string option"
  mr_reject :: "string option"
  mr_private :: bool

record media_job =
  jb_asset :: string
  jb_key :: string

record media =
  mt_rows :: "media_row list"
  mt_quarantine :: "string \<rightharpoonup> string"
  mt_public :: "string \<rightharpoonup> string"
  mt_private :: "string \<rightharpoonup> string"
  mt_jobs :: "media_job list"
  mt_audit :: "audit_entry list"

type_synonym 'a media_outcome = "'a res \<times> media"

definition ACCEPTED_MIME :: "string list" where
  "ACCEPTED_MIME = [''image/jpeg'', ''image/png'', ''image/webp'', ''image/avif'']"

definition MAX_BYTES :: int where
  "MAX_BYTES = 10 * 1024 * 1024"

definition VARIANTS :: "(string \<times> int) list" where
  "VARIANTS = [(''thumb'', 200), (''medium'', 800), (''large'', 1600)]"

text \<open>What the image packages answer: the type they recognise, the dimensions, and the file re-encoded within an edge.\<close>

record image_tools =
  it_detect :: "string \<Rightarrow> string option"
  it_metadata :: "string \<Rightarrow> (int \<times> int) option"
  it_encode :: "int option \<Rightarrow> string \<Rightarrow> string option"

section \<open>Signed permissions\<close>

record upload_grant =
  ug_key :: string
  ug_mime :: string
  ug_max :: int
  ug_exp :: int

record read_grant =
  rg_key :: string
  rg_exp :: int

text \<open>The keyed hash and the two texts of a permission, with their readers.\<close>

record signer =
  sg_mac :: "string \<Rightarrow> string \<Rightarrow> string"
  sg_hex :: "string \<Rightarrow> string \<Rightarrow> string"
  sg_upload_text :: "upload_grant \<Rightarrow> string"
  sg_upload_read :: "string \<Rightarrow> upload_grant option"
  sg_read_text :: "read_grant \<Rightarrow> string"
  sg_read_read :: "string \<Rightarrow> read_grant option"

definition DEFAULT_UPLOAD_TTL_MS :: int where
  "DEFAULT_UPLOAD_TTL_MS = 15 * 60 * 1000"

definition DEFAULT_READ_TTL_MS :: int where
  "DEFAULT_READ_TTL_MS = 10 * 60 * 1000"

definition read_secret :: "signer \<Rightarrow> string \<Rightarrow> string" where
  "read_secret sg uploadSecret = sg_hex sg uploadSecret ''read''"

definition sign_text :: "signer \<Rightarrow> string \<Rightarrow> string \<Rightarrow> string" where
  "sign_text sg secret payload = payload @ ''.'' @ sg_mac sg secret payload"

text \<open>\<open>token.split(".")\<close>: the first two parts, whatever follows.\<close>

definition token_parts :: "string \<Rightarrow> string \<times> string" where
  "token_parts token =
     (takeWhile (\<lambda>c. c \<noteq> CHR ''.'') token,
      takeWhile (\<lambda>c. c \<noteq> CHR ''.'') (drop 1 (dropWhile (\<lambda>c. c \<noteq> CHR ''.'') token)))"

definition verify_text :: "signer \<Rightarrow> string \<Rightarrow> (string \<Rightarrow> 'g option) \<Rightarrow> ('g \<Rightarrow> int) \<Rightarrow> int \<Rightarrow> string \<Rightarrow> 'g res" where
  "verify_text sg secret readers expiry now token =
     (case token_parts token of (payload, signature) \<Rightarrow>
        if payload = [] \<or> signature = [] then Inl (ProviderError ''Malformed token.'')
        else if signature \<noteq> sg_mac sg secret payload then Inl (ProviderError ''Invalid token.'')
        else (case readers payload of
            None \<Rightarrow> Inl (ProviderError ''Malformed token.'')
          | Some g \<Rightarrow> if expiry g < now then Inl (ProviderError ''This link has expired.'') else Inr g))"

definition strip_slash :: "string \<Rightarrow> string" where
  "strip_slash s = (if s \<noteq> [] \<and> last s = CHR ''/'' then butlast s else s)"

record presigned_upload =
  pu_url :: string
  pu_content_type :: string
  pu_max :: int
  pu_expires :: int

definition presignUpload :: "signer \<Rightarrow> string \<Rightarrow> string \<Rightarrow> int \<Rightarrow> string \<Rightarrow> string \<Rightarrow> int \<Rightarrow> presigned_upload" where
  "presignUpload sg uploadSecret baseUrl now key mime maxBytes =
     (let expires = now + DEFAULT_UPLOAD_TTL_MS;
          grant = \<lparr>ug_key = key, ug_mime = mime, ug_max = maxBytes, ug_exp = expires\<rparr>
      in \<lparr>pu_url = strip_slash baseUrl @ ''/'' @ sign_text sg uploadSecret (sg_upload_text sg grant),
          pu_content_type = mime, pu_max = maxBytes, pu_expires = expires\<rparr>)"

definition verifyGrant :: "signer \<Rightarrow> string \<Rightarrow> int \<Rightarrow> string \<Rightarrow> upload_grant res" where
  "verifyGrant sg uploadSecret now token = verify_text sg uploadSecret (sg_upload_read sg) ug_exp now token"

definition presignRead :: "signer \<Rightarrow> string \<Rightarrow> string \<Rightarrow> int \<Rightarrow> string \<Rightarrow> int option \<Rightarrow> string" where
  "presignRead sg uploadSecret baseUrl now key ttl =
     strip_slash baseUrl @ ''/'' @ sign_text sg (read_secret sg uploadSecret)
       (sg_read_text sg \<lparr>rg_key = key, rg_exp = now + or_else ttl DEFAULT_READ_TTL_MS\<rparr>)"

definition verifyReadGrant :: "signer \<Rightarrow> string \<Rightarrow> int \<Rightarrow> string \<Rightarrow> read_grant res" where
  "verifyReadGrant sg uploadSecret now token = verify_text sg (read_secret sg uploadSecret) (sg_read_read sg) rg_exp now token"

section \<open>Paths on the disk\<close>

fun path_parts :: "string \<Rightarrow> string list" where
  "path_parts [] = [[]]"
| "path_parts (c # cs) =
     (if c = CHR ''/'' then [] # path_parts cs
      else (case path_parts cs of [] \<Rightarrow> [[c]] | p # ps \<Rightarrow> (c # p) # ps))"

text \<open>\<open>resolve\<close>: empty and dot parts go, and two dots drop the part before.\<close>

fun resolve_parts :: "string list \<Rightarrow> string list \<Rightarrow> string list" where
  "resolve_parts done_parts [] = done_parts"
| "resolve_parts done_parts (p # ps) =
     (if p = [] \<or> p = ''.'' then resolve_parts done_parts ps
      else if p = ''..'' then resolve_parts (butlast done_parts) ps
      else resolve_parts (done_parts @ [p]) ps)"

definition safePath :: "string list \<Rightarrow> string \<Rightarrow> string list res" where
  "safePath base relative =
     (let path = resolve_parts base (path_parts relative)
      in if take (length base) path = base then Inr path
         else Inl (ProviderError (''Refusing to write outside the storage root: '' @ relative)))"

section \<open>Keys\<close>

fun kind_text :: "media_kind \<Rightarrow> string" where
  "kind_text MK_PRODUCT = ''product''"
| "kind_text MK_BRANDING = ''branding''"
| "kind_text MK_PROOF = ''proof''"
| "kind_text MK_SIGNATURE = ''signature''"
| "kind_text MK_EXPORT = ''export''"

definition quarantineKeyFor :: "string \<Rightarrow> string" where
  "quarantineKeyFor baseKey = baseKey @ ''.bin''"

definition variant_key :: "string \<Rightarrow> string \<Rightarrow> string" where
  "variant_key baseKey name = baseKey @ ''/'' @ name @ ''.webp''"

definition public_url :: "string \<Rightarrow> string \<Rightarrow> string" where
  "public_url baseUrl key = strip_slash baseUrl @ ''/public/'' @ key"

section \<open>Who sees a row\<close>

record tenant_scope =
  ts_store :: "string option"
  ts_user :: "string option"
  ts_super :: bool

definition same_tenant :: "tenant_scope \<Rightarrow> media_row \<Rightarrow> bool" where
  "same_tenant sc r \<longleftrightarrow>
     ts_super sc \<or> (ma_store r \<noteq> None \<and> ma_store r = ts_store sc) \<or> (mr_owner r \<noteq> None \<and> mr_owner r = ts_user sc)"

text \<open>Finished, open assets of a live store are everybody's.\<close>

definition readable :: "(string \<Rightarrow> bool) \<Rightarrow> tenant_scope \<Rightarrow> media_row \<Rightarrow> bool" where
  "readable live sc r \<longleftrightarrow>
     same_tenant sc r \<or>
     (\<not> mr_private r \<and> ma_status r = MA_READY \<and> (case ma_store r of None \<Rightarrow> False | Some s \<Rightarrow> live s))"

definition row_of :: "(string \<Rightarrow> bool) \<Rightarrow> tenant_scope \<Rightarrow> string \<Rightarrow> media \<Rightarrow> media_row option" where
  "row_of live sc assetId m = find (\<lambda>r. ma_id r = assetId \<and> readable live sc r) (mt_rows m)"

section \<open>Asking for an upload\<close>

record upload_input =
  ui_mime :: string
  ui_bytes :: int
  ui_name :: "string option"
  ui_kind :: media_kind
  ui_store :: "string option"
  ui_owner :: "string option"

definition pending_row :: "string \<Rightarrow> string \<Rightarrow> bool \<Rightarrow> upload_input \<Rightarrow> media_row" where
  "pending_row i baseKey private x =
     \<lparr>ma_id = i, ma_store = ui_store x, ma_kind = ui_kind x, ma_status = MA_PENDING, ma_key = baseKey,
      mr_owner = ui_owner x, mr_mime = ui_mime x, mr_bytes = ui_bytes x, mr_width = None, mr_height = None,
      mr_name = ui_name x, mr_reject = None, mr_private = private\<rparr>"

definition createPendingAsset :: "string \<Rightarrow> string \<Rightarrow> bool \<Rightarrow> upload_input \<Rightarrow> media \<Rightarrow> unit media_outcome" where
  "createPendingAsset i baseKey private x m =
     (if ui_store x = None \<and> ui_owner x = None then (Inl (CheckViolation ''media_assets''), m)
      else if \<exists>r \<in> set (mt_rows m). ma_id r = i \<or> ma_key r = baseKey then (Inl (UniqueViolation ''media_assets''), m)
      else (Inr (), m\<lparr>mt_rows := mt_rows m @ [pending_row i baseKey private x]\<rparr>))"

definition requestUpload ::
    "signer \<Rightarrow> string \<Rightarrow> string \<Rightarrow> int \<Rightarrow> string \<Rightarrow> string \<Rightarrow> upload_input \<Rightarrow> media \<Rightarrow> (string \<times> presigned_upload) media_outcome" where
  "requestUpload sg uploadSecret baseUrl now i uuid x m =
     (if ui_bytes x \<le> 0 then (Inl (Validation ''The file is empty.''), m)
      else if MAX_BYTES < ui_bytes x then (Inl (Validation ''Files must be under 10 MB.''), m)
      else if ui_mime x \<notin> set ACCEPTED_MIME
      then (Inl (Validation ''Upload a JPEG, PNG, WebP, or AVIF image.''), m)
      else let private = (ui_kind x = MK_PROOF \<or> ui_kind x = MK_SIGNATURE);
               baseKey = kind_text (ui_kind x) @ ''/'' @ uuid
           in (case createPendingAsset i baseKey private x m of
               (Inl e, m1) \<Rightarrow> (Inl e, m1)
             | (Inr _, m1) \<Rightarrow>
                 (Inr (i, presignUpload sg uploadSecret baseUrl now (quarantineKeyFor baseKey) (ui_mime x) MAX_BYTES), m1)))"

text \<open>\<open>MediaUploadController.receive\<close>: the body may be missing.\<close>

definition receive ::
    "signer \<Rightarrow> string \<Rightarrow> int \<Rightarrow> string \<Rightarrow> string option \<Rightarrow> string \<Rightarrow> media \<Rightarrow> int media_outcome" where
  "receive sg uploadSecret now token body contentType m =
     (case verifyGrant sg uploadSecret now token of
        Inl _ \<Rightarrow> (Inl (Forbidden ''This upload link is not valid.''), m)
      | Inr grant \<Rightarrow>
          if body = None \<or> body = Some [] then (Inl (Validation ''Send the file as the request body.''), m)
          else if ug_max grant < int (length (or_else body []))
          then (Inl (Validation ''That file is larger than the upload allows.''), m)
          else if contentType \<noteq> ug_mime grant
          then (Inl (Validation ''The file's type does not match what was requested.''), m)
          else (Inr (int (length (or_else body []))),
                m\<lparr>mt_quarantine := (mt_quarantine m)(ug_key grant \<mapsto> or_else body [])\<rparr>))"

section \<open>Saying it is there\<close>

record upload_result =
  ur_asset :: string
  ur_url :: "string option"
  ur_status :: media_status
  ur_reason :: "string option"

definition media_status_of :: "(string \<Rightarrow> bool) \<Rightarrow> string \<Rightarrow> string \<Rightarrow> tenant_scope \<Rightarrow> media \<Rightarrow> upload_result res" where
  "media_status_of live baseUrl assetId sc m =
     (case row_of live sc assetId m of
        None \<Rightarrow> notFound
      | Some r \<Rightarrow> Inr
          \<lparr>ur_asset = assetId,
           ur_url = (if ma_status r = MA_READY \<and> \<not> mr_private r
                     then Some (public_url baseUrl (variant_key (ma_key r) ''original'')) else None),
           ur_status = ma_status r, ur_reason = (if mr_reject r = Some [] then None else mr_reject r)\<rparr>)"

text \<open>\<open>MediaQueue.enqueue\<close>: one job per asset; another under the same identifier is ignored.\<close>

definition enqueue_media :: "media_job \<Rightarrow> media \<Rightarrow> media" where
  "enqueue_media j m =
     (if jb_asset j \<in> jb_asset ` set (mt_jobs m) then m else m\<lparr>mt_jobs := mt_jobs m @ [j]\<rparr>)"

definition discardQuarantine :: "string \<Rightarrow> media \<Rightarrow> media" where
  "discardQuarantine key m = m\<lparr>mt_quarantine := (mt_quarantine m)(key := None)\<rparr>"

definition completeUpload ::
    "(string \<Rightarrow> bool) \<Rightarrow> string \<Rightarrow> string \<Rightarrow> tenant_scope \<Rightarrow> media \<Rightarrow> upload_result media_outcome" where
  "completeUpload live baseUrl assetId sc m =
     (case row_of live sc assetId m of
        None \<Rightarrow> (notFound, m)
      | Some r \<Rightarrow>
          if ma_status r \<noteq> MA_PENDING then (media_status_of live baseUrl assetId sc m, m)
          else let quarantineKey = quarantineKeyFor (ma_key r)
               in (case mt_quarantine m quarantineKey of
                   None \<Rightarrow> (Inl (Validation ''That upload never arrived. Try uploading the file again.''), m)
                 | Some file \<Rightarrow>
                     if MAX_BYTES < int (length file)
                     then (Inl (Validation ''Files must be under 10 MB.''), discardQuarantine quarantineKey m)
                     else (Inr \<lparr>ur_asset = assetId, ur_url = None, ur_status = MA_PENDING, ur_reason = None\<rparr>,
                           enqueue_media \<lparr>jb_asset = assetId, jb_key = quarantineKey\<rparr> m)))"

section \<open>The worker\<close>

definition putProcessed :: "string \<Rightarrow> string \<Rightarrow> bool \<Rightarrow> media \<Rightarrow> media" where
  "putProcessed key body isPrivate m =
     (if isPrivate then m\<lparr>mt_private := (mt_private m)(key \<mapsto> body)\<rparr>
      else m\<lparr>mt_public := (mt_public m)(key \<mapsto> body)\<rparr>)"

definition ur_row_update :: "tenant_scope \<Rightarrow> string \<Rightarrow> (media_row \<Rightarrow> media_row) \<Rightarrow> media \<Rightarrow> media" where
  "ur_row_update sc assetId f m =
     m\<lparr>mt_rows := update_where (\<lambda>r. ma_id r = assetId \<and> same_tenant sc r) f (mt_rows m)\<rparr>"

definition markReady :: "string \<Rightarrow> tenant_scope \<Rightarrow> string \<Rightarrow> int \<Rightarrow> int \<Rightarrow> int \<Rightarrow> media \<Rightarrow> media" where
  "markReady assetId sc mime bytes width height m =
     ur_row_update sc assetId (\<lambda>r. r\<lparr>ma_status := MA_READY, mr_mime := mime, mr_bytes := bytes,
       mr_width := Some width, mr_height := Some height\<rparr>) m"

definition markRejected :: "string \<Rightarrow> string \<Rightarrow> tenant_scope \<Rightarrow> media \<Rightarrow> media" where
  "markRejected assetId reason sc m =
     (let m1 = ur_row_update sc assetId (\<lambda>r. r\<lparr>ma_status := MA_REJECTED, mr_reject := Some reason\<rparr>) m
      in m1\<lparr>mt_audit := mt_audit m1 @ [\<lparr>au_action = ''media.rejected'', au_severity = MEDIUM, au_store = None,
           au_actor = None, au_entity_type = ''media_asset'', au_entity = Some assetId\<rparr>]\<rparr>)"

text \<open>Whether the bytes are an image this platform takes, and its dimensions.\<close>

definition inspect :: "image_tools \<Rightarrow> string \<Rightarrow> (int \<times> int) res" where
  "inspect t raw =
     (if \<not> (\<exists>mime \<in> set ACCEPTED_MIME. it_detect t raw = Some mime)
      then Inl (Validation (''That file isn't a supported image (detected: '' @ or_else (it_detect t raw) ''unknown'' @ '').''))
      else (case it_metadata t raw of
          None \<Rightarrow> Inl (Validation ''That image is corrupt or unreadable.'')
        | Some (w, h) \<Rightarrow>
            if w = 0 \<or> h = 0 then Inl (Validation ''That image has no readable dimensions.'')
            else if 50 * 1000000 < w * h then Inl (Validation ''That image is too large (over 50 megapixels).'')
            else Inr (w, h)))"

text \<open>The loop over the sizes, with the full size last: what is written before a failure stays written.\<close>

fun put_variants ::
    "image_tools \<Rightarrow> string \<Rightarrow> string \<Rightarrow> bool \<Rightarrow> (string \<times> int option) list \<Rightarrow> media \<Rightarrow> unit media_outcome" where
  "put_variants t raw baseKey isPrivate [] m = (Inr (), m)"
| "put_variants t raw baseKey isPrivate ((name, edge) # vs) m =
     (case it_encode t edge raw of
        None \<Rightarrow> (Inl (ProviderError ''sharp''), m)
      | Some buffer \<Rightarrow> put_variants t raw baseKey isPrivate vs (putProcessed (variant_key baseKey name) buffer isPrivate m))"

definition all_sizes :: "(string \<times> int option) list" where
  "all_sizes = map (\<lambda>(name, edge). (name, Some edge)) VARIANTS @ [(''original'', None)]"

definition process ::
    "image_tools \<Rightarrow> string \<Rightarrow> string \<Rightarrow> string \<Rightarrow> string \<Rightarrow> bool \<Rightarrow> tenant_scope \<Rightarrow> media \<Rightarrow> upload_result media_outcome" where
  "process t baseUrl assetId quarantineKey baseKey isPrivate sc m =
     (case mt_quarantine m quarantineKey of
        None \<Rightarrow> (Inl (ProviderError ''ENOENT''), m)
      | Some raw \<Rightarrow>
          (case inspect t raw of
             Inl e \<Rightarrow> (Inl e, m)
           | Inr (w, h) \<Rightarrow>
               (case put_variants t raw baseKey isPrivate all_sizes m of
                  (Inl e, m1) \<Rightarrow> (Inl e, m1)
                | (Inr _, m1) \<Rightarrow>
                    (Inr \<lparr>ur_asset = assetId,
                          ur_url = (if isPrivate then None else Some (public_url baseUrl (variant_key baseKey ''original''))),
                          ur_status = MA_READY, ur_reason = None\<rparr>,
                     markReady assetId sc ''image/webp'' (int (length (or_else (it_encode t None raw) []))) w h m1))))"

fun app_message :: "app_error \<Rightarrow> string" where
  "app_message (Unauthenticated s) = s"
| "app_message (Forbidden s) = s"
| "app_message (NotFound s) = s"
| "app_message (Validation s) = s"
| "app_message (AccountLocked s) = s"
| "app_message (RateLimited s) = s"
| "app_message (Internal s) = s"
| "app_message _ = ''The file could not be processed.''"

definition processQueued :: "image_tools \<Rightarrow> string \<Rightarrow> string \<Rightarrow> string \<Rightarrow> media \<Rightarrow> upload_result \<times> media" where
  "processQueued t baseUrl assetId quarantineKey m =
     (case find (\<lambda>r. ma_id r = assetId) (mt_rows m) of
        None \<Rightarrow>
          (\<lparr>ur_asset = assetId, ur_url = None, ur_status = MA_REJECTED, ur_reason = Some ''The asset no longer exists.''\<rparr>,
           discardQuarantine quarantineKey m)
      | Some r \<Rightarrow>
          let sc = \<lparr>ts_store = ma_store r, ts_user = mr_owner r, ts_super = False\<rparr>
          in (case process t baseUrl assetId quarantineKey (ma_key r) (mr_private r) sc m of
              (Inr result, m1) \<Rightarrow> (result, discardQuarantine quarantineKey m1)
            | (Inl e, m1) \<Rightarrow>
                (\<lparr>ur_asset = assetId, ur_url = None, ur_status = MA_REJECTED, ur_reason = Some (app_message e)\<rparr>,
                 markRejected assetId (app_message e) sc (discardQuarantine quarantineKey m1))))"

section \<open>Reading a private object\<close>

text \<open>\<open>MediaPrivateController.read\<close>\<close>

definition read_private :: "signer \<Rightarrow> string \<Rightarrow> int \<Rightarrow> string \<Rightarrow> media \<Rightarrow> string res" where
  "read_private sg uploadSecret now token m =
     (case verifyReadGrant sg uploadSecret now token of
        Inl _ \<Rightarrow> Inl (Forbidden ''This link is not valid.'')
      | Inr grant \<Rightarrow> (case mt_private m (rg_key grant) of None \<Rightarrow> notFound | Some body \<Rightarrow> Inr body))"

section \<open>Who may upload what\<close>

fun PERMISSION_FOR_KIND :: "media_kind \<Rightarrow> permission option" where
  "PERMISSION_FOR_KIND MK_PRODUCT = Some CatalogWrite"
| "PERMISSION_FOR_KIND MK_BRANDING = Some StoreBranding"
| "PERMISSION_FOR_KIND MK_PROOF = Some DeliveryUpdateOwn"
| "PERMISSION_FOR_KIND MK_SIGNATURE = Some DeliveryUpdateOwn"
| "PERMISSION_FOR_KIND MK_EXPORT = None"

definition assertMayUpload :: "bool \<Rightarrow> permission set \<Rightarrow> media_kind \<Rightarrow> unit res" where
  "assertMayUpload superAdmin effective kind =
     (if superAdmin then Inr ()
      else (case PERMISSION_FOR_KIND kind of
          None \<Rightarrow> Inl (Validation ''That isn't a kind of file you can upload.'')
        | Some needed \<Rightarrow> guardE (needed \<in> effective) (Forbidden (''This action requires: '' @ perm_name needed @ ''.''))))"

end
