(* ===== verification/Storefront.thy ===== *)
theory Storefront
  imports Media Catalog StoreOps
begin

text \<open>
  The shop window (\<open>modules/storefront\<close>): the public queries and the row policies of the migrations
  that decide what an anonymous reader sees.  Full-text search, similarity of names, the collation
  and the creation times are the database's: they are the functions of a record.  A store's row is
  extended by the branding the window shows.
\<close>

record shop = store +
  sh_business :: string
  sh_logo :: "string option"
  sh_banner :: "string option"

record window =
  sw_shops :: "shop list"
  sw_hours :: "hours_row list"
  sw_catalog :: catalog
  sw_media :: "media_row list"

record search_engine =
  se_match :: "string \<Rightarrow> product \<Rightarrow> bool"
  se_rank :: "string \<Rightarrow> product \<Rightarrow> real"
  se_shop_match :: "string \<Rightarrow> shop \<Rightarrow> bool"
  se_shop_score :: "string \<Rightarrow> shop \<Rightarrow> real"
  se_collate :: "string \<Rightarrow> nat"
  se_created :: "product \<Rightarrow> int"

section \<open>What the policies let anybody read\<close>

definition live_shop :: "window \<Rightarrow> string \<Rightarrow> bool" where
  "live_shop sw i \<longleftrightarrow> (\<exists>s \<in> set (sw_shops sw). s_id s = i \<and> s_status s = ACTIVE)"

definition public_products :: "window \<Rightarrow> product list" where
  "public_products sw =
     filter (\<lambda>p. \<not> pr_deleted p \<and> pr_status p = P_ACTIVE \<and> live_shop sw (pr_store p)) (ct_products (sw_catalog sw))"

definition public_categories :: "window \<Rightarrow> category list" where
  "public_categories sw =
     filter (\<lambda>g. \<not> cg_deleted g \<and> cg_active g \<and> live_shop sw (cg_store g)) (ct_categories (sw_catalog sw))"

definition public_variants :: "window \<Rightarrow> product_variant list" where
  "public_variants sw =
     filter (\<lambda>v. \<not> pv_deleted v \<and> pv_active v \<and> (\<exists>p \<in> set (public_products sw). pr_id p = pv_product v))
       (ct_variants (sw_catalog sw))"

definition public_images :: "window \<Rightarrow> product_image list" where
  "public_images sw =
     filter (\<lambda>i. \<exists>p \<in> set (public_products sw). pr_id p = im_product i) (ct_images (sw_catalog sw))"

definition anonymous :: tenant_scope where
  "anonymous = \<lparr>ts_store = None, ts_user = None, ts_super = False\<rparr>"

definition served_shop :: "window \<Rightarrow> string \<Rightarrow> bool" where
  "served_shop sw i \<longleftrightarrow> (\<exists>s \<in> set (sw_shops sw). s_id s = i \<and> s_status s = ACTIVE \<and> \<not> s_deleted s)"

definition public_media :: "window \<Rightarrow> media_row list" where
  "public_media sw = filter (readable (served_shop sw) anonymous) (sw_media sw)"

section \<open>Pictures\<close>

record media_ref =
  mf_url :: string
  mf_width :: "int option"
  mf_height :: "int option"

text \<open>The map of the assets that resolve, as a look-up.\<close>

definition resolveMedia :: "string \<Rightarrow> window \<Rightarrow> string list \<Rightarrow> string \<rightharpoonup> media_ref" where
  "resolveMedia base sw ids i =
     (if i \<noteq> [] \<and> i \<in> set ids
      then map_option (\<lambda>a. \<lparr>mf_url = public_url base (variant_key (ma_key a) ''original''),
          mf_width = mr_width a, mf_height = mr_height a\<rparr>)
        (find (\<lambda>a. ma_id a = i) (public_media sw))
      else None)"

record storefront_image =
  fi_url :: string
  fi_width :: "int option"
  fi_height :: "int option"
  fi_alt :: "string option"

definition toImage :: "product_image option \<Rightarrow> (string \<rightharpoonup> media_ref) \<Rightarrow> storefront_image option" where
  "toImage row media =
     (case row of
        None \<Rightarrow> None
      | Some i \<Rightarrow> map_option (\<lambda>a. \<lparr>fi_url = mf_url a, fi_width = mf_width a, fi_height = mf_height a, fi_alt = im_alt i\<rparr>)
          (media (im_asset i)))"

section \<open>Pages of a query\<close>

text \<open>\<open>LIMIT\<close> and \<open>OFFSET\<close> of a statement, and \<open>take\<close> and \<open>skip\<close> of the client, whose negative count takes from the end.\<close>

definition sql_page :: "int \<Rightarrow> int \<Rightarrow> 'a list \<Rightarrow> 'a list res" where
  "sql_page limit offset xs =
     (if limit < 0 then Inl (CheckViolation ''LIMIT'') else Inr (take (nat limit) (drop (nat offset) xs)))"

definition client_page :: "int \<Rightarrow> int \<Rightarrow> 'a list \<Rightarrow> 'a list" where
  "client_page n skip xs =
     (if n < 0 then rev (take (nat (- n)) (drop (nat skip) (rev xs))) else take (nat n) (drop (nat skip) xs))"

section \<open>The directory\<close>

record directory_filters =
  df_q :: "string option"
  df_business :: "string option"
  df_limit :: "int option"

definition listed_shops :: "directory_filters \<Rightarrow> window \<Rightarrow> shop list" where
  "listed_shops f sw =
     filter (\<lambda>s. s_status s = ACTIVE \<and> \<not> s_deleted s \<and>
       (case df_business f of None \<Rightarrow> True | Some b \<Rightarrow> sh_business s = b)) (sw_shops sw)"

definition trimmed_query :: "string option \<Rightarrow> string option" where
  "trimmed_query q = (case q of None \<Rightarrow> None | Some t \<Rightarrow> (if js_trim t = [] then None else Some (js_trim t)))"

definition listStores :: "search_engine \<Rightarrow> directory_filters \<Rightarrow> window \<Rightarrow> shop list res" where
  "listStores se f sw =
     (let limit = min (or_else (df_limit f) 50) 100
      in case trimmed_query (df_q f) of
           Some q \<Rightarrow> sql_page limit 0 (sort_key (\<lambda>s. - se_shop_score se q s) (sort_key (\<lambda>s. se_collate se (s_name s))
             (filter (\<lambda>s. se_shop_match se q s \<or> contains_insensitive (s_name s) q) (listed_shops f sw))))
         | None \<Rightarrow> Inr (client_page limit 0 (sort_key (\<lambda>s. se_collate se (s_name s)) (listed_shops f sw))))"

record store_page =
  sp_shop :: shop
  sp_hours :: "hours_row list"
  sp_logo :: "media_ref option"
  sp_banner :: "media_ref option"

definition getStore :: "string \<Rightarrow> string \<Rightarrow> window \<Rightarrow> store_page res" where
  "getStore base slug sw =
     (case find (\<lambda>s. s_slug s = slug \<and> s_status s = ACTIVE \<and> \<not> s_deleted s) (sw_shops sw) of
        None \<Rightarrow> notFound
      | Some s \<Rightarrow>
          let logo = given (sh_logo s); banner = given (sh_banner s);
              media = resolveMedia base sw [or_else logo [], or_else banner []]
          in Inr \<lparr>sp_shop = s, sp_hours = getHours (s_id s) (sw_hours sw),
                  sp_logo = Option.bind logo media, sp_banner = Option.bind banner media\<rparr>)"

definition shown_categories :: "search_engine \<Rightarrow> string \<Rightarrow> window \<Rightarrow> category list" where
  "shown_categories se storeId sw =
     sort_key cg_position (sort_key (\<lambda>g. se_collate se (cg_name g))
       (filter (\<lambda>g. cg_store g = storeId) (public_categories sw)))"

definition list_shop_categories :: "search_engine \<Rightarrow> string \<Rightarrow> string \<Rightarrow> window \<Rightarrow> (category \<times> category list) list res" where
  "list_shop_categories se base slug sw =
     mapE (\<lambda>pg. let rows = shown_categories se (s_id (sp_shop pg)) sw
         in map (\<lambda>g. (g, filter (\<lambda>x. cg_parent x = Some (cg_id g)) rows)) (filter (\<lambda>g. given (cg_parent g) = None) rows))
       (getStore base slug sw)"

section \<open>Products\<close>

record shop_filters =
  sf_q :: "string option"
  sf_category :: "string option"
  sf_min :: "int option"
  sf_max :: "int option"
  sf_sort :: "string option"
  sf_limit :: "int option"
  sf_offset :: "int option"

record listed_product =
  li_product :: product
  li_category :: "(string \<times> string) option"
  li_price :: int
  li_compare :: "int option"
  li_image :: "storefront_image option"

record product_page =
  pp_store :: store_page
  pp_products :: "listed_product list"
  pp_total :: int

definition category_of :: "product \<Rightarrow> window \<Rightarrow> category option" where
  "category_of p sw = Option.bind (pr_category p) (\<lambda>g. find (\<lambda>x. cg_id x = g) (public_categories sw))"

definition default_variants :: "product \<Rightarrow> window \<Rightarrow> product_variant list" where
  "default_variants p sw = filter (\<lambda>v. pv_product v = pr_id p \<and> pv_default v \<and> \<not> pv_deleted v) (public_variants sw)"

definition first_image :: "product \<Rightarrow> window \<Rightarrow> product_image option" where
  "first_image p sw =
     (case sort_key im_position (filter (\<lambda>i. im_product i = pr_id p) (public_images sw)) of [] \<Rightarrow> None | i # _ \<Rightarrow> Some i)"

definition cover_image :: "product \<Rightarrow> window \<Rightarrow> product_image option" where
  "cover_image p sw = find (\<lambda>i. im_product i = pr_id p \<and> im_position i = 0) (public_images sw)"

definition asset_ids :: "product_image option list \<Rightarrow> string list" where
  "asset_ids is = map (\<lambda>i. case i of None \<Rightarrow> [] | Some x \<Rightarrow> im_asset x) is"

text \<open>Searching: a row for each default variant that can be read, counted without it.\<close>

definition found_products :: "search_engine \<Rightarrow> string \<Rightarrow> string \<Rightarrow> window \<Rightarrow> product list" where
  "found_products se storeId q sw = filter (\<lambda>p. pr_store p = storeId \<and> se_match se q p) (public_products sw)"

definition search_rows :: "search_engine \<Rightarrow> string \<Rightarrow> string \<Rightarrow> window \<Rightarrow> (product \<times> product_variant) list" where
  "search_rows se storeId q sw =
     sort_key (\<lambda>(p, v). - se_rank se q p) (sort_key (\<lambda>(p, v). se_collate se (pr_name p))
       (concat (map (\<lambda>p. map (\<lambda>v. (p, v)) (default_variants p sw)) (found_products se storeId q sw))))"

definition searchProducts ::
    "search_engine \<Rightarrow> string \<Rightarrow> store_page \<Rightarrow> string \<Rightarrow> int \<Rightarrow> int \<Rightarrow> window \<Rightarrow> product_page res" where
  "searchProducts se base pg q limit offset sw =
     bindE (sql_page limit offset (search_rows se (s_id (sp_shop pg)) q sw)) (\<lambda>rows.
       let media = resolveMedia base sw (asset_ids (map (\<lambda>(p, v). cover_image p sw) rows))
       in Inr \<lparr>pp_store = pg,
            pp_products = map (\<lambda>(p, v).
              \<lparr>li_product = p, li_category = map_option (\<lambda>g. (cg_name g, cg_slug g)) (category_of p sw),
               li_price = product_variant.pv_price v, li_compare = pv_compare v,
               li_image = toImage (cover_image p sw) media\<rparr>) rows,
            pp_total = int (length (found_products se (s_id (sp_shop pg)) q sw))\<rparr>)"

text \<open>Browsing.\<close>

definition in_price_range :: "shop_filters \<Rightarrow> product \<Rightarrow> window \<Rightarrow> bool" where
  "in_price_range f p sw \<longleftrightarrow>
     (sf_min f = None \<and> sf_max f = None) \<or>
     (\<exists>v \<in> set (default_variants p sw).
        (case sf_min f of None \<Rightarrow> True | Some a \<Rightarrow> a \<le> product_variant.pv_price v) \<and>
        (case sf_max f of None \<Rightarrow> True | Some b \<Rightarrow> product_variant.pv_price v \<le> b))"

definition browsed :: "string \<Rightarrow> shop_filters \<Rightarrow> window \<Rightarrow> product list" where
  "browsed storeId f sw =
     filter (\<lambda>p. pr_store p = storeId \<and>
       (case given (sf_category f) of None \<Rightarrow> True
        | Some slug \<Rightarrow> (case category_of p sw of None \<Rightarrow> False | Some g \<Rightarrow> cg_slug g = slug)) \<and>
       in_price_range f p sw) (public_products sw)"

definition browse_order :: "search_engine \<Rightarrow> shop_filters \<Rightarrow> product list \<Rightarrow> product list" where
  "browse_order se f ps =
     (if sf_sort f = Some ''newest'' then sort_key (\<lambda>p. - se_created se p) ps
      else sort_key (\<lambda>p. se_collate se (pr_name p)) ps)"

definition browse_row :: "string \<Rightarrow> product list \<Rightarrow> window \<Rightarrow> product \<Rightarrow> listed_product" where
  "browse_row base page sw p =
     (let vs = default_variants p sw
      in \<lparr>li_product = p, li_category = map_option (\<lambda>g. (cg_name g, cg_slug g)) (category_of p sw),
          li_price = (case vs of [] \<Rightarrow> 0 | v # _ \<Rightarrow> product_variant.pv_price v),
          li_compare = (case vs of [] \<Rightarrow> None | v # _ \<Rightarrow> pv_compare v),
          li_image = toImage (first_image p sw) (resolveMedia base sw (asset_ids (map (\<lambda>p. first_image p sw) page)))\<rparr>)"

text \<open>The page, then its order by price.\<close>

definition price_sort :: "shop_filters \<Rightarrow> listed_product list \<Rightarrow> listed_product list" where
  "price_sort f rows =
     (if sf_sort f = Some ''price_asc'' then sort_key li_price rows
      else if sf_sort f = Some ''price_desc'' then sort_key (\<lambda>r. - li_price r) rows
      else rows)"

definition browseProducts ::
    "search_engine \<Rightarrow> string \<Rightarrow> store_page \<Rightarrow> shop_filters \<Rightarrow> int \<Rightarrow> int \<Rightarrow> window \<Rightarrow> product_page" where
  "browseProducts se base pg f limit offset sw =
     (let all = browsed (s_id (sp_shop pg)) f sw;
          page = client_page limit offset (browse_order se f all)
      in \<lparr>pp_store = pg, pp_products = price_sort f (map (browse_row base page sw) page), pp_total = int (length all)\<rparr>)"

definition list_shop_products :: "search_engine \<Rightarrow> string \<Rightarrow> string \<Rightarrow> shop_filters \<Rightarrow> window \<Rightarrow> product_page res" where
  "list_shop_products se base slug f sw =
     bindE (getStore base slug sw) (\<lambda>pg.
       let limit = min (or_else (sf_limit f) 24) 60; offset = max (or_else (sf_offset f) 0) 0
       in (case trimmed_query (sf_q f) of
             Some q \<Rightarrow> searchProducts se base pg q limit offset sw
           | None \<Rightarrow> Inr (browseProducts se base pg f limit offset sw)))"

text \<open>\<open>StorefrontController.listProducts\<close>\<close>

definition products_route :: "search_engine \<Rightarrow> string \<Rightarrow> string \<Rightarrow> shop_filters \<Rightarrow> window \<Rightarrow> product_page res" where
  "products_route se base slug f sw =
     (if (case (sf_min f, sf_max f) of (Some a, Some b) \<Rightarrow> b < a | _ \<Rightarrow> False)
      then Inl (Validation ''The minimum price can't be above the maximum.'')
      else list_shop_products se base slug
        (f\<lparr>sf_sort := (case sf_sort f of None \<Rightarrow> None
           | Some s \<Rightarrow> if s \<in> set [''relevance'', ''price_asc'', ''price_desc'', ''newest''] then Some s else None)\<rparr>) sw)"

record product_details =
  pd_store :: store_page
  pd_product :: product
  pd_category :: "(string \<times> string) option"
  pd_variants :: "product_variant list"
  pd_images :: "storefront_image list"

definition get_shop_product :: "string \<Rightarrow> string \<Rightarrow> string \<Rightarrow> window \<Rightarrow> product_details res" where
  "get_shop_product base slug productSlug sw =
     bindE (getStore base slug sw) (\<lambda>pg.
       (case find (\<lambda>p. pr_store p = s_id (sp_shop pg) \<and> pr_slug p = productSlug) (public_products sw) of
          None \<Rightarrow> notFound
        | Some p \<Rightarrow>
            let vs = filter (\<lambda>v. pv_product v = pr_id p) (public_variants sw);
                images = sort_key im_position (filter (\<lambda>i. im_product i = pr_id p) (public_images sw));
                media = resolveMedia base sw (map im_asset images)
            in Inr \<lparr>pd_store = pg, pd_product = p,
                 pd_category = map_option (\<lambda>g. (cg_name g, cg_slug g)) (category_of p sw),
                 pd_variants = filter pv_default vs @ filter (\<lambda>v. \<not> pv_default v) vs,
                 pd_images = concat (map (\<lambda>i. case toImage (Some i) media of None \<Rightarrow> [] | Some x \<Rightarrow> [x]) images)\<rparr>))"

definition sitemapEntries :: "window \<Rightarrow> string list \<times> (string \<times> string) list" where
  "sitemapEntries sw =
     (map s_slug (filter (\<lambda>s. s_status s = ACTIVE \<and> \<not> s_deleted s) (sw_shops sw)),
      map (\<lambda>p. (or_else (map_option s_slug (find (\<lambda>s. s_id s = pr_store p) (sw_shops sw))) [], pr_slug p))
        (take 5000 (public_products sw)))"

end
