(* ===== verification/MediaProps.thy ===== *)
theory MediaProps
  imports Media
begin

text \<open>
  What may ever be served: over every sequence of requests, uploads, completions and deliveries of
  jobs (a job may be delivered any number of times) an object in the public store is the output of
  the encoder on bytes that passed inspection, filed under a row that is not private, and a finished
  row has all its files.
\<close>

section \<open>The invariant\<close>

definition identity :: "media_row \<Rightarrow> string \<times> string \<times> bool \<times> media_kind \<times> string option \<times> string option" where
  "identity r = (ma_id r, ma_key r, mr_private r, ma_kind r, ma_store r, mr_owner r)"

definition identities_sound :: "(string \<times> string \<times> bool \<times> media_kind \<times> string option \<times> string option) list \<Rightarrow> bool" where
  "identities_sound xs \<longleftrightarrow>
     distinct (map fst xs) \<and> distinct (map (\<lambda>x. fst (snd x)) xs) \<and>
     (\<forall>(i, key, private, kind, st, owner) \<in> set xs.
        (private \<longleftrightarrow> kind = MK_PROOF \<or> kind = MK_SIGNATURE) \<and> (st \<noteq> None \<or> owner \<noteq> None))"

definition rows_sound :: "media_row list \<Rightarrow> bool" where
  "rows_sound rows \<longleftrightarrow> identities_sound (map identity rows)"

lemma rows_sound_iff:
  "rows_sound rows \<longleftrightarrow>
     distinct (map ma_id rows) \<and> distinct (map ma_key rows) \<and>
     (\<forall>r \<in> set rows. (mr_private r \<longleftrightarrow> ma_kind r = MK_PROOF \<or> ma_kind r = MK_SIGNATURE) \<and>
        (ma_store r \<noteq> None \<or> mr_owner r \<noteq> None))"
  by (simp add: rows_sound_def identities_sound_def identity_def comp_def)

text \<open>An object of the row with this key and privacy, made by the encoder from an inspected file.\<close>

definition made_from :: "image_tools \<Rightarrow> string \<Rightarrow> string \<Rightarrow> string \<Rightarrow> bool" where
  "made_from t baseKey k b \<longleftrightarrow>
     (\<exists>(name, edge) \<in> set all_sizes. k = variant_key baseKey name \<and>
        (\<exists>raw wh. inspect t raw = Inr wh \<and> it_encode t edge raw = Some b))"

definition objects_sound :: "image_tools \<Rightarrow> media \<Rightarrow> bool" where
  "objects_sound t m \<longleftrightarrow>
     (\<forall>k b. mt_public m k = Some b \<longrightarrow> (\<exists>r \<in> set (mt_rows m). \<not> mr_private r \<and> made_from t (ma_key r) k b)) \<and>
     (\<forall>k b. mt_private m k = Some b \<longrightarrow> (\<exists>r \<in> set (mt_rows m). mr_private r \<and> made_from t (ma_key r) k b))"

definition shelf :: "bool \<Rightarrow> media \<Rightarrow> string \<rightharpoonup> string" where
  "shelf isPrivate m = (if isPrivate then mt_private m else mt_public m)"

definition complete_row :: "media \<Rightarrow> media_row \<Rightarrow> bool" where
  "complete_row m r \<longleftrightarrow> (\<forall>(name, edge) \<in> set all_sizes. shelf (mr_private r) m (variant_key (ma_key r) name) \<noteq> None)"

definition media_inv :: "image_tools \<Rightarrow> media \<Rightarrow> bool" where
  "media_inv t m \<longleftrightarrow>
     rows_sound (mt_rows m) \<and> objects_sound t m \<and>
     (\<forall>r \<in> set (mt_rows m). ma_status r = MA_READY \<longrightarrow> complete_row m r)"

section \<open>What the worker writes\<close>

lemma put_variants_frame [simp]:
  "mt_rows (snd (put_variants t raw base p vs m)) = mt_rows m"
  "mt_quarantine (snd (put_variants t raw base p vs m)) = mt_quarantine m"
  "mt_jobs (snd (put_variants t raw base p vs m)) = mt_jobs m"
  "mt_audit (snd (put_variants t raw base p vs m)) = mt_audit m"
  by (induction t raw base p vs m rule: put_variants.induct) (auto simp: putProcessed_def split: option.splits)

lemma put_variants_keep:
  "shelf q m k \<noteq> None \<Longrightarrow> shelf q (snd (put_variants t raw base p vs m)) k \<noteq> None"
  by (induction t raw base p vs m rule: put_variants.induct)
    (auto simp: putProcessed_def shelf_def split: option.splits if_splits)

lemma put_variants_there:
  "fst (put_variants t raw base p vs m) = Inr () \<Longrightarrow> (name, edge) \<in> set vs \<Longrightarrow>
   shelf p (snd (put_variants t raw base p vs m)) (variant_key base name) \<noteq> None"
proof (induction t raw base p vs m rule: put_variants.induct)
  case (2 t raw base p n e vs m)
  then obtain b where b: "it_encode t e raw = Some b" by (cases "it_encode t e raw") auto
  show ?case
  proof (cases "(name, edge) = (n, e)")
    case True
    have "shelf p (putProcessed (variant_key base n) b p m) (variant_key base n) \<noteq> None"
      by (simp add: putProcessed_def shelf_def)
    then show ?thesis using put_variants_keep b True by simp
  next
    case False
    then show ?thesis using 2 b by auto
  qed
qed simp

lemma objects_sound_put:
  assumes "objects_sound t m" and "r \<in> set (mt_rows m)" and "made_from t (ma_key r) k b"
  shows "objects_sound t (putProcessed k b (mr_private r) m)"
  using assms by (auto simp: objects_sound_def putProcessed_def)

lemma put_variants_sound:
  assumes "inspect t raw = Inr wh" and "set vs \<subseteq> set all_sizes" and "objects_sound t m" and "r \<in> set (mt_rows m)"
  shows "objects_sound t (snd (put_variants t raw (ma_key r) (mr_private r) vs m))"
  using assms(2-4)
proof (induction vs arbitrary: m)
  case (Cons v vs)
  obtain name edge where v: "v = (name, edge)" by (cases v)
  show ?case
  proof (cases "it_encode t edge raw")
    case None
    then show ?thesis using Cons.prems(2) v by simp
  next
    case (Some b)
    have "made_from t (ma_key r) (variant_key (ma_key r) name) b"
    proof -
      have "\<exists>raw wh. inspect t raw = Inr wh \<and> it_encode t edge raw = Some b" using Some assms(1) by blast
      then show ?thesis unfolding made_from_def using Cons.prems(1) v by (intro bexI [of _ v]) auto
    qed
    then have "objects_sound t (putProcessed (variant_key (ma_key r) name) b (mr_private r) m)"
      by (rule objects_sound_put [OF Cons.prems(2,3)])
    moreover have "r \<in> set (mt_rows (putProcessed (variant_key (ma_key r) name) b (mr_private r) m))"
      using Cons.prems(3) by (simp add: putProcessed_def)
    ultimately show ?thesis using Cons.IH Cons.prems(1) Some v by simp
  qed
qed simp

section \<open>Marking a row\<close>

lemma row_update_identity:
  "(\<And>r. identity (f r) = identity r) \<Longrightarrow> map identity (mt_rows (ur_row_update sc i f m)) = map identity (mt_rows m)"
  by (simp add: ur_row_update_def map_update_where)

lemma row_update_rest [simp]:
  "mt_quarantine (ur_row_update sc i f m) = mt_quarantine m" "mt_public (ur_row_update sc i f m) = mt_public m"
  "mt_private (ur_row_update sc i f m) = mt_private m" "mt_jobs (ur_row_update sc i f m) = mt_jobs m"
  by (simp_all add: ur_row_update_def)

text \<open>Rows with the same identities, the same objects: soundness is the same.\<close>

definition summary_of :: "media_row \<Rightarrow> bool \<times> string" where
  "summary_of r = (mr_private r, ma_key r)"

lemma identity_summary: "identity r = identity r' \<Longrightarrow> mr_private r = mr_private r' \<and> ma_key r = ma_key r' \<and> ma_id r = ma_id r'"
  by (simp add: identity_def)

lemma same_identities:
  assumes "map identity (mt_rows m') = map identity (mt_rows m)" and "r \<in> set (mt_rows m)"
  shows "\<exists>r' \<in> set (mt_rows m'). identity r' = identity r"
proof -
  have "identity r \<in> set (map identity (mt_rows m'))" using assms by simp
  then show ?thesis by (auto simp: image_iff)
qed

lemma objects_sound_frame:
  assumes "map identity (mt_rows m') = map identity (mt_rows m)"
    and "mt_public m' = mt_public m" and "mt_private m' = mt_private m" and "objects_sound t m"
  shows "objects_sound t m'"
proof -
  have move: "\<exists>r' \<in> set (mt_rows m'). mr_private r' = mr_private r \<and> made_from t (ma_key r') k b"
    if "r \<in> set (mt_rows m)" and "made_from t (ma_key r) k b" for r k b
    using same_identities [OF assms(1) that(1)] that(2) by (auto dest!: identity_summary)
  show ?thesis
    unfolding objects_sound_def assms(2,3)
  proof (intro conjI allI impI)
    fix k b assume "mt_public m k = Some b"
    then obtain r where "r \<in> set (mt_rows m)" "\<not> mr_private r" "made_from t (ma_key r) k b"
      using assms(4) unfolding objects_sound_def by blast
    then show "\<exists>r \<in> set (mt_rows m'). \<not> mr_private r \<and> made_from t (ma_key r) k b"
      using move [of r k b] by auto
  next
    fix k b assume "mt_private m k = Some b"
    then obtain r where "r \<in> set (mt_rows m)" "mr_private r" "made_from t (ma_key r) k b"
      using assms(4) unfolding objects_sound_def by blast
    then show "\<exists>r \<in> set (mt_rows m'). mr_private r \<and> made_from t (ma_key r) k b"
      using move [of r k b] by auto
  qed
qed

lemma complete_row_mono:
  assumes "\<And>q k. shelf q m k \<noteq> None \<Longrightarrow> shelf q m' k \<noteq> None"
    and "identity r' = identity r" and "complete_row m r"
  shows "complete_row m' r'"
proof -
  have e: "mr_private r' = mr_private r" "ma_key r' = ma_key r" using identity_summary [OF assms(2)] by simp_all
  have "shelf (mr_private r) m' (variant_key (ma_key r) name) \<noteq> None" if "(name, edge) \<in> set all_sizes" for name edge
    by (rule assms(1)) (use assms(3) that in \<open>auto simp: complete_row_def\<close>)
  then show ?thesis unfolding complete_row_def e by blast
qed

lemma media_inv_frame:
  assumes "media_inv t m" and "map identity (mt_rows m') = map identity (mt_rows m)"
    and "mt_public m' = mt_public m" and "mt_private m' = mt_private m"
    and "\<And>r'. r' \<in> set (mt_rows m') \<Longrightarrow> ma_status r' = MA_READY \<Longrightarrow>
      complete_row m r' \<or> (\<exists>r \<in> set (mt_rows m). ma_status r = MA_READY \<and> identity r' = identity r)"
  shows "media_inv t m'"
proof -
  have shelf: "shelf q m' k = shelf q m k" for q k using assms(3,4) by (simp add: shelf_def)
  have "complete_row m' r'" if "r' \<in> set (mt_rows m')" and "ma_status r' = MA_READY" for r'
    using assms(5) [OF that]
  proof
    assume "complete_row m r'"
    then show ?thesis by (simp add: complete_row_def shelf)
  next
    assume "\<exists>r \<in> set (mt_rows m). ma_status r = MA_READY \<and> identity r' = identity r"
    then show ?thesis
      using assms(1) complete_row_mono [of m m'] by (auto simp: media_inv_def shelf)
  qed
  then show ?thesis
    using assms(1,2) objects_sound_frame [OF assms(2-4)] by (simp add: media_inv_def rows_sound_def)
qed

lemma media_inv_update:
  assumes "media_inv t m" and "\<And>r. identity (f r) = identity r"
    and "\<And>r. r \<in> set (mt_rows m) \<Longrightarrow> ma_id r = i \<Longrightarrow> same_tenant sc r \<Longrightarrow> ma_status (f r) = MA_READY \<Longrightarrow> complete_row m r"
  shows "media_inv t (ur_row_update sc i f m)"
proof (rule media_inv_frame [OF assms(1) row_update_identity [OF assms(2)]])
  fix r' assume r': "r' \<in> set (mt_rows (ur_row_update sc i f m))" and ready: "ma_status r' = MA_READY"
  then obtain r where r: "r \<in> set (mt_rows m)"
    and e: "r' = (if ma_id r = i \<and> same_tenant sc r then f r else r)"
    by (auto simp: ur_row_update_def set_update_where)
  show "complete_row m r' \<or> (\<exists>r \<in> set (mt_rows m). ma_status r = MA_READY \<and> identity r' = identity r)"
  proof (cases "ma_id r = i \<and> same_tenant sc r")
    case True
    then have "complete_row m r" using assms(3) [OF r] e ready by auto
    then show ?thesis using True e complete_row_mono [of m m "f r" r] assms(2) by auto
  next
    case False
    then show ?thesis using e r ready by auto
  qed
qed simp_all

section \<open>Every operation\<close>

lemma media_inv_same:
  "media_inv t m \<Longrightarrow> mt_rows m' = mt_rows m \<Longrightarrow> mt_public m' = mt_public m \<Longrightarrow> mt_private m' = mt_private m \<Longrightarrow> media_inv t m'"
  by (rule media_inv_frame) auto

lemma media_inv_request:
  assumes "media_inv t m"
  shows "media_inv t (snd (requestUpload sg us bu now i uuid x m))"
proof (cases "snd (requestUpload sg us bu now i uuid x m) = m")
  case False
  let ?key = "kind_text (ui_kind x) @ ''/'' @ uuid" and ?private = "ui_kind x = MK_PROOF \<or> ui_kind x = MK_SIGNATURE"
  define row where "row = pending_row i ?key ?private x"
  have m': "snd (requestUpload sg us bu now i uuid x m) = m\<lparr>mt_rows := mt_rows m @ [row]\<rparr>"
    and store: "ui_store x \<noteq> None \<or> ui_owner x \<noteq> None"
    and fresh: "\<not> (\<exists>r \<in> set (mt_rows m). ma_id r = i \<or> ma_key r = ?key)"
    using False by (auto simp: requestUpload_def createPendingAsset_def Let_def row_def split: if_splits)
  have row: "ma_id row = i" "ma_key row = ?key" "ma_status row = MA_PENDING"
    "mr_private row \<longleftrightarrow> ma_kind row = MK_PROOF \<or> ma_kind row = MK_SIGNATURE" "ma_store row \<noteq> None \<or> mr_owner row \<noteq> None"
    using store by (simp_all add: row_def pending_row_def)
  have "rows_sound (mt_rows m @ [row])"
    using assms fresh row by (simp add: media_inv_def rows_sound_iff image_iff) metis
  moreover have "objects_sound t (m\<lparr>mt_rows := mt_rows m @ [row]\<rparr>)"
    using assms by (fastforce simp: media_inv_def objects_sound_def)
  moreover have "complete_row (m\<lparr>mt_rows := mt_rows m @ [row]\<rparr>) r"
    if "r \<in> set (mt_rows m @ [row])" and "ma_status r = MA_READY" for r
  proof -
    have "complete_row m r" using that row(3) assms by (auto simp: media_inv_def)
    then show ?thesis by (rule complete_row_mono [rotated 2]) (auto simp: shelf_def split: if_splits)
  qed
  ultimately show ?thesis unfolding m' media_inv_def by simp
qed (use assms in simp)

lemma media_inv_receive: "media_inv t m \<Longrightarrow> media_inv t (snd (receive sg us now token body ct m))"
  by (erule media_inv_same) (auto simp: receive_def split: sum.splits)

lemma media_inv_complete: "media_inv t m \<Longrightarrow> media_inv t (snd (completeUpload live bu a sc m))"
  by (erule media_inv_same)
    (auto simp: completeUpload_def enqueue_media_def discardQuarantine_def Let_def split: option.splits)

lemma media_inv_discard: "media_inv t m \<Longrightarrow> media_inv t (discardQuarantine k m)"
  by (erule media_inv_same) (simp_all add: discardQuarantine_def)

lemma media_inv_rejected: "media_inv t m \<Longrightarrow> media_inv t (markRejected a reason sc m)"
  unfolding markRejected_def Let_def
  by (rule media_inv_same [OF media_inv_update [where t = t and m = m]]) (auto simp: identity_def)

lemma media_inv_variants:
  assumes "media_inv t m" and "inspect t raw = Inr wh" and "r \<in> set (mt_rows m)" and "set vs \<subseteq> set all_sizes"
  shows "media_inv t (snd (put_variants t raw (ma_key r) (mr_private r) vs m))"
proof -
  have "complete_row (snd (put_variants t raw (ma_key r) (mr_private r) vs m)) r'"
    if "r' \<in> set (mt_rows m)" and "ma_status r' = MA_READY" for r'
    by (rule complete_row_mono [of m _ r' r']) (use that assms(1) put_variants_keep in \<open>auto simp: media_inv_def\<close>)
  then show ?thesis
    using assms put_variants_sound [OF assms(2,4) _ assms(3)] by (simp add: media_inv_def)
qed

lemma complete_after_variants:
  assumes "fst (put_variants t raw (ma_key r) (mr_private r) all_sizes m) = Inr ()"
  shows "complete_row (snd (put_variants t raw (ma_key r) (mr_private r) all_sizes m)) r"
  using put_variants_there [OF assms] unfolding complete_row_def by blast

lemma media_inv_process:
  assumes inv: "media_inv t m" and r: "r \<in> set (mt_rows m)"
  shows "media_inv t (snd (process t bu (ma_id r) qk (ma_key r) (mr_private r) sc m))"
proof -
  have id: "r' = r" if "r' \<in> set (mt_rows m)" and "ma_id r' = ma_id r" for r'
    using inv that r distinct_map_eq [of ma_id "mt_rows m" r' r] by (auto simp: media_inv_def rows_sound_iff)
  show ?thesis
  proof (cases "mt_quarantine m qk")
    case None
    then show ?thesis using inv by (simp add: process_def)
  next
    case raw: (Some raw)
    show ?thesis
    proof (cases "inspect t raw")
      case (Inl e)
      then show ?thesis using inv raw by (simp add: process_def)
    next
      case (Inr wh)
      obtain w h where wh: "wh = (w, h)" by (cases wh)
      obtain o1 m1 where put: "put_variants t raw (ma_key r) (mr_private r) all_sizes m = (o1, m1)" by fastforce
      have m1: "media_inv t m1" using media_inv_variants [OF inv Inr r subset_refl] put by simp
      show ?thesis
      proof (cases o1)
        case Inl
        then show ?thesis using raw Inr wh put m1 by (simp add: process_def)
      next
        case fin: (Inr u)
        have "fst (put_variants t raw (ma_key r) (mr_private r) all_sizes m) = Inr ()" using put fin by simp
        then have complete: "complete_row m1 r" using complete_after_variants [of t raw r m] put by simp
        have rows: "mt_rows m1 = mt_rows m"
          using put_variants_frame(1) [of t raw "ma_key r" "mr_private r" all_sizes m] put by simp
        have "media_inv t (markReady (ma_id r) sc mime bytes w h m1)" for mime bytes
          unfolding markReady_def
          by (rule media_inv_update [OF m1]) (use complete id rows in \<open>auto simp: identity_def\<close>)
        then show ?thesis using raw Inr wh put fin by (simp add: process_def)
      qed
    qed
  qed
qed

lemma media_inv_worker:
  assumes "media_inv t m"
  shows "media_inv t (snd (processQueued t bu a qk m))"
proof (cases "find (\<lambda>r. ma_id r = a) (mt_rows m)")
  case None
  then show ?thesis using media_inv_discard [OF assms] by (simp add: processQueued_def)
next
  case (Some r)
  then have r: "r \<in> set (mt_rows m)" "ma_id r = a" by (auto dest: findD)
  let ?sc = "\<lparr>ts_store = ma_store r, ts_user = mr_owner r, ts_super = False\<rparr>"
  obtain res m1 where p: "process t bu a qk (ma_key r) (mr_private r) ?sc m = (res, m1)" by fastforce
  then have "media_inv t m1" using media_inv_process [OF assms r(1), of bu qk ?sc] r(2) by simp
  then show ?thesis
    using Some p media_inv_discard media_inv_rejected by (auto simp: processQueued_def Let_def split: sum.splits)
qed

section \<open>Every run\<close>

text \<open>A job once queued may be delivered at any later time, and again.\<close>

inductive media_step :: "image_tools \<Rightarrow> media \<Rightarrow> media \<Rightarrow> bool" for t where
  ms_request: "media_step t m (snd (requestUpload sg us bu now i uuid x m))"
| ms_receive: "media_step t m (snd (receive sg us now token body ct m))"
| ms_complete: "media_step t m (snd (completeUpload live bu a sc m))"
| ms_work: "j \<in> set (mt_jobs m) \<Longrightarrow> media_step t m (snd (processQueued t bu (jb_asset j) (jb_key j) m))"

inductive media_runs :: "image_tools \<Rightarrow> media \<Rightarrow> media \<Rightarrow> bool" for t where
  runs_none: "media_runs t m m"
| runs_step: "media_runs t m m1 \<Longrightarrow> media_step t m1 m2 \<Longrightarrow> media_runs t m m2"

definition no_media :: media where
  "no_media = \<lparr>mt_rows = [], mt_quarantine = Map.empty, mt_public = Map.empty, mt_private = Map.empty,
     mt_jobs = [], mt_audit = []\<rparr>"

lemma media_inv_start: "media_inv t no_media"
  by (simp add: no_media_def media_inv_def rows_sound_iff objects_sound_def)

lemma media_inv_step: "media_step t m m' \<Longrightarrow> media_inv t m \<Longrightarrow> media_inv t m'"
  by (induction rule: media_step.induct)
    (simp_all add: media_inv_request media_inv_receive media_inv_complete media_inv_worker)

lemma media_inv_runs: "media_runs t m m' \<Longrightarrow> media_inv t m \<Longrightarrow> media_inv t m'"
  by (induction rule: media_runs.induct) (auto intro: media_inv_step)

section \<open>What may be served\<close>

lemma size_names: "(name, edge) \<in> set all_sizes \<Longrightarrow> name \<in> {''thumb'', ''medium'', ''large'', ''original''}"
  by (auto simp: all_sizes_def VARIANTS_def)

lemma variant_key_inj:
  assumes "(n, e) \<in> set all_sizes" and "(n', e') \<in> set all_sizes" and "variant_key base n = variant_key base' n'"
  shows "base = base'"
proof -
  have "rev (variant_key base n) = rev (variant_key base' n')" using assms(3) by simp
  then show ?thesis
    using size_names [OF assms(1)] size_names [OF assms(2)] by (auto simp: variant_key_def)
qed

text \<open>
  C23. Whatever requests, uploads, completions and deliveries of jobs there have been, every object in
  the public store is what the encoder made of bytes that passed the inspection, under a name of a row
  that is not a proof or a signature, and of no row that is; and a row marked ready has all of its files.
\<close>

theorem public_media_is_reencoded:
  assumes "media_runs t no_media m"
  shows "(\<forall>k b. mt_public m k = Some b \<longrightarrow>
      (\<exists>r \<in> set (mt_rows m). ma_kind r \<notin> {MK_PROOF, MK_SIGNATURE} \<and> made_from t (ma_key r) k b) \<and>
      (\<forall>r \<in> set (mt_rows m). ma_kind r \<in> {MK_PROOF, MK_SIGNATURE} \<longrightarrow>
        (\<forall>(name, edge) \<in> set all_sizes. k \<noteq> variant_key (ma_key r) name))) \<and>
    (\<forall>r \<in> set (mt_rows m). ma_status r = MA_READY \<longrightarrow> complete_row m r)"
proof -
  have inv: "media_inv t m" by (rule media_inv_runs [OF assms media_inv_start])
  have kind: "mr_private r \<longleftrightarrow> ma_kind r \<in> {MK_PROOF, MK_SIGNATURE}" if "r \<in> set (mt_rows m)" for r
    using inv that by (auto simp: media_inv_def rows_sound_iff)
  have one: "r = r'" if "r \<in> set (mt_rows m)" "r' \<in> set (mt_rows m)" "ma_key r = ma_key r'" for r r'
    using inv that distinct_map_eq [of ma_key "mt_rows m" r r'] by (auto simp: media_inv_def rows_sound_iff)
  have "(\<exists>r \<in> set (mt_rows m). ma_kind r \<notin> {MK_PROOF, MK_SIGNATURE} \<and> made_from t (ma_key r) k b) \<and>
      (\<forall>r \<in> set (mt_rows m). ma_kind r \<in> {MK_PROOF, MK_SIGNATURE} \<longrightarrow>
        (\<forall>(name, edge) \<in> set all_sizes. k \<noteq> variant_key (ma_key r) name))" if pub: "mt_public m k = Some b" for k b
  proof -
    obtain r where r: "r \<in> set (mt_rows m)" "\<not> mr_private r" "made_from t (ma_key r) k b"
      using inv pub unfolding media_inv_def objects_sound_def by blast
    obtain n e where n: "(n, e) \<in> set all_sizes" "k = variant_key (ma_key r) n"
      using r(3) by (auto simp: made_from_def)
    have "k \<noteq> variant_key (ma_key r') n'" if "r' \<in> set (mt_rows m)" "mr_private r'" "(n', e') \<in> set all_sizes" for r' n' e'
      using variant_key_inj [OF n(1) that(3)] n(2) one [OF r(1) that(1)] r(2) that(2) by auto
    then show ?thesis using r kind by blast
  qed
  then show ?thesis using inv unfolding media_inv_def by blast
qed

section \<open>From the request to the picture\<close>

text \<open>What the encodings promise of a permission: its text reads back, and neither part of its token holds a dot or is empty.\<close>

definition signer_ok :: "signer \<Rightarrow> string \<Rightarrow> upload_grant \<Rightarrow> bool" where
  "signer_ok sg us g \<longleftrightarrow>
     (let p = sg_upload_text sg g; s = sg_mac sg us p
      in sg_upload_read sg p = Some g \<and> p \<noteq> [] \<and> CHR ''.'' \<notin> set p \<and> s \<noteq> [] \<and> CHR ''.'' \<notin> set s)"

lemma takeWhile_none: "c \<notin> set xs \<Longrightarrow> takeWhile (\<lambda>x. x \<noteq> c) xs = xs \<and> dropWhile (\<lambda>x. x \<noteq> c) xs = []"
  by (induction xs) auto

lemma token_parts_sign:
  assumes "CHR ''.'' \<notin> set p" and "CHR ''.'' \<notin> set s"
  shows "token_parts (p @ CHR ''.'' # s) = (p, s)"
proof -
  have "takeWhile (\<lambda>c. c \<noteq> CHR ''.'') (p @ CHR ''.'' # s) = p" "dropWhile (\<lambda>c. c \<noteq> CHR ''.'') (p @ CHR ''.'' # s) = CHR ''.'' # s"
    using assms(1) by (induction p) auto
  then show ?thesis using takeWhile_none [OF assms(2)] by (simp add: token_parts_def)
qed

lemma verify_own_grant:
  assumes "signer_ok sg us g" and "now \<le> ug_exp g"
  shows "verifyGrant sg us now (sign_text sg us (sg_upload_text sg g)) = Inr g"
  using assms by (simp add: verifyGrant_def verify_text_def sign_text_def signer_ok_def token_parts_sign Let_def)

text \<open>Whoever holds a token that is accepted holds the keyed hash of what it says.\<close>

lemma accepted_token_is_signed:
  assumes "verifyGrant sg us now token = Inr g"
  shows "sg_upload_read sg (fst (token_parts token)) = Some g \<and>
    snd (token_parts token) = sg_mac sg us (fst (token_parts token)) \<and> now \<le> ug_exp g"
  using assms by (auto simp: verifyGrant_def verify_text_def split: prod.splits if_splits option.splits)

definition upload_key :: "upload_input \<Rightarrow> string \<Rightarrow> string" where
  "upload_key x uuid = kind_text (ui_kind x) @ ''/'' @ uuid"

definition grant_for :: "int \<Rightarrow> upload_input \<Rightarrow> string \<Rightarrow> upload_grant" where
  "grant_for now x uuid =
     \<lparr>ug_key = quarantineKeyFor (upload_key x uuid), ug_mime = ui_mime x, ug_max = MAX_BYTES,
      ug_exp = now + DEFAULT_UPLOAD_TTL_MS\<rparr>"

definition upload_token :: "signer \<Rightarrow> string \<Rightarrow> int \<Rightarrow> upload_input \<Rightarrow> string \<Rightarrow> string" where
  "upload_token sg us now x uuid = sign_text sg us (sg_upload_text sg (grant_for now x uuid))"

lemma requestUpload_ok:
  assumes "requestUpload sg us bu now i uuid x m = (Inr (a, up), m1)"
  shows "a = i \<and> pu_url up = strip_slash bu @ ''/'' @ upload_token sg us now x uuid \<and> i \<notin> ma_id ` set (mt_rows m) \<and>
    m1 = m\<lparr>mt_rows := mt_rows m @
      [pending_row i (upload_key x uuid) (ui_kind x = MK_PROOF \<or> ui_kind x = MK_SIGNATURE) x]\<rparr>"
  using assms
  by (auto simp: requestUpload_def createPendingAsset_def presignUpload_def upload_token_def grant_for_def upload_key_def Let_def
      split: if_splits)

lemma put_variants_all:
  "list_all (\<lambda>(name, edge). it_encode t edge raw \<noteq> None) vs \<Longrightarrow> fst (put_variants t raw base p vs m) = Inr ()"
  by (induction t raw base p vs m rule: put_variants.induct) auto

definition encodable :: "image_tools \<Rightarrow> string \<Rightarrow> bool" where
  "encodable t raw \<longleftrightarrow> list_all (\<lambda>(name, edge). it_encode t edge raw \<noteq> None) all_sizes"

lemma worker_makes_ready:
  assumes "find (\<lambda>r. ma_id r = i) (mt_rows m) = Some r" and "ma_store r \<noteq> None \<or> mr_owner r \<noteq> None"
    and "mt_quarantine m qk = Some raw" and "inspect t raw = Inr (w, h)"
    and "encodable t raw"
  shows "\<exists>res m4. processQueued t bu i qk m = (res, m4) \<and> ur_status res = MA_READY \<and> mt_quarantine m4 qk = None \<and>
    mt_rows m4 = update_where (\<lambda>q. ma_id q = i \<and> same_tenant \<lparr>ts_store = ma_store r, ts_user = mr_owner r, ts_super = False\<rparr> q)
      (\<lambda>q. q\<lparr>ma_status := MA_READY, mr_mime := ''image/webp'', mr_bytes := int (length (or_else (it_encode t None raw) [])),
        mr_width := Some w, mr_height := Some h\<rparr>) (mt_rows m)"
proof -
  obtain o1 m1 where put: "put_variants t raw (ma_key r) (mr_private r) all_sizes m = (o1, m1)" by fastforce
  have "o1 = Inr ()" using put_variants_all [of t raw all_sizes "ma_key r" "mr_private r" m] assms(5) put by (simp add: encodable_def)
  moreover have "mt_rows m1 = mt_rows m"
    using put_variants_frame(1) [of t raw "ma_key r" "mr_private r" all_sizes m] put by simp
  ultimately show ?thesis
    using put by (simp add: processQueued_def process_def assms(1,3,4) Let_def markReady_def ur_row_update_def discardQuarantine_def)
qed

lemma find_appended: "i \<notin> ma_id ` set rows \<Longrightarrow> P row \<Longrightarrow> ma_id row = i \<Longrightarrow>
    find (\<lambda>r. ma_id r = i \<and> P r) (rows @ [row]) = Some row"
  by (induction rows) auto

lemma update_appended:
  "i \<notin> ma_id ` set rows \<Longrightarrow> ma_id row = i \<Longrightarrow> P row \<Longrightarrow>
    update_where (\<lambda>r. ma_id r = i \<and> P r) f (rows @ [row]) = rows @ [f row]"
  by (induction rows) (auto simp: update_where_def)

text \<open>
  C31. Somebody of the store asks for an upload, sends the file with the permission they were given
  before it expires and says that it is there; when the packages recognise and can encode it, the job
  that this queues ends with the row ready, its address given out unless it is a proof or a
  signature, and nothing left in quarantine.
\<close>

theorem upload_becomes_ready:
  assumes "signer_ok sg us (grant_for now x uuid)" and "requestUpload sg us bu now i uuid x m = (Inr (a, up), m1)"
    and "now' \<le> now + DEFAULT_UPLOAD_TTL_MS" and "file \<noteq> []" and "int (length file) \<le> MAX_BYTES"
    and "i \<notin> jb_asset ` set (mt_jobs m)" and "ui_store x = Some s" and "ts_store sc = Some s"
    and "inspect t file = Inr (w, h)" and "encodable t file"
  shows "\<exists>m2 r3 m3 r4 m4.
    pu_url up = strip_slash bu @ ''/'' @ upload_token sg us now x uuid \<and>
    receive sg us now' (upload_token sg us now x uuid) (Some file) (ui_mime x) m1 = (Inr (int (length file)), m2) \<and>
    completeUpload live pb i sc m2 = (Inr r3, m3) \<and> ur_status r3 = MA_PENDING \<and>
    \<lparr>jb_asset = i, jb_key = quarantineKeyFor (upload_key x uuid)\<rparr> \<in> set (mt_jobs m3) \<and>
    processQueued t pb i (quarantineKeyFor (upload_key x uuid)) m3 = (r4, m4) \<and>
    ur_status r4 = MA_READY \<and> mt_quarantine m4 (quarantineKeyFor (upload_key x uuid)) = None \<and>
    media_status_of live pb i sc m4 =
      Inr \<lparr>ur_asset = i, ur_url = (if ui_kind x = MK_PROOF \<or> ui_kind x = MK_SIGNATURE then None
             else Some (public_url pb (variant_key (upload_key x uuid) ''original''))),
           ur_status = MA_READY, ur_reason = None\<rparr>"
proof -
  define hidden where "hidden \<longleftrightarrow> ui_kind x = MK_PROOF \<or> ui_kind x = MK_SIGNATURE"
  define key where "key = upload_key x uuid"
  define row where "row = pending_row i key hidden x"
  have req: "pu_url up = strip_slash bu @ ''/'' @ upload_token sg us now x uuid" "i \<notin> ma_id ` set (mt_rows m)"
    and m1: "m1 = m\<lparr>mt_rows := mt_rows m @ [row]\<rparr>"
    using requestUpload_ok [OF assms(2)] by (simp_all add: row_def hidden_def key_def)
  have row: "ma_id row = i" "ma_key row = key" "ma_status row = MA_PENDING" "mr_private row = hidden"
    "ma_store row = Some s" "mr_reject row = None"
    by (simp_all add: row_def pending_row_def assms(7))
  define m2 where "m2 = m1\<lparr>mt_quarantine := (mt_quarantine m1)(quarantineKeyFor key \<mapsto> file)\<rparr>"
  have grant: "verifyGrant sg us now' (upload_token sg us now x uuid) =
      Inr (grant_for now x uuid)"
    unfolding upload_token_def by (rule verify_own_grant [OF assms(1)]) (simp add: assms(3) grant_for_def)
  then have received: "receive sg us now' (upload_token sg us now x uuid) (Some file) (ui_mime x) m1 = (Inr (int (length file)), m2)"
    using assms(4,5) by (simp add: receive_def m2_def grant_for_def key_def)
  have seen: "readable live sc q" if "ma_store q = Some s" for q
    using that assms(8) by (simp add: readable_def same_tenant_def)
  have found: "row_of live sc i m2 = Some row"
    using find_appended [OF req(2), of "readable live sc" row] seen [OF row(5)] row(1) by (simp add: row_of_def m2_def m1)
  have m2: "mt_quarantine m2 (quarantineKeyFor key) = Some file" "mt_jobs m2 = mt_jobs m" by (simp_all add: m2_def m1)
  define m3 where "m3 = m2\<lparr>mt_jobs := mt_jobs m2 @ [\<lparr>jb_asset = i, jb_key = quarantineKeyFor key\<rparr>]\<rparr>"
  have completed: "completeUpload live pb i sc m2 =
      (Inr \<lparr>ur_asset = i, ur_url = None, ur_status = MA_PENDING, ur_reason = None\<rparr>, m3)"
    using assms(5,6) by (simp add: completeUpload_def found row m2 m3_def enqueue_media_def Let_def)
  have there: "find (\<lambda>r. ma_id r = i) (mt_rows m3) = Some row"
    using find_appended [OF req(2), of "\<lambda>_. True" row] row(1) by (simp add: m3_def m2_def m1)
  obtain r4 m4 where worked: "processQueued t pb i (quarantineKeyFor key) m3 = (r4, m4)" "ur_status r4 = MA_READY"
    "mt_quarantine m4 (quarantineKeyFor key) = None"
    and rows: "mt_rows m4 = update_where (\<lambda>q. ma_id q = i \<and> same_tenant \<lparr>ts_store = ma_store row, ts_user = mr_owner row, ts_super = False\<rparr> q)
      (\<lambda>q. q\<lparr>ma_status := MA_READY, mr_mime := ''image/webp'', mr_bytes := int (length (or_else (it_encode t None file) [])),
        mr_width := Some w, mr_height := Some h\<rparr>) (mt_rows m3)"
    using worker_makes_ready [OF there _ _ assms(9,10), of "quarantineKeyFor key" pb] row(5)
    by (auto simp: m3_def m2_def)
  define row4 where "row4 = row\<lparr>ma_status := MA_READY, mr_mime := ''image/webp'',
    mr_bytes := int (length (or_else (it_encode t None file) [])), mr_width := Some w, mr_height := Some h\<rparr>"
  have "mt_rows m4 = mt_rows m @ [row4]"
    unfolding rows row4_def m3_def m2_def m1
    by simp (rule update_appended [OF req(2) row(1)], simp add: same_tenant_def row(5))
  moreover have "ma_id row4 = i" "ma_store row4 = Some s" "ma_key row4 = key" "ma_status row4 = MA_READY"
    "mr_private row4 = hidden" "mr_reject row4 = None"
    by (simp_all add: row4_def row)
  ultimately have "media_status_of live pb i sc m4 =
      Inr \<lparr>ur_asset = i, ur_url = (if hidden then None else Some (public_url pb (variant_key key ''original''))),
           ur_status = MA_READY, ur_reason = None\<rparr>"
    using find_appended [OF req(2), of "readable live sc" row4] seen by (simp add: media_status_of_def row_of_def)
  then show ?thesis
    using req(1) received completed worked by (auto simp: hidden_def key_def m3_def)
qed

section \<open>Samples\<close>

definition sample_upload :: upload_input where
  "sample_upload = \<lparr>ui_mime = ''image/png'', ui_bytes = 3, ui_name = None, ui_kind = MK_PRODUCT,
     ui_store = Some ''s1'', ui_owner = Some ''u1''\<rparr>"

definition sample_tools :: image_tools where
  "sample_tools = \<lparr>it_detect = (\<lambda>raw. if raw = ''png'' then Some ''image/png'' else None),
     it_metadata = (\<lambda>_. Some (40, 30)), it_encode = (\<lambda>edge raw. Some (''webp:'' @ raw))\<rparr>"

definition sample_signer :: signer where
  "sample_signer = \<lparr>sg_mac = (\<lambda>s p. ''mac'' @ s), sg_hex = (\<lambda>s p. s @ p), sg_upload_text = (\<lambda>_. ''grant''),
     sg_upload_read = (\<lambda>_. Some (grant_for 0 sample_upload ''k1'')), sg_read_text = (\<lambda>_. ''read''), sg_read_read = (\<lambda>_. None)\<rparr>"

lemma sample_signer_ok: "signer_ok sample_signer ''secret'' (grant_for 0 sample_upload ''k1'')"
  by (simp add: signer_ok_def sample_signer_def)

definition sample_asked :: media where
  "sample_asked = snd (requestUpload sample_signer ''secret'' ''up'' 0 ''a1'' ''k1'' sample_upload no_media)"

lemma sample_request:
  "\<exists>up. requestUpload sample_signer ''secret'' ''up'' 0 ''a1'' ''k1'' sample_upload no_media = (Inr (''a1'', up), sample_asked)"
  by (simp add: sample_asked_def requestUpload_def createPendingAsset_def no_media_def sample_upload_def MAX_BYTES_def
      ACCEPTED_MIME_def Let_def)

lemma sample_inspects: "inspect sample_tools ''png'' = Inr (40, 30)" "encodable sample_tools ''png''"
  by (simp_all add: inspect_def sample_tools_def ACCEPTED_MIME_def encodable_def all_sizes_def VARIANTS_def)

theorem upload_becomes_ready_witness:
  "\<exists>m2 m3 r4 m4.
    receive sample_signer ''secret'' 5 (upload_token sample_signer ''secret'' 0 sample_upload ''k1'') (Some ''png'') ''image/png''
      sample_asked = (Inr 3, m2) \<and>
    snd (completeUpload (\<lambda>_. True) ''cdn'' ''a1'' \<lparr>ts_store = Some ''s1'', ts_user = Some ''u2'', ts_super = False\<rparr> m2) = m3 \<and>
    processQueued sample_tools ''cdn'' ''a1'' ''product/k1.bin'' m3 = (r4, m4) \<and> ur_status r4 = MA_READY"
proof -
  obtain up where up: "requestUpload sample_signer ''secret'' ''up'' 0 ''a1'' ''k1'' sample_upload no_media = (Inr (''a1'', up), sample_asked)"
    using sample_request by blast
  show ?thesis
    using upload_becomes_ready [OF sample_signer_ok up, of 5 "''png''" "''s1''"
        "\<lparr>ts_store = Some ''s1'', ts_user = Some ''u2'', ts_super = False\<rparr>" sample_tools 40 30 "\<lambda>_. True" "''cdn''"]
      sample_inspects
    by (auto simp: DEFAULT_UPLOAD_TTL_MS_def MAX_BYTES_def no_media_def sample_upload_def upload_key_def quarantineKeyFor_def)
qed

definition sample_served :: media where
  "sample_served =
     (let m1 = snd (requestUpload sample_signer ''secret'' ''up'' 0 ''a1'' ''k1'' sample_upload no_media);
          m2 = snd (receive sample_signer ''secret'' 5 ''grant.macsecret'' (Some ''png'') ''image/png'' m1);
          m3 = snd (completeUpload (\<lambda>_. True) ''cdn'' ''a1'' \<lparr>ts_store = Some ''s1'', ts_user = None, ts_super = False\<rparr> m2)
      in snd (processQueued sample_tools ''cdn'' ''a1'' ''product/k1.bin'' m3))"

lemma sample_served_object: "mt_public sample_served ''product/k1/thumb.webp'' = Some ''webp:png''"
  by code_simp

lemma sample_served_runs: "media_runs sample_tools no_media sample_served"
proof -
  let ?m1 = "snd (requestUpload sample_signer ''secret'' ''up'' 0 ''a1'' ''k1'' sample_upload no_media)"
  let ?m2 = "snd (receive sample_signer ''secret'' 5 ''grant.macsecret'' (Some ''png'') ''image/png'' ?m1)"
  let ?m3 = "snd (completeUpload (\<lambda>_. True) ''cdn'' ''a1'' \<lparr>ts_store = Some ''s1'', ts_user = None, ts_super = False\<rparr> ?m2)"
  have "mt_jobs ?m3 = [\<lparr>jb_asset = ''a1'', jb_key = ''product/k1.bin''\<rparr>]" by code_simp
  then have "media_step sample_tools ?m3 sample_served"
    using ms_work [of "\<lparr>jb_asset = ''a1'', jb_key = ''product/k1.bin''\<rparr>" ?m3 sample_tools "''cdn''"]
    by (simp add: sample_served_def)
  then show ?thesis
    by (meson runs_none runs_step ms_request ms_receive ms_complete)
qed

theorem public_media_is_reencoded_witness:
  "\<exists>r \<in> set (mt_rows sample_served). ma_kind r \<notin> {MK_PROOF, MK_SIGNATURE} \<and>
     made_from sample_tools (ma_key r) ''product/k1/thumb.webp'' ''webp:png''"
  using public_media_is_reencoded [OF sample_served_runs] sample_served_object by blast

section \<open>Where the pipeline goes wrong\<close>

text \<open>
  A job that is delivered again after it was done, as a queue that recovers stalled jobs may, finds the
  quarantine empty and marks the finished picture rejected; its files stay where they were.
\<close>

lemma second_delivery_rejects:
  "let m = snd (processQueued sample_tools ''cdn'' ''a1'' ''product/k1.bin'' sample_served)
   in map ma_status (mt_rows sample_served) = [MA_READY] \<and> map ma_status (mt_rows m) = [MA_REJECTED] \<and>
      mt_public m ''product/k1/thumb.webp'' = Some ''webp:png''"
  by code_simp

text \<open>When the encoder fails at the second size, the asset is rejected and its first size is public for good.\<close>

definition failing_tools :: image_tools where
  "failing_tools = sample_tools\<lparr>it_encode := (\<lambda>edge raw. if edge = Some 800 then None else Some (''webp:'' @ raw))\<rparr>"

lemma rejected_leaves_files:
  "let m1 = snd (requestUpload sample_signer ''secret'' ''up'' 0 ''a1'' ''k1'' sample_upload no_media);
       m2 = snd (receive sample_signer ''secret'' 5 ''grant.macsecret'' (Some ''png'') ''image/png'' m1);
       m3 = snd (completeUpload (\<lambda>_. True) ''cdn'' ''a1'' \<lparr>ts_store = Some ''s1'', ts_user = None, ts_super = False\<rparr> m2);
       m4 = snd (processQueued failing_tools ''cdn'' ''a1'' ''product/k1.bin'' m3)
   in map ma_status (mt_rows m4) = [MA_REJECTED] \<and> mt_public m4 ''product/k1/thumb.webp'' = Some ''webp:png''"
  by code_simp

section \<open>Paths stay inside\<close>

lemma safePath_inside: "safePath base relative = Inr path \<Longrightarrow> \<exists>rest. path = base @ rest"
  by (auto simp: safePath_def Let_def split: if_splits) (metis append_take_drop_id)

end
