(* ===== verification/StorefrontProps.thy ===== *)
theory StorefrontProps
  imports Storefront MediaProps
begin

text \<open>
  What the shop window shows: published products of live shops only, pictures that exist, and pages
  that together are the whole list.
\<close>

lemma public_product:
  "p \<in> set (public_products sw) \<Longrightarrow> p \<in> set (ct_products (sw_catalog sw)) \<and> \<not> pr_deleted p \<and> pr_status p = P_ACTIVE \<and>
    live_shop sw (pr_store p)"
  by (simp add: public_products_def)

lemma resolved_media:
  assumes "resolveMedia base sw ids i = Some x"
  shows "\<exists>a \<in> set (sw_media sw). ma_id a = i \<and> ma_status a = MA_READY \<and> \<not> mr_private a \<and>
    mf_url x = public_url base (variant_key (ma_key a) ''original'')"
proof -
  obtain a where a: "find (\<lambda>a. ma_id a = i) (public_media sw) = Some a"
    and x: "mf_url x = public_url base (variant_key (ma_key a) ''original'')"
    using assms by (auto simp: resolveMedia_def split: if_splits)
  then show ?thesis
    using findD [OF a] by (auto simp: public_media_def readable_def same_tenant_def anonymous_def split: option.splits)
qed

lemma getStore_live:
  "getStore base slug sw = Inr pg \<Longrightarrow> sp_shop pg \<in> set (sw_shops sw) \<and> s_slug (sp_shop pg) = slug \<and>
    s_status (sp_shop pg) = ACTIVE \<and> \<not> s_deleted (sp_shop pg)"
  by (auto simp: getStore_def notFound_def Let_def dest!: findD split: option.splits)

text \<open>Whether a row of a listing may be shown.\<close>

definition rightly_shown :: "string \<Rightarrow> window \<Rightarrow> string \<Rightarrow> listed_product \<Rightarrow> bool" where
  "rightly_shown base sw storeId r \<longleftrightarrow>
     li_product r \<in> set (public_products sw) \<and> pr_store (li_product r) = storeId \<and>
     (case li_image r of
        None \<Rightarrow> True
      | Some im \<Rightarrow> \<exists>a \<in> set (sw_media sw). ma_status a = MA_READY \<and> \<not> mr_private a \<and>
          fi_url im = public_url base (variant_key (ma_key a) ''original'')) \<and>
     (case default_variants (li_product r) sw of
        [] \<Rightarrow> li_price r = 0
      | vs \<Rightarrow> \<exists>v \<in> set vs. li_price r = product_variant.pv_price v)"

lemma image_rightly:
  assumes "toImage i (resolveMedia base sw ids) = Some im"
  shows "\<exists>a \<in> set (sw_media sw). ma_status a = MA_READY \<and> \<not> mr_private a \<and>
    fi_url im = public_url base (variant_key (ma_key a) ''original'')"
proof -
  obtain row where row: "i = Some row" using assms by (cases i) (auto simp: toImage_def)
  obtain x where "resolveMedia base sw ids (im_asset row) = Some x" "fi_url im = mf_url x"
    using assms by (auto simp: toImage_def row)
  then show ?thesis using resolved_media by fastforce
qed

lemma searched_rightly:
  assumes "searchProducts se base pg q limit offset sw = Inr page" and "r \<in> set (pp_products page)"
  shows "rightly_shown base sw (s_id (sp_shop pg)) r \<and> pp_store page = pg"
proof -
  let ?all = "search_rows se (s_id (sp_shop pg)) q sw"
  obtain rows where rows: "sql_page limit offset ?all = Inr rows"
    using assms(1) by (auto simp: searchProducts_def)
  then have sub: "set rows \<subseteq> set ?all"
    by (auto simp: sql_page_def split: if_splits dest: in_set_takeD in_set_dropD)
  define ids where "ids = asset_ids (map (\<lambda>(p, v). cover_image p sw) rows)"
  obtain p v where pv: "(p, v) \<in> set rows"
    and r: "li_product r = p" "li_price r = product_variant.pv_price v" "li_image r = toImage (cover_image p sw) (resolveMedia base sw ids)"
    and pg: "pp_store page = pg"
    using assms rows by (auto simp: searchProducts_def Let_def ids_def)
  have "v \<in> set (default_variants p sw)" "p \<in> set (public_products sw)" "pr_store p = s_id (sp_shop pg)"
    using pv sub by (auto simp: search_rows_def found_products_def)
  then show ?thesis
    using r pg image_rightly [of "cover_image p sw" base sw ids]
    by (cases "default_variants p sw") (auto simp: rightly_shown_def split: option.splits)
qed

lemma set_client_page: "set (client_page n skip xs) \<subseteq> set xs"
proof -
  have "set (take a (drop b ys)) \<subseteq> set ys" for a b and ys :: "'a list"
    by (meson order_trans set_drop_subset set_take_subset)
  then show ?thesis by (metis client_page_def set_rev)
qed

lemma browse_row_rightly:
  assumes "p \<in> set (public_products sw)" and "pr_store p = storeId"
  shows "rightly_shown base sw storeId (browse_row base page sw p)"
  using assms image_rightly
  by (auto simp: rightly_shown_def browse_row_def Let_def split: option.splits list.splits)

lemma browsed_rightly:
  assumes "r \<in> set (pp_products (browseProducts se base pg f limit offset sw))"
  shows "rightly_shown base sw (s_id (sp_shop pg)) r"
proof -
  define page where "page = client_page limit offset (browse_order se f (browsed (s_id (sp_shop pg)) f sw))"
  obtain p where p: "p \<in> set page" "r = browse_row base page sw p"
    using assms by (auto simp: browseProducts_def Let_def price_sort_def page_def split: if_splits)
  have "p \<in> set (browsed (s_id (sp_shop pg)) f sw)"
    using p(1) set_client_page unfolding page_def browse_order_def by (fastforce split: if_splits)
  then show ?thesis using p(2) browse_row_rightly by (simp add: browsed_def)
qed

lemma shown_rightly:
  assumes "products_route se base slug f sw = Inr page" and "r \<in> set (pp_products page)"
  shows "rightly_shown base sw (s_id (sp_shop (pp_store page))) r \<and> getStore base slug sw = Inr (pp_store page)"
proof -
  obtain f' where l: "list_shop_products se base slug f' sw = Inr page"
    using assms(1) by (auto simp: products_route_def split: if_splits)
  obtain pg where pg: "getStore base slug sw = Inr pg"
    using l by (auto simp: list_shop_products_def)
  show ?thesis
  proof (cases "trimmed_query (sf_q f')")
    case None
    then have "page = browseProducts se base pg f' (min (or_else (sf_limit f') 24) 60) (max (or_else (sf_offset f') 0) 0) sw"
      using l pg by (simp add: list_shop_products_def)
    then show ?thesis using assms(2) pg browsed_rightly by (auto simp: browseProducts_def Let_def)
  next
    case (Some q)
    then have "searchProducts se base pg q (min (or_else (sf_limit f') 24) 60) (max (or_else (sf_offset f') 0) 0) sw = Inr page"
      using l pg by (simp add: list_shop_products_def Let_def)
    then show ?thesis using searched_rightly [OF _ assms(2)] pg by auto
  qed
qed

text \<open>
  C24. Whatever is searched or browsed, a shop's page shows products of that live shop that are published
  and not deleted, at the price of their default option (or 0 when no reader may see one); and every
  picture's address is that of a file the media pipeline has really put into the public store.
\<close>

theorem window_shows_published:
  assumes "media_runs t no_media m" and "sw_media sw = mt_rows m"
    and "products_route se base slug f sw = Inr page" and "r \<in> set (pp_products page)"
  shows "s_slug (sp_shop (pp_store page)) = slug \<and> s_status (sp_shop (pp_store page)) = ACTIVE \<and>
    \<not> s_deleted (sp_shop (pp_store page)) \<and> li_product r \<in> set (ct_products (sw_catalog sw)) \<and>
    pr_status (li_product r) = P_ACTIVE \<and> \<not> pr_deleted (li_product r) \<and>
    pr_store (li_product r) = s_id (sp_shop (pp_store page)) \<and>
    (default_variants (li_product r) sw = [] \<and> li_price r = 0 \<or>
     (\<exists>v \<in> set (default_variants (li_product r) sw). li_price r = product_variant.pv_price v)) \<and>
    (\<forall>im. li_image r = Some im \<longrightarrow>
      (\<exists>k b. fi_url im = public_url base k \<and> mt_public m k = Some b))"
proof -
  have shown: "rightly_shown base sw (s_id (sp_shop (pp_store page))) r"
    and live: "getStore base slug sw = Inr (pp_store page)"
    using shown_rightly [OF assms(3,4)] by auto
  have inv: "media_inv t m" by (rule media_inv_runs [OF assms(1) media_inv_start])
  have "\<exists>k b. fi_url im = public_url base k \<and> mt_public m k = Some b" if im: "li_image r = Some im" for im
  proof -
    obtain a where a: "a \<in> set (mt_rows m)" "ma_status a = MA_READY" "\<not> mr_private a"
      and url: "fi_url im = public_url base (variant_key (ma_key a) ''original'')"
      using shown im by (auto simp: rightly_shown_def assms(2))
    have "complete_row m a" using inv a by (auto simp: media_inv_def)
    then have "mt_public m (variant_key (ma_key a) ''original'') \<noteq> None"
      using a(3) by (auto simp: complete_row_def shelf_def all_sizes_def)
    then show ?thesis using url by blast
  qed
  moreover have "default_variants (li_product r) sw = [] \<and> li_price r = 0 \<or>
     (\<exists>v \<in> set (default_variants (li_product r) sw). li_price r = product_variant.pv_price v)"
    using shown by (auto simp: rightly_shown_def split: list.splits)
  ultimately show ?thesis
    using getStore_live [OF live] shown public_product [of "li_product r" sw] by (simp add: rightly_shown_def)
qed

section \<open>Pages\<close>

lemma pages_concat: "concat (map (\<lambda>k. take n (drop (k * n) xs)) [0..<K]) = take (K * n) xs"
proof (induction K)
  case (Suc K)
  have "take (Suc K * n) xs = take (K * n) xs @ take n (drop (K * n) xs)"
    by (metis add.commute mult_Suc take_add)
  then show ?case using Suc by simp
qed simp

definition at_page :: "nat \<Rightarrow> nat \<Rightarrow> shop_filters \<Rightarrow> shop_filters" where
  "at_page n k f = f\<lparr>sf_limit := Some (int n), sf_offset := Some (int (k * n))\<rparr>"

lemma browse_at_page:
  assumes "getStore base slug sw = Inr pg" and "trimmed_query (sf_q f) = None" and "n \<le> 60"
  shows "list_shop_products se base slug (at_page n k f) sw =
    Inr (browseProducts se base pg (at_page n k f) (int n) (int (k * n)) sw)"
  using assms by (simp add: list_shop_products_def at_page_def Let_def min_def max.absorb1)

text \<open>
  Leafing through a shop with a fixed page size, in the order of names or of age, shows every product
  that matches exactly once and in that order, and the total announced on each page is their number.
\<close>

theorem pages_are_the_list:
  assumes "getStore base slug sw = Inr pg" and "trimmed_query (sf_q f) = None" and "n \<le> 60"
    and "sf_sort f \<notin> {Some ''price_asc'', Some ''price_desc''}"
    and "length (browsed (s_id (sp_shop pg)) f sw) \<le> K * n"
  shows "\<exists>page. list_all (\<lambda>k. list_shop_products se base slug (at_page n k f) sw = Inr (page k) \<and>
      pp_total (page k) = int (length (browsed (s_id (sp_shop pg)) f sw))) [0..<K] \<and>
    map li_product (concat (map (\<lambda>k. pp_products (page k)) [0..<K])) = browse_order se f (browsed (s_id (sp_shop pg)) f sw)"
proof -
  let ?all = "browsed (s_id (sp_shop pg)) f sw"
  define page where "page k = browseProducts se base pg (at_page n k f) (int n) (int (k * n)) sw" for k
  have same: "browsed s (at_page n k f) sw = browsed s f sw" "browse_order se (at_page n k f) = browse_order se f" for s k
    by (auto simp: browsed_def at_page_def in_price_range_def browse_order_def fun_eq_iff)
  have unsorted: "price_sort (at_page n k f) rows = rows" for k rows
    using assms(4) by (simp add: price_sort_def at_page_def)
  have one: "map li_product (pp_products (page k)) = take n (drop (k * n) (browse_order se f ?all))" for k
    by (simp add: page_def browseProducts_def Let_def same unsorted client_page_def comp_def browse_row_def nat_mult_distrib
        flip: of_nat_mult)
  have "map li_product (concat (map (\<lambda>k. pp_products (page k)) [0..<K])) =
      concat (map (\<lambda>k. take n (drop (k * n) (browse_order se f ?all))) [0..<K])"
    by (simp add: map_concat comp_def one)
  also have "\<dots> = browse_order se f ?all"
    using assms(5) by (simp add: pages_concat browse_order_def)
  finally have "map li_product (concat (map (\<lambda>k. pp_products (page k)) [0..<K])) = browse_order se f ?all" .
  moreover have "list_shop_products se base slug (at_page n k f) sw = Inr (page k)" for k
    unfolding page_def by (rule browse_at_page [OF assms(1-3)])
  moreover have "pp_total (page k) = int (length ?all)" for k
    by (simp add: page_def browseProducts_def Let_def same)
  ultimately show ?thesis by (intro exI [of _ page]) (simp add: list_all_iff)
qed

section \<open>Samples\<close>

definition window_shop :: shop where
  "window_shop = store.extend (sample_store ACTIVE) (shop.fields ''RETAIL'' None None)"

definition window_product :: "string \<Rightarrow> string \<Rightarrow> product" where
  "window_product i name =
     \<lparr>pr_id = i, pr_store = ''s1'', pr_category = None, pr_name = name, pr_slug = i, pr_brand = None,
      pr_description = None, pr_status = P_ACTIVE, pr_deleted = False, pr_updated = 0\<rparr>"

definition window_variant :: "string \<Rightarrow> string \<Rightarrow> int \<Rightarrow> product_variant" where
  "window_variant i p price =
     \<lparr>pv_id = i, pv_product = p, pv_store = ''s1'', pv_sku = None, pv_barcode = None, pv_attrs = [], pv_price = price,
      pv_compare = None, pv_cost = None, pv_default = True, pv_active = True, pv_deleted = False\<rparr>"

definition window_image :: "string \<Rightarrow> int \<Rightarrow> product_image" where
  "window_image i position =
     \<lparr>im_id = i, im_product = ''p1'', im_store = ''s1'', im_asset = ''a1'', im_alt = None, im_position = position\<rparr>"

definition window_catalog :: catalog where
  "window_catalog =
     \<lparr>ct_categories = [], ct_products = [window_product ''p1'' ''Tea'', window_product ''p2'' ''Cup''],
      ct_variants = [window_variant ''v1'' ''p1'' 500], ct_images = [window_image ''i1'' 0, window_image ''i2'' 1],
      ct_assets = [], ct_audit = []\<rparr>"

definition sample_window :: "catalog \<Rightarrow> window" where
  "sample_window c = \<lparr>sw_shops = [window_shop], sw_hours = [], sw_catalog = c, sw_media = mt_rows sample_served\<rparr>"

definition sample_engine :: search_engine where
  "sample_engine = \<lparr>se_match = (\<lambda>q p. True), se_rank = (\<lambda>q p. 0), se_shop_match = (\<lambda>q s. True), se_shop_score = (\<lambda>q s. 0),
     se_collate = length, se_created = pr_updated\<rparr>"

definition no_filters :: shop_filters where
  "no_filters = \<lparr>sf_q = None, sf_category = None, sf_min = None, sf_max = None, sf_sort = None, sf_limit = None, sf_offset = None\<rparr>"

lemma sample_rows:
  "map (\<lambda>r. (ma_id r, ma_store r, ma_status r, mr_private r, ma_key r)) (mt_rows sample_served) =
     [(''a1'', Some ''s1'', MA_READY, False, ''product/k1'')]"
  by code_simp

lemma window_shop_fields [simp]:
  "s_id window_shop = ''s1''" "s_status window_shop = ACTIVE" "\<not> s_deleted window_shop" "s_slug window_shop = ''tea''"
  "sh_logo window_shop = None" "sh_banner window_shop = None"
  by (simp_all add: window_shop_def sample_store_def store.defs shop.defs)

lemma sample_window_fields [simp]:
  "sw_shops (sample_window c) = [window_shop]" "sw_hours (sample_window c) = []" "sw_catalog (sample_window c) = c"
  "sw_media (sample_window c) = mt_rows sample_served"
  by (simp_all add: sample_window_def)

lemmas browsing_sample = products_route_def list_shop_products_def no_filters_def trimmed_query_def browseProducts_def Let_def
  browsed_def public_products_def window_catalog_def window_product_def live_shop_def given_def in_price_range_def
  browse_order_def sample_engine_def client_page_def price_sort_def browse_row_def default_variants_def
  public_variants_def window_variant_def

lemma sample_page: "getStore ''cdn'' ''tea'' (sample_window c) = Inr \<lparr>sp_shop = window_shop, sp_hours = [], sp_logo = None, sp_banner = None\<rparr>"
  by (simp add: getStore_def given_def getHours_def)

lemma sample_listing:
  "\<exists>page r. products_route sample_engine ''cdn'' ''tea'' no_filters (sample_window window_catalog) = Inr page \<and>
     r \<in> set (pp_products page) \<and> li_image r \<noteq> None \<and> li_price r = 500"
proof -
  obtain a where a: "mt_rows sample_served = [a]" "ma_id a = ''a1''" "ma_store a = Some ''s1''" "ma_status a = MA_READY" "\<not> mr_private a"
    using sample_rows by (auto simp: map_eq_Cons_conv)
  show ?thesis
    by (simp add: browsing_sample sample_page first_image_def
        public_images_def window_image_def toImage_def resolveMedia_def asset_ids_def public_media_def readable_def a
        served_shop_def ex_disj_distrib conj_disj_distribR)
qed

theorem window_shows_published_witness:
  "\<exists>page r k b. products_route sample_engine ''cdn'' ''tea'' no_filters (sample_window window_catalog) = Inr page \<and>
     r \<in> set (pp_products page) \<and> pr_status (li_product r) = P_ACTIVE \<and> mt_public sample_served k = Some b"
proof -
  obtain page r im where l: "products_route sample_engine ''cdn'' ''tea'' no_filters (sample_window window_catalog) = Inr page"
    "r \<in> set (pp_products page)" "li_image r = Some im"
    using sample_listing by fastforce
  have "sw_media (sample_window window_catalog) = mt_rows sample_served" by simp
  from window_shows_published [OF sample_served_runs this l(1,2)] show ?thesis using l by blast
qed

theorem pages_are_the_list_witness:
  "\<exists>page :: nat \<Rightarrow> product_page. map li_product (concat (map (\<lambda>k. pp_products (page k)) [0..<2])) =
     [window_product ''p1'' ''Tea'', window_product ''p2'' ''Cup'']"
proof -
  have all: "browsed (s_id (sp_shop \<lparr>sp_shop = window_shop, sp_hours = [], sp_logo = None, sp_banner = None\<rparr>)) no_filters
      (sample_window window_catalog) = [window_product ''p1'' ''Tea'', window_product ''p2'' ''Cup'']"
    by (simp add: browsing_sample)
  have order: "browse_order sample_engine no_filters [window_product ''p1'' ''Tea'', window_product ''p2'' ''Cup''] =
      [window_product ''p1'' ''Tea'', window_product ''p2'' ''Cup'']"
    by (simp add: browse_order_def no_filters_def sample_engine_def window_product_def)
  have none: "trimmed_query (sf_q no_filters) = None" "sf_sort no_filters \<notin> {Some ''price_asc'', Some ''price_desc''}"
    by (simp_all add: no_filters_def trimmed_query_def)
  have le: "(1 :: nat) \<le> 60" by simp
  let ?pg = "\<lparr>sp_shop = window_shop, sp_hours = [], sp_logo = None, sp_banner = None\<rparr>"
  have len: "length (browsed (s_id (sp_shop ?pg)) no_filters (sample_window window_catalog)) \<le> 2 * 1"
    unfolding all by simp
  from pages_are_the_list [OF sample_page none(1) le none(2) len, of sample_engine, unfolded all]
  obtain page :: "nat \<Rightarrow> product_page" where "map li_product (concat (map (\<lambda>k. pp_products (page k)) [0..<2])) =
      browse_order sample_engine no_filters [window_product ''p1'' ''Tea'', window_product ''p2'' ''Cup'']"
    by blast
  then show ?thesis unfolding order by (rule exI [of _ page])
qed

section \<open>Where the window goes wrong\<close>

text \<open>A search takes no notice of the category, the prices and the order asked for.\<close>

lemma search_ignores_filters:
  assumes "trimmed_query (sf_q f) = Some q" and "sf_q f' = sf_q f" and "sf_limit f' = sf_limit f" and "sf_offset f' = sf_offset f"
  shows "list_shop_products se base slug f' sw = list_shop_products se base slug f sw"
  using assms by (simp add: list_shop_products_def)

text \<open>A published product whose last option has been deleted is shown, free of charge, and a search counts it and does not show it.\<close>

lemma shown_for_nothing:
  "\<exists>page r. products_route sample_engine ''cdn'' ''tea'' no_filters (sample_window window_catalog) = Inr page \<and>
     r \<in> set (pp_products page) \<and> pr_id (li_product r) = ''p2'' \<and> li_price r = 0"
  by (simp add: browsing_sample sample_page ex_disj_distrib conj_disj_distribR)

lemma counted_and_not_shown:
  "\<exists>page. products_route sample_engine ''cdn'' ''tea'' (no_filters\<lparr>sf_q := Some ''t''\<rparr>) (sample_window window_catalog) = Inr page \<and>
     length (pp_products page) = 1 \<and> pp_total page = 2"
  by (simp add: browsing_sample sample_page js_trim_def is_space_def searchProducts_def search_rows_def found_products_def sql_page_def)

text \<open>After the first picture is taken away, browsing shows the second and a search shows none.\<close>

lemma sample_public:
  "ct_products c = ct_products window_catalog \<Longrightarrow>
    public_products (sample_window c) = [window_product ''p1'' ''Tea'', window_product ''p2'' ''Cup'']"
  by (simp add: public_products_def window_catalog_def window_product_def live_shop_def)

lemma cover_is_lost:
  "let c = snd (detachImage ''s1'' ''i1'' window_catalog)
   in first_image (window_product ''p1'' ''Tea'') (sample_window c) = Some (window_image ''i2'' 1) \<and>
      cover_image (window_product ''p1'' ''Tea'') (sample_window c) = None"
proof -
  have detached: "snd (detachImage ''s1'' ''i1'' window_catalog) = window_catalog\<lparr>ct_images := [window_image ''i2'' 1]\<rparr>"
    by (simp add: detachImage_def cat_tx_def window_catalog_def window_image_def)
  have "public_images (sample_window (window_catalog\<lparr>ct_images := [window_image ''i2'' 1]\<rparr>)) = [window_image ''i2'' 1]"
    by (simp add: public_images_def sample_public window_product_def window_image_def)
  then show ?thesis
    by (simp add: Let_def detached first_image_def cover_image_def window_image_def window_product_def)
qed

end
