(* ===== verification/OAuth.thy ===== *)
theory OAuth
  imports Accounts
begin

text \<open>
  Signing in with Google and the signed tokens (\<open>OAuthService\<close>, \<open>TokenService\<close> and the two routes of
  \<open>AuthController\<close>, with the browser's callback route of \<open>apps/web\<close>).  Signing and opening a token,
  hashing and Google's answers are other people's code: they are the functions of two records.
  Random values, identifiers and the clock are supplied: seconds for the functions of \<open>TokenService\<close>,
  milliseconds elsewhere.
\<close>

section \<open>Signed tokens\<close>

record token_body =
  tk_sub :: string
  tk_issuer :: string
  tk_audience :: string
  tk_expires :: int
  tk_email :: string
  tk_super :: bool
  tk_memberships :: "(string \<times> membership_role) list"
  tk_purpose :: string
  tk_nonce :: string
  tk_verifier :: string
  tk_redirect :: string

text \<open>What the token package does: opening gives the body of what our key signed, and nothing of anything else.\<close>

record token_crypto =
  tc_sign :: "token_body \<Rightarrow> string"
  tc_open :: "string \<Rightarrow> token_body option"
  tc_challenge :: "string \<Rightarrow> string"

record token_config =
  cf_issuer :: string
  cf_audience :: string
  cf_ttl :: int
  cf_web_origin :: string
  cf_client_id :: "string option"
  cf_client_secret :: "string option"

definition MFA_AUDIENCE :: string where
  "MFA_AUDIENCE = ''bba-mfa-challenge''"

definition OAUTH_STATE_AUDIENCE :: string where
  "OAUTH_STATE_AUDIENCE = ''bba-oauth-state''"

definition blank_body :: token_body where
  "blank_body = \<lparr>tk_sub = [], tk_issuer = [], tk_audience = [], tk_expires = 0, tk_email = [], tk_super = False,
     tk_memberships = [], tk_purpose = [], tk_nonce = [], tk_verifier = [], tk_redirect = []\<rparr>"

text \<open>\<open>jwtVerify\<close> with an issuer and an audience.\<close>

definition jwtVerify :: "token_crypto \<Rightarrow> token_config \<Rightarrow> string \<Rightarrow> int \<Rightarrow> string \<Rightarrow> token_body option" where
  "jwtVerify tc cf audience now token =
     (case tc_open tc token of
        None \<Rightarrow> None
      | Some b \<Rightarrow> if tk_issuer b = cf_issuer cf \<and> tk_audience b = audience \<and> now < tk_expires b then Some b else None)"

definition issueAccessToken :: "token_crypto \<Rightarrow> token_config \<Rightarrow> int \<Rightarrow> claims \<Rightarrow> string" where
  "issueAccessToken tc cf now c =
     tc_sign tc (blank_body\<lparr>tk_sub := cm_sub c, tk_issuer := cf_issuer cf, tk_audience := cf_audience cf,
       tk_expires := now + cf_ttl cf, tk_email := cm_email c, tk_super := cm_super c, tk_memberships := cm_memberships c\<rparr>)"

definition verifyAccessToken :: "token_crypto \<Rightarrow> token_config \<Rightarrow> int \<Rightarrow> string \<Rightarrow> claims res" where
  "verifyAccessToken tc cf now token =
     (case jwtVerify tc cf (cf_audience cf) now token of
        None \<Rightarrow> Inl (Unauthenticated ''Your session is invalid or has expired.'')
      | Some b \<Rightarrow> Inr \<lparr>cm_sub = tk_sub b, cm_email = tk_email b, cm_super = tk_super b, cm_memberships = tk_memberships b\<rparr>)"

definition signInExpired :: app_error where
  "signInExpired = Unauthenticated ''That sign-in attempt expired. Please start again.''"

definition issueMfaChallenge :: "token_crypto \<Rightarrow> token_config \<Rightarrow> int \<Rightarrow> string \<Rightarrow> string" where
  "issueMfaChallenge tc cf now userId =
     tc_sign tc (blank_body\<lparr>tk_sub := userId, tk_issuer := cf_issuer cf, tk_audience := MFA_AUDIENCE,
       tk_expires := now + 300, tk_purpose := ''mfa_challenge''\<rparr>)"

definition verifyMfaChallenge :: "token_crypto \<Rightarrow> token_config \<Rightarrow> int \<Rightarrow> string \<Rightarrow> string res" where
  "verifyMfaChallenge tc cf now token =
     (case jwtVerify tc cf MFA_AUDIENCE now token of
        None \<Rightarrow> Inl signInExpired
      | Some b \<Rightarrow> if tk_purpose b = ''mfa_challenge'' then Inr (tk_sub b) else Inl signInExpired)"

record oauth_state =
  os_nonce :: string
  os_verifier :: string
  os_redirect :: string

definition issueOAuthState :: "token_crypto \<Rightarrow> token_config \<Rightarrow> int \<Rightarrow> oauth_state \<Rightarrow> string" where
  "issueOAuthState tc cf now st =
     tc_sign tc (blank_body\<lparr>tk_issuer := cf_issuer cf, tk_audience := OAUTH_STATE_AUDIENCE, tk_expires := now + 600,
       tk_nonce := os_nonce st, tk_verifier := os_verifier st, tk_redirect := os_redirect st\<rparr>)"

definition verifyOAuthState :: "token_crypto \<Rightarrow> token_config \<Rightarrow> int \<Rightarrow> string \<Rightarrow> oauth_state res" where
  "verifyOAuthState tc cf now token =
     (case jwtVerify tc cf OAUTH_STATE_AUDIENCE now token of
        None \<Rightarrow> Inl signInExpired
      | Some b \<Rightarrow> Inr \<lparr>os_nonce = tk_nonce b, os_verifier = tk_verifier b, os_redirect = tk_redirect b\<rparr>)"

section \<open>Where to send the browser\<close>

definition safeRedirectPath :: "string option \<Rightarrow> string" where
  "safeRedirectPath candidate =
     (case candidate of
        None \<Rightarrow> ''/account''
      | Some p \<Rightarrow>
          if p = [] \<or> take 1 p \<noteq> ''/'' \<or> take 2 p = ''//'' then ''/account''
          else if CHR 0x5C \<in> set p then ''/account''
          else p)"

definition googleRedirectUri :: "token_config \<Rightarrow> string" where
  "googleRedirectUri cf = cf_web_origin cf @ ''/auth/oauth/google/callback''"

definition isGoogleConfigured :: "token_config \<Rightarrow> bool" where
  "isGoogleConfigured cf \<longleftrightarrow> or_else (cf_client_id cf) [] \<noteq> [] \<and> or_else (cf_client_secret cf) [] \<noteq> []"

text \<open>The parameters of the address the browser is sent to.\<close>

record google_authorization =
  ga_client :: string
  ga_redirect :: string
  ga_state :: string
  ga_challenge :: string

definition buildGoogleAuthorization ::
    "token_crypto \<Rightarrow> token_config \<Rightarrow> string \<Rightarrow> string \<Rightarrow> google_authorization res" where
  "buildGoogleAuthorization tc cf nonce codeVerifier =
     (if or_else (cf_client_id cf) [] = [] then Inl (Validation ''Google sign-in isn't configured.'')
      else Inr \<lparr>ga_client = or_else (cf_client_id cf) [], ga_redirect = googleRedirectUri cf, ga_state = nonce,
                ga_challenge = tc_challenge tc codeVerifier\<rparr>)"

text \<open>The answer, and the cookie that remembers the round trip.\<close>

definition startGoogleSignIn ::
    "token_crypto \<Rightarrow> token_config \<Rightarrow> int \<Rightarrow> string \<Rightarrow> string \<Rightarrow> string option \<Rightarrow> (google_authorization \<times> string) res" where
  "startGoogleSignIn tc cf now nonce codeVerifier redirectTo =
     (let destination = safeRedirectPath redirectTo
      in mapE (\<lambda>url. (url, issueOAuthState tc cf (now div 1000)
           \<lparr>os_nonce = nonce, os_verifier = codeVerifier, os_redirect = destination\<rparr>))
         (buildGoogleAuthorization tc cf nonce codeVerifier))"

section \<open>What Google says\<close>

datatype 'a google_answer = Unreachable | Refused nat | Answered 'a

record google_profile =
  gp_sub :: "string option"
  gp_email :: "string option"
  gp_verified :: "bool option"
  gp_name :: "string option"

text \<open>Google's two endpoints: a code with its verifier, and an access token.\<close>

record google =
  gg_token :: "string \<Rightarrow> string \<Rightarrow> string option google_answer"
  gg_userinfo :: "string \<Rightarrow> google_profile google_answer"

record oauth_profile =
  op_uid :: string
  op_email :: string
  op_verified :: bool
  op_name :: "string option"

definition tryAgain :: app_error where
  "tryAgain = Unauthenticated ''That sign-in didn't complete. Please try again.''"

definition fetchProvider :: "'a google_answer \<Rightarrow> 'a res" where
  "fetchProvider r =
     (case r of
        Unreachable \<Rightarrow> Inl (Unauthenticated ''Couldn't reach Google just now. Please try again.'')
      | Refused _ \<Rightarrow> Inl tryAgain
      | Answered x \<Rightarrow> Inr x)"

definition exchangeGoogleCode :: "token_config \<Rightarrow> google \<Rightarrow> string \<Rightarrow> string \<Rightarrow> oauth_profile res" where
  "exchangeGoogleCode cf g code codeVerifier =
     (if \<not> isGoogleConfigured cf then Inl (Validation ''Google sign-in isn't configured.'')
      else bindE (fetchProvider (gg_token g code codeVerifier)) (\<lambda>token.
        if or_else token [] = [] then Inl tryAgain
        else bindE (fetchProvider (gg_userinfo g (or_else token []))) (\<lambda>p.
          if or_else (gp_sub p) [] = [] \<or> or_else (gp_email p) [] = []
          then Inl (Unauthenticated ''Google didn't return an email address for that account.'')
          else Inr \<lparr>op_uid = or_else (gp_sub p) [], op_email = or_else (gp_email p) [],
                    op_verified = (gp_verified p = Some True), op_name = gp_name p\<rparr>)))"

section \<open>Identities\<close>

record auth_identity =
  ai_id :: string
  ai_user :: string
  ai_provider :: string
  ai_uid :: string
  ai_email :: "string option"

record oauth =
  oa_auth :: auth
  oa_identities :: "auth_identity list"

type_synonym 'a oauth_outcome = "'a res \<times> oauth"

definition findIdentity :: "string \<Rightarrow> string \<Rightarrow> oauth \<Rightarrow> auth_identity option" where
  "findIdentity provider uid oa = find (\<lambda>i. ai_provider i = provider \<and> ai_uid i = uid) (oa_identities oa)"

definition insert_identity :: "auth_identity \<Rightarrow> oauth \<Rightarrow> oauth res" where
  "insert_identity i oa =
     (if \<exists>j \<in> set (oa_identities oa). ai_provider j = ai_provider i \<and> ai_uid j = ai_uid i
      then Inl (UniqueViolation ''auth_identities'')
      else Inr (oa\<lparr>oa_identities := oa_identities oa @ [i]\<rparr>))"

text \<open>\<open>email.split("@")[0]\<close>\<close>

definition email_name :: "string \<Rightarrow> string" where
  "email_name email = takeWhile (\<lambda>c. c \<noteq> CHR ''@'') email"

definition new_google_user :: "int \<Rightarrow> string \<Rightarrow> string \<Rightarrow> oauth_profile \<Rightarrow> user" where
  "new_google_user now userId email p =
     \<lparr>u_id = userId, u_email = email,
      u_name = (if js_trim (or_else (op_name p) []) = [] then email_name email else js_trim (or_else (op_name p) [])),
      u_hash = None, u_status = U_ACTIVE, u_super = False, u_deleted = False, u_last_login = None,
      u_totp = None, u_mfa_at = None, u_verified = Some now\<rparr>"

record resolved_profile =
  rs_user :: string
  rs_created :: bool
  rs_linked :: bool

text \<open>The identifiers of a new account and of a new identity are \<open>newUser\<close> and \<open>newIdentity\<close>.\<close>

definition resolveProfile ::
    "int \<Rightarrow> string \<Rightarrow> string \<Rightarrow> oauth_profile \<Rightarrow> oauth \<Rightarrow> resolved_profile oauth_outcome" where
  "resolveProfile now newUser newIdentity p oa =
     (case findIdentity ''GOOGLE'' (op_uid p) oa of
        Some i \<Rightarrow> (Inr \<lparr>rs_user = ai_user i, rs_created = False, rs_linked = False\<rparr>, oa)
      | None \<Rightarrow>
          let email = map lower_char (js_trim (op_email p));
              identity = (\<lambda>u. \<lparr>ai_id = newIdentity, ai_user = u, ai_provider = ''GOOGLE'', ai_uid = op_uid p, ai_email = Some email\<rparr>)
          in (case findUserByEmail email (oa_auth oa) of
              Some u \<Rightarrow>
                if \<not> op_verified p
                then (Inl (Forbidden ''We couldn't verify that email with your provider. Sign in with your password instead.''), oa)
                else if u_status u \<noteq> U_ACTIVE \<or> u_deleted u then (Inl (Unauthenticated ''Authentication is required.''), oa)
                else (case insert_identity (identity (u_id u)) oa of
                    Inl e \<Rightarrow> (Inl e, oa)
                  | Inr oa1 \<Rightarrow> (Inr \<lparr>rs_user = u_id u, rs_created = False, rs_linked = True\<rparr>, oa1))
            | None \<Rightarrow>
                if \<not> op_verified p
                then (Inl (Forbidden ''Your provider hasn't verified that email address, so we can't create an account with it.''), oa)
                else let oa1 = oa\<lparr>oa_auth := (oa_auth oa)\<lparr>a_users := a_users (oa_auth oa) @ [new_google_user now newUser email p]\<rparr>\<rparr>
                     in (case insert_identity (identity newUser) oa1 of
                         Inl e \<Rightarrow> (Inl e, oa)
                       | Inr oa2 \<Rightarrow> (Inr \<lparr>rs_user = newUser, rs_created = True, rs_linked = False\<rparr>, oa2))))"

definition listIdentities :: "string \<Rightarrow> oauth \<Rightarrow> auth_identity list" where
  "listIdentities userId oa = filter (\<lambda>i. ai_user i = userId) (oa_identities oa)"

text \<open>What \<open>unlinkIdentity\<close> reads, in transactions of its own, and what it then writes.\<close>

definition last_way_in :: "string \<Rightarrow> oauth \<Rightarrow> bool" where
  "last_way_in userId oa =
     (let passwordHash = (case find_user userId (oa_auth oa) of None \<Rightarrow> None | Some u \<Rightarrow> u_hash u);
          isLast = length (listIdentities userId oa) \<le> 1
      in isLast \<and> or_else passwordHash [] = [])"

definition delete_identity :: "string \<Rightarrow> string \<Rightarrow> oauth \<Rightarrow> unit oauth_outcome" where
  "delete_identity userId identityId oa =
     (if \<exists>i \<in> set (oa_identities oa). ai_id i = identityId \<and> ai_user i = userId
      then (Inr (), oa\<lparr>oa_identities := filter (\<lambda>i. \<not> (ai_id i = identityId \<and> ai_user i = userId)) (oa_identities oa)\<rparr>)
      else (notFound, oa))"

definition unlinkIdentity :: "string \<Rightarrow> string \<Rightarrow> oauth \<Rightarrow> unit oauth_outcome" where
  "unlinkIdentity userId identityId oa =
     (if last_way_in userId oa
      then (Inl (Validation ''Set a password before removing your last sign-in method, or you won't be able to get back in.''), oa)
      else delete_identity userId identityId oa)"

section \<open>The callback\<close>

text \<open>\<open>AuthController.exchangeGoogleCode\<close>: the outcome of the sign-in and, with a session, the path to go on to.\<close>

definition exchange_route ::
    "token_crypto \<Rightarrow> token_config \<Rightarrow> google \<Rightarrow> crypto \<Rightarrow> int \<Rightarrow> int \<Rightarrow> string \<Rightarrow> string \<Rightarrow> draw \<Rightarrow> string \<Rightarrow>
     string option \<Rightarrow> string \<Rightarrow> string \<Rightarrow> oauth \<Rightarrow> (login_outcome \<times> string option) oauth_outcome" where
  "exchange_route tc cf g cr ttl now newUser newIdentity dw familyId cookie code state oa =
     (if or_else cookie [] = [] then (Inl signInExpired, oa)
      else (case verifyOAuthState tc cf (now div 1000) (or_else cookie []) of
          Inl e \<Rightarrow> (Inl e, oa)
        | Inr st \<Rightarrow>
            if os_nonce st \<noteq> state then (Inl signInExpired, oa)
            else (case exchangeGoogleCode cf g code (os_verifier st) of
                Inl e \<Rightarrow> (Inl e, oa)
              | Inr p \<Rightarrow>
                  (case resolveProfile now newUser newIdentity p oa of
                     (Inl e, oa1) \<Rightarrow> (Inl e, oa1)
                   | (Inr r, oa1) \<Rightarrow>
                       (case completeProviderSignIn cr ttl now dw familyId (rs_user r) (oa_auth oa1) of
                          (Inl e, a2) \<Rightarrow> (Inl e, oa1\<lparr>oa_auth := a2\<rparr>)
                        | (Inr out, a2) \<Rightarrow>
                             (Inr (out, case out of SessionIssued _ \<Rightarrow> Some (os_redirect st) | MfaRequired _ \<Rightarrow> None),
                              oa1\<lparr>oa_auth := a2\<rparr>))))))"

text \<open>
  \<open>new URL(destination, request.url)\<close> of the browser's callback: the parser drops tabs and line ends
  wherever they are, and two slashes or backslashes at the start name another host.
\<close>

definition url_input :: "string \<Rightarrow> string" where
  "url_input s = filter (\<lambda>c. c \<notin> {CHR 0x09, CHR 0x0A, CHR 0x0D}) s"

definition leaves_site :: "string \<Rightarrow> bool" where
  "leaves_site destination =
     (case url_input destination of
        a # b # _ \<Rightarrow> a \<in> {CHR ''/'', CHR 0x5C} \<and> b \<in> {CHR ''/'', CHR 0x5C}
      | _ \<Rightarrow> False)"

end
