(* ===== verification/Guards.thy ===== *)
theory Guards
  imports OAuth Staff
begin

text \<open>
  What stands before every route of the API: the request's identifier, the three guards of
  \<open>common/guards\<close> in the order of \<open>AppModule\<close>, and the filter that turns an error into the answer.
\<close>

section \<open>A request and its route\<close>

record route =
  ro_public :: bool
  ro_required :: "permission list"
  ro_store :: "string option"

record incoming =
  in_cookie :: "string option"
  in_authorization :: "string option"
  in_request_id :: "string option"

record request_context =
  rx_id :: string
  rx_user :: "string option"
  rx_store :: "string option"
  rx_super :: bool

text \<open>\<open>^[\w.:-]{1,128}$\<close>\<close>

definition id_char :: "char \<Rightarrow> bool" where
  "id_char c \<longleftrightarrow>
     (let n = (of_char c :: nat)
      in (48 \<le> n \<and> n \<le> 57) \<or> (65 \<le> n \<and> n \<le> 90) \<or> (97 \<le> n \<and> n \<le> 122) \<or>
         c \<in> {CHR ''_'', CHR ''.'', CHR '':'', CHR ''-''})"

text \<open>\<open>uuid\<close> is drawn.\<close>

definition open_context :: "string \<Rightarrow> incoming \<Rightarrow> request_context" where
  "open_context uuid rq =
     (let supplied = or_else (in_request_id rq) []
      in \<lparr>rx_id = (if supplied \<noteq> [] \<and> list_all id_char supplied \<and> length supplied \<le> 128 then supplied
                    else ''req_'' @ uuid),
          rx_user = None, rx_store = None, rx_super = False\<rparr>)"

definition extractToken :: "incoming \<Rightarrow> string option" where
  "extractToken rq =
     (if or_else (in_cookie rq) [] \<noteq> [] then in_cookie rq
      else (case in_authorization rq of
          None \<Rightarrow> None
        | Some h \<Rightarrow> if take 7 h = ''Bearer '' then Some (js_trim (drop 7 h)) else None))"

section \<open>The guards\<close>

text \<open>Each guard answers the identity it found and the context it leaves.\<close>

definition authRequired :: app_error where
  "authRequired = Unauthenticated ''Authentication is required.''"

definition jwt_guard ::
    "token_crypto \<Rightarrow> token_config \<Rightarrow> int \<Rightarrow> route \<Rightarrow> incoming \<Rightarrow> request_context \<Rightarrow> (claims option \<times> request_context) res" where
  "jwt_guard tc cf now rt rq cx =
     (let token = or_else (extractToken rq) []
      in if token = [] then (if ro_public rt then Inr (None, cx) else Inl authRequired)
         else (case verifyAccessToken tc cf now token of
             Inl e \<Rightarrow> if ro_public rt then Inr (None, cx) else Inl e
           | Inr c \<Rightarrow> Inr (Some c, cx\<lparr>rx_user := Some (cm_sub c), rx_super := cm_super c\<rparr>)))"

definition store_scope_guard :: "route \<Rightarrow> claims option \<Rightarrow> request_context \<Rightarrow> request_context res" where
  "store_scope_guard rt auth cx =
     (if ro_public rt \<or> or_else (ro_store rt) [] = [] then Inr cx
      else (case auth of
          None \<Rightarrow> Inl authRequired
        | Some c \<Rightarrow>
            if cm_super c then Inr (cx\<lparr>rx_store := ro_store rt\<rparr>)
            else if or_else (ro_store rt) [] \<notin> fst ` set (cm_memberships c) then notFound
            else Inr (cx\<lparr>rx_store := ro_store rt\<rparr>)))"

fun join_names :: "string list \<Rightarrow> string" where
  "join_names [] = []"
| "join_names [x] = x"
| "join_names (x # y # xs) = x @ '', '' @ join_names (y # xs)"

definition permissions_guard :: "route \<Rightarrow> claims option \<Rightarrow> people \<Rightarrow> unit res" where
  "permissions_guard rt auth pe =
     (if ro_public rt \<or> ro_required rt = [] then Inr ()
      else (case auth of
          None \<Rightarrow> Inl authRequired
        | Some c \<Rightarrow>
            if filter isPlatformPermission (ro_required rt) \<noteq> []
            then (if cm_super c then Inr () else notFound)
            else if or_else (ro_store rt) [] = [] then Inl (Forbidden ''This action requires a store context.'')
            else if cm_super c then Inr ()
            else (let effective = effectiveFor (cm_sub c) (or_else (ro_store rt) []) pe;
                      missing = filter (\<lambda>p. p \<notin> effective) (ro_required rt)
                  in guardE (missing = [])
                       (Forbidden (''This action requires: '' @ join_names (map perm_name missing) @ ''.'')))))"

definition guarded ::
    "token_crypto \<Rightarrow> token_config \<Rightarrow> int \<Rightarrow> string \<Rightarrow> route \<Rightarrow> incoming \<Rightarrow> people \<Rightarrow> (claims option \<times> request_context) res" where
  "guarded tc cf now uuid rt rq pe =
     bindE (jwt_guard tc cf now rt rq (open_context uuid rq)) (\<lambda>(auth, cx).
       bindE (store_scope_guard rt auth cx) (\<lambda>cx1.
         mapE (\<lambda>_. (auth, cx1)) (permissions_guard rt auth pe)))"

section \<open>Errors on the way out\<close>

record problem =
  pb_status :: nat
  pb_code :: string
  pb_title :: string
  pb_detail :: string

text \<open>An error of the program keeps its message; any other is reported without it.\<close>

fun toProblem :: "app_error \<Rightarrow> problem" where
  "toProblem (Unauthenticated s) = \<lparr>pb_status = 401, pb_code = ''UNAUTHENTICATED'', pb_title = ''Unauthenticated'', pb_detail = s\<rparr>"
| "toProblem (Forbidden s) = \<lparr>pb_status = 403, pb_code = ''FORBIDDEN'', pb_title = ''Forbidden'', pb_detail = s\<rparr>"
| "toProblem (NotFound s) = \<lparr>pb_status = 404, pb_code = ''NOT_FOUND'', pb_title = ''Not found'', pb_detail = s\<rparr>"
| "toProblem (Validation s) = \<lparr>pb_status = 400, pb_code = ''VALIDATION_FAILED'', pb_title = ''Validation failed'', pb_detail = s\<rparr>"
| "toProblem (AccountLocked s) = \<lparr>pb_status = 423, pb_code = ''ACCOUNT_LOCKED'', pb_title = ''Account locked'', pb_detail = s\<rparr>"
| "toProblem (RateLimited s) = \<lparr>pb_status = 429, pb_code = ''RATE_LIMITED'', pb_title = ''Rate limited'', pb_detail = s\<rparr>"
| "toProblem (Internal s) = \<lparr>pb_status = 500, pb_code = ''INTERNAL_ERROR'', pb_title = ''Internal error'', pb_detail = s\<rparr>"
| "toProblem _ = \<lparr>pb_status = 500, pb_code = ''INTERNAL_ERROR'', pb_title = ''Internal error'',
     pb_detail = ''An unexpected error occurred.''\<rparr>"

end
