(* ===== verification/Endpoints.thy ===== *)
theory Endpoints
  imports Guards
begin

text \<open>
  The routes of the API: for every controller of \<open>apps/api/src/modules\<close> the method, the path, the
  \<open>@Public\<close> and \<open>@RequirePermission\<close> of each handler, in the order of the class; the controllers
  in the order of \<open>AppModule\<close> and of the modules it imports. What the handlers do is in the theories
  of the services they call.
\<close>

section \<open>Declared routes\<close>

datatype http_method = GET | POST | PUT | PATCH | DELETE

record endpoint =
  ep_method :: http_method
  ep_path :: string
  ep_public :: bool
  ep_required :: "permission list"
  ep_handler :: string

definition shown :: "http_method \<Rightarrow> string \<Rightarrow> string \<Rightarrow> endpoint" where
  "shown m path h = \<lparr>ep_method = m, ep_path = path, ep_public = True, ep_required = [], ep_handler = h\<rparr>"

definition asks :: "permission list \<Rightarrow> http_method \<Rightarrow> string \<Rightarrow> string \<Rightarrow> endpoint" where
  "asks ps m path h = \<lparr>ep_method = m, ep_path = path, ep_public = False, ep_required = ps, ep_handler = h\<rparr>"

definition join_path :: "string \<Rightarrow> string \<Rightarrow> string" where
  "join_path p q = (if p = [] then q else if q = [] then p else p @ ''/'' @ q)"

text \<open>The prefix and the version of \<open>main.ts\<close>.\<close>

definition API_PREFIX :: string where
  "API_PREFIX = ''api/v1''"

definition controller :: "string \<Rightarrow> string \<Rightarrow> endpoint list \<Rightarrow> endpoint list" where
  "controller name path es =
     map (\<lambda>e. e\<lparr>ep_path := join_path API_PREFIX (join_path path (ep_path e)), ep_handler := name @ ''.'' @ ep_handler e\<rparr>) es"

definition mediaController :: "endpoint list" where
  "mediaController = controller ''MediaController'' ''stores/:storeId/media''
     [asks [] POST ''upload-url'' ''uploadUrl'',
      asks [] POST '':assetId/complete'' ''complete'',
      asks [] GET '':assetId'' ''status'']"

definition mediaUploadController :: "endpoint list" where
  "mediaUploadController = controller ''MediaUploadController'' ''media/upload''
     [shown PUT '':token'' ''receive'']"

definition mediaPrivateController :: "endpoint list" where
  "mediaPrivateController = controller ''MediaPrivateController'' ''media/private''
     [shown GET '':token'' ''read'']"

definition inventoryController :: "endpoint list" where
  "inventoryController = controller ''InventoryController'' ''stores/:storeId/inventory''
     [asks [InventoryRead] GET [] ''list'',
      asks [InventoryRead] GET ''low-stock'' ''lowStock'',
      asks [InventoryRead] GET ''variants/:variantId/movements'' ''movements'',
      asks [InventoryReceive] POST ''receive'' ''receive'',
      asks [InventoryAdjust] POST ''adjust'' ''adjust'',
      asks [InventoryAdjust] PATCH ''variants/:variantId/tracking'' ''setTracking'']"

definition countSessionsController :: "endpoint list" where
  "countSessionsController = controller ''CountSessionsController'' ''stores/:storeId/inventory/counts''
     [asks [InventoryRead] GET [] ''list'',
      asks [InventoryRead] GET ''current'' ''current'',
      asks [InventoryRead] GET '':sessionId/lines'' ''lines'',
      asks [InventoryCount] POST [] ''open'',
      asks [InventoryCount] POST '':sessionId/lines'' ''enter'',
      asks [InventoryCount] DELETE '':sessionId/lines/:variantId'' ''removeLine'',
      asks [InventoryCount] POST '':sessionId/post'' ''postCount'',
      asks [InventoryCount] POST '':sessionId/abandon'' ''abandon'']"

definition deliveryController :: "endpoint list" where
  "deliveryController = controller ''DeliveryController'' ''stores/:storeId/deliveries''
     [asks [DeliveryReadAll] GET [] ''board'',
      asks [DeliveryReadOwn] GET ''mine'' ''mine'',
      asks [OrdersRead] GET '':orderId'' ''forOrder'',
      asks [DeliveryAssign] POST '':orderId/assign'' ''assign'',
      asks [DeliveryAssign] POST '':orderId/unassign'' ''unassign'',
      asks [DeliveryUpdateOwn] POST '':orderId/pick-up'' ''pickUp'',
      asks [DeliveryUpdateOwn] POST '':orderId/complete'' ''complete'',
      asks [DeliveryUpdateOwn] POST '':orderId/fail'' ''fail'']"

definition notificationsController :: "endpoint list" where
  "notificationsController = controller ''NotificationsController'' ''me/notifications''
     [asks [] GET ''inbox'' ''inbox'',
      asks [] GET ''unread-count'' ''unreadCount'',
      asks [] POST ''read'' ''readAll'',
      asks [] POST '':notificationId/read'' ''readOne'',
      asks [] GET ''catalog'' ''catalog'',
      asks [] GET [] ''list'',
      asks [] PUT [] ''set'']"

definition authController :: "endpoint list" where
  "authController = controller ''AuthController'' ''auth''
     [shown POST ''register'' ''register'',
      shown POST ''login'' ''login'',
      shown POST ''mfa/verify-login'' ''verifyMfaLogin'',
      asks [] POST ''mfa/setup'' ''setupMfa'',
      asks [] POST ''mfa/confirm'' ''confirmMfa'',
      asks [] POST ''mfa/recovery-codes'' ''regenerateRecoveryCodes'',
      asks [] POST ''mfa/disable'' ''disableMfa'',
      shown GET ''oauth/providers'' ''oauthProviders'',
      shown GET ''oauth/google/start'' ''startGoogleSignIn'',
      shown POST ''oauth/google/exchange'' ''exchangeGoogleCode'',
      shown POST ''refresh'' ''refresh'',
      shown POST ''logout'' ''logout'',
      asks [] GET ''me'' ''me'']"

definition accountController :: "endpoint list" where
  "accountController = controller ''AccountController'' ''auth''
     [shown POST ''resend-verification'' ''resendVerification'',
      shown POST ''verify-email'' ''verifyEmail'',
      shown POST ''forgot-password'' ''forgotPassword'',
      shown POST ''reset-password'' ''resetPassword'',
      asks [] POST ''change-password'' ''changePassword'',
      asks [] GET ''sessions'' ''listSessions'',
      asks [] DELETE ''sessions/:familyId'' ''revokeSession'',
      asks [] DELETE ''sessions'' ''revokeAllSessions'']"

definition invitationController :: "endpoint list" where
  "invitationController = controller ''InvitationController'' []
     [asks [StaffManage] POST ''stores/:storeId/members/invitations'' ''invite'',
      shown GET ''invitations/:token'' ''preview'',
      shown POST ''invitations/accept'' ''accept'']"

definition storeApplicationController :: "endpoint list" where
  "storeApplicationController = controller ''StoreApplicationController'' ''store-applications''
     [shown POST [] ''submit'']"

definition platformStoresController :: "endpoint list" where
  "platformStoresController = controller ''PlatformStoresController'' ''platform''
     [asks [PlatformBilling] GET ''summary'' ''summary'',
      asks [PlatformStores] GET ''applications'' ''list'',
      asks [PlatformStores] GET ''applications/:id'' ''get'',
      asks [PlatformStores] POST ''applications/:id/approve'' ''approve'',
      asks [PlatformStores] POST ''applications/:id/reject'' ''reject'',
      asks [PlatformStores] POST ''stores/:storeId/transition'' ''transition'']"

definition storeSettingsController :: "endpoint list" where
  "storeSettingsController = controller ''StoreSettingsController'' ''stores/:storeId''
     [asks [StoreRead] GET [] ''get'',
      asks [StoreSettings] PATCH [] ''updateProfile'',
      asks [StoreRead] GET ''hours'' ''getHours'',
      asks [StoreSettings] PATCH ''hours'' ''setHours'',
      asks [StoreRead] GET ''tax-rates'' ''getTaxRates'',
      asks [StoreSettings] POST ''tax-rates'' ''createTaxRate'',
      asks [StoreRead] GET ''delivery-zones'' ''getZones'',
      asks [StoreSettings] POST ''delivery-zones'' ''createZone'',
      asks [StoreSettings] DELETE ''delivery-zones/:zoneId'' ''deleteZone'',
      shown GET ''delivery-check'' ''checkDelivery'',
      asks [StaffRead] GET ''members'' ''listStaff'',
      asks [StaffManage] PATCH ''members/:membershipId/role'' ''changeRole'',
      asks [StaffManage] PATCH ''members/:membershipId/status'' ''changeStatus'',
      asks [StaffManage] PATCH ''members/:membershipId/permissions'' ''setOverrides'']"

definition catalogController :: "endpoint list" where
  "catalogController = controller ''CatalogController'' ''stores/:storeId''
     [asks [CatalogRead] GET ''catalog.csv'' ''exportCsv'',
      asks [CatalogWrite] POST ''catalog.csv'' ''importCsv'',
      asks [CatalogRead] GET ''categories'' ''listCategories'',
      asks [CatalogWrite] POST ''categories'' ''createCategory'',
      asks [CatalogWrite] PATCH ''categories/:categoryId'' ''updateCategory'',
      asks [CatalogWrite] DELETE ''categories/:categoryId'' ''deleteCategory'',
      asks [CatalogRead] GET ''products'' ''listProducts'',
      asks [CatalogRead] GET ''products/:productId'' ''getProduct'',
      asks [CatalogWrite] POST ''products'' ''createProduct'',
      asks [CatalogWrite] PATCH ''products/:productId'' ''updateProduct'',
      asks [CatalogPublish] PATCH ''products/:productId/status'' ''setStatus'',
      asks [CatalogWrite] DELETE ''products/:productId'' ''deleteProduct'',
      asks [CatalogWrite] POST ''products/:productId/variants'' ''addVariant'',
      asks [CatalogWrite] PATCH ''variants/:variantId'' ''updateVariant'',
      asks [CatalogWrite] DELETE ''variants/:variantId'' ''deleteVariant'',
      asks [CatalogWrite] POST ''products/:productId/images'' ''attachImage'',
      asks [CatalogWrite] PATCH ''products/:productId/images/reorder'' ''reorderImages'',
      asks [CatalogWrite] DELETE ''images/:imageId'' ''detachImage'']"

definition storefrontController :: "endpoint list" where
  "storefrontController = controller ''StorefrontController'' ''public''
     [shown GET ''stores'' ''listStores'',
      shown GET ''stores/:slug'' ''getStore'',
      shown GET ''stores/:slug/categories'' ''listCategories'',
      shown GET ''stores/:slug/products'' ''listProducts'',
      shown GET ''stores/:slug/products/:productSlug'' ''getProduct'',
      shown GET ''sitemap-entries'' ''sitemap'']"

definition orderEventsController :: "endpoint list" where
  "orderEventsController = controller ''OrderEventsController'' ''stores/:storeId''
     [asks [OrdersRead] GET ''events'' ''stream'']"

definition cartController :: "endpoint list" where
  "cartController = controller ''CartController'' ''stores/:storeId/cart''
     [shown GET [] ''get'',
      shown POST ''items'' ''add'',
      shown PATCH ''items/:itemId'' ''update'',
      shown DELETE ''items/:itemId'' ''remove'',
      shown DELETE [] ''clear'']"

definition couponsController :: "endpoint list" where
  "couponsController = controller ''CouponsController'' ''stores/:storeId/coupons''
     [asks [CouponsManage] GET [] ''list'',
      asks [CouponsManage] POST [] ''create'',
      asks [CouponsManage] PATCH '':couponId'' ''update'',
      asks [CouponsManage] DELETE '':couponId'' ''remove'']"

definition checkoutController :: "endpoint list" where
  "checkoutController = controller ''CheckoutController'' ''stores/:storeId/checkout''
     [shown POST ''quote'' ''quote'',
      shown POST [] ''place'']"

definition ordersController :: "endpoint list" where
  "ordersController = controller ''OrdersController'' ''stores/:storeId/orders''
     [asks [OrdersRead] GET [] ''list'',
      asks [OrdersRead] GET ''pipeline'' ''pipeline'',
      asks [OrdersRead] GET '':orderId'' ''get'',
      asks [OrdersManage] POST '':orderId/status'' ''transition'',
      asks [OrdersManage] POST '':orderId/payment/cash'' ''collectCash'']"

definition customerOrdersController :: "endpoint list" where
  "customerOrdersController = controller ''CustomerOrdersController'' ''orders''
     [asks [] GET [] ''list'',
      shown GET '':orderId'' ''get'']"

definition posController :: "endpoint list" where
  "posController = controller ''PosController'' ''stores/:storeId/pos''
     [asks [OrdersCreatePos] GET ''items'' ''listItems'',
      asks [OrdersCreatePos] GET ''lookup'' ''lookup'',
      asks [OrdersCreatePos] POST ''sales'' ''ringUp'']"

definition paymentsController :: "endpoint list" where
  "paymentsController = controller ''PaymentsController'' ''stores/:storeId/payments''
     [asks [StorePaymentsConfig] POST ''connect/onboard'' ''onboard'',
      asks [StorePaymentsConfig] GET ''connect'' ''status'',
      asks [StorePaymentsConfig] POST ''connect/sync'' ''sync'',
      asks [OrdersRefund] POST ''orders/:orderId/refund'' ''refund'',
      shown POST ''orders/:orderId/card'' ''createCardPayment'',
      asks [OrdersRead] GET ''orders/:orderId/refunds'' ''listRefunds'']"

definition stripeWebhooksController :: "endpoint list" where
  "stripeWebhooksController = controller ''StripeWebhooksController'' ''webhooks''
     [shown POST ''stripe'' ''stripe'']"

definition billingController :: "endpoint list" where
  "billingController = controller ''BillingController'' ''stores/:storeId/billing''
     [asks [StorePaymentsConfig] GET [] ''status'',
      asks [StorePaymentsConfig] POST ''subscribe'' ''subscribe'',
      asks [StorePaymentsConfig] POST ''portal'' ''portal'']"

definition reportsController :: "endpoint list" where
  "reportsController = controller ''ReportsController'' ''stores/:storeId/reports''
     [asks [ReportsSales] GET ''summary'' ''summary'',
      asks [ReportsSales] GET ''sales'' ''sales'',
      asks [CustomersRead] GET ''customers'' ''customers'',
      asks [InventoryRead] GET ''stock'' ''stock'',
      asks [ReportsSales] GET ''export/:kind.csv'' ''exportCsv'',
      asks [ReportsSales] GET ''top-products'' ''topProducts'']"

definition healthController :: "endpoint list" where
  "healthController = controller ''HealthController'' ''health''
     [shown GET ''live'' ''live'',
      shown GET ''ready'' ''ready'']"

definition endpoints :: "endpoint list" where
  "endpoints = concat
     [mediaController, mediaUploadController, mediaPrivateController, inventoryController,
      countSessionsController, deliveryController, notificationsController, authController,
      accountController, invitationController, storeApplicationController, platformStoresController,
      storeSettingsController, catalogController, storefrontController, orderEventsController,
      cartController, couponsController, checkoutController, ordersController,
      customerOrdersController, posController, paymentsController, stripeWebhooksController,
      billingController, reportsController, healthController]"

section \<open>Matching a request\<close>

fun segments :: "string \<Rightarrow> string list" where
  "segments [] = [[]]"
| "segments (c # cs) =
     (if c = CHR ''/'' then [] # segments cs
      else (case segments cs of [] \<Rightarrow> [[c]] | s # ss \<Rightarrow> (c # s) # ss))"

text \<open>A segment \<open>:name\<close> stands for any text but the empty one, \<open>:name.csv\<close> for one that ends in \<open>.csv\<close>.\<close>

definition param_name :: "string \<Rightarrow> string" where
  "param_name s = takeWhile (\<lambda>c. c \<noteq> CHR ''.'') (tl s)"

definition param_suffix :: "string \<Rightarrow> string" where
  "param_suffix s = dropWhile (\<lambda>c. c \<noteq> CHR ''.'') (tl s)"

definition is_param :: "string \<Rightarrow> bool" where
  "is_param s = (take 1 s = '':'')"

fun match_segments :: "string list \<Rightarrow> string list \<Rightarrow> (string \<times> string) list option" where
  "match_segments [] [] = Some []"
| "match_segments (p # ps) (s # ss) =
     (case match_segments ps ss of
        None \<Rightarrow> None
      | Some bs \<Rightarrow>
          if is_param p
          then (let suffix = param_suffix p; n = length s - length suffix
                in if length suffix < length s \<and> drop n s = suffix then Some ((param_name p, take n s) # bs) else None)
          else if p = s then Some bs else None)"
| "match_segments _ _ = None"

definition match_endpoint :: "http_method \<Rightarrow> string \<Rightarrow> endpoint \<Rightarrow> (string \<times> string) list option" where
  "match_endpoint m url e =
     (if ep_method e = m then match_segments (segments (ep_path e)) (segments url) else None)"

text \<open>The first route in the order of registration that the request fits.\<close>

fun first_match :: "endpoint list \<Rightarrow> http_method \<Rightarrow> string \<Rightarrow> (endpoint \<times> (string \<rightharpoonup> string)) option" where
  "first_match [] m url = None"
| "first_match (e # es) m url =
     (case match_endpoint m url e of Some bs \<Rightarrow> Some (e, map_of bs) | None \<Rightarrow> first_match es m url)"

section \<open>A request on its way to a handler\<close>

definition route_of :: "endpoint \<Rightarrow> (string \<rightharpoonup> string) \<Rightarrow> route" where
  "route_of e params = \<lparr>ro_public = ep_public e, ro_required = ep_required e, ro_store = params ''storeId''\<rparr>"

type_synonym router = "http_method \<Rightarrow> string \<Rightarrow> (endpoint \<times> (string \<rightharpoonup> string)) option"

definition serve ::
    "router \<Rightarrow> token_crypto \<Rightarrow> token_config \<Rightarrow> int \<Rightarrow> string \<Rightarrow> http_method \<Rightarrow> string \<Rightarrow> incoming \<Rightarrow> people \<Rightarrow>
     (endpoint \<times> claims option \<times> request_context) res option" where
  "serve find_route tc cf now uuid m url rq pe =
     map_option (\<lambda>(e, params). mapE (Pair e) (guarded tc cf now uuid (route_of e params) rq pe)) (find_route m url)"

end
