(* ===== verification/OAuthProps.thy ===== *)
theory OAuthProps
  imports OAuth SessionProps
begin

text \<open>
  Whom a Google sign-in lets in, what every sequence of requests keeps of the accounts and their
  identities, and where the browser may be sent afterwards.
\<close>

section \<open>Tokens\<close>

lemma access_token_roundtrip:
  assumes "\<And>b. tc_open tc (tc_sign tc b) = Some b" and "now < issued + cf_ttl cf"
  shows "verifyAccessToken tc cf now (issueAccessToken tc cf issued c) = Inr c"
  using assms by (simp add: verifyAccessToken_def issueAccessToken_def jwtVerify_def blank_body_def)

text \<open>A token made for one step of a sign-in is good for nothing else.\<close>

lemma tokens_keep_to_their_use:
  assumes "\<And>b. tc_open tc (tc_sign tc b) = Some b" and "cf_audience cf \<notin> {MFA_AUDIENCE, OAUTH_STATE_AUDIENCE}"
  shows "\<exists>e. verifyAccessToken tc cf now (issueMfaChallenge tc cf issued u) = Inl e"
    and "\<exists>e. verifyAccessToken tc cf now (issueOAuthState tc cf issued st) = Inl e"
    and "\<exists>e. verifyMfaChallenge tc cf now (issueAccessToken tc cf issued c) = Inl e"
    and "\<exists>e. verifyMfaChallenge tc cf now (issueOAuthState tc cf issued st) = Inl e"
  using assms by (auto simp: verifyAccessToken_def issueMfaChallenge_def issueOAuthState_def verifyMfaChallenge_def
      issueAccessToken_def jwtVerify_def blank_body_def MFA_AUDIENCE_def OAUTH_STATE_AUDIENCE_def)

section \<open>Signing in\<close>

definition normal_email :: "string \<Rightarrow> string" where
  "normal_email e = map lower_char (js_trim e)"

text \<open>The accounts, but for when they last signed in and their second factor.\<close>

definition account_rows :: "auth \<Rightarrow> (string \<times> string \<times> string option \<times> user_status) list" where
  "account_rows a = map (\<lambda>x. (u_id x, u_email x, u_hash x, u_status x)) (a_users a)"

text \<open>
  The account \<open>u\<close> is the one that Google vouches for with the profile, and \<open>oa'\<close> has the rows that
  says so: the account this Google identity belongs to, with nothing new; or the active account
  with the profile's verified address, to which the identity is now linked; or, when no account
  has that address, one made for it, with the identity, under the drawn identifier.
\<close>

definition vouched :: "oauth \<Rightarrow> oauth_profile \<Rightarrow> string \<Rightarrow> string \<Rightarrow> oauth \<Rightarrow> bool" where
  "vouched oa p newUser u oa' \<longleftrightarrow>
     (case findIdentity ''GOOGLE'' (op_uid p) oa of
        Some i \<Rightarrow> u = ai_user i \<and> oa_identities oa' = oa_identities oa \<and>
          account_rows (oa_auth oa') = account_rows (oa_auth oa)
      | None \<Rightarrow> op_verified p \<and>
          (\<exists>i. oa_identities oa' = oa_identities oa @ [i] \<and> ai_provider i = ''GOOGLE'' \<and>
             ai_uid i = op_uid p \<and> ai_user i = u \<and> ai_email i = Some (normal_email (op_email p))) \<and>
          (case findUserByEmail (normal_email (op_email p)) (oa_auth oa) of
             Some x \<Rightarrow> u = u_id x \<and> u_status x = U_ACTIVE \<and> \<not> u_deleted x \<and>
               account_rows (oa_auth oa') = account_rows (oa_auth oa)
           | None \<Rightarrow> u = newUser \<and> account_rows (oa_auth oa') =
               account_rows (oa_auth oa) @ [(newUser, normal_email (op_email p), None, U_ACTIVE)]))"

lemma account_rows_stamp [simp]:
  "account_rows (update_user v (\<lambda>x. x\<lparr>u_last_login := t\<rparr>) a) = account_rows a"
  by (simp add: account_rows_def update_user_def map_update_where)

lemma insert_identity_ok:
  "insert_identity i oa = Inr oa' \<Longrightarrow>
     oa' = oa\<lparr>oa_identities := oa_identities oa @ [i]\<rparr> \<and>
     (\<forall>j \<in> set (oa_identities oa). (ai_provider j, ai_uid j) \<noteq> (ai_provider i, ai_uid i))"
  by (auto simp: insert_identity_def split: if_splits)

lemma find_user_member: "x \<in> set (a_users a) \<Longrightarrow> find_user (u_id x) a \<noteq> None"
  by (auto simp: find_user_def find_None_iff)

lemma new_google_user_fields [simp]:
  "u_id (new_google_user now i e p) = i" "u_email (new_google_user now i e p) = e" "u_hash (new_google_user now i e p) = None"
  "u_status (new_google_user now i e p) = U_ACTIVE" "u_mfa_at (new_google_user now i e p) = None"
  by (simp_all add: new_google_user_def)

lemma resolveProfile_right:
  assumes "resolveProfile now newUser newIdentity p oa = (r, oa1)"
  shows "case r of Inl _ \<Rightarrow> oa1 = oa
    | Inr s \<Rightarrow> vouched oa p newUser (rs_user s) oa1 \<and>
        a_tokens (oa_auth oa1) = a_tokens (oa_auth oa) \<and>
        (find_user (rs_user s) (oa_auth oa1) = None \<longrightarrow> oa1 = oa) \<and>
        (mfa_isEnabled (rs_user s) (oa_auth oa) \<longrightarrow> mfa_isEnabled (rs_user s) (oa_auth oa1))"
proof (cases "findIdentity ''GOOGLE'' (op_uid p) oa")
  case (Some i)
  then have "i \<in> set (oa_identities oa)" "ai_provider i = ''GOOGLE''" "ai_uid i = op_uid p"
    using findD by (force simp: findIdentity_def)+
  then show ?thesis using Some assms by (auto simp: resolveProfile_def vouched_def)
next
  case None
  show ?thesis
  proof (cases "findUserByEmail (normal_email (op_email p)) (oa_auth oa)")
    case (Some u)
    then have "u \<in> set (a_users (oa_auth oa))" using findD by (force simp: findUserByEmail_def)
    then show ?thesis
      using None Some assms find_user_member [of u "oa_auth oa"]
      by (auto simp: resolveProfile_def vouched_def normal_email_def Let_def
          split: if_splits sum.splits dest!: insert_identity_ok)
  next
    case none: None
    show ?thesis
      using None none assms
      by (auto simp: resolveProfile_def vouched_def normal_email_def Let_def find_user_def mfa_isEnabled_def
          find_app account_rows_def split: if_splits sum.splits option.splits dest!: insert_identity_ok)
  qed
qed

lemma find_map_option: "(\<And>x. P (f x) = P x) \<Longrightarrow> find P (map f xs) = map_option f (find P xs)"
  by (induction xs) auto

lemma find_user_stamp:
  "find_user u (update_user v (\<lambda>x. x\<lparr>u_last_login := t\<rparr>) a) =
     map_option (\<lambda>x. if u_id x = v then x\<lparr>u_last_login := t\<rparr> else x) (find_user u a)"
  by (simp add: find_user_def update_user_def update_where_def) (rule find_map_option, simp)

lemma mfa_after_login_stamp [simp]:
  "mfa_isEnabled u (update_user v (\<lambda>x. x\<lparr>u_last_login := t\<rparr>) a) = mfa_isEnabled u a"
  by (rule mfa_update_user) simp_all

lemma provider_sign_in_right:
  assumes "completeProviderSignIn cr ttl now dw f u a = (r, b)"
  shows "case r of Inl _ \<Rightarrow> find_user u a = None \<and> b = a
    | Inr out \<Rightarrow> only_adds {(f, u)} a b \<and>
        account_rows b = account_rows a \<and>
        (case out of SessionIssued s \<Rightarrow> ss_user s = u \<and> \<not> mfa_isEnabled u a
         | MfaRequired ch \<Rightarrow> ch = cr_challenge cr u \<and> a_tokens b = a_tokens a)"
proof (cases "find_user u a")
  case None
  then show ?thesis using assms by (auto simp: completeProviderSignIn_def)
next
  case (Some x)
  define a1 where "a1 = update_user u (\<lambda>x. x\<lparr>u_last_login := Some now\<rparr>) a"
  have r: "after_first_factor cr ttl now dw u f a1 = (r, b)"
    using assms Some by (simp add: completeProviderSignIn_def a1_def)
  then have adds: "only_adds {(f, u)} a b"
    using only_adds_step [OF _ first_factor_adds, of a1 a f u cr ttl now dw] by (simp add: a1_def)
  have rows: "account_rows a1 = account_rows a" by (simp add: a1_def)
  have there: "find_user u a1 \<noteq> None"
    using Some by (simp add: a1_def find_user_stamp)
  show ?thesis
    using r adds there rows
    by (auto simp: after_first_factor_def issueSession_def a1_def account_rows_def split: if_splits option.splits)
qed

text \<open>
  C21. A Google sign-in lets in only the account Google vouches for: the browser brings the state
  our key sealed, Google answers the code and the sealed verifier with a profile, and the account
  is the one that this Google identity already belongs to, with no identity and no account's
  address, password or status changed; or the active one with the profile's address, which Google has verified, to which the identity is
  linked; or, when no account has that address, a new one made for it with nothing but the
  identity to enter by.  Tokens are added for that account only; while its second factor is open
  there is none, and the challenge names that account; and a refused sign-in changes nothing.
\<close>

theorem google_sign_in_by_right:
  "case exchange_route tc cf g cr ttl now newUser newIdentity dw familyId cookie code state oa of
     (Inl _, oa') \<Rightarrow> oa' = oa
   | (Inr (out, path), oa') \<Rightarrow> \<exists>st p u.
       verifyOAuthState tc cf (now div 1000) (or_else cookie []) = Inr st \<and> os_nonce st = state \<and>
       exchangeGoogleCode cf g code (os_verifier st) = Inr p \<and>
       vouched oa p newUser u oa' \<and> only_adds {(familyId, u)} (oa_auth oa) (oa_auth oa') \<and>
       (case out of
          SessionIssued s \<Rightarrow> ss_user s = u \<and> path = Some (os_redirect st) \<and> \<not> mfa_isEnabled u (oa_auth oa)
        | MfaRequired ch \<Rightarrow> ch = cr_challenge cr u \<and> path = None \<and>
            a_tokens (oa_auth oa') = a_tokens (oa_auth oa))"
proof -
  obtain r oa' where run: "exchange_route tc cf g cr ttl now newUser newIdentity dw familyId cookie code state oa = (r, oa')"
    by (meson surj_pair)
  show ?thesis
  proof (cases "\<exists>st p s oa1. verifyOAuthState tc cf (now div 1000) (or_else cookie []) = Inr st \<and> os_nonce st = state \<and>
      exchangeGoogleCode cf g code (os_verifier st) = Inr p \<and> resolveProfile now newUser newIdentity p oa = (Inr s, oa1) \<and>
      or_else cookie [] \<noteq> []")
    case False
    then have "(\<exists>e. r = Inl e) \<and> oa' = oa"
      using run by (auto simp: exchange_route_def split: if_splits sum.splits prod.splits dest: resolveProfile_right)
    then show ?thesis using run by auto
  next
    case True
    then obtain st p s oa1 where path: "verifyOAuthState tc cf (now div 1000) (or_else cookie []) = Inr st" "os_nonce st = state"
        "exchangeGoogleCode cf g code (os_verifier st) = Inr p" "or_else cookie [] \<noteq> []"
      and resolved: "resolveProfile now newUser newIdentity p oa = (Inr s, oa1)" by blast
    note res = resolveProfile_right [OF resolved, simplified]
    obtain x a2 where fin: "completeProviderSignIn cr ttl now dw familyId (rs_user s) (oa_auth oa1) = (x, a2)" by (meson surj_pair)
    note signed = provider_sign_in_right [OF fin]
    show ?thesis
    proof (cases x)
      case (Inl e)
      then have "oa' = oa \<and> r = Inl e"
        using run path resolved fin signed res by (auto simp: exchange_route_def)
      then show ?thesis using run by auto
    next
      case (Inr out)
      have adds: "only_adds {(familyId, rs_user s)} (oa_auth oa) a2"
        using signed Inr res by (auto intro: only_adds_step)
      have oa': "oa' = oa1\<lparr>oa_auth := a2\<rparr>"
        and r: "r = Inr (out, case out of SessionIssued _ \<Rightarrow> Some (os_redirect st) | MfaRequired _ \<Rightarrow> None)"
        using run path resolved fin Inr by (simp_all add: exchange_route_def)
      have right: "vouched oa p newUser (rs_user s) (oa1\<lparr>oa_auth := a2\<rparr>)"
        using res signed Inr by (auto simp: vouched_def split: option.splits)
      show ?thesis
        unfolding run r prod.case sum.case oa'
        using path res signed Inr adds right by (intro exI [of _ st] exI [of _ p] exI [of _ "rs_user s"])
          (auto split: login_outcome.splits)
    qed
  qed
qed

section \<open>Accounts and identities over time\<close>

definition has_password :: "user \<Rightarrow> bool" where
  "has_password u \<longleftrightarrow> or_else (u_hash u) [] \<noteq> []"

definition address :: "user \<Rightarrow> string" where
  "address u = map lower_char (u_email u)"

text \<open>What the requests of the sign-in service do to the users: keep who they are and that they have a password, and add one.\<close>

definition same_person :: "user \<Rightarrow> user \<Rightarrow> bool" where
  "same_person u v \<longleftrightarrow> u_id v = u_id u \<and> u_email v = u_email u \<and> (has_password u \<longrightarrow> has_password v)"

definition people_kept :: "auth \<Rightarrow> auth \<Rightarrow> user list \<Rightarrow> bool" where
  "people_kept a b new \<longleftrightarrow> (\<exists>f. a_users b = map f (a_users a) @ new \<and> (\<forall>u. same_person u (f u)))"

lemma same_person_refl [simp]: "same_person u u"
  by (simp add: same_person_def)

lemma people_kept_same: "a_users b = a_users a \<Longrightarrow> people_kept a b []"
  unfolding people_kept_def by (rule exI [of _ id]) simp

lemma people_kept_update:
  assumes "a_users c = a_users (update_user u f a)" and "\<And>x. same_person x (f x)"
  shows "people_kept a c []"
  unfolding people_kept_def
  by (rule exI [of _ "\<lambda>x. if u_id x = u then f x else x"]) (use assms in \<open>simp add: update_user_def update_where_def\<close>)

lemma same_person_trans: "same_person u v \<Longrightarrow> same_person v w \<Longrightarrow> same_person u w"
  by (simp add: same_person_def)

lemma people_kept_then:
  assumes "people_kept a b []" and "people_kept b c new"
  shows "people_kept a c new"
proof -
  obtain f where "a_users b = map f (a_users a)" "\<forall>u. same_person u (f u)"
    using assms(1) unfolding people_kept_def by fastforce
  moreover obtain g where "a_users c = map g (a_users b) @ new" "\<forall>u. same_person u (g u)"
    using assms(2) unfolding people_kept_def by blast
  ultimately show ?thesis
    unfolding people_kept_def by (intro exI [of _ "g \<circ> f"]) (auto intro: same_person_trans)
qed

lemma issueSession_users [simp]: "a_users (snd (issueSession cr ttl now dw u f a)) = a_users a"
  by (simp add: issueSession_def split: option.split)

lemma first_factor_users [simp]: "a_users (snd (after_first_factor cr ttl now dw u f a)) = a_users a"
proof -
  obtain r b where i: "issueSession cr ttl now dw u f a = (r, b)" by (meson surj_pair)
  then have "a_users b = a_users a" using issueSession_users [of cr ttl now dw u f a] by simp
  then show ?thesis by (simp add: after_first_factor_def i split: sum.split)
qed

lemma revoke_users [simp]: "a_users (revoke_where hit now a) = a_users a"
  by (simp add: revoke_where_def)

lemma refresh_users [simp]: "a_users (snd (refresh cr ttl now dw p a)) = a_users a"
  by (simp add: refresh_def refresh_write_def revokeFamily_def split: option.split)

lemma logout_users [simp]: "a_users (logout cr now p a) = a_users a"
  by (simp add: logout_def split: option.split)

lemma challenge_users: "verifyChallenge cr now u c a = (ok, b) \<Longrightarrow> a_users b = a_users a"
  by (auto simp: verifyChallenge_def consumeRecoveryCode_def Let_def split: option.splits if_splits)

text \<open>The identifier a registration draws; it is not in use.\<close>

definition drawn_user :: "auth_request \<Rightarrow> string option" where
  "drawn_user rq = (case rq of Register i _ _ _ \<Rightarrow> Some i | _ \<Rightarrow> None)"

lemma auth_run_people:
  assumes "\<And>p. cr_hash cr p \<noteq> []"
  shows "\<exists>new. people_kept a (auth_run cr ttl now rq a) new \<and>
    (new = [] \<or> (\<exists>u i. new = [u] \<and> drawn_user rq = Some i \<and> u_id u = i \<and> has_password u \<and>
       findUserByEmail (u_email u) a = None))"
proof (cases rq)
  case (Register i e p n)
  show ?thesis
  proof (cases "a_users (auth_run cr ttl now rq a) = a_users a")
    case True
    then show ?thesis using people_kept_same by blast
  next
    case False
    define u where "u = \<lparr>u_id = i, u_email = map lower_char (js_trim e), u_name = js_trim n, u_hash = Some (cr_hash cr p),
      u_status = U_ACTIVE, u_super = False, u_deleted = False, u_last_login = None, u_totp = None, u_mfa_at = None,
      u_verified = None\<rparr>"
    have added: "auth_run cr ttl now rq a = a\<lparr>a_users := a_users a @ [u]\<rparr> \<and> findUserByEmail (u_email u) a = None"
      using False Register by (auto simp: auth_run_def register_def Let_def u_def split: sum.splits option.splits)
    then have "people_kept a (auth_run cr ttl now rq a) [u]"
      unfolding people_kept_def by (intro exI [of _ id]) simp
    moreover have "has_password u" using assms by (simp add: u_def has_password_def)
    ultimately show ?thesis
      using added Register by (intro exI [of _ "[u]"]) (simp add: drawn_user_def u_def)
  qed
next
  case (Login dw g e p)
  have "people_kept a (auth_run cr ttl now rq a) []"
    using assms by (auto simp: Login auth_run_def login_def Let_def same_person_def has_password_def or_else_def
        split: option.split intro: people_kept_same people_kept_update)
  then show ?thesis by blast
next
  case (CompleteMfa dw g ch c)
  have "a_users (auth_run cr ttl now rq a) = a_users a"
    by (auto simp: CompleteMfa auth_run_def completeMfaLogin_def split: option.split prod.split bool.split dest: challenge_users)
  then show ?thesis using people_kept_same by blast
next
  case (ProviderSignIn dw g u)
  have "people_kept a (auth_run cr ttl now rq a) []"
    by (auto simp: ProviderSignIn auth_run_def completeProviderSignIn_def same_person_def has_password_def
        split: option.split intro: people_kept_same people_kept_update)
  then show ?thesis by blast
next
  case (BeginMfa s u)
  have "people_kept a (auth_run cr ttl now rq a) []"
    by (auto simp: BeginMfa auth_run_def beginEnrollment_def same_person_def has_password_def intro!: people_kept_update)
  then show ?thesis by blast
next
  case (ConfirmMfa cs u c)
  have "people_kept a (auth_run cr ttl now rq a) []"
    by (auto simp: ConfirmMfa auth_run_def confirmEnrollment_def regenerateRecoveryCodes_def same_person_def has_password_def
        update_user_def split: option.split intro: people_kept_same people_kept_update)
  then show ?thesis by blast
next
  case (DisableMfa u)
  have "people_kept a (auth_run cr ttl now rq a) []"
    by (auto simp: DisableMfa auth_run_def mfa_disable_def same_person_def has_password_def update_user_def
        intro!: people_kept_update)
  then show ?thesis by blast
qed (auto simp: auth_run_def revokeAllSessions_def intro!: exI [of _ "[]"] people_kept_same)

text \<open>
  Well-formed accounts: rows and addresses are unique, an identity belongs to the account with its
  address, and everybody has a password or an identity to come in with.
\<close>

definition oauth_sound :: "oauth \<Rightarrow> bool" where
  "oauth_sound oa \<longleftrightarrow>
     distinct (map u_id (a_users (oa_auth oa))) \<and> distinct (map address (a_users (oa_auth oa))) \<and>
     distinct (map ai_id (oa_identities oa)) \<and> distinct (map (\<lambda>i. (ai_provider i, ai_uid i)) (oa_identities oa)) \<and>
     (\<forall>i \<in> set (oa_identities oa). \<exists>u \<in> set (a_users (oa_auth oa)). u_id u = ai_user i \<and> ai_email i = Some (address u)) \<and>
     (\<forall>u \<in> set (a_users (oa_auth oa)). has_password u \<or> (\<exists>i \<in> set (oa_identities oa). ai_user i = u_id u))"

lemma lower_char_twice [simp]: "lower_char (lower_char c) = lower_char c"
  by (simp add: lower_char_def of_char_of)

lemma email_free: "findUserByEmail e a = None \<Longrightarrow> map lower_char e \<notin> address ` set (a_users a)"
  by (auto simp: findUserByEmail_def find_None_iff address_def)

lemma same_person_address: "same_person u v \<Longrightarrow> address v = address u"
  by (simp add: same_person_def address_def)

lemma sound_accounts:
  assumes sound: "oauth_sound oa" and kept: "people_kept (oa_auth oa) b new"
    and new: "new = [] \<or> (\<exists>u. new = [u] \<and> u_id u \<notin> u_id ` set (a_users (oa_auth oa)) \<and> has_password u \<and>
       address u \<notin> address ` set (a_users (oa_auth oa)))"
  shows "oauth_sound (oa\<lparr>oa_auth := b\<rparr>)"
proof -
  obtain f where b: "a_users b = map f (a_users (oa_auth oa)) @ new" and f: "\<And>u. same_person u (f u)"
    using kept unfolding people_kept_def by blast
  have same: "u_id (f u) = u_id u" "address (f u) = address u" "has_password u \<Longrightarrow> has_password (f u)" for u
    using f [of u] by (auto simp: same_person_def same_person_address)
  have ids: "map u_id (a_users b) = map u_id (a_users (oa_auth oa)) @ map u_id new"
    and addresses: "map address (a_users b) = map address (a_users (oa_auth oa)) @ map address new"
    by (simp_all add: b same)
  have owned: "\<forall>i \<in> set (oa_identities oa). \<exists>u \<in> set (a_users (oa_auth oa)). u_id u = ai_user i \<and> ai_email i = Some (address u)"
    and enterable: "\<forall>u \<in> set (a_users (oa_auth oa)). has_password u \<or> (\<exists>i \<in> set (oa_identities oa). ai_user i = u_id u)"
    using sound by (simp_all add: oauth_sound_def)
  have owners: "\<exists>u \<in> set (a_users b). u_id u = ai_user i \<and> ai_email i = Some (address u)" if i: "i \<in> set (oa_identities oa)" for i
  proof -
    obtain u where u: "u \<in> set (a_users (oa_auth oa))" "u_id u = ai_user i" "ai_email i = Some (address u)"
      using owned i by blast
    have "f u \<in> set (a_users b)" using u(1) by (simp add: b)
    then show ?thesis using u same(1,2) [of u] by metis
  qed
  have doors: "has_password u \<or> (\<exists>i \<in> set (oa_identities oa). ai_user i = u_id u)" if "u \<in> set (a_users b)" for u
  proof (cases "u \<in> set new")
    case True
    then show ?thesis using new by auto
  next
    case False
    then obtain x where "x \<in> set (a_users (oa_auth oa))" "u = f x" using \<open>u \<in> set (a_users b)\<close> by (auto simp: b)
    then show ?thesis using enterable same [of x] by metis
  qed
  have "distinct (map u_id (a_users b))" "distinct (map address (a_users b))"
    unfolding ids addresses using sound new by (auto simp: oauth_sound_def image_iff)
  then show ?thesis using sound owners doors by (simp add: oauth_sound_def)
qed

lemma sound_link:
  assumes "oauth_sound oa" and "insert_identity i oa = Inr oa'" and "ai_id i \<notin> ai_id ` set (oa_identities oa)"
    and "\<exists>u \<in> set (a_users (oa_auth oa)). u_id u = ai_user i \<and> ai_email i = Some (address u)"
  shows "oauth_sound oa'"
  using assms insert_identity_ok [OF assms(2)] by (auto simp: oauth_sound_def)

lemma sound_resolve:
  assumes sound: "oauth_sound oa" and run: "resolveProfile now newUser newIdentity p oa = (r, oa1)"
    and fresh: "newUser \<notin> u_id ` set (a_users (oa_auth oa))" "newIdentity \<notin> ai_id ` set (oa_identities oa)"
  shows "oauth_sound oa1"
proof (cases "findIdentity ''GOOGLE'' (op_uid p) oa")
  case (Some i)
  then show ?thesis using run sound by (auto simp: resolveProfile_def)
next
  case None
  define email where "email = map lower_char (js_trim (op_email p))"
  define identity where "identity = (\<lambda>u. \<lparr>ai_id = newIdentity, ai_user = u, ai_provider = ''GOOGLE'', ai_uid = op_uid p, ai_email = Some email\<rparr>)"
  show ?thesis
  proof (cases "findUserByEmail email (oa_auth oa)")
    case (Some u)
    then have u: "u \<in> set (a_users (oa_auth oa))" "address u = email"
      using findD [OF Some [unfolded findUserByEmail_def]] by (simp_all add: address_def email_def comp_def)
    have "oauth_sound oa2" if "insert_identity (identity (u_id u)) oa = Inr oa2" for oa2
      by (rule sound_link [OF sound that]) (use fresh u in \<open>auto simp: identity_def\<close>)
    note linked = this [unfolded identity_def]
    show ?thesis
      using run sound None Some linked
      by (auto simp: resolveProfile_def Let_def email_def [symmetric] split: if_splits sum.splits)
  next
    case none: None
    define oa1' where "oa1' = oa\<lparr>oa_auth := (oa_auth oa)\<lparr>a_users := a_users (oa_auth oa) @ [new_google_user now newUser email p]\<rparr>\<rparr>"
    have "oauth_sound oa2" if ins: "insert_identity (identity newUser) oa1' = Inr oa2" for oa2
    proof -
      have "email \<notin> address ` set (a_users (oa_auth oa))"
        using email_free [OF none] by (simp add: email_def comp_def)
      moreover have "address (new_google_user now newUser email p) = email"
        by (simp add: address_def email_def)
      ultimately show ?thesis
        using sound fresh insert_identity_ok [OF ins] by (auto simp: oauth_sound_def oa1'_def identity_def)
    qed
    note created = this [unfolded identity_def oa1'_def]
    show ?thesis
      using run sound None none created
      by (auto simp: resolveProfile_def Let_def email_def [symmetric] split: if_splits sum.splits)
  qed
qed

lemma sound_provider:
  assumes "oauth_sound oa" and "completeProviderSignIn cr ttl now dw f u (oa_auth oa) = (r, b)"
  shows "oauth_sound (oa\<lparr>oa_auth := b\<rparr>)"
proof -
  have "people_kept (oa_auth oa) (snd (completeProviderSignIn cr ttl now dw f u (oa_auth oa))) []"
    by (auto simp: completeProviderSignIn_def same_person_def has_password_def
        split: option.split intro: people_kept_same people_kept_update)
  then show ?thesis using sound_accounts [OF assms(1), of b "[]"] assms(2) by simp
qed

lemma sound_unlink:
  assumes sound: "oauth_sound oa"
  shows "oauth_sound (snd (unlinkIdentity userId i oa))"
proof (cases "last_way_in userId oa")
  case True
  then show ?thesis using sound by (simp add: unlinkIdentity_def)
next
  case False
  let ?gone = "\<lambda>x. ai_id x = i \<and> ai_user x = userId"
  let ?rest = "filter (\<lambda>x. \<not> ?gone x) (oa_identities oa)"
  have "\<exists>x \<in> set ?rest. ai_user x = u_id u"
    if u: "u \<in> set (a_users (oa_auth oa))" "\<not> has_password u" for u
  proof (cases "u_id u = userId")
    case True
    have "find_user userId (oa_auth oa) = Some u"
      using sound u(1) True by (auto simp: oauth_sound_def find_user_def distinct_map dest: inj_onD intro!: find_unique)
    then have two: "2 \<le> length (listIdentities userId oa)"
      using False u(2) by (auto simp: last_way_in_def has_password_def Let_def)
    have "distinct (map ai_id (listIdentities userId oa))"
      using sound by (simp add: oauth_sound_def listIdentities_def distinct_map_filter)
    then have "\<exists>x \<in> set (listIdentities userId oa). ai_id x \<noteq> i"
      using two by (cases "listIdentities userId oa" rule: list.exhaust; cases "tl (listIdentities userId oa)") auto
    then show ?thesis using True by (auto simp: listIdentities_def)
  next
    case False
    then show ?thesis using sound u by (fastforce simp: oauth_sound_def)
  qed
  then show ?thesis
    using sound False by (auto simp: unlinkIdentity_def delete_identity_def oauth_sound_def distinct_map_filter)
qed

text \<open>Requests in any order; what a request draws at random is not in use.\<close>

inductive oauth_step :: "crypto \<Rightarrow> int \<Rightarrow> oauth \<Rightarrow> oauth \<Rightarrow> bool" for cr ttl where
  account_request: "(\<And>i. drawn_user rq = Some i \<Longrightarrow> i \<notin> u_id ` set (a_users (oa_auth oa))) \<Longrightarrow>
     oauth_step cr ttl oa (oa\<lparr>oa_auth := auth_run cr ttl now rq (oa_auth oa)\<rparr>)"
| google_request: "newUser \<notin> u_id ` set (a_users (oa_auth oa)) \<Longrightarrow> newIdentity \<notin> ai_id ` set (oa_identities oa) \<Longrightarrow>
     oauth_step cr ttl oa (snd (exchange_route tc cf g cr ttl now newUser newIdentity dw familyId cookie code state oa))"
| unlink_request: "oauth_step cr ttl oa (snd (unlinkIdentity userId i oa))"

inductive oauth_runs :: "crypto \<Rightarrow> int \<Rightarrow> oauth \<Rightarrow> oauth \<Rightarrow> bool" for cr ttl where
  oauth_here: "oauth_runs cr ttl oa oa"
| oauth_next: "oauth_runs cr ttl oa oa1 \<Longrightarrow> oauth_step cr ttl oa1 oa2 \<Longrightarrow> oauth_runs cr ttl oa oa2"

lemma sound_exchange:
  assumes sound: "oauth_sound oa"
    and fresh: "newUser \<notin> u_id ` set (a_users (oa_auth oa))" "newIdentity \<notin> ai_id ` set (oa_identities oa)"
  shows "oauth_sound (snd (exchange_route tc cf g cr ttl now newUser newIdentity dw familyId cookie code state oa))"
proof -
  have resolved: "oauth_sound oa1" if "resolveProfile now newUser newIdentity p oa = (r, oa1)" for p r oa1
    by (rule sound_resolve [OF sound that fresh])
  then show ?thesis
    using sound by (auto simp: exchange_route_def split: sum.split prod.split dest: sound_provider)
qed

lemma sound_step:
  assumes "oauth_step cr ttl oa oa'" and "\<And>p. cr_hash cr p \<noteq> []" and "oauth_sound oa"
  shows "oauth_sound oa'"
  using assms(1)
proof cases
  case (account_request rq now)
  obtain new where kept: "people_kept (oa_auth oa) (auth_run cr ttl now rq (oa_auth oa)) new"
    and new: "new = [] \<or> (\<exists>u i. new = [u] \<and> drawn_user rq = Some i \<and> u_id u = i \<and> has_password u \<and>
       findUserByEmail (u_email u) (oa_auth oa) = None)"
    using auth_run_people [OF assms(2), of "oa_auth oa" ttl now rq] by blast
  then have "new = [] \<or> (\<exists>u. new = [u] \<and> u_id u \<notin> u_id ` set (a_users (oa_auth oa)) \<and> has_password u \<and>
       address u \<notin> address ` set (a_users (oa_auth oa)))"
    using account_request(2) email_free unfolding address_def by metis
  then show ?thesis unfolding account_request(1) using sound_accounts [OF assms(3) kept] by blast
next
  case google_request
  then show ?thesis using sound_exchange [OF assms(3)] by simp
next
  case unlink_request
  then show ?thesis using sound_unlink [OF assms(3)] by simp
qed

text \<open>
  C22. Whatever requests come, of passwords, Google and unlinking, no two accounts share an address,
  a Google identity opens the one account that has its address, and every account keeps
  a password or an identity to come in with.
\<close>

theorem accounts_stay_enterable:
  assumes "oauth_runs cr ttl oa0 oa" and "oa_identities oa0 = []" and "a_users (oa_auth oa0) = []"
    and "\<And>p. cr_hash cr p \<noteq> []"
  shows "oauth_sound oa"
  using assms
proof (induction rule: oauth_runs.induct)
  case oauth_here
  then show ?case by (simp add: oauth_sound_def)
next
  case (oauth_next oa oa1 oa2)
  then show ?case using sound_step by blast
qed

section \<open>Where the browser goes\<close>

lemma redirect_stays:
  assumes "set (or_else c []) \<inter> {CHR 0x09, CHR 0x0A, CHR 0x0D} = {}"
  shows "\<not> leaves_site (safeRedirectPath c)"
proof (cases c)
  case (Some p)
  have "url_input (safeRedirectPath c) = safeRedirectPath c"
    using assms Some by (auto simp: url_input_def safeRedirectPath_def filter_id_conv)
  then show ?thesis
    using Some by (auto simp: leaves_site_def safeRedirectPath_def split: list.split)
qed (simp add: leaves_site_def safeRedirectPath_def url_input_def)

text \<open>A tab between the two slashes passes the check and is dropped by the parser.\<close>

lemma redirect_leaves:
  "safeRedirectPath (Some (CHR ''/'' # CHR 0x09 # ''/evil.test'')) = CHR ''/'' # CHR 0x09 # ''/evil.test''"
  "leaves_site (CHR ''/'' # CHR 0x09 # ''/evil.test'')"
  by (simp_all add: safeRedirectPath_def leaves_site_def url_input_def)

section \<open>From the button to the account\<close>

text \<open>What Google has to answer for a sign-in to succeed.\<close>

definition google_answers :: "google \<Rightarrow> string \<Rightarrow> string \<Rightarrow> string \<Rightarrow> string \<Rightarrow> bool" where
  "google_answers g code codeVerifier uid email \<longleftrightarrow>
     (\<exists>token p. gg_token g code codeVerifier = Answered (Some token) \<and> token \<noteq> [] \<and>
        gg_userinfo g token = Answered p \<and> gp_sub p = Some uid \<and> uid \<noteq> [] \<and>
        gp_email p = Some email \<and> email \<noteq> [] \<and> gp_verified p = Some True)"

lemma google_profile_read:
  "isGoogleConfigured cf \<Longrightarrow> google_answers g code v uid email \<Longrightarrow>
     \<exists>p. exchangeGoogleCode cf g code v = Inr p \<and> op_uid p = uid \<and> op_email p = email \<and> op_verified p"
  unfolding google_answers_def by (elim exE conjE) (simp add: exchangeGoogleCode_def fetchProvider_def bindE_def)

lemma state_read:
  assumes "startGoogleSignIn tc cf t0 nonce v redirectTo = Inr (url, cookie)"
    and "\<And>b. tc_sign tc b = cookie \<Longrightarrow> tc_open tc cookie = Some b" and "now div 1000 < t0 div 1000 + 600"
  shows "verifyOAuthState tc cf (now div 1000) cookie =
    Inr \<lparr>os_nonce = nonce, os_verifier = v, os_redirect = safeRedirectPath redirectTo\<rparr>"
  using assms by (auto simp: startGoogleSignIn_def mapE_def Let_def issueOAuthState_def verifyOAuthState_def jwtVerify_def
      blank_body_def split: sum.splits)

text \<open>
  Somebody new presses the Google button and comes back in time with what Google was given: they are
  signed in to a new account with their address, verified and without a password, are sent to
  the path they asked for, which stays on the site unless it holds a tab or a line end, and the same
  Google identity finds that account ever after.
\<close>

theorem google_round_trip:
  assumes "startGoogleSignIn tc cf t0 nonce v redirectTo = Inr (url, cookie)" and "cookie \<noteq> []"
    and "\<And>b. tc_sign tc b = cookie \<Longrightarrow> tc_open tc cookie = Some b" and "now div 1000 < t0 div 1000 + 600"
    and "isGoogleConfigured cf" and "google_answers g code v uid email"
    and "findIdentity ''GOOGLE'' uid oa = None" and "findUserByEmail (normal_email email) (oa_auth oa) = None"
    and "newUser \<notin> u_id ` set (a_users (oa_auth oa))"
  shows "\<exists>s u oa'. exchange_route tc cf g cr ttl now newUser newIdentity dw familyId (Some cookie) code nonce oa =
      (Inr (SessionIssued s, Some (safeRedirectPath redirectTo)), oa') \<and> ss_user s = newUser \<and>
    find_user newUser (oa_auth oa') = Some u \<and> u_email u = normal_email email \<and> u_verified u = Some now \<and> u_hash u = None \<and>
    (set (or_else redirectTo []) \<inter> {CHR 0x09, CHR 0x0A, CHR 0x0D} = {} \<longrightarrow> \<not> leaves_site (safeRedirectPath redirectTo)) \<and>
    (\<forall>p t i j. op_uid p = uid \<longrightarrow>
      resolveProfile t i j p oa' = (Inr \<lparr>rs_user = newUser, rs_created = False, rs_linked = False\<rparr>, oa'))"
proof -
  obtain p where p: "exchangeGoogleCode cf g code v = Inr p" "op_uid p = uid" "op_email p = email" "op_verified p"
    using google_profile_read [OF assms(5,6)] by blast
  define u where "u = new_google_user now newUser (normal_email email) p"
  define a1 where "a1 = (oa_auth oa)\<lparr>a_users := a_users (oa_auth oa) @ [u]\<rparr>"
  define oa1 where "oa1 = oa\<lparr>oa_auth := a1, oa_identities := oa_identities oa @
    [\<lparr>ai_id = newIdentity, ai_user = newUser, ai_provider = ''GOOGLE'', ai_uid = uid, ai_email = Some (normal_email email)\<rparr>]\<rparr>"
  have new_identity: "\<not> (\<exists>j \<in> set (oa_identities oa). ai_provider j = ''GOOGLE'' \<and> ai_uid j = uid)"
    using assms(7) by (auto simp: findIdentity_def find_None_iff)
  have resolved: "resolveProfile now newUser newIdentity p oa =
      (Inr \<lparr>rs_user = newUser, rs_created = True, rs_linked = False\<rparr>, oa1)"
    using assms(7,8) p new_identity
    by (simp add: resolveProfile_def Let_def insert_identity_def oa1_def a1_def u_def normal_email_def)
  have "find (\<lambda>x. u_id x = newUser) (a_users (oa_auth oa)) = None"
    using assms(9) by (auto simp: find_None_iff)
  then have there: "find_user newUser a1 = Some u" by (simp add: find_user_def a1_def u_def find_app)
  define a2 where "a2 = update_user newUser (\<lambda>x. x\<lparr>u_last_login := Some now\<rparr>) a1"
  have stamped: "find_user newUser a2 = Some (u\<lparr>u_last_login := Some now\<rparr>)"
    by (simp add: a2_def find_user_stamp there) (simp add: u_def)
  have no_factor: "\<not> mfa_isEnabled newUser a2"
    by (simp add: mfa_isEnabled_def stamped) (simp add: u_def)
  obtain s a3 where fin: "completeProviderSignIn cr ttl now dw familyId newUser a1 = (Inr (SessionIssued s), a3)"
      and s: "ss_user s = newUser" and users: "a_users a3 = a_users a2"
    using there stamped no_factor
    by (simp add: completeProviderSignIn_def after_first_factor_def issueSession_def a2_def [symmetric])
  define oa' where "oa' = oa1\<lparr>oa_auth := a3\<rparr>"
  have "exchange_route tc cf g cr ttl now newUser newIdentity dw familyId (Some cookie) code nonce oa =
      (Inr (SessionIssued s, Some (safeRedirectPath redirectTo)), oa')"
    using state_read [OF assms(1,3,4)] assms(2) p(1) resolved fin by (simp add: exchange_route_def oa'_def oa1_def)
  moreover have "find_user newUser (oa_auth oa') = Some (u\<lparr>u_last_login := Some now\<rparr>)"
    using stamped users by (simp add: oa'_def find_user_def)
  moreover have "findIdentity ''GOOGLE'' uid oa' = Some \<lparr>ai_id = newIdentity, ai_user = newUser, ai_provider = ''GOOGLE'',
      ai_uid = uid, ai_email = Some (normal_email email)\<rparr>"
    using assms(7) by (simp add: findIdentity_def oa'_def oa1_def find_app)
  ultimately show ?thesis
    using s redirect_stays [of redirectTo]
    by (intro exI [of _ s] exI [of _ "u\<lparr>u_last_login := Some now\<rparr>"] exI [of _ oa'])
      (auto simp: resolveProfile_def u_def new_google_user_def)
qed

text \<open>An example: one sealed state, and a Google that knows Bea.\<close>

definition sample_config :: token_config where
  "sample_config = \<lparr>cf_issuer = ''bba'', cf_audience = ''bba-web'', cf_ttl = 900, cf_web_origin = ''https://shop.test'',
     cf_client_id = Some ''id'', cf_client_secret = Some ''secret''\<rparr>"

definition sample_state :: token_body where
  "sample_state = blank_body\<lparr>tk_issuer := ''bba'', tk_audience := OAUTH_STATE_AUDIENCE, tk_expires := 600,
     tk_nonce := ''n1'', tk_verifier := ''v1'', tk_redirect := ''/orders''\<rparr>"

definition sample_keys :: token_crypto where
  "sample_keys = \<lparr>tc_sign = (\<lambda>b. if b = sample_state then ''sealed'' else ''other''),
     tc_open = (\<lambda>s. if s = ''sealed'' then Some sample_state else None), tc_challenge = id\<rparr>"

definition sample_google :: google where
  "sample_google = \<lparr>gg_token = (\<lambda>code v. if code = ''c1'' \<and> v = ''v1'' then Answered (Some ''t1'') else Refused 400),
     gg_userinfo = (\<lambda>_. Answered \<lparr>gp_sub = Some ''g1'', gp_email = Some ''Bea@example.test'', gp_verified = Some True,
       gp_name = Some ''Bea''\<rparr>)\<rparr>"

definition nobody_yet :: oauth where
  "nobody_yet = \<lparr>oa_auth = \<lparr>a_users = [], a_tokens = [], a_codes = [], a_members = []\<rparr>, oa_identities = []\<rparr>"

definition salted :: crypto where
  "salted = toy\<lparr>cr_hash := Cons (CHR ''#'')\<rparr>"

definition sample_draw :: draw where
  "sample_draw = \<lparr>dw_id = ''t1'', dw_token = ''r1''\<rparr>"

lemma sample_start:
  "\<exists>url. startGoogleSignIn sample_keys sample_config 0 ''n1'' ''v1'' (Some ''/orders'') = Inr (url, ''sealed'')"
  by (simp add: startGoogleSignIn_def buildGoogleAuthorization_def sample_config_def safeRedirectPath_def issueOAuthState_def
      sample_keys_def sample_state_def mapE_def)

lemma sample_answers: "google_answers sample_google ''c1'' ''v1'' ''g1'' ''Bea@example.test''"
  by (simp add: google_answers_def sample_google_def)

theorem google_round_trip_witness:
  "\<exists>s u oa'. exchange_route sample_keys sample_config sample_google salted 60 1000 ''u1'' ''i1'' sample_draw ''f1''
      (Some ''sealed'') ''c1'' ''n1'' nobody_yet = (Inr (SessionIssued s, Some ''/orders''), oa') \<and> ss_user s = ''u1'' \<and>
    find_user ''u1'' (oa_auth oa') = Some u \<and> u_email u = ''bea@example.test''"
proof -
  obtain url where start: "startGoogleSignIn sample_keys sample_config 0 ''n1'' ''v1'' (Some ''/orders'') = Inr (url, ''sealed'')"
    using sample_start by blast
  have seals: "tc_open sample_keys ''sealed'' = Some b" if "tc_sign sample_keys b = ''sealed''" for b
    using that by (simp add: sample_keys_def split: if_splits)
  have "normal_email ''Bea@example.test'' = ''bea@example.test''" by code_simp
  moreover have "safeRedirectPath (Some ''/orders'') = ''/orders''" by (simp add: safeRedirectPath_def)
  ultimately show ?thesis
    using google_round_trip [OF start _ seals _ _ sample_answers, where now = 1000 and oa = nobody_yet and newUser = "''u1''" and cr = salted and ttl = 60 and newIdentity = "''i1''" and dw = sample_draw and familyId = "''f1''"]
    by (simp add: sample_config_def isGoogleConfigured_def nobody_yet_def findIdentity_def findUserByEmail_def) blast
qed

theorem accounts_stay_enterable_witness:
  "\<exists>oa. oauth_runs salted 60 nobody_yet oa \<and> oauth_sound oa \<and> oa_identities oa \<noteq> []"
proof -
  define oa where "oa = snd (exchange_route sample_keys sample_config sample_google salted 60 1000 ''u1'' ''i1'' sample_draw
    ''f1'' (Some ''sealed'') ''c1'' ''n1'' nobody_yet)"
  have runs: "oauth_runs salted 60 nobody_yet oa"
    unfolding oa_def by (rule oauth_next [OF oauth_here google_request]) (simp_all add: nobody_yet_def)
  have "oauth_sound oa"
    by (rule accounts_stay_enterable [OF runs]) (simp_all add: nobody_yet_def salted_def)
  moreover have "map ai_user (oa_identities oa) = [''u1'']"
    by (simp add: oa_def exchange_route_def verifyOAuthState_def jwtVerify_def sample_keys_def sample_state_def blank_body_def
        sample_config_def exchangeGoogleCode_def isGoogleConfigured_def fetchProvider_def sample_google_def resolveProfile_def
        findIdentity_def nobody_yet_def findUserByEmail_def insert_identity_def completeProviderSignIn_def find_user_def
        update_user_def after_first_factor_def issueSession_def mfa_isEnabled_def new_google_user_def Let_def)
  ultimately show ?thesis using runs by (intro exI [of _ oa]) auto
qed

section \<open>What the code lets through\<close>

text \<open>The status of the account is not asked for once an identity is linked: a locked, closed or deleted account signs in.\<close>

lemma linked_account_always_enters:
  assumes "findIdentity ''GOOGLE'' (op_uid p) oa = Some i" and "find_user (ai_user i) (oa_auth oa) = Some u" and "u_mfa_at u = None"
  shows "\<exists>r s a. resolveProfile now newUser newIdentity p oa = (Inr r, oa) \<and>
    completeProviderSignIn cr ttl now dw f (rs_user r) (oa_auth oa) = (Inr (SessionIssued s), a) \<and> ss_user s = ai_user i"
  using assms by (simp add: resolveProfile_def completeProviderSignIn_def after_first_factor_def issueSession_def
      mfa_isEnabled_def find_user_stamp)

text \<open>Two requests that both read before either deletes remove the last two ways in.\<close>

definition two_ways :: oauth where
  "two_ways = \<lparr>oa_auth = (sample_auth None)\<lparr>a_users := map (\<lambda>u. u\<lparr>u_hash := None\<rparr>) (a_users (sample_auth None))\<rparr>,
     oa_identities = [\<lparr>ai_id = ''i1'', ai_user = ''u1'', ai_provider = ''GOOGLE'', ai_uid = ''g1'', ai_email = None\<rparr>,
       \<lparr>ai_id = ''i2'', ai_user = ''u1'', ai_provider = ''GOOGLE'', ai_uid = ''g2'', ai_email = None\<rparr>]\<rparr>"

lemma racing_unlinks_strand:
  "\<not> last_way_in ''u1'' two_ways" "fst (delete_identity ''u1'' ''i1'' two_ways) = Inr ()"
  "fst (delete_identity ''u1'' ''i2'' (snd (delete_identity ''u1'' ''i1'' two_ways))) = Inr ()"
  "oa_identities (snd (delete_identity ''u1'' ''i2'' (snd (delete_identity ''u1'' ''i1'' two_ways)))) = []"
  by (simp_all add: last_way_in_def listIdentities_def delete_identity_def two_ways_def sample_auth_def find_user_def)

end
