(* ===== verification/GuardProps.thy ===== *)
theory GuardProps
  imports Guards OAuthProps LinkProps
begin

text \<open>
  Who gets past the guards, composed with the tokens and with the changes of a team; what a refusal
  tells.
\<close>

lemma extracted_token: "or_else (extractToken rq) [] \<noteq> [] \<Longrightarrow> extractToken rq \<noteq> None"
  by (cases "extractToken rq") auto

lemma jwt_guard_in:
  assumes "jwt_guard tc cf now rt rq cx = Inr (auth, cx1)"
  shows "case auth of
      None \<Rightarrow> ro_public rt \<and> cx1 = cx
    | Some c \<Rightarrow> (\<exists>token. extractToken rq = Some token \<and> verifyAccessToken tc cf now token = Inr c) \<and>
        cx1 = cx\<lparr>rx_user := Some (cm_sub c), rx_super := cm_super c\<rparr>"
  using assms extracted_token [of rq]
  by (auto simp: jwt_guard_def Let_def split: if_splits sum.splits)

lemma store_scope_in:
  assumes "store_scope_guard rt (Some c) cx = Inr cx1" and "\<not> ro_public rt"
  shows "or_else (ro_store rt) [] = [] \<and> cx1 = cx \<or>
    cx1 = cx\<lparr>rx_store := ro_store rt\<rparr> \<and> (cm_super c \<or> or_else (ro_store rt) [] \<in> fst ` set (cm_memberships c))"
  using assms by (auto simp: store_scope_guard_def notFound_def split: if_splits)

lemma permissions_in:
  assumes "permissions_guard rt (Some c) pe = Inr ()" and "\<not> ro_public rt" and "p \<in> set (ro_required rt)"
  shows "cm_super c \<or> \<not> isPlatformPermission p \<and> or_else (ro_store rt) [] \<noteq> [] \<and>
    p \<in> effectiveFor (cm_sub c) (or_else (ro_store rt) []) pe"
  using assms
  by (auto simp: permissions_guard_def notFound_def guardE_def Let_def filter_empty_conv split: if_splits)

lemma guarded_in:
  assumes "guarded tc cf now uuid rt rq pe = Inr (auth, cx)"
  shows "\<exists>cx0. jwt_guard tc cf now rt rq (open_context uuid rq) = Inr (auth, cx0) \<and>
    store_scope_guard rt auth cx0 = Inr cx \<and> permissions_guard rt auth pe = Inr ()"
proof (cases "jwt_guard tc cf now rt rq (open_context uuid rq)")
  case (Inr r)
  obtain a cx0 where "r = (a, cx0)" by (cases r)
  then show ?thesis
    using assms Inr by (cases "store_scope_guard rt a cx0"; cases "permissions_guard rt a pe") (simp_all add: guarded_def)
qed (use assms in \<open>simp add: guarded_def\<close>)

text \<open>Who is let through a route that is not public.\<close>

lemma guarded_caller:
  assumes "guarded tc cf now uuid rt rq pe = Inr (auth, cx)" and "\<not> ro_public rt"
  shows "\<exists>c. auth = Some c \<and> rx_user cx = Some (cm_sub c) \<and>
    (or_else (ro_store rt) [] \<noteq> [] \<longrightarrow>
      rx_store cx = ro_store rt \<and> (cm_super c \<or> or_else (ro_store rt) [] \<in> fst ` set (cm_memberships c))) \<and>
    (\<forall>p \<in> set (ro_required rt). cm_super c \<or> \<not> isPlatformPermission p)"
proof -
  obtain cx0 where jwt: "jwt_guard tc cf now rt rq (open_context uuid rq) = Inr (auth, cx0)"
    and scope: "store_scope_guard rt auth cx0 = Inr cx" and perms: "permissions_guard rt auth pe = Inr ()"
    using guarded_in [OF assms(1)] by blast
  obtain c where c: "auth = Some c" "cx0 = (open_context uuid rq)\<lparr>rx_user := Some (cm_sub c), rx_super := cm_super c\<rparr>"
    using jwt_guard_in [OF jwt] assms(2) by (auto split: option.splits)
  show ?thesis
    using c store_scope_in [OF scope [unfolded c(1)] assms(2)] permissions_in [OF perms [unfolded c(1)] assms(2)] by auto
qed

text \<open>
  To hold a permission in a store at a moment: an active membership there whose role has it by
  default, or was granted it as far as the role may be, and from which it has not been taken.
\<close>

definition has_override :: "people \<Rightarrow> membership \<Rightarrow> permission \<Rightarrow> effect \<Rightarrow> bool" where
  "has_override pe m p eff =
     list_ex (\<lambda>o1. mo_member o1 = m_id m \<and> mo_permission o1 = p \<and> mo_effect o1 = eff) (pe_overrides pe)"

definition holds_now :: "people \<Rightarrow> string \<Rightarrow> string \<Rightarrow> permission \<Rightarrow> bool" where
  "holds_now pe storeId userId p =
     (case member_in storeId userId pe of
        None \<Rightarrow> False
      | Some m \<Rightarrow> m_status m = MS_ACTIVE \<and> \<not> has_override pe m p DENY \<and>
          (List.member (ROLE_DEFAULT_PERMISSIONS (m_role m)) p \<or>
           has_override pe m p GRANT \<and> List.member (ROLE_OPTIONAL_GRANT_SUPERSET (m_role m)) p))"

lemma effective_held:
  assumes "team_inv pe" and "p \<in> effectiveFor u s pe"
  shows "holds_now pe s u p"
proof -
  obtain m eff where m: "member_in s u pe = Some m" "m_status m = MS_ACTIVE"
    and eff: "resolveEffectivePermissions (m_role m) (stored_overrides (m_id m) pe) = Inr eff" "p \<in> eff"
    using assms(2) by (auto simp: effectiveFor_def split: option.splits if_splits sum.splits)
  have stored: "has_override pe m p GRANT"
    if "p \<in> granted (stored_overrides (m_id m) pe)"
    using that by (auto simp: has_override_def list_ex_iff granted_def stored_overrides_def overrides_of_def)
  have within: "p \<in> set (ROLE_DEFAULT_PERMISSIONS (m_role m)) \<union> set (ROLE_OPTIONAL_GRANT_SUPERSET (m_role m))"
    and taken: "\<not> has_override pe m p DENY"
    using effective_within [OF assms] m(1) by (auto simp: has_override_def list_ex_iff)
  have "p \<in> set (ROLE_DEFAULT_PERMISSIONS (m_role m)) \<or> p \<in> granted (stored_overrides (m_id m) pe)"
    using eff by (simp add: resolve_iff)
  then show ?thesis using m within taken stored by (auto simp: holds_now_def)
qed

text \<open>
  C19. A route that is not public is entered only with an unexpired token our key signed as an
  access token, and a route that asks for a platform permission by platform staff alone.  Anybody
  else enters a store's route only if the token names that store, and only while every permission
  the route asks for is held at that moment: through an active membership of the store whose role
  has it by default or has been granted it within its limits, and from which it has not been
  taken, whatever changes of the team came between the token and the request.
\<close>

theorem routes_are_guarded:
  assumes "staff_steps pe0 pe" and "team_inv pe0"
    and "guarded tc cf now uuid rt rq pe = Inr (auth, cx)" and "\<not> ro_public rt"
  shows "\<exists>token c b. extractToken rq = Some token \<and> auth = Some c \<and> tc_open tc token = Some b \<and>
    tk_audience b = cf_audience cf \<and> now < tk_expires b \<and> cm_sub c = tk_sub b \<and> rx_user cx = Some (cm_sub c) \<and>
    (\<forall>p \<in> set (ro_required rt). isPlatformPermission p \<longrightarrow> cm_super c) \<and>
    (\<not> cm_super c \<longrightarrow>
      (or_else (ro_store rt) [] \<noteq> [] \<longrightarrow>
        rx_store cx = ro_store rt \<and> or_else (ro_store rt) [] \<in> fst ` set (cm_memberships c)) \<and>
      (\<forall>p \<in> set (ro_required rt). or_else (ro_store rt) [] \<noteq> [] \<and>
        holds_now pe (or_else (ro_store rt) []) (cm_sub c) p))"
proof -
  obtain cx0 where jwt: "jwt_guard tc cf now rt rq (open_context uuid rq) = Inr (auth, cx0)"
    and scope: "store_scope_guard rt auth cx0 = Inr cx" and perms: "permissions_guard rt auth pe = Inr ()"
    using guarded_in [OF assms(3)] by blast
  then obtain c token where c: "auth = Some c" "extractToken rq = Some token" "verifyAccessToken tc cf now token = Inr c"
      "cx0 = (open_context uuid rq)\<lparr>rx_user := Some (cm_sub c), rx_super := cm_super c\<rparr>"
    using jwt_guard_in [OF jwt] assms(4) by (auto split: option.splits)
  then obtain b where b: "tc_open tc token = Some b" "tk_audience b = cf_audience cf" "now < tk_expires b" "cm_sub c = tk_sub b"
    by (auto simp: verifyAccessToken_def jwtVerify_def split: option.splits if_splits)
  have inv: "team_inv pe" using staff_steps_kept [OF assms(1,2)] by (simp add: kept_team_def)
  have "cm_super c \<or> \<not> isPlatformPermission p \<and> or_else (ro_store rt) [] \<noteq> [] \<and>
      holds_now pe (or_else (ro_store rt) []) (cm_sub c) p"
    if "p \<in> set (ro_required rt)" for p
    using permissions_in [OF perms [unfolded c(1)] assms(4) that] effective_held [OF inv] by blast
  then show ?thesis
    using b c store_scope_in [OF scope [unfolded c(1)] assms(4)] by auto
qed

text \<open>Who holds what a route asks for gets in.\<close>

lemma holders_get_in:
  assumes "extractToken rq = Some token" and "token \<noteq> []" and "verifyAccessToken tc cf now token = Inr c"
    and "ro_store rt = Some s" and "s \<noteq> []" and "s \<in> fst ` set (cm_memberships c)"
    and "set (ro_required rt) \<subseteq> effectiveFor (cm_sub c) s pe" and "\<forall>p \<in> set (ro_required rt). \<not> isPlatformPermission p"
  shows "\<exists>cx. guarded tc cf now uuid rt rq pe = Inr (Some c, cx)"
  using assms
  by (auto simp: guarded_def jwt_guard_def store_scope_guard_def permissions_guard_def mapE_def guardE_def Let_def
      filter_empty_conv subset_iff)

text \<open>A member who is suspended while holding a token is refused on every route that asks for a permission.\<close>

lemma suspended_member_shut_out:
  assumes "member_in s (cm_sub c) pe = Some m" and "m_status m = MS_SUSPENDED" and "\<not> cm_super c"
    and "ro_store rt = Some s" and "ro_required rt \<noteq> []" and "\<not> ro_public rt"
  shows "\<exists>e. permissions_guard rt (Some c) pe = Inl e"
  using assms
  by (auto simp: permissions_guard_def effectiveFor_def notFound_def guardE_def Let_def filter_empty_conv)

text \<open>A store's route that asks for no permission is open to every bearer of a token that names the store.\<close>

lemma undeclared_route_open:
  assumes "ro_required rt = []"
  shows "permissions_guard rt auth pe = Inr ()"
  using assms by (simp add: permissions_guard_def)

text \<open>An error that is not the program's own tells nothing but that it happened.\<close>

lemma problem_tells_nothing:
  "e \<in> {UniqueViolation x, CheckViolation x, TriggerRaised x, ProviderError x} \<Longrightarrow>
     pb_detail (toProblem e) = ''An unexpected error occurred.'' \<and> pb_status (toProblem e) = 500"
  by auto

lemma problem_status: "pb_status (toProblem e) = error_status e"
  by (cases e) simp_all

lemma request_id_bounded:
  "length uuid \<le> 36 \<Longrightarrow> length (rx_id (open_context uuid rq)) \<le> 128"
  by (simp add: open_context_def Let_def)

text \<open>Ann's clerk Bob, with a token, at the refund route.\<close>

definition bob_claims :: claims where
  "bob_claims = \<lparr>cm_sub = ''u2'', cm_email = ''bob@example.test'', cm_super = False, cm_memberships = [(''s1'', CLERK)]\<rparr>"

definition bob_body :: token_body where
  "bob_body = blank_body\<lparr>tk_sub := ''u2'', tk_issuer := ''bba'', tk_audience := ''bba-web'', tk_expires := 900,
     tk_email := ''bob@example.test'', tk_memberships := [(''s1'', CLERK)]\<rparr>"

definition bob_keys :: token_crypto where
  "bob_keys = \<lparr>tc_sign = (\<lambda>_. ''bob''), tc_open = (\<lambda>s. if s = ''bob'' then Some bob_body else None), tc_challenge = id\<rparr>"

definition refund_route :: route where
  "refund_route = \<lparr>ro_public = False, ro_required = [OrdersRefund], ro_store = Some ''s1''\<rparr>"

definition bob_request :: incoming where
  "bob_request = \<lparr>in_cookie = Some ''bob'', in_authorization = None, in_request_id = None\<rparr>"

theorem routes_are_guarded_witness:
  "\<exists>auth cx. guarded bob_keys sample_config 5 ''x'' refund_route bob_request trusted = Inr (auth, cx) \<and>
    rx_store cx = Some ''s1'' \<and> rx_user cx = Some ''u2''"
proof -
  have inv: "team_inv small_team"
    by (simp add: small_team_def village_def staff_member_def team_inv_def within_role_def)
  have steps: "staff_steps small_team trusted" unfolding trusted_def by (intro staff_steps.intros)
  have may: "OrdersRefund \<in> effectiveFor ''u2'' ''s1'' trusted" by code_simp
  have verified: "verifyAccessToken bob_keys sample_config 5 ''bob'' = Inr bob_claims"
    by (simp add: verifyAccessToken_def jwtVerify_def bob_keys_def bob_body_def blank_body_def sample_config_def bob_claims_def)
  have "\<not> isPlatformPermission OrdersRefund" by code_simp
  then obtain cx where entered: "guarded bob_keys sample_config 5 ''x'' refund_route bob_request trusted = Inr (Some bob_claims, cx)"
    using holders_get_in [of bob_request "''bob''" bob_keys sample_config 5 bob_claims refund_route "''s1''" trusted "''x''"] verified may
    by (auto simp: bob_request_def extractToken_def refund_route_def bob_claims_def)
  show ?thesis
    using routes_are_guarded [OF steps inv entered] entered
    by (auto simp: refund_route_def bob_claims_def)
qed

end
