(* ===== verification/EndpointProps.thy ===== *)
theory EndpointProps
  imports Endpoints GuardProps
begin

text \<open>
  Which handlers a caller can reach: the table of routes composed with the guards, the tokens and the
  changes of a team. What the routing of the framework promises is the locale \<open>routing\<close>; the first
  route in the table that the request fits keeps it.
\<close>

section \<open>What the router promises\<close>

definition path_params :: "endpoint \<Rightarrow> string list" where
  "path_params e = map param_name (filter is_param (segments (ep_path e)))"

locale routing =
  fixes find_route :: router
  assumes listed: "find_route m url = Some (e, params) \<Longrightarrow> e \<in> set endpoints \<and> ep_method e = m"
    and bound: "find_route m url = Some (e, params) \<Longrightarrow> n \<in> set (path_params e) \<Longrightarrow> params n \<noteq> None"
    and filled: "find_route m url = Some (e, params) \<Longrightarrow> params n \<noteq> Some []"
begin

lemma served_in:
  assumes "serve find_route tc cf now uuid m url rq pe = Some (Inr (e, auth, cx))"
  shows "\<exists>params. find_route m url = Some (e, params) \<and> e \<in> set endpoints \<and> ep_method e = m \<and>
    guarded tc cf now uuid (route_of e params) rq pe = Inr (auth, cx) \<and>
    (''storeId'' \<in> set (path_params e) \<longrightarrow> or_else (ro_store (route_of e params)) [] \<noteq> [])"
proof -
  obtain e1 params where found: "find_route m url = Some (e1, params)"
    using assms by (auto simp: serve_def)
  have "e1 = e" and "guarded tc cf now uuid (route_of e params) rq pe = Inr (auth, cx)"
    using assms found by (auto simp: serve_def mapE_def split: sum.splits)
  then show ?thesis
    using found listed [OF found] bound [OF found, of "''storeId''"] filled [OF found, of "''storeId''"]
    by (auto simp: route_of_def)
qed

end

lemma match_segments_binds:
  "match_segments ps ss = Some bs \<Longrightarrow>
     map fst bs = map param_name (filter is_param ps) \<and> (\<forall>v \<in> snd ` set bs. v \<noteq> [])"
  by (induction ps ss arbitrary: bs rule: match_segments.induct)
    (auto simp: Let_def split: option.splits if_splits)

lemma first_match_in:
  "first_match es m url = Some (e, params) \<Longrightarrow>
     e \<in> set es \<and> ep_method e = m \<and> (\<exists>bs. match_segments (segments (ep_path e)) (segments url) = Some bs \<and> params = map_of bs)"
  by (induction es) (auto simp: match_endpoint_def split: option.splits if_splits)

interpretation table: routing "first_match endpoints"
proof
  fix m url e params n
  assume found: "first_match endpoints m url = Some (e, params)"
  obtain bs where bs: "match_segments (segments (ep_path e)) (segments url) = Some bs" "params = map_of bs"
    using first_match_in [OF found] by blast
  note names = match_segments_binds [OF bs(1)]
  show "e \<in> set endpoints \<and> ep_method e = m" using first_match_in [OF found] by blast
  show "params n \<noteq> None" if "n \<in> set (path_params e)"
    using that names bs(2) unfolding path_params_def
    by (metis list.set_map map_of_eq_None_iff)
  show "params n \<noteq> Some []"
    using names bs(2) by (auto dest!: map_of_SomeD)
qed

section \<open>What the table declares\<close>

definition within_reach :: "membership_role \<Rightarrow> endpoint \<Rightarrow> bool" where
  "within_reach role e =
     list_all (\<lambda>p. List.member (ROLE_DEFAULT_PERMISSIONS role @ ROLE_OPTIONAL_GRANT_SUPERSET role) p) (ep_required e)"

definition own_handlers :: "string list" where
  "own_handlers =
    [''MediaController.uploadUrl'', ''MediaController.complete'', ''MediaController.status'',
     ''NotificationsController.inbox'', ''NotificationsController.unreadCount'', ''NotificationsController.readAll'',
     ''NotificationsController.readOne'', ''NotificationsController.catalog'', ''NotificationsController.list'',
     ''NotificationsController.set'', ''AuthController.setupMfa'', ''AuthController.confirmMfa'',
     ''AuthController.regenerateRecoveryCodes'', ''AuthController.disableMfa'', ''AuthController.me'',
     ''AccountController.changePassword'', ''AccountController.listSessions'', ''AccountController.revokeSession'',
     ''AccountController.revokeAllSessions'', ''CustomerOrdersController.list'']"

definition courier_handlers :: "string list" where
  "courier_handlers =
    [''DeliveryController.mine'', ''DeliveryController.forOrder'', ''DeliveryController.pickUp'',
     ''DeliveryController.complete'', ''DeliveryController.fail'', ''StoreSettingsController.get'',
     ''StoreSettingsController.getHours'', ''StoreSettingsController.getTaxRates'', ''StoreSettingsController.getZones'',
     ''OrderEventsController.stream'', ''OrdersController.list'', ''OrdersController.pipeline'', ''OrdersController.get'',
     ''PaymentsController.listRefunds'']"

definition under_platform :: "endpoint \<Rightarrow> bool" where
  "under_platform e = (take 16 (ep_path e) = ''api/v1/platform/'')"

text \<open>The routes that are not public and ask for nothing; those within a courier's reach; those of the platform.\<close>

lemma table_facts:
  "map ep_handler (filter (\<lambda>e. \<not> ep_public e \<and> ep_required e = []) endpoints) = own_handlers \<and>
   map ep_handler (filter (\<lambda>e. ep_required e \<noteq> [] \<and> within_reach DELIVERY e) endpoints) = courier_handlers \<and>
   list_all (\<lambda>e. under_platform e \<longrightarrow> \<not> ep_public e \<and> list_ex isPlatformPermission (ep_required e)) endpoints"
  by code_simp

lemma own_handlers_only:
  assumes "e \<in> set endpoints" and "\<not> ep_public e" and "ep_required e = []"
  shows "ep_handler e \<in> set own_handlers"
proof -
  have "ep_handler e \<in> set (map ep_handler (filter (\<lambda>e. \<not> ep_public e \<and> ep_required e = []) endpoints))"
    using assms by auto
  then show ?thesis unfolding conjunct1 [OF table_facts] .
qed

lemma courier_handlers_only:
  assumes "e \<in> set endpoints" and "ep_required e \<noteq> []" and "within_reach DELIVERY e"
  shows "ep_handler e \<in> set courier_handlers"
proof -
  have "ep_handler e \<in> set (map ep_handler (filter (\<lambda>e. ep_required e \<noteq> [] \<and> within_reach DELIVERY e) endpoints))"
    using assms by auto
  then show ?thesis unfolding conjunct1 [OF conjunct2 [OF table_facts]] .
qed

lemma platform_asks:
  assumes "e \<in> set endpoints" and "under_platform e"
  shows "\<exists>p \<in> set (ep_required e). isPlatformPermission p"
  using conjunct2 [OF conjunct2 [OF table_facts]] assms by (auto simp: list_all_iff list_ex_iff)

lemmas controllers_defs = controller_def shown_def asks_def endpoints_def
  mediaController_def mediaUploadController_def mediaPrivateController_def inventoryController_def
  countSessionsController_def deliveryController_def notificationsController_def authController_def
  accountController_def invitationController_def storeApplicationController_def
  platformStoresController_def storeSettingsController_def catalogController_def
  storefrontController_def orderEventsController_def cartController_def couponsController_def
  checkoutController_def ordersController_def customerOrdersController_def posController_def
  paymentsController_def stripeWebhooksController_def billingController_def reportsController_def
  healthController_def

text \<open>Two permissions a membership may be given or denied that no route asks for.\<close>

lemma never_asked_for:
  "list_all (\<lambda>e. PaymentsCollectCash \<notin> set (ep_required e) \<and> OrdersCancel \<notin> set (ep_required e)) endpoints"
  by (simp add: controllers_defs)

section \<open>Who reaches what\<close>

lemma member_reach:
  assumes "team_inv pe" and "permissions_guard (route_of e params) (Some c) pe = Inr ()"
    and "\<not> ep_public e" and "ep_required e \<noteq> []" and "\<not> cm_super c"
  shows "or_else (params ''storeId'') [] \<noteq> [] \<and> (\<exists>mb. member_in (or_else (params ''storeId'') []) (cm_sub c) pe = Some mb \<and>
    m_status mb = MS_ACTIVE \<and> within_reach (m_role mb) e) \<and>
    list_all (holds_now pe (or_else (params ''storeId'') []) (cm_sub c)) (ep_required e)"
proof -
  let ?s = "or_else (params ''storeId'') []"
  have asked: "?s \<noteq> [] \<and> p \<in> effectiveFor (cm_sub c) ?s pe" if "p \<in> set (ep_required e)" for p
    using permissions_in [OF assms(2), of p] that assms(3,5) by (simp add: route_of_def)
  obtain p where p: "p \<in> set (ep_required e)" using assms(4) by (cases "ep_required e") auto
  obtain mb where mb: "member_in ?s (cm_sub c) pe = Some mb" "m_status mb = MS_ACTIVE"
    using asked [OF p] effective_within [OF assms(1), of p] by blast
  have "q \<in> set (ROLE_DEFAULT_PERMISSIONS (m_role mb)) \<union> set (ROLE_OPTIONAL_GRANT_SUPERSET (m_role mb))"
    if "q \<in> set (ep_required e)" for q
    using asked [OF that] effective_within [OF assms(1), of q] mb(1) by fastforce
  then show ?thesis
    using asked effective_held [OF assms(1)] p mb by (auto simp: within_reach_def list_all_iff)
qed

text \<open>
  C20. Whatever request comes in, the handler that runs is one the table lists under the request's
  method, and unless it is public its caller has a token.  The routes that are not public and
  declare no permission are the twenty listed ones: the caller's own account, notices and orders,
  and the three steps of a media upload, of which the first asks for the permission itself, by the
  kind of file, and the other two for none.  A caller who is not platform staff reaches the routes
  of a store only if the token names it; a route that declares permissions only while holding
  every one of them at that moment in that store, as an active member whose role allows them; as a
  courier only the listed ones; and a route under \<open>/platform\<close> never.
\<close>

theorem served_within_role:
  assumes "routing find_route" and "staff_steps pe0 pe" and "team_inv pe0"
    and "serve find_route tc cf now uuid m url rq pe = Some (Inr (e, auth, cx))"
  shows "e \<in> set endpoints \<and> ep_method e = m \<and> (ep_public e \<or> (\<exists>c. auth = Some c \<and> rx_user cx = Some (cm_sub c) \<and>
    (ep_required e = [] \<longrightarrow> ep_handler e \<in> set own_handlers) \<and>
    (\<not> cm_super c \<longrightarrow> \<not> under_platform e \<and>
      (''storeId'' \<in> set (path_params e) \<longrightarrow> (\<exists>s. rx_store cx = Some s \<and> s \<in> fst ` set (cm_memberships c))) \<and>
      (ep_required e \<noteq> [] \<longrightarrow>
        (\<exists>s mb. rx_store cx = Some s \<and> member_in s (cm_sub c) pe = Some mb \<and> m_status mb = MS_ACTIVE \<and>
          list_all (holds_now pe s (cm_sub c)) (ep_required e) \<and> within_reach (m_role mb) e \<and>
          (m_role mb = DELIVERY \<longrightarrow> ep_handler e \<in> set courier_handlers))))))"
proof (cases "ep_public e")
  case True
  then show ?thesis using routing.served_in [OF assms(1,4)] by blast
next
  case False
  obtain params where e: "e \<in> set endpoints" "ep_method e = m"
      and entered: "guarded tc cf now uuid (route_of e params) rq pe = Inr (auth, cx)"
      and named: "''storeId'' \<in> set (path_params e) \<longrightarrow> or_else (ro_store (route_of e params)) [] \<noteq> []"
    using routing.served_in [OF assms(1,4)] by blast
  have closed: "\<not> ro_public (route_of e params)" using False by (simp add: route_of_def)
  obtain c where c: "auth = Some c" "rx_user cx = Some (cm_sub c)"
      and store: "or_else (ro_store (route_of e params)) [] \<noteq> [] \<longrightarrow> rx_store cx = ro_store (route_of e params) \<and>
        (cm_super c \<or> or_else (ro_store (route_of e params)) [] \<in> fst ` set (cm_memberships c))"
      and held: "\<forall>p \<in> set (ro_required (route_of e params)). cm_super c \<or> \<not> isPlatformPermission p"
    using guarded_caller [OF entered closed] by blast
  have guard: "permissions_guard (route_of e params) (Some c) pe = Inr ()"
    using guarded_in [OF entered] c(1) by blast
  have inv: "team_inv pe" using staff_steps_kept [OF assms(2,3)] by (simp add: kept_team_def)
  have mine: "ep_required e = [] \<Longrightarrow> ep_handler e \<in> set own_handlers" using own_handlers_only [OF e(1) False] .
  have away: "\<not> cm_super c \<Longrightarrow> \<not> under_platform e"
    using held platform_asks [OF e(1)] by (auto simp: route_of_def)
  have reach: "ep_required e \<noteq> [] \<Longrightarrow> \<not> cm_super c \<Longrightarrow>
     (\<exists>s mb. rx_store cx = Some s \<and> member_in s (cm_sub c) pe = Some mb \<and> m_status mb = MS_ACTIVE \<and>
       list_all (holds_now pe s (cm_sub c)) (ep_required e) \<and> within_reach (m_role mb) e \<and>
       (m_role mb = DELIVERY \<longrightarrow> ep_handler e \<in> set courier_handlers))"
    using member_reach [OF inv guard False] store courier_handlers_only [OF e(1)]
    by (cases "params ''storeId''") (auto simp: route_of_def)
  show ?thesis
    using e c mine away reach named store by (cases "ro_store (route_of e params)") auto
qed

text \<open>
  Ann lets her clerk Bob see the takings, and takes from him the customer list and the cash. The routes behind three
  requests of his:
\<close>

definition bookkeeper :: people where
  "bookkeeper = staff_run 5 (Set_Overrides ''s1'' ''m2'' [ReportsSales] [CustomersRead, PaymentsCollectCash] ''u1'') small_team"

definition cash_endpoint :: endpoint where
  "cash_endpoint = asks [OrdersManage] POST ''api/v1/stores/:storeId/orders/:orderId/payment/cash'' ''OrdersController.collectCash''"

definition export_endpoint :: endpoint where
  "export_endpoint = asks [ReportsSales] GET ''api/v1/stores/:storeId/reports/export/:kind.csv'' ''ReportsController.exportCsv''"

definition customers_endpoint :: endpoint where
  "customers_endpoint = asks [CustomersRead] GET ''api/v1/stores/:storeId/reports/customers'' ''ReportsController.customers''"

definition bound_in :: "(endpoint \<times> (string \<rightharpoonup> string)) option \<Rightarrow> string \<Rightarrow> (endpoint \<times> string option) option" where
  "bound_in r n = map_option (\<lambda>(e, params). (e, params n)) r"

lemma sample_urls:
  "bound_in (first_match endpoints POST ''api/v1/stores/s1/orders/o1/payment/cash'') ''storeId'' = Some (cash_endpoint, Some ''s1'') \<and>
   bound_in (first_match endpoints GET ''api/v1/stores/s1/reports/export/customers.csv'') ''storeId'' = Some (export_endpoint, Some ''s1'') \<and>
   bound_in (first_match endpoints GET ''api/v1/stores/s1/reports/customers'') ''storeId'' = Some (customers_endpoint, Some ''s1'') \<and>
   bound_in (first_match endpoints GET ''api/v1/stores/s1/deliveries/mine'') ''orderId'' =
     Some (asks [DeliveryReadOwn] GET ''api/v1/stores/:storeId/deliveries/mine'' ''DeliveryController.mine'', None)"
  by code_simp

lemma bookkeeper_may:
  "effectiveFor ''u2'' ''s1'' bookkeeper \<inter> {OrdersManage, ReportsSales, CustomersRead, PaymentsCollectCash} =
     {OrdersManage, ReportsSales}"
  by code_simp

lemma serve_bound:
  assumes "bound_in (find_route m url) ''storeId'' = Some (e, s)"
  shows "serve find_route tc cf now uuid m url rq pe =
    Some (mapE (Pair e) (guarded tc cf now uuid \<lparr>ro_public = ep_public e, ro_required = ep_required e, ro_store = s\<rparr> rq pe))"
  using assms by (auto simp: bound_in_def serve_def route_of_def)

lemma bob_verified: "verifyAccessToken bob_keys sample_config 5 ''bob'' = Inr bob_claims"
  by (simp add: verifyAccessToken_def jwtVerify_def bob_keys_def bob_body_def blank_body_def sample_config_def bob_claims_def)

lemma bob_enters:
  assumes "p \<in> effectiveFor ''u2'' ''s1'' pe" and "\<not> isPlatformPermission p"
  shows "\<exists>cx. guarded bob_keys sample_config 5 ''x'' \<lparr>ro_public = False, ro_required = [p], ro_store = Some ''s1''\<rparr> bob_request pe =
    Inr (Some bob_claims, cx)"
  by (rule holders_get_in) (use assms bob_verified in \<open>auto simp: bob_request_def extractToken_def bob_claims_def\<close>)

lemma bob_refused:
  assumes "p \<notin> effectiveFor ''u2'' ''s1'' pe"
  shows "\<exists>e. guarded bob_keys sample_config 5 ''x'' \<lparr>ro_public = False, ro_required = [p], ro_store = Some ''s1''\<rparr> bob_request pe = Inl e"
proof (rule ccontr)
  assume "\<not> ?thesis"
  then obtain auth cx where "guarded bob_keys sample_config 5 ''x'' \<lparr>ro_public = False, ro_required = [p], ro_store = Some ''s1''\<rparr> bob_request pe =
      Inr (auth, cx)"
    by (metis sum.exhaust surj_pair)
  from guarded_in [OF this] have "auth = Some bob_claims" and perms: "permissions_guard \<lparr>ro_public = False, ro_required = [p], ro_store = Some ''s1''\<rparr> auth pe = Inr ()"
    using bob_verified by (auto simp: jwt_guard_def bob_request_def extractToken_def)
  then show False
    using permissions_in [OF perms [unfolded \<open>auth = Some bob_claims\<close>], of p] assms by (simp add: bob_claims_def)
qed

theorem served_within_role_witness:
  "\<exists>auth cx. serve (first_match endpoints) bob_keys sample_config 5 ''x'' POST ''api/v1/stores/s1/orders/o1/payment/cash'' bob_request
      bookkeeper = Some (Inr (cash_endpoint, auth, cx)) \<and> rx_store cx = Some ''s1'' \<and> cash_endpoint \<in> set endpoints"
proof -
  have inv: "team_inv small_team"
    by (simp add: small_team_def village_def staff_member_def team_inv_def within_role_def)
  have steps: "staff_steps small_team bookkeeper" unfolding bookkeeper_def by (intro staff_steps.intros)
  have "OrdersManage \<in> effectiveFor ''u2'' ''s1'' bookkeeper" using bookkeeper_may by blast
  then obtain cx where entered: "guarded bob_keys sample_config 5 ''x'' \<lparr>ro_public = False, ro_required = [OrdersManage],
      ro_store = Some ''s1''\<rparr> bob_request bookkeeper = Inr (Some bob_claims, cx)"
    using bob_enters [of OrdersManage] by auto
  have "serve (first_match endpoints) bob_keys sample_config 5 ''x'' POST ''api/v1/stores/s1/orders/o1/payment/cash'' bob_request bookkeeper =
      Some (Inr (cash_endpoint, Some bob_claims, cx))"
    using serve_bound [of "first_match endpoints" POST, OF conjunct1 [OF sample_urls]] entered by (simp add: cash_endpoint_def asks_def mapE_def)
  from served_within_role [OF table.routing_axioms steps inv this] this
  show ?thesis
    using guarded_caller [OF entered] by (simp add: cash_endpoint_def asks_def)
qed

text \<open>
  Cash is taken, and the customer list leaves the shop, by a clerk from whom the permission to take cash and the
  permission to see the customers were taken; the list on the screen is refused to him.
\<close>

lemma denied_and_done:
  "(\<exists>auth cx. serve (first_match endpoints) bob_keys sample_config 5 ''x'' POST ''api/v1/stores/s1/orders/o1/payment/cash''
      bob_request bookkeeper = Some (Inr (cash_endpoint, auth, cx))) \<and>
   (\<exists>auth cx. serve (first_match endpoints) bob_keys sample_config 5 ''x'' GET ''api/v1/stores/s1/reports/export/customers.csv''
      bob_request bookkeeper = Some (Inr (export_endpoint, auth, cx))) \<and>
   (\<exists>e. serve (first_match endpoints) bob_keys sample_config 5 ''x'' GET ''api/v1/stores/s1/reports/customers''
      bob_request bookkeeper = Some (Inl e)) \<and>
   PaymentsCollectCash \<notin> effectiveFor ''u2'' ''s1'' bookkeeper"
proof -
  note may = bookkeeper_may
  have "OrdersManage \<in> effectiveFor ''u2'' ''s1'' bookkeeper" and "ReportsSales \<in> effectiveFor ''u2'' ''s1'' bookkeeper"
    and "CustomersRead \<notin> effectiveFor ''u2'' ''s1'' bookkeeper" and "PaymentsCollectCash \<notin> effectiveFor ''u2'' ''s1'' bookkeeper"
    using may by blast+
  then show ?thesis
    using bob_enters [of OrdersManage bookkeeper] bob_enters [of ReportsSales bookkeeper] bob_refused [of CustomersRead bookkeeper]
      serve_bound [of "first_match endpoints" POST, OF conjunct1 [OF sample_urls]] serve_bound [of "first_match endpoints" GET, OF conjunct1 [OF conjunct2 [OF sample_urls]]]
      serve_bound [of "first_match endpoints" GET, OF conjunct1 [OF conjunct2 [OF conjunct2 [OF sample_urls]]]]
    by (auto simp: cash_endpoint_def export_endpoint_def customers_endpoint_def asks_def mapE_def)
qed

text \<open>Platform staff get to every route of every store.\<close>

lemma platform_staff_operate:
  assumes "extractToken rq = Some token" and "token \<noteq> []" and "verifyAccessToken tc cf now token = Inr c" and "cm_super c"
    and "find_route m url = Some (e, params)" and "params ''storeId'' \<noteq> None" and "params ''storeId'' \<noteq> Some []"
  shows "\<exists>cx. serve find_route tc cf now uuid m url rq pe = Some (Inr (e, Some c, cx))"
  using assms
  by (auto simp: serve_def guarded_def jwt_guard_def store_scope_guard_def permissions_guard_def mapE_def guardE_def
      route_of_def Let_def)

end
