(* ===== verification/LowStock.thy ===== *)
theory LowStock
  imports Inventory Notifications SessionProps Cart
begin

text \<open>
  \<open>LowStockAlerts\<close> (\<open>modules/inventory/low-stock-alerts.service.ts\<close>): the daily list of what has run
  down, written into the inbox of those who order stock.  Identifiers of the inbox rows are supplied;
  the dash and the dots of the text are written in ASCII.
\<close>

definition MAX_LINES_SHOWN :: nat where
  "MAX_LINES_SHOWN = 25"

section \<open>Which stores, and whom to tell\<close>

definition low_level :: "stock_level \<Rightarrow> bool" where
  "low_level l \<longleftrightarrow>
     sl_tracked l \<and> (case sl_reorder_point l of None \<Rightarrow> False | Some p \<Rightarrow> sl_on_hand l - sl_reserved l \<le> p)"

definition open_store :: "string \<Rightarrow> world \<Rightarrow> bool" where
  "open_store storeId w \<longleftrightarrow> (\<exists>s \<in> set (w_stores w). s_id s = storeId \<and> s_status s = ACTIVE)"

definition low_levels :: "world \<Rightarrow> stock_level list" where
  "low_levels w =
     filter (\<lambda>l. low_level l \<and> open_store (sl_store l) w)
       (concat (map (\<lambda>v. case w_levels w (va_id v) of None \<Rightarrow> [] | Some l \<Rightarrow> [l]) (w_variants w)))"

definition storesWithLowStock :: "world \<Rightarrow> string list" where
  "storesWithLowStock w = take 500 (remdups (map sl_store (low_levels w)))"

text \<open>The owner, then the members; \<open>UNION\<close> drops what is named twice.\<close>

definition recipientsFor :: "string \<Rightarrow> auth \<Rightarrow> world \<Rightarrow> (user \<times> string) list" where
  "recipientsFor storeId a w =
     remdups (concat (map (\<lambda>s.
         map (\<lambda>u. (u, s_name s))
           (filter (\<lambda>u. u_id u = s_owner s \<and> u_status u = U_ACTIVE) (a_users a)) @
         map (\<lambda>u. (u, s_name s))
           (filter (\<lambda>u. u_status u = U_ACTIVE \<and>
              (\<exists>m \<in> set (a_members a). m_user m = u_id u \<and> m_store m = storeId \<and> m_status m = MS_ACTIVE \<and>
                 m_role m \<in> {STORE_ADMIN, INVENTORY_MANAGER})) (a_users a)))
       (filter (\<lambda>s. s_id s = storeId) (w_stores w))))"

section \<open>What is said\<close>

definition subjectFor :: "string \<Rightarrow> nat \<Rightarrow> string" where
  "subjectFor storeName n =
     (if n = 1 then storeName @ '': 1 item needs reordering''
      else storeName @ '': '' @ show_nat n @ '' items need reordering'')"

fun join_by :: "string \<Rightarrow> string list \<Rightarrow> string" where
  "join_by sep [] = []"
| "join_by sep [x] = x"
| "join_by sep (x # y # xs) = x @ sep @ join_by sep (y # xs)"

definition describeAttrs :: "(string \<times> string) list \<Rightarrow> string" where
  "describeAttrs attrs = join_by '' / '' (filter (\<lambda>v. v \<noteq> []) (map snd attrs))"

definition stock_line :: "stock_row \<Rightarrow> string" where
  "stock_line r =
     (let sku = or_else (sr_sku r) [];
          label = join_by '' '' (filter (\<lambda>x. x \<noteq> [])
            [sr_name r, describeAttrs (sr_attrs r), if sku = [] then [] else ''('' @ sku @ '')'']);
          suggestion = (if or_else (sr_reorder_qty r) 0 = 0 then []
                        else '' - usually order '' @ show_int (or_else (sr_reorder_qty r) 0))
      in ''  '' @ label @ '': '' @ show_int (sr_available r) @ '' left, reorder at '' @
         show_int (or_else (sr_reorder_point r) 0) @ suggestion)"

definition bodyFor :: "string \<Rightarrow> stock_row list \<Rightarrow> string" where
  "bodyFor storeName low =
     (let shown = take MAX_LINES_SHOWN low;
          more = (if length shown < length low
                  then newline @ ''  ...and '' @ show_nat (length low - length shown) @ '' more.'' @ newline else [])
      in ''At or below the level you set for reordering at '' @ storeName @ '':'' @ newline @ newline @
         join_by newline (map stock_line shown) @ newline @ more @ newline @
         ''Counts include stock already promised to orders that haven't been '' @
         ''collected, so these are what you can actually sell.'' @ newline)"

section \<open>The sweep\<close>

definition low_stock_notice :: "(string \<Rightarrow> string \<Rightarrow> string) \<Rightarrow> string \<Rightarrow> stock_row list \<Rightarrow> user \<times> string \<Rightarrow> inbox_item" where
  "low_stock_notice newId storeId low x =
     (case x of (u, storeName) \<Rightarrow>
        \<lparr>nb_id = newId storeId (u_id u), nb_user = u_id u, nb_store = Some storeId, nb_event = ''inventory.low_stock'',
         nb_title = subjectFor storeName (length low), nb_body = bodyFor storeName low,
         nb_link = Some (''/store/'' @ storeId @ ''/ops/inventory?low=1''), nb_read = None\<rparr>)"

fun tell_recipients :: "(string \<Rightarrow> string \<Rightarrow> string) \<Rightarrow> string \<Rightarrow> stock_row list \<Rightarrow> (user \<times> string) list \<Rightarrow> world \<Rightarrow> world" where
  "tell_recipients newId storeId low [] w = w"
| "tell_recipients newId storeId low (x # xs) w =
     tell_recipients newId storeId low xs (deliver (low_stock_notice newId storeId low x) w)"

fun alert_stores ::
    "(string \<Rightarrow> string \<Rightarrow> string) \<Rightarrow> (stock_row \<Rightarrow> nat) \<Rightarrow> auth \<Rightarrow> string list \<Rightarrow> nat \<Rightarrow> world \<Rightarrow> nat \<times> world" where
  "alert_stores newId collation a [] notified w = (notified, w)"
| "alert_stores newId collation a (storeId # ss) notified w =
     (let low = lowStock collation storeId w; recipients = recipientsFor storeId a w
      in if low = [] \<or> recipients = [] then alert_stores newId collation a ss notified w
         else alert_stores newId collation a ss (notified + 1) (tell_recipients newId storeId low recipients w))"

definition low_stock_run ::
    "(string \<Rightarrow> string \<Rightarrow> string) \<Rightarrow> (stock_row \<Rightarrow> nat) \<Rightarrow> auth \<Rightarrow> world \<Rightarrow> nat \<times> world" where
  "low_stock_run newId collation a w = alert_stores newId collation a (storesWithLowStock w) 0 w"

section \<open>Who hears what\<close>

definition notices_of :: "(string \<Rightarrow> string \<Rightarrow> string) \<Rightarrow> (stock_row \<Rightarrow> nat) \<Rightarrow> auth \<Rightarrow> world \<Rightarrow> string \<Rightarrow> inbox_item list" where
  "notices_of newId collation a w storeId =
     (let low = lowStock collation storeId w
      in if low = [] then [] else map (low_stock_notice newId storeId low) (recipientsFor storeId a w))"

lemma tell_inbox: "tell_recipients newId s low xs w = w\<lparr>w_inbox := w_inbox w @ map (low_stock_notice newId s low) xs\<rparr>"
  by (induction xs arbitrary: w) (simp_all add: deliver_def)

lemma reads_not_inbox [simp]:
  "lowStock collation s (w\<lparr>w_inbox := x\<rparr>) = lowStock collation s w"
  "recipientsFor s a (w\<lparr>w_inbox := x\<rparr>) = recipientsFor s a w"
  by (simp_all add: lowStock_def list_stock_def stock_row_of_def on_hand_def reserved_def tracked_def recipientsFor_def
      cong: map_cong)

lemma alert_inbox:
  "alert_stores newId collation a ss n w =
     (n + length (filter (\<lambda>s. notices_of newId collation a w s \<noteq> []) ss),
      w\<lparr>w_inbox := w_inbox w @ concat (map (notices_of newId collation a w) ss)\<rparr>)"
proof (induction ss arbitrary: n w)
  case (Cons s ss)
  have same: "notices_of newId collation a (w\<lparr>w_inbox := x\<rparr>) = notices_of newId collation a w" for x
    by (rule ext) (simp add: notices_of_def Let_def)
  show ?case
    by (auto simp: Let_def Cons.IH tell_inbox same) (auto simp: notices_of_def Let_def split: if_splits)
qed simp

lemma notice_fields [simp]:
  "nb_user (low_stock_notice newId s low (u, n)) = u_id u" "nb_store (low_stock_notice newId s low x) = Some s"
  by (simp_all add: low_stock_notice_def split: prod.split)

lemma recipient_iff:
  assumes "distinct (map s_id (w_stores w))"
  shows "(u, n) \<in> set (recipientsFor s a w) \<longleftrightarrow>
    (\<exists>st \<in> set (w_stores w). s_id st = s \<and> n = s_name st \<and> u \<in> set (a_users a) \<and> u_status u = U_ACTIVE \<and>
      (u_id u = s_owner st \<or> (\<exists>m \<in> set (a_members a). m_user m = u_id u \<and> m_store m = s \<and> m_status m = MS_ACTIVE \<and>
         m_role m \<in> {STORE_ADMIN, INVENTORY_MANAGER})))"
  by (auto simp: recipientsFor_def)

lemma recipients_distinct:
  assumes "distinct (map s_id (w_stores w))" and "distinct (map u_id (a_users a))"
  shows "distinct (map (u_id \<circ> fst) (recipientsFor s a w))"
proof -
  have "x = y" if rec: "x \<in> set (recipientsFor s a w)" "y \<in> set (recipientsFor s a w)" "u_id (fst x) = u_id (fst y)" for x y
  proof -
    obtain u n v k where xy: "x = (u, n)" "y = (v, k)" by (metis surj_pair)
    have "u = v"
      using rec assms(2) distinct_map_eq [of u_id "a_users a" u v] unfolding xy recipient_iff [OF assms(1)] by auto
    moreover have "n = k"
    proof -
      obtain st st' where st: "st \<in> set (w_stores w)" "s_id st = s" "n = s_name st" "st' \<in> set (w_stores w)" "s_id st' = s" "k = s_name st'"
        using rec(1,2) unfolding xy recipient_iff [OF assms(1)] by blast
      then have "st = st'" using distinct_map_eq [OF assms(1), of st st'] by simp
      then show ?thesis using st by simp
    qed
    ultimately show ?thesis by (simp add: xy)
  qed
  moreover have "distinct (recipientsFor s a w)" by (simp add: recipientsFor_def)
  ultimately show ?thesis unfolding distinct_map inj_on_def comp_def by blast
qed

text \<open>
  After the daily run the inbox has grown by one notice for each person and store such that the store is open,
  has something low that is still on sale and is among the first five hundred, and the person
  is its owner or orders its stock; nobody is told twice and nothing else has changed.
\<close>

theorem digest_reaches_each_once:
  assumes "distinct (map s_id (w_stores w))" and "distinct (map u_id (a_users a))"
    and "low_stock_run newId collation a w = (n, w')"
  shows "\<exists>new. w_inbox w' = w_inbox w @ new \<and> off_inbox w' = off_inbox w \<and>
    distinct (map (\<lambda>x. (nb_user x, nb_store x)) new) \<and>
    (\<forall>u s. (\<exists>x \<in> set new. nb_user x = u \<and> nb_store x = Some s) \<longleftrightarrow>
       s \<in> set (storesWithLowStock w) \<and> lowStock collation s w \<noteq> [] \<and> (\<exists>y \<in> set (recipientsFor s a w). u_id (fst y) = u))"
proof -
  let ?new = "concat (map (notices_of newId collation a w) (storesWithLowStock w))"
  let ?who = "\<lambda>x. (nb_user x, nb_store x)"
  have w': "w' = w\<lparr>w_inbox := w_inbox w @ ?new\<rparr>"
    using assms(3) by (simp add: low_stock_run_def alert_inbox)
  have one: "map ?who (notices_of newId collation a w s) =
      (if lowStock collation s w = [] then [] else map (\<lambda>y. (u_id (fst y), Some s)) (recipientsFor s a w))" for s
    by (auto simp: notices_of_def Let_def)
  have each: "distinct (map ?who (notices_of newId collation a w s))" for s
    using recipients_distinct [OF assms(1,2), of s] unfolding one by (auto simp: distinct_map inj_on_def)
  have store: "snd p = Some s" if "p \<in> set (map ?who (notices_of newId collation a w s))" for p s
    using that unfolding one by (auto split: if_splits)
  have "distinct (concat (map (\<lambda>s. map ?who (notices_of newId collation a w s)) ss))" if "distinct ss" for ss
    using that
  proof (induction ss)
    case (Cons s ss)
    have "set (map ?who (notices_of newId collation a w s)) \<inter> (\<Union>t \<in> set ss. set (map ?who (notices_of newId collation a w t))) = {}"
      using store Cons.prems by (metis (no_types, lifting) UN_E disjoint_iff distinct.simps(2) option.inject)
    then show ?case using Cons each [of s] by simp
  qed simp
  moreover have "distinct (storesWithLowStock w)" by (simp add: storesWithLowStock_def distinct_take)
  ultimately have "distinct (map ?who ?new)" by (simp add: map_concat comp_def)
  moreover have told: "(\<exists>x \<in> set (notices_of newId collation a w t). nb_user x = u \<and> nb_store x = Some s) \<longleftrightarrow>
      s = t \<and> lowStock collation t w \<noteq> [] \<and> (\<exists>y \<in> set (recipientsFor t a w). u_id (fst y) = u)" for u s t
  proof -
    have "(\<exists>x \<in> set (notices_of newId collation a w t). nb_user x = u \<and> nb_store x = Some s) \<longleftrightarrow>
        (u, Some s) \<in> set (map ?who (notices_of newId collation a w t))"
      by auto
    also have "... \<longleftrightarrow> s = t \<and> lowStock collation t w \<noteq> [] \<and> u \<in> (\<lambda>y. u_id (fst y)) ` set (recipientsFor t a w)"
      unfolding one by auto
    finally show ?thesis by (simp add: image_iff eq_commute)
  qed
  moreover have "(\<exists>x \<in> set ?new. nb_user x = u \<and> nb_store x = Some s) \<longleftrightarrow>
       s \<in> set (storesWithLowStock w) \<and> lowStock collation s w \<noteq> [] \<and> (\<exists>y \<in> set (recipientsFor s a w). u_id (fst y) = u)" for u s
    using told [of _ u s] by auto
  ultimately show ?thesis unfolding w' by (intro exI [of _ ?new]) (simp add: off_inbox_def)
qed

text \<open>An example: one open shop with two bags of tea left, its owner, and a manager of its stock.\<close>

definition low_shop :: world where
  "low_shop = empty_world\<lparr>
     w_variants := [\<lparr>va_id = ''v1'', va_store = ''s1'', va_product = ''p1'', va_name = ''Tea'', va_status = P_ACTIVE,
        va_product_deleted = False, va_price = 500, va_attrs = [(''size'', ''Large'')], va_sku = Some ''T-1'',
        va_barcode = None, va_default = True, va_active = True, va_deleted = False\<rparr>],
     w_levels := [''v1'' \<mapsto> \<lparr>sl_store = ''s1'', sl_on_hand = 3, sl_reserved = 1, sl_tracked = True,
        sl_reorder_point = Some 2, sl_reorder_qty = Some 10\<rparr>],
     w_stores := [sample_store ACTIVE],
     w_prefs := [\<lparr>np_user = ''u1'', np_store = None, np_event = ''inventory.low_stock'', np_channel = ''IN_APP'',
        np_enabled = False\<rparr>]\<rparr>"

definition shop_people :: auth where
  "shop_people = (sample_auth None)\<lparr>a_users := a_users (sample_auth None) @
       [\<lparr>u_id = ''u2'', u_email = ''bob@example.test'', u_name = ''Bob'', u_hash = None, u_status = U_ACTIVE, u_super = False,
         u_deleted = False, u_last_login = None, u_totp = None, u_mfa_at = None, u_verified = None\<rparr>],
     a_members := [\<lparr>m_id = ''m2'', m_store = ''s1'', m_user = ''u2'', m_role = INVENTORY_MANAGER, m_status = MS_ACTIVE,
       m_invited_by = None, m_accepted = None\<rparr>]\<rparr>"

lemma low_shop_rows:
  "lowStock (\<lambda>_. 0) ''s1'' low_shop = map (stock_row_of low_shop) (w_variants low_shop)"
  "storesWithLowStock low_shop = [''s1'']"
  "map (u_id \<circ> fst) (recipientsFor ''s1'' shop_people low_shop) = [''u1'', ''u2'']"
  by (simp_all add: lowStock_def list_stock_def stock_row_of_def is_low_def low_shop_def empty_world_def on_hand_def reserved_def
      tracked_def storesWithLowStock_def low_levels_def low_level_def open_store_def sample_store_def recipientsFor_def
      shop_people_def sample_auth_def)

lemma low_shop_inbox: "w_inbox low_shop = []"
  and low_shop_variants: "w_variants low_shop \<noteq> []"
  by (simp_all add: low_shop_def empty_world_def)

theorem digest_reaches_each_once_witness:
  "\<exists>n w'. low_stock_run (\<lambda>s u. u) (\<lambda>_. 0) shop_people low_shop = (n, w') \<and>
     (\<exists>x \<in> set (w_inbox w'). nb_user x = ''u2'' \<and> nb_store x = Some ''s1'')"
proof -
  obtain n w' where run: "low_stock_run (\<lambda>s u. u) (\<lambda>_. 0) shop_people low_shop = (n, w')" by (meson surj_pair)
  have "distinct (map s_id (w_stores low_shop))" "distinct (map u_id (a_users shop_people))"
    by (simp_all add: low_shop_def shop_people_def sample_auth_def)
  then obtain new where new: "w_inbox w' = w_inbox low_shop @ new"
    "\<And>u s. (\<exists>x \<in> set new. nb_user x = u \<and> nb_store x = Some s) \<longleftrightarrow> s \<in> set (storesWithLowStock low_shop) \<and>
       lowStock (\<lambda>_. 0) s low_shop \<noteq> [] \<and> (\<exists>y \<in> set (recipientsFor s shop_people low_shop). u_id (fst y) = u)"
    using digest_reaches_each_once [OF _ _ run] by blast
  have "''u2'' \<in> set (map (u_id \<circ> fst) (recipientsFor ''s1'' shop_people low_shop))"
    unfolding low_shop_rows by simp
  then have "\<exists>y \<in> set (recipientsFor ''s1'' shop_people low_shop). u_id (fst y) = ''u2''"
    unfolding set_map comp_def by (elim imageE) (metis (no_types))
  moreover have "lowStock (\<lambda>_. 0) ''s1'' low_shop \<noteq> []" by (simp add: low_shop_rows) (simp add: low_shop_def)
  ultimately have "\<exists>x \<in> set new. nb_user x = ''u2'' \<and> nb_store x = Some ''s1''"
    using new(2) [of "''u2''" "''s1''"] by (simp add: low_shop_rows(2))
  then show ?thesis using run new(1) by auto
qed

text \<open>Whoever has switched these notices off is sent them all the same.\<close>

lemma switched_off_and_told:
  "\<not> wants (Some ''u1'') ''s1'' ''inventory.low_stock'' ''IN_APP'' low_shop"
  "''u1'' \<in> nb_user ` set (w_inbox (snd (low_stock_run (\<lambda>s u. u) (\<lambda>_. 0) shop_people low_shop)))"
proof -
  show "\<not> wants (Some ''u1'') ''s1'' ''inventory.low_stock'' ''IN_APP'' low_shop"
    by (simp add: wants_def transactional_def low_shop_def)
  have "map nb_user (w_inbox (snd (low_stock_run (\<lambda>s u. u) (\<lambda>_. 0) shop_people low_shop))) =
      map (u_id \<circ> fst) (recipientsFor ''s1'' shop_people low_shop)"
    by (simp add: low_stock_run_def low_shop_rows alert_inbox notices_of_def Let_def split_def low_stock_notice_def
        low_shop_inbox low_shop_variants comp_def)
  then have "map nb_user (w_inbox (snd (low_stock_run (\<lambda>s u. u) (\<lambda>_. 0) shop_people low_shop))) = [''u1'', ''u2'']"
    by (simp only: low_shop_rows)
  then show "''u1'' \<in> nb_user ` set (w_inbox (snd (low_stock_run (\<lambda>s u. u) (\<lambda>_. 0) shop_people low_shop)))"
    unfolding set_map [symmetric] by simp
qed

end
