(* ===== verification/Stripe.thy ===== *)
theory Stripe
  imports PaymentProps Billing Webhooks
begin

text \<open>
  \<open>StripePaymentProvider\<close> (\<open>infra/payments/stripe.provider.ts\<close>): what is sent to the payment company and how
  its answers are read.  The company itself is a record of functions from the fields of a request, under an
  idempotency key where one is sent, to its answer.
\<close>

section \<open>The company's interface\<close>

type_synonym fields = "(string \<times> string) list"

datatype 'a stripe_answer = StripeFailed | Stripe 'a

record stripe_account =
  sa_id :: string
  sa_charges :: "bool option"
  sa_payouts :: "bool option"
  sa_details :: "bool option"
  sa_requirements :: "(string list option \<times> string list option \<times> string option) option"

record stripe_intent =
  si_id :: string
  si_secret :: "string option"
  si_status :: string

record stripe_refund =
  sf_id :: string
  sf_status :: "string option"
  sf_amount :: int

record stripe_subscription =
  su_id :: string
  su_status :: string
  su_trial_end :: "int option"
  su_item_end :: "int option"
  su_period_end :: "int option"

record stripe_event =
  se_id :: string
  se_type :: string
  se_account :: "string option"
  se_created :: int

record stripe =
  sx_create_account :: "fields \<Rightarrow> string stripe_answer"
  sx_account_link :: "fields \<Rightarrow> (string \<times> int) stripe_answer"
  sx_account :: "string \<Rightarrow> stripe_account stripe_answer"
  sx_intent :: "fields \<Rightarrow> string \<Rightarrow> stripe_intent stripe_answer"
  sx_refund :: "fields \<Rightarrow> string \<Rightarrow> stripe_refund stripe_answer"
  sx_customer :: "fields \<Rightarrow> string stripe_answer"
  sx_subscription :: "fields \<Rightarrow> string \<Rightarrow> stripe_subscription stripe_answer"
  sx_portal :: "fields \<Rightarrow> string stripe_answer"
  sx_event :: "string \<Rightarrow> string \<Rightarrow> string \<Rightarrow> stripe_event stripe_answer"

definition stripe_call :: "'a stripe_answer \<Rightarrow> 'a res" where
  "stripe_call r = (case r of StripeFailed \<Rightarrow> Inl (ProviderError ''stripe'') | Stripe x \<Rightarrow> Inr x)"

definition truthy :: "string option \<Rightarrow> string option" where
  "truthy v = (if v = Some [] then None else v)"

definition optional_field :: "string \<Rightarrow> string option \<Rightarrow> fields" where
  "optional_field k v = (case v of None \<Rightarrow> [] | Some x \<Rightarrow> [(k, x)])"

section \<open>Connecting an account\<close>

record onboarding_request =
  ob_store :: string
  ob_email :: string
  ob_return :: string
  ob_refresh :: string
  ob_existing :: "string option"
  ob_country :: "string option"

definition createExpressAccount :: "stripe \<Rightarrow> onboarding_request \<Rightarrow> string res" where
  "createExpressAccount sx q =
     stripe_call (sx_create_account sx
       [(''type'', ''express''), (''email'', ob_email q), (''country'', or_else (ob_country q) ''US''),
        (''capabilities[card_payments][requested]'', ''true''), (''capabilities[transfers][requested]'', ''true''),
        (''business_type'', ''individual''), (''metadata[storeId]'', ob_store q)])"

text \<open>The account, the address and when it expires.\<close>

definition createOnboardingLink :: "stripe \<Rightarrow> onboarding_request \<Rightarrow> (string \<times> string \<times> int) res" where
  "createOnboardingLink sx q =
     bindE (case ob_existing q of None \<Rightarrow> createExpressAccount sx q | Some a \<Rightarrow> Inr a) (\<lambda>accountId.
       mapE (\<lambda>(url, expires). (accountId, url, expires * 1000))
         (stripe_call (sx_account_link sx
           [(''account'', accountId), (''refresh_url'', ob_refresh q), (''return_url'', ob_return q),
            (''type'', ''account_onboarding'')])))"

definition getAccountStatus :: "stripe \<Rightarrow> string \<Rightarrow> account_status res" where
  "getAccountStatus sx accountId =
     mapE (\<lambda>a.
         let (due, past, disabled) = or_else (sa_requirements a) (None, None, None)
         in \<lparr>as_account = sa_id a, as_charges = or_else (sa_charges a) False, as_payouts = or_else (sa_payouts a) False,
             as_details = or_else (sa_details a) False, as_requirements = or_else due [] @ or_else past [],
             as_disabled = disabled\<rparr>)
       (stripe_call (sx_account sx accountId))"

section \<open>Charges and refunds\<close>

definition intent_fields :: "intent_request \<Rightarrow> fields" where
  "intent_fields q =
     [(''amount'', show_int (iq_amount q)), (''currency'', map lower_char (iq_currency q)),
      (''automatic_payment_methods[enabled]'', ''true''), (''transfer_data[destination]'', iq_destination q),
      (''statement_descriptor_suffix'', take 22 (iq_number q))] @
     optional_field ''receipt_email'' (iq_email q) @
     [(''metadata[storeId]'', iq_store q), (''metadata[orderId]'', iq_order q), (''metadata[orderNumber]'', iq_number q)]"

definition createIntent :: "stripe \<Rightarrow> intent_request \<Rightarrow> intent res" where
  "createIntent sx q =
     (if iq_amount q \<le> 0 then Inl (Validation ''A payment must be for more than zero.'')
      else bindE (stripe_call (sx_intent sx (intent_fields q) (iq_key q))) (\<lambda>i.
        if or_else (si_secret i) [] = [] then Inl (Internal ''Stripe did not return a client secret.'')
        else Inr \<lparr>in_id = si_id i, in_secret = or_else (si_secret i) []\<rparr>))"

definition refund_fields :: "refund_request \<Rightarrow> fields" where
  "refund_fields q =
     [(''payment_intent'', rq_intent q), (''amount'', show_int (rq_amount q))] @
     optional_field ''reason'' (truthy (rq_reason q)) @
     [(''refund_application_fee'', ''false''), (''reverse_transfer'', ''true'')]"

text \<open>The identifier, the status and the amount.\<close>

definition stripe_refund_of :: "stripe \<Rightarrow> refund_request \<Rightarrow> (string \<times> string \<times> int) res" where
  "stripe_refund_of sx q =
     mapE (\<lambda>r. (sf_id r, or_else (sf_status r) ''unknown'', sf_amount r))
       (stripe_call (sx_refund sx (refund_fields q) (rq_key q)))"

section \<open>Billing\<close>

definition ensureBillingCustomer :: "stripe \<Rightarrow> customer_request \<Rightarrow> string res" where
  "ensureBillingCustomer sx q =
     (case truthy (cq_existing q) of
        Some c \<Rightarrow> Inr c
      | None \<Rightarrow> stripe_call (sx_customer sx
          [(''email'', cq_email q), (''name'', cq_name q), (''metadata[storeId]'', cq_store q)]))"

definition currentPeriodEnd :: "stripe_subscription \<Rightarrow> int option" where
  "currentPeriodEnd s =
     (let seconds = (case su_item_end s of Some t \<Rightarrow> Some t | None \<Rightarrow> su_period_end s)
      in if or_else seconds 0 = 0 then None else Some (or_else seconds 0 * 1000))"

definition createSubscription :: "stripe \<Rightarrow> subscription_request \<Rightarrow> company_subscription res" where
  "createSubscription sx q =
     mapE (\<lambda>s. \<lparr>cx_id = su_id s, cx_status = su_status s,
         cx_trial_ends = (if or_else (su_trial_end s) 0 = 0 then None else Some (or_else (su_trial_end s) 0 * 1000)),
         cx_period_end = currentPeriodEnd s\<rparr>)
       (stripe_call (sx_subscription sx
         [(''customer'', sq_customer q), (''items[0][price]'', sq_price q), (''trial_period_days'', show_int (sq_trial_days q)),
          (''trial_settings[end_behavior][missing_payment_method]'', ''pause''),
          (''collection_method'', ''charge_automatically''), (''payment_behavior'', ''default_incomplete''),
          (''payment_settings[save_default_payment_method]'', ''on_subscription''), (''metadata[storeId]'', sq_store q)]
         (sq_key q)))"

definition createBillingPortalSession :: "stripe \<Rightarrow> string \<Rightarrow> string \<Rightarrow> string res" where
  "createBillingPortalSession sx customerId returnUrl =
     stripe_call (sx_portal sx [(''customer'', customerId), (''return_url'', returnUrl)])"

text \<open>The signature is checked over the raw body; what the event is about is read by the handlers.\<close>

definition parseWebhook :: "stripe \<Rightarrow> string \<Rightarrow> string \<Rightarrow> string \<Rightarrow> stripe_event res" where
  "parseWebhook sx webhookSecret rawBody signature =
     (case sx_event sx rawBody signature webhookSecret of
        StripeFailed \<Rightarrow> Inl (Forbidden ''Invalid webhook signature.'')
      | Stripe e \<Rightarrow> Inr (e\<lparr>se_created := se_created e * 1000\<rparr>))"

section \<open>A card payment as the company sees it\<close>

lemma createIntent_sent:
  assumes "createIntent sx q = Inr i"
  shows "0 < iq_amount q \<and> (\<exists>a. sx_intent sx (intent_fields q) (iq_key q) = Stripe a \<and> in_id i = si_id a \<and>
    si_secret a = Some (in_secret i) \<and> in_secret i \<noteq> [])"
  using assms
  by (auto simp: createIntent_def stripe_call_def split: if_splits stripe_answer.splits) (auto simp: or_else_def split: option.splits)

text \<open>Every charge goes to the account it names, for the amount it names, and none carries a platform fee.\<close>

lemma intent_fields_right:
  "map_of (intent_fields q) ''transfer_data[destination]'' = Some (iq_destination q)"
  "map_of (intent_fields q) ''amount'' = Some (show_int (iq_amount q))"
  "''application_fee_amount'' \<notin> fst ` set (intent_fields q)"
  by (auto simp: intent_fields_def optional_field_def split: option.splits)

text \<open>
  A card payment that succeeds has asked the company for a charge of the order's total, to the
  account connected by the order's own store, under the caller's key and without a fee for the platform.
\<close>

theorem card_money_goes_to_the_shop:
  assumes "createCardPayment (createIntent sx) newId storeId orderId key caller w = (Inr (i, cents), w')"
  shows "\<exists>o1 st account fs a. find_order storeId orderId w = Some o1 \<and> o_status o1 = PENDING \<and>
    find_store storeId w = Some st \<and> s_account st = Some account \<and> s_charges st \<and> cents = o_total o1 \<and> 0 < cents \<and>
    sx_intent sx fs key = Stripe a \<and> si_id a = in_id i \<and>
    map_of fs ''transfer_data[destination]'' = Some account \<and> map_of fs ''amount'' = Some (show_int cents) \<and>
    ''application_fee_amount'' \<notin> fst ` set fs"
proof -
  obtain o1 st account where found: "find_order storeId orderId w = Some o1" "o_status o1 = PENDING"
      "find_store storeId w = Some st" "s_account st = Some account" "s_charges st"
    and sent: "createIntent sx (intent_request_of o1 account key) = Inr i" and "cents = o_total o1"
    using assms by (auto simp: createCardPayment_def notFound_def split: if_splits option.splits sum.splits)
  define q where "q = intent_request_of o1 account key"
  have q: "iq_amount q = o_total o1" "iq_destination q = account" "iq_key q = key"
    by (simp_all add: q_def intent_request_of_def)
  obtain a where "sx_intent sx (intent_fields q) key = Stripe a" "in_id i = si_id a" "0 < o_total o1"
    using createIntent_sent [OF sent] q by (auto simp: q_def [symmetric])
  then show ?thesis
    using found \<open>cents = o_total o1\<close> intent_fields_right [of q] q
    by (intro exI [of _ o1] exI [of _ st] exI [of _ account] exI [of _ "intent_fields q"] exI [of _ a]) simp
qed

text \<open>The connected account a refund is for reaches the company in no field of the request.\<close>

lemma refund_account_unused:
  "refund_fields (q\<lparr>rq_account := a\<rparr>) = refund_fields q"
  by (simp add: refund_fields_def)

lemma refund_reverses:
  "map_of (refund_fields q) ''reverse_transfer'' = Some ''true'' \<and>
   map_of (refund_fields q) ''amount'' = Some (show_int (rq_amount q)) \<and>
   map_of (refund_fields q) ''payment_intent'' = Some (rq_intent q)"
  by (auto simp: refund_fields_def optional_field_def split: option.splits)

definition sample_stripe :: stripe where
  "sample_stripe =
     \<lparr>sx_create_account = (\<lambda>_. Stripe ''acct_9''), sx_account_link = (\<lambda>_. Stripe (''https://connect.test'', 60)),
      sx_account = (\<lambda>a. Stripe \<lparr>sa_id = a, sa_charges = Some True, sa_payouts = None, sa_details = None, sa_requirements = None\<rparr>),
      sx_intent = (\<lambda>fs k. Stripe \<lparr>si_id = ''pi_'' @ k, si_secret = Some ''cs_1'', si_status = ''requires_payment_method''\<rparr>),
      sx_refund = (\<lambda>fs k. Stripe \<lparr>sf_id = ''re_'' @ k, sf_status = None, sf_amount = 0\<rparr>), sx_customer = (\<lambda>_. StripeFailed),
      sx_subscription = (\<lambda>_ _. StripeFailed), sx_portal = (\<lambda>_. StripeFailed), sx_event = (\<lambda>_ _ _. StripeFailed)\<rparr>"

definition sample_unpaid :: world where
  "sample_unpaid = (sample_queue PENDING [])\<lparr>
     w_stores := [(sample_store ACTIVE)\<lparr>s_account := Some ''acct_1'', s_charges := True\<rparr>]\<rparr>"

theorem card_money_goes_to_the_shop_witness:
  "\<exists>i cents w' fs. createCardPayment (createIntent sample_stripe) ''p1'' ''s1'' ''o1'' ''k1''
      \<lparr>ca_user_id = None, ca_token = None, ca_staff = True\<rparr> sample_unpaid = (Inr (i, cents), w') \<and>
    map_of fs ''transfer_data[destination]'' = Some ''acct_1'' \<and> map_of fs ''amount'' = Some (show_int cents)"
proof -
  have "okE (fst (createCardPayment (createIntent sample_stripe) ''p1'' ''s1'' ''o1'' ''k1''
      \<lparr>ca_user_id = None, ca_token = None, ca_staff = True\<rparr> sample_unpaid))"
    by code_simp
  then obtain r w' where run: "createCardPayment (createIntent sample_stripe) ''p1'' ''s1'' ''o1'' ''k1''
      \<lparr>ca_user_id = None, ca_token = None, ca_staff = True\<rparr> sample_unpaid = (Inr r, w')"
    by (rule okE_fstE)
  obtain i cents where r: "r = (i, cents)" by (cases r)
  have "find_store ''s1'' sample_unpaid = Some ((sample_store ACTIVE)\<lparr>s_account := Some ''acct_1'', s_charges := True\<rparr>)"
    by (simp add: find_store_def sample_unpaid_def sample_store_def)
  then show ?thesis
    using card_money_goes_to_the_shop [OF run [unfolded r]] run r by auto
qed

end
