(* ===== verification/TailSampler.thy ===== *)
theory TailSampler
  imports Prelude Complex_Main
begin

text \<open>
  Which traces are kept: \<open>TailSampler\<close> (\<open>infra/observability/tail-sampler.ts\<close>) and the decision it shares
  with the web server (\<open>packages/shared/src/trace-sampling.ts\<close>).  The buffer is a map in the order of
  insertion; what was forwarded downstream is a list of spans.
\<close>

section \<open>The baseline sample\<close>

definition hex_value :: "char \<Rightarrow> nat option" where
  "hex_value c =
     (let n = (of_char c :: nat)
      in if 48 \<le> n \<and> n \<le> 57 then Some (n - 48)
         else if 65 \<le> n \<and> n \<le> 70 then Some (n - 55)
         else if 97 \<le> n \<and> n \<le> 102 then Some (n - 87) else None)"

text \<open>\<open>Number.parseInt\<close> in base 16: spaces and a sign in front, perhaps \<open>0x\<close>, then the digits there are.\<close>

fun hex_digits :: "int \<Rightarrow> string \<Rightarrow> int" where
  "hex_digits acc [] = acc"
| "hex_digits acc (c # cs) = (case hex_value c of None \<Rightarrow> acc | Some d \<Rightarrow> hex_digits (16 * acc + int d) cs)"

definition strip_0x :: "string \<Rightarrow> string" where
  "strip_0x s = (if take 2 s = ''0x'' \<or> take 2 s = ''0X'' then drop 2 s else s)"

definition parse_hex :: "string \<Rightarrow> int option" where
  "parse_hex s =
     (let t = dropWhile is_space s;
          negative = (take 1 t = ''-'');
          digits = strip_0x (if take 1 t = ''-'' \<or> take 1 t = ''+'' then drop 1 t else t)
      in case digits of
           [] \<Rightarrow> None
         | c # _ \<Rightarrow> if hex_value c = None then None
                    else Some (if negative then - hex_digits 0 digits else hex_digits 0 digits))"

text \<open>\<open>slice(-8)\<close>\<close>

definition last_chars :: "nat \<Rightarrow> 'a list \<Rightarrow> 'a list" where
  "last_chars n s = drop (length s - n) s"

definition sampledByTraceId :: "string \<Rightarrow> real \<Rightarrow> bool" where
  "sampledByTraceId traceId ratio =
     (if 1 \<le> ratio then True
      else if ratio \<le> 0 then False
      else (case parse_hex (last_chars 8 traceId) of
          None \<Rightarrow> False
        | Some v \<Rightarrow> real_of_int v / 4294967295 < ratio))"

section \<open>The sampler\<close>

record span =
  sp_trace :: string
  sp_server :: bool
  sp_error :: bool
  sp_seconds :: int
  sp_nanos :: int

record sampler_options =
  so_ratio :: real
  so_slow :: real
  so_max :: int

record sampler =
  sm_buffers :: "(string \<times> span list) list"
  sm_buffered :: int
  sm_sent :: "span list"

definition durationMs :: "span \<Rightarrow> real" where
  "durationMs s = real_of_int (sp_seconds s) * 1000 + real_of_int (sp_nanos s) / 1000000"

definition held :: "string \<Rightarrow> sampler \<Rightarrow> span list" where
  "held t sm = or_else (map_of (sm_buffers sm) t) []"

text \<open>\<open>Map.set\<close> keeps the place of a key that is there.\<close>

fun map_set :: "'k \<Rightarrow> 'v \<Rightarrow> ('k \<times> 'v) list \<Rightarrow> ('k \<times> 'v) list" where
  "map_set k v [] = [(k, v)]"
| "map_set k v ((k', v') # m) = (if k' = k then (k, v) # m else (k', v') # map_set k v m)"

definition map_delete :: "'k \<Rightarrow> ('k \<times> 'v) list \<Rightarrow> ('k \<times> 'v) list" where
  "map_delete k m = filter (\<lambda>(k', _). k' \<noteq> k) m"

definition keep_trace :: "sampler_options \<Rightarrow> span list \<Rightarrow> string \<Rightarrow> bool" where
  "keep_trace so spans t =
     (if \<exists>s \<in> set spans. sp_error s then True
      else if (case find sp_server spans of None \<Rightarrow> False | Some s \<Rightarrow> so_slow so \<le> durationMs s) then True
      else sampledByTraceId t (so_ratio so))"

definition release :: "sampler_options \<Rightarrow> string \<Rightarrow> sampler \<Rightarrow> sampler" where
  "release so t sm =
     (case map_of (sm_buffers sm) t of
        None \<Rightarrow> sm
      | Some spans \<Rightarrow>
          sm\<lparr>sm_buffers := map_delete t (sm_buffers sm), sm_buffered := sm_buffered sm - int (length spans),
             sm_sent := (if keep_trace so spans t then sm_sent sm @ spans else sm_sent sm)\<rparr>)"

definition evictOldest :: "sampler \<Rightarrow> sampler" where
  "evictOldest sm =
     (case sm_buffers sm of
        [] \<Rightarrow> sm
      | (t, spans) # rest \<Rightarrow> sm\<lparr>sm_buffers := rest, sm_buffered := sm_buffered sm - int (length spans)\<rparr>)"

definition onEnd :: "sampler_options \<Rightarrow> span \<Rightarrow> sampler \<Rightarrow> sampler" where
  "onEnd so s sm =
     (let t = sp_trace s;
          sm1 = sm\<lparr>sm_buffers := map_set t (held t sm @ [s]) (sm_buffers sm), sm_buffered := sm_buffered sm + 1\<rparr>
      in if sp_server s then release so t sm1
         else if so_max so < sm_buffered sm1 then evictOldest sm1 else sm1)"

definition forceFlush :: "sampler \<Rightarrow> sampler" where
  "forceFlush sm = sm\<lparr>sm_buffers := [], sm_buffered := 0\<rparr>"

definition no_spans :: sampler where
  "no_spans = \<lparr>sm_buffers = [], sm_buffered = 0, sm_sent = []\<rparr>"

section \<open>What the buffer holds\<close>

definition buffer_ok :: "sampler \<Rightarrow> bool" where
  "buffer_ok sm \<longleftrightarrow> distinct (map fst (sm_buffers sm)) \<and>
     sm_buffered sm = (\<Sum>(t, spans) \<leftarrow> sm_buffers sm. int (length spans)) \<and>
     (\<forall>(t, spans) \<in> set (sm_buffers sm). spans \<noteq> [] \<and> (\<forall>s \<in> set spans. sp_trace s = t))"

lemma map_set_keys: "fst ` set (map_set k v m) = insert k (fst ` set m)"
proof (induction m)
  case (Cons p m)
  then show ?case by (cases p) (simp add: insert_commute)
qed simp

lemma map_set_distinct: "distinct (map fst m) \<Longrightarrow> distinct (map fst (map_set k v m))"
proof (induction m)
  case (Cons p m)
  obtain k' v' where "p = (k', v')" by (cases p)
  then show ?case using Cons map_set_keys [of k v m] by (auto simp: image_iff)
qed simp

lemma map_set_sum:
  "distinct (map fst m) \<Longrightarrow> (\<Sum>(t, xs) \<leftarrow> map_set k (or_else (map_of m k) [] @ [s]) m. int (length xs)) =
     (\<Sum>(t, xs) \<leftarrow> m. int (length xs)) + 1"
proof (induction m)
  case (Cons p m)
  obtain k' v' where p: "p = (k', v')" by (cases p)
  show ?case using Cons by (cases "k' = k") (auto simp: p)
qed simp

lemma map_set_entries: "p \<in> set (map_set k v m) \<Longrightarrow> p = (k, v) \<or> p \<in> set m"
  by (induction m) (auto split: if_splits)

lemma map_of_set: "map_of (map_set k v m) = (map_of m)(k \<mapsto> v)"
  by (induction m) auto

lemma map_delete_sum:
  "distinct (map fst m) \<Longrightarrow> map_of m k = Some v \<Longrightarrow>
     (\<Sum>(t, xs) \<leftarrow> map_delete k m. int (length xs)) = (\<Sum>(t, xs) \<leftarrow> m. int (length xs)) - int (length v)"
proof (induction m)
  case (Cons p m)
  obtain k' v' where p: "p = (k', v')" by (cases p)
  show ?case
  proof (cases "k' = k")
    case True
    then have "map_delete k m = m" using Cons.prems(1) by (force simp: p map_delete_def intro: filter_True)
    then show ?thesis using True Cons.prems(2) by (simp add: p) (simp add: map_delete_def)
  next
    case False
    then show ?thesis using Cons by (simp add: p map_delete_def)
  qed
qed simp

lemma map_delete_distinct: "distinct (map fst m) \<Longrightarrow> distinct (map fst (map_delete k m))"
  by (simp add: map_delete_def distinct_map_filter)

lemma map_of_delete: "map_of (map_delete k m) = (map_of m)(k := None)"
  by (induction m) (auto simp: map_delete_def)

lemma held_ok: "buffer_ok sm \<Longrightarrow> s \<in> set (held t sm) \<Longrightarrow> sp_trace s = t"
  by (cases "map_of (sm_buffers sm) t") (auto simp: held_def buffer_ok_def dest!: map_of_SomeD)

lemma buffer_ok_add:
  assumes "buffer_ok sm"
  shows "buffer_ok (sm\<lparr>sm_buffers := map_set (sp_trace s) (held (sp_trace s) sm @ [s]) (sm_buffers sm),
    sm_buffered := sm_buffered sm + 1\<rparr>)"
proof -
  let ?m = "map_set (sp_trace s) (held (sp_trace s) sm @ [s]) (sm_buffers sm)"
  have "spans \<noteq> [] \<and> (\<forall>x \<in> set spans. sp_trace x = t)" if "(t, spans) \<in> set ?m" for t spans
    using map_set_entries [OF that] held_ok [OF assms] assms by (auto simp: buffer_ok_def)
  then have "\<forall>(t, spans) \<in> set ?m. spans \<noteq> [] \<and> (\<forall>x \<in> set spans. sp_trace x = t)" by blast
  moreover have "distinct (map fst ?m)" "(\<Sum>(t, xs) \<leftarrow> ?m. int (length xs)) = sm_buffered sm + 1"
    using assms map_set_sum [of "sm_buffers sm" "sp_trace s" s] by (simp_all add: buffer_ok_def map_set_distinct held_def)
  ultimately show ?thesis by (simp add: buffer_ok_def)
qed

lemma buffer_ok_release: "buffer_ok sm \<Longrightarrow> buffer_ok (release so t sm)"
  by (auto simp: release_def buffer_ok_def map_delete_distinct map_delete_sum split: option.splits)
    (auto simp: map_delete_def)

lemma buffer_ok_evict: "buffer_ok sm \<Longrightarrow> buffer_ok (evictOldest sm)"
  by (auto simp: evictOldest_def buffer_ok_def split: list.splits)

lemma buffer_ok_end: "buffer_ok sm \<Longrightarrow> buffer_ok (onEnd so s sm)"
  using buffer_ok_add [of sm s] by (auto simp: onEnd_def Let_def buffer_ok_release buffer_ok_evict)

definition sampler_run :: "sampler_options \<Rightarrow> span list \<Rightarrow> sampler" where
  "sampler_run so spans = fold (onEnd so) spans no_spans"

lemma sampler_run_snoc: "sampler_run so (spans @ [s]) = onEnd so s (sampler_run so spans)"
  by (simp add: sampler_run_def)

lemma buffer_ok_run: "buffer_ok (sampler_run so spans)"
proof (induction spans rule: rev_induct)
  case Nil
  then show ?case by (simp add: sampler_run_def no_spans_def buffer_ok_def)
next
  case (snoc s spans)
  then show ?case by (simp add: sampler_run_snoc buffer_ok_end)
qed

lemma release_buffered:
  assumes "buffer_ok sm" and "map_of (sm_buffers sm) t \<noteq> None"
  shows "sm_buffered (release so t sm) < sm_buffered sm"
  using assms by (force simp: release_def buffer_ok_def dest: map_of_SomeD)

lemma evict_buffered:
  assumes "buffer_ok sm" and "sm_buffers sm \<noteq> []"
  shows "sm_buffered (evictOldest sm) < sm_buffered sm"
  using assms by (auto simp: evictOldest_def buffer_ok_def split: list.split)

lemma onEnd_buffered:
  assumes "buffer_ok sm" and "sm_buffered sm \<le> so_max so"
  shows "sm_buffered (onEnd so s sm) \<le> so_max so"
proof -
  define sm1 where "sm1 = sm\<lparr>sm_buffers := map_set (sp_trace s) (held (sp_trace s) sm @ [s]) (sm_buffers sm),
    sm_buffered := sm_buffered sm + 1\<rparr>"
  have ok: "buffer_ok sm1" unfolding sm1_def by (rule buffer_ok_add [OF assms(1)])
  have there: "map_of (sm_buffers sm1) (sp_trace s) \<noteq> None" by (simp add: sm1_def map_of_set)
  then have "sm_buffers sm1 \<noteq> []" by auto
  then show ?thesis
    using release_buffered [OF ok there, of so] evict_buffered [OF ok] assms(2)
    by (auto simp: onEnd_def Let_def sm1_def [symmetric]) (auto simp: sm1_def)
qed

lemma buffered_spans: "int (length (concat (map snd m))) = (\<Sum>(t, xs) \<leftarrow> m. int (length xs))"
  by (induction m) auto

text \<open>However many traces never finish, no more spans are held than the limit allows.\<close>

theorem sampler_bounded:
  assumes "0 \<le> so_max so"
  shows "int (length (concat (map snd (sm_buffers (sampler_run so spans))))) \<le> so_max so"
proof -
  have "sm_buffered (sampler_run so spans) \<le> so_max so"
  proof (induction spans rule: rev_induct)
    case Nil
    then show ?case using assms by (simp add: sampler_run_def no_spans_def)
  next
    case (snoc s spans)
    then show ?case by (simp add: sampler_run_snoc onEnd_buffered buffer_ok_run)
  qed
  moreover have "sm_buffered (sampler_run so spans) = int (length (concat (map snd (sm_buffers (sampler_run so spans)))))"
    using buffer_ok_run [of so spans] by (simp add: buffer_ok_def buffered_spans)
  ultimately show ?thesis by simp
qed

section \<open>Whole traces\<close>

definition of_trace :: "string \<Rightarrow> span list \<Rightarrow> span list" where
  "of_trace t = filter (\<lambda>s. sp_trace s = t)"

lemma of_trace_simps [simp]:
  "of_trace t [] = []" "of_trace t (xs @ ys) = of_trace t xs @ of_trace t ys"
  "of_trace t [s] = (if sp_trace s = t then [s] else [])"
  by (simp_all add: of_trace_def)

lemma held_release: "held t (release so u sm) = (if t = u then [] else held t sm)"
  by (auto simp: release_def held_def map_of_delete split: option.split)

lemma sent_release:
  "buffer_ok sm \<Longrightarrow> of_trace t (sm_sent (release so u sm)) =
     of_trace t (sm_sent sm) @ (if t = u \<and> held t sm \<noteq> [] \<and> keep_trace so (held t sm) t then held t sm else [])"
  using held_ok [of sm _ u]
  by (auto simp: release_def held_def of_trace_def filter_id_conv filter_empty_conv split: option.split)

text \<open>While no more spans have ended than may be held, nothing is evicted.\<close>

lemma held_so_far:
  assumes "int (length spans) \<le> so_max so"
  shows "sm_buffered (sampler_run so spans) \<le> int (length spans) \<and>
    (\<forall>t. (\<forall>s \<in> set spans. sp_trace s = t \<longrightarrow> \<not> sp_server s) \<longrightarrow>
       held t (sampler_run so spans) = of_trace t spans \<and> of_trace t (sm_sent (sampler_run so spans)) = [])"
  using assms
proof (induction spans rule: rev_induct)
  case Nil
  then show ?case by (simp add: sampler_run_def no_spans_def held_def)
next
  case (snoc s spans)
  let ?sm = "sampler_run so spans"
  define sm1 where "sm1 = ?sm\<lparr>sm_buffers := map_set (sp_trace s) (held (sp_trace s) ?sm @ [s]) (sm_buffers ?sm),
    sm_buffered := sm_buffered ?sm + 1\<rparr>"
  have ok: "buffer_ok sm1" unfolding sm1_def by (rule buffer_ok_add [OF buffer_ok_run])
  have IH: "sm_buffered ?sm \<le> int (length spans)"
    "\<And>t. \<forall>s \<in> set spans. sp_trace s = t \<longrightarrow> \<not> sp_server s \<Longrightarrow> held t ?sm = of_trace t spans \<and> of_trace t (sm_sent ?sm) = []"
    using snoc by auto
  have room: "sm_buffered sm1 \<le> so_max so" using IH(1) snoc.prems by (simp add: sm1_def)
  have next_run: "sampler_run so (spans @ [s]) = (if sp_server s then release so (sp_trace s) sm1 else sm1)"
    using room by (simp add: sampler_run_snoc onEnd_def Let_def sm1_def [symmetric])
  have held1: "held t sm1 = held t ?sm @ (if sp_trace s = t then [s] else [])" for t
    by (simp add: sm1_def held_def map_of_set)
  have "sm_buffered (sampler_run so (spans @ [s])) \<le> int (length (spans @ [s]))"
  proof (cases "sp_server s")
    case True
    have "map_of (sm_buffers sm1) (sp_trace s) \<noteq> None" by (simp add: sm1_def map_of_set)
    then show ?thesis using release_buffered [OF ok, of "sp_trace s" so] IH(1) True by (simp add: next_run) (simp add: sm1_def)
  next
    case False
    then show ?thesis using IH(1) by (simp add: next_run sm1_def)
  qed
  moreover have "held t (sampler_run so (spans @ [s])) = of_trace t (spans @ [s]) \<and>
      of_trace t (sm_sent (sampler_run so (spans @ [s]))) = []"
    if quiet: "\<forall>x \<in> set (spans @ [s]). sp_trace x = t \<longrightarrow> \<not> sp_server x" for t
    using IH(2) [of t] quiet held1 [of t] sent_release [OF ok, of t so "sp_trace s"]
    by (auto simp: next_run held_release) (auto simp: sm1_def)
  ultimately show ?case by blast
qed

text \<open>
  When a request ends that failed anywhere or took too long, all spans of its trace are forwarded, in
  order and together, as long as no more spans have ended than may be held.
\<close>

theorem failing_traces_kept_whole:
  assumes "int (length spans) < so_max so" and "sp_server s"
    and "\<forall>x \<in> set spans. sp_trace x = sp_trace s \<longrightarrow> \<not> sp_server x"
    and "(\<exists>x \<in> set (of_trace (sp_trace s) (spans @ [s])). sp_error x) \<or> so_slow so \<le> durationMs s"
  shows "of_trace (sp_trace s) (sm_sent (sampler_run so (spans @ [s]))) = of_trace (sp_trace s) (spans @ [s])"
proof -
  let ?sm = "sampler_run so spans"
  define sm1 where "sm1 = ?sm\<lparr>sm_buffers := map_set (sp_trace s) (held (sp_trace s) ?sm @ [s]) (sm_buffers ?sm),
    sm_buffered := sm_buffered ?sm + 1\<rparr>"
  have ok: "buffer_ok sm1" unfolding sm1_def by (rule buffer_ok_add [OF buffer_ok_run])
  have so_far: "held (sp_trace s) ?sm = of_trace (sp_trace s) spans" "of_trace (sp_trace s) (sm_sent ?sm) = []"
    using held_so_far [of spans so] assms(1,3) by auto
  have held1: "held (sp_trace s) sm1 = of_trace (sp_trace s) spans @ [s]"
    by (simp add: sm1_def held_def map_of_set) (use so_far(1) in \<open>simp add: held_def\<close>)
  have "find sp_server (of_trace (sp_trace s) spans @ [s]) = Some s"
    using assms(2,3) by (auto simp: find_app of_trace_def find_None_iff split: option.split dest: findD)
  then have "keep_trace so (held (sp_trace s) sm1) (sp_trace s)"
    using assms(4) by (auto simp: keep_trace_def held1)
  then have "of_trace (sp_trace s) (sm_sent (release so (sp_trace s) sm1)) = of_trace (sp_trace s) spans @ [s]"
    using sent_release [OF ok, of "sp_trace s" so "sp_trace s"] so_far(2) by (simp add: held1) (simp add: sm1_def)
  then show ?thesis
    using assms(2) by (simp add: sampler_run_snoc onEnd_def Let_def sm1_def [symmetric])
qed

text \<open>A larger ratio keeps whatever a smaller one kept.\<close>

lemma sampled_mono: "sampledByTraceId t r \<Longrightarrow> r \<le> r' \<Longrightarrow> sampledByTraceId t r'"
  by (auto simp: sampledByTraceId_def split: if_splits option.splits)

text \<open>An example: a query that fails in one trace while another ends.\<close>

definition sample_span :: "string \<Rightarrow> bool \<Rightarrow> bool \<Rightarrow> span" where
  "sample_span t server err = \<lparr>sp_trace = t, sp_server = server, sp_error = err, sp_seconds = 0, sp_nanos = 0\<rparr>"

definition sample_options :: "int \<Rightarrow> sampler_options" where
  "sample_options n = \<lparr>so_ratio = 0, so_slow = 1000, so_max = n\<rparr>"

theorem failing_traces_kept_whole_witness:
  "of_trace ''a'' (sm_sent (sampler_run (sample_options 9)
     ([sample_span ''a'' False True, sample_span ''b'' True False] @ [sample_span ''a'' True False]))) =
   [sample_span ''a'' False True, sample_span ''a'' True False]"
  using failing_traces_kept_whole [of "[sample_span ''a'' False True, sample_span ''b'' True False]" "sample_options 9"
      "sample_span ''a'' True False"]
  by (simp add: sample_options_def of_trace_def) (simp add: sample_span_def)

text \<open>
  The limit evicts the trace that began first even while its request runs: what ends later is taken for a trace of
  its own and forwarded, with the query that failed missing.
\<close>

lemma evicted_trace_has_holes:
  "sm_sent (sampler_run (sample_options 2)
     [sample_span ''a'' False True, sample_span ''b'' False False, sample_span ''a'' False False,
      sample_span ''a'' True True]) = [sample_span ''a'' True True]"
  by (simp add: sampler_run_def onEnd_def no_spans_def held_def sample_span_def sample_options_def evictOldest_def release_def
      keep_trace_def map_delete_def Let_def)

end
