(* ===== verification/Lease.thy ===== *)
theory Lease
  imports Schema
begin

text \<open>
  The worker's timetable: the lease every exclusive job is claimed with
  (\<open>worker/job-lease.service.ts\<close>) and the tick of \<open>worker/scheduler.ts\<close>.  Every worker keeps its own
  timers; a beat is one worker waking up for one job at some time of the database's clock.
\<close>

record scheduled_job =
  sj_name :: string
  sj_every :: int
  sj_exclusive :: bool

definition SCHEDULED_JOBS :: "scheduled_job list" where
  "SCHEDULED_JOBS =
     [\<lparr>sj_name = ''outbox-relay'', sj_every = 1000, sj_exclusive = False\<rparr>,
      \<lparr>sj_name = ''order-expiry'', sj_every = 60000, sj_exclusive = False\<rparr>,
      \<lparr>sj_name = ''billing-grace-period'', sj_every = 3600000, sj_exclusive = True\<rparr>,
      \<lparr>sj_name = ''billing-dunning'', sj_every = 3600000, sj_exclusive = True\<rparr>,
      \<lparr>sj_name = ''inventory-low-stock'', sj_every = 86400000, sj_exclusive = True\<rparr>,
      \<lparr>sj_name = ''sales-rollup'', sj_every = 900000, sj_exclusive = True\<rparr>,
      \<lparr>sj_name = ''dead-letter-check'', sj_every = 300000, sj_exclusive = True\<rparr>]"

text \<open>\<open>Math.floor(everyMs * 0.9)\<close>\<close>

definition claimWindow :: "int \<Rightarrow> int" where
  "claimWindow everyMs = everyMs * 9 div 10"

text \<open>One statement: the insert, or the update under its guard; a row comes back when it wrote.\<close>

definition claim :: "string \<Rightarrow> int \<Rightarrow> int \<Rightarrow> string \<Rightarrow> world \<Rightarrow> bool \<times> world" where
  "claim jobName claimAfterMs now owner w =
     (case find (\<lambda>r. jr_job r = jobName) (w_runs w) of
        None \<Rightarrow> (True, w\<lparr>w_runs := w_runs w @ [\<lparr>jr_job = jobName, jr_at = now, jr_owner = owner\<rparr>]\<rparr>)
      | Some r \<Rightarrow>
          if jr_at r < now - claimAfterMs
          then (True, w\<lparr>w_runs := update_where (\<lambda>r. jr_job r = jobName)
                  (\<lambda>r. r\<lparr>jr_at := now, jr_owner := owner\<rparr>) (w_runs w)\<rparr>)
          else (False, w))"

datatype tick_result = Skipped | Ran string | Failed app_error

text \<open>A pass that throws is logged and keeps what it had committed; the schedule goes on.\<close>

definition tick ::
    "(int \<Rightarrow> world \<Rightarrow> string outcome) \<Rightarrow> scheduled_job \<Rightarrow> int \<Rightarrow> string \<Rightarrow> world \<Rightarrow> tick_result \<times> world" where
  "tick work job now owner w =
     (let (granted, w1) = (if sj_exclusive job
                           then claim (sj_name job) (claimWindow (sj_every job)) now owner w else (True, w))
      in if \<not> granted then (Skipped, w1)
         else case work now w1 of (Inl e, w2) \<Rightarrow> (Failed e, w2) | (Inr s, w2) \<Rightarrow> (Ran s, w2))"

text \<open>The beats of every worker for one job, and the times at which the job ran.\<close>

fun passes ::
    "(int \<Rightarrow> world \<Rightarrow> string outcome) \<Rightarrow> scheduled_job \<Rightarrow> (int \<times> string) list \<Rightarrow> world \<Rightarrow> int list \<times> world" where
  "passes work job [] w = ([], w)"
| "passes work job (b # beats) w =
     (case tick work job (fst b) (snd b) w of (r, w1) \<Rightarrow>
        case passes work job beats w1 of (ts, w2) \<Rightarrow>
          (if r = Skipped then ts else fst b # ts, w2))"

section \<open>One pass at a time\<close>

definition last_run :: "string \<Rightarrow> world \<Rightarrow> int option" where
  "last_run job w = map_option jr_at (find (\<lambda>r. jr_job r = job) (w_runs w))"

lemma find_set_run:
  "find (\<lambda>r. jr_job r = j) (update_where (\<lambda>r. jr_job r = k) (\<lambda>r. r\<lparr>jr_at := t, jr_owner := ow\<rparr>) rows) =
   (if j = k then map_option (\<lambda>r. r\<lparr>jr_at := t, jr_owner := ow\<rparr>) (find (\<lambda>r. jr_job r = j) rows)
    else find (\<lambda>r. jr_job r = j) rows)"
  by (induction rows) auto

lemma claim_granted:
  "fst (claim j wait now ow w) \<longleftrightarrow> (case last_run j w of None \<Rightarrow> True | Some t \<Rightarrow> t + wait < now)"
  by (auto simp: claim_def last_run_def split: option.split)

lemma claim_last_run:
  "last_run k (snd (claim j wait now ow w)) =
     (if k = j \<and> fst (claim j wait now ow w) then Some now else last_run k w)"
  by (auto simp: claim_def last_run_def find_app find_set_run split: option.splits)

definition keeps_runs :: "(int \<Rightarrow> world \<Rightarrow> string outcome) \<Rightarrow> bool" where
  "keeps_runs work = (\<forall>now w. w_runs (snd (work now w)) = w_runs w)"

lemma tick_exclusive:
  assumes "sj_exclusive job" and "keeps_runs work"
  shows "fst (tick work job now ow w) = Skipped \<longleftrightarrow>
      \<not> fst (claim (sj_name job) (claimWindow (sj_every job)) now ow w)"
    and "last_run k (snd (tick work job now ow w)) =
      last_run k (snd (claim (sj_name job) (claimWindow (sj_every job)) now ow w))"
proof -
  obtain g w1 where c: "claim (sj_name job) (claimWindow (sj_every job)) now ow w = (g, w1)"
    by (metis surj_pair)
  obtain r w2 where wk: "work now w1 = (r, w2)" by (metis surj_pair)
  have "w_runs w2 = w_runs w1" using assms(2) wk unfolding keeps_runs_def by (metis snd_conv)
  then show "fst (tick work job now ow w) = Skipped \<longleftrightarrow>
      \<not> fst (claim (sj_name job) (claimWindow (sj_every job)) now ow w)"
    and "last_run k (snd (tick work job now ow w)) =
      last_run k (snd (claim (sj_name job) (claimWindow (sj_every job)) now ow w))"
    using assms(1) c wk by (auto simp: tick_def last_run_def split: sum.split)
qed

text \<open>What one beat does, seen through the job's last run.\<close>

lemma tick_effect:
  assumes "sj_exclusive job" and "keeps_runs work" and "tick work job now ow w = (r, w')"
  defines "W \<equiv> claimWindow (sj_every job)"
  shows "(r = Skipped \<longrightarrow> last_run (sj_name job) w' = last_run (sj_name job) w \<and>
            (\<exists>t. last_run (sj_name job) w = Some t \<and> now \<le> t + W)) \<and>
         (r \<noteq> Skipped \<longrightarrow> last_run (sj_name job) w' = Some now \<and>
            (\<forall>t. last_run (sj_name job) w = Some t \<longrightarrow> t + W < now)) \<and>
         (\<forall>k. k \<noteq> sj_name job \<longrightarrow> last_run k w' = last_run k w)"
  using tick_exclusive(1) [OF assms(1,2), where now = now and ow = ow and w = w]
    tick_exclusive(2) [OF assms(1,2), where now = now and ow = ow and w = w] assms(3)
  by (auto simp: claim_granted claim_last_run W_def split: option.splits if_splits)

definition apart :: "int \<Rightarrow> int list \<Rightarrow> bool" where
  "apart gap ts = sorted_wrt (\<lambda>a b. a + gap < b) ts"

lemma apart_after:
  assumes "apart W ts" and "0 \<le> W" and "\<forall>t \<in> set ts. p + W < t"
  shows "apart W (p # ts)"
  using assms by (simp add: apart_def)

lemma passes_from:
  assumes "sj_exclusive job" and "keeps_runs work" and "0 \<le> sj_every job"
  defines "W \<equiv> claimWindow (sj_every job)"
  shows "apart W (fst (passes work job beats w)) \<and>
    (\<forall>p. last_run (sj_name job) w = Some p \<longrightarrow> (\<forall>t \<in> set (fst (passes work job beats w)). p + W < t)) \<and>
    (\<forall>b \<in> set beats. \<exists>t. (t \<in> set (fst (passes work job beats w)) \<or> last_run (sj_name job) w = Some t) \<and>
       fst b \<le> t + W)"
proof (induction beats arbitrary: w)
  case Nil
  then show ?case by (simp add: apart_def)
next
  case (Cons b beats)
  have W0: "0 \<le> W" using assms(3) by (simp add: W_def claimWindow_def)
  obtain r w1 where t: "tick work job (fst b) (snd b) w = (r, w1)" by (metis surj_pair)
  note eff = tick_effect [OF assms(1,2) t, folded W_def]
  note IH = Cons.IH [of w1]
  have p: "fst (passes work job (b # beats) w) =
      (if r = Skipped then fst (passes work job beats w1) else fst b # fst (passes work job beats w1))"
    by (simp add: t split: prod.split)
  show ?case
  proof (cases "r = Skipped")
    case True
    then show ?thesis using eff IH p by auto
  next
    case False
    then have l: "last_run (sj_name job) w1 = Some (fst b)"
      and old: "\<forall>t. last_run (sj_name job) w = Some t \<longrightarrow> t + W < fst b" using eff by auto
    have after: "\<forall>t \<in> set (fst (passes work job beats w1)). fst b + W < t" using IH l by simp
    have ts: "fst (passes work job (b # beats) w) = fst b # fst (passes work job beats w1)"
      using p False by simp
    have A: "apart W (fst b # fst (passes work job beats w1))"
      by (rule apart_after) (use IH W0 after in auto)
    have B: "\<forall>t \<in> set (fst b # fst (passes work job beats w1)). q + W < t"
      if "last_run (sj_name job) w = Some q" for q
      using old that after W0 by fastforce
    have C: "\<exists>t. t \<in> set (fst b # fst (passes work job beats w1)) \<and> fst c \<le> t + W"
      if "c \<in> set (b # beats)" for c
      using that W0 IH l by (cases "c = b") force+
    show ?thesis unfolding ts using A B C by blast
  qed
qed

text \<open>
  C35. However many workers beat and in whatever order, an exclusive job runs at most once per
  claim window: any two passes are more than nine tenths of its interval apart.  And it is not
  starved: whenever a worker beats, the job has a pass, then or before or by another worker,
  whose window reaches that beat.
\<close>

theorem exclusive_passes_apart:
  assumes "job \<in> set SCHEDULED_JOBS" and "sj_exclusive job" and "keeps_runs work"
    and "last_run (sj_name job) w = None"
  shows "sorted_wrt (\<lambda>a b. a + claimWindow (sj_every job) < b) (fst (passes work job beats w)) \<and>
    (\<forall>b \<in> set beats. \<exists>t \<in> set (fst (passes work job beats w)). fst b \<le> t + claimWindow (sj_every job))"
proof -
  have "0 \<le> sj_every job" using assms(1) by (auto simp: SCHEDULED_JOBS_def)
  from passes_from [OF assms(2,3) this, of beats w] show ?thesis
    using assms(4) by (auto simp: apart_def)
qed

definition dunning_job :: scheduled_job where
  "dunning_job = \<lparr>sj_name = ''billing-dunning'', sj_every = 3600000, sj_exclusive = True\<rparr>"

definition two_workers :: "(int \<times> string) list" where
  "two_workers = [(0, ''a''), (5, ''b''), (3599990, ''b''), (3600000, ''a'')]"

theorem exclusive_passes_apart_witness:
  "fst (passes (\<lambda>_ w. (Inr '''', w)) dunning_job two_workers empty_world) = [0, 3599990] \<and>
   0 + claimWindow (sj_every dunning_job) < 3599990"
proof -
  have run: "fst (passes (\<lambda>_ w. (Inr '''', w)) dunning_job two_workers empty_world) = [0, 3599990]"
    by code_simp
  from exclusive_passes_apart [of dunning_job "\<lambda>_ w. (Inr '''', w)" empty_world two_workers]
  have "sorted_wrt (\<lambda>a b. a + claimWindow (sj_every dunning_job) < b)
      (fst (passes (\<lambda>_ w. (Inr '''', w)) dunning_job two_workers empty_world))"
    by (simp add: dunning_job_def SCHEDULED_JOBS_def keeps_runs_def last_run_def empty_world_def)
  then show ?thesis unfolding run by simp
qed

end
