(* ===== verification/Relay.thy ===== *)
theory Relay
  imports Schema
begin

text \<open>
  The relay half of the transactional outbox (\<open>worker/outbox-relay.ts\<close>).  Services append events
  with \<open>emitIn\<close>; here the table keeps the columns the relay works with.  Whether the broker takes
  an event is the environment's choice, a function of the event for each pass; the rows another
  worker has locked are the ones a pass skips.
\<close>

definition OUTBOX_MAX_ATTEMPTS :: nat where
  "OUTBOX_MAX_ATTEMPTS = 10"

definition BATCH_SIZE :: nat where
  "BATCH_SIZE = 100"

record outbox_row =
  ob_id :: nat
  ob_event :: outbox_event
  ob_published :: "int option"
  ob_attempts :: nat

text \<open>The identifiers are the key's sequence: the rows of the services' events, from some number on.\<close>

fun outbox_rows :: "nat \<Rightarrow> outbox_event list \<Rightarrow> outbox_row list" where
  "outbox_rows n [] = []"
| "outbox_rows n (ev # evs) =
     \<lparr>ob_id = n, ob_event = ev, ob_published = None, ob_attempts = 0\<rparr> # outbox_rows (Suc n) evs"

definition live :: "outbox_row \<Rightarrow> bool" where
  "live r = (ob_published r = None \<and> ob_attempts r < OUTBOX_MAX_ATTEMPTS)"

definition relay_batch :: "(nat \<Rightarrow> bool) \<Rightarrow> outbox_row list \<Rightarrow> outbox_row list" where
  "relay_batch locked rows =
     take BATCH_SIZE (sort_key ob_id (filter (\<lambda>r. live r \<and> \<not> locked (ob_id r)) rows))"

text \<open>One row of the batch; the second component is what went out on the channel.\<close>

definition relay_row ::
    "(outbox_row \<Rightarrow> bool) \<Rightarrow> int \<Rightarrow> outbox_row \<Rightarrow> outbox_row list \<times> outbox_row list \<Rightarrow>
     outbox_row list \<times> outbox_row list" where
  "relay_row accepts now row st =
     (case st of (rows, sent) \<Rightarrow>
        if accepts row
        then (update_where (\<lambda>r. ob_id r = ob_id row) (\<lambda>r. r\<lparr>ob_published := Some now\<rparr>) rows, sent @ [row])
        else (update_where (\<lambda>r. ob_id r = ob_id row) (\<lambda>r. r\<lparr>ob_attempts := ob_attempts r + 1\<rparr>) rows, sent))"

definition runOnce ::
    "(outbox_row \<Rightarrow> bool) \<Rightarrow> (nat \<Rightarrow> bool) \<Rightarrow> int \<Rightarrow> outbox_row list \<Rightarrow>
     nat \<times> outbox_row list \<times> outbox_row list" where
  "runOnce accepts locked now rows =
     (let batch = relay_batch locked rows in
      case fold (relay_row accepts now) batch (rows, []) of
        (rows', sent) \<Rightarrow> (count_where accepts batch, rows', sent))"

definition deadLettered :: "outbox_row list \<Rightarrow> nat" where
  "deadLettered rows =
     count_where (\<lambda>r. ob_published r = None \<and> OUTBOX_MAX_ATTEMPTS \<le> ob_attempts r) rows"

text \<open>One pass after another; \<open>broker\<close> and \<open>clock\<close> give each pass its weather and its time.\<close>

fun passes_of ::
    "(nat \<Rightarrow> outbox_row \<Rightarrow> bool) \<Rightarrow> (nat \<Rightarrow> int) \<Rightarrow> nat \<Rightarrow> outbox_row list \<Rightarrow>
     outbox_row list \<times> outbox_row list" where
  "passes_of broker clock 0 rows = (rows, [])"
| "passes_of broker clock (Suc n) rows =
     (case runOnce (broker n) (\<lambda>_. False) (clock n) rows of
        (_, rows1, sent) \<Rightarrow> (case passes_of broker clock n rows1 of (rows2, later) \<Rightarrow> (rows2, sent @ later)))"

section \<open>One pass\<close>

definition relayed :: "(outbox_row \<Rightarrow> bool) \<Rightarrow> int \<Rightarrow> outbox_row \<Rightarrow> outbox_row" where
  "relayed accepts now r =
     (if accepts r then r\<lparr>ob_published := Some now\<rparr> else r\<lparr>ob_attempts := ob_attempts r + 1\<rparr>)"

lemma relayed_id [simp]: "ob_id (relayed accepts now r) = ob_id r"
  by (simp add: relayed_def)

lemma relay_loop:
  assumes "distinct (map ob_id rows)" and "set batch \<subseteq> set rows" and "distinct (map ob_id batch)"
  shows "fold (relay_row accepts now) batch (rows, sent) =
    (map (\<lambda>r. if r \<in> set batch then relayed accepts now r else r) rows, sent @ filter accepts batch)"
  using assms
proof (induction batch rule: rev_induct)
  case Nil
  then show ?case by simp
next
  case (snoc b batch)
  let ?g = "\<lambda>r. if r \<in> set batch then relayed accepts now r else r"
  have b: "b \<in> set rows" "b \<notin> set batch" using snoc.prems by auto
  have IH: "fold (relay_row accepts now) batch (rows, sent) = (map ?g rows, sent @ filter accepts batch)"
    using snoc by simp
  have id: "ob_id (?g r) = ob_id r" for r by simp
  have key: "ob_id r = ob_id b \<longleftrightarrow> r = b" if "r \<in> set rows" for r
    using that b(1) distinct_map_eq [OF snoc.prems(1)] by blast
  have "update_where (\<lambda>r. ob_id r = ob_id b) f (map ?g rows) =
      map (\<lambda>r. if r = b then f r else ?g r) rows" for f
    using b(2) by (auto simp: update_where_def id key)
  then have "relay_row accepts now b (map ?g rows, sent @ filter accepts batch) =
      (map (\<lambda>r. if r = b then relayed accepts now r else ?g r) rows, sent @ filter accepts (batch @ [b]))"
    by (auto simp: relay_row_def relayed_def intro!: map_cong)
  moreover have "(\<lambda>r. if r = b then relayed accepts now r else ?g r) =
      (\<lambda>r. if r \<in> set (batch @ [b]) then relayed accepts now r else r)"
    by auto
  ultimately show ?case by (simp add: IH)
qed

lemma relay_batch_props:
  assumes "distinct (map ob_id rows)"
  shows "set (relay_batch locked rows) \<subseteq> {r \<in> set rows. live r \<and> \<not> locked (ob_id r)}"
    and "distinct (map ob_id (relay_batch locked rows))"
    and "sorted (map ob_id (relay_batch locked rows))"
proof -
  let ?f = "filter (\<lambda>r. live r \<and> \<not> locked (ob_id r)) rows"
  show "set (relay_batch locked rows) \<subseteq> {r \<in> set rows. live r \<and> \<not> locked (ob_id r)}"
    using set_take_subset [of BATCH_SIZE "sort_key ob_id ?f"] by (auto simp: relay_batch_def)
  have "distinct (map ob_id ?f)" using assms by (rule distinct_map_filter)
  then have "distinct (map ob_id (sort_key ob_id ?f))"
    by (simp add: distinct_map)
  then show "distinct (map ob_id (relay_batch locked rows))"
    by (simp add: relay_batch_def flip: take_map)
  have "sorted (map ob_id (sort_key ob_id ?f))" by (rule sorted_sort_key)
  then show "sorted (map ob_id (relay_batch locked rows))"
    by (simp add: relay_batch_def sorted_wrt_take flip: take_map)
qed

lemma relay_batch_empty: "relay_batch (\<lambda>_. False) rows = [] \<longleftrightarrow> (\<forall>r \<in> set rows. \<not> live r)"
proof -
  have "relay_batch (\<lambda>_. False) rows = [] \<longleftrightarrow> sort_key ob_id (filter live rows) = []"
    by (simp add: relay_batch_def BATCH_SIZE_def)
  also have "\<dots> \<longleftrightarrow> filter live rows = []" by (metis set_empty set_sort)
  finally show ?thesis by (auto simp: filter_empty_conv)
qed

lemma runOnce_effect:
  assumes "distinct (map ob_id rows)"
  shows "runOnce accepts locked now rows =
    (length (filter accepts (relay_batch locked rows)),
     map (\<lambda>r. if r \<in> set (relay_batch locked rows) then relayed accepts now r else r) rows,
     filter accepts (relay_batch locked rows))"
  using relay_loop [OF assms _ relay_batch_props(2) [OF assms], of locked accepts now "[]"]
    relay_batch_props(1) [OF assms, of locked]
  by (auto simp: runOnce_def Let_def count_where_def)

text \<open>What has been sent is what has been published, each once.\<close>

definition published_ids :: "outbox_row list \<Rightarrow> nat set" where
  "published_ids rows = ob_id ` {r \<in> set rows. ob_published r \<noteq> None}"

definition accounted :: "outbox_row list \<Rightarrow> outbox_row list \<Rightarrow> outbox_row list \<Rightarrow> bool" where
  "accounted rows rows' sent \<longleftrightarrow>
     map ob_id rows' = map ob_id rows \<and> distinct (map ob_id sent) \<and>
     published_ids rows' = published_ids rows \<union> ob_id ` set sent \<and>
     published_ids rows \<inter> ob_id ` set sent = {}"

lemma image_filter_map:
  "(\<And>r. key (g r) = key r) \<Longrightarrow> key ` {r \<in> set (map g rows). P r} = key ` {r \<in> set rows. P (g r)}"
proof -
  assume key: "\<And>r. key (g r) = key r"
  have "{r \<in> set (map g rows). P r} = g ` {r \<in> set rows. P (g r)}" by auto
  then show ?thesis by (simp only: image_image key)
qed

lemma runOnce_accounted:
  assumes "distinct (map ob_id rows)" and "runOnce accepts locked now rows = (n, rows', sent)"
  shows "accounted rows rows' sent"
proof -
  let ?b = "relay_batch locked rows"
  let ?g = "\<lambda>r. if r \<in> set ?b then relayed accepts now r else r"
  note bp = relay_batch_props [OF assms(1), of locked]
  have e: "rows' = map ?g rows" "sent = filter accepts ?b"
    using assms(2) runOnce_effect [OF assms(1)] by auto
  have mem: "r \<in> set rows \<and> ob_published r = None" if "r \<in> set sent" for r
    using bp(1) that by (auto simp: e(2) live_def)
  have pub: "ob_published (?g r) \<noteq> None \<longleftrightarrow> ob_published r \<noteq> None \<or> r \<in> set sent" for r
    using bp(1) by (auto simp: e(2) relayed_def live_def)
  have "published_ids rows' = ob_id ` {r \<in> set rows. ob_published (?g r) \<noteq> None}"
    unfolding published_ids_def e(1) by (rule image_filter_map) simp
  also have "\<dots> = published_ids rows \<union> ob_id ` set sent"
    unfolding pub published_ids_def using mem by blast
  finally have "published_ids rows' = published_ids rows \<union> ob_id ` set sent" .
  moreover have "published_ids rows \<inter> ob_id ` set sent = {}"
  proof -
    have False if "x \<in> set rows" "ob_published x \<noteq> None" "r \<in> set sent" "ob_id x = ob_id r" for x r
      using mem [OF that(3)] distinct_map_eq [OF assms(1) that(1) _ that(4)] that(2) by simp
    then show ?thesis by (force simp: published_ids_def)
  qed
  moreover have "distinct (map ob_id sent)" unfolding e(2) using bp(2) by (rule distinct_map_filter)
  ultimately show ?thesis by (simp add: accounted_def e(1))
qed

text \<open>
  Two workers whose passes overlap never publish the same event: a pass takes at most a
  hundred unpublished rows that nobody holds, offers them to the broker in the order they were
  written, marks exactly those it accepted, leaves every row that was held, published or parked
  as it was, and a pass that skips the rows of another has none of them in its batch.
\<close>

theorem relay_pass:
  assumes "distinct (map ob_id rows)"
    and "runOnce accepts locked now rows = (n, rows', sent)"
  shows "n = length sent \<and> n \<le> BATCH_SIZE \<and> sorted (map ob_id sent) \<and>
    (\<forall>r \<in> set sent. r \<in> set rows \<and> live r \<and> accepts r \<and> \<not> locked (ob_id r)) \<and>
    accounted rows rows' sent \<and>
    (\<forall>r \<in> set rows. locked (ob_id r) \<or> \<not> live r \<longrightarrow> r \<in> set rows') \<and>
    set (relay_batch (\<lambda>i. locked i \<or> i \<in> ob_id ` set (relay_batch locked rows)) rows) \<inter>
      set (relay_batch locked rows) = {}"
proof -
  let ?b = "relay_batch locked rows"
  note bp = relay_batch_props [OF assms(1), of locked]
  have e: "n = length (filter accepts ?b)" "sent = filter accepts ?b"
    "rows' = map (\<lambda>r. if r \<in> set ?b then relayed accepts now r else r) rows"
    using assms(2) runOnce_effect [OF assms(1)] by auto
  have "length ?b \<le> BATCH_SIZE" by (simp add: relay_batch_def)
  then have len: "n \<le> BATCH_SIZE" using le_trans [OF length_filter_le] by (simp add: e(1))
  have srt: "sorted (map ob_id sent)" unfolding e(2) by (rule sorted_filter [OF bp(3)])
  have mem: "\<forall>r \<in> set sent. r \<in> set rows \<and> live r \<and> accepts r \<and> \<not> locked (ob_id r)"
    using bp(1) by (auto simp: e(2))
  have same: "r \<in> set rows'" if "r \<in> set rows" "locked (ob_id r) \<or> \<not> live r" for r
    using that bp(1) by (auto simp: e(3) image_iff intro!: bexI [of _ r])
  have "r \<notin> set ?b" if "r \<in> set (relay_batch (\<lambda>i. locked i \<or> i \<in> ob_id ` set ?b) rows)" for r
  proof -
    have "\<not> (locked (ob_id r) \<or> ob_id r \<in> ob_id ` set ?b)"
      using subsetD [OF relay_batch_props(1) [OF assms(1)] that] by (elim CollectE conjE)
    then show ?thesis by (simp only: de_Morgan_disj) (metis imageI)
  qed
  then have disj: "set (relay_batch (\<lambda>i. locked i \<or> i \<in> ob_id ` set ?b) rows) \<inter> set ?b = {}" by blast
  have n: "n = length sent" using e(1,2) by simp
  have same': "\<forall>r \<in> set rows. locked (ob_id r) \<or> \<not> live r \<longrightarrow> r \<in> set rows'"
    by (intro ballI impI, rule same)
  show ?thesis
    by (intro conjI) (rule n, rule len, rule srt, rule mem, rule runOnce_accounted [OF assms], rule same', rule disj)
qed

section \<open>Passes come to an end\<close>

definition work_left :: "outbox_row list \<Rightarrow> nat" where
  "work_left rows = sum_list (map (\<lambda>r. if live r then OUTBOX_MAX_ATTEMPTS - ob_attempts r else 0) rows)"

lemma relayed_work:
  "live r \<Longrightarrow> (if live (relayed accepts now r) then OUTBOX_MAX_ATTEMPTS - ob_attempts (relayed accepts now r) else 0)
     < OUTBOX_MAX_ATTEMPTS - ob_attempts r"
  by (auto simp: relayed_def live_def)

lemma work_map_less:
  assumes "\<forall>r \<in> set rows. r \<in> B \<longrightarrow> live r" and "row \<in> set rows" and "row \<in> B"
  shows "work_left (map (\<lambda>r. if r \<in> B then relayed accepts now r else r) rows) < work_left rows"
proof -
  let ?h = "\<lambda>r. if live r then OUTBOX_MAX_ATTEMPTS - ob_attempts r else 0"
  let ?g = "\<lambda>r. if r \<in> B then relayed accepts now r else r"
  have le: "?h (?g r) \<le> ?h r" if "r \<in> set rows" for r
    using assms(1) that relayed_work [of r accepts now] by (auto simp: less_imp_le)
  have lt: "?h (?g row) < ?h row" using assms relayed_work [of row accepts now] by auto
  obtain xs ys where rows: "rows = xs @ row # ys" using assms(2) by (meson split_list)
  have part: "sum_list (map (?h \<circ> ?g) zs) \<le> sum_list (map ?h zs)" if "set zs \<subseteq> set rows" for zs
    using that le by (intro sum_list_mono) (simp only: o_apply, blast)
  have "sum_list (map (?h \<circ> ?g) xs) + (?h (?g row) + sum_list (map (?h \<circ> ?g) ys)) <
      sum_list (map ?h xs) + (?h row + sum_list (map ?h ys))"
    using part [of xs] part [of ys] lt rows by (intro add_le_less_mono add_less_le_mono) auto
  then show ?thesis unfolding work_left_def rows by simp
qed

lemma runOnce_work:
  assumes "distinct (map ob_id rows)" and "\<exists>r \<in> set rows. live r"
  shows "work_left (fst (snd (runOnce accepts (\<lambda>_. False) now rows))) < work_left rows"
proof -
  let ?b = "relay_batch (\<lambda>_. False) rows"
  have ne: "?b \<noteq> []" using relay_batch_empty assms(2) by blast
  have sub: "set ?b \<subseteq> {r \<in> set rows. live r}"
    using relay_batch_props(1) [OF assms(1), of "\<lambda>_. False"] by simp
  have h: "hd ?b \<in> set ?b" using ne by simp
  show ?thesis
    unfolding runOnce_effect [OF assms(1)] fst_conv snd_conv
    by (rule work_map_less [where row = "hd ?b"]) (use sub h in auto)
qed

lemma work_left_0: "work_left rows = 0 \<longleftrightarrow> (\<forall>r \<in> set rows. \<not> live r)"
  by (induction rows) (auto simp: work_left_def live_def)

lemma runOnce_ids:
  "distinct (map ob_id rows) \<Longrightarrow>
   map ob_id (fst (snd (runOnce accepts locked now rows))) = map ob_id rows"
  by (simp add: runOnce_effect o_def)

lemma accounted_trans:
  assumes "accounted rows rows1 sent1" and "accounted rows1 rows2 sent2"
  shows "accounted rows rows2 (sent1 @ sent2)"
  using assms unfolding accounted_def by auto

lemma passes_settle:
  assumes "distinct (map ob_id rows)" and "work_left rows \<le> n"
    and "passes_of broker clock n rows = (rows', sent)"
  shows "(\<forall>r \<in> set rows'. \<not> live r) \<and> accounted rows rows' sent"
  using assms
proof (induction n arbitrary: rows rows' sent)
  case 0
  then show ?case by (simp add: work_left_0 accounted_def)
next
  case (Suc n)
  obtain k rows1 sent1 where one: "runOnce (broker n) (\<lambda>_. False) (clock n) rows = (k, rows1, sent1)"
    by (metis prod_cases3)
  obtain rows2 later where rest: "passes_of broker clock n rows1 = (rows2, later)" by (metis surj_pair)
  have done': "rows' = rows2" "sent = sent1 @ later" using Suc.prems(3) one rest by auto
  note acc = runOnce_accounted [OF Suc.prems(1) one]
  then have dist1: "distinct (map ob_id rows1)" using Suc.prems(1) by (simp add: accounted_def)
  have "work_left rows1 \<le> n"
  proof (cases "\<exists>r \<in> set rows. live r")
    case True
    then show ?thesis
      using runOnce_work [OF Suc.prems(1) True, of "broker n" "clock n"] one Suc.prems(2) by simp
  next
    case False
    then have "relay_batch (\<lambda>_. False) rows = []" using relay_batch_empty by blast
    then have "rows1 = rows" using one runOnce_effect [OF Suc.prems(1)] by simp
    then show ?thesis using False work_left_0 [of rows] by simp
  qed
  from Suc.IH [OF dist1 this rest] show ?case
    using accounted_trans [OF acc] done' by simp
qed

lemma work_left_le: "work_left rows \<le> OUTBOX_MAX_ATTEMPTS * length rows"
proof -
  have "work_left rows \<le> sum_list (map (\<lambda>r. OUTBOX_MAX_ATTEMPTS) rows)"
    unfolding work_left_def by (rule sum_list_mono) simp
  then show ?thesis by (simp add: sum_list_triv mult.commute)
qed

text \<open>
  C33. The outbox empties: whatever the broker refuses and whenever, ten passes per row are enough
  for every event to be published or parked after ten refusals; each event that was published
  went out on the channel once, none of those that had gone out before went again, and the
  number of parked events is what the health check counts.
\<close>

theorem relay_settles:
  assumes "distinct (map ob_id rows)" and "OUTBOX_MAX_ATTEMPTS * length rows \<le> n"
    and "passes_of broker clock n rows = (rows', sent)"
  shows "(\<forall>r \<in> set rows'. ob_published r \<noteq> None \<or> OUTBOX_MAX_ATTEMPTS \<le> ob_attempts r) \<and>
    distinct (map ob_id sent) \<and>
    published_ids rows' = published_ids rows \<union> ob_id ` set sent \<and>
    published_ids rows \<inter> ob_id ` set sent = {} \<and>
    deadLettered rows' = length (filter (\<lambda>r. ob_published r = None) rows')"
proof -
  have "work_left rows \<le> n" using assms(2) work_left_le [of rows] by linarith
  note settled = passes_settle [OF assms(1) this assms(3)]
  then have parked: "\<forall>r \<in> set rows'. ob_published r \<noteq> None \<or> OUTBOX_MAX_ATTEMPTS \<le> ob_attempts r"
    by (auto simp: live_def)
  then have "filter (\<lambda>r. ob_published r = None \<and> OUTBOX_MAX_ATTEMPTS \<le> ob_attempts r) rows' =
      filter (\<lambda>r. ob_published r = None) rows'"
    by (intro filter_cong) auto
  then show ?thesis using settled parked by (simp add: accounted_def deadLettered_def count_where_def)
qed

definition sample_rows :: "outbox_row list" where
  "sample_rows = outbox_rows 7 [event ''order.created'' ''S'' ''O1'' [], event ''order.created'' ''S'' ''O2'' [],
     event ''order.status_changed'' ''S'' ''O1'' []]"

lemma sample_rows_ids: "map ob_id sample_rows = [7, 8, 9]"
  by (simp add: sample_rows_def)

text \<open>A pass that finds row 7 held by another worker, and a broker that never takes row 8.\<close>

theorem relay_pass_witness:
  "case runOnce (\<lambda>r. ob_id r \<noteq> 8) (\<lambda>i. i = 7) 100 sample_rows of (n, rows', sent) \<Rightarrow>
     n = 1 \<and> map ob_id sent = [9] \<and> accounted sample_rows rows' sent"
proof -
  obtain n rows' sent where r: "runOnce (\<lambda>r. ob_id r \<noteq> 8) (\<lambda>i. i = 7) 100 sample_rows = (n, rows', sent)"
    by (metis prod_cases3)
  have "distinct (map ob_id sample_rows)" by (simp add: sample_rows_ids)
  note facts = relay_pass [OF this r]
  have "(let (n, rows', sent) = runOnce (\<lambda>r. ob_id r \<noteq> 8) (\<lambda>i. i = 7) 100 sample_rows
      in n = 1 \<and> map ob_id sent = [9])"
    by code_simp
  then show ?thesis using facts r by simp
qed

theorem relay_settles_witness:
  "case passes_of (\<lambda>_ r. ob_id r \<noteq> 8) int 30 sample_rows of (rows', sent) \<Rightarrow>
     map ob_id sent = [7, 9] \<and> deadLettered rows' = 1 \<and>
     published_ids rows' = published_ids sample_rows \<union> ob_id ` set sent"
proof -
  obtain rows' sent where r: "passes_of (\<lambda>_ r. ob_id r \<noteq> 8) int 30 sample_rows = (rows', sent)"
    by (metis surj_pair)
  have "distinct (map ob_id sample_rows)" "OUTBOX_MAX_ATTEMPTS * length sample_rows \<le> 30"
    by (simp_all add: sample_rows_ids OUTBOX_MAX_ATTEMPTS_def flip: length_map [of ob_id])
  note facts = relay_settles [OF this r]
  have "(let (rows', sent) = passes_of (\<lambda>_ r. ob_id r \<noteq> 8) int 30 sample_rows
      in map ob_id sent = [7, 9] \<and> deadLettered rows' = 1)"
    by code_simp
  then show ?thesis using facts r by simp
qed

end
