(* ===== verification/OrderEvents.thy ===== *)
theory OrderEvents
  imports Schema
begin

text \<open>
  \<open>OrderEventsService\<close> and the bridge that feeds it (\<open>modules/orders/order-events.service.ts\<close>,
  \<open>order-events.bridge.ts\<close>): one process' fan-out of order events to the screens watching a store,
  with a bounded buffer for a screen that reconnects.  A listener is a name; what it was told is
  kept as a list.  A listener that throws is logged and does not stop the others.
\<close>

definition REPLAY_LIMIT :: nat where
  "REPLAY_LIMIT = 50"

record order_event =
  oe_id :: nat
  oe_type :: string
  oe_store :: string
  oe_order :: string
  oe_number :: string
  oe_status :: string
  oe_at :: int

record fanout =
  fo_next :: nat
  fo_recent :: "string \<Rightarrow> order_event list"
  fo_listeners :: "string \<Rightarrow> string list"
  fo_told :: "(string \<times> order_event) list"

definition start_fanout :: fanout where
  "start_fanout = \<lparr>fo_next = 1, fo_recent = (\<lambda>_. []), fo_listeners = (\<lambda>_. []), fo_told = []\<rparr>"

text \<open>\<open>buffer.push(e); if (buffer.length > N) buffer.splice(0, buffer.length - N)\<close>\<close>

definition push_bounded :: "order_event \<Rightarrow> order_event list \<Rightarrow> order_event list" where
  "push_bounded e buffer =
     (let b = buffer @ [e] in if length b > REPLAY_LIMIT then drop (length b - REPLAY_LIMIT) b else b)"

record event_facts =
  ef_type :: string
  ef_store :: string
  ef_order :: string
  ef_number :: string
  ef_status :: string

definition fanout_emit :: "int \<Rightarrow> event_facts \<Rightarrow> fanout \<Rightarrow> fanout" where
  "fanout_emit now f fo =
     (let e = \<lparr>oe_id = fo_next fo, oe_type = ef_type f, oe_store = ef_store f, oe_order = ef_order f,
               oe_number = ef_number f, oe_status = ef_status f, oe_at = now\<rparr>
      in fo\<lparr>fo_next := fo_next fo + 1,
            fo_recent := (fo_recent fo)(ef_store f := push_bounded e (fo_recent fo (ef_store f))),
            fo_told := fo_told fo @ map (\<lambda>l. (l, e)) (fo_listeners fo (ef_store f))\<rparr>)"

text \<open>The listeners of a store are a set: adding one twice keeps one.\<close>

definition fanout_subscribe :: "string \<Rightarrow> string \<Rightarrow> nat option \<Rightarrow> fanout \<Rightarrow> fanout" where
  "fanout_subscribe storeId listener afterId fo =
     (let replay = (case afterId of
                      None \<Rightarrow> []
                    | Some k \<Rightarrow> filter (\<lambda>e. oe_id e > k) (fo_recent fo storeId))
      in fo\<lparr>fo_told := fo_told fo @ map (\<lambda>e. (listener, e)) replay,
            fo_listeners := (fo_listeners fo)(storeId := List.insert listener (fo_listeners fo storeId))\<rparr>)"

definition fanout_unsubscribe :: "string \<Rightarrow> string \<Rightarrow> fanout \<Rightarrow> fanout" where
  "fanout_unsubscribe storeId listener fo =
     fo\<lparr>fo_listeners := (fo_listeners fo)(storeId := removeAll listener (fo_listeners fo storeId))\<rparr>"

definition subscriberCount :: "string \<Rightarrow> fanout \<Rightarrow> nat" where
  "subscriberCount storeId fo = length (fo_listeners fo storeId)"

text \<open>What the bridge makes of a published row; one without a store is not passed on.\<close>

definition onMessage :: "int \<Rightarrow> outbox_event \<Rightarrow> fanout \<Rightarrow> fanout" where
  "onMessage now ev fo =
     (case ev_store ev of
        None \<Rightarrow> fo
      | Some s \<Rightarrow>
          if s = [] then fo
          else fanout_emit now
            \<lparr>ef_type = ev_type ev, ef_store = s,
             ef_order = (case map_of (ev_payload ev) ''orderId'' of None \<Rightarrow> [] | Some x \<Rightarrow> x),
             ef_number = (case map_of (ev_payload ev) ''orderNumber'' of None \<Rightarrow> [] | Some x \<Rightarrow> x),
             ef_status = (case map_of (ev_payload ev) ''status'' of None \<Rightarrow> [] | Some x \<Rightarrow> x)\<rparr> fo)"

section \<open>What a screen has heard\<close>

datatype fan_op =
    FanMessage int outbox_event
  | FanSubscribe string string "nat option"
  | FanUnsubscribe string string

fun fan_step :: "fan_op \<Rightarrow> fanout \<Rightarrow> fanout" where
  "fan_step (FanMessage now ev) fo = onMessage now ev fo"
| "fan_step (FanSubscribe s l k) fo = fanout_subscribe s l k fo"
| "fan_step (FanUnsubscribe s l) fo = fanout_unsubscribe s l fo"

definition fan_run :: "fan_op list \<Rightarrow> fanout \<Rightarrow> fanout" where
  "fan_run ops fo = fold fan_step ops fo"

definition lastn :: "nat \<Rightarrow> 'a list \<Rightarrow> 'a list" where
  "lastn n xs = drop (length xs - n) xs"

lemma push_bounded_lastn:
  assumes "buffer = lastn REPLAY_LIMIT xs"
  shows "push_bounded e buffer = lastn REPLAY_LIMIT (xs @ [e])"
proof (cases "length xs < REPLAY_LIMIT")
  case True
  then show ?thesis using assms by (simp add: push_bounded_def lastn_def Let_def)
next
  case False
  then have "Suc (length xs - REPLAY_LIMIT) = Suc (length xs) - REPLAY_LIMIT" by simp
  moreover have "drop 1 (drop (length xs - REPLAY_LIMIT) xs) = drop (Suc (length xs - REPLAY_LIMIT)) xs"
    by simp
  ultimately show ?thesis using assms False
    by (simp add: push_bounded_def lastn_def Let_def del: drop_drop)
qed

lemma lastn_short: "length xs \<le> n \<Longrightarrow> lastn n xs = xs"
  by (simp add: lastn_def)

lemma lastn_append: "length ys \<le> n \<Longrightarrow> lastn n (xs @ ys) = lastn (n - length ys) xs @ ys"
  by (simp add: lastn_def)

lemma set_lastn: "set (lastn n xs) \<subseteq> set xs"
  by (simp add: lastn_def set_drop_subset)

lemma push_bounded_set: "set (push_bounded e b) \<subseteq> insert e (set b)"
  using set_drop_subset [of "length (b @ [e]) - REPLAY_LIMIT" "b @ [e]"]
  by (simp add: push_bounded_def Let_def split: if_splits)

lemma push_bounded_length: "length b \<le> REPLAY_LIMIT \<Longrightarrow> length (push_bounded e b) \<le> REPLAY_LIMIT"
  by (simp add: push_bounded_def Let_def REPLAY_LIMIT_def)

definition fan_ok :: "fanout \<Rightarrow> bool" where
  "fan_ok fo \<longleftrightarrow>
     (\<forall>s. distinct (fo_listeners fo s) \<and> length (fo_recent fo s) \<le> REPLAY_LIMIT \<and>
        (\<forall>e \<in> set (fo_recent fo s). oe_id e < fo_next fo \<and> oe_store e = s))"

lemma fan_ok_emit:
  assumes "fan_ok fo"
  shows "fan_ok (fanout_emit now f fo)"
proof -
  let ?e = "\<lparr>oe_id = fo_next fo, oe_type = ef_type f, oe_store = ef_store f, oe_order = ef_order f,
      oe_number = ef_number f, oe_status = ef_status f, oe_at = now\<rparr>"
  have "oe_id x < fo_next fo + 1 \<and> oe_store x = ef_store f"
    if "x \<in> set (push_bounded ?e (fo_recent fo (ef_store f)))" for x
    using that push_bounded_set [of ?e "fo_recent fo (ef_store f)"] assms
    by (fastforce simp: fan_ok_def)
  then show ?thesis
    using assms push_bounded_length [of "fo_recent fo (ef_store f)" ?e]
    by (auto simp: fan_ok_def fanout_emit_def Let_def less_SucI)
qed

lemma fan_ok_step: "fan_ok fo \<Longrightarrow> fan_ok (fan_step op fo)"
proof (cases op)
  case (FanMessage now ev)
  then show "fan_ok fo \<Longrightarrow> fan_ok (fan_step op fo)"
    by (auto simp: onMessage_def fan_ok_emit split: option.split)
qed (auto simp: fan_ok_def fanout_subscribe_def fanout_unsubscribe_def Let_def distinct_removeAll)

lemma fan_ok_run: "fan_ok fo \<Longrightarrow> fan_ok (fan_run ops fo)"
  by (induction ops arbitrary: fo) (auto simp: fan_run_def fan_ok_step)

lemma fan_ok_start: "fan_ok start_fanout"
  by (simp add: fan_ok_def start_fanout_def)

definition heard :: "string \<Rightarrow> string \<Rightarrow> fanout \<Rightarrow> order_event list" where
  "heard l s fo = map snd (filter (\<lambda>p. fst p = l \<and> oe_store (snd p) = s) (fo_told fo))"

text \<open>The operation does not come from, or go to, the connection of this listener.\<close>

fun concerns :: "string \<Rightarrow> fan_op \<Rightarrow> bool" where
  "concerns l (FanMessage _ _) = False"
| "concerns l (FanSubscribe _ m _) = (m = l)"
| "concerns l (FanUnsubscribe _ m) = (m = l)"

text \<open>
  While \<open>stay\<close> listens and \<open>gone\<close> does not: what \<open>stay\<close> newly hears is what enters the buffer.
\<close>

definition apart_since :: "string \<Rightarrow> string \<Rightarrow> string \<Rightarrow> fanout \<Rightarrow> fanout \<Rightarrow> order_event list \<Rightarrow> bool" where
  "apart_since stay gone s fo0 fo new \<longleftrightarrow>
     stay \<in> set (fo_listeners fo s) \<and> gone \<notin> set (fo_listeners fo s) \<and>
     heard stay s fo = heard stay s fo0 @ new \<and> heard gone s fo = heard gone s fo0 \<and>
     fo_recent fo s = lastn REPLAY_LIMIT (fo_recent fo0 s @ new) \<and>
     (\<forall>e \<in> set new. fo_next fo0 \<le> oe_id e) \<and> fo_next fo0 \<le> fo_next fo"

lemma told_once:
  assumes "distinct ls"
  shows "filter (\<lambda>p. fst p = l \<and> oe_store (snd p) = s) (map (\<lambda>l. (l, e)) ls) =
    (if l \<in> set ls \<and> oe_store e = s then [(l, e)] else [])"
  using assms by (induction ls) (auto split: if_splits)

lemma apart_emit:
  assumes "fan_ok fo" and "apart_since stay gone s fo0 fo new"
  shows "\<exists>new'. apart_since stay gone s fo0 (fanout_emit now f fo) new'"
proof -
  let ?e = "\<lparr>oe_id = fo_next fo, oe_type = ef_type f, oe_store = ef_store f, oe_order = ef_order f,
      oe_number = ef_number f, oe_status = ef_status f, oe_at = now\<rparr>"
  have d: "distinct (fo_listeners fo (ef_store f))" using assms(1) by (simp add: fan_ok_def)
  have h: "heard l s (fanout_emit now f fo) =
      heard l s fo @ (if l \<in> set (fo_listeners fo (ef_store f)) \<and> ef_store f = s then [?e] else [])" for l
    by (auto simp: heard_def fanout_emit_def Let_def told_once [OF d])
  show ?thesis
  proof (cases "ef_store f = s")
    case True
    have "fo_recent (fanout_emit now f fo) s = push_bounded ?e (fo_recent fo s)"
      using True by (simp add: fanout_emit_def Let_def)
    also have "\<dots> = lastn REPLAY_LIMIT ((fo_recent fo0 s @ new) @ [?e])"
      by (rule push_bounded_lastn) (use assms(2) in \<open>simp add: apart_since_def\<close>)
    finally have "apart_since stay gone s fo0 (fanout_emit now f fo) (new @ [?e])"
      using assms(2) True h by (auto simp: apart_since_def fanout_emit_def Let_def)
    then show ?thesis by blast
  next
    case False
    then have "apart_since stay gone s fo0 (fanout_emit now f fo) new"
      using assms(2) h by (auto simp: apart_since_def fanout_emit_def Let_def)
    then show ?thesis by blast
  qed
qed

lemma apart_step:
  assumes "fan_ok fo" and "apart_since stay gone s fo0 fo new"
    and "\<not> concerns stay op" and "\<not> concerns gone op"
  shows "\<exists>new'. apart_since stay gone s fo0 (fan_step op fo) new'"
proof (cases op)
  case (FanMessage now ev)
  then show ?thesis using apart_emit [OF assms(1,2)] assms(2)
    by (auto simp: onMessage_def split: option.split)
next
  case (FanSubscribe t l k)
  then have "heard x s (fan_step op fo) = heard x s fo" if "x \<noteq> l" for x
    using that by (auto simp: heard_def fanout_subscribe_def Let_def filter_empty_conv)
  then have "apart_since stay gone s fo0 (fan_step op fo) new"
    using assms FanSubscribe by (auto simp: apart_since_def fanout_subscribe_def Let_def)
  then show ?thesis by blast
next
  case (FanUnsubscribe t l)
  then have "apart_since stay gone s fo0 (fan_step op fo) new"
    using assms by (auto simp: apart_since_def fanout_unsubscribe_def heard_def)
  then show ?thesis by blast
qed

lemma apart_run:
  assumes "fan_ok fo" and "apart_since stay gone s fo0 fo new"
    and "\<forall>op \<in> set ops. \<not> concerns stay op \<and> \<not> concerns gone op"
  shows "\<exists>new'. apart_since stay gone s fo0 (fan_run ops fo) new'"
  using assms
proof (induction ops arbitrary: fo new)
  case (Cons op ops)
  obtain new' where "apart_since stay gone s fo0 (fan_step op fo) new'"
    using apart_step [OF Cons.prems(1,2)] Cons.prems(3) by auto
  from Cons.IH [OF fan_ok_step [OF Cons.prems(1)] this] Cons.prems(3) show ?case
    by (simp add: fan_run_def)
qed (auto simp: fan_run_def)

text \<open>
  C34. A screen that loses its connection and comes back with the number of the last event it saw
  has heard what a screen that stayed connected heard, event for event and in the same order, as
  long as no more than fifty events of the store were sent in between.
\<close>

theorem reconnect_misses_nothing:
  assumes "fo = fan_run before start_fanout"
    and "stay \<in> set (fo_listeners fo s)" and "gone \<noteq> stay"
    and "k < fo_next fo" and "\<forall>e \<in> set (fo_recent fo s). oe_id e \<le> k"
    and "\<forall>op \<in> set ops. \<not> concerns stay op \<and> \<not> concerns gone op"
    and "away = fan_run ops (fanout_unsubscribe s gone fo)"
    and "length (heard stay s away) \<le> length (heard stay s fo) + REPLAY_LIMIT"
  shows "\<exists>missed. heard stay s (fanout_subscribe s gone (Some k) away) = heard stay s fo @ missed \<and>
    heard gone s (fanout_subscribe s gone (Some k) away) = heard gone s fo @ missed"
proof -
  let ?fo0 = "fanout_unsubscribe s gone fo"
  have ok0: "fan_ok ?fo0"
    using fan_ok_step [OF fan_ok_run [OF fan_ok_start], of "FanUnsubscribe s gone"] assms(1) by simp
  have len0: "length (fo_recent ?fo0 s) \<le> REPLAY_LIMIT" using ok0 by (simp add: fan_ok_def)
  have "apart_since stay gone s ?fo0 ?fo0 []"
    using assms(2,3) len0 by (simp add: apart_since_def lastn_short) (simp add: fanout_unsubscribe_def)
  from apart_run [OF ok0 this assms(6)] obtain new where new: "apart_since stay gone s ?fo0 away new"
    using assms(7) by auto
  have h0: "heard l s ?fo0 = heard l s fo" for l by (simp add: heard_def fanout_unsubscribe_def)
  have "length new \<le> REPLAY_LIMIT" using new assms(8) by (simp add: apart_since_def h0)
  then have buf: "fo_recent away s = lastn (REPLAY_LIMIT - length new) (fo_recent ?fo0 s) @ new"
    using new by (simp add: apart_since_def lastn_append)
  have old: "\<forall>e \<in> set (lastn (REPLAY_LIMIT - length new) (fo_recent ?fo0 s)). oe_id e \<le> k"
    using assms(5) set_lastn [of "REPLAY_LIMIT - length new" "fo_recent ?fo0 s"]
    by (auto simp: fanout_unsubscribe_def)
  have young: "\<forall>e \<in> set new. k < oe_id e"
    using new assms(4) by (force simp: apart_since_def fanout_unsubscribe_def)
  have "filter (\<lambda>e. oe_id e > k) (fo_recent away s) = new"
    using old young unfolding buf by (simp add: filter_id_conv filter_empty_conv not_less)
  moreover have "\<forall>e \<in> set new. oe_store e = s"
    using fan_ok_run [OF ok0, of ops] assms(7) buf by (auto simp: fan_ok_def)
  ultimately have "heard stay s (fanout_subscribe s gone (Some k) away) = heard stay s fo @ new"
    and "heard gone s (fanout_subscribe s gone (Some k) away) = heard gone s fo @ new"
    using new assms(3) h0
    by (auto simp: apart_since_def heard_def fanout_subscribe_def Let_def filter_empty_conv filter_map o_def
        filter_id_conv)
  then show ?thesis by blast
qed

definition placed :: "string \<Rightarrow> fan_op" where
  "placed i = FanMessage 9 (event ''order.created'' ''S'' i [(''orderId'', i)])"

theorem reconnect_misses_nothing_witness:
  "\<exists>missed. heard ''till'' ''S'' (fanout_subscribe ''S'' ''phone'' (Some 1) (fan_run [placed ''O2'', placed ''O3'']
      (fanout_unsubscribe ''S'' ''phone''
        (fan_run [FanSubscribe ''S'' ''till'' None, FanSubscribe ''S'' ''phone'' None, placed ''O1''] start_fanout)))) =
     heard ''till'' ''S''
       (fan_run [FanSubscribe ''S'' ''till'' None, FanSubscribe ''S'' ''phone'' None, placed ''O1''] start_fanout) @ missed \<and>
   heard ''phone'' ''S'' (fanout_subscribe ''S'' ''phone'' (Some 1) (fan_run [placed ''O2'', placed ''O3'']
      (fanout_unsubscribe ''S'' ''phone''
        (fan_run [FanSubscribe ''S'' ''till'' None, FanSubscribe ''S'' ''phone'' None, placed ''O1''] start_fanout)))) =
     heard ''phone'' ''S''
       (fan_run [FanSubscribe ''S'' ''till'' None, FanSubscribe ''S'' ''phone'' None, placed ''O1''] start_fanout) @ missed"
  by (rule reconnect_misses_nothing [OF refl _ _ _ _ _ refl];
      simp add: fan_run_def placed_def onMessage_def fanout_emit_def fanout_subscribe_def
        fanout_unsubscribe_def start_fanout_def heard_def push_bounded_def REPLAY_LIMIT_def Let_def List.insert_def)

end
