(* ===== verification/Spec2Isabelle.thy ===== *)
theory Spec2Isabelle
  imports OrderMachine StoreLifecycle Permissions Csv Inventory CountSessions Tax Coupons Cart
    CheckoutProps CheckoutRetry CheckoutFailures Orders OrderProps OrderSweep OrderCash PosProps
    PaymentProps BillingProps WebhookProps Dunning DeliveryProps SessionProps StoreOpsProps
    CatalogRuns OrderRuns LinkProps ReportProps StorefrontProps EndpointProps LowStock Stripe TailSampler Lease Relay OrderEvents
begin

text \<open>
  Verification of the Local Stores platform: a multi-tenant shop (\<open>apps/api\<close>, NestJS over
  PostgreSQL) with rules shared with the browser (\<open>packages/shared\<close>).

  State.  The services keep everything in the database.  \<open>Schema\<close> has one record per table the
  services use and a record \<open>world\<close> holding the tables as lists in insertion order, the counters of
  the metrics registry, the outbox and the audit log.  A transaction (\<open>withTenant\<close>) is a function
  to \<open>app_error + ('a * world)\<close>; \<open>run_tx\<close> keeps its world or drops it.  A service operation has
  type \<open>world => 'a outcome\<close>: its answer, which may be an error, and the world after it.  Values
  the code draws (row ids, tokens, the clock) are arguments.  Three services have tables nobody
  else writes and keep them apart from the world: sign-in (\<open>Sessions.auth\<close>), the catalog
  (\<open>Catalog.catalog\<close>) and opening hours.  A query without an \<open>ORDER BY\<close> reads a table in the order
  of its rows, and a \<open>LIMIT\<close> is the code's own (100 stores a suspension sweep, 200 orders an expiry
  sweep or a delivery board, 100 events a relay pass).

  Errors.  \<open>Prelude\<close> has \<open>app_error\<close>: the errors the code throws, and the three the database throws
  (a unique index, a check, a trigger).  \<open>bindE\<close>, \<open>guardE\<close>, \<open>foldE\<close> and \<open>mapsE\<close> sequence fallible
  code.  The HTTP status a single throw overrides (409, 422) is not kept, its code is.

  Interfaces.  \<open>Prelude.status_machine\<close> (a table of transitions and its decision function) is
  interpreted by the orders' and the stores' tables; \<open>Stock.ledger_store\<close> (a quantity that is the
  sum of a ledger) by the stock tables and their trigger; \<open>Tax.tax_provider\<close> by the configured
  rates; \<open>CheckoutFacts.stock_lines\<close> (a step per order line that moves stock of that line's
  variant) by reserving and by the stock effects of a status change.

  Selling.  \<open>Stock\<close>, \<open>Inventory\<close>, \<open>CountSessions\<close>: the ledger, its trigger and the services that
  write it.  \<open>Cart\<close>, \<open>Coupons\<close>, \<open>Tax\<close>, \<open>Checkout\<close> (\<open>modules/cart, coupons, checkout\<close>): from a
  basket to an order; \<open>CheckoutCauses\<close> states when that is possible and shows that the transaction
  goes through in exactly these cases, \<open>CheckoutProps\<close> what an order writes, \<open>CheckoutRetry\<close> that a
  request is refused for such a cause only, writing nothing but counters, and what a race gets,
  \<open>CheckoutFailures\<close> the counters and two faults.  \<open>OrderRuns\<close> proves over every sequence of requests,
  webhooks and jobs that a key once answered keeps its order.  \<open>Orders\<close>
  (\<open>modules/orders/orders.service.ts\<close>): \<open>OrderProps\<close> shows what every status change does and that it
  refines one abstract stock move per edge, \<open>OrderSweep\<close> the expiry sweep, \<open>OrderCash\<close> cash.
  \<open>OrderFrame\<close> lists what a status change leaves alone, for the components that call it.  \<open>Pos\<close> is
  the counter sale, \<open>Delivery\<close> the driver's side of an order.

  Money.  \<open>Payments\<close> (card payments, refunds and the trigger that bounds them), \<open>Webhooks\<close> (what the
  payment company reports, once), \<open>Billing\<close> and \<open>Dunning\<close> (the owner's subscription, its grace
  period, suspension, return and the notices about it).

  Identity and stores.  \<open>Sessions\<close> (\<open>modules/auth\<close>: sign-in, second factor, rotation of refresh
  tokens): \<open>SessionProps\<close> proves over every sequence of requests that a reused token ends its
  family.  \<open>Accounts\<close> (links sent by e-mail, password reset, invitations) and \<open>Staff\<close> (members of a store,
  their permissions, applications for a store) share the record \<open>people\<close>.  \<open>Permissions\<close>, \<open>StoreLifecycle\<close>, \<open>Contrast\<close> (shared rules), \<open>StoreOps\<close>
  (\<open>modules/stores/store.service.ts\<close>).  \<open>Catalog\<close> (\<open>modules/catalog/catalog.service.ts\<close>) with the
  indexes, checks and trigger of its migration; \<open>Csv\<close> the catalog and report files, \<open>CatalogImport\<close>
  the export of the tables and the import of a file; \<open>CatalogRuns\<close> proves what every sequence of
  catalog requests keeps, when a product comes on sale and what an import may touch.

  Pictures and the shop window.  \<open>Media\<close> (\<open>modules/media\<close>, \<open>infra/storage\<close>): signed permissions, the
  quarantine, the job that inspects and re-encodes, and the policies of the rows; \<open>MediaProps\<close> proves
  over every sequence of requests and deliveries of jobs, repeated ones included, what may lie in the
  public folder.  \<open>Storefront\<close> (\<open>modules/storefront\<close>) is what anybody reads of stores, catalog and
  media; \<open>StorefrontProps\<close> composes the two.

  The door.  \<open>OAuth\<close> (the signed tokens, the Google round trip): \<open>OAuthProps\<close> proves whom a sign-in lets in
  and that accounts stay well-formed and enterable over every sequence of requests.  \<open>Guards\<close>
  (\<open>common/guards\<close>) stands before every route; \<open>GuardProps\<close> composes it with tokens and team.  \<open>Endpoints\<close>
  is the table of the 143 declared routes; \<open>EndpointProps\<close> proves for any router that keeps the locale
  \<open>routing\<close> whom each handler can run for.  \<open>Stripe\<close> is the adapter under \<open>Payments\<close> and \<open>Billing\<close>, \<open>LowStock\<close> the daily digest over \<open>Inventory\<close> and
  \<open>Notifications\<close>, \<open>TailSampler\<close> the buffer that decides which traces are kept.

  Figures.  \<open>Rollup\<close> (the daily tables rebuilt from orders, lines and refunds) and \<open>Reports\<close> (what is
  read from them).  \<open>RollupProps\<close> gives the row of each day after a pass and shows that the months of
  a backfill are its window (600 of them are enough for any window under 28 * 599 days);
  \<open>ReportProps\<close> that a report is the trade it covers, by day, week or month.  Days count from 1970.

  Worker.  \<open>Lease\<close> (which worker runs a job), \<open>Relay\<close> (the outbox to the broker; ten passes per row
  are enough, since each pass publishes a live row or charges it an attempt), \<open>OrderEvents\<close> (the
  fan-out to screens and its replay buffer).

  Outside code.  The payment company, the broker, hashing, encryption, one-time codes, signed
  tokens, presigned addresses, Unicode normalisation, collation and distances are arguments of
  the operations that use them.  Prices are integers of cents; coordinates, luminance and
  distances are reals where the code has doubles.

  Not modelled.  The queue processors around the media and mail jobs (wrappers of a package),
  the bodies of most HTTP handlers (they parse and pass on; their routes are in \<open>Endpoints\<close>) and the web application (rendering and fetch calls).
\<close>

end
